(* ===== verification/Prelude.thy ===== *)
theory Prelude
  imports
    Complex_Main
    "HOL-Library.AList"
    "HOL-Library.Char_ord"
    "HOL-Library.List_Lexorder"
    "HOL-Library.Product_Lexorder"
    "HOL-Library.Multiset"
begin

text \<open>
  Shared vocabulary of the development: the collections of rewrite rules the component
  theories add to, results that may be an error, Python dictionaries as association lists
  in insertion order, sorting, and two interface locales (a state machine with an
  invariant, and an encoder with a decoder that works in the middle of a buffer) that
  several components interpret.
\<close>

named_theorems text_simps "evaluation and algebra of Python string operations"
named_theorems dict_simps "lookup and update laws of insertion-ordered dictionaries"

section \<open>Results that may be an error\<close>

definition bindE :: "'e + 'a \<Rightarrow> ('a \<Rightarrow> 'e + 'b) \<Rightarrow> 'e + 'b" where
  "bindE r f = (case r of Inl e \<Rightarrow> Inl e | Inr x \<Rightarrow> f x)"

lemma bindE_simps [simp]:
  "bindE (Inl e) f = Inl e"
  "bindE (Inr x) f = f x"
  by (simp_all add: bindE_def)

lemma bindE_Inr_iff: "bindE r f = Inr y \<longleftrightarrow> (\<exists>x. r = Inr x \<and> f x = Inr y)"
  by (cases r) auto

section \<open>Optional and falsy values\<close>

text \<open>Python's \<open>a or b\<close> on optional strings: both \<open>None\<close> and the empty string are false.\<close>

definition truthy :: "string option \<Rightarrow> bool" where
  "truthy x = (case x of None \<Rightarrow> False | Some s \<Rightarrow> s \<noteq> [])"

definition or_str :: "string option \<Rightarrow> string option \<Rightarrow> string option" where
  "or_str x y = (if truthy x then x else y)"

definition str_or :: "string option \<Rightarrow> string \<Rightarrow> string" where
  "str_or x d = (case x of None \<Rightarrow> d | Some s \<Rightarrow> if s = [] then d else s)"

definition falsy_none :: "string \<Rightarrow> string option" where
  "falsy_none s = (if s = [] then None else Some s)"

definition get_or :: "'a option \<Rightarrow> 'a \<Rightarrow> 'a" where
  "get_or x d = (case x of None \<Rightarrow> d | Some y \<Rightarrow> y)"

lemma truthy_simps [simp]:
  "\<not> truthy None" "truthy (Some s) \<longleftrightarrow> s \<noteq> []"
  by (simp_all add: truthy_def)

lemma truthyE: "truthy x \<Longrightarrow> \<exists>s. x = Some s \<and> s \<noteq> []"
  by (cases x) auto

lemma falsy_none_simps [simp]:
  "falsy_none s = None \<longleftrightarrow> s = []" "falsy_none s = Some t \<longleftrightarrow> s = t \<and> t \<noteq> []"
  "falsy_none [] = None"
  by (auto simp: falsy_none_def)

section \<open>Dictionaries in insertion order\<close>

type_synonym ('k, 'v) dict = "('k \<times> 'v) list"

definition dict_ok :: "('k, 'v) dict \<Rightarrow> bool" where
  "dict_ok d = distinct (map fst d)"

definition dict_get :: "('k, 'v) dict \<Rightarrow> 'k \<Rightarrow> 'v option" where
  "dict_get d k = map_of d k"

definition dict_set :: "'k \<Rightarrow> 'v \<Rightarrow> ('k, 'v) dict \<Rightarrow> ('k, 'v) dict" where
  "dict_set k v d = AList.update k v d"

definition setdefault :: "'k \<Rightarrow> 'v \<Rightarrow> ('k, 'v) dict \<Rightarrow> ('k, 'v) dict" where
  "setdefault k v d = (if dict_get d k = None then d @ [(k, v)] else d)"

definition dict_del :: "'k \<Rightarrow> ('k, 'v) dict \<Rightarrow> ('k, 'v) dict" where
  "dict_del k d = filter (\<lambda>kv. fst kv \<noteq> k) d"

text \<open>\<open>d.setdefault(k, []).append(v)\<close>: append to the bucket of a key, creating it at the end.\<close>

definition bucket_add :: "'k \<Rightarrow> 'v \<Rightarrow> ('k, 'v list) dict \<Rightarrow> ('k, 'v list) dict" where
  "bucket_add k v d =
     (case dict_get d k of None \<Rightarrow> d @ [(k, [v])] | Some vs \<Rightarrow> dict_set k (vs @ [v]) d)"

definition bucket_all :: "('a \<Rightarrow> 'k) \<Rightarrow> 'a list \<Rightarrow> ('k, 'a list) dict" where
  "bucket_all key xs = foldl (\<lambda>d x. bucket_add (key x) x d) [] xs"

lemma dict_get_simps [dict_simps, simp]:
  "dict_get [] k = None"
  "dict_get ((k', v) # d) k = (if k = k' then Some v else dict_get d k)"
  by (simp_all add: dict_get_def)

lemma dict_get_append [dict_simps]:
  "dict_get (d @ e) k = (case dict_get d k of None \<Rightarrow> dict_get e k | Some v \<Rightarrow> Some v)"
  by (simp add: dict_get_def map_add_def split: option.splits)

lemma dict_get_None_iff [dict_simps]: "dict_get d k = None \<longleftrightarrow> k \<notin> fst ` set d"
  by (simp add: dict_get_def map_of_eq_None_iff)

lemma dict_get_SomeD: "dict_get d k = Some v \<Longrightarrow> (k, v) \<in> set d"
  by (simp add: dict_get_def map_of_SomeD)

lemma dict_get_in: "dict_ok d \<Longrightarrow> (k, v) \<in> set d \<Longrightarrow> dict_get d k = Some v"
  by (simp add: dict_get_def dict_ok_def)

lemma dict_get_set [dict_simps, simp]:
  "dict_get (dict_set k v d) k' = (if k' = k then Some v else dict_get d k')"
  by (auto simp: dict_get_def dict_set_def update_conv')

lemma keys_dict_set [dict_simps]:
  "fst ` set (dict_set k v d) = insert k (fst ` set d)"
  by (simp add: dict_set_def dom_update)

lemma dict_ok_set [simp]: "dict_ok d \<Longrightarrow> dict_ok (dict_set k v d)"
  by (simp add: dict_ok_def dict_set_def distinct_update)

lemma dict_get_del [dict_simps, simp]:
  "dict_get (dict_del k d) k' = (if k' = k then None else dict_get d k')"
  by (induction d) (auto simp: dict_del_def)

lemma dict_ok_filter [simp]: "dict_ok d \<Longrightarrow> dict_ok (filter P d)"
  by (simp add: dict_ok_def distinct_map_filter)

lemma dict_ok_del [simp]: "dict_ok d \<Longrightarrow> dict_ok (dict_del k d)"
  by (simp add: dict_del_def)

lemma dict_get_setdefault [dict_simps]:
  "dict_get (setdefault k v d) k' =
     (if k' = k \<and> dict_get d k = None then Some v else dict_get d k')"
  by (auto simp: setdefault_def dict_get_append split: option.splits)

lemma dict_ok_setdefault [simp]: "dict_ok d \<Longrightarrow> dict_ok (setdefault k v d)"
  by (auto simp: setdefault_def dict_ok_def dict_get_None_iff)

lemma dict_get_bucket_add [dict_simps]:
  "dict_get (bucket_add k v d) k' =
     (if k' = k then Some ((case dict_get d k of None \<Rightarrow> [] | Some vs \<Rightarrow> vs) @ [v])
      else dict_get d k')"
  by (auto simp: bucket_add_def dict_get_append split: option.splits)

lemma dict_ok_bucket_add [simp]: "dict_ok d \<Longrightarrow> dict_ok (bucket_add k v d)"
  by (auto simp: bucket_add_def dict_ok_def dict_get_None_iff dict_set_def distinct_update
           split: option.splits)

lemma bucket_all_snoc:
  "bucket_all key (xs @ [x]) = bucket_add (key x) x (bucket_all key xs)"
  by (simp add: bucket_all_def)

lemma dict_ok_bucket_all [simp]: "dict_ok (bucket_all key xs)"
proof (induction xs rule: rev_induct)
  case Nil
  show ?case by (simp add: bucket_all_def dict_ok_def)
next
  case (snoc x xs)
  then show ?case by (simp add: bucket_all_snoc)
qed

text \<open>A bucket holds exactly the elements with its key, in their original order.\<close>

lemma dict_get_bucket_all:
  "dict_get (bucket_all key xs) k =
     (let ys = filter (\<lambda>x. key x = k) xs in if ys = [] then None else Some ys)"
proof (induction xs rule: rev_induct)
  case Nil
  show ?case by (simp add: bucket_all_def)
next
  case (snoc x xs)
  then show ?case
    by (auto simp: bucket_all_snoc dict_get_bucket_add Let_def split: if_splits)
qed

lemma keys_bucket_all: "fst ` set (bucket_all key xs) = key ` set xs"
proof -
  have "k \<in> fst ` set (bucket_all key xs) \<longleftrightarrow> k \<in> key ` set xs" for k
    using dict_get_None_iff [of "bucket_all key xs" k]
    by (auto simp: dict_get_bucket_all Let_def filter_empty_conv split: if_splits)
  then show ?thesis by blast
qed

section \<open>Sets of keys in sorted order\<close>

definition sorted_set :: "'a::linorder list \<Rightarrow> 'a list" where
  "sorted_set xs = sort (remdups xs)"

lemma set_sorted_set [simp]: "set (sorted_set xs) = set xs"
  by (simp add: sorted_set_def)

lemma distinct_sorted_set [simp]: "distinct (sorted_set xs)"
  by (simp add: sorted_set_def)

lemma sorted_sorted_set [simp]: "sorted (sorted_set xs)"
  by (simp add: sorted_set_def)

section \<open>Interface: a state machine with an invariant\<close>

text \<open>
  Every stateful component promises that its operations keep a well-formedness invariant;
  a run is a list of operations. The law is discharged per component, the conclusion
  about whole runs is proved once here.
\<close>

locale invariant_machine =
  fixes step :: "'s \<Rightarrow> 'o \<Rightarrow> 's"
    and inv :: "'s \<Rightarrow> bool"
  assumes step_inv: "inv s \<Longrightarrow> inv (step s op)"
begin

lemma run_inv: "inv s \<Longrightarrow> inv (foldl step s ops)"
  by (induction ops arbitrary: s) (auto intro: step_inv)

lemma run_snoc_inv: "inv s \<Longrightarrow> inv (step (foldl step s ops) op)"
  by (intro step_inv run_inv)

end

section \<open>Interface: an encoder and an in-buffer decoder\<close>

text \<open>
  A decoder reads at an offset of a buffer and returns the value with the offset just
  after it. The law says that it finds what the encoder wrote, whatever surrounds it;
  reading a sequence of encoded values back is then one induction.
\<close>

locale buffer_codec =
  fixes enc :: "'a \<Rightarrow> 'b list"
    and dec :: "'b list \<Rightarrow> nat \<Rightarrow> 'e + ('a \<times> nat)"
    and ok :: "'a \<Rightarrow> bool"
  assumes dec_enc:
    "ok x \<Longrightarrow> dec (pre @ enc x @ post) (length pre) = Inr (x, length pre + length (enc x))"
begin

lemma dec_here: "ok x \<Longrightarrow> dec (enc x @ post) 0 = Inr (x, length (enc x))"
  using dec_enc [of x "[]" post] by simp

lemma dec_at:
  assumes "ok x" and "buf = pre @ enc x @ post" and "pos = length pre"
  shows "dec buf pos = Inr (x, pos + length (enc x))"
  using assms by (simp add: dec_enc)

lemma enc_prefix_free:
  assumes "ok x" and "ok y" and "enc x @ post = enc y @ post'"
  shows "x = y \<and> post = post'"
proof -
  have "dec (enc x @ post) 0 = Inr (x, length (enc x))"
    using assms(1) by (rule dec_here)
  moreover have "dec (enc x @ post) 0 = Inr (y, length (enc y))"
    unfolding assms(3) using assms(2) by (rule dec_here)
  ultimately show ?thesis using assms(3) by auto
qed

lemma enc_inj: "ok x \<Longrightarrow> ok y \<Longrightarrow> enc x = enc y \<Longrightarrow> x = y"
  using enc_prefix_free [of x y "[]" "[]"] by simp

end

end
