(* ===== verification/Py_Text.thy ===== *)
theory Py_Text
  imports Prelude
begin

text \<open>
  The Python string methods the program uses, on \<open>string\<close>: a Python \<open>str\<close> whose code
  points are all below 256 (every character is its own code point). \<open>strip\<close>, \<open>lower\<close> and
  \<open>isdigit\<close> follow Unicode on that range, not only ASCII: U+0085 and U+00A0 are white
  space, \<open>lower\<close> folds the Latin-1 capitals, and the superscript digits are digits.
\<close>

section \<open>Characters\<close>

definition code :: "char \<Rightarrow> nat" where
  "code c = of_char c"

definition is_space :: "char \<Rightarrow> bool" where
  "is_space c = (let n = code c in (9 \<le> n \<and> n \<le> 13) \<or> (28 \<le> n \<and> n \<le> 32) \<or> n = 133 \<or> n = 160)"

definition lower_char :: "char \<Rightarrow> char" where
  "lower_char c = (let n = code c in
     if (65 \<le> n \<and> n \<le> 90) \<or> (192 \<le> n \<and> n \<le> 222 \<and> n \<noteq> 215) then char_of (n + 32) else c)"

definition upper_char :: "char \<Rightarrow> char" where
  "upper_char c = (let n = code c in
     if (97 \<le> n \<and> n \<le> 122) \<or> (224 \<le> n \<and> n \<le> 254 \<and> n \<noteq> 247) then char_of (n - 32) else c)"

definition is_digit :: "char \<Rightarrow> bool" where
  "is_digit c = (let n = code c in (48 \<le> n \<and> n \<le> 57) \<or> n = 178 \<or> n = 179 \<or> n = 185)"

definition is_lower_alnum :: "char \<Rightarrow> bool" where
  "is_lower_alnum c = (let n = code c in (48 \<le> n \<and> n \<le> 57) \<or> (97 \<le> n \<and> n \<le> 122))"

lemma code_less [simp]: "code c < 256"
  by (simp add: code_def)

lemma code_char_of [simp]: "code (char_of n) = n mod 256"
  by (simp add: code_def)

lemma code_inject: "code c = code d \<longleftrightarrow> c = d"
  by (simp add: code_def)

lemma code_less_eq: "code c \<le> 255"
  using code_less [of c] by linarith

lemma lower_char_idem [simp]: "lower_char (lower_char c) = lower_char c"
  using code_less [of c] by (auto simp: lower_char_def Let_def)

lemma is_lower_alnum_lower: "is_lower_alnum c \<Longrightarrow> lower_char c = c"
  by (auto simp: is_lower_alnum_def lower_char_def Let_def)

lemma is_lower_alnum_not_space: "is_lower_alnum c \<Longrightarrow> \<not> is_space c"
  by (auto simp: is_lower_alnum_def is_space_def Let_def)

lemma is_space_lower [simp]: "is_space (lower_char c) = is_space c"
  using code_less [of c] by (auto simp: lower_char_def is_space_def Let_def)

text \<open>Lowering changes capitals only, so it neither creates nor destroys ASCII punctuation.\<close>

lemma lower_char_eq_low:
  assumes "code p < 65 \<or> (90 < code p \<and> code p < 97) \<or> (122 < code p \<and> code p < 192)"
  shows "lower_char c = p \<longleftrightarrow> c = p"
  using assms code_less [of c]
  by (auto simp: lower_char_def Let_def code_inject [symmetric] simp del: code_less)

section \<open>Strings\<close>

definition lower :: "string \<Rightarrow> string" where
  "lower s = map lower_char s"

definition upper :: "string \<Rightarrow> string" where
  "upper s = map upper_char s"

text \<open>\<open>casefold\<close> also expands the sharp s (code point 223).\<close>

definition casefold :: "string \<Rightarrow> string" where
  "casefold s = concat (map (\<lambda>c. if code c = 223 then ''ss'' else [lower_char c]) s)"

definition lstrip :: "string \<Rightarrow> string" where
  "lstrip s = dropWhile is_space s"

definition rstrip_where :: "(char \<Rightarrow> bool) \<Rightarrow> string \<Rightarrow> string" where
  "rstrip_where P s = rev (dropWhile P (rev s))"

definition strip_where :: "(char \<Rightarrow> bool) \<Rightarrow> string \<Rightarrow> string" where
  "strip_where P s = rstrip_where P (dropWhile P s)"

abbreviation strip :: "string \<Rightarrow> string" where
  "strip s \<equiv> strip_where is_space s"

abbreviation strip_chars :: "string \<Rightarrow> string \<Rightarrow> string" where
  "strip_chars cs s \<equiv> strip_where (\<lambda>c. c \<in> set cs) s"

abbreviation rstrip_chars :: "string \<Rightarrow> string \<Rightarrow> string" where
  "rstrip_chars cs s \<equiv> rstrip_where (\<lambda>c. c \<in> set cs) s"

definition startswith :: "string \<Rightarrow> string \<Rightarrow> bool" where
  "startswith s p = (take (length p) s = p)"

definition endswith :: "string \<Rightarrow> string \<Rightarrow> bool" where
  "endswith s p = (length p \<le> length s \<and> drop (length s - length p) s = p)"

text \<open>\<open>s.split(c)\<close> for a one-character separator: always at least one piece.\<close>

fun split_char :: "char \<Rightarrow> string \<Rightarrow> string list" where
  "split_char c [] = [[]]"
| "split_char c (x # xs) =
     (if x = c then [] # split_char c xs
      else (case split_char c xs of [] \<Rightarrow> [[x]] | p # ps \<Rightarrow> (x # p) # ps))"

text \<open>\<open>s.split(c, 1)[0]\<close> and what follows the separator, if it occurs.\<close>

definition before :: "char \<Rightarrow> string \<Rightarrow> string" where
  "before c s = takeWhile (\<lambda>d. d \<noteq> c) s"

definition after :: "char \<Rightarrow> string \<Rightarrow> string" where
  "after c s = drop 1 (dropWhile (\<lambda>d. d \<noteq> c) s)"

definition rafter :: "char \<Rightarrow> string \<Rightarrow> string" where
  "rafter c s = rev (takeWhile (\<lambda>d. d \<noteq> c) (rev s))"

definition rbefore :: "char \<Rightarrow> string \<Rightarrow> string" where
  "rbefore c s = rev (drop 1 (dropWhile (\<lambda>d. d \<noteq> c) (rev s)))"

text \<open>The two sides of the first occurrence of a longer separator.\<close>

fun split_once :: "string \<Rightarrow> string \<Rightarrow> (string \<times> string) option" where
  "split_once p s =
     (if startswith s p then Some ([], drop (length p) s)
      else (case s of [] \<Rightarrow> None
            | x # xs \<Rightarrow> map_option (\<lambda>(a, b). (x # a, b)) (split_once p xs)))"

declare split_once.simps [simp del]

definition contains :: "string \<Rightarrow> string \<Rightarrow> bool" where
  "contains s p = (split_once p s \<noteq> None)"

definition all_digits :: "string \<Rightarrow> bool" where
  "all_digits s = (s \<noteq> [] \<and> list_all is_digit s)"

fun join :: "string \<Rightarrow> string list \<Rightarrow> string" where
  "join sep [] = []"
| "join sep [x] = x"
| "join sep (x # y # ys) = x @ sep @ join sep (y # ys)"

lemma lower_simps [text_simps, simp]:
  "lower [] = []" "lower (c # s) = lower_char c # lower s"
  "lower (s @ t) = lower s @ lower t" "length (lower s) = length s"
  "lower s = [] \<longleftrightarrow> s = []"
  by (simp_all add: lower_def)

lemma lower_idem [simp]: "lower (lower s) = lower s"
  by (simp add: lower_def)

lemma in_lowerD:
  assumes "p \<in> set (lower s)"
    and "code p < 65 \<or> (90 < code p \<and> code p < 97) \<or> (122 < code p \<and> code p < 192)"
  shows "p \<in> set s"
proof -
  from assms(1) obtain d where d: "d \<in> set s" "lower_char d = p" unfolding lower_def by force
  from d(2) have "d = p" unfolding lower_char_eq_low [OF assms(2)] .
  then show ?thesis using d(1) by simp
qed

lemma lower_alnum: "list_all is_lower_alnum s \<Longrightarrow> lower s = s"
  by (induction s) (auto simp: is_lower_alnum_lower)

lemma dropWhile_all: "\<forall>x\<in>set xs. \<not> P x \<Longrightarrow> dropWhile P xs = xs"
  by (cases xs) auto

lemma strip_where_none: "\<forall>c\<in>set s. \<not> P c \<Longrightarrow> strip_where P s = s"
  by (simp add: strip_where_def rstrip_where_def dropWhile_all)

lemma strip_where_delims:
  assumes "P x" and "P y" and "\<forall>c\<in>set n. \<not> P c"
  shows "strip_where P (x # n @ [y]) = n"
proof (cases n)
  case Nil
  then show ?thesis using assms by (simp add: strip_where_def rstrip_where_def)
next
  case (Cons c cs)
  then have "dropWhile P (x # n @ [y]) = n @ [y]" using assms by simp
  moreover have "dropWhile P (rev n) = rev n" using assms(3) by (intro dropWhile_all) simp
  ultimately show ?thesis
    using assms(2) by (simp add: strip_where_def rstrip_where_def)
qed

lemma strip_alnum: "list_all is_lower_alnum s \<Longrightarrow> strip s = s"
  by (rule strip_where_none) (auto simp: list_all_iff is_lower_alnum_not_space)

lemma set_strip_where: "set (strip_where P s) \<subseteq> set s"
  unfolding strip_where_def rstrip_where_def set_rev
  by (metis set_dropWhileD set_rev subsetI)

lemma set_rstrip_where: "set (rstrip_where P s) \<subseteq> set s"
  by (auto simp: rstrip_where_def dest: set_dropWhileD)

lemma rstrip_where_idem [simp]: "rstrip_where P (rstrip_where P s) = rstrip_where P s"
  by (simp add: rstrip_where_def)

lemma rstrip_where_Nil [simp]: "rstrip_where P [] = []"
  by (simp add: rstrip_where_def)

lemma hd_rstrip_where:
  assumes "rstrip_where P s \<noteq> []"
  shows "hd (rstrip_where P s) = hd s"
proof -
  have "s = rstrip_where P s @ rev (takeWhile P (rev s))"
    by (metis rev_append rev_rev_ident rstrip_where_def takeWhile_dropWhile_id)
  then show ?thesis using assms by (metis hd_append2)
qed

lemma strip_where_idem [simp]: "strip_where P (strip_where P s) = strip_where P s"
proof (cases "strip_where P s = []")
  case True
  then show ?thesis by (simp add: strip_where_def)
next
  case False
  then have "hd (strip_where P s) = hd (dropWhile P s)" and "dropWhile P s \<noteq> []"
    by (auto simp: strip_where_def hd_rstrip_where simp del: dropWhile_eq_Nil_conv)
  then have "\<not> P (hd (strip_where P s))"
    by (metis hd_dropWhile)
  then have "dropWhile P (strip_where P s) = strip_where P s"
    using False by (cases "strip_where P s") auto
  then show ?thesis by (simp add: strip_where_def)
qed

lemma startswith_append [text_simps, simp]: "startswith (p @ s) p"
  by (simp add: startswith_def)

lemma startswith_iff: "startswith s p \<longleftrightarrow> (\<exists>t. s = p @ t)"
  by (metis append_take_drop_id append_eq_conv_conj startswith_def)

lemma endswith_iff: "endswith s p \<longleftrightarrow> (\<exists>t. s = t @ p)"
proof
  assume "endswith s p"
  then show "\<exists>t. s = t @ p"
    by (metis append_take_drop_id endswith_def)
qed (auto simp: endswith_def)

lemma startswith_Cons [text_simps, simp]:
  "startswith (x # s) [y] \<longleftrightarrow> x = y" "startswith [] (y # p) = False" "startswith s []"
  "startswith (x # s) (y # p) \<longleftrightarrow> x = y \<and> startswith s p"
  by (auto simp: startswith_def)

lemma endswith_snoc [text_simps, simp]:
  "endswith (s @ [x]) [y] \<longleftrightarrow> x = y" "endswith [] (y # p) = False" "endswith s []"
  by (auto simp: endswith_iff)

lemma split_char_neq_Nil [simp]: "split_char c s \<noteq> []"
  by (cases s) (auto split: list.splits)

lemma split_char_pieces: "p \<in> set (split_char c s) \<Longrightarrow> c \<notin> set p"
  by (induction s arbitrary: p) (auto split: list.splits if_splits)

lemma split_char_subset: "p \<in> set (split_char c s) \<Longrightarrow> set p \<subseteq> set s"
proof (induction s arbitrary: p)
  case Nil
  then show ?case by simp
next
  case (Cons x xs)
  show ?case
  proof (cases "split_char c xs")
    case Nil
    then show ?thesis using split_char_neq_Nil by blast
  next
    case (Cons q qs)
    then have "set q \<subseteq> set xs" and "\<And>r. r \<in> set qs \<Longrightarrow> set r \<subseteq> set xs"
      using Cons.IH by auto
    then show ?thesis using Cons Cons.prems by (auto split: if_splits)
  qed
qed

lemma split_char_none: "c \<notin> set s \<Longrightarrow> split_char c s = [s]"
  by (induction s) auto

lemma split_char_append:
  "c \<notin> set p \<Longrightarrow> split_char c (p @ c # s) = p # split_char c s"
  by (induction p) auto

lemma split_char_join:
  assumes "ps \<noteq> []" and "\<forall>p\<in>set ps. c \<notin> set p"
  shows "split_char c (join [c] ps) = ps"
  using assms
  by (induction "[c]" ps rule: join.induct) (auto simp: split_char_none split_char_append)

lemma join_inject:
  assumes "join [c] ps = join [c] qs" and "ps \<noteq> []" "qs \<noteq> []"
    and "\<forall>p\<in>set ps. c \<notin> set p" and "\<forall>q\<in>set qs. c \<notin> set q"
  shows "ps = qs"
  using assms split_char_join by metis

lemma set_before: "c \<notin> set (before c s)"
  by (induction s) (auto simp: before_def)

lemma before_append: "c \<notin> set p \<Longrightarrow> before c (p @ c # s) = p"
  by (induction p) (auto simp: before_def)

lemma before_id: "c \<notin> set s \<Longrightarrow> before c s = s"
  by (induction s) (auto simp: before_def)

lemma before_subset: "set (before c s) \<subseteq> set s"
  by (auto simp: before_def dest: set_takeWhileD)

lemma after_append: "c \<notin> set p \<Longrightarrow> after c (p @ c # s) = s"
  by (induction p) (auto simp: after_def)

lemma before_after: "c \<in> set s \<Longrightarrow> before c s @ c # after c s = s"
  by (induction s) (auto simp: before_def after_def)

section \<open>Bytes of text\<close>

text \<open>
  UTF-8 of a code point below 256: one byte below 128, else two.
\<close>

definition utf8_encode :: "string \<Rightarrow> nat list" where
  "utf8_encode s =
     concat (map (\<lambda>c. let n = code c in if n < 128 then [n] else [192 + n div 64, 128 + n mod 64]) s)"

text \<open>\<open>'%x'\<close> digits, most significant first.\<close>

definition hex_digit :: "nat \<Rightarrow> char" where
  "hex_digit n = ''0123456789abcdef'' ! (n mod 16)"

definition hex_byte :: "nat \<Rightarrow> string" where
  "hex_byte n = [hex_digit (n div 16), hex_digit n]"

fun dec_digits :: "nat \<Rightarrow> string" where
  "dec_digits n = (if n < 10 then [char_of (48 + n)] else dec_digits (n div 10) @ [char_of (48 + n mod 10)])"

declare dec_digits.simps [simp del]

end
