(* ===== verification/Routes.thy ===== *)
theory Routes
  imports Py_Text
begin

text \<open>
  \<open>platform/benchctl/src/benchctl/routes.py\<close>: folding the route templates of five web
  frameworks into one canonical form, the strict comparison of two templates
  (\<open>routes_equal\<close>, every REACH decision goes through it) and the lenient comparison of a
  template with a concrete path (\<open>route_matches_path\<close>).

  \<open>path_from_url\<close> calls \<open>urllib.parse.urlsplit\<close>; the part of it that yields the path is
  written out below. The \<open>ValueError\<close> it raises for an authority with unbalanced square
  brackets is not modelled.
\<close>

definition PLACEHOLDER :: string where "PLACEHOLDER = ''{}''"
definition GREEDY :: string where "GREEDY = ''{**}''"
definition UNMATCHED :: string where "UNMATCHED = ''<unmatched>''"

lemma sentinels_distinct [simp]:
  "PLACEHOLDER \<noteq> GREEDY" "GREEDY \<noteq> PLACEHOLDER" "GREEDY \<noteq> UNMATCHED" "UNMATCHED \<noteq> GREEDY"
  "PLACEHOLDER \<noteq> UNMATCHED" "UNMATCHED \<noteq> PLACEHOLDER" "PLACEHOLDER \<noteq> []" "GREEDY \<noteq> []"
  by (simp_all add: PLACEHOLDER_def GREEDY_def UNMATCHED_def)

section \<open>Query strings and URLs\<close>

text \<open>The loop of \<open>_strip_query\<close> with its bracket depth.\<close>

fun strip_query_from :: "nat \<Rightarrow> string \<Rightarrow> string" where
  "strip_query_from depth [] = []"
| "strip_query_from depth (ch # rest) =
     (if ch \<in> set ''{<['' then ch # strip_query_from (Suc depth) rest
      else if ch \<in> set ''}>]'' \<and> depth \<noteq> 0 then ch # strip_query_from (depth - 1) rest
      else if ch = CHR ''?'' \<and> depth = 0 then []
      else ch # strip_query_from depth rest)"

definition strip_query :: "string \<Rightarrow> string" where
  "strip_query path = strip_query_from 0 path"

definition scheme_char :: "char \<Rightarrow> bool" where
  "scheme_char c = (let n = code c in (48 \<le> n \<and> n \<le> 57) \<or> (65 \<le> n \<and> n \<le> 90)
     \<or> (97 \<le> n \<and> n \<le> 122) \<or> c \<in> set ''+-.'')"

definition ascii_alpha :: "char \<Rightarrow> bool" where
  "ascii_alpha c = (let n = code c in (65 \<le> n \<and> n \<le> 90) \<or> (97 \<le> n \<and> n \<le> 122))"

definition drop_scheme :: "string \<Rightarrow> string" where
  "drop_scheme url =
     (if CHR '':'' \<in> set url \<and> before (CHR '':'') url \<noteq> [] \<and> ascii_alpha (hd url)
         \<and> list_all scheme_char (before (CHR '':'') url)
      then after (CHR '':'') url else url)"

definition drop_netloc :: "string \<Rightarrow> string" where
  "drop_netloc url =
     (if startswith url ''//'' then dropWhile (\<lambda>c. c \<notin> set ''/?#'') (drop 2 url) else url)"

text \<open>\<open>urlsplit(url).path\<close>: leading controls and spaces and embedded tabs and line ends
  go first, then scheme, authority, fragment and query.\<close>

definition urlsplit_path :: "string \<Rightarrow> string" where
  "urlsplit_path url =
     (let cleaned = filter (\<lambda>c. code c \<noteq> 9 \<and> code c \<noteq> 10 \<and> code c \<noteq> 13)
                      (dropWhile (\<lambda>c. code c \<le> 32) url)
      in before (CHR ''?'') (before (CHR ''#'') (drop_netloc (drop_scheme cleaned))))"

definition path_from_url :: "string \<Rightarrow> string" where
  "path_from_url url =
     (if contains url ''://'' then
        (let p = strip_query (urlsplit_path url) in if p = [] then ''/'' else p)
      else strip_query (before (CHR ''#'') url))"

section \<open>Segments\<close>

text \<open>\<open>re.sub\<close> of a brace or angle group without nested group characters or slashes.\<close>

function sub_groups :: "char \<Rightarrow> char \<Rightarrow> string \<Rightarrow> string" where
  "sub_groups opn cls [] = []"
| "sub_groups opn cls (x # xs) =
     (if x = opn then
        (case dropWhile (\<lambda>c. c \<noteq> opn \<and> c \<noteq> cls \<and> c \<noteq> CHR ''/'') xs of
           [] \<Rightarrow> x # sub_groups opn cls xs
         | y # ys \<Rightarrow> if y = cls then PLACEHOLDER @ sub_groups opn cls ys
                    else x # sub_groups opn cls xs)
      else x # sub_groups opn cls xs)"
  by pat_completeness auto
termination
proof (relation "measure (\<lambda>(_, _, s). length s)", goal_cases)
  case (3 opn cls x xs y ys)
  then have "length (y # ys) \<le> length xs"
    by (metis length_dropWhile_le)
  then show ?case by simp
qed auto

definition normalize_segment :: "string \<Rightarrow> string" where
  "normalize_segment seg =
     (if seg = ''*'' then PLACEHOLDER
      else if seg = ''**'' then GREEDY
      else if startswith seg ''*'' then GREEDY
      else if startswith seg '':'' then PLACEHOLDER
      else if startswith seg ''{'' \<and> endswith seg ''}'' then
        (let inner = butlast (tl seg) in
         if startswith inner ''*'' then GREEDY
         else if endswith inner ''...'' then GREEDY
         else PLACEHOLDER)
      else if startswith seg ''<'' \<and> endswith seg ''>'' then
        (let inner = butlast (tl seg);
             converter = (if CHR '':'' \<in> set inner then before (CHR '':'') inner else [])
         in if converter = ''path'' then GREEDY else PLACEHOLDER)
      else if startswith seg ''['' \<and> endswith seg '']'' then
        (let inner = strip_chars ''[]'' seg in
         if startswith inner ''...'' then GREEDY else PLACEHOLDER)
      else if CHR ''{'' \<in> set seg \<or> CHR ''<'' \<in> set seg then
        sub_groups (CHR ''<'') (CHR ''>'') (sub_groups (CHR ''{'') (CHR ''}'') seg)
      else seg)"

definition route_segments :: "string \<Rightarrow> string list" where
  "route_segments route =
     (let r = strip route in
      if r = UNMATCHED then [UNMATCHED]
      else map normalize_segment
             (filter (\<lambda>s. s \<noteq> []) (split_char (CHR ''/'') (casefold (path_from_url r)))))"

definition normalize_route :: "string \<Rightarrow> string" where
  "normalize_route route =
     (let segs = route_segments route in
      if segs = [] then ''/''
      else if segs = [UNMATCHED] then UNMATCHED
      else ''/'' @ join ''/'' segs)"

section \<open>Matching\<close>

text \<open>\<open>_match\<close>: a greedy segment, on whichever side, eats one or more segments of the other.\<close>

function route_match :: "bool \<Rightarrow> string list \<Rightarrow> string list \<Rightarrow> bool" where
  "route_match lenient [] [] = True"
| "route_match lenient [] (y # ys) = False"
| "route_match lenient (x # xs) [] = False"
| "route_match lenient (x # xs) (y # ys) =
     (if x = GREEDY \<or> y = GREEDY then
        (if x \<noteq> GREEDY
         then list_ex (\<lambda>k. route_match lenient ys (drop k (x # xs))) [1..<length (x # xs) + 1]
         else list_ex (\<lambda>k. route_match lenient xs (drop k (y # ys))) [1..<length (y # ys) + 1])
      else if x = y then route_match lenient xs ys
      else if lenient \<and> (x = PLACEHOLDER \<or> y = PLACEHOLDER) then route_match lenient xs ys
      else False)"
  by pat_completeness auto
termination
  by (relation "measure (\<lambda>(_, a, b). length a + length b)") auto

definition routes_equal :: "string \<Rightarrow> string \<Rightarrow> bool" where
  "routes_equal a b =
     (let sa = route_segments a; sb = route_segments b in
      if sa = [UNMATCHED] \<or> sb = [UNMATCHED] then sa = sb
      else route_match False sa sb)"

definition route_matches_path :: "string \<Rightarrow> string \<Rightarrow> bool" where
  "route_matches_path template path =
     (let st = route_segments template; sp = route_segments path in
      if st = [UNMATCHED] \<or> sp = [UNMATCHED] then False
      else route_match True st sp)"

section \<open>Canonical segments\<close>

lemma sub_groups_step:
  "sub_groups opn cls (x # xs) = x # sub_groups opn cls xs \<or>
   (\<exists>ys. length ys < length xs \<and> set ys \<subseteq> set xs
      \<and> sub_groups opn cls (x # xs) = PLACEHOLDER @ sub_groups opn cls ys)"
proof (cases "dropWhile (\<lambda>c. c \<noteq> opn \<and> c \<noteq> cls \<and> c \<noteq> CHR ''/'') xs")
  case Nil
  then have "sub_groups opn cls (x # xs) = x # sub_groups opn cls xs"
    unfolding sub_groups.simps(2) Nil by simp
  then show ?thesis by blast
next
  case (Cons y ys)
  have "set (y # ys) \<subseteq> set xs" unfolding Cons [symmetric] by (auto dest: set_dropWhileD)
  moreover have "length (y # ys) \<le> length xs" by (metis Cons length_dropWhile_le)
  ultimately have "length ys < length xs \<and> set ys \<subseteq> set xs" by simp
  moreover have "sub_groups opn cls (x # xs) =
      (if x = opn then if y = cls then PLACEHOLDER @ sub_groups opn cls ys
       else x # sub_groups opn cls xs else x # sub_groups opn cls xs)"
    unfolding sub_groups.simps(2) Cons by simp
  ultimately show ?thesis by metis
qed

declare sub_groups.simps(2) [simp del]

lemma set_sub_groups: "set (sub_groups opn cls s) \<subseteq> set s \<union> set PLACEHOLDER"
proof (induction "length s" arbitrary: s rule: less_induct)
  case less
  show ?case
  proof (cases s)
    case (Cons x xs)
    from sub_groups_step [of opn cls x xs] show ?thesis
    proof
      assume "sub_groups opn cls (x # xs) = x # sub_groups opn cls xs"
      then show ?thesis using less [of xs] Cons by auto
    next
      assume "\<exists>ys. length ys < length xs \<and> set ys \<subseteq> set xs
          \<and> sub_groups opn cls (x # xs) = PLACEHOLDER @ sub_groups opn cls ys"
      then obtain ys where ys: "length ys < length xs" "set ys \<subseteq> set xs"
          "sub_groups opn cls (x # xs) = PLACEHOLDER @ sub_groups opn cls ys"
        by blast
      then show ?thesis using less [of ys] Cons by (simp only: ys(3)) auto
    qed
  qed simp
qed

lemma sub_groups_eq_Nil [simp]: "sub_groups opn cls s = [] \<longleftrightarrow> s = []"
proof (cases s)
  case (Cons x xs)
  then show ?thesis using sub_groups_step [of opn cls x xs] by auto
qed simp

text \<open>Without a brace in the result nothing was replaced.\<close>

lemma sub_groups_no_brace:
  "CHR ''{'' \<notin> set (sub_groups opn cls s) \<Longrightarrow> sub_groups opn cls s = s"
proof (induction s)
  case (Cons x xs)
  then show ?case using sub_groups_step [of opn cls x xs] by (auto simp: PLACEHOLDER_def)
qed simp

definition sub_both :: "string \<Rightarrow> string" where
  "sub_both s = sub_groups (CHR ''<'') (CHR ''>'') (sub_groups (CHR ''{'') (CHR ''}'') s)"

lemma if_in: "a \<in> S \<Longrightarrow> b \<in> S \<Longrightarrow> (if c then a else b) \<in> S"
  by simp

lemma normalize_segment_cases:
  "normalize_segment s \<in> {PLACEHOLDER, GREEDY, s, sub_both s}"
  unfolding normalize_segment_def Let_def sub_both_def [symmetric]
  by (intro if_in) simp_all

lemma set_sub_both: "set (sub_both s) \<subseteq> set s \<union> set PLACEHOLDER"
  unfolding sub_both_def using set_sub_groups by blast

lemma set_normalize_segment: "set (normalize_segment s) \<subseteq> set s \<union> set GREEDY"
proof -
  have "set PLACEHOLDER \<subseteq> set GREEDY" by (simp add: PLACEHOLDER_def GREEDY_def)
  then show ?thesis using normalize_segment_cases [of s] set_sub_both [of s]
    by (elim insertE) auto
qed

lemma normalize_segment_nonempty: "s \<noteq> [] \<Longrightarrow> normalize_segment s \<noteq> []"
  using normalize_segment_cases [of s] sentinels_distinct sub_both_def sub_groups_eq_Nil
  by (metis insertE singletonD)

lemma normalize_unmatched: "normalize_segment UNMATCHED = PLACEHOLDER"
  by code_simp

lemma normalize_segment_not_unmatched: "normalize_segment s \<noteq> UNMATCHED"
proof
  assume eq: "normalize_segment s = UNMATCHED"
  have nb: "CHR ''{'' \<notin> set UNMATCHED" by (simp add: UNMATCHED_def)
  have "sub_both s = s" if "sub_both s = UNMATCHED"
    using that nb sub_groups_no_brace unfolding sub_both_def by metis
  then have "s = UNMATCHED"
    using eq normalize_segment_cases [of s] sentinels_distinct by (metis insert_iff singletonD)
  then show False using eq normalize_unmatched by simp
qed

lemma route_segments_unmatched_iff:
  "route_segments r = [UNMATCHED] \<longleftrightarrow> strip r = UNMATCHED"
proof (cases "strip r = UNMATCHED")
  case False
  have "map normalize_segment xs \<noteq> [UNMATCHED]" for xs
    using normalize_segment_not_unmatched by (cases xs) auto
  then show ?thesis using False by (simp add: route_segments_def Let_def)
qed (simp add: route_segments_def)

lemma route_segments_wf:
  "s \<in> set (route_segments r) \<Longrightarrow> s \<noteq> [] \<and> CHR ''/'' \<notin> set s"
proof (cases "strip r = UNMATCHED")
  case True
  then show "s \<in> set (route_segments r) \<Longrightarrow> ?thesis"
    by (simp add: route_segments_def UNMATCHED_def)
next
  case False
  assume "s \<in> set (route_segments r)"
  then obtain p where p: "p \<in> set (split_char (CHR ''/'') (casefold (path_from_url (strip r))))"
      "p \<noteq> []" "s = normalize_segment p"
    using False by (auto simp: route_segments_def Let_def)
  then have "CHR ''/'' \<notin> set p" by (simp add: split_char_pieces)
  then show ?thesis
    using p set_normalize_segment [of p] normalize_segment_nonempty [of p]
    by (auto simp: GREEDY_def)
qed

lemma join_slash_nonempty: "xs \<noteq> [] \<Longrightarrow> \<forall>p\<in>set xs. p \<noteq> [] \<Longrightarrow> join [c] xs \<noteq> []"
  by (induction "[c]" xs rule: join.induct) auto

lemma normalize_route_eq:
  "normalize_route r =
     (if route_segments r = [UNMATCHED] then UNMATCHED
      else CHR ''/'' # join ''/'' (route_segments r))"
  by (simp add: normalize_route_def Let_def)

lemma normalize_route_inject:
  "normalize_route a = normalize_route b \<longleftrightarrow> route_segments a = route_segments b"
proof
  let ?sa = "route_segments a" and ?sb = "route_segments b"
  assume eq: "normalize_route a = normalize_route b"
  have wf: "\<forall>p\<in>set ?sa. p \<noteq> [] \<and> CHR ''/'' \<notin> set p"
    "\<forall>p\<in>set ?sb. p \<noteq> [] \<and> CHR ''/'' \<notin> set p"
    using route_segments_wf by blast+
  have nu: "UNMATCHED \<noteq> CHR ''/'' # t" for t by (simp add: UNMATCHED_def)
  consider "?sa = [UNMATCHED]" "?sb = [UNMATCHED]" | "join ''/'' ?sa = join ''/'' ?sb"
    using eq nu unfolding normalize_route_eq by (metis list.inject)
  then show "?sa = ?sb"
  proof cases
    case 2
    show ?thesis
    proof (cases "?sa = [] \<or> ?sb = []")
      case True
      then show ?thesis using 2 wf join_slash_nonempty by (metis join.simps(1))
    next
      case False
      then show ?thesis using 2 wf by (intro join_inject) auto
    qed
  qed simp
qed (simp add: normalize_route_def)

section \<open>The matcher against reference relations\<close>

definition lenient_eq :: "string \<Rightarrow> string \<Rightarrow> bool" where
  "lenient_eq x y = (x = y \<or> x = PLACEHOLDER \<or> y = PLACEHOLDER)"

lemma route_match_Cons_plain:
  assumes "x \<noteq> GREEDY" and "y \<noteq> GREEDY"
  shows "route_match lenient (x # xs) (y # ys) \<longleftrightarrow>
    (x = y \<or> lenient \<and> lenient_eq x y) \<and> route_match lenient xs ys"
  using assms by (auto simp: lenient_eq_def)

lemma route_match_greedy_left:
  "route_match lenient (GREEDY # xs) ys \<longleftrightarrow>
     (\<exists>k. 1 \<le> k \<and> k \<le> length ys \<and> route_match lenient xs (drop k ys))"
proof (cases ys)
  case (Cons z zs)
  have "route_match lenient (GREEDY # xs) ys \<longleftrightarrow>
      (\<exists>k\<in>{1..<length ys + 1}. route_match lenient xs (drop k ys))"
    unfolding Cons route_match.simps(4) list_ex_iff set_upt by simp
  then show ?thesis by (auto simp: less_Suc_eq_le)
qed auto

lemma route_match_greedy_right:
  assumes "x \<noteq> GREEDY"
  shows "route_match lenient (x # xs) (GREEDY # ys) \<longleftrightarrow>
     (\<exists>k. 1 \<le> k \<and> k \<le> length (x # xs) \<and> route_match lenient ys (drop k (x # xs)))"
proof -
  have "route_match lenient (x # xs) (GREEDY # ys) \<longleftrightarrow>
      (\<exists>k\<in>{1..<length (x # xs) + 1}. route_match lenient ys (drop k (x # xs)))"
    unfolding route_match.simps(4) list_ex_iff set_upt using assms by simp
  then show ?thesis by (auto simp: less_Suc_eq_le)
qed

declare route_match.simps(4) [simp del]

lemma route_match_plain:
  assumes "GREEDY \<notin> set a" and "GREEDY \<notin> set b"
  shows "route_match lenient a b \<longleftrightarrow> (if lenient then list_all2 lenient_eq a b else a = b)"
  using assms
proof (induction a arbitrary: b)
  case Nil
  then show ?case by (cases b) auto
next
  case (Cons x xs)
  show ?case
  proof (cases b)
    case (Cons y ys)
    then have "x \<noteq> GREEDY" "y \<noteq> GREEDY" "GREEDY \<notin> set xs" "GREEDY \<notin> set ys"
      using Cons.prems by auto
    then show ?thesis
      unfolding Cons using Cons.IH [of ys]
      by (cases lenient) (simp_all add: route_match_Cons_plain, auto simp: lenient_eq_def)
  qed simp
qed

lemma route_match_refl: "route_match lenient a a"
proof (induction a)
  case (Cons x xs)
  show ?case
  proof (cases "x = GREEDY")
    case True
    then show ?thesis
      unfolding True route_match_greedy_left using Cons.IH by (intro exI [of _ 1]) simp
  next
    case False
    then show ?thesis using Cons.IH by (simp add: route_match_Cons_plain)
  qed
qed simp

lemma route_match_greedy_end:
  assumes "GREEDY \<notin> set pre" and "GREEDY \<notin> set p"
  shows "route_match lenient (pre @ [GREEDY]) p \<longleftrightarrow>
    (\<exists>q mid. p = q @ mid \<and> mid \<noteq> [] \<and> route_match lenient pre q)"
  using assms
proof (induction pre arbitrary: p)
  case Nil
  show ?case
  proof (cases p)
    case (Cons y ys)
    then have "route_match lenient ([] @ [GREEDY]) p"
      unfolding append_Nil route_match_greedy_left by (intro exI [of _ "length p"]) simp
    moreover have "\<exists>q mid. p = q @ mid \<and> mid \<noteq> [] \<and> route_match lenient [] q"
      by (rule exI [of _ "[]"]) (simp add: Cons)
    ultimately show ?thesis by simp
  qed simp
next
  case (Cons x xs)
  show ?case
  proof (cases p)
    case Nil
    then show ?thesis by simp
  next
    case (Cons y ys)
    have ng: "x \<noteq> GREEDY" "y \<noteq> GREEDY" "GREEDY \<notin> set ys"
      using Cons.prems Cons by auto
    have "route_match lenient ((x # xs) @ [GREEDY]) p \<longleftrightarrow>
        (x = y \<or> lenient \<and> lenient_eq x y)
        \<and> (\<exists>q mid. ys = q @ mid \<and> mid \<noteq> [] \<and> route_match lenient xs q)"
      using ng Cons Cons.IH [of ys] Cons.prems by (simp add: route_match_Cons_plain)
    also have "\<dots> \<longleftrightarrow> (\<exists>q mid. ys = q @ mid \<and> mid \<noteq> [] \<and> route_match lenient (x # xs) (y # q))"
      using ng by (auto simp: route_match_Cons_plain)
    also have "\<dots> \<longleftrightarrow> (\<exists>q mid. p = q @ mid \<and> mid \<noteq> [] \<and> route_match lenient (x # xs) q)"
    proof
      assume "\<exists>q mid. p = q @ mid \<and> mid \<noteq> [] \<and> route_match lenient (x # xs) q"
      then obtain q mid where r: "p = q @ mid" "mid \<noteq> []" "route_match lenient (x # xs) q" by blast
      then obtain q' where "q = y # q'" using Cons by (cases q) auto
      then show "\<exists>q mid. ys = q @ mid \<and> mid \<noteq> [] \<and> route_match lenient (x # xs) (y # q)"
        using r Cons by auto
    qed (use Cons in \<open>metis append_Cons\<close>)
    finally show ?thesis .
  qed
qed

lemma route_match_strict_lenient: "route_match False a b \<Longrightarrow> route_match True a b"
proof (induction "length a + length b" arbitrary: a b rule: less_induct)
  case less
  show ?case
  proof (cases a)
    case Nil
    then show ?thesis using less.prems by (cases b) auto
  next
    case a: (Cons x xs)
    show ?thesis
    proof (cases b)
      case Nil
      then show ?thesis using less.prems a by simp
    next
      case b: (Cons y ys)
      consider "x = GREEDY" | "x \<noteq> GREEDY" "y = GREEDY" | "x \<noteq> GREEDY" "y \<noteq> GREEDY" by blast
      then show ?thesis
      proof cases
        case 1
        then obtain k where k: "1 \<le> k" "k \<le> length b" "route_match False xs (drop k b)"
          using less.prems a route_match_greedy_left by blast
        then have "route_match True xs (drop k b)" using less.hyps a by simp
        then show ?thesis using k 1 a route_match_greedy_left by blast
      next
        case 2
        then obtain k where k: "1 \<le> k" "k \<le> length a" "route_match False ys (drop k a)"
          using less.prems a b route_match_greedy_right by metis
        then have "route_match True ys (drop k a)" using less.hyps b by simp
        then show ?thesis using k 2 a b route_match_greedy_right by metis
      next
        case 3
        then show ?thesis
          using less.prems less.hyps [of xs ys] a b by (simp add: route_match_Cons_plain)
      qed
    qed
  qed
qed

section \<open>Properties\<close>

definition route_ident :: "string \<Rightarrow> bool" where
  "route_ident n = (n \<noteq> [] \<and> list_all (\<lambda>c. is_lower_alnum c \<or> c = CHR ''_'') n)"

lemma route_identD:
  assumes "route_ident n"
  shows "\<not> startswith n ''*''" "\<not> endswith n ''...''" "CHR '':'' \<notin> set n"
    "CHR ''['' \<notin> set n" "CHR '']'' \<notin> set n" "\<not> startswith n ''...''" "n \<noteq> []"
proof -
  have all: "is_lower_alnum c \<or> c = CHR ''_''" if "c \<in> set n" for c
    using assms that by (auto simp: route_ident_def list_all_iff)
  have no: "CHR ''*'' \<notin> set n" "CHR ''.'' \<notin> set n" "CHR '':'' \<notin> set n"
      "CHR ''['' \<notin> set n" "CHR '']'' \<notin> set n"
    using all [of "CHR ''*''"] all [of "CHR ''.''"] all [of "CHR '':''"] all [of "CHR ''[''"]
      all [of "CHR '']''"] by (auto simp: is_lower_alnum_def code_def)
  show "\<not> startswith n ''*''" "\<not> endswith n ''...''" "\<not> startswith n ''...''"
    using no(1,2) by (auto simp: startswith_iff endswith_iff)
  show "CHR '':'' \<notin> set n" "CHR ''['' \<notin> set n" "CHR '']'' \<notin> set n" by (fact no)+
  show "n \<noteq> []" using assms by (simp add: route_ident_def)
qed

lemma endswith_Cons_snoc [simp]: "endswith (x # s @ [y]) [z] \<longleftrightarrow> y = z"
  using endswith_snoc(1) [of "x # s"] by simp

lemma inner_simps [simp]: "butlast (tl (x # n @ [y])) = n"
  by (simp add: butlast_append)

lemma normalize_brace:
  "normalize_segment (CHR ''{'' # n @ ''}'') =
     (if startswith n ''*'' \<or> endswith n ''...'' then GREEDY else PLACEHOLDER)"
  by (simp add: normalize_segment_def Let_def butlast_append)

lemma normalize_angle:
  "normalize_segment (CHR ''<'' # n @ ''>'') =
     (if CHR '':'' \<in> set n \<and> before (CHR '':'') n = ''path'' then GREEDY else PLACEHOLDER)"
  by (simp add: normalize_segment_def Let_def butlast_append)

lemma normalize_bracket:
  assumes "CHR ''['' \<notin> set n" and "CHR '']'' \<notin> set n"
  shows "normalize_segment (CHR ''['' # n @ '']'') =
     (if startswith n ''...'' then GREEDY else PLACEHOLDER)"
proof -
  have "strip_chars ''[]'' (CHR ''['' # n @ '']'') = n"
    using assms by (intro strip_where_delims) auto
  then show ?thesis by (simp add: normalize_segment_def Let_def)
qed

text \<open>The route dialects fold together: for every parameter name and every Flask converter
  other than \<open>path\<close>, the Express, OpenAPI, Flask, ASP.NET and Next.js spellings of a
  one-segment parameter normalise to the same placeholder, and the Flask \<open>path\<close>, ASP.NET,
  Go and Next.js catch-alls all normalise to the greedy one.\<close>

theorem dialects_fold:
  assumes "route_ident n" and "route_ident conv" and "conv \<noteq> ''path''"
  shows "(\<forall>seg \<in> {CHR '':'' # n, ''{'' @ n @ ''}'', ''<'' @ n @ ''>'', ''<'' @ conv @ '':'' @ n @ ''>'',
             ''{'' @ n @ '':'' @ conv @ ''}'', ''['' @ n @ '']'', ''*''}.
           normalize_segment seg = PLACEHOLDER) \<and>
         (\<forall>seg \<in> {''<path:'' @ n @ ''>'', ''{*'' @ n @ ''}'', ''{**'' @ n @ ''}'', ''{'' @ n @ ''...}'',
             ''[...'' @ n @ '']'', CHR ''*'' # n}.
           normalize_segment seg = GREEDY)"
proof -
  note n = route_identD [OF assms(1)] and c = route_identD [OF assms(2)]
  have colon: "normalize_segment (CHR '':'' # n) = PLACEHOLDER"
    by (simp add: normalize_segment_def)
  have star: "normalize_segment (CHR ''*'' # n) = GREEDY"
    using n(1,7) by (simp add: normalize_segment_def)
  have bare: "normalize_segment ''*'' = PLACEHOLDER" by (simp add: normalize_segment_def)
  have brace: "normalize_segment (''{'' @ n @ ''}'') = PLACEHOLDER"
    using n by (simp add: normalize_brace)
  have angle: "normalize_segment (''<'' @ n @ ''>'') = PLACEHOLDER"
    using n by (simp add: normalize_angle)
  have typed: "normalize_segment (''<'' @ conv @ '':'' @ n @ ''>'') = PLACEHOLDER"
    using normalize_angle [of "conv @ '':'' @ n"] before_append [of "CHR '':''" conv n] c assms(3)
    by simp
  have constr: "normalize_segment (''{'' @ n @ '':'' @ conv @ ''}'') = PLACEHOLDER"
  proof -
    have "\<not> startswith (n @ '':'' @ conv) ''*''"
      using n(1,7) by (cases n) (auto simp: startswith_def)
    moreover have "\<not> endswith (n @ '':'' @ conv) ''...''"
    proof
      assume "endswith (n @ '':'' @ conv) ''...''"
      then obtain t where "n @ '':'' @ conv = t @ ''...''" by (auto simp: endswith_iff)
      then have "last conv = CHR ''.''" using c(7) by (metis last_appendR last_snoc append.assoc append_Cons append_Nil list.discI)
      then have "is_lower_alnum (CHR ''.'') \<or> CHR ''.'' = CHR ''_''"
        using assms(2) c(7) last_in_set [of conv] by (auto simp: route_ident_def list_all_iff)
      then show False by (simp add: is_lower_alnum_def code_def)
    qed
    ultimately show ?thesis using normalize_brace [of "n @ '':'' @ conv"] by simp
  qed
  have sq: "normalize_segment (''['' @ n @ '']'') = PLACEHOLDER"
    using n by (simp add: normalize_bracket)
  have path: "normalize_segment (''<path:'' @ n @ ''>'') = GREEDY"
    using normalize_angle [of "''path:'' @ n"] by (simp add: before_def)
  have asp: "normalize_segment (''{*'' @ n @ ''}'') = GREEDY"
    "normalize_segment (''{**'' @ n @ ''}'') = GREEDY"
    using normalize_brace [of "''*'' @ n"] normalize_brace [of "''**'' @ n"] by simp_all
  have go: "normalize_segment (''{'' @ n @ ''...}'') = GREEDY"
    using normalize_brace [of "n @ ''...''"] by (simp add: endswith_iff)
  have slug: "normalize_segment (''[...'' @ n @ '']'') = GREEDY"
    using normalize_bracket [of "''...'' @ n"] n by simp
  show ?thesis
    using colon star bare brace angle typed constr sq path asp go slug by simp
qed

theorem dialects_fold_witness:
  "normalize_segment ''<int:order_id>'' = PLACEHOLDER \<and> normalize_segment ''<path:order_id>'' = GREEDY"
proof -
  have "route_ident ''order_id''" "route_ident ''int''" "''int'' \<noteq> ''path''"
    by (code_simp, code_simp, simp)
  from dialects_fold [OF this] show ?thesis by simp
qed

text \<open>Strict template comparison is equality of canonical forms: when neither route has a
  greedy segment, \<open>routes_equal\<close> holds exactly when \<open>normalize_route\<close> gives the same string, so on
  such routes it is an equivalence relation. (With greedy segments it is not: see
  \<open>routes_equal_not_symmetric\<close>.)\<close>

theorem routes_equal_canonical:
  assumes "GREEDY \<notin> set (route_segments a)" and "GREEDY \<notin> set (route_segments b)"
  shows "routes_equal a b \<longleftrightarrow> normalize_route a = normalize_route b"
  using assms by (simp add: routes_equal_def Let_def normalize_route_inject route_match_plain)

theorem routes_equal_canonical_witness:
  "routes_equal ''/api/Orders/:id/'' ''/api//orders/<int:oid>?x=1''"
proof -
  have "GREEDY \<notin> set (route_segments ''/api/Orders/:id/'')"
    and "GREEDY \<notin> set (route_segments ''/api//orders/<int:oid>?x=1'')"
    and eq: "normalize_route ''/api/Orders/:id/'' = normalize_route ''/api//orders/<int:oid>?x=1''"
    by code_simp+
  from routes_equal_canonical [OF this(1,2)] eq show ?thesis by simp
qed

lemma routes_equal_not_symmetric:
  "routes_equal ''/files/{*p}'' ''/files/{*p}/edit'' \<and> \<not> routes_equal ''/files/{*p}/edit'' ''/files/{*p}''"
  by code_simp

lemma routes_equal_greedy_matches_literal: "routes_equal ''/files/<path:p>'' ''/files/a/b''"
  by code_simp

text \<open>A request that hit no registered route proves nothing: the sentinel \<open><unmatched>\<close> is
  equal to no other route, is a path of no template, and no template is a path of it. In
  particular it is never read as a Flask parameter, which would credit every 404.\<close>

theorem unmatched_isolated:
  "(routes_equal UNMATCHED r \<longleftrightarrow> strip r = UNMATCHED) \<and>
   (routes_equal r UNMATCHED \<longleftrightarrow> strip r = UNMATCHED) \<and>
   \<not> route_matches_path UNMATCHED r \<and> \<not> route_matches_path r UNMATCHED"
proof -
  have "strip UNMATCHED = UNMATCHED" by code_simp
  then have "route_segments UNMATCHED = [UNMATCHED]"
    by (simp add: route_segments_unmatched_iff)
  then show ?thesis
    using route_segments_unmatched_iff [of r]
    by (auto simp: routes_equal_def route_matches_path_def Let_def)
qed

text \<open>The lenient comparison of a template with a concrete path, for a template without
  catch-all or ending in one: without, the two have the same number of segments and agree at
  every segment that is no placeholder; a final catch-all eats one or more segments and the
  segments before it match that way. A strict match is always a lenient one.\<close>

theorem route_matches_path_spec:
  assumes "route_segments path \<noteq> [UNMATCHED]" and "GREEDY \<notin> set (route_segments path)"
    and "route_segments t \<noteq> [UNMATCHED]"
    and "route_segments t = pre @ (if catch_all then [GREEDY] else [])" and "GREEDY \<notin> set pre"
  shows "route_matches_path t path \<longleftrightarrow>
    (\<exists>q mid. route_segments path = q @ mid \<and> (mid \<noteq> [] \<longleftrightarrow> catch_all) \<and> list_all2 lenient_eq pre q)"
proof -
  have plain: "route_match True pre q = list_all2 lenient_eq pre q"
    if "route_segments path = q @ mid" for q mid
    using assms(2,5) that by (simp add: route_match_plain)
  have "route_matches_path t path = route_match True (route_segments t) (route_segments path)"
    using assms(1,3) by (simp add: route_matches_path_def Let_def)
  also have "\<dots> \<longleftrightarrow>
      (\<exists>q mid. route_segments path = q @ mid \<and> (mid \<noteq> [] \<longleftrightarrow> catch_all) \<and> route_match True pre q)"
    using assms(4) route_match_greedy_end [OF assms(5,2), of True] by (cases catch_all) auto
  finally show ?thesis using plain by blast
qed

theorem route_matches_path_spec_witness:
  "route_matches_path ''/static/{v}/<path:p>'' ''/static/v2/css/site.css''"
proof -
  have "route_segments ''/static/v2/css/site.css'' \<noteq> [UNMATCHED]"
    and "GREEDY \<notin> set (route_segments ''/static/v2/css/site.css'')"
    and "route_segments ''/static/{v}/<path:p>'' \<noteq> [UNMATCHED]"
    and "route_segments ''/static/{v}/<path:p>'' = [''static'', PLACEHOLDER] @ (if True then [GREEDY] else [])"
    and "GREEDY \<notin> set [''static'', PLACEHOLDER]"
    by (code_simp, code_simp, code_simp, code_simp, code_simp)
  from route_matches_path_spec [OF this]
  have "route_matches_path ''/static/{v}/<path:p>'' ''/static/v2/css/site.css'' \<longleftrightarrow>
    (\<exists>q mid. route_segments ''/static/v2/css/site.css'' = q @ mid \<and> (mid \<noteq> [] \<longleftrightarrow> True)
       \<and> list_all2 lenient_eq [''static'', PLACEHOLDER] q)" .
  moreover have "route_segments ''/static/v2/css/site.css'' = [''static'', ''v2''] @ [''css'', ''site.css'']"
    by code_simp
  moreover have "list_all2 lenient_eq [''static'', PLACEHOLDER] [''static'', ''v2'']"
    by (simp add: lenient_eq_def)
  ultimately show ?thesis by blast
qed

end
