(* ===== verification/Catalog.thy ===== *)
theory Catalog
  imports Routes
begin

text \<open>
  \<open>platform/benchctl/src/benchctl/catalog.py\<close>: the typed ground truth, the resolution of class
  defaults, the integrity checks of \<open>load_catalog\<close>, and the prerequisite graph.

  The YAML parser and the JSON-schema validator are libraries: a file enters the model as what
  they make of it (\<open>yaml_file\<close>). The texts of issue messages are left out; an issue keeps its
  level, code, vulnerability id and source file.
\<close>

section \<open>Data\<close>

datatype level = Error | Warning

record issue =
  i_level :: level
  i_code :: string
  i_vuln :: "string option"
  i_source :: "string option"

record entrypoint =
  ep_method :: string
  ep_path :: string
  ep_auth :: string
  ep_param :: "string option"
  ep_param_in :: string
  ep_default :: "string option"
  ep_content_type :: "string option"

record discovery =
  d_render :: "string option"
  d_reachable_from :: "string list"
  d_requires :: "string list"
  d_difficulty :: "int option"

record oracle_spec =
  o_kind :: string
  o_condition :: string
  o_poc :: "string option"
  o_canary_token :: "string option"
  o_signal :: "string option"

record vuln =
  v_id :: string
  v_title :: string
  v_app :: string
  v_component :: string
  v_cls :: string
  v_family :: "string option"
  v_label :: "string option"
  v_cwe :: "int list"
  v_owasp :: "(string, string) dict"
  v_severity :: string
  v_entrypoint :: entrypoint
  v_discovery :: discovery
  v_oracle :: oracle_spec
  v_prereq :: "string list"
  v_tags :: "string list"
  v_introduced :: "string option"
  v_notes :: "string option"
  v_decoy_note :: "string option"
  v_source :: "string option"

definition has_param :: "vuln \<Rightarrow> bool" where
  "has_param v = truthy (ep_param (v_entrypoint v))"

definition ep_route_key :: "entrypoint \<Rightarrow> string" where
  "ep_route_key e = normalize_route (ep_path e)"

definition v_route_key :: "vuln \<Rightarrow> string" where
  "v_route_key v = ep_route_key (v_entrypoint v)"

definition owasp_for :: "vuln \<Rightarrow> string \<Rightarrow> string option" where
  "owasp_for v edition = dict_get (v_owasp v) edition"

record class_spec =
  sp_family :: "string option"
  sp_label :: "string option"
  sp_cwe :: "int list"
  sp_severity :: "string option"
  sp_owasp :: "(string, string) dict"

definition empty_spec :: class_spec where
  "empty_spec = \<lparr>sp_family = None, sp_label = None, sp_cwe = [], sp_severity = None, sp_owasp = []\<rparr>"

record taxonomy =
  t_editions :: "(string, (string, string) dict) dict"
  t_families :: "string list"
  t_classes :: "(string, class_spec) dict"

text \<open>A roadmap entry; a missing or empty prefix is \<open>None\<close>.\<close>

record roadmap_entry =
  rm_prefix :: "string option"
  rm_quota :: "int option"
  rm_classes :: "string list"

type_synonym roadmap = "(string, roadmap_entry) dict"

definition prefix_for :: "roadmap \<Rightarrow> string \<Rightarrow> string option" where
  "prefix_for rm app =
     (case dict_get rm app of None \<Rightarrow> None
      | Some e \<Rightarrow> if truthy (rm_prefix e) then rm_prefix e else None)"

definition app_for_prefix :: "roadmap \<Rightarrow> string \<Rightarrow> string option" where
  "app_for_prefix rm prefix =
     map_option fst (List.find (\<lambda>(app, e). upper (str_or (rm_prefix e) []) = upper prefix) rm)"

definition quota_for :: "roadmap \<Rightarrow> string \<Rightarrow> int option" where
  "quota_for rm app = (case dict_get rm app of None \<Rightarrow> None | Some e \<Rightarrow> rm_quota e)"

definition classes_for :: "roadmap \<Rightarrow> string \<Rightarrow> string list" where
  "classes_for rm app = (case dict_get rm app of None \<Rightarrow> [] | Some e \<Rightarrow> rm_classes e)"

definition category_label :: "taxonomy \<Rightarrow> string \<Rightarrow> string \<Rightarrow> string" where
  "category_label t edition cat =
     (case dict_get (case dict_get (t_editions t) edition of None \<Rightarrow> [] | Some m \<Rightarrow> m) cat of
        None \<Rightarrow> cat | Some l \<Rightarrow> l)"

record catalog =
  c_vulns :: "vuln list"
  c_taxonomy :: taxonomy
  c_issues :: "issue list"
  c_roadmap :: roadmap

section \<open>Indexes (\<open>Catalog.__post_init__\<close>)\<close>

text \<open>A dict comprehension: a later entry with the same key replaces the value.\<close>

definition index_by :: "('a \<Rightarrow> string option) \<Rightarrow> 'a list \<Rightarrow> (string, 'a) dict" where
  "index_by key xs =
     foldl (\<lambda>d x. case key x of Some k \<Rightarrow> if k = [] then d else dict_set k x d | None \<Rightarrow> d) [] xs"

definition by_id :: "catalog \<Rightarrow> (string, vuln) dict" where
  "by_id c = foldl (\<lambda>d v. dict_set (v_id v) v d) [] (c_vulns c)"

definition by_token :: "catalog \<Rightarrow> (string, vuln) dict" where
  "by_token c = index_by (\<lambda>v. o_canary_token (v_oracle v)) (c_vulns c)"

definition by_signal :: "catalog \<Rightarrow> (string, vuln) dict" where
  "by_signal c = index_by (\<lambda>v. o_signal (v_oracle v)) (c_vulns c)"

definition catalog_errors :: "catalog \<Rightarrow> issue list" where
  "catalog_errors c = filter (\<lambda>i. i_level i = Error) (c_issues c)"

definition catalog_warnings :: "catalog \<Rightarrow> issue list" where
  "catalog_warnings c = filter (\<lambda>i. i_level i = Warning) (c_issues c)"

definition catalog_apps :: "catalog \<Rightarrow> string list" where
  "catalog_apps c = sorted_set (map v_app (c_vulns c))"

definition for_app :: "catalog \<Rightarrow> string \<Rightarrow> vuln list" where
  "for_app c app = filter (\<lambda>v. v_app v = app) (c_vulns c)"

lemma index_by_snoc:
  "index_by key (xs @ [x]) =
     (case key x of Some k \<Rightarrow> if k = [] then index_by key xs else dict_set k x (index_by key xs)
      | None \<Rightarrow> index_by key xs)"
  by (simp add: index_by_def split: option.split)

lemma index_by_SomeD:
  "dict_get (index_by key xs) k = Some x \<Longrightarrow> x \<in> set xs \<and> key x = Some k \<and> k \<noteq> []"
  by (induction xs rule: rev_induct)
     (auto simp: index_by_def split: option.splits if_splits)

lemma index_by_None_iff:
  "dict_get (index_by key xs) k = None \<longleftrightarrow> k = [] \<or> (\<forall>x\<in>set xs. key x \<noteq> Some k)"
proof (induction xs rule: rev_induct)
  case Nil
  then show ?case by (simp add: index_by_def)
next
  case (snoc x xs)
  then show ?case by (auto simp: index_by_snoc split: option.splits)
qed

text \<open>With distinct keys the index is the inverse of the key.\<close>

lemma index_by_unique:
  assumes "x \<in> set xs" and "key x = Some k" and "k \<noteq> []"
    and "\<And>y. y \<in> set xs \<Longrightarrow> key y = Some k \<Longrightarrow> y = x"
  shows "dict_get (index_by key xs) k = Some x"
proof (cases "dict_get (index_by key xs) k")
  case None
  then have "\<forall>x\<in>set xs. key x \<noteq> Some k" using assms(3) by (simp add: index_by_None_iff)
  then show ?thesis using assms(1,2) by blast
next
  case (Some y)
  have "y = x" using index_by_SomeD [OF Some] assms(4) by simp
  then show ?thesis using Some by simp
qed

lemma by_id_SomeD: "dict_get (by_id c) k = Some v \<Longrightarrow> v \<in> set (c_vulns c) \<and> v_id v = k"
proof -
  have "dict_get (foldl (\<lambda>d v. dict_set (v_id v) v d) [] vs) k = Some v \<Longrightarrow> v \<in> set vs \<and> v_id v = k" for vs
    by (induction vs rule: rev_induct) (auto split: if_splits)
  then show "dict_get (by_id c) k = Some v \<Longrightarrow> ?thesis" by (simp add: by_id_def)
qed

lemma by_id_None_iff: "dict_get (by_id c) k = None \<longleftrightarrow> k \<notin> v_id ` set (c_vulns c)"
proof -
  have "dict_get (foldl (\<lambda>d v. dict_set (v_id v) v d) [] vs) k = None \<longleftrightarrow> k \<notin> v_id ` set vs" for vs
    by (induction vs rule: rev_induct) auto
  then show ?thesis by (simp add: by_id_def)
qed

lemma by_id_unique:
  assumes "v \<in> set (c_vulns c)" and "inj_on v_id (set (c_vulns c))"
  shows "dict_get (by_id c) (v_id v) = Some v"
proof (cases "dict_get (by_id c) (v_id v)")
  case None
  then show ?thesis using assms(1) by (simp add: by_id_None_iff)
next
  case (Some w)
  then show ?thesis using by_id_SomeD [OF Some] assms by (auto dest: inj_onD)
qed

end
