(* ===== verification/Prereqs.thy ===== *)
theory Prereqs
  imports Catalog
begin

text \<open>
  The prerequisite graph of \<open>benchctl/catalog.py\<close>: \<open>Catalog.prereq_depth\<close>,
  \<open>Catalog.transitive_prereqs\<close> (a worklist) and \<open>_find_cycles\<close> (a three-colour depth-first
  search over mutable state). The search takes fuel; \<open>dfs_enough\<close> shows that one unit more
  than the number of nodes is always enough, so \<open>find_cycles\<close> is total.
\<close>

section \<open>Depth-first search for cycles\<close>

datatype colour = White | Grey | Black

type_synonym graph = "(string, string list) dict"

record dfs =
  df_colour :: "string \<Rightarrow> colour option"
  df_bad :: "string list"

definition edges_of :: "graph \<Rightarrow> string \<Rightarrow> string list" where
  "edges_of g n = (case dict_get g n of None \<Rightarrow> [] | Some ns \<Rightarrow> ns)"

text \<open>\<open>visit\<close> and the loop over a node's edges inside it.\<close>

fun visit :: "nat \<Rightarrow> graph \<Rightarrow> string \<Rightarrow> string list \<Rightarrow> dfs \<Rightarrow> dfs option"
  and visit_edges :: "nat \<Rightarrow> graph \<Rightarrow> string list \<Rightarrow> string list \<Rightarrow> dfs \<Rightarrow> dfs option" where
  "visit 0 g node stack st = None"
| "visit (Suc f) g node stack st =
     map_option (\<lambda>st'. st'\<lparr>df_colour := (df_colour st')(node \<mapsto> Black)\<rparr>)
       (visit_edges f g (edges_of g node) (stack @ [node])
          (st\<lparr>df_colour := (df_colour st)(node \<mapsto> Grey)\<rparr>))"
| "visit_edges f g [] stack st = Some st"
| "visit_edges f g (n # ns) stack st =
     (case df_colour st n of
        None \<Rightarrow> visit_edges f g ns stack st
      | Some Grey \<Rightarrow>
          visit_edges f g ns stack (st\<lparr>df_bad := df_bad st @ dropWhile (\<lambda>m. m \<noteq> n) stack\<rparr>)
      | Some White \<Rightarrow>
          (case visit f g n stack st of None \<Rightarrow> None | Some st' \<Rightarrow> visit_edges f g ns stack st')
      | Some Black \<Rightarrow> visit_edges f g ns stack st)"

definition dfs_start :: "graph \<Rightarrow> dfs" where
  "dfs_start g = \<lparr>df_colour = (\<lambda>n. if n \<in> fst ` set g then Some White else None), df_bad = []\<rparr>"

fun visit_all :: "nat \<Rightarrow> graph \<Rightarrow> string list \<Rightarrow> dfs \<Rightarrow> dfs option" where
  "visit_all f g [] st = Some st"
| "visit_all f g (n # ns) st =
     (if df_colour st n = Some White
      then (case visit f g n [] st of None \<Rightarrow> None | Some st' \<Rightarrow> visit_all f g ns st')
      else visit_all f g ns st)"

definition find_cycles_opt :: "nat \<Rightarrow> graph \<Rightarrow> string list option" where
  "find_cycles_opt f g =
     map_option (\<lambda>st. sorted_set (df_bad st)) (visit_all f g (map fst g) (dfs_start g))"

definition find_cycles :: "graph \<Rightarrow> string list" where
  "find_cycles g = (case find_cycles_opt (length g + 1) g of None \<Rightarrow> [] | Some ids \<Rightarrow> ids)"

subsection \<open>Enough fuel\<close>

definition whites :: "dfs \<Rightarrow> string set" where
  "whites st = {n. df_colour st n = Some White}"

lemma whites_upd [simp]:
  "whites (st\<lparr>df_bad := b\<rparr>) = whites st"
  "whites (st\<lparr>df_colour := (df_colour st)(n \<mapsto> Grey)\<rparr>) = whites st - {n}"
  "whites (st\<lparr>df_colour := (df_colour st)(n \<mapsto> Black)\<rparr>) = whites st - {n}"
  by (auto simp: whites_def)

lemma dfs_enough_both:
  "finite (whites st) \<Longrightarrow> node \<in> whites st \<Longrightarrow> card (whites st) < f \<Longrightarrow>
     \<exists>st'. visit f g node stack st = Some st' \<and> whites st' \<subseteq> whites st"
  "finite (whites st) \<Longrightarrow> card (whites st) < f \<Longrightarrow>
     \<exists>st'. visit_edges f g ns stack st = Some st' \<and> whites st' \<subseteq> whites st"
proof (induction f g node stack st and f g ns stack st rule: visit_visit_edges.induct)
  case (2 f g node stack st)
  let ?st = "st\<lparr>df_colour := (df_colour st)(node \<mapsto> Grey)\<rparr>"
  have "0 < card (whites st)" using 2 by (auto simp: card_gt_0_iff)
  then have "card (whites ?st) < f" using 2 by simp
  then obtain st' where "visit_edges f g (edges_of g node) (stack @ [node]) ?st = Some st'"
      "whites st' \<subseteq> whites ?st"
    using 2 by auto
  then show ?case by auto
next
  case (4 f g n ns stack st)
  show ?case
  proof (cases "df_colour st n")
    case None
    then show ?thesis using 4 by simp
  next
    case (Some c)
    show ?thesis
    proof (cases c)
      case White
      then have n: "df_colour st n = Some White" "n \<in> whites st"
        using Some by (simp_all add: whites_def)
      obtain s where s: "visit f g n stack st = Some s" "whites s \<subseteq> whites st"
        using "4.IH"(2) [OF Some White "4.prems"(1) n(2) "4.prems"(2)] by blast
      have "finite (whites s)" using s(2) "4.prems"(1) by (rule finite_subset)
      moreover have "card (whites s) < f" using card_mono [OF "4.prems"(1) s(2)] "4.prems"(2) by simp
      ultimately obtain t where "visit_edges f g ns stack s = Some t" "whites t \<subseteq> whites s"
        using "4.IH"(3) [OF Some White s(1)] by blast
      then show ?thesis using n(1) s by (auto intro: subset_trans)
    next
      case Grey
      show ?thesis using "4.IH"(4) [OF Some Grey] "4.prems" Some Grey by simp
    next
      case Black
      show ?thesis using "4.IH"(5) [OF Some Black] "4.prems" Some Black by simp
    qed
  qed
qed auto

lemma visit_all_enough:
  "finite (whites st) \<Longrightarrow> card (whites st) < f \<Longrightarrow> \<exists>st'. visit_all f g ns st = Some st'"
proof (induction ns arbitrary: st)
  case (Cons n ns)
  show ?case
  proof (cases "df_colour st n = Some White")
    case True
    then obtain st' where "visit f g n [] st = Some st'" "whites st' \<subseteq> whites st"
      using dfs_enough_both(1) [of st n f g "[]"] Cons.prems by (auto simp: whites_def)
    moreover from this have "finite (whites st')" "card (whites st') < f"
      using Cons.prems by (auto intro: finite_subset dest: card_mono)
    ultimately show ?thesis using Cons.IH True by simp
  qed (use Cons in auto)
qed auto

lemma dfs_enough: "\<exists>st. visit_all (length g + 1) g (map fst g) (dfs_start g) = Some st"
proof (rule visit_all_enough)
  have w: "whites (dfs_start g) = fst ` set g" by (auto simp: whites_def dfs_start_def)
  then show "finite (whites (dfs_start g))" by simp
  have "card (fst ` set g) \<le> length g" by (metis card_image_le card_length finite_set le_trans)
  then show "card (whites (dfs_start g)) < length g + 1" using w by simp
qed

subsection \<open>What a search step keeps\<close>

definition edge_rel :: "graph \<Rightarrow> (string \<times> string) set" where
  "edge_rel g = {(a, b). b \<in> set (edges_of g a)}"

definition greys :: "dfs \<Rightarrow> string set" where
  "greys st = {n. df_colour st n = Some Grey}"

definition blacks :: "dfs \<Rightarrow> string set" where
  "blacks st = {n. df_colour st n = Some Black}"

lemma colour_upd [simp]:
  "greys (st\<lparr>df_bad := b\<rparr>) = greys st" "blacks (st\<lparr>df_bad := b\<rparr>) = blacks st"
  "greys (st\<lparr>df_colour := (df_colour st)(n \<mapsto> Grey)\<rparr>) = insert n (greys st)"
  "greys (st\<lparr>df_colour := (df_colour st)(n \<mapsto> Black)\<rparr>) = greys st - {n}"
  "blacks (st\<lparr>df_colour := (df_colour st)(n \<mapsto> Grey)\<rparr>) = blacks st - {n}"
  "blacks (st\<lparr>df_colour := (df_colour st)(n \<mapsto> Black)\<rparr>) = insert n (blacks st)"
  by (auto simp: greys_def blacks_def)

definition dfs_frame :: "dfs \<Rightarrow> dfs \<Rightarrow> bool" where
  "dfs_frame st st' \<longleftrightarrow> greys st' = greys st \<and> blacks st \<subseteq> blacks st'
     \<and> dom (df_colour st') = dom (df_colour st) \<and> set (df_bad st) \<subseteq> set (df_bad st')"

lemma dfs_frame_refl [simp]: "dfs_frame st st"
  by (simp add: dfs_frame_def)

lemma dfs_frame_trans: "dfs_frame a b \<Longrightarrow> dfs_frame b c \<Longrightarrow> dfs_frame a c"
  by (auto simp: dfs_frame_def)

lemma dfs_frame_bad [simp]: "dfs_frame (st\<lparr>df_bad := df_bad st @ xs\<rparr>) st' \<Longrightarrow> dfs_frame st st'"
  by (simp add: dfs_frame_def)

lemma visit_edges_ConsE:
  assumes "visit_edges f g (n # ns) stack st = Some st'"
  obtains (skip) "df_colour st n \<noteq> Some White" "df_colour st n \<noteq> Some Grey"
      "visit_edges f g ns stack st = Some st'"
    | (grey) "df_colour st n = Some Grey"
      "visit_edges f g ns stack (st\<lparr>df_bad := df_bad st @ dropWhile (\<lambda>m. m \<noteq> n) stack\<rparr>) = Some st'"
    | (white) s where "df_colour st n = Some White" "visit f g n stack st = Some s"
      "visit_edges f g ns stack s = Some st'"
  using assms by (auto split: option.splits colour.splits)

lemma visit_SucE:
  assumes "visit (Suc f) g node stack st = Some st'"
  obtains s where "visit_edges f g (edges_of g node) (stack @ [node])
        (st\<lparr>df_colour := (df_colour st)(node \<mapsto> Grey)\<rparr>) = Some s"
    "st' = s\<lparr>df_colour := (df_colour s)(node \<mapsto> Black)\<rparr>"
  using assms by auto

lemma visit_frame:
  "visit f g node stack st = Some st' \<Longrightarrow> df_colour st node = Some White \<Longrightarrow> dfs_frame st st'"
  "visit_edges f g ns stack st = Some st' \<Longrightarrow> dfs_frame st st'"
proof (induction f g node stack st and f g ns stack st arbitrary: st' and st'
    rule: visit_visit_edges.induct)
  case (2 f g node stack st)
  let ?st = "st\<lparr>df_colour := (df_colour st)(node \<mapsto> Grey)\<rparr>"
  from 2 obtain s where s: "visit_edges f g (edges_of g node) (stack @ [node]) ?st = Some s"
      "st' = s\<lparr>df_colour := (df_colour s)(node \<mapsto> Black)\<rparr>" by auto
  then have "dfs_frame ?st s" using 2 by blast
  moreover have "node \<notin> greys st" "node \<notin> blacks st"
    using "2.prems" by (simp_all add: greys_def blacks_def)
  ultimately show ?case using s(2) "2.prems"(2)
    by (auto simp: dfs_frame_def insert_absorb domIff)
next
  case (4 f g n ns stack st)
  from "4.prems" show ?case
  proof (cases rule: visit_edges_ConsE)
    case skip
    show ?thesis
    proof (cases "df_colour st n")
      case None
      show ?thesis using "4.IH"(1) [OF None skip(3)] .
    next
      case (Some c)
      then have "c = Black" using skip(1,2) by (cases c) simp_all
      then show ?thesis using "4.IH"(5) [OF Some _ skip(3)] by simp
    qed
  next
    case grey
    then show ?thesis using "4.IH"(4) [OF grey(1) refl grey(2)] by (rule_tac dfs_frame_bad)
  next
    case (white s)
    show ?thesis
      using "4.IH"(2) [OF white(1) refl white(2,1)] "4.IH"(3) [OF white(1) refl white(2,3)]
      by (rule dfs_frame_trans)
  qed
qed auto

subsection \<open>Every id reported lies on a cycle\<close>

abbreviation walk :: "graph \<Rightarrow> string list \<Rightarrow> bool" where
  "walk g \<equiv> successively (\<lambda>a b. (a, b) \<in> edge_rel g)"

lemma walk_reach:
  "walk g (a # xs) \<Longrightarrow> x \<in> set (a # xs) \<Longrightarrow> (a, x) \<in> (edge_rel g)\<^sup>* \<and> (x, last (a # xs)) \<in> (edge_rel g)\<^sup>*"
proof (induction xs arbitrary: a x)
  case (Cons b xs)
  have ab: "(a, b) \<in> edge_rel g" and p: "walk g (b # xs)" using Cons.prems(1) by auto
  have b: "(b, last (b # xs)) \<in> (edge_rel g)\<^sup>*" using Cons.IH [OF p, of b] by simp
  show ?case
  proof (cases "x = a")
    case True
    then show ?thesis using ab b by (simp add: converse_rtrancl_into_rtrancl)
  next
    case False
    then have "x \<in> set (b # xs)" using Cons.prems(2) by simp
    then show ?thesis using Cons.IH [OF p] ab by (auto intro: converse_rtrancl_into_rtrancl)
  qed
qed simp

lemma dropWhile_to: "n \<in> set xs \<Longrightarrow> \<exists>ys. dropWhile (\<lambda>m. m \<noteq> n) xs = n # ys"
  by (induction xs) auto

lemma back_edge_cycle:
  assumes "walk g stack" and "n \<in> set stack" and "(last stack, n) \<in> edge_rel g"
    and "x \<in> set (dropWhile (\<lambda>m. m \<noteq> n) stack)"
  shows "(x, x) \<in> (edge_rel g)\<^sup>+"
proof -
  obtain ys where ys: "dropWhile (\<lambda>m. m \<noteq> n) stack = n # ys"
    using dropWhile_to [OF assms(2)] by (elim exE)
  have st: "takeWhile (\<lambda>m. m \<noteq> n) stack @ n # ys = stack"
    using takeWhile_dropWhile_id [of "\<lambda>m. m \<noteq> n" stack] by (simp add: ys)
  have "walk g (takeWhile (\<lambda>m. m \<noteq> n) stack @ n # ys)" by (simp only: st assms(1))
  then have p: "walk g (n # ys)" by (simp only: successively_append_iff)
  have x: "x \<in> set (n # ys)" using assms(4) by (simp only: ys)
  have l: "last (n # ys) = last stack" using arg_cong [OF st, of last] by simp
  have "(x, last stack) \<in> (edge_rel g)\<^sup>*" using walk_reach [OF p x] by (simp only: l)
  then have "(x, n) \<in> (edge_rel g)\<^sup>+" using assms(3) by (rule rtrancl_into_trancl1)
  then show ?thesis using walk_reach [OF p x] by (meson trancl_rtrancl_trancl)
qed

lemma visit_sound:
  "visit f g node stack st = Some st' \<Longrightarrow> df_colour st node = Some White \<Longrightarrow>
     walk g (stack @ [node]) \<Longrightarrow> greys st \<subseteq> set stack \<Longrightarrow>
     \<forall>x\<in>set (df_bad st). (x, x) \<in> (edge_rel g)\<^sup>+ \<Longrightarrow> \<forall>x\<in>set (df_bad st'). (x, x) \<in> (edge_rel g)\<^sup>+"
  "visit_edges f g ns stack st = Some st' \<Longrightarrow> stack \<noteq> [] \<Longrightarrow>
     walk g stack \<Longrightarrow> \<forall>n\<in>set ns. (last stack, n) \<in> edge_rel g \<Longrightarrow> greys st \<subseteq> set stack \<Longrightarrow>
     \<forall>x\<in>set (df_bad st). (x, x) \<in> (edge_rel g)\<^sup>+ \<Longrightarrow> \<forall>x\<in>set (df_bad st'). (x, x) \<in> (edge_rel g)\<^sup>+"
proof (induction f g node stack st and f g ns stack st arbitrary: st' and st'
    rule: visit_visit_edges.induct)
  case (2 f g node stack st)
  let ?st = "st\<lparr>df_colour := (df_colour st)(node \<mapsto> Grey)\<rparr>"
  from "2.prems"(1) obtain s where s: "visit_edges f g (edges_of g node) (stack @ [node]) ?st = Some s"
      "st' = s\<lparr>df_colour := (df_colour s)(node \<mapsto> Black)\<rparr>" by (rule visit_SucE)
  have "\<forall>n\<in>set (edges_of g node). (last (stack @ [node]), n) \<in> edge_rel g" by (simp add: edge_rel_def)
  moreover have "greys ?st \<subseteq> set (stack @ [node])" using "2.prems"(4) by auto
  ultimately have "\<forall>x\<in>set (df_bad s). (x, x) \<in> (edge_rel g)\<^sup>+"
    using "2.IH" [OF s(1)] "2.prems"(3,5) by simp
  then show ?case using s(2) by simp
next
  case (4 f g n ns stack st)
  from "4.prems"(1) show ?case
  proof (cases rule: visit_edges_ConsE)
    case skip
    have ns: "\<forall>n\<in>set ns. (last stack, n) \<in> edge_rel g" using "4.prems"(4) by simp
    show ?thesis
    proof (cases "df_colour st n")
      case None
      show ?thesis using "4.IH"(1) [OF None skip(3) "4.prems"(2,3) ns "4.prems"(5,6)] .
    next
      case (Some c)
      then have "c = Black" using skip(1,2) by (cases c) simp_all
      then show ?thesis using "4.IH"(5) [OF Some _ skip(3) "4.prems"(2,3) ns "4.prems"(5,6)] by simp
    qed
  next
    case grey
    then have "n \<in> set stack" using "4.prems"(5) by (auto simp: greys_def)
    then have "\<forall>x\<in>set (dropWhile (\<lambda>m. m \<noteq> n) stack). (x, x) \<in> (edge_rel g)\<^sup>+"
      using back_edge_cycle "4.prems"(3,4) by simp
    then show ?thesis using "4.IH"(4) [OF grey(1) refl grey(2)] "4.prems" by auto
  next
    case (white s)
    have "walk g (stack @ [n])"
      using "4.prems"(2-4) by (simp add: successively_append_iff)
    then have "\<forall>x\<in>set (df_bad s). (x, x) \<in> (edge_rel g)\<^sup>+"
      using "4.IH"(2) [OF white(1) refl white(2,1)] "4.prems" by simp
    moreover have "greys s = greys st"
      using visit_frame(1) [OF white(2,1)] by (simp add: dfs_frame_def)
    ultimately show ?thesis
      using "4.IH"(3) [OF white(1) refl white(2,3)] "4.prems" by simp
  qed
qed auto

subsection \<open>A search that reports nothing has seen no cycle\<close>

definition search_closed :: "graph \<Rightarrow> dfs \<Rightarrow> bool" where
  "search_closed g st \<longleftrightarrow> (\<forall>a b. a \<in> blacks st \<longrightarrow> (a, b) \<in> edge_rel g \<longrightarrow> b \<in> dom (df_colour st) \<longrightarrow> b \<in> blacks st)
     \<and> acyclic (edge_rel g \<inter> blacks st \<times> blacks st)"

lemma acyclic_add_sink:
  assumes "acyclic (R \<inter> B \<times> B)" and "n \<notin> B" and "\<forall>a\<in>B. (a, n) \<notin> R" and "(n, n) \<notin> R"
  shows "acyclic (R \<inter> insert n B \<times> insert n B)"
proof -
  let ?S = "R \<inter> insert n B \<times> insert n B"
  have no_in: "(a, n) \<notin> ?S" for a using assms(3,4) by auto
  have sub: "(a, b) \<in> ?S\<^sup>+ \<Longrightarrow> a \<in> B \<Longrightarrow> (a, b) \<in> (R \<inter> B \<times> B)\<^sup>+ \<and> b \<in> B" for a b
  proof (induction rule: trancl_induct)
    case (base b)
    then have "b \<noteq> n" using no_in by blast
    then show ?case using base by auto
  next
    case (step b c)
    then have "c \<noteq> n" using no_in by blast
    then have "(b, c) \<in> R \<inter> B \<times> B" using step by auto
    then show ?case using step by (auto intro: trancl_into_trancl)
  qed
  show ?thesis
  proof (rule acyclicI, intro allI notI)
    fix a assume a: "(a, a) \<in> ?S\<^sup>+"
    then have "a \<in> insert n B" by (metis (no_types, lifting) Int_iff SigmaE2 tranclE)
    moreover have "a \<noteq> n" using a no_in by (metis tranclE)
    ultimately show False using sub [OF a] assms(1) by (auto simp: acyclic_def)
  qed
qed

lemma visit_complete:
  "visit f g node stack st = Some st' \<Longrightarrow> df_colour st node = Some White \<Longrightarrow>
     search_closed g st \<Longrightarrow> greys st = set stack \<Longrightarrow> df_bad st' = [] \<Longrightarrow> search_closed g st'"
  "visit_edges f g ns stack st = Some st' \<Longrightarrow> search_closed g st \<Longrightarrow> greys st = set stack \<Longrightarrow>
     df_bad st' = [] \<Longrightarrow>
     search_closed g st' \<and> (\<forall>n\<in>set ns. n \<in> dom (df_colour st) \<longrightarrow> n \<in> blacks st')"
proof (induction f g node stack st and f g ns stack st arbitrary: st' and st'
    rule: visit_visit_edges.induct)
  case (2 f g node stack st)
  let ?st = "st\<lparr>df_colour := (df_colour st)(node \<mapsto> Grey)\<rparr>"
  from "2.prems"(1) obtain s where s: "visit_edges f g (edges_of g node) (stack @ [node]) ?st = Some s"
      "st' = s\<lparr>df_colour := (df_colour s)(node \<mapsto> Black)\<rparr>" by (rule visit_SucE)
  have node: "node \<notin> blacks st" "node \<in> dom (df_colour st)"
    using "2.prems"(2) by (auto simp: blacks_def)
  have c: "search_closed g ?st" using "2.prems"(3) node unfolding search_closed_def by auto
  have gs: "greys ?st = set (stack @ [node])" using "2.prems"(4) by auto
  have "df_bad s = []" using s(2) "2.prems"(5) by simp
  then have IH: "search_closed g s \<and> (\<forall>n\<in>set (edges_of g node). n \<in> dom (df_colour ?st) \<longrightarrow> n \<in> blacks s)"
    by (rule "2.IH" [OF s(1) c gs])
  have fr: "dfs_frame ?st s" using visit_frame(2) [OF s(1)] .
  then have dom: "dom (df_colour s) = dom (df_colour st)" using node(2) by (auto simp: dfs_frame_def)
  have "node \<in> greys s" using fr by (simp add: dfs_frame_def)
  then have nb: "node \<notin> blacks s" by (simp add: greys_def blacks_def)
  have out: "\<forall>b. (node, b) \<in> edge_rel g \<longrightarrow> b \<in> dom (df_colour s) \<longrightarrow> b \<in> blacks s"
    using conjunct2 [OF IH] dom node(2) by (auto simp: edge_rel_def)
  have nodes: "node \<in> dom (df_colour s)" using dom node(2) by simp
  have ac: "acyclic (edge_rel g \<inter> insert node (blacks s) \<times> insert node (blacks s))"
  proof (rule acyclic_add_sink [OF _ nb])
    show "acyclic (edge_rel g \<inter> blacks s \<times> blacks s)" using conjunct1 [OF IH] by (simp add: search_closed_def)
    show "\<forall>a\<in>blacks s. (a, node) \<notin> edge_rel g" using conjunct1 [OF IH] nb nodes unfolding search_closed_def by blast
    show "(node, node) \<notin> edge_rel g" using out nb nodes by blast
  qed
  have "\<forall>a b. a \<in> insert node (blacks s) \<longrightarrow> (a, b) \<in> edge_rel g \<longrightarrow> b \<in> insert node (dom (df_colour s))
      \<longrightarrow> b \<in> insert node (blacks s)"
    using conjunct1 [OF IH] out unfolding search_closed_def by blast
  then show ?case using ac s(2) by (simp add: search_closed_def)
next
  case (4 f g n ns stack st)
  from "4.prems"(1) show ?case
  proof (cases rule: visit_edges_ConsE)
    case skip
    show ?thesis
    proof (cases "df_colour st n")
      case None
      show ?thesis using "4.IH"(1) [OF None skip(3) "4.prems"(2,3,4)] None by auto
    next
      case (Some c)
      then have c: "c = Black" using skip(1,2) by (cases c) simp_all
      have "n \<in> blacks st'"
        using visit_frame(2) [OF skip(3)] Some c by (auto simp: dfs_frame_def blacks_def)
      then show ?thesis using "4.IH"(5) [OF Some c skip(3) "4.prems"(2,3,4)] by simp
    qed
  next
    case grey
    have "n \<in> set stack" using grey(1) "4.prems"(3) by (auto simp: greys_def)
    then have "n \<in> set (dropWhile (\<lambda>m. m \<noteq> n) stack)" by (induction stack) auto
    moreover have "set (dropWhile (\<lambda>m. m \<noteq> n) stack) \<subseteq> set (df_bad st')"
      using visit_frame(2) [OF grey(2)] by (simp add: dfs_frame_def)
    ultimately have "n \<in> set (df_bad st')" by blast
    then show ?thesis using "4.prems"(4) by simp
  next
    case (white s)
    have fs: "dfs_frame st s" and ft: "dfs_frame s st'"
      using visit_frame(1) [OF white(2,1)] visit_frame(2) [OF white(3)] by simp_all
    have b: "df_bad s = []" using ft "4.prems"(4) by (simp add: dfs_frame_def)
    have cs: "search_closed g s" by (rule "4.IH"(2) [OF white(1) refl white(2,1) "4.prems"(2,3) b])
    have gs: "greys s = set stack" using fs "4.prems"(3) by (simp add: dfs_frame_def)
    have rest: "search_closed g st' \<and> (\<forall>n\<in>set ns. n \<in> dom (df_colour s) \<longrightarrow> n \<in> blacks st')"
      by (rule "4.IH"(3) [OF white(1) refl white(2,3) cs gs "4.prems"(4)])
    have "n \<in> blacks s" using white(2) by (cases f) (auto simp: blacks_def)
    then have "n \<in> blacks st'" using ft by (auto simp: dfs_frame_def)
    then show ?thesis using rest fs by (simp add: dfs_frame_def)
  qed
qed auto

subsection \<open>The whole search\<close>

lemma visit_all_keeps:
  assumes "visit_all f g ns st = Some st'" and "greys st = {}"
    and "\<forall>x\<in>set (df_bad st). (x, x) \<in> (edge_rel g)\<^sup>+" and "set ns \<subseteq> dom (df_colour st)"
  shows "(\<forall>x\<in>set (df_bad st'). (x, x) \<in> (edge_rel g)\<^sup>+) \<and> dfs_frame st st' \<and> set ns \<subseteq> blacks st'"
  using assms
proof (induction ns arbitrary: st)
  case (Cons n ns)
  show ?case
  proof (cases "df_colour st n = Some White")
    case True
    then obtain s where s: "visit f g n [] st = Some s" "visit_all f g ns s = Some st'"
      using Cons.prems(1) by (auto split: option.splits)
    have fr: "dfs_frame st s" using visit_frame(1) [OF s(1) True] .
    have bad: "\<forall>x\<in>set (df_bad s). (x, x) \<in> (edge_rel g)\<^sup>+"
      using visit_sound(1) [OF s(1) True] Cons.prems(2,3) by simp
    have n: "n \<in> blacks s" using s(1) by (cases f) (auto simp: blacks_def)
    have "(\<forall>x\<in>set (df_bad st'). (x, x) \<in> (edge_rel g)\<^sup>+) \<and> dfs_frame s st' \<and> set ns \<subseteq> blacks st'"
      by (rule Cons.IH [OF s(2) _ bad]) (use fr Cons.prems in \<open>auto simp: dfs_frame_def\<close>)
    moreover from this have "dfs_frame st st'" using dfs_frame_trans [OF fr] by simp
    moreover from calculation have "n \<in> blacks st'" using n by (simp add: dfs_frame_def subset_iff)
    ultimately show ?thesis by simp
  next
    case False
    from Cons.prems(4) obtain c where c: "df_colour st n = Some c" by auto
    then have "c = Black" using False Cons.prems(2) by (cases c) (auto simp: greys_def)
    then have n: "n \<in> blacks st" using c by (simp add: blacks_def)
    have "(\<forall>x\<in>set (df_bad st'). (x, x) \<in> (edge_rel g)\<^sup>+) \<and> dfs_frame st st' \<and> set ns \<subseteq> blacks st'"
      by (rule Cons.IH) (use False Cons.prems in simp_all)
    then show ?thesis using n by (auto simp: dfs_frame_def)
  qed
qed simp

lemma visit_all_closed:
  assumes "visit_all f g ns st = Some st'" and "greys st = {}" and "search_closed g st" and "df_bad st' = []"
    and "set ns \<subseteq> dom (df_colour st)" and "\<forall>x\<in>set (df_bad st). (x, x) \<in> (edge_rel g)\<^sup>+"
  shows "search_closed g st'"
  using assms
proof (induction ns arbitrary: st)
  case (Cons n ns)
  show ?case
  proof (cases "df_colour st n = Some White")
    case True
    then obtain s where s: "visit f g n [] st = Some s" "visit_all f g ns s = Some st'"
      using Cons.prems(1) by (auto split: option.splits)
    have fr: "dfs_frame st s" using visit_frame(1) [OF s(1) True] .
    have sub: "greys s = {}" "set ns \<subseteq> dom (df_colour s)"
      using fr Cons.prems(2,5) by (auto simp: dfs_frame_def)
    have bad: "\<forall>x\<in>set (df_bad s). (x, x) \<in> (edge_rel g)\<^sup>+"
      using visit_sound(1) [OF s(1) True] Cons.prems(2,6) by simp
    have "df_bad s = []"
      using visit_all_keeps [OF s(2) sub(1) bad sub(2)] Cons.prems(4) by (simp add: dfs_frame_def)
    then have "search_closed g s" using visit_complete(1) [OF s(1) True Cons.prems(3)] Cons.prems(2) by simp
    then show ?thesis by (rule Cons.IH [OF s(2) sub(1) _ Cons.prems(4) sub(2) bad])
  qed (use Cons in simp)
qed simp

lemma find_cycles_run:
  obtains st where "visit_all (length g + 1) g (map fst g) (dfs_start g) = Some st"
    and "find_cycles g = sorted_set (df_bad st)"
  using dfs_enough [of g] by (auto simp: find_cycles_def find_cycles_opt_def)

lemma dfs_start_colour [simp]:
  "df_colour (dfs_start g) n = Some c \<longleftrightarrow> n \<in> fst ` set g \<and> White = c"
  by (simp add: dfs_start_def)

lemma dfs_start_facts:
  "greys (dfs_start g) = {}" "df_bad (dfs_start g) = []" "search_closed g (dfs_start g)"
  "dom (df_colour (dfs_start g)) = fst ` set g" "blacks (dfs_start g) = {}"
proof -
  show b: "blacks (dfs_start g) = {}" by (simp add: blacks_def)
  show "greys (dfs_start g) = {}" by (simp add: greys_def)
  show "df_bad (dfs_start g) = []" by (simp add: dfs_start_def)
  show "search_closed g (dfs_start g)" by (simp add: search_closed_def b acyclic_def)
  show "dom (df_colour (dfs_start g)) = fst ` set g" by (simp add: dom_def)
qed

lemma find_cycles_on:
  assumes "x \<in> set (find_cycles g)"
  shows "(x, x) \<in> (edge_rel g)\<^sup>+"
proof -
  obtain st where st: "visit_all (length g + 1) g (map fst g) (dfs_start g) = Some st"
      "find_cycles g = sorted_set (df_bad st)" by (rule find_cycles_run)
  then show ?thesis using visit_all_keeps [OF st(1)] dfs_start_facts assms by simp
qed

lemma edge_known: "(a, b) \<in> edge_rel g \<Longrightarrow> a \<in> fst ` set g"
  using dict_get_None_iff [of g a] by (cases "dict_get g a") (auto simp: edge_rel_def edges_of_def)

lemma cycle_nodes_known:
  assumes "(x, y) \<in> (edge_rel g)\<^sup>+" shows "x \<in> fst ` set g"
  using assms by (meson edge_known tranclD)

lemma find_cycles_none: "find_cycles g = [] \<longleftrightarrow> acyclic (edge_rel g)"
proof
  assume "acyclic (edge_rel g)"
  then have "x \<notin> set (find_cycles g)" for x using find_cycles_on [of x g] by (auto simp: acyclic_def)
  then show "find_cycles g = []" by (cases "find_cycles g") auto
next
  assume none: "find_cycles g = []"
  obtain st where st: "visit_all (length g + 1) g (map fst g) (dfs_start g) = Some st"
      "find_cycles g = sorted_set (df_bad st)" by (rule find_cycles_run)
  have "set (df_bad st) = {}" using none st(2) by (metis set_sorted_set list.set(1))
  then have b: "df_bad st = []" by simp
  have c: "search_closed g st"
    by (rule visit_all_closed [OF st(1)]) (use b dfs_start_facts in auto)
  have k: "fst ` set g \<subseteq> blacks st"
    using visit_all_keeps [OF st(1)] dfs_start_facts by simp
  have fr: "dfs_frame (dfs_start g) st"
    using visit_all_keeps [OF st(1)] dfs_start_facts by simp
  show "acyclic (edge_rel g)"
  proof (rule acyclicI, intro allI notI)
    fix x assume x: "(x, x) \<in> (edge_rel g)\<^sup>+"
    have "(a, b) \<in> (edge_rel g)\<^sup>+ \<Longrightarrow> b \<in> fst ` set g \<Longrightarrow> (a, b) \<in> (edge_rel g \<inter> blacks st \<times> blacks st)\<^sup>+" for a b
    proof (induction rule: trancl_induct)
      case (base b)
      then show ?case using k edge_known by blast
    next
      case (step b c)
      have "b \<in> fst ` set g" using step(2) by (rule edge_known)
      then show ?case using step k by (blast intro: trancl_into_trancl)
    qed
    then have "(x, x) \<in> (edge_rel g \<inter> blacks st \<times> blacks st)\<^sup>+" using x cycle_nodes_known by blast
    then show False using c by (auto simp: search_closed_def acyclic_def)
  qed
qed

text \<open>\<open>_find_cycles\<close> reports nothing exactly when the prerequisite graph has no cycle (so the
  load error it feeds is raised for every cyclic catalog and for no other), and every id it does
  report lies on a cycle.\<close>

theorem find_cycles_spec:
  "(find_cycles g = [] \<longleftrightarrow> acyclic (edge_rel g)) \<and> set (find_cycles g) \<subseteq> {x. (x, x) \<in> (edge_rel g)\<^sup>+}"
  using find_cycles_none find_cycles_on by blast

text \<open>The converse of the second half fails: the docstring promises the ids that participate in
  at least one cycle, but a node reached again through a finished branch is not reported.\<close>

lemma find_cycles_misses_member:
  "let g = [(''A'', [''B'', ''C'']), (''B'', [''A'']), (''C'', [''B''])]
   in (''C'', ''C'') \<in> (edge_rel g)\<^sup>+ \<and> ''C'' \<notin> set (find_cycles g)"
proof -
  let ?g = "[(''A'', [''B'', ''C'']), (''B'', [''A'']), (''C'', [''B''])]"
  have "(''C'', ''B'') \<in> edge_rel ?g" "(''B'', ''A'') \<in> edge_rel ?g" "(''A'', ''C'') \<in> edge_rel ?g"
    by (simp_all add: edge_rel_def edges_of_def)
  then have "(''C'', ''C'') \<in> (edge_rel ?g)\<^sup>+" by (meson trancl.intros)
  moreover have "''C'' \<notin> set (find_cycles ?g)" by code_simp
  ultimately show ?thesis by simp
qed

section \<open>Chains over the catalog's index\<close>

definition prereq_graph :: "vuln list \<Rightarrow> graph" where
  "prereq_graph vulns = foldl (\<lambda>d v. dict_set (v_id v) (v_prereq v) d) [] vulns"

lemma by_id_known: "dict_get (by_id c) k = Some v \<Longrightarrow> k \<in> v_id ` set (c_vulns c)"
  using by_id_None_iff [of c k] by simp

lemma card_unseen_less:
  assumes "k \<in> v_id ` set (c_vulns c)" and "k \<notin> set seen"
  shows "card (v_id ` set (c_vulns c) - insert k (set seen)) < card (v_id ` set (c_vulns c) - set seen)"
  by (rule psubset_card_mono) (use assms in auto)

function prereq_depth :: "catalog \<Rightarrow> string \<Rightarrow> string list \<Rightarrow> nat" where
  "prereq_depth c vid seen =
     (case dict_get (by_id c) vid of
        None \<Rightarrow> 0
      | Some v \<Rightarrow>
          if v_prereq v = [] \<or> vid \<in> set seen then 0
          else foldr max
                 (map (\<lambda>p. 1 + prereq_depth c p (vid # seen))
                    (filter (\<lambda>p. dict_get (by_id c) p \<noteq> None) (v_prereq v))) 0)"
  by auto
termination
proof (relation "measure (\<lambda>(c, vid, seen). card (v_id ` set (c_vulns c) - set seen))", goal_cases)
  case (2 c vid seen v p)
  then show ?case using card_unseen_less [OF by_id_known [OF 2(1)], of seen] by simp
qed simp

declare prereq_depth.simps [simp del]

text \<open>\<open>transitive_prereqs\<close>: the stack's top is the end of the list, as \<open>list.pop\<close> takes it.\<close>

function prereq_loop :: "catalog \<Rightarrow> string list \<Rightarrow> string list \<Rightarrow> string list" where
  "prereq_loop c stack seen =
     (if stack = [] then seen
      else let cur = last stack; rest = butlast stack in
        if cur \<in> set seen then prereq_loop c rest seen
        else prereq_loop c
               (case dict_get (by_id c) cur of None \<Rightarrow> rest | Some v \<Rightarrow> rest @ v_prereq v)
               (seen @ [cur]))"
  by auto
termination
proof (relation "measures [\<lambda>(c, stack, seen). card (v_id ` set (c_vulns c) - set seen),
    \<lambda>(c, stack, seen). length stack]", goal_cases)
  case (3 c stack seen cur rest)
  show ?case
  proof (cases "dict_get (by_id c) cur")
    case None
    then have "v_id ` set (c_vulns c) - set (seen @ [cur]) = v_id ` set (c_vulns c) - set seen"
      by (auto simp: by_id_None_iff)
    then show ?thesis using None 3 by simp
  next
    case (Some v)
    then show ?thesis using card_unseen_less [OF by_id_known [OF Some] 3(4)] by simp
  qed
qed auto

declare prereq_loop.simps [simp del]

definition transitive_prereqs :: "catalog \<Rightarrow> string \<Rightarrow> string list" where
  "transitive_prereqs c vid =
     sort (prereq_loop c (case dict_get (by_id c) vid of None \<Rightarrow> [] | Some v \<Rightarrow> v_prereq v) [])"

lemma dict_get_prereq_graph:
  "dict_get (prereq_graph (c_vulns c)) k = map_option v_prereq (dict_get (by_id c) k)"
proof -
  have "dict_get (foldl (\<lambda>d v. dict_set (v_id v) (v_prereq v) d) [] vs) k =
      map_option v_prereq (dict_get (foldl (\<lambda>d v. dict_set (v_id v) v d) [] vs) k)" for vs
    by (induction vs rule: rev_induct) simp_all
  then show ?thesis by (simp add: prereq_graph_def by_id_def)
qed

abbreviation PE :: "catalog \<Rightarrow> (string \<times> string) set" where
  "PE c \<equiv> edge_rel (prereq_graph (c_vulns c))"

lemma PE_iff: "(a, b) \<in> PE c \<longleftrightarrow> (\<exists>v. dict_get (by_id c) a = Some v \<and> b \<in> set (v_prereq v))"
  by (cases "dict_get (by_id c) a") (simp_all add: edge_rel_def edges_of_def dict_get_prereq_graph)

subsection \<open>The worklist computes reachability\<close>

lemma prereq_loop_take:
  "stack \<noteq> [] \<Longrightarrow> last stack \<notin> set seen \<Longrightarrow>
     prereq_loop c stack seen =
       prereq_loop c (case dict_get (by_id c) (last stack) of
           None \<Rightarrow> butlast stack | Some v \<Rightarrow> butlast stack @ v_prereq v) (seen @ [last stack])"
  by (subst prereq_loop.simps) (simp only: Let_def if_False)

lemma prereq_loop_set:
  assumes "\<forall>a\<in>set seen. \<forall>b. (a, b) \<in> PE c \<longrightarrow> b \<in> set seen \<union> set stack"
  shows "set (prereq_loop c stack seen) = set seen \<union> {x. \<exists>a\<in>set stack. (a, x) \<in> (PE c)\<^sup>*}"
  using assms
proof (induction c stack seen rule: prereq_loop.induct)
  case (1 c stack seen)
  show ?case
  proof (cases "stack = []")
    case True
    then show ?thesis by (simp add: prereq_loop.simps [of c "[]"])
  next
    case False
    define cur rest where "cur = last stack" and "rest = butlast stack"
    have st: "stack = rest @ [cur]" using False by (simp add: cur_def rest_def)
    show ?thesis
    proof (cases "cur \<in> set seen")
      case True
      have c: "\<forall>a\<in>set seen. \<forall>b. (a, b) \<in> PE c \<longrightarrow> b \<in> set seen \<union> set rest"
        using "1.prems" st True by auto
      have IH: "set (prereq_loop c rest seen) = set seen \<union> {x. \<exists>a\<in>set rest. (a, x) \<in> (PE c)\<^sup>*}"
        by (rule "1.IH"(1) [OF False cur_def rest_def True c])
      have "(cur, x) \<in> (PE c)\<^sup>* \<Longrightarrow> x \<in> set seen \<union> {x. \<exists>a\<in>set rest. (a, x) \<in> (PE c)\<^sup>*}" for x
      proof (induction rule: rtrancl_induct)
        case base
        then show ?case using True by simp
      next
        case (step y z)
        then show ?case using c by (auto intro: rtrancl_into_rtrancl)
      qed
      then show ?thesis using IH False True
        by (subst prereq_loop.simps) (auto simp: Let_def cur_def [symmetric] rest_def [symmetric] st)
    next
      case nin: False
      define nxt where "nxt = (case dict_get (by_id c) cur of None \<Rightarrow> [] | Some v \<Rightarrow> v_prereq v)"
      have nxt: "b \<in> set nxt \<longleftrightarrow> (cur, b) \<in> PE c" for b
        by (cases "dict_get (by_id c) cur") (simp_all add: nxt_def PE_iff)
      have stk: "(case dict_get (by_id c) cur of None \<Rightarrow> rest | Some v \<Rightarrow> rest @ v_prereq v) = rest @ nxt"
        by (simp add: nxt_def split: option.split)
      have c: "\<forall>a\<in>set (seen @ [cur]). \<forall>b. (a, b) \<in> PE c \<longrightarrow> b \<in> set (seen @ [cur]) \<union> set (rest @ nxt)"
        using "1.prems" nxt by (auto simp: st)
      have IH: "set (prereq_loop c (rest @ nxt) (seen @ [cur]))
          = set (seen @ [cur]) \<union> {x. \<exists>a\<in>set (rest @ nxt). (a, x) \<in> (PE c)\<^sup>*}"
        using "1.IH"(2) [OF False cur_def rest_def nin] c by (simp only: stk)
      have "(cur, x) \<in> (PE c)\<^sup>* \<longleftrightarrow> x = cur \<or> (\<exists>b\<in>set nxt. (b, x) \<in> (PE c)\<^sup>*)" for x
        using nxt by (auto elim: converse_rtranclE intro: converse_rtrancl_into_rtrancl)
      then have "{x. \<exists>a\<in>set stack. (a, x) \<in> (PE c)\<^sup>*}
          = insert cur {x. \<exists>a\<in>set (rest @ nxt). (a, x) \<in> (PE c)\<^sup>*}"
        by (auto simp: st)
      moreover have "prereq_loop c stack seen = prereq_loop c (rest @ nxt) (seen @ [cur])"
        using False nin
        using prereq_loop_take [OF False nin [unfolded cur_def], of c] stk by (simp only: cur_def rest_def)
      ultimately show ?thesis using IH by simp
    qed
  qed
qed

lemma prereq_loop_distinct: "distinct seen \<Longrightarrow> distinct (prereq_loop c stack seen)"
proof (induction c stack seen rule: prereq_loop.induct)
  case (1 c stack seen)
  show ?case
  proof (cases "stack = []")
    case True
    then show ?thesis using "1.prems" by (simp add: prereq_loop.simps [of c "[]"])
  next
    case False
    show ?thesis
    proof (cases "last stack \<in> set seen")
      case True
      then show ?thesis using "1.IH"(1) [OF False refl refl] "1.prems" False
        by (subst prereq_loop.simps) (simp add: Let_def)
    next
      case nin: False
      then show ?thesis using "1.IH"(2) [OF False refl refl] "1.prems" False
        by (subst prereq_loop.simps) (simp add: Let_def)
    qed
  qed
qed

text \<open>\<open>transitive_prereqs\<close> lists, in order and without duplicates, exactly the ids reachable
  from an entry through one or more prerequisite edges, cyclic catalogs included.\<close>

theorem transitive_prereqs_spec:
  "set (transitive_prereqs c vid) = {x. (vid, x) \<in> (PE c)\<^sup>+}
     \<and> sorted (transitive_prereqs c vid) \<and> distinct (transitive_prereqs c vid)"
proof -
  let ?start = "case dict_get (by_id c) vid of None \<Rightarrow> [] | Some v \<Rightarrow> v_prereq v"
  have "(vid, b) \<in> PE c \<longleftrightarrow> b \<in> set ?start" for b 
    by (cases "dict_get (by_id c) vid") (simp_all add: PE_iff)
  then have "(vid, x) \<in> (PE c)\<^sup>+ \<longleftrightarrow> (\<exists>a\<in>set ?start. (a, x) \<in> (PE c)\<^sup>*)" for x
    by (meson tranclD rtrancl_into_trancl2)
  then have "{x. (vid, x) \<in> (PE c)\<^sup>+} = {x. \<exists>a\<in>set ?start. (a, x) \<in> (PE c)\<^sup>*}" by blast
  moreover have "set (prereq_loop c ?start []) = {x. \<exists>a\<in>set ?start. (a, x) \<in> (PE c)\<^sup>*}"
    using prereq_loop_set [of "[]" c ?start] by simp
  ultimately show ?thesis by (simp add: transitive_prereqs_def prereq_loop_distinct)
qed

subsection \<open>Depth is the longest chain\<close>

definition chain :: "catalog \<Rightarrow> string list \<Rightarrow> bool" where
  "chain c \<equiv> successively (\<lambda>a b. (a, b) \<in> PE c \<and> dict_get (by_id c) b \<noteq> None)"

lemma foldr_max_ge: "x \<in> set xs \<Longrightarrow> x \<le> foldr max xs (0 :: nat)"
  by (induction xs) (auto simp: le_max_iff_disj)

lemma foldr_max_in: "foldr max xs (0 :: nat) = 0 \<or> foldr max xs 0 \<in> set xs"
  by (induction xs) (auto simp: max_def)

lemma depth_ge_chain:
  assumes "acyclic (PE c)"
  shows "chain c (vid # xs) \<Longrightarrow> \<forall>x\<in>set seen. (vid, x) \<notin> (PE c)\<^sup>* \<Longrightarrow>
     length xs \<le> prereq_depth c vid seen"
proof (induction xs arbitrary: vid seen)
  case (Cons p ys)
  from Cons.prems(1) have vp: "(vid, p) \<in> PE c" and kp: "dict_get (by_id c) p \<noteq> None"
    and ch: "chain c (p # ys)" by (simp_all add: chain_def)
  from vp obtain v where v: "dict_get (by_id c) vid = Some v" "p \<in> set (v_prereq v)"
    by (auto simp: PE_iff)
  have ns: "vid \<notin> set seen" using Cons.prems(2) by auto
  have "(p, vid) \<notin> (PE c)\<^sup>*" using assms vp by (auto simp: acyclic_def dest: rtrancl_into_trancl2)
  then have "\<forall>x\<in>set (vid # seen). (p, x) \<notin> (PE c)\<^sup>*"
    using Cons.prems(2) vp by (auto intro: converse_rtrancl_into_rtrancl)
  then have "length ys \<le> prereq_depth c p (vid # seen)" using Cons.IH ch by blast
  moreover have "1 + prereq_depth c p (vid # seen) \<le> prereq_depth c vid seen"
    using v ns kp by (subst (2) prereq_depth.simps) (auto intro!: foldr_max_ge)
  ultimately show ?case by simp
qed simp

lemma depth_chain: "\<exists>xs. chain c (vid # xs) \<and> length xs = prereq_depth c vid seen"
proof (induction c vid seen rule: prereq_depth.induct)
  case (1 c vid seen)
  show ?case
  proof (cases "prereq_depth c vid seen = 0")
    case True
    then show ?thesis by (intro exI [of _ "[]"]) (simp add: chain_def)
  next
    case False
    then obtain v where v: "dict_get (by_id c) vid = Some v" "v_prereq v \<noteq> []" "vid \<notin> set seen"
      by (subst (asm) prereq_depth.simps) (auto split: option.splits if_splits)
    let ?ds = "map (\<lambda>p. 1 + prereq_depth c p (vid # seen))
        (filter (\<lambda>p. dict_get (by_id c) p \<noteq> None) (v_prereq v))"
    have eq: "prereq_depth c vid seen = foldr max ?ds 0"
      using v by (subst prereq_depth.simps) simp
    then have "prereq_depth c vid seen \<in> set ?ds" using foldr_max_in [of ?ds] False by metis
    then obtain p where p: "p \<in> set (v_prereq v)" "dict_get (by_id c) p \<noteq> None"
        "prereq_depth c vid seen = 1 + prereq_depth c p (vid # seen)" by auto
    obtain ys where "chain c (p # ys)" "length ys = prereq_depth c p (vid # seen)"
      using "1.IH" [OF v(1), of p] v p by auto
    then have "chain c (vid # p # ys) \<and> length (p # ys) = prereq_depth c vid seen"
      using v p by (auto simp: chain_def PE_iff)
    then show ?thesis by blast
  qed
qed

text \<open>On an acyclic catalog \<open>prereq_depth\<close> is the length of the longest chain of known
  prerequisites starting at the entry: some chain has that length and none is longer.\<close>

theorem prereq_depth_longest:
  assumes "acyclic (PE c)"
  shows "(\<exists>xs. chain c (vid # xs) \<and> length xs = prereq_depth c vid [])
    \<and> (\<forall>xs. chain c (vid # xs) \<longrightarrow> length xs \<le> prereq_depth c vid [])"
  using depth_chain [of c vid "[]"] depth_ge_chain [OF assms, of vid _ "[]"] by simp

text \<open>Entries and catalogs for the concrete instances below.\<close>

definition plain_vuln :: "string \<Rightarrow> string list \<Rightarrow> vuln" where
  "plain_vuln i ps =
     \<lparr>v_id = i, v_title = [], v_app = ''shop'', v_component = ''api'', v_cls = ''xss'', v_family = None,
      v_label = None, v_cwe = [79], v_owasp = [], v_severity = ''high'',
      v_entrypoint =
        \<lparr>ep_method = ''GET'', ep_path = ''/items/{id}'', ep_auth = ''none'', ep_param = Some ''q'',
         ep_param_in = ''query'', ep_default = None, ep_content_type = None\<rparr>,
      v_discovery = \<lparr>d_render = None, d_reachable_from = [], d_requires = [], d_difficulty = None\<rparr>,
      v_oracle =
        \<lparr>o_kind = ''sink'', o_condition = [], o_poc = None, o_canary_token = None,
         o_signal = Some (''sig-'' @ i)\<rparr>,
      v_prereq = ps, v_tags = [], v_introduced = None, v_notes = None, v_decoy_note = None,
      v_source = None\<rparr>"

definition plain_catalog :: "vuln list \<Rightarrow> catalog" where
  "plain_catalog vs =
     \<lparr>c_vulns = vs, c_taxonomy = \<lparr>t_editions = [], t_families = [], t_classes = []\<rparr>,
      c_issues = [], c_roadmap = []\<rparr>"

abbreviation chained :: catalog where
  "chained \<equiv> plain_catalog [plain_vuln ''A'' [''B'', ''C''], plain_vuln ''B'' [''C''], plain_vuln ''C'' []]"

lemma prereq_depth_longest_witness:
  "acyclic (PE chained) \<and> prereq_depth chained ''A'' [] = 2
     \<and> (\<exists>xs. chain chained (''A'' # xs) \<and> length xs = prereq_depth chained ''A'' [])"
proof -
  have "prereq_depth chained ''A'' [] = 2" by code_simp
  moreover have "find_cycles (prereq_graph (c_vulns chained)) = []" by code_simp
  then have "acyclic (PE chained)" by (simp only: find_cycles_none)
  moreover from this have "\<exists>xs. chain chained (''A'' # xs) \<and> length xs = prereq_depth chained ''A'' []"
    by (rule conjunct1 [OF prereq_depth_longest])
  ultimately show ?thesis by (intro conjI)
qed

end
