(* ===== verification/Catalog_Load.thy ===== *)
theory Catalog_Load
  imports Catalog Prereqs
begin

text \<open>
  \<open>load_catalog\<close> of \<open>platform/benchctl/src/benchctl/catalog.py\<close>: class defaults with overrides
  (\<open>_resolve\<close>, \<open>_build_vuln\<close>), the checks run on each file in order, and the checks over the
  whole corpus. The loop over the files is a left fold of \<open>load_file\<close> over \<open>load_state\<close>.
\<close>

section \<open>Class defaults and overrides\<close>

text \<open>A schema-valid vulnerability file; an absent key is \<open>None\<close> or the empty list.\<close>

record raw_vuln =
  r_id :: string
  r_title :: "string option"
  r_app :: "string option"
  r_component :: "string option"
  r_class :: "string option"
  r_cwe :: "int list"
  r_severity :: "string option"
  r_owasp :: "(string, string) dict"
  r_method :: "string option"
  r_path :: "string option"
  r_auth :: "string option"
  r_param :: "string option"
  r_param_in :: "string option"
  r_default :: "string option"
  r_content_type :: "string option"
  r_render :: "string option"
  r_reachable_from :: "string list"
  r_requires :: "string list"
  r_difficulty :: "int option"
  r_kind :: "string option"
  r_condition :: "string option"
  r_poc :: "string option"
  r_canary_token :: "string option"
  r_signal :: "string option"
  r_prereq :: "string list"
  r_tags :: "string list"
  r_introduced :: "string option"
  r_notes :: "string option"
  r_decoy_note :: "string option"

definition resolve_cwe :: "raw_vuln \<Rightarrow> class_spec \<Rightarrow> int list" where
  "resolve_cwe raw spec = (if r_cwe raw \<noteq> [] then r_cwe raw else sp_cwe spec)"

definition resolve_owasp :: "raw_vuln \<Rightarrow> class_spec \<Rightarrow> (string, string) dict" where
  "resolve_owasp raw spec =
     foldl (\<lambda>d (edition, cat). dict_set edition cat d) (sp_owasp spec) (r_owasp raw)"

definition build_vuln :: "raw_vuln \<Rightarrow> class_spec \<Rightarrow> string \<Rightarrow> vuln" where
  "build_vuln raw spec source =
     \<lparr>v_id = r_id raw,
      v_title = get_or (r_title raw) [],
      v_app = get_or (r_app raw) [],
      v_component = get_or (r_component raw) ''api'',
      v_cls = get_or (r_class raw) [],
      v_family = sp_family spec,
      v_label = sp_label spec,
      v_cwe = resolve_cwe raw spec,
      v_owasp = resolve_owasp raw spec,
      v_severity = str_or (or_str (r_severity raw) (sp_severity spec)) ''info'',
      v_entrypoint =
        \<lparr>ep_method = upper (get_or (r_method raw) ''GET''),
         ep_path = get_or (r_path raw) ''/'',
         ep_auth = get_or (r_auth raw) ''none'',
         ep_param = r_param raw,
         ep_param_in = get_or (r_param_in raw) ''query'',
         ep_default = r_default raw,
         ep_content_type = r_content_type raw\<rparr>,
      v_discovery =
        \<lparr>d_render = r_render raw, d_reachable_from = r_reachable_from raw,
         d_requires = r_requires raw, d_difficulty = r_difficulty raw\<rparr>,
      v_oracle =
        \<lparr>o_kind = get_or (r_kind raw) ''sink'',
         o_condition = get_or (r_condition raw) [],
         o_poc = r_poc raw,
         o_canary_token = r_canary_token raw,
         o_signal = r_signal raw\<rparr>,
      v_prereq = r_prereq raw,
      v_tags = r_tags raw,
      v_introduced = (if truthy (r_introduced raw) then r_introduced raw else None),
      v_notes = r_notes raw,
      v_decoy_note = r_decoy_note raw,
      v_source = Some source\<rparr>"

section \<open>Taxonomy and roadmap\<close>

definition check_class :: "taxonomy \<Rightarrow> string \<Rightarrow> string \<times> class_spec \<Rightarrow> issue list" where
  "check_class t source ks =
     (let spec = snd ks in
      (if truthy (sp_family spec) \<and> t_families t \<noteq> [] \<and> the (sp_family spec) \<notin> set (t_families t)
       then [\<lparr>i_level = Error, i_code = ''taxonomy-unknown-family'', i_vuln = None,
              i_source = Some source\<rparr>] else []) @
      concat (map (\<lambda>(edition, cat).
        case dict_get (t_editions t) edition of
          None \<Rightarrow> []
        | Some cats \<Rightarrow>
            if dict_get cats cat = None
            then [\<lparr>i_level = Error, i_code = ''taxonomy-unknown-category'', i_vuln = None,
                   i_source = Some source\<rparr>] else []) (sp_owasp spec)))"

definition taxonomy_issues :: "taxonomy \<Rightarrow> string \<Rightarrow> issue list" where
  "taxonomy_issues t source = concat (map (check_class t source) (t_classes t))"

definition roadmap_step ::
  "string \<Rightarrow> (string, string) dict \<times> issue list \<Rightarrow> string \<times> roadmap_entry \<Rightarrow>
   (string, string) dict \<times> issue list" where
  "roadmap_step source st ae =
     (let by_prefix = fst st; issues = snd st; prefix = str_or (rm_prefix (snd ae)) [];
          err = (\<lambda>cd. \<lparr>i_level = Error, i_code = cd, i_vuln = None, i_source = Some source\<rparr>) in
      if prefix = [] then (by_prefix, issues @ [err ''roadmap-missing-prefix''])
      else if dict_get by_prefix prefix \<noteq> None
      then (by_prefix, issues @ [err ''roadmap-duplicate-prefix''])
      else (dict_set prefix (fst ae) by_prefix, issues))"

definition roadmap_issues :: "roadmap \<Rightarrow> string \<Rightarrow> issue list" where
  "roadmap_issues rm source = snd (foldl (roadmap_step source) ([], []) rm)"

section \<open>One file\<close>

datatype yaml_file =
    YamlFailed
  | NotMapping
  | SchemaErrors nat "string option"  \<comment> \<open>one more violation than the number, and the raw id\<close>
  | Valid raw_vuln

record load_state =
  ls_issues :: "issue list"
  ls_vulns :: "vuln list"
  ls_seen :: "(string, string \<times> string) dict"
  ls_prefix :: "(string, string) dict"
  ls_entrypoints :: "(string \<times> string \<times> string, string list) dict"
  ls_tokens :: "(string, string) dict"
  ls_signals :: "(string, string \<times> string) dict"

definition mk_issue :: "level \<Rightarrow> string \<Rightarrow> string \<Rightarrow> string \<Rightarrow> issue" where
  "mk_issue lv cd vid source =
     \<lparr>i_level = lv, i_code = cd, i_vuln = Some vid, i_source = Some source\<rparr>"

definition id_prefix :: "string \<Rightarrow> string" where
  "id_prefix vid =
     (if 2 \<le> count_list vid (CHR ''-'') then split_char (CHR ''-'') vid ! 1 else [])"

definition is_alnum :: "char \<Rightarrow> bool" where
  "is_alnum c = (let n = code c in (48 \<le> n \<and> n \<le> 57) \<or> (65 \<le> n \<and> n \<le> 90) \<or> (97 \<le> n \<and> n \<le> 122)
     \<or> n \<in> {170, 178, 179, 181, 185, 186, 188, 189, 190}
     \<or> (192 \<le> n \<and> n \<noteq> 215 \<and> n \<noteq> 247))"

definition alnum :: "string \<Rightarrow> string" where
  "alnum s = filter is_alnum (casefold s)"

text \<open>Identifier prefix against the app: the roadmap decides; without an entry for the app a
  derivation from the name is only a warning.\<close>

definition check_prefix ::
  "roadmap \<Rightarrow> string \<Rightarrow> string \<Rightarrow> string \<Rightarrow> (string, string) dict \<Rightarrow> issue list \<times> (string, string) dict" where
  "check_prefix rm vid app source prefixes =
     (let prefix = id_prefix vid;
          expected = (if app \<noteq> [] then prefix_for rm app else None) in
      if prefix \<noteq> [] \<and> expected \<noteq> None then
        (if upper prefix \<noteq> upper (the expected)
         then [mk_issue Error ''id-app-mismatch'' vid source] else [], prefixes)
      else if prefix \<noteq> [] \<and> app \<noteq> [] then
        let owner = app_for_prefix rm prefix;
            w = (if rm \<noteq> [] then [mk_issue Warning ''app-not-in-roadmap'' vid source] else []) in
        if truthy owner \<and> owner \<noteq> Some app
        then (w @ [mk_issue Error ''id-prefix-collision'' vid source], prefixes)
        else if \<not> startswith (alnum app) (alnum prefix)
        then (w @ [mk_issue Warning ''id-app-mismatch-unverified'' vid source], prefixes)
        else
          let prefixes' = setdefault prefix app prefixes in
          (w @ (if dict_get prefixes' prefix \<noteq> Some app
                then [mk_issue Error ''id-prefix-collision'' vid source] else []), prefixes')
      else ([], prefixes))"

definition check_token :: "vuln \<Rightarrow> string \<Rightarrow> (string, string) dict \<Rightarrow> issue list \<times> (string, string) dict" where
  "check_token v source tokens =
     (case o_canary_token (v_oracle v) of
        None \<Rightarrow> ([], tokens)
      | Some t \<Rightarrow>
          if t = [] then ([], tokens)
          else if dict_get tokens t \<noteq> None
          then ([mk_issue Error ''duplicate-canary-token'' (v_id v) source], tokens)
          else ([], dict_set t (v_id v) tokens))"

definition check_signal ::
  "vuln \<Rightarrow> string \<Rightarrow> (string, string \<times> string) dict \<Rightarrow> issue list \<times> (string, string \<times> string) dict" where
  "check_signal v source signals =
     (if truthy (o_signal (v_oracle v)) then
        let s = the (o_signal (v_oracle v)) in
        if dict_get signals s \<noteq> None
        then ([mk_issue Error ''duplicate-signal'' (v_id v) source], signals)
        else ([], dict_set s (v_id v, v_app v) signals)
      else if o_kind (v_oracle v) \<noteq> ''oob''
      then ([mk_issue Warning ''signal-missing'' (v_id v) source], signals)
      else if \<not> truthy (o_canary_token (v_oracle v))
      then ([mk_issue Warning ''oob-unattributable'' (v_id v) source], signals)
      else ([], signals))"

definition load_valid :: "taxonomy \<Rightarrow> roadmap \<Rightarrow> string \<Rightarrow> raw_vuln \<Rightarrow> load_state \<Rightarrow> load_state" where
  "load_valid t rm source raw st =
     (let vid = r_id raw; app = get_or (r_app raw) [] in
      if dict_get (ls_seen st) vid \<noteq> None
      then st\<lparr>ls_issues := ls_issues st @ [mk_issue Error ''duplicate-id'' vid source]\<rparr>
      else
        let found = dict_get (t_classes t) (get_or (r_class raw) []);
            cls_iss = (if found = None then [mk_issue Error ''unknown-class'' vid source] else []);
            pre = check_prefix rm vid app source (ls_prefix st);
            v = build_vuln raw (get_or found empty_spec) source;
            tok = check_token v source (ls_tokens st);
            sig = check_signal v source (ls_signals st)
        in st\<lparr>ls_issues := ls_issues st @ cls_iss @ fst pre @ fst tok @ fst sig,
              ls_vulns := ls_vulns st @ [v],
              ls_seen := dict_set vid (source, app) (ls_seen st),
              ls_prefix := snd pre,
              ls_entrypoints :=
                bucket_add (v_app v, ep_method (v_entrypoint v), v_route_key v) vid (ls_entrypoints st),
              ls_tokens := snd tok,
              ls_signals := snd sig\<rparr>)"

definition load_file :: "taxonomy \<Rightarrow> roadmap \<Rightarrow> load_state \<Rightarrow> string \<times> yaml_file \<Rightarrow> load_state" where
  "load_file t rm st file =
     (let source = fst file;
          err = (\<lambda>cd vid. \<lparr>i_level = Error, i_code = cd, i_vuln = vid, i_source = Some source\<rparr>) in
      case snd file of
        YamlFailed \<Rightarrow> st\<lparr>ls_issues := ls_issues st @ [err ''yaml-parse'' None]\<rparr>
      | NotMapping \<Rightarrow> st\<lparr>ls_issues := ls_issues st @ [err ''yaml-shape'' None]\<rparr>
      | SchemaErrors n vid \<Rightarrow> st\<lparr>ls_issues := ls_issues st @ replicate (Suc n) (err ''schema'' vid)\<rparr>
      | Valid raw \<Rightarrow> load_valid t rm source raw st)"

section \<open>The corpus\<close>

definition prereq_issues :: "vuln list \<Rightarrow> issue list" where
  "prereq_issues vulns =
     concat (map (\<lambda>v. concat (map (\<lambda>p.
        if p \<notin> v_id ` set vulns
        then [\<lparr>i_level = Error, i_code = ''unknown-prereq'', i_vuln = Some (v_id v),
               i_source = v_source v\<rparr>] else []) (v_prereq v))) vulns)"

definition cycle_issues :: "vuln list \<Rightarrow> issue list" where
  "cycle_issues vulns =
     map (\<lambda>i. \<lparr>i_level = Error, i_code = ''prereq-cycle'', i_vuln = Some i, i_source = None\<rparr>)
       (find_cycles (prereq_graph vulns))"

definition shared_issues :: "(string \<times> string \<times> string, string list) dict \<Rightarrow> issue list" where
  "shared_issues eps =
     concat (map (\<lambda>(key, ids).
        if 1 < length ids
        then [\<lparr>i_level = Warning, i_code = ''shared-entrypoint'', i_vuln = Some (hd (sort ids)),
               i_source = None\<rparr>] else []) (sort_key fst eps))"

definition initial_load :: "issue list \<Rightarrow> load_state" where
  "initial_load iss =
     \<lparr>ls_issues = iss, ls_vulns = [], ls_seen = [], ls_prefix = [], ls_entrypoints = [],
      ls_tokens = [], ls_signals = []\<rparr>"

definition load_catalog ::
  "taxonomy \<Rightarrow> string \<Rightarrow> roadmap \<Rightarrow> string \<Rightarrow> (string \<times> yaml_file) list \<Rightarrow> catalog" where
  "load_catalog t tpath rm rpath files =
     (let st = foldl (load_file t rm)
                 (initial_load (taxonomy_issues t tpath @ roadmap_issues rm rpath)) files
      in \<lparr>c_vulns = ls_vulns st, c_taxonomy = t,
          c_issues = ls_issues st @ prereq_issues (ls_vulns st) @ cycle_issues (ls_vulns st)
                       @ shared_issues (ls_entrypoints st),
          c_roadmap = rm\<rparr>)"

section \<open>What a load without errors guarantees\<close>

definition clean :: "issue list \<Rightarrow> bool" where
  "clean iss \<longleftrightarrow> (\<forall>i\<in>set iss. i_level i \<noteq> Error)"

lemma clean_simps [simp]:
  "clean []" "clean (a @ b) \<longleftrightarrow> clean a \<and> clean b" "clean (i # a) \<longleftrightarrow> i_level i \<noteq> Error \<and> clean a"
  "clean (replicate (Suc n) i) \<longleftrightarrow> i_level i \<noteq> Error"
  by (auto simp: clean_def)

lemma mk_issue_level [simp]: "i_level (mk_issue lv cd vid source) = lv"
  by (simp add: mk_issue_def)

abbreviation token_of :: "vuln \<Rightarrow> string option" where
  "token_of v \<equiv> o_canary_token (v_oracle v)"

abbreviation signal_of :: "vuln \<Rightarrow> string option" where
  "signal_of v \<equiv> o_signal (v_oracle v)"

definition load_inv :: "load_state \<Rightarrow> bool" where
  "load_inv st \<longleftrightarrow>
     distinct (map v_id (ls_vulns st))
     \<and> (\<forall>i. dict_get (ls_seen st) i = None \<longleftrightarrow> i \<notin> v_id ` set (ls_vulns st))
     \<and> (clean (ls_issues st) \<longrightarrow>
          (\<forall>v\<in>set (ls_vulns st). truthy (token_of v) \<longrightarrow>
             dict_get (ls_tokens st) (the (token_of v)) = Some (v_id v))
        \<and> (\<forall>v\<in>set (ls_vulns st). truthy (signal_of v) \<longrightarrow>
             dict_get (ls_signals st) (the (signal_of v)) = Some (v_id v, v_app v)))"

lemma check_token_clean:
  assumes "clean (fst (check_token v source tokens))"
  shows "truthy (token_of v) \<longrightarrow> dict_get (snd (check_token v source tokens)) (the (token_of v)) = Some (v_id v)"
    and "dict_get tokens t = Some i \<Longrightarrow> dict_get (snd (check_token v source tokens)) t = Some i"
  using assms by (auto simp: check_token_def split: option.splits if_splits)

lemma check_signal_clean:
  assumes "clean (fst (check_signal v source signals))"
  shows "truthy (signal_of v) \<longrightarrow>
      dict_get (snd (check_signal v source signals)) (the (signal_of v)) = Some (v_id v, v_app v)"
    and "dict_get signals s = Some (i, a) \<Longrightarrow> dict_get (snd (check_signal v source signals)) s = Some (i, a)"
  using assms by (auto simp: check_signal_def Let_def split: if_splits)

lemma build_vuln_id [simp]: "v_id (build_vuln raw spec source) = r_id raw"
  by (simp add: build_vuln_def)

lemma load_inv_dirty: "load_inv st \<Longrightarrow> load_inv (st\<lparr>ls_issues := ls_issues st @ xs\<rparr>)"
  by (simp add: load_inv_def)

lemma load_valid_inv:
  assumes "load_inv st"
  shows "load_inv (load_valid t rm source raw st)"
proof (cases "dict_get (ls_seen st) (r_id raw)")
  case None
  let ?v = "build_vuln raw (get_or (dict_get (t_classes t) (get_or (r_class raw) [])) empty_spec) source"
  let ?st = "load_valid t rm source raw st"
  have new: "r_id raw \<notin> v_id ` set (ls_vulns st)" using None assms by (simp add: load_inv_def)
  have vs: "ls_vulns ?st = ls_vulns st @ [?v]"
    and seen: "ls_seen ?st = dict_set (r_id raw) (source, get_or (r_app raw) []) (ls_seen st)"
    and toks: "ls_tokens ?st = snd (check_token ?v source (ls_tokens st))"
    and sigs: "ls_signals ?st = snd (check_signal ?v source (ls_signals st))"
    and iss: "clean (ls_issues ?st) \<longrightarrow> clean (ls_issues st)
      \<and> clean (fst (check_token ?v source (ls_tokens st))) \<and> clean (fst (check_signal ?v source (ls_signals st)))"
    using None by (simp_all add: load_valid_def Let_def)
  have "distinct (map v_id (ls_vulns ?st))" using new assms by (simp add: vs load_inv_def)
  moreover have "\<forall>i. dict_get (ls_seen ?st) i = None \<longleftrightarrow> i \<notin> v_id ` set (ls_vulns ?st)"
    using assms by (simp add: vs seen load_inv_def)
  moreover have "(\<forall>v\<in>set (ls_vulns ?st). truthy (token_of v) \<longrightarrow>
      dict_get (ls_tokens ?st) (the (token_of v)) = Some (v_id v))" if "clean (ls_issues ?st)"
    using that iss assms check_token_clean [of ?v source "ls_tokens st"]
    by (simp add: vs toks load_inv_def)
  moreover have "(\<forall>v\<in>set (ls_vulns ?st). truthy (signal_of v) \<longrightarrow>
      dict_get (ls_signals ?st) (the (signal_of v)) = Some (v_id v, v_app v))" if "clean (ls_issues ?st)"
    using that iss assms check_signal_clean [of ?v source "ls_signals st"]
    by (simp add: vs sigs load_inv_def)
  ultimately show ?thesis unfolding load_inv_def by blast
next
  case (Some a)
  then show ?thesis using load_inv_dirty [OF assms] by (simp add: load_valid_def)
qed

interpretation loading: invariant_machine "load_file t rm" load_inv for t rm
proof (unfold_locales, goal_cases)
  case (1 st f)
  then show ?case
    by (cases "snd f") (simp_all add: load_file_def Let_def load_valid_inv load_inv_dirty)
qed

definition file_id :: "string \<times> yaml_file \<Rightarrow> string option" where
  "file_id f = (case snd f of Valid raw \<Rightarrow> Some (r_id raw) | _ \<Rightarrow> None)"

lemma load_file_step:
  assumes "clean (ls_issues (load_file t rm st f))"
  shows "clean (ls_issues st)
    \<and> map (Some \<circ> v_id) (ls_vulns (load_file t rm st f)) = map (Some \<circ> v_id) (ls_vulns st) @ [file_id f]"
proof (cases "snd f")
  case (Valid raw)
  then show ?thesis using assms
    by (cases "dict_get (ls_seen st) (r_id raw)")
       (simp_all add: load_file_def load_valid_def Let_def file_id_def)
qed (use assms in \<open>simp_all add: load_file_def Let_def\<close>)

lemma load_files_ids:
  "clean (ls_issues (foldl (load_file t rm) st files)) \<Longrightarrow>
     map (Some \<circ> v_id) (ls_vulns (foldl (load_file t rm) st files))
       = map (Some \<circ> v_id) (ls_vulns st) @ map file_id files
     \<and> clean (ls_issues st)"
proof (induction files rule: rev_induct)
  case (snoc f fs)
  then show ?case using load_file_step [of t rm "foldl (load_file t rm) st fs" f] by (simp add: comp_def)
qed simp

lemma load_catalog_parts:
  fixes t tpath rm rpath files
  defines "st \<equiv> foldl (load_file t rm) (initial_load (taxonomy_issues t tpath @ roadmap_issues rm rpath)) files"
  defines "c \<equiv> load_catalog t tpath rm rpath files"
  assumes "catalog_errors c = []"
  shows "load_inv st" "c_vulns c = ls_vulns st" "clean (ls_issues st)"
    "clean (prereq_issues (c_vulns c))" "clean (cycle_issues (c_vulns c))"
proof -
  show "load_inv st"
    unfolding st_def by (rule loading.run_inv) (simp add: load_inv_def initial_load_def)
  show "c_vulns c = ls_vulns st" by (simp add: c_def st_def load_catalog_def Let_def)
  have "clean (c_issues c)" using assms(3) by (auto simp: catalog_errors_def clean_def filter_empty_conv)
  then show "clean (ls_issues st)" "clean (prereq_issues (c_vulns c))" "clean (cycle_issues (c_vulns c))"
    by (simp_all add: c_def st_def load_catalog_def Let_def)
qed

lemma clean_prereqs:
  assumes "clean (prereq_issues vs)" and "v \<in> set vs"
  shows "set (v_prereq v) \<subseteq> v_id ` set vs"
proof (rule ccontr)
  assume "\<not> ?thesis"
  then obtain p where "p \<in> set (v_prereq v)" "p \<notin> v_id ` set vs" by auto
  then have "\<lparr>i_level = Error, i_code = ''unknown-prereq'', i_vuln = Some (v_id v), i_source = v_source v\<rparr>
      \<in> set (prereq_issues vs)"
    using assms(2) unfolding prereq_issues_def by force
  then show False using assms(1) by (auto simp: clean_def)
qed

lemma clean_cycles: "clean (cycle_issues vs) \<Longrightarrow> acyclic (edge_rel (prereq_graph vs))"
  by (cases "find_cycles (prereq_graph vs)") (auto simp: cycle_issues_def find_cycles_none)

text \<open>C9: a load that reports no error gives a catalog in which no file was dropped, ids, canary
  tokens and signals each identify one entry (so the three indexes invert them), and every
  prerequisite is a known id with no cycle among them.\<close>

theorem load_catalog_sound:
  assumes "catalog_errors (load_catalog t tpath rm rpath files) = []"
  shows "let c = load_catalog t tpath rm rpath files in
      map (Some \<circ> v_id) (c_vulns c) = map file_id files
    \<and> distinct (map v_id (c_vulns c))
    \<and> acyclic (PE c)
    \<and> (\<forall>v\<in>set (c_vulns c).
         dict_get (by_id c) (v_id v) = Some v
       \<and> (truthy (token_of v) \<longrightarrow> dict_get (by_token c) (the (token_of v)) = Some v)
       \<and> (truthy (signal_of v) \<longrightarrow> dict_get (by_signal c) (the (signal_of v)) = Some v)
       \<and> set (v_prereq v) \<subseteq> v_id ` set (c_vulns c))"
proof -
  define c where "c = load_catalog t tpath rm rpath files"
  define st where
    "st = foldl (load_file t rm) (initial_load (taxonomy_issues t tpath @ roadmap_issues rm rpath)) files"
  note parts = load_catalog_parts [OF assms, folded c_def st_def]
  have inv: "load_inv st" and vs: "c_vulns c = ls_vulns st" and cl: "clean (ls_issues st)"
    by (fact parts)+
  have d: "distinct (map v_id (c_vulns c))" using inv vs by (simp add: load_inv_def)
  then have inj: "inj_on v_id (set (c_vulns c))" by (simp add: distinct_map)
  have "map (Some \<circ> v_id) (c_vulns c) = map file_id files"
    using load_files_ids [OF cl [unfolded st_def]] unfolding vs st_def by (simp add: initial_load_def)
  moreover have "acyclic (PE c)" using clean_cycles [OF parts(5)] .
  moreover have "dict_get (by_token c) (the (token_of v)) = Some v"
    if "v \<in> set (c_vulns c)" "truthy (token_of v)" for v
    unfolding by_token_def
  proof (rule index_by_unique [OF that(1)])
    show "token_of v = Some (the (token_of v))" "the (token_of v) \<noteq> []"
      using truthyE [OF that(2)] by auto
    fix w assume w: "w \<in> set (c_vulns c)" "token_of w = Some (the (token_of v))"
    have un: "\<forall>u\<in>set (c_vulns c). truthy (token_of u) \<longrightarrow> dict_get (ls_tokens st) (the (token_of u)) = Some (v_id u)"
      using inv cl vs by (simp add: load_inv_def)
    have "truthy (token_of w)" using w(2) truthyE [OF that(2)] by auto
    then have "dict_get (ls_tokens st) (the (token_of v)) = Some (v_id w)" using un w by (metis option.sel)
    then have eq: "v_id w = v_id v" using un that by simp
    from eq show "w = v" using inj w(1) that(1) by (auto dest: inj_onD)
  qed
  moreover have "dict_get (by_signal c) (the (signal_of v)) = Some v"
    if "v \<in> set (c_vulns c)" "truthy (signal_of v)" for v
    unfolding by_signal_def
  proof (rule index_by_unique [OF that(1)])
    show "signal_of v = Some (the (signal_of v))" "the (signal_of v) \<noteq> []"
      using truthyE [OF that(2)] by auto
    fix w assume w: "w \<in> set (c_vulns c)" "signal_of w = Some (the (signal_of v))"
    have un: "\<forall>u\<in>set (c_vulns c). truthy (signal_of u) \<longrightarrow> dict_get (ls_signals st) (the (signal_of u)) = Some (v_id u, v_app u)"
      using inv cl vs by (simp add: load_inv_def)
    have "truthy (signal_of w)" using w(2) truthyE [OF that(2)] by auto
    then have "dict_get (ls_signals st) (the (signal_of v)) = Some (v_id w, v_app w)" using un w by (metis option.sel)
    then have eq: "v_id w = v_id v" using un that by simp
    from eq show "w = v" using inj w(1) that(1) by (auto dest: inj_onD)
  qed
  ultimately show ?thesis
    using d by_id_unique [OF _ inj] clean_prereqs [OF parts(4)]
    unfolding c_def [symmetric] Let_def by (intro conjI ballI impI) simp_all
qed

definition plain_raw :: "string \<Rightarrow> string list \<Rightarrow> raw_vuln" where
  "plain_raw i ps =
     \<lparr>r_id = ''BENCH-SHOP-'' @ i, r_title = None, r_app = Some ''shop'', r_component = None,
      r_class = Some ''xss'', r_cwe = [], r_severity = None, r_owasp = [], r_method = Some ''post'',
      r_path = Some ''/cart'', r_auth = None, r_param = None, r_param_in = None, r_default = None,
      r_content_type = None, r_render = None, r_reachable_from = [], r_requires = [],
      r_difficulty = None, r_kind = None, r_condition = None, r_poc = None,
      r_canary_token = Some (''token-'' @ i), r_signal = Some (''signal-'' @ i),
      r_prereq = map (\<lambda>p. ''BENCH-SHOP-'' @ p) ps, r_tags = [], r_introduced = None, r_notes = None,
      r_decoy_note = None\<rparr>"

abbreviation plain_taxonomy :: taxonomy where
  "plain_taxonomy \<equiv>
     \<lparr>t_editions = [(''2021'', [(''A03'', ''Injection'')])], t_families = [''injection''],
      t_classes = [(''xss'', \<lparr>sp_family = Some ''injection'', sp_label = None, sp_cwe = [79],
        sp_severity = Some ''medium'', sp_owasp = [(''2021'', ''A03'')]\<rparr>)]\<rparr>"

abbreviation plain_roadmap :: roadmap where
  "plain_roadmap \<equiv> [(''shop'', \<lparr>rm_prefix = Some ''SHOP'', rm_quota = Some 3, rm_classes = []\<rparr>)]"

abbreviation plain_files :: "(string \<times> yaml_file) list" where
  "plain_files \<equiv> [(''a.yaml'', Valid (plain_raw ''1'' [])), (''b.yaml'', Valid (plain_raw ''2'' [''1'']))]"

lemma load_catalog_sound_witness:
  "catalog_errors (load_catalog plain_taxonomy ''t'' plain_roadmap ''r'' plain_files) = []
   \<and> (let c = load_catalog plain_taxonomy ''t'' plain_roadmap ''r'' plain_files in
      map (Some \<circ> v_id) (c_vulns c) = map file_id plain_files
    \<and> distinct (map v_id (c_vulns c))
    \<and> acyclic (PE c))"
proof
  show "catalog_errors (load_catalog plain_taxonomy ''t'' plain_roadmap ''r'' plain_files) = []"
    by code_simp
  from load_catalog_sound [OF this]
  show "let c = load_catalog plain_taxonomy ''t'' plain_roadmap ''r'' plain_files in
      map (Some \<circ> v_id) (c_vulns c) = map file_id plain_files
    \<and> distinct (map v_id (c_vulns c))
    \<and> acyclic (PE c)"
    unfolding Let_def by (elim conjE) (intro conjI)
qed

text \<open>A second file with the same id is dropped, with an error.\<close>

lemma duplicate_id_reported:
  "let c = load_catalog plain_taxonomy ''t'' plain_roadmap ''r''
             [(''a.yaml'', Valid (plain_raw ''1'' [])), (''b.yaml'', Valid (plain_raw ''1'' []))]
   in length (c_vulns c) = 1 \<and> map i_code (catalog_errors c) = [''duplicate-id'']"
  by code_simp

text \<open>Overrides: an edition named by the file wins over the class default, every other edition
  keeps it; a non-empty cwe list and severity win likewise.\<close>

lemma resolve_owasp_get:
  "dict_get (resolve_owasp raw spec) edition =
     (case dict_get (rev (r_owasp raw)) edition of Some x \<Rightarrow> Some x | None \<Rightarrow> dict_get (sp_owasp spec) edition)"
proof -
  have "dict_get (foldl (\<lambda>d (e, x). dict_set e x d) d ov) edition =
      (case dict_get (rev ov) edition of Some x \<Rightarrow> Some x | None \<Rightarrow> dict_get d edition)" for d ov
    by (induction ov rule: rev_induct) (auto split: option.split)
  then show ?thesis by (simp add: resolve_owasp_def)
qed

end
