(* ===== verification/Hosts.thy ===== *)
theory Hosts
  imports Py_Text
begin

text \<open>
  Host names, which three components normalise and compare: the scorer's inventories
  (\<open>normalize_host\<close>, \<open>host_matches\<close> in \<open>benchctl/inventory.py\<close>), the scorer's callback join
  (\<open>_norm_host\<close>, \<open>_signal_for_host\<close> in \<open>benchctl/scoring.py\<close>), the resolver
  (\<open>normalise_host\<close>, \<open>hosts_match\<close> in \<open>edge_resolver/correlation.py\<close>) and the collector's
  registry (\<open>_host_matches\<close> in \<open>bench_collector/correlations.py\<close>). The last three relate a
  name to its subdomains in either direction; what they share is the interface
  \<open>subdomain_relation\<close>.
\<close>

section \<open>Inventory hosts\<close>

definition is_ip_literal :: "string \<Rightarrow> bool" where
  "is_ip_literal value =
     (CHR '':'' \<in> set value \<or>
      (value \<noteq> [] \<and> list_all (\<lambda>c. (48 \<le> code c \<and> code c \<le> 57) \<or> c = CHR ''.'') value))"

definition normalize_host :: "string option \<Rightarrow> string option" where
  "normalize_host host =
     (case host of None \<Rightarrow> None
      | Some h \<Rightarrow>
        (if h = [] then None
         else let value = lower (strip h) in
           if value = [] then None
           else if startswith value ''['' then
             falsy_none (strip (before (CHR '']'') (tl value)))
           else
             let value' =
               (if count_list value (CHR '':'') = 1 \<and> all_digits (after (CHR '':'') value)
                then before (CHR '':'') value else value)
             in falsy_none (rstrip_chars ''.'' value')))"

definition host_matches :: "string option \<Rightarrow> string option \<Rightarrow> bool" where
  "host_matches row_host host =
     (case (normalize_host row_host, normalize_host host) of
        (Some a, Some b) \<Rightarrow>
          (if a = b then True
           else if is_ip_literal a \<or> is_ip_literal b then False
           else before (CHR ''.'') a = before (CHR ''.'') b)
      | _ \<Rightarrow> True)"

section \<open>Callback hosts\<close>

text \<open>The scorer's \<open>_norm_host\<close>; \<open>CorrelationBase._normalise_host\<close> of the collector is the same
  expression, applied when a hint is registered.\<close>

definition norm_host :: "string option \<Rightarrow> string" where
  "norm_host host = lower (rstrip_chars ''.'' (strip (case host of None \<Rightarrow> [] | Some h \<Rightarrow> h)))"

text \<open>The resolver's \<open>normalise_host\<close>.\<close>

definition normalise_host :: "string option \<Rightarrow> string" where
  "normalise_host host =
     (case host of None \<Rightarrow> []
      | Some h \<Rightarrow>
        (if h = [] then []
         else let name = lower (strip_chars ''.'' (strip h)) in
           if startswith name ''['' \<and> CHR '']'' \<in> set name then before (CHR '']'') (tl name)
           else if count_list name (CHR '':'') = 1 then before (CHR '':'') name
           else name))"

definition hosts_match :: "string \<Rightarrow> string \<Rightarrow> bool" where
  "hosts_match observed registered =
     (if observed = [] \<or> registered = [] then False
      else observed = registered \<or> endswith observed (CHR ''.'' # registered)
           \<or> endswith registered (CHR ''.'' # observed))"

text \<open>The registry's \<open>_host_matches\<close>, on the entry's \<open>destination_host\<close>.\<close>

definition registry_host_matches :: "string option \<Rightarrow> string \<Rightarrow> bool" where
  "registry_host_matches destination_host wanted =
     (let host = str_or destination_host [] in
      host \<noteq> [] \<and> (wanted = host \<or> endswith wanted (CHR ''.'' # host)
                     \<or> endswith host (CHR ''.'' # wanted)))"

section \<open>Interface: a relation between a name and its subdomains\<close>

locale subdomain_relation =
  fixes rel :: "string \<Rightarrow> string \<Rightarrow> bool"
  assumes rel_iff: "a \<noteq> [] \<Longrightarrow> b \<noteq> [] \<Longrightarrow>
    rel a b \<longleftrightarrow> a = b \<or> (\<exists>p. a = p @ CHR ''.'' # b) \<or> (\<exists>p. b = p @ CHR ''.'' # a)"
begin

lemma rel_refl: "a \<noteq> [] \<Longrightarrow> rel a a"
  by (simp add: rel_iff)

lemma rel_sym: "a \<noteq> [] \<Longrightarrow> b \<noteq> [] \<Longrightarrow> rel a b \<longleftrightarrow> rel b a"
  by (auto simp: rel_iff)

lemma rel_subdomain: "b \<noteq> [] \<Longrightarrow> rel (p @ CHR ''.'' # b) b"
  by (simp add: rel_iff)

text \<open>Matching names differ by whole labels: a sibling that only shares a textual suffix is
  not related.\<close>

lemma rel_not_textual_suffix:
  assumes "b \<noteq> []" and "c \<noteq> CHR ''.''" and "rel ((p @ [c]) @ b) b"
  shows "\<exists>q. b = q @ CHR ''.'' # (p @ [c]) @ b"
proof -
  have "(p @ [c]) @ b \<noteq> q @ CHR ''.'' # b" for q
  proof
    assume "(p @ [c]) @ b = q @ CHR ''.'' # b"
    then have "(p @ [c]) @ b = (q @ [CHR ''.'']) @ b" by simp
    then have "p @ [c] = q @ [CHR ''.'']" by (simp only: append_same_eq)
    then show False using assms(2) by simp
  qed
  then show ?thesis using assms rel_iff [of "(p @ [c]) @ b" b] by auto
qed

lemma rel_not_textual_suffix': "b \<noteq> [] \<Longrightarrow> c \<noteq> CHR ''.'' \<Longrightarrow> \<not> rel ((p @ [c]) @ b) b"
proof
  assume "b \<noteq> []" "c \<noteq> CHR ''.''" "rel ((p @ [c]) @ b) b"
  then obtain q where "b = q @ CHR ''.'' # (p @ [c]) @ b" using rel_not_textual_suffix by blast
  then have "length b = length (q @ CHR ''.'' # (p @ [c]) @ b)" by (rule arg_cong)
  then show False by simp
qed

end

interpretation resolver_rel: subdomain_relation hosts_match
  by unfold_locales (auto simp: hosts_match_def endswith_iff)

interpretation registry_rel: subdomain_relation "\<lambda>wanted host. registry_host_matches (Some host) wanted"
  by unfold_locales (auto simp: registry_host_matches_def str_or_def endswith_iff)

section \<open>Facts about the normal forms\<close>

lemma normalize_host_plain:
  assumes "v = lower (strip h)" and "v \<noteq> []" and "hd v \<noteq> CHR ''[''"
  shows "normalize_host (Some h) =
    falsy_none (rstrip_chars ''.''
      (if count_list v (CHR '':'') = 1 \<and> all_digits (after (CHR '':'') v)
       then before (CHR '':'') v else v))"
proof -
  have "h \<noteq> []" using assms(1,2) by (auto simp: strip_where_def rstrip_where_def)
  moreover have "\<not> startswith v ''[''" using assms(2,3) by (cases v) auto
  ultimately show ?thesis using assms(1,2) by (simp add: normalize_host_def Let_def)
qed

lemma count_list_zero [simp]: "c \<notin> set s \<Longrightarrow> count_list s c = 0"
  by (induction s) auto

lemma host_matches_sym: "host_matches a b = host_matches b a"
  by (auto simp: host_matches_def split: option.splits)

lemma host_matches_refl: "host_matches a a"
  by (auto simp: host_matches_def split: option.splits)

section \<open>Properties\<close>

definition host_name :: "string \<Rightarrow> bool" where
  "host_name n = (n \<noteq> [] \<and> list_all (\<lambda>c. is_lower_alnum c \<or> c \<in> set ''-.'') n \<and> last n \<noteq> CHR ''.'')"

lemma host_name_char:
  assumes "host_name n" and "c \<in> set n"
  shows "\<not> is_space c" "c \<noteq> CHR '':''" "c \<noteq> CHR ''[''" "c \<noteq> CHR '']''"
proof -
  have c: "is_lower_alnum c \<or> c = CHR ''-'' \<or> c = CHR ''.''"
    using assms by (auto simp: host_name_def list_all_iff)
  then show "\<not> is_space c" "c \<noteq> CHR '':''" "c \<noteq> CHR ''[''" "c \<noteq> CHR '']''"
    by (auto simp: is_lower_alnum_def is_space_def code_def Let_def)
qed

lemma lower_eq_char:
  assumes "lower h = n" and "c \<in> set h" and "\<forall>d\<in>set n. \<not> is_space d \<and> d \<noteq> CHR '':''"
  shows "\<not> is_space c \<and> c \<noteq> CHR '':''"
proof -
  have "lower_char c \<in> set n" using assms(1,2) by (auto simp: lower_def)
  moreover have "lower_char (CHR '':'') = CHR '':''" by code_simp
  ultimately show ?thesis using assms(3) is_space_lower by metis
qed

definition ascii_digits :: "string \<Rightarrow> bool" where
  "ascii_digits s = (s \<noteq> [] \<and> list_all (\<lambda>c. 48 \<le> code c \<and> code c \<le> 57) s)"

lemma ascii_digit_facts:
  assumes "48 \<le> code c \<and> code c \<le> 57"
  shows "\<not> is_space c" "lower_char c = c" "is_digit c" "c \<noteq> CHR '':''"
  using assms by (auto simp: is_space_def lower_char_def is_digit_def Let_def code_def)

lemma drop_port:
  assumes "CHR '':'' \<notin> set s" and "port = [] \<or> (\<exists>digits. port = CHR '':'' # digits \<and> ascii_digits digits)"
  shows "(if count_list (s @ port) (CHR '':'') = 1 \<and> all_digits (after (CHR '':'') (s @ port))
      then before (CHR '':'') (s @ port) else s @ port) = s"
  using assms(2)
proof
  assume "port = []"
  then show ?thesis using assms(1) by simp
next
  assume "\<exists>digits. port = CHR '':'' # digits \<and> ascii_digits digits"
  then obtain digits where d: "port = CHR '':'' # digits" "digits \<noteq> []"
      "\<And>c. c \<in> set digits \<Longrightarrow> 48 \<le> code c \<and> code c \<le> 57"
    by (auto simp: ascii_digits_def list_all_iff)
  have "CHR '':'' \<notin> set digits" using d(3) [of "CHR '':''"] by (auto simp: code_def)
  moreover have "all_digits digits"
    unfolding all_digits_def list_all_iff using d(2,3) ascii_digit_facts(3) by blast
  ultimately show ?thesis
    using d(1) assms(1) before_append [of _ s digits] after_append [of _ s digits] by simp
qed

text \<open>The recorded host decisions hold: for a host name in any capitalisation, with or without
  the root dot, with or without a decimal port, \<open>normalize_host\<close> yields the one lower-case name,
  so every such pair of spellings designates the same virtual host.\<close>

theorem normalize_host_variants:
  assumes "host_name n" and "lower h = n" and "dot = [] \<or> dot = ''.''"
    and "port = [] \<or> (\<exists>digits. port = CHR '':'' # digits \<and> ascii_digits digits)"
  shows "normalize_host (Some (h @ dot @ port)) = Some n"
proof -
  let ?s = "h @ dot @ port"
  have nchar: "\<forall>d\<in>set n. \<not> is_space d \<and> d \<noteq> CHR '':''"
  proof
    fix d assume "d \<in> set n"
    then show "\<not> is_space d \<and> d \<noteq> CHR '':''" using host_name_char(1,2) [OF assms(1)] by simp
  qed
  have hchar: "\<forall>c\<in>set h. \<not> is_space c \<and> c \<noteq> CHR '':''"
  proof
    fix c assume "c \<in> set h"
    from lower_eq_char [OF assms(2) this nchar] show "\<not> is_space c \<and> c \<noteq> CHR '':''" .
  qed
  have dchar: "\<forall>c\<in>set dot. \<not> is_space c \<and> c \<noteq> CHR '':'' \<and> lower_char c = c"
    using assms(3) by (auto simp: is_space_def lower_char_def code_def)
  have low_colon: "lower_char (CHR '':'') = CHR '':''" "\<not> is_space (CHR '':'')" by code_simp+
  have pchar: "\<forall>c\<in>set port. \<not> is_space c \<and> lower_char c = c"
    using assms(4)
  proof
    assume "\<exists>digits. port = CHR '':'' # digits \<and> ascii_digits digits"
    then obtain digits where d: "port = CHR '':'' # digits"
        "\<forall>c\<in>set digits. 48 \<le> code c \<and> code c \<le> 57"
      by (auto simp: ascii_digits_def list_all_iff)
    then have "\<forall>c\<in>set digits. \<not> is_space c \<and> lower_char c = c"
      using ascii_digit_facts(1,2) by blast
    then show ?thesis using low_colon by (simp add: d(1))
  qed simp
  have same: "lower dot = dot" "lower port = port"
    using dchar pchar by (simp_all add: lower_def map_idI)
  have strip: "strip ?s = ?s" using hchar dchar pchar by (intro strip_where_none) auto
  have v: "lower (strip ?s) = (n @ dot) @ port" using strip same assms(2) by simp
  have nn: "n \<noteq> []" "hd n \<noteq> CHR ''[''"
    using assms(1) host_name_char(3) [OF assms(1), of "hd n"] by (auto simp: host_name_def)
  have nd: "CHR '':'' \<notin> set (n @ dot)" using nchar dchar by auto
  have "last n \<noteq> CHR ''.''" using assms(1) by (simp add: host_name_def)
  then have "rstrip_chars ''.'' (n @ dot) = n"
    using assms(3) nn(1) by (cases n rule: rev_cases) (auto simp: rstrip_where_def)
  then show ?thesis
    using normalize_host_plain [of "(n @ dot) @ port" ?s] v nn drop_port [OF nd assms(4)] by simp
qed

theorem normalize_host_variants_witness:
  "normalize_host (Some ''Docs.Northlake-Fab.COM.:8443'') = Some ''docs.northlake-fab.com''"
proof -
  have "host_name ''docs.northlake-fab.com''"
    and "lower ''Docs.Northlake-Fab.COM'' = ''docs.northlake-fab.com''"
    and d: "ascii_digits ''8443''" by code_simp+
  then have "normalize_host (Some (''Docs.Northlake-Fab.COM'' @ ''.'' @ '':8443''))
      = Some ''docs.northlake-fab.com''"
    by (intro normalize_host_variants) auto
  then show ?thesis by simp
qed

text \<open>The resolver and the collector's registry relate the same hosts: for a hint registered
  under a plain host name (no port, bracket or leading dot) both sides normalise it to the same
  string, and for every observed name the resolver's relation and the registry's agree. (With a
  port they do not: \<open>hosts_not_in_step_with_port\<close>.)\<close>

theorem hosts_in_step:
  assumes "strip h = h" and "h \<noteq> []" and "hd h \<noteq> CHR ''.''" and "CHR '':'' \<notin> set h" and "CHR ''['' \<notin> set h"
    and "observed \<noteq> []"
  shows "normalise_host (Some h) = norm_host (Some h) \<and>
    hosts_match observed (normalise_host (Some h)) =
      registry_host_matches (Some (norm_host (Some h))) observed"
proof -
  have "dropWhile (\<lambda>c. c \<in> set ''.'') h = h" using assms(2,3) by (cases h) auto
  then have s: "strip_chars ''.'' (strip h) = rstrip_chars ''.'' h"
    unfolding strip_where_def [of "\<lambda>c. c \<in> set ''.''"] using assms(1) by metis
  let ?r = "lower (rstrip_chars ''.'' h)"
  have sub: "set (rstrip_chars ''.'' h) \<subseteq> set h" by (rule set_rstrip_where)
  have no: "CHR '':'' \<notin> set ?r" "CHR ''['' \<notin> set ?r"
    using sub assms(4,5) in_lowerD [of "CHR '':''" "rstrip_chars ''.'' h"]
      in_lowerD [of "CHR ''[''" "rstrip_chars ''.'' h"] by (auto simp: code_def)
  then have "\<not> startswith ?r ''[''" by (cases ?r) auto
  then have eq: "normalise_host (Some h) = norm_host (Some h)"
    using s no assms(1,2) by (simp add: normalise_host_def norm_host_def Let_def)
  have "hosts_match observed r = registry_host_matches (Some r) observed" for r
    using assms(6) by (auto simp: hosts_match_def registry_host_matches_def str_or_def)
  then show ?thesis using eq by simp
qed

theorem hosts_in_step_witness:
  "hosts_match ''_x.9f2c.oast.fun'' (normalise_host (Some ''9F2C.oast.fun.'')) \<and>
   registry_host_matches (Some (norm_host (Some ''9F2C.oast.fun.''))) ''_x.9f2c.oast.fun''"
proof -
  have "strip ''9F2C.oast.fun.'' = ''9F2C.oast.fun.''" by code_simp
  then have "normalise_host (Some ''9F2C.oast.fun.'') = norm_host (Some ''9F2C.oast.fun.'') \<and>
    hosts_match ''_x.9f2c.oast.fun'' (normalise_host (Some ''9F2C.oast.fun.'')) =
      registry_host_matches (Some (norm_host (Some ''9F2C.oast.fun.''))) ''_x.9f2c.oast.fun''"
    by (intro hosts_in_step) simp_all
  moreover have "hosts_match ''_x.9f2c.oast.fun'' (normalise_host (Some ''9F2C.oast.fun.''))"
    by code_simp
  ultimately show ?thesis by simp
qed

lemma hosts_not_in_step_with_port:
  "hosts_match ''cb.example'' (normalise_host (Some ''cb.example:8080'')) \<and>
   \<not> registry_host_matches (Some (norm_host (Some ''cb.example:8080''))) ''cb.example''"
  by code_simp

end
