(* ===== verification/Inventory.thy ===== *)
theory Inventory
  imports Catalog_Load Hosts
begin

text \<open>
  \<open>platform/benchctl/src/benchctl/inventory.py\<close>: route inventories, their loading from the
  parsed files of \<open>targets/*/routes.yaml\<close>, lookup of an observed request in them, and the
  cross-check with the catalog. A host that folds to nothing (\<open>[.]\<close>, say) is left out of
  \<open>inv_hosts\<close>; Python would sort a \<open>None\<close> among the names.
\<close>

section \<open>Rows and inventories\<close>

definition STATUS_SAFE :: string where "STATUS_SAFE = ''safe''"
definition STATUS_PLANTED :: string where "STATUS_PLANTED = ''planted''"

record route_entry =
  e_app :: string
  e_path :: string
  e_method :: string
  e_auth :: string
  e_render :: "string option"
  e_params :: "string list"
  e_status :: string
  e_notes :: "string option"
  e_host :: "string option"
  e_origin :: string
  e_expect :: "int option"

definition e_route_key :: "route_entry \<Rightarrow> string" where
  "e_route_key e = normalize_route (e_path e)"

definition e_key :: "route_entry \<Rightarrow> string \<times> string \<times> string \<times> string" where
  "e_key e = (e_app e, str_or (normalize_host (e_host e)) [], upper (e_method e), e_route_key e)"

definition route_only_key :: "route_entry \<Rightarrow> string \<times> string \<times> string" where
  "route_only_key e = (e_app e, upper (e_method e), e_route_key e)"

record inventory =
  iv_app :: string
  iv_routes :: "route_entry list"
  iv_source :: "string option"
  iv_canonical :: "string option"

definition by_key :: "inventory \<Rightarrow> (string \<times> string \<times> string \<times> string, route_entry) dict" where
  "by_key iv = foldl (\<lambda>d e. setdefault (e_key e) e d) [] (iv_routes iv)"

definition inv_hosts :: "inventory \<Rightarrow> string list" where
  "inv_hosts iv =
     sorted_set (List.map_filter
       (\<lambda>r. if truthy (e_host r) then normalize_host (e_host r) else None) (iv_routes iv))"

definition single_host :: "inventory \<Rightarrow> bool" where
  "single_host iv = (length (inv_hosts iv) \<le> 1)"

definition resolve_host :: "inventory \<Rightarrow> string option \<Rightarrow> string option" where
  "resolve_host iv host =
     (case normalize_host host of
        None \<Rightarrow> None
      | Some h \<Rightarrow> List.find (\<lambda>d. host_matches (Some d) (Some h)) (inv_hosts iv))"

definition planted :: "inventory \<Rightarrow> route_entry list" where
  "planted iv = filter (\<lambda>r. e_status r = STATUS_PLANTED) (iv_routes iv)"

definition safe_rows :: "inventory \<Rightarrow> route_entry list" where
  "safe_rows iv = filter (\<lambda>r. e_status r = STATUS_SAFE) (iv_routes iv)"

definition candidates :: "inventory \<Rightarrow> string option \<Rightarrow> string option \<Rightarrow> route_entry list" where
  "candidates iv verb host =
     (let resolved = resolve_host iv host in
      filter (\<lambda>e. (case verb of None \<Rightarrow> True | Some m \<Rightarrow> upper (e_method e) = upper m)
                  \<and> (resolved = None \<or> host_matches (e_host e) resolved)) (iv_routes iv))"

definition match_template :: "inventory \<Rightarrow> string \<Rightarrow> string \<Rightarrow> string option \<Rightarrow> route_entry option" where
  "match_template iv verb route host =
     List.find (\<lambda>e. routes_equal (e_path e) route) (candidates iv (Some verb) host)"

definition literal_score :: "route_entry \<Rightarrow> int" where
  "literal_score e = (if contains ''{'' (e_route_key e) then 0 else 1)"

definition best_step ::
  "string \<Rightarrow> route_entry option \<times> int \<Rightarrow> route_entry \<Rightarrow> route_entry option \<times> int" where
  "best_step path st e =
     (if \<not> route_matches_path (e_path e) path then st
      else if literal_score e > snd st then (Some e, literal_score e) else st)"

definition match_path ::
  "inventory \<Rightarrow> string option \<Rightarrow> string \<Rightarrow> string option \<Rightarrow> route_entry option" where
  "match_path iv verb path host =
     fst (foldl (best_step path) (None, -1) (candidates iv verb host))"

definition planted_hosts :: "inventory \<Rightarrow> string \<Rightarrow> string \<Rightarrow> string list" where
  "planted_hosts iv verb route =
     sorted_set (List.map_filter (\<lambda>e. normalize_host (e_host e))
       (filter (\<lambda>e. e_status e = STATUS_PLANTED \<and> upper (e_method e) = upper verb
          \<and> routes_equal (e_path e) route \<and> truthy (e_host e)) (iv_routes iv)))"

section \<open>Loading\<close>

record raw_row =
  rw_path :: "string option"
  rw_method :: "string option"
  rw_auth :: "string option"
  rw_render :: "string option"
  rw_params :: "string list"
  rw_status :: "string option"
  rw_note :: "string option"
  rw_notes :: "string option"
  rw_expect :: "int option"
  rw_host :: "string option"
  rw_hosts :: "string option list"

text \<open>A row that is not a mapping is \<open>None\<close>.\<close>

record raw_inventory =
  ri_app :: "string option"
  ri_host :: "string option"
  ri_canonical_host :: "string option"
  ri_default_host :: "string option"
  ri_base_url :: "string option"
  ri_routes :: "raw_row option list"
  ri_refused :: "raw_row option list"

datatype inventory_file = InvFailed | InvNotMapping | InvData raw_inventory

definition row_hosts :: "raw_row \<Rightarrow> string option \<Rightarrow> string option list" where
  "row_hosts d canonical =
     (if rw_hosts d \<noteq> [] then map normalize_host (rw_hosts d)
      else if truthy (rw_host d) then [normalize_host (rw_host d)]
      else [normalize_host canonical])"

definition entries_from_dict ::
  "string \<Rightarrow> raw_row \<Rightarrow> string option \<Rightarrow> string \<Rightarrow> route_entry list" where
  "entries_from_dict app d canonical origin =
     map (\<lambda>h. \<lparr>e_app = app, e_path = get_or (rw_path d) ''/'',
               e_method = upper (get_or (rw_method d) ''GET''), e_auth = get_or (rw_auth d) ''none'',
               e_render = rw_render d, e_params = rw_params d,
               e_status = get_or (rw_status d) STATUS_SAFE, e_notes = or_str (rw_note d) (rw_notes d),
               e_host = h, e_origin = origin, e_expect = rw_expect d\<rparr>)
       (row_hosts d canonical)"

definition canonical_host :: "raw_inventory \<Rightarrow> string option" where
  "canonical_host data =
     (case List.find truthy [ri_host data, ri_canonical_host data, ri_default_host data] of
        Some h \<Rightarrow> normalize_host h
      | None \<Rightarrow>
          if truthy (ri_base_url data) then
            let url = the (ri_base_url data);
                authority = (case split_once ''://'' url of None \<Rightarrow> url | Some (_, r) \<Rightarrow> r)
            in normalize_host (Some (before (CHR ''/'') authority))
          else None)"

text \<open>The loop over \<open>refused_equivalents\<close>: a hardened path joins as a safe row unless its key is
  already declared.\<close>

definition add_refused ::
  "route_entry list \<times> (string \<times> string \<times> string \<times> string) list \<Rightarrow> route_entry \<Rightarrow>
   route_entry list \<times> (string \<times> string \<times> string \<times> string) list" where
  "add_refused st e =
     (if e_key e \<in> set (snd st) then st else (fst st @ [e], snd st @ [e_key e]))"

definition declared_rows :: "string \<Rightarrow> string option \<Rightarrow> raw_inventory \<Rightarrow> route_entry list" where
  "declared_rows app canonical data =
     concat (map (\<lambda>row. case row of None \<Rightarrow> []
       | Some d \<Rightarrow> entries_from_dict app d canonical ''routes'') (ri_routes data))"

definition refused_rows :: "string \<Rightarrow> string option \<Rightarrow> raw_inventory \<Rightarrow> route_entry list" where
  "refused_rows app canonical data =
     concat (map (\<lambda>row. case row of None \<Rightarrow> []
       | Some d \<Rightarrow> entries_from_dict app (d\<lparr>rw_status := Some STATUS_SAFE\<rparr>) canonical
                    ''refused_equivalents'') (ri_refused data))"

definition inventory_entries :: "string \<Rightarrow> string option \<Rightarrow> raw_inventory \<Rightarrow> route_entry list" where
  "inventory_entries app canonical data =
     (let entries = declared_rows app canonical data
      in fst (foldl add_refused (entries, map e_key entries) (refused_rows app canonical data)))"

definition source_issue :: "level \<Rightarrow> string \<Rightarrow> string option \<Rightarrow> issue" where
  "source_issue lv cd source = \<lparr>i_level = lv, i_code = cd, i_vuln = None, i_source = source\<rparr>"

definition status_issues :: "route_entry list \<Rightarrow> string \<Rightarrow> issue list" where
  "status_issues entries source =
     map (\<lambda>_. source_issue Error ''inventory-bad-status'' (Some source))
       (filter (\<lambda>e. e_status e \<notin> {STATUS_SAFE, STATUS_PLANTED}) entries)"

definition ambiguous :: "route_entry list \<Rightarrow> bool" where
  "ambiguous rows =
     (let hosts = map (\<lambda>r. normalize_host (e_host r)) rows in
      2 \<le> length rows \<and> \<not> (distinct hosts \<and> None \<notin> set hosts))"

definition ambiguous_issues :: "route_entry list \<Rightarrow> string \<Rightarrow> issue list" where
  "ambiguous_issues entries source =
     concat (map (\<lambda>(_, rows).
        if ambiguous rows then [source_issue Warning ''inventory-ambiguous-route'' (Some source)] else [])
       (sort_key fst (bucket_all (\<lambda>e. (upper (e_method e), e_route_key e)) entries)))"

definition load_inventory ::
  "(string, inventory) dict \<times> issue list \<Rightarrow> string \<times> string \<times> inventory_file \<Rightarrow>
   (string, inventory) dict \<times> issue list" where
  "load_inventory st entry =
     (case entry of (source, dir_app, content) \<Rightarrow>
      case content of
        InvFailed \<Rightarrow> (fst st, snd st @ [source_issue Error ''inventory-parse'' (Some source)])
      | InvNotMapping \<Rightarrow> (fst st, snd st @ [source_issue Error ''inventory-shape'' (Some source)])
      | InvData data \<Rightarrow>
          (let app = str_or (ri_app data) dir_app;
               mismatch = (if truthy (ri_app data) \<and> the (ri_app data) \<noteq> dir_app
                 then [source_issue Error ''inventory-app-mismatch'' (Some source)] else []);
               canonical = canonical_host data;
               entries = inventory_entries app canonical data;
               issues = snd st @ mismatch @ status_issues entries source @ ambiguous_issues entries source
           in if dict_get (fst st) app \<noteq> None
              then (fst st, issues @ [source_issue Error ''inventory-duplicate-app'' (Some source)])
              else (dict_set app
                      \<lparr>iv_app = app, iv_routes = entries, iv_source = Some source, iv_canonical = canonical\<rparr>
                      (fst st), issues)))"

definition load_inventories ::
  "(string \<times> string \<times> inventory_file) list \<Rightarrow> (string, inventory) dict \<times> issue list" where
  "load_inventories files = foldl load_inventory ([], []) files"

section \<open>Cross-check and summary\<close>

definition entrypoint_issue :: "inventory \<Rightarrow> vuln \<Rightarrow> issue list" where
  "entrypoint_issue iv v =
     (case match_template iv (ep_method (v_entrypoint v)) (ep_path (v_entrypoint v)) None of
        None \<Rightarrow> [\<lparr>i_level = Error, i_code = ''inventory-missing-entrypoint'', i_vuln = Some (v_id v),
                  i_source = v_source v\<rparr>]
      | Some e \<Rightarrow>
          if e_status e \<noteq> STATUS_PLANTED
          then [\<lparr>i_level = Error, i_code = ''inventory-status-mismatch'', i_vuln = Some (v_id v),
                 i_source = v_source v\<rparr>]
          else [])"

definition catalogued :: "catalog \<Rightarrow> string \<Rightarrow> route_entry \<Rightarrow> bool" where
  "catalogued c app e =
     (\<exists>v\<in>set (c_vulns c). v_app v = app \<and> upper (ep_method (v_entrypoint v)) = upper (e_method e)
        \<and> routes_equal (v_route_key v) (e_route_key e))"

definition crosscheck_inventory :: "catalog \<Rightarrow> (string, inventory) dict \<Rightarrow> issue list" where
  "crosscheck_inventory c invs =
     (if invs = [] then []
      else
        concat (map (\<lambda>app.
          case dict_get invs app of
            None \<Rightarrow> [source_issue Warning ''inventory-missing'' None]
          | Some iv \<Rightarrow> concat (map (entrypoint_issue iv) (for_app c app))) (catalog_apps c)) @
        concat (map (\<lambda>(app, iv).
          concat (map (\<lambda>e. if catalogued c app e then []
             else [source_issue Error ''inventory-planted-uncatalogued'' (iv_source iv)]) (planted iv)))
          (sort_key fst invs)))"

definition tally :: "string list \<Rightarrow> (string, nat) dict" where
  "tally xs = sort_key fst (map (\<lambda>(k, vs). (k, length vs)) (bucket_all (\<lambda>x. x) xs))"

record coverage_summary =
  cv_apps :: "string list"
  cv_routes :: nat
  cv_planted :: nat
  cv_safe :: int
  cv_ratio :: "rat option"
  cv_by_app :: "(string, nat) dict"
  cv_by_render :: "(string, nat) dict"
  cv_by_auth :: "(string, nat) dict"

definition py_str :: "string option \<Rightarrow> string" where
  "py_str x = (case x of None \<Rightarrow> ''None'' | Some s \<Rightarrow> s)"

definition coverage_summary :: "(string, inventory) dict \<Rightarrow> string list \<Rightarrow> coverage_summary" where
  "coverage_summary invs apps =
     (let selected = filter (\<lambda>(app, _). apps = [] \<or> app \<in> set apps) invs;
          routes = concat (map (\<lambda>(_, iv). iv_routes iv) selected);
          n = length (filter (\<lambda>r. e_status r = STATUS_PLANTED) routes);
          s = int (length routes) - int n
      in \<lparr>cv_apps = sort (map fst selected), cv_routes = length routes, cv_planted = n, cv_safe = s,
          cv_ratio = (if n \<noteq> 0 then Some (of_int s / of_nat n) else None),
          cv_by_app = tally (map e_app routes),
          cv_by_render = tally (map (\<lambda>r. py_str (e_render r)) routes),
          cv_by_auth = tally (map e_auth routes)\<rparr>)"

section \<open>Looking an observation up\<close>

lemma candidates_iff:
  "e \<in> set (candidates iv verb host) \<longleftrightarrow>
     e \<in> set (iv_routes iv) \<and> (case verb of None \<Rightarrow> True | Some m \<Rightarrow> upper (e_method e) = upper m)
     \<and> (resolve_host iv host = None \<or> host_matches (e_host e) (resolve_host iv host))"
  by (simp add: candidates_def Let_def)

definition best_ok :: "string \<Rightarrow> route_entry list \<Rightarrow> route_entry option \<times> int \<Rightarrow> bool" where
  "best_ok path seen st \<longleftrightarrow>
     (case fst st of
        None \<Rightarrow> snd st = -1 \<and> (\<forall>e\<in>set seen. \<not> route_matches_path (e_path e) path)
      | Some b \<Rightarrow> snd st = literal_score b \<and> b \<in> set seen \<and> route_matches_path (e_path b) path
          \<and> (\<forall>e\<in>set seen. route_matches_path (e_path e) path \<longrightarrow> literal_score e \<le> literal_score b))"

lemma literal_score_nonneg: "-1 < literal_score e"
  by (simp add: literal_score_def)

lemma best_step_ok:
  assumes "best_ok path seen st" shows "best_ok path (seen @ [e]) (best_step path st e)"
proof (cases "route_matches_path (e_path e) path")
  case False
  then show ?thesis using assms by (auto simp: best_ok_def best_step_def split: option.splits)
next
  case True
  show ?thesis
  proof (cases "fst st")
    case None
    then show ?thesis using assms True literal_score_nonneg [of e] by (auto simp: best_ok_def best_step_def)
  next
    case (Some b)
    then show ?thesis using assms True by (auto simp: best_ok_def best_step_def)
  qed
qed

lemma match_path_best:
  "best_ok path (candidates iv verb host)
     (foldl (best_step path) (None, -1) (candidates iv verb host))"
proof -
  have "best_ok path xs (foldl (best_step path) (None, -1) xs)" for xs
    by (induction xs rule: rev_induct) (simp_all add: best_ok_def [of _ "[]"] best_step_ok)
  then show ?thesis .
qed

text \<open>C10: \<open>match_path\<close> finds nothing exactly when no candidate row matches; the row it finds is a
  candidate that matches, and it is a literal row whenever some matching candidate is literal.\<close>

theorem match_path_spec:
  "(case match_path iv verb path host of
      None \<Rightarrow> filter (\<lambda>e. route_matches_path (e_path e) path) (candidates iv verb host) = []
    | Some b \<Rightarrow> b \<in> set (candidates iv verb host) \<and> route_matches_path (e_path b) path
        \<and> literal_score b = Max (literal_score `
             {e \<in> set (candidates iv verb host). route_matches_path (e_path e) path}))"
proof (cases "match_path iv verb path host")
  case None
  then show ?thesis using match_path_best [of path iv verb host]
    by (simp add: match_path_def best_ok_def filter_empty_conv)
next
  case (Some b)
  then have b: "b \<in> set (candidates iv verb host)" "route_matches_path (e_path b) path"
    "\<forall>e\<in>set (candidates iv verb host). route_matches_path (e_path e) path \<longrightarrow> literal_score e \<le> literal_score b"
    using match_path_best [of path iv verb host] by (simp_all add: match_path_def best_ok_def)
  then have "Max (literal_score ` {e \<in> set (candidates iv verb host). route_matches_path (e_path e) path})
      = literal_score b"
    by (intro Max_eqI) auto
  then show ?thesis using Some b by simp
qed

text \<open>The vhost rule: a host that the inventory declares keeps rows of other vhosts out.\<close>

lemma match_path_host:
  assumes "match_path iv verb path host = Some e" and "resolve_host iv host = Some d"
  shows "host_matches (e_host e) (Some d) \<and> e \<in> set (iv_routes iv)"
  using match_path_best [of path iv verb host] assms
  by (auto simp: match_path_def best_ok_def candidates_iff)

lemma match_template_SomeD:
  assumes "match_template iv verb route host = Some e"
  shows "e \<in> set (candidates iv (Some verb) host) \<and> routes_equal (e_path e) route"
  using assms by (auto simp: match_template_def find_Some_iff)

section \<open>What loading guarantees\<close>

lemma add_refused_fold:
  assumes "set ks = e_key ` set es"
  shows "\<exists>new. fst (foldl add_refused (es, ks) rs) = es @ new \<and> set new \<subseteq> set rs
    \<and> e_key ` set new \<inter> e_key ` set es = {} \<and> distinct (map e_key new)
    \<and> e_key ` set (es @ new) = e_key ` set es \<union> e_key ` set rs"
  using assms
proof (induction rs arbitrary: es ks)
  case (Cons r rs)
  show ?case
  proof (cases "e_key r \<in> set ks")
    case True
    then have "foldl add_refused (es, ks) (r # rs) = foldl add_refused (es, ks) rs"
      by (simp add: add_refused_def)
    moreover have "e_key ` set es \<union> e_key ` set (r # rs) = e_key ` set es \<union> e_key ` set rs"
      using True Cons.prems by auto
    ultimately show ?thesis using Cons.IH [OF Cons.prems] set_subset_Cons [of rs r]
      by (metis (no_types, lifting) order_trans)
  next
    case False
    have step: "foldl add_refused (es, ks) (r # rs) = foldl add_refused (es @ [r], ks @ [e_key r]) rs"
      using False by (simp add: add_refused_def)
    have "set (ks @ [e_key r]) = e_key ` set (es @ [r])" using Cons.prems by simp
    from Cons.IH [OF this] obtain new where new:
      "fst (foldl add_refused (es @ [r], ks @ [e_key r]) rs) = (es @ [r]) @ new" "set new \<subseteq> set rs"
      "e_key ` set new \<inter> e_key ` set (es @ [r]) = {}" "distinct (map e_key new)"
      "e_key ` set ((es @ [r]) @ new) = e_key ` set (es @ [r]) \<union> e_key ` set rs" by (elim exE conjE) (rule that)
    have "e_key r \<notin> e_key ` set es" using False Cons.prems by simp
    then show ?thesis using new unfolding step by (intro exI [of _ "r # new"]) auto
  qed
qed auto

lemma entries_from_dict_safe:
  "e \<in> set (entries_from_dict app (d\<lparr>rw_status := Some STATUS_SAFE\<rparr>) canonical origin) \<Longrightarrow>
     e_status e = STATUS_SAFE \<and> e_origin e = origin \<and> e_app e = app"
  by (auto simp: entries_from_dict_def get_or_def)

lemma refused_rows_safe: "e \<in> set (refused_rows app canonical data) \<Longrightarrow> e_status e = STATUS_SAFE"
  by (auto simp: refused_rows_def split: option.splits dest: entries_from_dict_safe)

text \<open>Reading \<open>refused_equivalents\<close> keeps every row of \<open>routes\<close>, in order and first; the rows it
  adds are all safe, share no key with a declared row nor with each other, and no key that the
  section names is lost.\<close>

theorem refused_rows_yield:
  "\<exists>new. inventory_entries app canonical data = declared_rows app canonical data @ new
     \<and> e_status ` set new \<subseteq> {STATUS_SAFE}
     \<and> e_key ` set new \<inter> e_key ` set (declared_rows app canonical data) = {}
     \<and> distinct (map e_key new)
     \<and> e_key ` set (refused_rows app canonical data)
         \<subseteq> e_key ` set (inventory_entries app canonical data)"
proof -
  let ?d = "declared_rows app canonical data" and ?r = "refused_rows app canonical data"
  obtain new where new: "fst (foldl add_refused (?d, map e_key ?d) ?r) = ?d @ new" "set new \<subseteq> set ?r"
    "e_key ` set new \<inter> e_key ` set ?d = {}" "distinct (map e_key new)"
    "e_key ` set (?d @ new) = e_key ` set ?d \<union> e_key ` set ?r"
    using add_refused_fold [of "map e_key ?d" ?d ?r] by auto
  have "e_status ` set new \<subseteq> {STATUS_SAFE}" using new(2) refused_rows_safe by blast
  moreover have eq: "inventory_entries app canonical data = ?d @ new"
    using new(1) by (simp add: inventory_entries_def Let_def)
  ultimately show ?thesis using new(3,4,5) by (intro exI [of _ new]) (simp only: eq, blast)
qed

section \<open>Catalog and inventories agree\<close>

lemma clean_concat: "clean (concat (map f xs)) \<longleftrightarrow> (\<forall>x\<in>set xs. clean (f x))"
  by (induction xs) auto

lemma clean_source_issue [simp]: "i_level (source_issue lv cd s) = lv"
  by (simp add: source_issue_def)

lemma clean_if: "clean (if b then xs else ys) \<longleftrightarrow> (if b then clean xs else clean ys)"
  by simp

lemma crosscheck_errors:
  "clean (crosscheck_inventory c invs) \<longleftrightarrow>
     (invs = [] \<or>
      (\<forall>v\<in>set (c_vulns c). \<forall>iv. dict_get invs (v_app v) = Some iv \<longrightarrow> clean (entrypoint_issue iv v))
      \<and> (\<forall>(app, iv)\<in>set invs. \<forall>e\<in>set (planted iv). catalogued c app e))"
proof -
  have per_app: "clean (case dict_get invs app of
        None \<Rightarrow> [source_issue Warning ''inventory-missing'' None]
      | Some iv \<Rightarrow> concat (map (entrypoint_issue iv) (for_app c app))) \<longleftrightarrow>
      (\<forall>v\<in>set (c_vulns c). v_app v = app \<longrightarrow>
         (\<forall>iv. dict_get invs app = Some iv \<longrightarrow> clean (entrypoint_issue iv v)))" for app
    by (cases "dict_get invs app") (auto simp: clean_concat for_app_def)
  have all: "(\<forall>x\<in>set (catalog_apps c). \<forall>v\<in>set (c_vulns c). v_app v = x \<longrightarrow> Q x v) \<longleftrightarrow>
      (\<forall>v\<in>set (c_vulns c). Q (v_app v) v)" for Q
    by (auto simp: catalog_apps_def)
  have row: "clean (case x of (app, iv) \<Rightarrow>
        concat (map (\<lambda>e. if catalogued c app e then []
           else [source_issue Error ''inventory-planted-uncatalogued'' (iv_source iv)]) (planted iv)))
      \<longleftrightarrow> (case x of (app, iv) \<Rightarrow> \<forall>e\<in>set (planted iv). catalogued c app e)" for x
    by (cases x) (simp add: clean_concat)
  show ?thesis
    by (cases "invs = []")
       (simp_all add: crosscheck_inventory_def clean_concat per_app all row)
qed

lemma clean_entrypoint:
  "clean (entrypoint_issue iv v) \<longleftrightarrow>
     (\<exists>e. match_template iv (ep_method (v_entrypoint v)) (ep_path (v_entrypoint v)) None = Some e
        \<and> e_status e = STATUS_PLANTED)"
  by (simp add: entrypoint_issue_def split: option.split)

text \<open>The cross-check reports no error exactly when every catalogued entrypoint of an app with
  an inventory resolves to a row marked planted, and every row marked planted is catalogued.\<close>

theorem crosscheck_agrees:
  "filter (\<lambda>i. i_level i = Error) (crosscheck_inventory c invs) = [] \<longleftrightarrow>
     (\<forall>v\<in>set (c_vulns c). \<forall>iv. dict_get invs (v_app v) = Some iv \<longrightarrow>
        (\<exists>e. match_template iv (ep_method (v_entrypoint v)) (ep_path (v_entrypoint v)) None = Some e
           \<and> e_status e = STATUS_PLANTED))
     \<and> (\<forall>(app, iv)\<in>set invs. \<forall>e\<in>set (planted iv). catalogued c app e)"
proof -
  have "filter (\<lambda>i. i_level i = Error) xs = [] \<longleftrightarrow> clean xs" for xs
    by (auto simp: clean_def filter_empty_conv)
  then show ?thesis by (simp only: crosscheck_errors clean_entrypoint) (auto)
qed

text \<open>A catalog of one entry and the inventory that declares its route.\<close>

definition plain_inventory :: inventory where
  "plain_inventory =
     \<lparr>iv_app = ''shop'',
      iv_routes =
        [\<lparr>e_app = ''shop'', e_path = ''/items/:id'', e_method = ''get'', e_auth = ''none'', e_render = None,
          e_params = [], e_status = STATUS_PLANTED, e_notes = None, e_host = None, e_origin = ''declared'',
          e_expect = None\<rparr>],
      iv_source = None, iv_canonical = None\<rparr>"

lemma crosscheck_agrees_witness:
  "filter (\<lambda>i. i_level i = Error)
     (crosscheck_inventory (plain_catalog [plain_vuln ''A'' []]) [(''shop'', plain_inventory)]) = []
   \<and> (\<exists>e. match_template plain_inventory ''GET'' ''/items/{id}'' None = Some e \<and> e_status e = STATUS_PLANTED)"
proof
  show clean: "filter (\<lambda>i. i_level i = Error)
     (crosscheck_inventory (plain_catalog [plain_vuln ''A'' []]) [(''shop'', plain_inventory)]) = []"
    by code_simp
  from clean [unfolded crosscheck_agrees, THEN conjunct1]
  show "\<exists>e. match_template plain_inventory ''GET'' ''/items/{id}'' None = Some e \<and> e_status e = STATUS_PLANTED"
    by (simp add: plain_catalog_def plain_vuln_def dict_get_def)
qed

end
