(* ===== verification/Json.thy ===== *)
theory Json
  imports Prelude Py_Text
begin

text \<open>
  Decoded JSON documents as the platform's readers see them (Python's \<open>dict.get\<close>, truth
  values, \<open>str\<close> and iteration over them), and the coercions of \<open>benchctl/events.py\<close> and
  \<open>report\<close>-side helpers built on these: \<open>_as_str\<close>, \<open>_as_text\<close>, \<open>_as_bool\<close>.

  A float carries the text Python prints for it. The text of a list or an object in a place
  where a scalar belongs is not modelled (\<open>jstr\<close> gives the empty text there).
\<close>

datatype json =
    JNull
  | JBool bool
  | JInt int
  | JFloat rat string
  | JStr string
  | JList "json list"
  | JObj "(string \<times> json) list"

type_synonym obj = "(string, json) dict"

definition jget :: "obj \<Rightarrow> string \<Rightarrow> json" where
  "jget d k = (case dict_get d k of None \<Rightarrow> JNull | Some v \<Rightarrow> v)"

fun jtruthy :: "json \<Rightarrow> bool" where
  "jtruthy JNull = False"
| "jtruthy (JBool b) = b"
| "jtruthy (JInt n) = (n \<noteq> 0)"
| "jtruthy (JFloat r s) = (r \<noteq> 0)"
| "jtruthy (JStr s) = (s \<noteq> [])"
| "jtruthy (JList xs) = (xs \<noteq> [])"
| "jtruthy (JObj d) = (d \<noteq> [])"

definition jor :: "json \<Rightarrow> json \<Rightarrow> json" where
  "jor a b = (if jtruthy a then a else b)"

definition int_text :: "int \<Rightarrow> string" where
  "int_text n = (if n < 0 then CHR ''-'' # dec_digits (nat (- n)) else dec_digits (nat n))"

definition is_dec :: "char \<Rightarrow> bool" where
  "is_dec c = (48 \<le> code c \<and> code c \<le> 57)"

definition dec_num :: "string \<Rightarrow> int" where
  "dec_num s = foldl (\<lambda>n c. 10 * n + int (code c - 48)) 0 s"

text \<open>\<open>int(text)\<close>: white space around, a sign, digits with single underscores between them.
  (Beyond 4300 digits Python refuses, which is left to the users.)\<close>

definition int_of_text :: "string \<Rightarrow> int option" where
  "int_of_text s =
     (let t = strip s;
          neg = startswith t ''-'';
          ps = split_char (CHR ''_'') (if neg \<or> startswith t ''+'' then tl t else t)
      in if list_all (\<lambda>p. p \<noteq> [] \<and> list_all is_dec p) ps
         then Some (if neg then - dec_num (concat ps) else dec_num (concat ps)) else None)"

lemma dec_num_snoc: "dec_num (s @ [c]) = 10 * dec_num s + int (code c - 48)"
  by (simp add: dec_num_def)

lemma dec_digits_facts:
  "list_all is_dec (dec_digits n) \<and> dec_digits n \<noteq> [] \<and> dec_num (dec_digits n) = int n"
proof (induction n rule: dec_digits.induct)
  case (1 n)
  show ?case
  proof (cases "n < 10")
    case True
    then show ?thesis
      by (subst (1 2 3) dec_digits.simps) (auto simp: is_dec_def dec_num_def)
  next
    case False
    have "n mod 10 \<le> 9" and "10 * int (n div 10) + int (n mod 10) = int n" by presburger+
    then show ?thesis
      using 1 False
      by (subst (1 2 3) dec_digits.simps) (simp add: dec_num_snoc is_dec_def [of "char_of _"])
  qed
qed

lemma dec_digits_dec [simp]: "list_all is_dec (dec_digits n)" "dec_digits n \<noteq> []" "dec_num (dec_digits n) = int n"
  using dec_digits_facts [of n] by auto

fun jstr :: "json \<Rightarrow> string" where
  "jstr JNull = ''None''"
| "jstr (JBool b) = (if b then ''True'' else ''False'')"
| "jstr (JInt n) = int_text n"
| "jstr (JFloat r s) = s"
| "jstr (JStr s) = s"
| "jstr (JList xs) = []"
| "jstr (JObj d) = []"

definition is_obj :: "json \<Rightarrow> bool" where
  "is_obj j = (case j of JObj d \<Rightarrow> True | _ \<Rightarrow> False)"

definition obj_of :: "json \<Rightarrow> obj" where
  "obj_of j = (case j of JObj d \<Rightarrow> d | _ \<Rightarrow> [])"

text \<open>\<open>for x in v\<close>: the items of a list, the keys of an object, the characters of a string.\<close>

definition jiter :: "json \<Rightarrow> json list" where
  "jiter j = (case j of JList xs \<Rightarrow> xs | JObj d \<Rightarrow> map (JStr \<circ> fst) d
              | JStr s \<Rightarrow> map (\<lambda>c. JStr [c]) s | _ \<Rightarrow> [])"

definition objects :: "json \<Rightarrow> obj list" where
  "objects j = List.map_filter (\<lambda>x. case x of JObj d \<Rightarrow> Some d | _ \<Rightarrow> None) (jiter j)"

text \<open>Fields the wire schema types as a string, an integer or a number.\<close>

definition str_field :: "obj \<Rightarrow> string \<Rightarrow> string option" where
  "str_field d k = (case jget d k of JStr s \<Rightarrow> Some s | _ \<Rightarrow> None)"

definition int_field :: "obj \<Rightarrow> string \<Rightarrow> int option" where
  "int_field d k = (case jget d k of JInt n \<Rightarrow> Some n | _ \<Rightarrow> None)"

definition num_field :: "obj \<Rightarrow> string \<Rightarrow> rat option" where
  "num_field d k = (case jget d k of JInt n \<Rightarrow> Some (of_int n) | JFloat r s \<Rightarrow> Some r | _ \<Rightarrow> None)"

section \<open>Coercions\<close>

definition as_str :: "json \<Rightarrow> string option" where
  "as_str v = (if v = JNull \<or> v = JStr [] then None else Some (jstr v))"

definition scalar_text :: "json \<Rightarrow> string option" where
  "scalar_text v = falsy_none (strip (jstr v))"

fun as_text_obj :: "obj \<Rightarrow> string list \<Rightarrow> string option" where
  "as_text_obj d [] = None"
| "as_text_obj d (k # ks) =
     (let v = jget d k in if v \<noteq> JNull \<and> v \<noteq> JStr [] then Some (jstr v) else as_text_obj d ks)"

fun as_text :: "json \<Rightarrow> string list \<Rightarrow> string option" where
  "as_text JNull ks = None"
| "as_text (JObj d) ks = as_text_obj d (ks @ [''value'', ''name'', ''id''])"
| "as_text (JList []) ks = None"
| "as_text (JList (x # xs)) ks = as_text x ks"
| "as_text (JBool b) ks = scalar_text (JBool b)"
| "as_text (JInt n) ks = scalar_text (JInt n)"
| "as_text (JFloat r s) ks = scalar_text (JFloat r s)"
| "as_text (JStr s) ks = scalar_text (JStr s)"

definition as_bool :: "json \<Rightarrow> bool" where
  "as_bool v = (case v of JStr s \<Rightarrow> lower (strip s) \<in> {''1'', ''true'', ''yes''} | _ \<Rightarrow> jtruthy v)"

end
