(* ===== verification/Events.thy ===== *)
theory Events
  imports Json
begin

text \<open>
  \<open>platform/benchctl/src/benchctl/events.py\<close>: typed events read from the wire, the stream of a
  run, and the run record with its container map. The class hierarchy under \<open>Event\<close> is a
  record of the common fields and a datatype of the specific ones.
\<close>

section \<open>Events\<close>

record param =
  p_name :: string
  p_location :: string
  p_sha256 :: "string option"
  p_len :: "int option"
  p_sample :: "string option"

record http_event =
  h_method :: string
  h_route :: string
  h_host :: "string option"
  h_path :: "string option"
  h_status :: "int option"
  h_auth_subject :: "string option"
  h_params :: "param list"

record trigger_event =
  t_vuln_id :: string
  t_signal :: "string option"
  t_evidence :: obj

record oob_event =
  ob_token :: string
  ob_signal :: "string option"
  ob_vuln_id :: "string option"
  ob_channel :: "string option"
  ob_source_ip :: "string option"
  ob_attribution :: "string option"
  ob_attributed_app :: "string option"
  ob_confidence :: "string option"
  ob_source_match :: "bool option"
  ob_low_confidence :: bool
  ob_destination_host :: "string option"
  ob_request_id :: "string option"
  ob_container :: "string option"
  ob_route :: "string option"
  ob_method :: "string option"

datatype event_kind =
    HttpRequest http_event
  | Trigger trigger_event
  | Oob oob_event
  | Plain

record event =
  ev_type :: string
  ev_app :: "string option"
  ev_ts :: "rat option"
  ev_synthetic :: bool
  ev_seq :: "int option"
  ev_raw :: obj
  ev_kind :: event_kind

type_synonym stream = "event list"

definition requests :: "stream \<Rightarrow> (event \<times> http_event) list" where
  "requests s = List.map_filter (\<lambda>e. case ev_kind e of HttpRequest h \<Rightarrow> Some (e, h) | _ \<Rightarrow> None) s"

definition triggers :: "stream \<Rightarrow> (event \<times> trigger_event) list" where
  "triggers s = List.map_filter (\<lambda>e. case ev_kind e of Trigger t \<Rightarrow> Some (e, t) | _ \<Rightarrow> None) s"

definition oobs :: "stream \<Rightarrow> (event \<times> oob_event) list" where
  "oobs s = List.map_filter (\<lambda>e. case ev_kind e of Oob ob \<Rightarrow> Some (e, ob) | _ \<Rightarrow> None) s"

definition scored :: "stream \<Rightarrow> stream" where
  "scored s = filter (\<lambda>e. \<not> ev_synthetic e) s"

definition counts :: "stream \<Rightarrow> (string, nat) dict" where
  "counts s =
     (let by_type = map (\<lambda>(k, es). (k, length es)) (bucket_all ev_type s) in
      sort_key fst (dict_set ''total'' (length s)
        (dict_set ''synthetic'' (length (filter ev_synthetic s)) by_type)))"

section \<open>Reading the wire\<close>

definition SIGNAL_EVENT_TYPES :: "string list" where
  "SIGNAL_EVENT_TYPES = [''signal'', ''trigger'']"

definition param_from_dict :: "obj \<Rightarrow> param" where
  "param_from_dict d =
     \<lparr>p_name = str_or (as_text (jget d ''name'') []) [],
      p_location = str_or (as_text (jget d ''in'') []) ''query'',
      p_sha256 = as_text (jget d ''value_sha256'') [],
      p_len = int_field d ''value_len'',
      p_sample = str_field d ''sample''\<rparr>"

definition http_from_dict :: "obj \<Rightarrow> http_event" where
  "http_from_dict d =
     \<lparr>h_method = upper (case dict_get d ''method'' of None \<Rightarrow> ''GET'' | Some m \<Rightarrow> jstr m),
      h_route = str_or (or_str (as_text (jget d ''route'') [''template'']) (as_text (jget d ''path'') [])) ''/'',
      h_host = as_text (jor (jget d ''host'') (jget d ''vhost'')) [''host'', ''name''],
      h_path = as_text (jget d ''path'') [],
      h_status = int_field d ''status'',
      h_auth_subject = str_field d ''auth_subject'',
      h_params = map param_from_dict (objects (jget d ''params''))\<rparr>"

definition trigger_from_dict :: "obj \<Rightarrow> trigger_event" where
  "trigger_from_dict d =
     \<lparr>t_vuln_id = str_or (as_text (jget d ''vuln_id'') []) [],
      t_signal = as_text (jget d ''signal'') [''name''],
      t_evidence = obj_of (jor (jget d ''attributes'') (jget d ''evidence''))\<rparr>"

definition oob_from_dict :: "obj \<Rightarrow> oob_event" where
  "oob_from_dict d =
     (let attribution = jor (jget d ''attribution'') (jget d ''attribution_kind'') in
      \<lparr>ob_token = str_or (as_text (jget d ''token'') []) [],
       ob_signal = as_text (jget d ''signal'') [],
       ob_vuln_id = as_text (jget d ''vuln_id'') [],
       ob_channel = as_text (jget d ''channel'') [],
       ob_source_ip = as_text (jget d ''source_ip'') [''address'', ''ip''],
       ob_attribution = as_text attribution [''mode'', ''kind''],
       ob_attributed_app = (if is_obj attribution then as_text (jget (obj_of attribution) ''app'') [] else None),
       ob_confidence = as_text (jget d ''confidence'') [''level''],
       ob_source_match = (if jget d ''source_match'' = JNull then None
                          else Some (as_bool (jget d ''source_match''))),
       ob_low_confidence = as_bool (jget d ''low_confidence''),
       ob_destination_host = as_text (jor (jget d ''destination_host'') (jget d ''host'')) [''host''],
       ob_request_id = as_text (jget d ''request_id'') [],
       ob_container = as_text (jget d ''container'') [''container_id''],
       ob_route = as_text (jget d ''route'') [''path''],
       ob_method = falsy_none (upper (str_or (as_text (jget d ''method'') []) []))\<rparr>)"

definition event_from_dict :: "obj \<Rightarrow> event" where
  "event_from_dict d =
     (let kind0 = (case dict_get d ''type'' of None \<Rightarrow> [] | Some t \<Rightarrow> jstr t);
          kind = (if kind0 \<in> set SIGNAL_EVENT_TYPES then hd SIGNAL_EVENT_TYPES else kind0)
      in \<lparr>ev_type = kind, ev_app = str_field d ''app'', ev_ts = num_field d ''ts'',
          ev_synthetic = as_bool (jget d ''synthetic''), ev_seq = int_field d ''seq'', ev_raw = d,
          ev_kind =
            (if kind = ''http_request'' then HttpRequest (http_from_dict d)
             else if kind \<in> set SIGNAL_EVENT_TYPES then Trigger (trigger_from_dict d)
             else if kind = ''oob'' then Oob (oob_from_dict d)
             else Plain)\<rparr>)"

definition events_from_iterable :: "json list \<Rightarrow> stream" where
  "events_from_iterable items =
     map event_from_dict (List.map_filter (\<lambda>x. case x of JObj d \<Rightarrow> Some d | _ \<Rightarrow> None) items)"

text \<open>\<open>load_events\<close> after decoding: one JSON document, or one document per line.\<close>

datatype export_file = OneDocument json | PerLine "json list"

definition export_document :: "export_file \<Rightarrow> json option" where
  "export_document f =
     (case f of
        OneDocument j \<Rightarrow> Some j
      | PerLine [] \<Rightarrow> None
      | PerLine (JObj d # js) \<Rightarrow>
          if dict_get d ''events'' = None then Some (JList (JObj d # js)) else Some (JObj d)
      | PerLine js \<Rightarrow> Some (JList js))"

definition export_meta :: "obj \<Rightarrow> obj" where
  "export_meta data =
     foldl (\<lambda>m k. case dict_get data k of None \<Rightarrow> m | Some v \<Rightarrow> setdefault k v m)
       (obj_of (jget data ''run'')) [''run_id'', ''tool'', ''tool_version'', ''profile'', ''targets'']"

definition load_events :: "export_file \<Rightarrow> (stream \<times> obj) option" where
  "load_events f =
     (case export_document f of
        None \<Rightarrow> None
      | Some (JList items) \<Rightarrow> Some (events_from_iterable items, [])
      | Some (JObj data) \<Rightarrow>
          Some (events_from_iterable (if jtruthy (jget data ''events'') then jiter (jget data ''events'') else []),
                export_meta data)
      | Some _ \<Rightarrow> None)"

section \<open>The run record\<close>

record service_info =
  sv_service :: "string option"
  sv_container_id :: "string option"
  sv_image_digest :: "string option"

record container =
  ct_service :: "string option"
  ct_container_id :: "string option"
  ct_addresses :: "string list"
  ct_image_digest :: "string option"
  ct_services :: "service_info list"
  ct_before :: "string option"
  ct_after :: "string option"

record reset_entry =
  rs_before :: "string option"
  rs_after :: "string option"
  rs_match :: "bool option"
  rs_ok :: "bool option"

record scan_mode =
  sm_mode :: "string option"
  sm_active :: "bool option"
  sm_reason :: "string option"

record requests_block =
  rq_total :: json
  rq_by_app :: obj
  rq_counted_by :: "string option"

record run_record =
  rr_containers :: "(string, container) dict"
  rr_images :: "(string, string) dict"
  rr_tool_image :: "string option"
  rr_tool_image_digest :: "string option"
  rr_reset :: "(string, reset_entry) dict"
  rr_reset_consistent :: "bool option"
  rr_scan_mode :: "scan_mode option"
  rr_caveats :: "string list"
  rr_requests :: "requests_block option"

definition CONTAINER_MAP_KEYS :: "string list" where
  "CONTAINER_MAP_KEYS = [''addresses'', ''target_topology'', ''containers'', ''container_map'',
     ''target_containers'', ''targets_map'']"

definition container_map :: "obj \<Rightarrow> obj" where
  "container_map meta =
     (case List.find (\<lambda>k. is_obj (jget meta k) \<and> jtruthy (jget meta k)) CONTAINER_MAP_KEYS of
        None \<Rightarrow> [] | Some k \<Rightarrow> obj_of (jget meta k))"

definition service_addresses :: "obj \<Rightarrow> string list" where
  "service_addresses service =
     List.map_filter (\<lambda>a. case a of
         JObj d \<Rightarrow> (let ip = jor (jget d ''ip'') (jget d ''address'') in
                   if jtruthy ip then Some (jstr ip) else None)
       | _ \<Rightarrow> if jtruthy a then Some (jstr a) else None)
       (jiter (jget service ''addresses''))"

definition dedupe :: "'a list \<Rightarrow> 'a list" where
  "dedupe xs = rev (remdups (rev xs))"

definition container_of :: "obj \<Rightarrow> container" where
  "container_of entry =
     (let services = objects (jget entry ''services'');
          first = (\<lambda>k. case services of [] \<Rightarrow> None | s # _ \<Rightarrow> as_str (jget s k));
          listed = jor (jget entry ''addresses'') (jget entry ''ips'')
      in \<lparr>ct_service = or_str (as_str (jget entry ''service'')) (first ''service''),
          ct_container_id =
            or_str (as_str (jor (jget entry ''container_id'') (jget entry ''id''))) (first ''container_id''),
          ct_addresses =
            dedupe ((if jtruthy listed then map jstr (jiter listed) else [])
                    @ concat (map service_addresses services)),
          ct_image_digest =
            or_str (as_str (jor (jget entry ''image_digest'') (jget entry ''image''))) (first ''image_digest''),
          ct_services = map (\<lambda>x.
            \<lparr>sv_service = as_str (jor (jget x ''service'') (jget x ''container_name'')),
             sv_container_id = as_str (jget x ''container_id''),
             sv_image_digest = as_str (jor (jget x ''image_digest'') (jget x ''image''))\<rparr>) services,
          ct_before = as_str (jget entry ''reset_digest_before''),
          ct_after = as_str (jget entry ''reset_digest_after'')\<rparr>)"

definition containers_of :: "obj \<Rightarrow> (string, container) dict" where
  "containers_of meta =
     foldl (\<lambda>d (app, entry). case entry of JObj e \<Rightarrow> dict_set app (container_of e) d | _ \<Rightarrow> d) []
       (container_map meta)"

definition images_of :: "obj \<Rightarrow> (string, container) dict \<Rightarrow> (string, string) dict" where
  "images_of meta containers =
     (let listed = foldl (\<lambda>d key.
            foldl (\<lambda>d (k, v). if jtruthy v then dict_set k (jstr v) d else d) d (obj_of (jget meta key)))
            [] [''images'', ''image_digests'']
      in foldl (\<lambda>d (app, c). if truthy (ct_image_digest c)
                 then setdefault app (the (ct_image_digest c)) d else d) listed containers)"

definition record_reset ::
  "string \<Rightarrow> string option \<Rightarrow> string option \<Rightarrow> json \<Rightarrow> (string, reset_entry) dict \<Rightarrow>
   (string, reset_entry) dict" where
  "record_reset app pre post ok reset =
     (if pre = None \<and> post = None \<and> ok = JNull then reset
      else dict_set app
        \<lparr>rs_before = pre, rs_after = post,
         rs_match = (if truthy pre \<and> truthy post then Some (pre = post) else None),
         rs_ok = (if ok = JNull then None else Some (jtruthy ok))\<rparr> reset)"

definition reset_listed :: "(string, reset_entry) dict \<Rightarrow> json \<Rightarrow> (string, reset_entry) dict" where
  "reset_listed reset candidate =
     (case candidate of
        JList entries \<Rightarrow>
          foldl (\<lambda>r e. if jtruthy (jget e ''app'')
             then record_reset (jstr (jget e ''app''))
                    (as_str (jor (jget e ''reference_digest'') (jget e ''before'')))
                    (as_str (jor (jget e ''state_digest'') (jget e ''after''))) (jget e ''ok'') r
             else r) reset (objects candidate)
      | JObj d \<Rightarrow>
          if dict_get d ''before'' \<noteq> None \<or> dict_get d ''after'' \<noteq> None
          then record_reset ''*'' (as_str (jget d ''before'')) (as_str (jget d ''after'')) JNull reset
          else foldl (\<lambda>r (app, entry). case entry of
                  JObj e \<Rightarrow> record_reset app (as_str (jget e ''before'')) (as_str (jget e ''after''))
                             (jget e ''ok'') r
                | _ \<Rightarrow> r) reset d
      | _ \<Rightarrow> reset)"

definition resets_of :: "obj \<Rightarrow> (string, container) dict \<Rightarrow> (string, reset_entry) dict" where
  "resets_of meta containers =
     (let listed = foldl (\<lambda>r key. reset_listed r (jget meta key)) []
            [''reset'', ''reset_digests'', ''state_digests''];
          whole = record_reset ''*'' (as_str (jget meta ''reset_digest_before''))
            (as_str (jget meta ''reset_digest_after'')) JNull listed
      in foldl (\<lambda>r (app, c). record_reset app (ct_before c) (ct_after c) JNull r) whole containers)"

definition reset_consistent :: "(string, reset_entry) dict \<Rightarrow> bool option" where
  "reset_consistent reset =
     (let rs = map snd reset;
          matches = List.map_filter rs_match rs
            @ List.map_filter (\<lambda>r. if rs_match r = None then rs_ok r else None) rs
      in if matches = [] then None else Some (list_all (\<lambda>b. b) matches))"

definition scan_mode_of :: "obj \<Rightarrow> scan_mode option" where
  "scan_mode_of meta =
     (case jget meta ''scan_mode'' of
        JObj d \<Rightarrow> Some \<lparr>sm_mode = as_str (jget d ''mode''),
                    sm_active = (if jget d ''active'' = JNull then None else Some (jtruthy (jget d ''active''))),
                    sm_reason = as_str (jget d ''reason'')\<rparr>
      | v \<Rightarrow> if jtruthy v then Some \<lparr>sm_mode = as_str v, sm_active = None, sm_reason = None\<rparr> else None)"

definition requests_of :: "obj \<Rightarrow> requests_block option" where
  "requests_of meta =
     (case jget meta ''requests'' of
        JObj d \<Rightarrow> Some \<lparr>rq_total = jget d ''total'', rq_by_app = obj_of (jget d ''by_app''),
                    rq_counted_by = as_str (jget d ''counted_by'')\<rparr>
      | _ \<Rightarrow> if jget meta ''requests_observed'' \<noteq> JNull
            then Some \<lparr>rq_total = jget meta ''requests_observed'', rq_by_app = [], rq_counted_by = None\<rparr>
            else None)"

definition normalize_run_record :: "obj \<Rightarrow> run_record" where
  "normalize_run_record meta =
     (let containers = containers_of meta; reset = resets_of meta containers
      in \<lparr>rr_containers = containers,
          rr_images = sort_key fst (images_of meta containers),
          rr_tool_image = as_str (jget meta ''image''),
          rr_tool_image_digest = as_str (jget meta ''image_digest''),
          rr_reset = sort_key fst reset,
          rr_reset_consistent = reset_consistent reset,
          rr_scan_mode = scan_mode_of meta,
          rr_caveats = (if jtruthy (jget meta ''caveats'')
                        then map jstr (filter jtruthy (jiter (jget meta ''caveats''))) else []),
          rr_requests = requests_of meta\<rparr>)"

definition index_container ::
  "(string, string) dict \<Rightarrow> string \<times> container \<Rightarrow> (string, string) dict" where
  "index_container index ac =
     (let app = fst ac; c = snd ac;
          i1 = foldl (\<lambda>d a. dict_set a app d) index (ct_addresses c);
          i2 = foldl (\<lambda>d v. if truthy v then dict_set (the v) app d else d) i1
                 [ct_container_id c, ct_service c]
      in setdefault app app i2)"

definition address_index :: "(string, container) dict \<Rightarrow> (string, string) dict" where
  "address_index containers = foldl index_container [] containers"

definition host_observations :: "stream \<Rightarrow> (string \<times> string) list" where
  "host_observations s =
     concat (map (\<lambda>(e, h).
       if ev_synthetic e \<or> \<not> truthy (ev_app e) \<or> \<not> truthy (h_host h) then []
       else let host = lower (strip (the (h_host h))) in
         map (\<lambda>k. (k, the (ev_app e)))
           (filter (\<lambda>k. k \<noteq> []) (remdups [host, before (CHR '':'') host]))) (requests s))"

definition host_app_index :: "stream \<Rightarrow> (string, string) dict" where
  "host_app_index s =
     List.map_filter (\<lambda>(host, obs). case remdups (map snd obs) of [app] \<Rightarrow> Some (host, app) | _ \<Rightarrow> None)
       (bucket_all fst (host_observations s))"

section \<open>What the indexes say\<close>

lemma scored_parts:
  "requests (scored s) = filter (\<lambda>(e, h). \<not> ev_synthetic e) (requests s)"
  "triggers (scored s) = filter (\<lambda>(e, h). \<not> ev_synthetic e) (triggers s)"
  "oobs (scored s) = filter (\<lambda>(e, h). \<not> ev_synthetic e) (oobs s)"
  by (induction s)
     (auto simp: requests_def triggers_def oobs_def scored_def map_filter_simps split: option.split event_kind.splits)

lemma dict_get_host_app:
  assumes "dict_ok d"
  shows "dict_get (List.map_filter (\<lambda>(host, obs). case remdups (map snd obs) of [app] \<Rightarrow> Some (host, app) | _ \<Rightarrow> None) d) h
    = (case dict_get d h of None \<Rightarrow> None
       | Some obs \<Rightarrow> (case remdups (map snd obs) of [app] \<Rightarrow> Some app | _ \<Rightarrow> None))"
  using assms
proof (induction d)
  case (Cons kv d)
  obtain k obs where kv: "kv = (k, obs)" by (cases kv)
  have "dict_get d k = None" using Cons.prems by (simp add: dict_get_None_iff dict_ok_def kv)
  then show ?case using Cons by (auto simp: kv map_filter_simps dict_ok_def split: list.split)
qed (simp add: map_filter_simps)

lemma remdups_single: "remdups xs = [a] \<longleftrightarrow> set xs = {a}"
proof
  assume "set xs = {a}"
  then have "set (remdups xs) = {a}" "distinct (remdups xs)" by simp_all
  then show "remdups xs = [a]" by (cases "remdups xs"; cases "tl (remdups xs)") auto
next
  assume "remdups xs = [a]"
  then show "set xs = {a}" by (metis list.set(1) list.simps(15) set_remdups)
qed

text \<open>A host resolves to an app exactly when that is the only app that unsynthetic requests
  were served by under this host (with or without the port); a host seen with two apps resolves to
  none.\<close>

theorem host_app_index_spec:
  "dict_get (host_app_index s) host = Some app \<longleftrightarrow>
     {a. (host, a) \<in> set (host_observations s)} = {app}"
proof -
  let ?b = "bucket_all fst (host_observations s)"
  have ok: "dict_ok ?b" by simp
  have img: "snd ` set (filter (\<lambda>x. fst x = host) xs) = {a. (host, a) \<in> set xs}" for xs :: "(string \<times> string) list"
    by force
  show ?thesis
  proof (cases "dict_get ?b host")
    case None
    then have "host \<notin> fst ` set (host_observations s)"
      by (simp add: dict_get_None_iff keys_bucket_all)
    then have "{a. (host, a) \<in> set (host_observations s)} = {}" by force
    then show ?thesis using None by (simp add: host_app_index_def dict_get_host_app [OF ok])
  next
    case (Some obs)
    then have obs: "obs = filter (\<lambda>x. fst x = host) (host_observations s)"
      by (auto simp: dict_get_bucket_all Let_def split: if_splits)
    have set: "set (map snd obs) = {a. (host, a) \<in> set (host_observations s)}"
      using img [of "host_observations s"] by (simp add: obs)
    have "dict_get (host_app_index s) host = (case remdups (map snd obs) of [a] \<Rightarrow> Some a | _ \<Rightarrow> None)"
      using Some by (simp add: host_app_index_def dict_get_host_app [OF ok])
    also have "\<dots> = Some app \<longleftrightarrow> remdups (map snd obs) = [app]"
      by (simp split: list.split)
    finally show ?thesis unfolding set [symmetric] remdups_single .
  qed
qed

text \<open>Addresses resolve only to an app that declared them.\<close>

definition declares :: "string \<times> container \<Rightarrow> string \<Rightarrow> bool" where
  "declares ac a \<longleftrightarrow> a \<in> set (ct_addresses (snd ac)) \<or> ct_container_id (snd ac) = Some a
     \<or> ct_service (snd ac) = Some a \<or> fst ac = a"

lemma dict_get_fold_set:
  "dict_get (foldl (\<lambda>d a. dict_set a v d) d xs) k = (if k \<in> set xs then Some v else dict_get d k)"
  by (induction xs arbitrary: d) auto

lemma index_container_get:
  "dict_get (index_container index ac) a = Some app \<Longrightarrow>
     dict_get index a = Some app \<or> (app = fst ac \<and> declares ac a)"
  by (auto simp: index_container_def Let_def dict_get_setdefault dict_get_fold_set declares_def
      dest!: truthyE split: if_splits)

lemma address_index_sound:
  assumes "dict_get (address_index cs) a = Some app"
  shows "\<exists>c. (app, c) \<in> set cs \<and> declares (app, c) a"
proof -
  have "dict_get (foldl index_container d cs) a = Some app \<Longrightarrow>
      dict_get d a = Some app \<or> (\<exists>c. (app, c) \<in> set cs \<and> declares (app, c) a)" for d
    by (induction cs arbitrary: d) (force dest: index_container_get)+
  from this [of "[]"] show ?thesis using assms by (simp add: address_index_def)
qed

end
