(* ===== verification/Scoring.thy ===== *)
theory Scoring
  imports Inventory Events Sha256
begin

text \<open>
  \<open>platform/benchctl/src/benchctl/scoring.py\<close>, first part: attribution of out-of-band
  callbacks and the verdict on one vulnerability. The loops of \<open>score_vuln\<close> are folds over the
  requests, the fired sinks and the attributions, in the order of the source.
\<close>

section \<open>Parameters\<close>

definition sha256_of :: "string \<Rightarrow> string" where
  "sha256_of s = sha256_hex (utf8_encode s)"

definition BODY_LOCATIONS :: "string list" where
  "BODY_LOCATIONS = [''body'', ''json'', ''multipart'', ''raw'']"

definition EMPTY_SHA256 :: string where
  "EMPTY_SHA256 = sha256_hex []"

definition param_in_matches :: "string \<Rightarrow> string \<Rightarrow> bool" where
  "param_in_matches catalog_in event_in =
     (let a = lower (str_or (Some catalog_in) ''query''); b = lower (str_or (Some event_in) ''query'') in
      a = b \<or> (a \<in> set BODY_LOCATIONS \<and> b \<in> set BODY_LOCATIONS))"

definition param_sha :: "param \<Rightarrow> string option" where
  "param_sha p =
     (let sha = falsy_none (lower (str_or (p_sha256 p) [])) in
      case (sha, p_sample p) of
        (None, Some s) \<Rightarrow> if p_len p = Some (int (length s)) then Some (sha256_of s) else None
      | _ \<Rightarrow> sha)"

definition value_differs :: "string option \<Rightarrow> param \<Rightarrow> bool" where
  "value_differs dflt p =
     (let sha = param_sha p in
      case dflt of
        None \<Rightarrow>
          (case p_len p of Some n \<Rightarrow> n > 0 | None \<Rightarrow> False)
          \<or> (sha \<noteq> None \<and> sha \<noteq> Some EMPTY_SHA256) \<or> truthy (p_sample p)
      | Some d \<Rightarrow>
          (sha \<noteq> None \<and> sha \<noteq> Some (sha256_of d))
          \<or> (sha = None \<and> p_sample p \<noteq> None \<and> p_sample p \<noteq> Some d))"

definition param_hit :: "vuln \<Rightarrow> param \<Rightarrow> bool" where
  "param_hit v p =
     (lower (p_name p) = lower (str_or (ep_param (v_entrypoint v)) [])
      \<and> param_in_matches (ep_param_in (v_entrypoint v)) (p_location p)
      \<and> value_differs (ep_default (v_entrypoint v)) p)"

definition param_is_exercised :: "vuln \<Rightarrow> http_event \<Rightarrow> bool \<times> string option" where
  "param_is_exercised v h =
     (case List.find (param_hit v) (h_params h) of
        None \<Rightarrow> (False, None) | Some p \<Rightarrow> (True, p_sample p))"

definition request_reaches :: "vuln \<Rightarrow> event \<times> http_event \<Rightarrow> bool" where
  "request_reaches v eh =
     (\<not> (v_app v \<noteq> [] \<and> truthy (ev_app (fst eh)) \<and> Some (v_app v) \<noteq> ev_app (fst eh))
      \<and> upper (ep_method (v_entrypoint v)) = upper (h_method (snd eh))
      \<and> routes_equal (ep_path (v_entrypoint v)) (h_route (snd eh)))"

section \<open>Out-of-band attribution\<close>

datatype confidence = High | Low

record attribution =
  at_vuln_id :: "string option"
  at_kind :: string
  at_confidence :: confidence
  at_app :: "string option"
  at_source_match :: "bool option"
  at_channel :: "string option"
  at_destination_host :: "string option"
  at_request_id :: "string option"
  at_container :: "string option"
  at_ts :: "rat option"

definition is_proof :: "attribution \<Rightarrow> bool" where
  "is_proof a = (at_vuln_id a \<noteq> None \<and> at_confidence a = High)"

definition WEAK_ATTRIBUTIONS :: "string list" where
  "WEAK_ATTRIBUTIONS = [''container'', ''container-window'', ''container_window'', ''time-window'',
     ''time_window'', ''window'', ''heuristic'', ''fallback'', ''weak'', ''low'', ''low-confidence'']"

definition WEAK_CONFIDENCE :: "string list" where
  "WEAK_CONFIDENCE = [''low'', ''weak'', ''guess'']"

definition is_weak :: "oob_event \<Rightarrow> bool" where
  "is_weak ob =
     (ob_low_confidence ob
      \<or> lower (strip (str_or (ob_confidence ob) [])) \<in> set WEAK_CONFIDENCE
      \<or> lower (strip (str_or (ob_attribution ob) [])) \<in> set WEAK_ATTRIBUTIONS)"

type_synonym join = "(string, string) dict \<times> (string, string) dict"

definition index_event :: "join \<Rightarrow> event \<Rightarrow> join" where
  "index_event j e =
     (let raw = ev_raw e; signal = jget raw ''signal'' in
      if \<not> jtruthy signal then j
      else let host = norm_host (case jor (jget raw ''destination_host'') (jget raw ''host'') of
                        JStr s \<Rightarrow> Some s | _ \<Rightarrow> None);
               request_id = jget raw ''request_id''
           in (if host \<noteq> [] then setdefault host (jstr signal) (fst j) else fst j,
               if jtruthy request_id then setdefault (jstr request_id) (jstr signal) (snd j) else snd j))"

definition correlation_index :: "stream \<Rightarrow> join" where
  "correlation_index s = foldl index_event ([], []) s"

definition signal_for_host :: "string option \<Rightarrow> (string, string) dict \<Rightarrow> string option" where
  "signal_for_host host by_host =
     (let key = norm_host host in
      if key = [] then None
      else case dict_get by_host key of
        Some s \<Rightarrow> Some s
      | None \<Rightarrow> map_option snd (List.find (\<lambda>(registered, _).
          endswith key (''.'' @ registered) \<or> endswith registered (''.'' @ key)) by_host))"

definition resolve_source_app ::
  "event \<times> oob_event \<Rightarrow> catalog \<Rightarrow> (string, string) dict \<Rightarrow> string option" where
  "resolve_source_app eo c addresses =
     (let ob = snd eo; known = v_app ` set (c_vulns c) in
      if truthy (ob_attributed_app ob) \<and> the (ob_attributed_app ob) \<in> known then ob_attributed_app ob
      else if addresses \<noteq> [] then
        (case List.find (\<lambda>k. truthy k \<and> dict_get addresses (the k) \<noteq> None)
            [ob_attributed_app ob, ob_source_ip ob, ob_container ob, ev_app (fst eo)] of
           Some k \<Rightarrow> dict_get addresses (the k) | None \<Rightarrow> None)
      else
        (case List.find (\<lambda>k. truthy k \<and> the k \<in> known) [ob_container ob, ev_app (fst eo)] of
           Some k \<Rightarrow> k | None \<Rightarrow> None))"

definition oob_candidates :: "catalog \<Rightarrow> string option \<Rightarrow> oob_event \<Rightarrow> vuln list" where
  "oob_candidates c source_app ob =
     filter (\<lambda>v. o_kind (v_oracle v) = ''oob''
        \<and> (\<not> truthy source_app \<or> Some (v_app v) = source_app)
        \<and> (\<not> truthy (ob_route ob) \<or> routes_equal (ep_path (v_entrypoint v)) (the (ob_route ob)))
        \<and> (\<not> truthy (ob_method ob) \<or> Some (ep_method (v_entrypoint v)) = ob_method ob)) (c_vulns c)"

definition lookup_by :: "(string, vuln) dict \<Rightarrow> string option \<Rightarrow> vuln option" where
  "lookup_by d k = (if truthy k then dict_get d (the k) else None)"

definition joined_signal :: "oob_event \<Rightarrow> join \<Rightarrow> string option" where
  "joined_signal ob j =
     or_str (if truthy (ob_request_id ob) then dict_get (snd j) (the (ob_request_id ob)) else None)
       (signal_for_host (ob_destination_host ob) (fst j))"

text \<open>Which entry a callback belongs to, and by which tie; the tiers in order of precedence.\<close>

definition oob_tie ::
  "oob_event \<Rightarrow> catalog \<Rightarrow> join \<Rightarrow> string option \<Rightarrow> (vuln \<times> string) option" where
  "oob_tie ob c j source_app =
     (case lookup_by (by_token c) (Some (ob_token ob)) of
        Some v \<Rightarrow> Some (v, ''token'')
      | None \<Rightarrow>
     (case lookup_by (by_signal c) (ob_signal ob) of
        Some v \<Rightarrow> Some (v, ''signal-correlation'')
      | None \<Rightarrow>
     (case lookup_by (by_id c) (ob_vuln_id ob) of
        Some v \<Rightarrow> Some (v, ''declared-id'')
      | None \<Rightarrow>
     (case lookup_by (by_signal c) (joined_signal ob j) of
        Some v \<Rightarrow> Some (v, ''signal-correlation'')
      | None \<Rightarrow>
     (if truthy source_app \<or> truthy (ob_route ob) then
        (case oob_candidates c source_app ob of [v] \<Rightarrow> Some (v, ''container-window'') | _ \<Rightarrow> None)
      else None)))))"

definition attribute_oob ::
  "event \<times> oob_event \<Rightarrow> catalog \<Rightarrow> join \<Rightarrow> (string, string) dict \<Rightarrow> attribution" where
  "attribute_oob eo c j addresses =
     (let ob = snd eo; source_app = resolve_source_app eo c addresses;
          mk = (\<lambda>vid kind conf. \<lparr>at_vuln_id = vid, at_kind = kind, at_confidence = conf,
             at_app = source_app, at_source_match = ob_source_match ob, at_channel = ob_channel ob,
             at_destination_host = ob_destination_host ob, at_request_id = ob_request_id ob,
             at_container = ob_container ob, at_ts = ev_ts (fst eo)\<rparr>)
      in case oob_tie ob c j source_app of
           Some (v, kind) \<Rightarrow>
             mk (Some (v_id v)) kind (if kind = ''container-window'' \<or> is_weak ob then Low else High)
         | None \<Rightarrow> mk None ''unattributed'' Low)"

definition add_attribution ::
  "(string, attribution list) dict \<times> attribution list \<Rightarrow> attribution \<Rightarrow>
   (string, attribution list) dict \<times> attribution list" where
  "add_attribution st a =
     (case at_vuln_id a of
        None \<Rightarrow> (fst st, snd st @ [a])
      | Some i \<Rightarrow> (bucket_add i a (fst st), snd st))"

definition attribute_oob_events ::
  "stream \<Rightarrow> catalog \<Rightarrow> (string, string) dict \<Rightarrow> (string, attribution list) dict \<times> attribution list" where
  "attribute_oob_events s c addresses =
     (let j = correlation_index s in
      foldl add_attribution ([], []) (map (\<lambda>eo. attribute_oob eo c j addresses) (oobs s)))"

section \<open>One vulnerability\<close>

record outcome =
  oc_vuln_id :: string
  oc_reach :: bool
  oc_exercise :: "bool option"
  oc_trigger :: bool
  oc_low :: bool
  oc_reach_events :: nat
  oc_trigger_events :: nat
  oc_inferred :: bool
  oc_first_reach :: "rat option"
  oc_first_trigger :: "rat option"
  oc_sample :: "string option"
  oc_source :: "string option"
  oc_attributions :: "attribution list"
  oc_evidence :: obj

definition oc_trigger_any :: "outcome \<Rightarrow> bool" where
  "oc_trigger_any out = (oc_trigger out \<or> oc_low out)"

definition earlier :: "rat option \<Rightarrow> rat option \<Rightarrow> rat option" where
  "earlier cur t =
     (case t of None \<Rightarrow> cur
      | Some x \<Rightarrow> (case cur of None \<Rightarrow> Some x | Some y \<Rightarrow> if x < y then Some x else Some y))"

definition new_outcome :: "vuln \<Rightarrow> outcome" where
  "new_outcome v =
     \<lparr>oc_vuln_id = v_id v, oc_reach = False, oc_exercise = (if has_param v then Some False else None),
      oc_trigger = False, oc_low = False, oc_reach_events = 0, oc_trigger_events = 0,
      oc_inferred = False, oc_first_reach = None, oc_first_trigger = None, oc_sample = None,
      oc_source = None, oc_attributions = [], oc_evidence = []\<rparr>"

definition request_step :: "vuln \<Rightarrow> outcome \<Rightarrow> event \<times> http_event \<Rightarrow> outcome" where
  "request_step v out eh =
     (if \<not> request_reaches v eh then out
      else
        let out1 = out\<lparr>oc_reach := True, oc_reach_events := oc_reach_events out + 1,
                       oc_first_reach := earlier (oc_first_reach out) (ev_ts (fst eh))\<rparr>;
            hit = param_is_exercised v (snd eh)
        in if oc_exercise out1 = Some False \<and> fst hit
           then out1\<lparr>oc_exercise := Some True, oc_sample := snd hit\<rparr> else out1)"

definition trigger_match :: "vuln \<Rightarrow> trigger_event \<Rightarrow> string option" where
  "trigger_match v t =
     (if truthy (o_signal (v_oracle v)) \<and> t_signal t = o_signal (v_oracle v) then Some ''signal''
      else if t_vuln_id t \<noteq> [] \<and> t_vuln_id t = v_id v then Some ''vuln_id''
      else None)"

definition trigger_step :: "vuln \<Rightarrow> outcome \<Rightarrow> event \<times> trigger_event \<Rightarrow> outcome" where
  "trigger_step v out et =
     (case trigger_match v (snd et) of
        None \<Rightarrow> out
      | Some by \<Rightarrow>
          out\<lparr>oc_trigger := True, oc_trigger_events := oc_trigger_events out + 1,
              oc_source := or_str (oc_source out) (Some by),
              oc_first_trigger := earlier (oc_first_trigger out) (ev_ts (fst et)),
              oc_evidence := (if t_evidence (snd et) \<noteq> [] \<and> oc_evidence out = []
                              then t_evidence (snd et) else oc_evidence out)\<rparr>)"

definition oob_step :: "outcome \<Rightarrow> attribution \<Rightarrow> outcome" where
  "oob_step out a =
     (let out1 = out\<lparr>oc_trigger_events := oc_trigger_events out + 1,
                     oc_attributions := oc_attributions out @ [a]\<rparr>;
          out2 = (if at_confidence a = High
                  then out1\<lparr>oc_trigger := True,
                            oc_source := or_str (oc_source out1) (Some (''oob:'' @ at_kind a))\<rparr>
                  else out1\<lparr>oc_low := True\<rparr>)
      in out2\<lparr>oc_first_trigger := earlier (oc_first_trigger out2) (at_ts a),
              oc_evidence := setdefault ''oob_channel''
                (case at_channel a of None \<Rightarrow> JNull | Some ch \<Rightarrow> JStr ch) (oc_evidence out2)\<rparr>)"

definition promote_reach :: "outcome \<Rightarrow> outcome" where
  "promote_reach out =
     (if oc_trigger out \<and> \<not> oc_reach out then out\<lparr>oc_reach := True, oc_inferred := True\<rparr> else out)"

definition score_vuln :: "vuln \<Rightarrow> stream \<Rightarrow> attribution list \<Rightarrow> outcome" where
  "score_vuln v s atts =
     (let o1 = foldl (request_step v) (new_outcome v) (requests s);
          o2 = foldl (trigger_step v) o1 (triggers s);
          o3 = foldl oob_step o2 atts
      in promote_reach o3)"

end
