(* ===== verification/Score_Verdicts.thy ===== *)
theory Score_Verdicts
  imports Scoring
begin

text \<open>
  What the verdict of \<open>score_vuln\<close> says: each axis characterised over the events, independence of
  the order of events, what makes an out-of-band callback a proof, and what counts as an
  exercised parameter.
\<close>

section \<open>The folds\<close>

lemma request_fold:
  "oc_trigger (foldl (request_step v) out rs) = oc_trigger out"
  "oc_low (foldl (request_step v) out rs) = oc_low out"
  "oc_trigger_events (foldl (request_step v) out rs) = oc_trigger_events out"
  "oc_first_trigger (foldl (request_step v) out rs) = oc_first_trigger out"
  "oc_reach (foldl (request_step v) out rs) \<longleftrightarrow> oc_reach out \<or> (\<exists>r\<in>set rs. request_reaches v r)"
  "oc_reach_events (foldl (request_step v) out rs)
     = oc_reach_events out + length (filter (request_reaches v) rs)"
  "oc_inferred (foldl (request_step v) out rs) = oc_inferred out"
  by (induction rs arbitrary: out) (auto simp: request_step_def Let_def)

lemma param_is_exercised_iff: "fst (param_is_exercised v h) \<longleftrightarrow> (\<exists>p\<in>set (h_params h). param_hit v p)"
  by (auto simp: param_is_exercised_def find_None_iff find_Some_iff split: option.split
      intro: nth_mem)

definition exercises :: "vuln \<Rightarrow> event \<times> http_event \<Rightarrow> bool" where
  "exercises v eh \<longleftrightarrow> request_reaches v eh \<and> (\<exists>p\<in>set (h_params (snd eh)). param_hit v p)"

lemma request_fold_exercise:
  "oc_exercise (foldl (request_step v) out rs)
     = (if oc_exercise out = Some False then Some (\<exists>r\<in>set rs. exercises v r) else oc_exercise out)"
proof (induction rs arbitrary: out)
  case (Cons r rs)
  have "oc_exercise (request_step v out r)
      = (if oc_exercise out = Some False then Some (exercises v r) else oc_exercise out)"
    by (auto simp: request_step_def Let_def exercises_def param_is_exercised_iff)
  then show ?case using Cons.IH by auto
qed auto

lemma trigger_fold:
  "oc_reach (foldl (trigger_step v) out ts) = oc_reach out"
  "oc_exercise (foldl (trigger_step v) out ts) = oc_exercise out"
  "oc_low (foldl (trigger_step v) out ts) = oc_low out"
  "oc_reach_events (foldl (trigger_step v) out ts) = oc_reach_events out"
  "oc_first_reach (foldl (trigger_step v) out ts) = oc_first_reach out"
  "oc_inferred (foldl (trigger_step v) out ts) = oc_inferred out"
  "oc_trigger (foldl (trigger_step v) out ts)
     \<longleftrightarrow> oc_trigger out \<or> (\<exists>t\<in>set ts. trigger_match v (snd t) \<noteq> None)"
  "oc_trigger_events (foldl (trigger_step v) out ts)
     = oc_trigger_events out + length (filter (\<lambda>t. trigger_match v (snd t) \<noteq> None) ts)"
  by (induction ts arbitrary: out) (auto simp: trigger_step_def split: option.split)

lemma oob_fold:
  "oc_reach (foldl oob_step out atts) = oc_reach out"
  "oc_exercise (foldl oob_step out atts) = oc_exercise out"
  "oc_reach_events (foldl oob_step out atts) = oc_reach_events out"
  "oc_first_reach (foldl oob_step out atts) = oc_first_reach out"
  "oc_inferred (foldl oob_step out atts) = oc_inferred out"
  "oc_trigger (foldl oob_step out atts) \<longleftrightarrow> oc_trigger out \<or> (\<exists>a\<in>set atts. at_confidence a = High)"
  "oc_low (foldl oob_step out atts) \<longleftrightarrow> oc_low out \<or> (\<exists>a\<in>set atts. at_confidence a = Low)"
  "oc_trigger_events (foldl oob_step out atts) = oc_trigger_events out + length atts"
  "oc_attributions (foldl oob_step out atts) = oc_attributions out @ atts"
  by (induction atts arbitrary: out)
     (auto simp: oob_step_def Let_def intro: confidence.exhaust)

lemma promote_reach_fields [simp]:
  "oc_exercise (promote_reach out) = oc_exercise out" "oc_trigger (promote_reach out) = oc_trigger out"
  "oc_low (promote_reach out) = oc_low out" "oc_reach_events (promote_reach out) = oc_reach_events out"
  "oc_trigger_events (promote_reach out) = oc_trigger_events out"
  "oc_first_reach (promote_reach out) = oc_first_reach out"
  "oc_first_trigger (promote_reach out) = oc_first_trigger out"
  "oc_reach (promote_reach out) \<longleftrightarrow> oc_reach out \<or> oc_trigger out"
  "oc_inferred (promote_reach out) \<longleftrightarrow> oc_inferred out \<or> (oc_trigger out \<and> \<not> oc_reach out)"
  by (auto simp: promote_reach_def)

lemma new_outcome_fields [simp]:
  "\<not> oc_reach (new_outcome v)" "\<not> oc_trigger (new_outcome v)" "\<not> oc_low (new_outcome v)"
  "oc_exercise (new_outcome v) = (if has_param v then Some False else None)"
  "oc_reach_events (new_outcome v) = 0" "oc_trigger_events (new_outcome v) = 0"
  "\<not> oc_inferred (new_outcome v)" "oc_first_reach (new_outcome v) = None"
  "oc_first_trigger (new_outcome v) = None"
  by (simp_all add: new_outcome_def)

lemmas score_folds = score_vuln_def Let_def request_fold request_fold_exercise trigger_fold oob_fold

section \<open>The axes\<close>

definition fired :: "vuln \<Rightarrow> stream \<Rightarrow> bool" where
  "fired v s \<longleftrightarrow> (\<exists>t\<in>set (triggers s). trigger_match v (snd t) \<noteq> None)"

definition reached :: "vuln \<Rightarrow> stream \<Rightarrow> bool" where
  "reached v s \<longleftrightarrow> (\<exists>r\<in>set (requests s). request_reaches v r)"

lemma conf_mem: "c \<in> at_confidence ` A \<longleftrightarrow> (\<exists>a\<in>A. at_confidence a = c)"
  by auto

text \<open>C1: the verdict axis by axis. Trigger: a matching sink fired or some attribution is of high
  confidence; low confidence sets only its own flag; reach: a matching request was seen or trigger
  holds, and it is marked inferred exactly in the second case; exercise: not applicable without a
  parameter, otherwise some reaching request carried a hit.\<close>

theorem score_vuln_axes:
  "let out = score_vuln v s atts in
     (oc_trigger out \<longleftrightarrow> fired v s \<or> High \<in> at_confidence ` set atts)
   \<and> (oc_low out \<longleftrightarrow> Low \<in> at_confidence ` set atts)
   \<and> (oc_reach out \<longleftrightarrow> reached v s \<or> oc_trigger out)
   \<and> (oc_inferred out \<longleftrightarrow> oc_trigger out \<and> \<not> reached v s)
   \<and> oc_exercise out = (if has_param v then Some (\<exists>r\<in>set (requests s). exercises v r) else None)
   \<and> oc_reach_events out = length (filter (request_reaches v) (requests s))
   \<and> oc_trigger_events out
       = length (filter (\<lambda>t. trigger_match v (snd t) \<noteq> None) (triggers s)) + length atts"
  by (simp add: score_folds fired_def reached_def conf_mem)

lemma exercise_needs_reach: "oc_exercise (score_vuln v s atts) = Some True \<Longrightarrow> reached v s"
  by (auto simp: score_folds reached_def exercises_def split: if_splits)

section \<open>Order of events\<close>

lemma foldl_earlier_mset:
  assumes "mset xs = mset ys" shows "foldl earlier t xs = foldl earlier t ys"
proof -
  have "fold (\<lambda>x c. earlier c x) xs = fold (\<lambda>x c. earlier c x) ys"
    by (rule fold_multiset_equiv [OF _ assms])
       (auto simp: fun_eq_iff earlier_def split: option.split)
  then show ?thesis by (simp add: foldl_conv_fold)
qed

lemma first_reach_fold:
  "oc_first_reach (foldl (request_step v) out rs)
     = foldl earlier (oc_first_reach out) (map (ev_ts \<circ> fst) (filter (request_reaches v) rs))"
  by (induction rs arbitrary: out) (simp_all add: request_step_def Let_def)

lemma first_trigger_fold:
  "oc_first_trigger (foldl (trigger_step v) out ts)
     = foldl earlier (oc_first_trigger out)
         (map (ev_ts \<circ> fst) (filter (\<lambda>t. trigger_match v (snd t) \<noteq> None) ts))"
  by (induction ts arbitrary: out) (auto simp: trigger_step_def split: option.split)

lemma first_oob_fold:
  "oc_first_trigger (foldl oob_step out atts) = foldl earlier (oc_first_trigger out) (map at_ts atts)"
  by (induction atts arbitrary: out) (simp_all add: oob_step_def Let_def)

lemma mset_map_filter: "mset xs = mset ys \<Longrightarrow> mset (List.map_filter f xs) = mset (List.map_filter f ys)"
  by (simp add: List.map_filter_def)

definition verdict where
  "verdict out =
     (oc_reach out, oc_exercise out, oc_trigger out, oc_low out, oc_reach_events out,
      oc_trigger_events out, oc_inferred out, oc_first_reach out, oc_first_trigger out)"

lemma fold_firsts_mset:
  assumes "mset rs = mset rs'"
  shows "foldl earlier t (map f (filter P rs)) = foldl earlier t (map f (filter P rs'))"
  by (rule foldl_earlier_mset) (simp add: assms)

lemma length_filter_mset: "mset xs = mset ys \<Longrightarrow> length (filter P xs) = length (filter P ys)"
  by (metis mset_filter size_mset)

text \<open>C2: the verdict on a vulnerability does not depend on the order in which events and
  attributions arrive.\<close>

theorem verdict_order_independent:
  assumes "mset s = mset s'" and "mset atts = mset atts'"
  shows "verdict (score_vuln v s atts) = verdict (score_vuln v s' atts')"
proof -
  have r: "mset (requests s) = mset (requests s')" and t: "mset (triggers s) = mset (triggers s')"
    unfolding requests_def triggers_def by (rule mset_map_filter [OF assms(1)])+
  have sets: "set (requests s) = set (requests s')" "set (triggers s) = set (triggers s')"
      "set atts = set atts'"
    using mset_eq_setD [OF r] mset_eq_setD [OF t] mset_eq_setD [OF assms(2)] by simp_all
  have len: "length atts = length atts'" using assms(2) by (metis size_mset)
  have times: "foldl earlier u (map at_ts atts) = foldl earlier u (map at_ts atts')" for u
    by (rule foldl_earlier_mset) (simp add: assms(2))
  show ?thesis
    unfolding verdict_def
    by (simp add: score_folds first_reach_fold first_trigger_fold first_oob_fold sets len times
        fold_firsts_mset [OF r] fold_firsts_mset [OF t] length_filter_mset [OF r] length_filter_mset [OF t])
qed

section \<open>Attribution\<close>

definition definitive :: "oob_event \<Rightarrow> catalog \<Rightarrow> join \<Rightarrow> vuln option" where
  "definitive ob c j =
     List.find (\<lambda>_. True) (List.map_filter (\<lambda>x. x)
       [lookup_by (by_token c) (Some (ob_token ob)), lookup_by (by_signal c) (ob_signal ob),
        lookup_by (by_id c) (ob_vuln_id ob), lookup_by (by_signal c) (joined_signal ob j)])"

lemma oob_tie_definitive:
  "oob_tie ob c j app =
     (case definitive ob c j of
        Some v \<Rightarrow> Some (v, if lookup_by (by_token c) (Some (ob_token ob)) \<noteq> None then ''token''
            else if lookup_by (by_signal c) (ob_signal ob) \<noteq> None then ''signal-correlation''
            else if lookup_by (by_id c) (ob_vuln_id ob) \<noteq> None then ''declared-id''
            else ''signal-correlation'')
      | None \<Rightarrow> (if truthy app \<or> truthy (ob_route ob) then
           (case oob_candidates c app ob of [v] \<Rightarrow> Some (v, ''container-window'') | _ \<Rightarrow> None) else None))"
  by (simp add: oob_tie_def definitive_def map_filter_simps split: option.split)


lemma attribute_oob_weak: "is_weak (snd eo) \<Longrightarrow> at_confidence (attribute_oob eo c j addresses) = Low"
  by (simp add: attribute_oob_def Let_def split: option.split)

lemma add_attribution_fold:
  "dict_get (fst (foldl add_attribution st as)) i =
     (let mine = filter (\<lambda>a. at_vuln_id a = Some i) as in
      case dict_get (fst st) i of Some xs \<Rightarrow> Some (xs @ mine)
      | None \<Rightarrow> if mine = [] then None else Some mine)"
  by (induction as arbitrary: st)
     (auto simp: add_attribution_def Let_def dict_get_bucket_add split: option.splits)

definition share :: "stream \<Rightarrow> catalog \<Rightarrow> (string, string) dict \<Rightarrow> string \<Rightarrow> attribution list" where
  "share s c addresses i =
     (case dict_get (fst (attribute_oob_events s c addresses)) i of None \<Rightarrow> [] | Some xs \<Rightarrow> xs)"

lemma share_eq:
  "share s c addresses i =
     filter (\<lambda>a. at_vuln_id a = Some i)
       (map (\<lambda>eo. attribute_oob eo c (correlation_index s) addresses) (oobs s))"
  by (simp add: share_def attribute_oob_events_def Let_def add_attribution_fold)

text \<open>C4: when every callback of a run carries a weak flag and the sink of an entry did not fire,
  the entry has no headline trigger, however many callbacks are attributed to it.\<close>

theorem weak_callbacks_never_headline:
  assumes "\<forall>eo\<in>set (oobs s). is_weak (snd eo)" and "\<not> fired v s"
  shows "\<not> oc_trigger (score_vuln v s (share s c addresses (v_id v)))
    \<and> (oc_trigger_any (score_vuln v s (share s c addresses (v_id v)))
         \<longleftrightarrow> share s c addresses (v_id v) \<noteq> [])"
proof -
  have low: "at_confidence a = Low" if "a \<in> set (share s c addresses (v_id v))" for a
  proof -
    from that obtain eo where "eo \<in> set (oobs s)" "a = attribute_oob eo c (correlation_index s) addresses"
      by (auto simp: share_eq)
    then show ?thesis using attribute_oob_weak assms(1) by simp
  qed
  then have "\<not> oc_trigger (score_vuln v s (share s c addresses (v_id v)))"
    using assms(2) by (auto simp: score_folds fired_def)
  moreover have "oc_low (score_vuln v s (share s c addresses (v_id v))) \<longleftrightarrow> share s c addresses (v_id v) \<noteq> []"
  proof -
    have "oc_low (score_vuln v s atts) \<longleftrightarrow> (\<exists>a\<in>set atts. at_confidence a = Low)" for atts
      by (simp add: score_folds)
    moreover have "(\<exists>a\<in>set atts. at_confidence a = Low) \<longleftrightarrow> atts \<noteq> []"
      if "\<And>a. a \<in> set atts \<Longrightarrow> at_confidence a = Low" for atts
      using that by (cases atts) auto
    ultimately show ?thesis using low by blast
  qed
  ultimately show ?thesis by (simp add: oc_trigger_any_def)
qed

section \<open>Parameters\<close>

definition reports :: "param \<Rightarrow> string \<Rightarrow> bool" where
  "reports p x \<longleftrightarrow> p_sha256 p = Some (sha256_of x) \<and> p_len p = Some (int (length x))
     \<and> (p_sample p = None \<or> p_sample p = Some x)"

lemma sha256_of_ne [simp]: "sha256_of x \<noteq> []"
proof
  assume nil: "sha256_of x = []"
  have "length (sha256_of x) = 64" by (simp add: sha256_of_def)
  then show False by (simp add: nil)
qed

lemma lower_sha256_of [simp]: "lower (sha256_of x) = sha256_of x"
  by (simp add: sha256_of_def lower_sha256)

lemma param_sha_reports: "reports p x \<Longrightarrow> param_sha p = Some (sha256_of x)"
  by (simp add: reports_def param_sha_def str_or_def falsy_none_def)

text \<open>A parameter reported with its digest and length counts as exercised exactly when its
  digest differs from that of the declared default (so replaying the default never counts), or,
  with no default declared, when the value is not empty.\<close>

theorem value_differs_reported:
  assumes "reports p x"
  shows "(value_differs (Some d) p \<longleftrightarrow> sha256_of x \<noteq> sha256_of d) \<and> (value_differs None p \<longleftrightarrow> x \<noteq> [])"
proof -
  have "x = [] \<Longrightarrow> sha256_of x = EMPTY_SHA256"
    by (simp add: sha256_of_def EMPTY_SHA256_def utf8_encode_def)
  then show ?thesis
    using assms param_sha_reports [OF assms]
    by (auto simp: value_differs_def Let_def reports_def)
qed

section \<open>Concrete instances\<close>

definition sample_event :: "event_kind \<Rightarrow> rat \<Rightarrow> event" where
  "sample_event k t =
     \<lparr>ev_type = ''x'', ev_app = Some ''shop'', ev_ts = Some t, ev_synthetic = False, ev_seq = None,
      ev_raw = [], ev_kind = k\<rparr>"

abbreviation sample_request :: event where
  "sample_request \<equiv> sample_event (HttpRequest
     \<lparr>h_method = ''get'', h_route = ''/items/:id'', h_host = None, h_path = None, h_status = None,
      h_auth_subject = None, h_params = []\<rparr>) 2"

abbreviation sample_trigger :: event where
  "sample_trigger \<equiv> sample_event (Trigger \<lparr>t_vuln_id = [], t_signal = Some ''sig-A'', t_evidence = []\<rparr>) 1"

abbreviation sample_callback :: "bool \<Rightarrow> event" where
  "sample_callback weak \<equiv> sample_event (Oob
     \<lparr>ob_token = [], ob_signal = Some ''sig-A'', ob_vuln_id = None, ob_channel = Some ''dns'',
      ob_source_ip = None, ob_attribution = None, ob_attributed_app = None, ob_confidence = None,
      ob_source_match = None, ob_low_confidence = weak, ob_destination_host = None,
      ob_request_id = None, ob_container = None, ob_route = None, ob_method = None\<rparr>) 5"

lemma verdict_order_independent_witness:
  "fst (verdict (score_vuln (plain_vuln ''A'' []) [sample_request, sample_trigger] []))
   \<and> verdict (score_vuln (plain_vuln ''A'' []) [sample_request, sample_trigger] [])
     = verdict (score_vuln (plain_vuln ''A'' []) [sample_trigger, sample_request] [])"
  by (rule conjI, code_simp, rule verdict_order_independent) simp_all

lemma weak_callbacks_never_headline_witness:
  "let c = plain_catalog [plain_vuln ''A'' []]; v = plain_vuln ''A'' []; s = [sample_callback True] in
     share s c [] (v_id v) \<noteq> []
     \<and> \<not> oc_trigger (score_vuln v s (share s c [] (v_id v)))
     \<and> (oc_trigger_any (score_vuln v s (share s c [] (v_id v))) \<longleftrightarrow> share s c [] (v_id v) \<noteq> [])"
  unfolding Let_def
  by (rule conjI, code_simp, rule weak_callbacks_never_headline) code_simp+

text \<open>The same callback without the flag is proof.\<close>

lemma strong_callback_triggers:
  "let c = plain_catalog [plain_vuln ''A'' []]; v = plain_vuln ''A'' []; s = [sample_callback False] in
     oc_trigger (score_vuln v s (share s c [] (v_id v)))"
  by code_simp

lemma value_differs_reported_witness:
  "let p = \<lparr>p_name = ''q'', p_location = ''query'', p_sha256 = Some (sha256_of ''x''), p_len = Some 1,
            p_sample = Some ''x''\<rparr> in
     (value_differs (Some ''x'') p \<longleftrightarrow> sha256_of ''x'' \<noteq> sha256_of ''x'') \<and> (value_differs None p \<longleftrightarrow> ''x'' \<noteq> [])"
  unfolding Let_def
  by (rule value_differs_reported) (simp add: reports_def)

end
