(* ===== verification/Score_Run.thy ===== *)
theory Score_Run
  imports Score_Verdicts
begin

text \<open>
  \<open>platform/benchctl/src/benchctl/scoring.py\<close>, second part: recalls over groups of the catalog,
  crawl coverage, prerequisite chains, and \<open>score_run\<close> with its scope and warnings. Left out of
  the score document: the texts of warnings, the generation time, the digest and the legend.
\<close>

section \<open>Recalls\<close>

datatype axis = Reach | Exercise | TriggerAxis | TriggerAny

definition AXES :: "axis list" where
  "AXES = [Reach, Exercise, TriggerAxis, TriggerAny]"

type_synonym outcomes = "(string, outcome) dict"

definition axis_of :: "axis \<Rightarrow> outcome \<Rightarrow> bool option" where
  "axis_of a out =
     (case a of Reach \<Rightarrow> Some (oc_reach out) | Exercise \<Rightarrow> oc_exercise out
      | TriggerAxis \<Rightarrow> Some (oc_trigger out) | TriggerAny \<Rightarrow> Some (oc_trigger_any out))"

definition outcome_of :: "outcomes \<Rightarrow> vuln \<Rightarrow> outcome" where
  "outcome_of outs v = the (dict_get outs (v_id v))"

record cell =
  cl_hit :: nat
  cl_applicable :: nat
  cl_recall :: "rat option"

definition ratio :: "nat \<Rightarrow> nat \<Rightarrow> rat option" where
  "ratio n d = (if d = 0 then None else Some (of_nat n / of_nat d))"

definition cell_of :: "axis \<Rightarrow> vuln list \<Rightarrow> outcomes \<Rightarrow> cell" where
  "cell_of a vs outs =
     (let values = List.map_filter (\<lambda>v. axis_of a (outcome_of outs v)) vs;
          hit = length (filter (\<lambda>b. b) values)
      in \<lparr>cl_hit = hit, cl_applicable = length values, cl_recall = ratio hit (length values)\<rparr>)"

record metric =
  mt_vulns :: nat
  mt_axes :: "(axis, cell) dict"

definition metric_of :: "vuln list \<Rightarrow> outcomes \<Rightarrow> metric" where
  "metric_of vs outs = \<lparr>mt_vulns = length vs, mt_axes = map (\<lambda>a. (a, cell_of a vs outs)) AXES\<rparr>"

definition unspecified :: "string option \<Rightarrow> string" where
  "unspecified k = (case k of None \<Rightarrow> ''unspecified'' | Some s \<Rightarrow> s)"

definition group :: "vuln list \<Rightarrow> outcomes \<Rightarrow> (vuln \<Rightarrow> string option) \<Rightarrow> (string, metric) dict" where
  "group vs outs key =
     sort_key fst (map (\<lambda>(k, b). (k, metric_of b outs)) (bucket_all (\<lambda>v. unspecified (key v)) vs))"

definition group_multi :: "vuln list \<Rightarrow> outcomes \<Rightarrow> (vuln \<Rightarrow> string list) \<Rightarrow> (string, metric) dict" where
  "group_multi vs outs key =
     (let pairs = concat (map (\<lambda>v. map (\<lambda>k. (k, v)) (if key v = [] then [''none''] else key v)) vs) in
      sort_key fst (map (\<lambda>(k, b). (k, metric_of (map snd b) outs)) (bucket_all fst pairs)))"

section \<open>Crawl coverage\<close>

record observed =
  os_routes :: "(string \<times> string \<times> string) list"
  os_with_host :: "(string \<times> string \<times> string \<times> string) list"
  os_any_route :: "(string \<times> string \<times> string) list"
  os_hosts_reported :: bool

definition is_covered :: "route_entry \<Rightarrow> observed \<Rightarrow> bool" where
  "is_covered e obs = (e_key e \<in> set (os_with_host obs) \<or> route_only_key e \<in> set (os_routes obs))"

record coverage =
  cov_routes :: nat
  cov_covered :: nat
  cov_coverage :: "rat option"

definition coverage_block :: "route_entry list \<Rightarrow> observed \<Rightarrow> coverage" where
  "coverage_block entries obs =
     (let covered = length (filter (\<lambda>e. is_covered e obs) entries) in
      \<lparr>cov_routes = length entries, cov_covered = covered, cov_coverage = ratio covered (length entries)\<rparr>)"

definition observe_step ::
  "(string, inventory) dict \<Rightarrow> observed \<Rightarrow> event \<times> http_event \<Rightarrow> observed" where
  "observe_step selected obs eh =
     (let app = str_or (ev_app (fst eh)) []; m = upper (h_method (snd eh));
          route = normalize_route (h_route (snd eh)); key = (app, m, route);
          vhost = (case dict_get selected app of None \<Rightarrow> None
                   | Some iv \<Rightarrow> if truthy (h_host (snd eh)) then resolve_host iv (h_host (snd eh)) else None);
          obs1 = obs\<lparr>os_any_route := List.insert key (os_any_route obs)\<rparr>
      in if truthy vhost
         then obs1\<lparr>os_hosts_reported := True,
                   os_with_host := List.insert (app, the vhost, m, route) (os_with_host obs1)\<rparr>
         else obs1\<lparr>os_routes := List.insert key (os_routes obs1)\<rparr>)"

definition observe :: "(string, inventory) dict \<Rightarrow> stream \<Rightarrow> observed" where
  "observe selected s =
     foldl (observe_step selected)
       \<lparr>os_routes = [], os_with_host = [], os_any_route = [], os_hosts_reported = False\<rparr> (requests s)"

record crawl =
  cr_available :: bool
  cr_apps :: "string list"
  cr_host_aware :: bool
  cr_hosts :: "string list"
  cr_ambiguous :: nat
  cr_surface :: coverage
  cr_planted :: coverage
  cr_safe :: coverage
  cr_by_app :: "(string, coverage) dict"
  cr_by_host :: "(string, coverage) dict"
  cr_by_render :: "(string, coverage) dict"
  cr_by_auth :: "(string, coverage) dict"
  cr_planted_reach :: cell
  cr_off_inventory :: nat
  cr_unvisited :: "route_entry list"

definition coverage_group ::
  "route_entry list \<Rightarrow> observed \<Rightarrow> (route_entry \<Rightarrow> string option) \<Rightarrow> (string, coverage) dict" where
  "coverage_group routes obs key =
     sort_key fst (map (\<lambda>(k, b). (k, coverage_block b obs)) (bucket_all (\<lambda>e. unspecified (key e)) routes))"

definition crawl_coverage ::
  "(string, inventory) dict \<Rightarrow> stream \<Rightarrow> cell \<Rightarrow> string list \<Rightarrow> crawl" where
  "crawl_coverage invs s planted_reach apps =
     (let selected = filter (\<lambda>(a, _). apps = [] \<or> a \<in> set apps) invs;
          obs = observe selected s;
          routes = concat (map (\<lambda>(_, iv). iv_routes iv) selected);
          known = map route_only_key routes;
          off = (if selected = [] then 0
                 else length (filter (\<lambda>k. k \<notin> set known) (os_any_route obs)));
          collapsed = map (\<lambda>(_, es). length es) (bucket_all route_only_key routes)
      in \<lparr>cr_available = (selected \<noteq> []), cr_apps = sort (map fst selected),
          cr_host_aware = os_hosts_reported obs,
          cr_hosts = sorted_set (concat (map (\<lambda>(_, iv). inv_hosts iv) selected)),
          cr_ambiguous = sum_list (filter (\<lambda>n. n > 1) collapsed),
          cr_surface = coverage_block routes obs,
          cr_planted = coverage_block (filter (\<lambda>e. e_status e = ''planted'') routes) obs,
          cr_safe = coverage_block (filter (\<lambda>e. e_status e \<noteq> ''planted'') routes) obs,
          cr_by_app = coverage_group routes obs (\<lambda>e. Some (e_app e)),
          cr_by_host = coverage_group routes obs e_host,
          cr_by_render = coverage_group routes obs e_render,
          cr_by_auth = coverage_group routes obs (\<lambda>e. Some (e_auth e)),
          cr_planted_reach = planted_reach, cr_off_inventory = off,
          cr_unvisited = filter (\<lambda>e. \<not> is_covered e obs)
            (sort_key (\<lambda>e. (e_app e, e_route_key e, e_method e)) routes)\<rparr>)"

section \<open>Chains\<close>

record chains =
  ch_max_depth :: nat
  ch_histogram :: "(nat \<times> nat) list"
  ch_by_depth :: "(string, metric) dict"
  ch_chained :: nat
  ch_completed :: nat
  ch_broken :: "(string \<times> string list) list"

definition missing_prereqs :: "catalog \<Rightarrow> outcomes \<Rightarrow> vuln \<Rightarrow> string list" where
  "missing_prereqs c outs v =
     filter (\<lambda>p. case dict_get outs p of None \<Rightarrow> False | Some out \<Rightarrow> \<not> oc_trigger out)
       (transitive_prereqs c (v_id v))"

definition chain_stats :: "catalog \<Rightarrow> vuln list \<Rightarrow> outcomes \<Rightarrow> chains" where
  "chain_stats c vs outs =
     (let depths = foldl (\<lambda>d v. dict_set (v_id v) (prereq_depth c (v_id v) []) d) [] vs;
          ds = map snd depths;
          chained = filter (\<lambda>v. v_prereq v \<noteq> []) vs;
          exploited = filter (\<lambda>v. oc_trigger (outcome_of outs v)) chained
      in \<lparr>ch_max_depth = foldr max ds 0,
          ch_histogram = map (\<lambda>d. (d, count_list ds d)) (sorted_set ds),
          ch_by_depth = group vs outs (\<lambda>v. map_option dec_digits (dict_get depths (v_id v))),
          ch_chained = length chained,
          ch_completed = length (filter (\<lambda>v. missing_prereqs c outs v = []) exploited),
          ch_broken = List.map_filter (\<lambda>v. let m = missing_prereqs c outs v in
            if m = [] then None else Some (v_id v, m)) exploited\<rparr>)"

section \<open>A run\<close>

datatype scope_source = ScopeGiven string | ScopeEvents | ScopeCatalog

definition score_scope :: "catalog \<Rightarrow> stream \<Rightarrow> string list \<Rightarrow> string option \<Rightarrow> string list \<times> scope_source" where
  "score_scope c scored_stream apps source =
     (if apps \<noteq> [] then
        (let known = filter (\<lambda>a. a \<in> set (catalog_apps c)) apps in
         (if known \<noteq> [] then known else apps, ScopeGiven (str_or source ''explicit'')))
      else
        (let seen = filter (\<lambda>a. a \<in> set (catalog_apps c))
                (sorted_set (List.map_filter (\<lambda>e. if truthy (ev_app e) then ev_app e else None) scored_stream))
         in if seen \<noteq> [] then (seen, ScopeEvents) else (catalog_apps c, ScopeCatalog)))"

definition run_outcomes :: "vuln list \<Rightarrow> stream \<Rightarrow> (string, attribution list) dict \<Rightarrow> outcomes" where
  "run_outcomes in_scope s by_vuln =
     foldl (\<lambda>d v. dict_set (v_id v)
        (score_vuln v s (case dict_get by_vuln (v_id v) of None \<Rightarrow> [] | Some xs \<Rightarrow> xs)) d) [] in_scope"

type_synonym warning = "string \<times> string option"

definition vuln_warnings :: "outcome \<Rightarrow> warning list" where
  "vuln_warnings out =
     (if oc_inferred out then [(''trigger-without-reach'', Some (oc_vuln_id out))] else []) @
     (if oc_trigger out \<and> oc_exercise out = Some False
      then [(''trigger-without-exercise'', Some (oc_vuln_id out))] else []) @
     (if oc_low out \<and> \<not> oc_trigger out then [(''low-confidence-trigger'', Some (oc_vuln_id out))] else [])"

definition unknown_ids :: "catalog \<Rightarrow> stream \<Rightarrow> string list" where
  "unknown_ids c s =
     sorted_set (filter (\<lambda>i. i \<noteq> [] \<and> dict_get (by_id c) i = None)
       (map (\<lambda>et. t_vuln_id (snd et)) (triggers s)))"

definition unknown_signals :: "catalog \<Rightarrow> stream \<Rightarrow> string list" where
  "unknown_signals c s =
     sorted_set (filter (\<lambda>x. x \<noteq> [] \<and> dict_get (by_signal c) x = None)
       (List.map_filter (\<lambda>et. t_signal (snd et)) (triggers s)))"

definition mode_warnings :: "scan_mode option \<Rightarrow> warning list" where
  "mode_warnings mode =
     (case mode of
        None \<Rightarrow> [(''scan-mode-unknown'', None)]
      | Some m \<Rightarrow>
          if sm_active m = Some False
            \<or> lower (str_or (sm_mode m) []) \<in> {''passive'', ''baseline'', ''spider'', ''crawl''}
          then [(''passive-scan-mode'', None)] else [])"

definition scope_warnings :: "scope_source \<Rightarrow> nat \<Rightarrow> warning list" where
  "scope_warnings src n =
     (case src of
        ScopeCatalog \<Rightarrow> if 1 < n then [(''unscoped-run'', None)] else []
      | ScopeEvents \<Rightarrow> [(''scope-derived-from-events'', None)]
      | ScopeGiven s \<Rightarrow>
          if s = ''catalog'' \<and> 1 < n then [(''unscoped-run'', None)]
          else if s = ''events'' then [(''scope-derived-from-events'', None)] else [])"

definition record_warnings :: "run_record \<Rightarrow> warning list" where
  "record_warnings r =
     (if rr_containers r = [] then [(''missing-container-map'', None)] else []) @
     map (\<lambda>_. (''reset-digest-mismatch'', None))
       (filter (\<lambda>(app, d). rs_match d = Some False) (rr_reset r)) @
     (if rr_images r = [] \<or> rr_reset r = [] then [(''incomplete-run-record'', None)] else [])"

definition run_warnings ::
  "catalog \<Rightarrow> vuln list \<Rightarrow> outcomes \<Rightarrow> stream \<Rightarrow> run_record \<Rightarrow> scope_source \<Rightarrow> attribution list \<Rightarrow>
   warning list" where
  "run_warnings c in_scope outs s rec src orphans =
     concat (map (\<lambda>v. vuln_warnings (outcome_of outs v)) in_scope) @
     map (\<lambda>i. (''unknown-trigger-id'', Some i)) (unknown_ids c s) @
     map (\<lambda>_. (''unknown-signal'', None)) (unknown_signals c s) @
     mode_warnings (rr_scan_mode rec) @
     scope_warnings src (length (catalog_apps c)) @
     record_warnings rec @
     map (\<lambda>_. (''unattributed-oob'', None)) orphans"

record metrics =
  ms_overall :: metric
  ms_by_app :: "(string, metric) dict"
  ms_by_owasp :: "(string, (string, metric) dict) dict"
  ms_by_family :: "(string, metric) dict"
  ms_by_class :: "(string, metric) dict"
  ms_by_severity :: "(string, metric) dict"
  ms_by_render :: "(string, metric) dict"
  ms_by_difficulty :: "(string, metric) dict"
  ms_by_auth :: "(string, metric) dict"
  ms_by_requires :: "(string, metric) dict"
  ms_by_component :: "(string, metric) dict"
  ms_by_oracle_kind :: "(string, metric) dict"

definition run_metrics :: "catalog \<Rightarrow> vuln list \<Rightarrow> outcomes \<Rightarrow> metrics" where
  "run_metrics c vs outs =
     \<lparr>ms_overall = metric_of vs outs,
      ms_by_app = group vs outs (\<lambda>v. Some (v_app v)),
      ms_by_owasp = map (\<lambda>e. (e, group vs outs (\<lambda>v. owasp_for v e)))
        (sort (map fst (t_editions (c_taxonomy c)))),
      ms_by_family = group vs outs v_family,
      ms_by_class = group vs outs (\<lambda>v. Some (v_cls v)),
      ms_by_severity = group vs outs (\<lambda>v. Some (v_severity v)),
      ms_by_render = group vs outs (\<lambda>v. d_render (v_discovery v)),
      ms_by_difficulty = group vs outs (\<lambda>v. map_option int_text (d_difficulty (v_discovery v))),
      ms_by_auth = group vs outs (\<lambda>v. Some (ep_auth (v_entrypoint v))),
      ms_by_requires = group_multi vs outs (\<lambda>v. d_requires (v_discovery v)),
      ms_by_component = group vs outs (\<lambda>v. Some (v_component v)),
      ms_by_oracle_kind = group vs outs (\<lambda>v. Some (o_kind (v_oracle v)))\<rparr>"

record low_block =
  lb_count :: nat
  lb_only_here :: "string list"
  lb_ids :: "string list"
  lb_headline :: cell
  lb_inclusive :: cell
  lb_attributions :: "attribution list"
  lb_unattributed :: "attribution list"

definition low_confidence_block ::
  "vuln list \<Rightarrow> outcomes \<Rightarrow> attribution list \<Rightarrow> low_block" where
  "low_confidence_block vs outs orphans =
     (let low = filter (\<lambda>v. oc_low (outcome_of outs v)) vs in
      \<lparr>lb_count = length low,
       lb_only_here = sort (map v_id (filter (\<lambda>v. \<not> oc_trigger (outcome_of outs v)) low)),
       lb_ids = sort (map v_id low),
       lb_headline = cell_of TriggerAxis vs outs, lb_inclusive = cell_of TriggerAny vs outs,
       lb_attributions = filter (\<lambda>a. at_confidence a \<noteq> High)
         (concat (map (\<lambda>v. oc_attributions (outcome_of outs v)) (sort_key v_id vs))),
       lb_unattributed = orphans\<rparr>)"

record score_doc =
  sd_record :: run_record
  sd_targets :: "string list"
  sd_scope :: "string list"
  sd_source :: scope_source
  sd_catalog_apps :: "string list"
  sd_in_scope :: nat
  sd_total :: nat
  sd_errors :: nat
  sd_warning_count :: nat
  sd_counts :: "(string, nat) dict"
  sd_metrics :: metrics
  sd_crawl :: crawl
  sd_low :: low_block
  sd_chains :: chains
  sd_vulns :: "(vuln \<times> outcome) list"
  sd_warnings :: "warning list"

definition score_run ::
  "catalog \<Rightarrow> stream \<Rightarrow> obj \<Rightarrow> string list \<Rightarrow> string option \<Rightarrow> (string, inventory) dict \<Rightarrow> score_doc" where
  "score_run c s run apps source invs =
     (let ss = scored s;
          sc = score_scope c ss apps source;
          in_scope = filter (\<lambda>v. v_app v \<in> set (fst sc)) (c_vulns c);
          rec = normalize_run_record run;
          att = attribute_oob_events ss c (address_index (rr_containers rec));
          outs = run_outcomes in_scope ss (fst att);
          targets = map jstr (jiter (jget run ''targets''))
      in \<lparr>sd_record = rec,
          sd_targets = (if targets \<noteq> [] then targets else if fst sc \<noteq> [] then fst sc else catalog_apps c),
          sd_scope = fst sc, sd_source = snd sc, sd_catalog_apps = catalog_apps c,
          sd_in_scope = length in_scope, sd_total = length (c_vulns c),
          sd_errors = length (catalog_errors c), sd_warning_count = length (catalog_warnings c),
          sd_counts = counts s,
          sd_metrics = run_metrics c in_scope outs,
          sd_crawl = crawl_coverage invs ss (cell_of Reach in_scope outs) (fst sc),
          sd_low = low_confidence_block in_scope outs (snd att),
          sd_chains = chain_stats c in_scope outs,
          sd_vulns = map (\<lambda>v. (v, outcome_of outs v)) (sort_key v_id in_scope),
          sd_warnings = run_warnings c in_scope outs ss rec (snd sc) (snd att)\<rparr>)"

end
