(* ===== verification/Score_Facts.thy ===== *)
theory Score_Facts
  imports Score_Run
begin

text \<open>
  What a score document guarantees: rows are the verdicts of \<open>score_vuln\<close>, recalls are ordered
  and bounded, every grouping partitions the overall figures, planted and safe coverage add up,
  and synthetic traffic changes nothing but the event counts.
\<close>

section \<open>The outcomes of a run\<close>

lemma run_outcomes_get:
  assumes "inj_on v_id (set vs)" and "v \<in> set vs"
  shows "dict_get (run_outcomes vs s by_vuln) (v_id v)
    = Some (score_vuln v s (case dict_get by_vuln (v_id v) of None \<Rightarrow> [] | Some xs \<Rightarrow> xs))"
  using assms
proof (induction vs rule: rev_induct)
  case (snoc w vs)
  have step: "run_outcomes (vs @ [w]) s by_vuln = dict_set (v_id w)
      (score_vuln w s (case dict_get by_vuln (v_id w) of None \<Rightarrow> [] | Some xs \<Rightarrow> xs)) (run_outcomes vs s by_vuln)"
    by (simp add: run_outcomes_def)
  show ?case
  proof (cases "v_id v = v_id w")
    case True
    then have "v = w" using inj_onD [OF snoc.prems(1) True snoc.prems(2)] by simp
    then show ?thesis by (simp add: step)
  next
    case False
    then have "v \<in> set vs" using snoc.prems(2) by auto
    moreover have "inj_on v_id (set vs)" using snoc.prems(1) by (simp add: inj_on_def)
    ultimately show ?thesis using snoc.IH False by (simp add: step)
  qed
qed simp

abbreviation doc_addresses :: "obj \<Rightarrow> (string, string) dict" where
  "doc_addresses run \<equiv> address_index (rr_containers (normalize_run_record run))"

text \<open>C5: the rows of a score document are exactly the vulnerabilities of the apps in scope, each
  with the verdict of \<open>score_vuln\<close> over the unsynthetic events and its share of the attributed
  callbacks (catalog ids distinct, as a clean load guarantees).\<close>

theorem score_run_rows:
  assumes "distinct (map v_id (c_vulns c))"
  shows "set (sd_vulns (score_run c s run apps source invs)) =
    (\<lambda>v. (v, score_vuln v (scored s) (share (scored s) c (doc_addresses run) (v_id v)))) `
      {v \<in> set (c_vulns c). v_app v \<in> set (sd_scope (score_run c s run apps source invs))}"
proof -
  let ?sc = "score_scope c (scored s) apps source"
  let ?vs = "filter (\<lambda>v. v_app v \<in> set (fst ?sc)) (c_vulns c)"
  let ?by = "fst (attribute_oob_events (scored s) c (doc_addresses run))"
  have inj: "inj_on v_id (set ?vs)" using assms by (auto simp: distinct_map inj_on_def)
  have "outcome_of (run_outcomes ?vs (scored s) ?by) v
      = score_vuln v (scored s) (share (scored s) c (doc_addresses run) (v_id v))" if "v \<in> set ?vs" for v
    using run_outcomes_get [OF inj that] by (simp add: outcome_of_def share_def)
  then have "(\<lambda>v. (v, outcome_of (run_outcomes ?vs (scored s) ?by) v)) ` set ?vs =
      (\<lambda>v. (v, score_vuln v (scored s) (share (scored s) c (doc_addresses run) (v_id v)))) ` set ?vs"
    by (intro image_cong) auto
  then show ?thesis by (simp add: score_run_def Let_def)
qed

definition plain_event :: "event_kind \<Rightarrow> event" where
  "plain_event k =
     \<lparr>ev_type = ''x'', ev_app = Some ''shop'', ev_ts = Some 3, ev_synthetic = False, ev_seq = None,
      ev_raw = [], ev_kind = k\<rparr>"

abbreviation plain_request :: event where
  "plain_request \<equiv> plain_event (HttpRequest
     \<lparr>h_method = ''get'', h_route = ''/items/:id'', h_host = None, h_path = None, h_status = None,
      h_auth_subject = None, h_params = []\<rparr>)"

abbreviation plain_trigger :: event where
  "plain_trigger \<equiv> plain_event (Trigger \<lparr>t_vuln_id = [], t_signal = Some ''sig-B'', t_evidence = []\<rparr>)"

abbreviation two_vulns :: catalog where
  "two_vulns \<equiv> plain_catalog [plain_vuln ''A'' [], plain_vuln ''B'' [''A'']]"

lemma score_run_rows_witness:
  "length (sd_vulns (score_run two_vulns [plain_request, plain_trigger] [] [] None [])) = 2
   \<and> set (sd_vulns (score_run two_vulns [plain_request, plain_trigger] [] [] None [])) =
    (\<lambda>v. (v, score_vuln v (scored [plain_request, plain_trigger])
        (share (scored [plain_request, plain_trigger]) two_vulns (doc_addresses []) (v_id v)))) `
      {v \<in> set (c_vulns two_vulns).
        v_app v \<in> set (sd_scope (score_run two_vulns [plain_request, plain_trigger] [] [] None []))}"
  by (rule conjI, code_simp, rule score_run_rows) code_simp

section \<open>Recalls\<close>

lemma length_map_filter_le: "length (List.map_filter f xs) \<le> length xs"
  by (simp add: List.map_filter_def)

lemma ratio_unit: "n \<le> d \<Longrightarrow> ratio n d = Some r \<Longrightarrow> 0 \<le> r \<and> r \<le> 1"
  by (auto simp: ratio_def divide_le_eq split: if_splits)

text \<open>On every axis, hits are at most the applicable entries, those at most the entries; the
  recall is absent exactly when nothing is applicable and lies between 0 and 1 otherwise.\<close>

theorem cell_bounds:
  "let m = cell_of a vs outs in
     cl_hit m \<le> cl_applicable m \<and> cl_applicable m \<le> length vs
   \<and> (cl_recall m = None \<longleftrightarrow> cl_applicable m = 0)
   \<and> 0 \<le> get_or (cl_recall m) 0 \<and> get_or (cl_recall m) 0 \<le> 1"
proof -
  let ?m = "cell_of a vs outs"
  have h: "cl_hit ?m \<le> cl_applicable ?m" by (simp add: cell_of_def Let_def)
  moreover have "cl_applicable ?m \<le> length vs" by (simp add: cell_of_def Let_def length_map_filter_le)
  moreover have r: "cl_recall ?m = ratio (cl_hit ?m) (cl_applicable ?m)" by (simp add: cell_of_def Let_def)
  moreover have "0 \<le> get_or (cl_recall ?m) 0 \<and> get_or (cl_recall ?m) 0 \<le> 1"
    using ratio_unit [OF h] unfolding r by (cases "ratio (cl_hit ?m) (cl_applicable ?m)") (auto simp: get_or_def)
  ultimately show ?thesis by (simp add: Let_def ratio_def)
qed

lemma cell_hit_eq: "cl_hit (cell_of a vs outs) = length (filter (\<lambda>v. axis_of a (outcome_of outs v) = Some True) vs)"
  by (induction vs) (auto simp: cell_of_def Let_def map_filter_simps split: option.splits)

lemma length_filter_mono:
  "(\<And>x. x \<in> set xs \<Longrightarrow> P x \<Longrightarrow> Q x) \<Longrightarrow> length (filter P xs) \<le> length (filter Q xs)"
  by (induction xs) auto

text \<open>In the overall figures of a run proof never exceeds reach nor the inclusive trigger, and
  exercise never exceeds reach.\<close>

theorem overall_recalls_ordered:
  assumes "distinct (map v_id (c_vulns c))"
  shows "let hit = (\<lambda>a. cl_hit (the (dict_get (mt_axes (ms_overall (sd_metrics
             (score_run c s run apps source invs)))) a))) in
      hit TriggerAxis \<le> hit Reach \<and> hit TriggerAxis \<le> hit TriggerAny \<and> hit Exercise \<le> hit Reach"
proof -
  let ?sc = "score_scope c (scored s) apps source"
  let ?vs = "filter (\<lambda>v. v_app v \<in> set (fst ?sc)) (c_vulns c)"
  let ?outs = "run_outcomes ?vs (scored s) (fst (attribute_oob_events (scored s) c (doc_addresses run)))"
  have inj: "inj_on v_id (set ?vs)" using assms by (auto simp: distinct_map inj_on_def)
  have hits: "cl_hit (the (dict_get (mt_axes (ms_overall (sd_metrics
      (score_run c s run apps source invs)))) a)) = cl_hit (cell_of a ?vs ?outs)" for a
    by (cases a) (simp_all add: score_run_def Let_def run_metrics_def metric_of_def AXES_def)
  have out: "\<exists>atts. outcome_of ?outs v = score_vuln v (scored s) atts" if "v \<in> set ?vs" for v
    using run_outcomes_get [OF inj that] by (auto simp: outcome_of_def)
  have tr: "oc_trigger (outcome_of ?outs v) \<longrightarrow> oc_reach (outcome_of ?outs v)"
    and ex: "oc_exercise (outcome_of ?outs v) = Some True \<longrightarrow> oc_reach (outcome_of ?outs v)"
    if "v \<in> set ?vs" for v
    using out [OF that] exercise_needs_reach [of v "scored s"]
    by (auto simp: score_folds reached_def)
  show ?thesis
    unfolding Let_def hits cell_hit_eq
    by (intro conjI length_filter_mono)
       (use tr ex in \<open>auto simp: axis_of_def oc_trigger_any_def\<close>)
qed

lemma overall_recalls_ordered_witness:
  "let hit = (\<lambda>a. cl_hit (the (dict_get (mt_axes (ms_overall (sd_metrics
             (score_run two_vulns [plain_request, plain_trigger] [] [] None [])))) a))) in
      (hit TriggerAxis = 1 \<and> hit Reach = 2)
      \<and> hit TriggerAxis \<le> hit Reach \<and> hit TriggerAxis \<le> hit TriggerAny \<and> hit Exercise \<le> hit Reach"
  unfolding Let_def
  by (rule conjI, code_simp,
      rule overall_recalls_ordered [of two_vulns "[plain_request, plain_trigger]" "[]" "[]" None "[]",
        unfolded Let_def]) code_simp

section \<open>Groups\<close>

lemma sum_buckets:
  fixes f :: "'a list \<Rightarrow> nat"
  assumes app: "\<And>xs ys. f (xs @ ys) = f xs + f ys" and nil: "f [] = 0"
  shows "sum_list (map (\<lambda>(k, b). f b) (bucket_all key xs)) = f xs"
proof (induction xs rule: rev_induct)
  case Nil
  then show ?case by (simp add: bucket_all_def nil)
next
  case (snoc x xs)
  have upd: "dict_ok d \<Longrightarrow> dict_get d k = Some vs \<Longrightarrow>
      sum_list (map (\<lambda>(k, b). f b) (dict_set k (vs @ [x]) d)) = sum_list (map (\<lambda>(k, b). f b) d) + f [x]"
    for d k vs
  proof (induction d)
    case (Cons kv d)
    obtain k' b where kv: "kv = (k', b)" by (cases kv)
    show ?case
    proof (cases "k' = k")
      case True
      then have "b = vs" using Cons.prems(2) by (simp add: kv)
      then show ?thesis using True by (simp add: kv dict_set_def app)
    next
      case False
      then show ?thesis using Cons by (simp add: kv dict_set_def dict_ok_def)
    qed
  qed simp
  show ?case
  proof (cases "dict_get (bucket_all key xs) (key x)")
    case None
    then show ?thesis using snoc.IH by (simp add: bucket_all_snoc bucket_add_def app)
  next
    case (Some vs)
    then show ?thesis using snoc.IH upd [OF dict_ok_bucket_all Some] by (simp add: bucket_all_snoc bucket_add_def app)
  qed
qed

lemma sum_sort_key: "sum_list (map f (sort_key g xs)) = sum_list (map f xs)" for f :: "'a \<Rightarrow> nat"
  by (metis mset_map mset_sort sum_mset_sum_list)

lemma cell_append:
  "cl_hit (cell_of a (xs @ ys) outs) = cl_hit (cell_of a xs outs) + cl_hit (cell_of a ys outs)"
  "cl_applicable (cell_of a (xs @ ys) outs) = cl_applicable (cell_of a xs outs) + cl_applicable (cell_of a ys outs)"
  "cl_hit (cell_of a [] outs) = 0" "cl_applicable (cell_of a [] outs) = 0"
  by (simp_all add: cell_of_def Let_def List.map_filter_def)

definition axis_cell :: "axis \<Rightarrow> metric \<Rightarrow> cell" where
  "axis_cell a m = the (dict_get (mt_axes m) a)"

lemma axis_cell_metric: "axis_cell a (metric_of vs outs) = cell_of a vs outs"
  by (cases a) (simp_all add: axis_cell_def metric_of_def AXES_def)

lemma sum_group:
  fixes f :: "metric \<Rightarrow> nat"
  assumes "\<And>xs ys. f (metric_of (xs @ ys) outs) = f (metric_of xs outs) + f (metric_of ys outs)"
    and "f (metric_of [] outs) = 0"
  shows "sum_list (map (\<lambda>(k, m). f m) (group vs outs key)) = f (metric_of vs outs)"
  using sum_buckets [of "\<lambda>b. f (metric_of b outs)" "\<lambda>v. unspecified (key v)" vs] assms
  by (simp add: group_def sum_sort_key comp_def case_prod_unfold)

text \<open>Every grouping of a score partitions the overall figures: entries, applicable entries and
  hits of its buckets add up to those of the whole, on every axis.\<close>

theorem group_partitions:
  "sum_list (map (\<lambda>(k, m). mt_vulns m) (group vs outs key)) = length vs
   \<and> sum_list (map (\<lambda>(k, m). cl_hit (axis_cell a m)) (group vs outs key)) = cl_hit (cell_of a vs outs)
   \<and> sum_list (map (\<lambda>(k, m). cl_applicable (axis_cell a m)) (group vs outs key))
       = cl_applicable (cell_of a vs outs)"
  using sum_group [of mt_vulns outs vs key]
    sum_group [of "\<lambda>m. cl_hit (axis_cell a m)" outs vs key]
    sum_group [of "\<lambda>m. cl_applicable (axis_cell a m)" outs vs key]
  by (simp add: axis_cell_metric cell_append) (simp add: metric_of_def)

section \<open>Crawl coverage\<close>

lemma coverage_split:
  "cov_routes (coverage_block (filter P es) obs) + cov_routes (coverage_block (filter (\<lambda>e. \<not> P e) es) obs)
     = cov_routes (coverage_block es obs)
   \<and> cov_covered (coverage_block (filter P es) obs) + cov_covered (coverage_block (filter (\<lambda>e. \<not> P e) es) obs)
     = cov_covered (coverage_block es obs)"
  by (induction es) (auto simp: coverage_block_def Let_def)

text \<open>Planted and safe coverage add up to the coverage of the surface, and the unvisited rows
  are the rest of it.\<close>

theorem crawl_coverage_adds_up:
  "let cr = crawl_coverage invs s r apps in
     cov_routes (cr_planted cr) + cov_routes (cr_safe cr) = cov_routes (cr_surface cr)
   \<and> cov_covered (cr_planted cr) + cov_covered (cr_safe cr) = cov_covered (cr_surface cr)
   \<and> cov_covered (cr_surface cr) + length (cr_unvisited cr) = cov_routes (cr_surface cr)"
proof -
  have unv: "length (filter P (sort_key k es)) = length (filter P es)" for P :: "route_entry \<Rightarrow> bool" and k es
    by (metis filter_sort length_sort)
  show ?thesis
    using coverage_split [where P = "\<lambda>e. e_status e = ''planted''"]
    by (simp add: crawl_coverage_def Let_def coverage_block_def unv sum_length_filter_compl)
qed

section \<open>Synthetic traffic\<close>

lemma scored_idem [simp]: "scored (scored s) = scored s"
  by (simp add: scored_def)

text \<open>Synthetic events change the event counts of a score and nothing else: the rest of the
  document is that of the stream without them.\<close>

theorem synthetic_ignored:
  "score_run c s run apps source invs
     = (score_run c (scored s) run apps source invs)\<lparr>sd_counts := counts s\<rparr>"
  by (simp add: score_run_def Let_def)

section \<open>Chains\<close>

text \<open>Every exploited chain is either completed or reported as broken.\<close>

lemma chains_add_up:
  "ch_completed (chain_stats c vs outs) + length (ch_broken (chain_stats c vs outs))
     = length (filter (\<lambda>v. v_prereq v \<noteq> [] \<and> oc_trigger (outcome_of outs v)) vs)"
  by (induction vs) (auto simp: chain_stats_def Let_def map_filter_simps)

end
