(* ===== verification/Findings.thy ===== *)
theory Findings
  imports Inventory Json
begin

text \<open>
  \<open>platform/benchctl/src/benchctl/findings.py\<close>: judging a tool's report against the catalog and
  the route inventories. The loop of \<open>classify_findings\<close> is a fold of \<open>classify_step\<close>. A reason
  is kept as a short code instead of its sentence.
\<close>

section \<open>Findings\<close>

datatype verdict =
    TruePositive | FalsePositive | Duplicate | ParamMismatch | ClassMismatch | ClassUnknown | OutOfCatalog

definition AMBIGUOUS :: "verdict list" where
  "AMBIGUOUS = [ParamMismatch, ClassMismatch, ClassUnknown]"

fun rank :: "verdict \<Rightarrow> nat" where
  "rank TruePositive = 0"
| "rank ParamMismatch = 1"
| "rank ClassMismatch = 2"
| "rank ClassUnknown = 3"
| "rank _ = 4"

record finding =
  f_tool :: "string option"
  f_url :: string
  f_method :: "string option"
  f_param :: "string option"
  f_cwe :: "int list"
  f_name :: "string option"
  f_severity :: "string option"
  f_confidence :: "string option"
  f_app :: "string option"

definition f_path :: "finding \<Rightarrow> string" where
  "f_path f = path_from_url (f_url f)"

definition authority :: "finding \<Rightarrow> string option" where
  "authority f =
     (case split_once ''://'' (f_url f) of
        None \<Rightarrow> None | Some (_, rest) \<Rightarrow> falsy_none (before (CHR ''/'') rest))"

definition f_host :: "finding \<Rightarrow> string option" where
  "f_host f = normalize_host (authority f)"

definition ascii_digit :: "char \<Rightarrow> bool" where
  "ascii_digit c = (48 \<le> code c \<and> code c \<le> 57)"

definition first_number :: "string \<Rightarrow> int option" where
  "first_number s =
     (let ds = takeWhile ascii_digit (dropWhile (\<lambda>c. \<not> ascii_digit c) s) in
      if ds = [] then None else Some (foldl (\<lambda>n c. 10 * n + int (code c - 48)) 0 ds))"

definition cwe_item :: "json \<Rightarrow> int option" where
  "cwe_item j = (case j of JBool b \<Rightarrow> None | JInt n \<Rightarrow> Some n | _ \<Rightarrow> first_number (jstr j))"

definition dedupe_int :: "int list \<Rightarrow> int list" where
  "dedupe_int xs = rev (remdups (rev xs))"

definition parse_cwes :: "json \<Rightarrow> int list" where
  "parse_cwes v =
     (case v of
        JNull \<Rightarrow> []
      | JList items \<Rightarrow> dedupe_int (List.map_filter cwe_item items)
      | _ \<Rightarrow> dedupe_int (List.map_filter cwe_item [v]))"

definition finding_from_dict :: "obj \<Rightarrow> finding" where
  "finding_from_dict d =
     \<lparr>f_tool = str_field d ''tool'',
      f_url = (case dict_get d ''url'' of None \<Rightarrow> [] | Some u \<Rightarrow> jstr u),
      f_method = (if jtruthy (jget d ''method'') then Some (upper (jstr (jget d ''method''))) else None),
      f_param = (if truthy (str_field d ''param'') then str_field d ''param'' else None),
      f_cwe = parse_cwes (jget d ''cwe''),
      f_name = str_field d ''name'', f_severity = str_field d ''severity'',
      f_confidence = str_field d ''confidence'', f_app = str_field d ''app''\<rparr>"

definition load_findings :: "json \<Rightarrow> finding list" where
  "load_findings data =
     (let items = (case data of JObj d \<Rightarrow> jget d ''findings'' | _ \<Rightarrow> data) in
      map finding_from_dict (objects items))"

section \<open>Ground truth by class\<close>

definition catalog_cwes :: "catalog \<Rightarrow> int list" where
  "catalog_cwes c =
     concat (map (\<lambda>(_, sp). sp_cwe sp) (t_classes (c_taxonomy c))) @ concat (map v_cwe (c_vulns c))"

definition cwe_families :: "catalog \<Rightarrow> int \<Rightarrow> string list" where
  "cwe_families c cwe =
     List.map_filter (\<lambda>(_, sp).
       if truthy (sp_family sp) \<and> cwe \<in> set (sp_cwe sp) then sp_family sp else None) (t_classes (c_taxonomy c))"

definition resolve_app :: "finding \<Rightarrow> (string, string) dict \<Rightarrow> string option \<Rightarrow> string option" where
  "resolve_app f app_map default_app =
     (if truthy (f_app f) then f_app f
      else case authority f of
        None \<Rightarrow> default_app
      | Some auth \<Rightarrow>
          (let host = before (CHR '':'') auth in
           case dict_get app_map auth of
             Some a \<Rightarrow> Some a
           | None \<Rightarrow>
             (case dict_get app_map host of
                Some a \<Rightarrow> Some a
              | None \<Rightarrow>
                  if host \<notin> {''localhost'', ''127.0.0.1''} then or_str default_app (Some host)
                  else default_app)))"

definition judge :: "finding \<Rightarrow> vuln \<Rightarrow> (int \<Rightarrow> string list) \<Rightarrow> verdict \<times> string" where
  "judge f v fams =
     (if truthy (ep_param (v_entrypoint v)) \<and> truthy (f_param f)
         \<and> lower (the (f_param f)) \<noteq> lower (the (ep_param (v_entrypoint v)))
      then (ParamMismatch, ''param'')
      else if f_cwe f = [] then (ClassUnknown, ''no-cwe'')
      else if \<exists>x\<in>set (f_cwe f). x \<in> set (v_cwe v) then (TruePositive, ''exact-cwe'')
      else if truthy (v_family v) \<and> (\<exists>x\<in>set (f_cwe f). the (v_family v) \<in> set (fams x))
      then (TruePositive, ''cwe-family'')
      else (ClassMismatch, ''class''))"

definition fp_basis ::
  "finding \<Rightarrow> string option \<Rightarrow> (string, inventory) dict \<Rightarrow> string \<times> string option" where
  "fp_basis f app invs =
     (if f_cwe f = [] then (''finding-without-cwe'', None)
      else if invs = [] then (''no-inventory'', None)
      else
        let candidates = (if truthy app then
                (case dict_get invs (the app) of None \<Rightarrow> [] | Some iv \<Rightarrow> [iv]) else map snd invs)
        in case List.map_filter (\<lambda>iv. match_path iv (f_method f) (f_path f) (f_host f)) candidates of
             [] \<Rightarrow> (''unknown-route'', None)
           | e # _ \<Rightarrow>
               if contains ''{'' (e_route_key e) then (''inventory-pattern-route'', Some (e_status e))
               else if e_status e = STATUS_SAFE then (''inventory-safe-route'', Some (e_status e))
               else (''inventory-known-route'', Some (e_status e)))"

definition host_agrees :: "vuln \<Rightarrow> inventory option \<Rightarrow> string option \<Rightarrow> bool" where
  "host_agrees v iv resolved =
     (case (iv, resolved) of
        (Some i, Some h) \<Rightarrow>
          (let hosts = planted_hosts i (ep_method (v_entrypoint v)) (ep_path (v_entrypoint v)) in
           hosts = [] \<or> h \<in> set hosts)
      | _ \<Rightarrow> True)"

section \<open>Classification\<close>

record judge_context =
  cx_catalog :: catalog
  cx_in_scope :: "vuln list"
  cx_default_app :: "string option"
  cx_app_map :: "(string, string) dict"
  cx_invs :: "(string, inventory) dict"

definition make_context ::
  "catalog \<Rightarrow> (string, string) dict \<Rightarrow> string list \<Rightarrow> (string, inventory) dict \<Rightarrow> judge_context" where
  "make_context c app_map apps invs =
     (let vs = filter (\<lambda>v. apps = [] \<or> v_app v \<in> set apps) (c_vulns c);
          scope = sorted_set (map v_app vs)
      in \<lparr>cx_catalog = c, cx_in_scope = vs,
          cx_default_app = (case scope of [a] \<Rightarrow> Some a | _ \<Rightarrow> None),
          cx_app_map = app_map, cx_invs = invs\<rparr>)"

definition unplanted :: "judge_context \<Rightarrow> finding \<Rightarrow> int list" where
  "unplanted cx f = filter (\<lambda>x. x \<notin> set (catalog_cwes (cx_catalog cx))) (f_cwe f)"

definition unscoped :: "judge_context \<Rightarrow> finding \<Rightarrow> int list" where
  "unscoped cx f = filter (\<lambda>x. x \<notin> set (concat (map v_cwe (cx_in_scope cx)))) (f_cwe f)"

definition unscoreable :: "judge_context \<Rightarrow> finding \<Rightarrow> string option" where
  "unscoreable cx f =
     (if f_cwe f \<noteq> [] \<and> length (unplanted cx f) = length (f_cwe f) then Some ''unplanted-class''
      else if f_cwe f \<noteq> [] \<and> length (unscoped cx f) = length (f_cwe f) then Some ''unplanted-in-scope''
      else None)"

definition finding_app :: "judge_context \<Rightarrow> finding \<Rightarrow> string option" where
  "finding_app cx f = resolve_app f (cx_app_map cx) (cx_default_app cx)"

definition finding_inv :: "judge_context \<Rightarrow> finding \<Rightarrow> inventory option" where
  "finding_inv cx f =
     (if truthy (finding_app cx f) then dict_get (cx_invs cx) (the (finding_app cx f)) else None)"

definition host_match :: "judge_context \<Rightarrow> finding \<Rightarrow> string" where
  "host_match cx f =
     (case finding_inv cx f of
        None \<Rightarrow> ''no-inventory''
      | Some iv \<Rightarrow>
          if single_host iv then ''agnostic-single-host''
          else if truthy (resolve_host iv (f_host f)) then ''exact''
          else ''agnostic-host-unresolved'')"

definition finding_candidates :: "judge_context \<Rightarrow> finding \<Rightarrow> vuln list" where
  "finding_candidates cx f =
     (let app = finding_app cx f; iv = finding_inv cx f;
          resolved = (if host_match cx f = ''exact'' then resolve_host (the iv) (f_host f) else None)
      in filter (\<lambda>v. (\<not> truthy app \<or> v_app v = [] \<or> Some (v_app v) = app)
             \<and> (f_method f = None \<or> f_method f = Some (ep_method (v_entrypoint v)))
             \<and> route_matches_path (ep_path (v_entrypoint v)) (f_path f)
             \<and> host_agrees v iv resolved) (cx_in_scope cx))"

type_synonym best = "verdict \<times> string \<times> vuln option"

definition best_verdict_step :: "finding \<Rightarrow> (int \<Rightarrow> string list) \<Rightarrow> best \<Rightarrow> vuln \<Rightarrow> best" where
  "best_verdict_step f fams best v =
     (let j = judge f v fams in
      if rank (fst j) < rank (fst best) then (fst j, snd j, Some v) else best)"

definition best_verdict :: "judge_context \<Rightarrow> finding \<Rightarrow> best" where
  "best_verdict cx f =
     foldl (best_verdict_step f (cwe_families (cx_catalog cx))) (FalsePositive, ''no-location'', None)
       (finding_candidates cx f)"

record row =
  ro_finding :: finding
  ro_app :: "string option"
  ro_host_match :: string
  ro_verdict :: verdict
  ro_matched :: "string option"
  ro_kind :: "string option"
  ro_reason :: string
  ro_basis :: "string option"
  ro_status :: "string option"

record class_state =
  cs_claimed :: "(string option \<times> string) list"
  cs_rows :: "row list"
  cs_hits :: "(int, nat) dict"

definition count_hit :: "(int, nat) dict \<Rightarrow> int \<Rightarrow> (int, nat) dict" where
  "count_hit d cwe = dict_set cwe (get_or (dict_get d cwe) 0 + 1) d"

definition classify_step :: "judge_context \<Rightarrow> class_state \<Rightarrow> finding \<Rightarrow> class_state" where
  "classify_step cx st f =
     (let app = finding_app cx f; best = best_verdict cx f; kind = unscoreable cx f;
          row = (\<lambda>verdict matched kind reason basis status.
            \<lparr>ro_finding = f, ro_app = app, ro_host_match = host_match cx f, ro_verdict = verdict,
             ro_matched = matched, ro_kind = kind, ro_reason = reason, ro_basis = basis, ro_status = status\<rparr>)
      in if fst best \<noteq> TruePositive \<and> kind \<noteq> None then
           (let hits = (if unplanted cx f \<noteq> [] then unplanted cx f else unscoped cx f) in
            st\<lparr>cs_rows := cs_rows st @ [row OutOfCatalog None kind ''unscoreable'' None None],
               cs_hits := foldl count_hit (cs_hits st) hits\<rparr>)
         else
           let matched = map_option v_id (snd (snd best));
               fpb = (if fst best = FalsePositive then
                        (let b = fp_basis f app (cx_invs cx) in (Some (fst b), snd b)) else (None, None));
               reason = (if fst fpb = Some ''inventory-safe-route'' then ''safe-route''
                         else if fst fpb = Some ''inventory-known-route'' then ''known-route''
                         else fst (snd best))
           in case (fst best, matched) of
                (TruePositive, Some i) \<Rightarrow>
                  if (f_tool f, i) \<in> set (cs_claimed st)
                  then st\<lparr>cs_rows := cs_rows st @ [row Duplicate matched None ''reported'' None None]\<rparr>
                  else st\<lparr>cs_claimed := cs_claimed st @ [(f_tool f, i)],
                          cs_rows := cs_rows st @ [row TruePositive matched None reason None None]\<rparr>
              | _ \<Rightarrow> st\<lparr>cs_rows := cs_rows st @ [row (fst best) matched None reason (fst fpb) (snd fpb)]\<rparr>)"

definition classify_rows :: "judge_context \<Rightarrow> finding list \<Rightarrow> class_state" where
  "classify_rows cx fs = foldl (classify_step cx) \<lparr>cs_claimed = [], cs_rows = [], cs_hits = []\<rparr> fs"

record summary =
  su_total :: nat
  su_available :: bool
  su_tp :: nat
  su_fp :: nat
  su_confirmed_fp :: nat
  su_unknown_fp :: int
  su_ooc :: nat
  su_ooc_class :: nat
  su_ooc_scope :: nat
  su_ooc_by_cwe :: "(int, nat) dict"
  su_dup :: nat
  su_ambiguous :: nat
  su_precision_confirmed :: "rat option"
  su_precision :: "rat option"
  su_precision_conservative :: "rat option"
  su_dup_ratio :: "rat option"
  su_reported :: "string list"
  su_triggered_not_reported :: "string list"
  su_reported_not_triggered :: "string list"
  su_rows :: "row list"

definition count_verdict :: "verdict \<Rightarrow> row list \<Rightarrow> nat" where
  "count_verdict w rows = length (filter (\<lambda>r. ro_verdict r = w) rows)"

definition share_of :: "nat \<Rightarrow> nat \<Rightarrow> rat option" where
  "share_of num den = (if den = 0 then None else Some (of_nat num / of_nat den))"

definition classify_findings ::
  "catalog \<Rightarrow> finding list \<Rightarrow> (string \<times> bool) list \<Rightarrow> (string, string) dict \<Rightarrow> string list \<Rightarrow>
   (string, inventory) dict \<Rightarrow> summary" where
  "classify_findings c fs outcomes app_map apps invs =
     (let st = classify_rows (make_context c app_map apps invs) fs;
          rows = cs_rows st;
          tp = count_verdict TruePositive rows;
          fp = count_verdict FalsePositive rows;
          dup = count_verdict Duplicate rows;
          ambiguous = sum_list (map (\<lambda>w. count_verdict w rows) AMBIGUOUS);
          reported = sorted_set (List.map_filter (\<lambda>r.
             if truthy (ro_matched r) \<and> ro_verdict r \<in> {TruePositive, Duplicate} then ro_matched r else None) rows);
          triggered = map fst (filter snd outcomes);
          confirmed = length (filter (\<lambda>r. ro_verdict r = FalsePositive
             \<and> ro_basis r \<in> {Some ''inventory-safe-route'', Some ''inventory-known-route''}) rows)
      in \<lparr>su_total = length rows, su_available = (invs \<noteq> []), su_tp = tp, su_fp = fp,
          su_confirmed_fp = confirmed, su_unknown_fp = int fp - int confirmed,
          su_ooc = count_verdict OutOfCatalog rows,
          su_ooc_class = length (filter (\<lambda>r. ro_kind r = Some ''unplanted-class'') rows),
          su_ooc_scope = length (filter (\<lambda>r. ro_kind r = Some ''unplanted-in-scope'') rows),
          su_ooc_by_cwe = sort_key fst (cs_hits st),
          su_dup = dup, su_ambiguous = ambiguous,
          su_precision_confirmed = (if invs \<noteq> [] then share_of tp (tp + confirmed) else None),
          su_precision = share_of tp (tp + fp),
          su_precision_conservative = share_of tp (tp + fp + ambiguous),
          su_dup_ratio = share_of dup (length rows),
          su_reported = reported,
          su_triggered_not_reported = sorted_set (filter (\<lambda>i. i \<notin> set reported) triggered),
          su_reported_not_triggered = filter (\<lambda>i. i \<notin> set triggered) reported,
          su_rows = rows\<rparr>)"

section \<open>One finding\<close>

definition best_seen :: "finding \<Rightarrow> (int \<Rightarrow> string list) \<Rightarrow> vuln list \<Rightarrow> best \<Rightarrow> bool" where
  "best_seen f fams vs best \<longleftrightarrow>
     (\<forall>v\<in>set vs. rank (fst best) \<le> rank (fst (judge f v fams)))
     \<and> (case snd (snd best) of
          None \<Rightarrow> fst best = FalsePositive \<and> vs = []
        | Some v \<Rightarrow> v \<in> set vs \<and> fst best = fst (judge f v fams))"

lemma judge_rank: "rank (fst (judge f v fams)) < 4"
  by (simp add: judge_def)

lemma judge_verdict [simp]:
  "fst (judge f v fams) \<noteq> FalsePositive" "fst (judge f v fams) \<noteq> Duplicate"
  "fst (judge f v fams) \<noteq> OutOfCatalog"
  by (simp_all add: judge_def)

lemma best_verdict_step_seen:
  assumes "best_seen f fams vs best"
  shows "best_seen f fams (vs @ [v]) (best_verdict_step f fams best v)"
proof (cases "rank (fst (judge f v fams)) < rank (fst best)")
  case True
  then show ?thesis using assms
    by (auto simp: best_seen_def best_verdict_step_def Let_def intro: order_trans less_imp_le)
next
  case False
  then have "snd (snd best) \<noteq> None" using assms judge_rank [of f v fams]
    by (auto simp: best_seen_def split: option.splits)
  then show ?thesis using assms False
    by (auto simp: best_seen_def best_verdict_step_def Let_def)
qed

lemma best_verdict_seen:
  "best_seen f (cwe_families (cx_catalog cx)) (finding_candidates cx f) (best_verdict cx f)"
proof -
  have "best_seen f fams vs (foldl (best_verdict_step f fams) (FalsePositive, r, None) vs)" for fams vs r
    by (induction vs rule: rev_induct) (simp_all add: best_seen_def [of f fams "[]"] best_verdict_step_seen)
  then show ?thesis by (simp add: best_verdict_def)
qed

definition judged_true :: "judge_context \<Rightarrow> finding \<Rightarrow> vuln \<Rightarrow> bool" where
  "judged_true cx f v \<longleftrightarrow> v \<in> set (finding_candidates cx f)
     \<and> fst (judge f v (cwe_families (cx_catalog cx))) = TruePositive"

lemma rank_0_iff: "rank w = 0 \<longleftrightarrow> w = TruePositive"
  by (cases w) auto

lemma best_true_iff: "fst (best_verdict cx f) = TruePositive \<longleftrightarrow> (\<exists>v. judged_true cx f v)"
proof
  assume t: "fst (best_verdict cx f) = TruePositive"
  then obtain v where "snd (snd (best_verdict cx f)) = Some v"
    using best_verdict_seen [of f cx] by (auto simp: best_seen_def split: option.splits)
  then show "\<exists>v. judged_true cx f v"
    using best_verdict_seen [of f cx] t by (auto simp: best_seen_def judged_true_def)
next
  assume "\<exists>v. judged_true cx f v"
  then have "rank (fst (best_verdict cx f)) = 0"
    using best_verdict_seen [of f cx] by (auto simp: best_seen_def judged_true_def)
  then show "fst (best_verdict cx f) = TruePositive" by (simp add: rank_0_iff)
qed

lemma best_false_iff: "fst (best_verdict cx f) = FalsePositive \<longleftrightarrow> finding_candidates cx f = []"
proof
  assume a: "fst (best_verdict cx f) = FalsePositive"
  show "finding_candidates cx f = []"
  proof (rule ccontr)
    assume "finding_candidates cx f \<noteq> []"
    then obtain v where "v \<in> set (finding_candidates cx f)" by (cases "finding_candidates cx f") auto
    then have "rank FalsePositive \<le> rank (fst (judge f v (cwe_families (cx_catalog cx))))"
      using best_verdict_seen [of f cx] a by (simp add: best_seen_def)
    then show False using judge_rank [of f v "cwe_families (cx_catalog cx)"] by simp
  qed
next
  assume "finding_candidates cx f = []"
  then show "fst (best_verdict cx f) = FalsePositive" by (simp add: best_verdict_def)
qed

lemma best_matched:
  "fst (best_verdict cx f) \<noteq> FalsePositive \<Longrightarrow> \<exists>v. snd (snd (best_verdict cx f)) = Some v"
  using best_verdict_seen [of f cx] by (auto simp: best_seen_def split: option.splits)

lemma best_range: "fst (best_verdict cx f) \<notin> {Duplicate, OutOfCatalog}"
  using best_verdict_seen [of f cx]
    judge_verdict [of f "the (snd (snd (best_verdict cx f)))" "cwe_families (cx_catalog cx)"]
  by (auto simp: best_seen_def split: option.splits)

definition new_row :: "judge_context \<Rightarrow> class_state \<Rightarrow> finding \<Rightarrow> row" where
  "new_row cx st f = last (cs_rows (classify_step cx st f))"

lemma classify_step_rows: "cs_rows (classify_step cx st f) = cs_rows st @ [new_row cx st f]"
  by (auto simp: new_row_def classify_step_def Let_def split: verdict.splits option.splits)

text \<open>C6: the verdict on a finding. It is a true positive or its duplicate exactly when some
  candidate at its location is judged true (so a detection is never discarded as unscoreable),
  out of catalog exactly when it is unscoreable and none is, and a false positive exactly when it
  is scoreable and no planted flaw sits at the location at all.\<close>

theorem finding_verdict:
  "(ro_verdict (new_row cx st f) \<in> {TruePositive, Duplicate} \<longleftrightarrow> (\<exists>v. judged_true cx f v))
   \<and> (ro_verdict (new_row cx st f) = OutOfCatalog
        \<longleftrightarrow> unscoreable cx f \<noteq> None \<and> \<not> (\<exists>v. judged_true cx f v))
   \<and> (ro_verdict (new_row cx st f) = FalsePositive
        \<longleftrightarrow> unscoreable cx f = None \<and> finding_candidates cx f = [])"
proof -
  have j: "(\<exists>v. judged_true cx f v) \<Longrightarrow> finding_candidates cx f \<noteq> []"
    by (auto simp: judged_true_def)
  show ?thesis
    using best_true_iff [of cx f] best_false_iff [of cx f] best_range [of cx f] best_matched [of cx f] j
    by (cases "fst (best_verdict cx f)")
       (auto simp: new_row_def classify_step_def Let_def split: option.splits)
qed

section \<open>The whole report\<close>

lemma classify_rows_snoc:
  "classify_rows cx (fs @ [f]) = classify_step cx (classify_rows cx fs) f"
  by (simp add: classify_rows_def)

lemma classify_rows_length: "length (cs_rows (classify_rows cx fs)) = length fs"
  by (induction fs rule: rev_induct)
     (simp_all add: classify_rows_snoc classify_step_rows, simp add: classify_rows_def)

definition tp_key :: "row \<Rightarrow> string option \<times> string option" where
  "tp_key r = (f_tool (ro_finding r), ro_matched r)"

definition claims_ok :: "class_state \<Rightarrow> bool" where
  "claims_ok st \<longleftrightarrow> distinct (cs_claimed st)
     \<and> map tp_key (filter (\<lambda>r. ro_verdict r = TruePositive) (cs_rows st))
         = map (\<lambda>(t, i). (t, Some i)) (cs_claimed st)
     \<and> (\<forall>r\<in>set (cs_rows st). ro_verdict r = Duplicate \<longrightarrow>
          (\<exists>q\<in>set (cs_rows st). ro_verdict q = TruePositive \<and> tp_key q = tp_key r))"

lemma claims_ok_step:
  assumes "claims_ok st" shows "claims_ok (classify_step cx st f)"
proof -
  let ?w = "fst (best_verdict cx f)" and ?m = "snd (snd (best_verdict cx f))"
  have range: "?w \<noteq> Duplicate" "?w \<noteq> OutOfCatalog" using best_range [of cx f] by auto
  consider (out) "?w \<noteq> TruePositive" "unscoreable cx f \<noteq> None"
    | (other) "?w \<noteq> TruePositive" "unscoreable cx f = None"
    | (tp) v where "?w = TruePositive" "?m = Some v"
    using best_matched [of cx f] by (cases "?w = TruePositive") auto
  then show ?thesis
  proof cases
    case out
    then show ?thesis using assms by (auto simp: classify_step_def Let_def claims_ok_def)
  next
    case other
    then have "\<exists>r. classify_step cx st f = st\<lparr>cs_rows := cs_rows st @ [r]\<rparr> \<and> ro_verdict r = ?w"
      by (cases ?w) (auto simp: classify_step_def Let_def)
    then show ?thesis using assms other range by (auto simp: claims_ok_def)
  next
    case (tp v)
    show ?thesis
    proof (cases "(f_tool f, v_id v) \<in> set (cs_claimed st)")
      case True
      have "(f_tool f, Some (v_id v)) \<in> set (map (\<lambda>(t, i). (t, Some i)) (cs_claimed st))"
        using True by force
      then have "(f_tool f, Some (v_id v)) \<in> set (map tp_key (filter (\<lambda>r. ro_verdict r = TruePositive) (cs_rows st)))"
        using assms by (simp only: claims_ok_def)
      then obtain q where "q \<in> set (cs_rows st)" "ro_verdict q = TruePositive"
          "tp_key q = (f_tool f, Some (v_id v))" by auto
      then show ?thesis using assms True tp by (auto simp: classify_step_def Let_def claims_ok_def tp_key_def)
    next
      case False
      then show ?thesis using assms tp by (auto simp: classify_step_def Let_def claims_ok_def tp_key_def)
    qed
  qed
qed

interpretation classifying: invariant_machine "classify_step cx" claims_ok for cx
  by unfold_locales (rule claims_ok_step)

lemma classify_claims_ok: "claims_ok (classify_rows cx fs)"
  unfolding classify_rows_def by (rule classifying.run_inv) (simp add: claims_ok_def)

text \<open>C7: a report credits each tool at most once per vulnerability, and every duplicate repeats a
  credited finding of the same tool on the same vulnerability.\<close>

theorem one_credit_per_vuln:
  "let rows = su_rows (classify_findings c fs outcomes app_map apps invs) in
     distinct (map tp_key (filter (\<lambda>r. ro_verdict r = TruePositive) rows))
   \<and> tp_key ` {r \<in> set rows. ro_verdict r = Duplicate}
       \<subseteq> tp_key ` {r \<in> set rows. ro_verdict r = TruePositive}"
proof -
  let ?st = "classify_rows (make_context c app_map apps invs) fs"
  have ok: "claims_ok ?st" by (rule classify_claims_ok)
  have "distinct (map (\<lambda>(t, i). (t, Some i)) (cs_claimed ?st))"
    using ok by (auto simp: claims_ok_def distinct_map inj_on_def)
  then have "distinct (map tp_key (filter (\<lambda>r. ro_verdict r = TruePositive) (cs_rows ?st)))"
    using ok by (simp add: claims_ok_def)
  moreover have "tp_key ` {r \<in> set (cs_rows ?st). ro_verdict r = Duplicate}
       \<subseteq> tp_key ` {r \<in> set (cs_rows ?st). ro_verdict r = TruePositive}"
    using ok unfolding claims_ok_def by (force simp: image_iff)
  ultimately show ?thesis by (simp add: classify_findings_def Let_def)
qed

lemma count_verdicts_total:
  "count_verdict TruePositive rows + count_verdict FalsePositive rows + count_verdict Duplicate rows
     + count_verdict OutOfCatalog rows + sum_list (map (\<lambda>w. count_verdict w rows) AMBIGUOUS) = length rows"
proof (induction rows)
  case (Cons r rows)
  then show ?case by (cases "ro_verdict r") (simp_all add: count_verdict_def AMBIGUOUS_def)
qed (simp add: count_verdict_def AMBIGUOUS_def)

text \<open>The verdict counts of a report add up to the number of findings, and confirmed false
  positives are among the false positives.\<close>

theorem verdicts_add_up:
  "let r = classify_findings c fs outcomes app_map apps invs in
     su_tp r + su_fp r + su_dup r + su_ooc r + su_ambiguous r = length fs
   \<and> su_total r = length fs \<and> su_confirmed_fp r \<le> su_fp r \<and> 0 \<le> su_unknown_fp r"
proof -
  have "length (filter (\<lambda>r. P r \<and> Q r) xs) \<le> length (filter P xs)" for P Q and xs :: "row list"
    by (induction xs) auto
  then show ?thesis
    using count_verdicts_total [of "cs_rows (classify_rows (make_context c app_map apps invs) fs)"]
    by (simp add: classify_findings_def Let_def classify_rows_length count_verdict_def)
qed

lemma share_of_antimono:
  assumes "share_of n d = Some x" and "share_of n d' = Some y" and "d \<le> d'"
  shows "y \<le> x"
  using assms by (auto simp: share_of_def frac_le split: if_splits)

lemma share_of_unit: "n \<le> d \<Longrightarrow> share_of n d = Some x \<Longrightarrow> 0 \<le> x \<and> x \<le> 1"
  by (auto simp: share_of_def divide_le_eq split: if_splits)

text \<open>C8: wherever two of the published precisions are defined, the conservative one is at most the
  plain one and that at most the confirmed one; all lie between 0 and 1.\<close>

theorem precisions_ordered:
  assumes "su_precision_confirmed (classify_findings c fs outcomes app_map apps invs) = Some x"
    and "su_precision (classify_findings c fs outcomes app_map apps invs) = Some y"
    and "su_precision_conservative (classify_findings c fs outcomes app_map apps invs) = Some z"
  shows "0 \<le> z \<and> z \<le> y \<and> y \<le> x \<and> x \<le> 1"
proof -
  let ?r = "classify_findings c fs outcomes app_map apps invs"
  have le: "su_confirmed_fp ?r \<le> su_fp ?r"
  proof -
    have "length (filter (\<lambda>r. P r \<and> Q r) xs) \<le> length (filter P xs)" for P Q and xs :: "row list"
      by (induction xs) auto
    then show ?thesis by (simp add: classify_findings_def Let_def count_verdict_def)
  qed
  have x: "share_of (su_tp ?r) (su_tp ?r + su_confirmed_fp ?r) = Some x"
    using assms(1) by (simp add: classify_findings_def Let_def split: if_splits)
  have y: "share_of (su_tp ?r) (su_tp ?r + su_fp ?r) = Some y"
    using assms(2) by (simp add: classify_findings_def Let_def)
  have z: "share_of (su_tp ?r) (su_tp ?r + su_fp ?r + su_ambiguous ?r) = Some z"
    using assms(3) by (simp add: classify_findings_def Let_def)
  have "z \<le> y" by (rule share_of_antimono [OF y z]) simp
  moreover have "y \<le> x" by (rule share_of_antimono [OF x y]) (use le in simp)
  moreover have "0 \<le> z" using share_of_unit [OF _ z] by simp
  moreover have "x \<le> 1" using share_of_unit [OF _ x] by simp
  ultimately show ?thesis by simp
qed

text \<open>A finding of a class that nothing in the taxonomy carries can never be judged true: the rule
  that sets it aside loses no detection.\<close>

lemma unplanted_never_true:
  assumes "unscoreable cx f = Some ''unplanted-class''" and "cx_in_scope cx = filter P (c_vulns (cx_catalog cx))"
  shows "\<not> judged_true cx f v"
proof
  assume j: "judged_true cx f v"
  have none: "x \<notin> set (catalog_cwes (cx_catalog cx))" if "x \<in> set (f_cwe f)" for x
  proof -
    have "length (unplanted cx f) = length (f_cwe f)" using assms(1) by (simp add: unscoreable_def split: if_splits)
    then have "unplanted cx f = f_cwe f" unfolding unplanted_def by (metis filter_id_conv length_filter_less less_irrefl)
    then show ?thesis using that unfolding unplanted_def by (metis (mono_tags, lifting) filter_id_conv)
  qed
  have v: "v \<in> set (c_vulns (cx_catalog cx))"
    using j assms(2) by (auto simp: judged_true_def finding_candidates_def Let_def)
  have "x \<notin> set (v_cwe v)" if "x \<in> set (f_cwe f)" for x
    using none [OF that] v by (auto simp: catalog_cwes_def)
  moreover have "cwe_families (cx_catalog cx) x = []" if "x \<in> set (f_cwe f)" for x
    using none [OF that]
    by (auto simp: cwe_families_def catalog_cwes_def List.map_filter_def filter_empty_conv)
  ultimately show False using j by (auto simp: judged_true_def judge_def split: if_splits)
qed

section \<open>Concrete instances\<close>

abbreviation plain_finding :: "string \<Rightarrow> int list \<Rightarrow> finding" where
  "plain_finding url cwe \<equiv>
     \<lparr>f_tool = Some ''zap'', f_url = url, f_method = Some ''GET'', f_param = None, f_cwe = cwe,
      f_name = None, f_severity = None, f_confidence = None, f_app = Some ''shop''\<rparr>"

abbreviation plain_inventory :: inventory where
  "plain_inventory \<equiv>
     \<lparr>iv_app = ''shop'',
      iv_routes = [\<lparr>e_app = ''shop'', e_path = ''/help'', e_method = ''GET'', e_auth = ''none'',
        e_render = None, e_params = [], e_status = ''safe'', e_notes = None, e_host = None,
        e_origin = ''routes'', e_expect = None\<rparr>],
      iv_source = None, iv_canonical = None\<rparr>"

abbreviation plain_report :: summary where
  "plain_report \<equiv> classify_findings (plain_catalog [plain_vuln ''A'' []])
     [plain_finding ''http://h/items/7'' [79], plain_finding ''http://h/items/8'' [79],
      plain_finding ''http://h/help'' [79], plain_finding ''http://h/items/9'' [89]] [] [] []
     [(''shop'', plain_inventory)]"

lemma plain_report_counts:
  "(su_tp plain_report, su_dup plain_report, su_confirmed_fp plain_report, su_ooc plain_report) = (1, 1, 1, 1)"
  by code_simp

lemma precisions_ordered_witness:
  "0 \<le> (1 / 2 :: rat) \<and> (1 / 2 :: rat) \<le> 1 / 2 \<and> (1 / 2 :: rat) \<le> 1 / 2 \<and> (1 / 2 :: rat) \<le> 1"
proof (rule precisions_ordered)
  show "su_precision_confirmed plain_report = Some (1 / 2)" by code_simp
  show "su_precision plain_report = Some (1 / 2)" by code_simp
  show "su_precision_conservative plain_report = Some (1 / 2)" by code_simp
qed

end
