(* ===== verification/Registry.thy ===== *)
theory Registry
  imports Hosts
begin

text \<open>
  \<open>platform/collector/bench_collector/correlations.py\<close>: the in-memory registry of pending
  outbound-fetch hints, with its time to live and hard cap. The clock value of a call and the
  fresh id are arguments. \<open>wait_for\<close> is asyncio scheduling around \<open>pending\<close> and is not modelled.
\<close>

section \<open>State and operations\<close>

record hint =
  hn_id :: string
  hn_host :: "string option"
  hn_app :: string
  hn_signal :: string
  hn_route :: "string option"
  hn_param :: "string option"
  hn_request_id :: "string option"
  hn_client_ip :: "string option"
  hn_ttl :: "rat option"
  hn_registered :: rat
  hn_expires :: rat

record registry =
  rg_ttl :: rat
  rg_max :: nat
  rg_entries :: "(string, hint) dict"
  rg_registered :: nat
  rg_expired :: nat
  rg_overflowed :: nat

definition new_registry :: "rat \<Rightarrow> nat \<Rightarrow> registry" where
  "new_registry ttl m =
     \<lparr>rg_ttl = ttl, rg_max = m, rg_entries = [], rg_registered = 0, rg_expired = 0, rg_overflowed = 0\<rparr>"

definition evict :: "rat \<Rightarrow> registry \<Rightarrow> registry" where
  "evict now g =
     (let gone = map fst (filter (\<lambda>(k, h). hn_expires h \<le> now) (rg_entries g)) in
      g\<lparr>rg_entries := foldl (\<lambda>d k. dict_del k d) (rg_entries g) gone,
        rg_expired := rg_expired g + length gone\<rparr>)"

text \<open>\<open>ttl or entry.get("ttl") or self.ttl\<close>: a zero is no value.\<close>

definition first_ttl :: "rat option \<Rightarrow> rat option \<Rightarrow> rat \<Rightarrow> rat" where
  "first_ttl a b d =
     (case a of Some x \<Rightarrow> if x \<noteq> 0 then x else (case b of Some y \<Rightarrow> if y \<noteq> 0 then y else d | None \<Rightarrow> d)
      | None \<Rightarrow> (case b of Some y \<Rightarrow> if y \<noteq> 0 then y else d | None \<Rightarrow> d))"

fun pop_oldest :: "nat \<Rightarrow> registry \<Rightarrow> registry" where
  "pop_oldest 0 g = g"
| "pop_oldest (Suc n) g =
     (if length (rg_entries g) > rg_max g
      then pop_oldest n (g\<lparr>rg_entries := tl (rg_entries g), rg_overflowed := rg_overflowed g + 1\<rparr>)
      else g)"

definition stamped :: "registry \<Rightarrow> hint \<Rightarrow> rat option \<Rightarrow> rat \<Rightarrow> string \<Rightarrow> hint" where
  "stamped g h ttl now fresh =
     h\<lparr>hn_id := (if hn_id h = [] then fresh else hn_id h), hn_registered := now,
       hn_expires := now + first_ttl ttl (hn_ttl h) (rg_ttl g)\<rparr>"

definition register_hint :: "registry \<Rightarrow> hint \<Rightarrow> rat option \<Rightarrow> rat \<Rightarrow> string \<Rightarrow> registry \<times> hint" where
  "register_hint g h ttl now fresh =
     (let entry = stamped g h ttl now fresh;
          g1 = evict now g;
          g2 = g1\<lparr>rg_entries := dict_set (hn_id entry) entry (rg_entries g1),
                  rg_registered := rg_registered g1 + 1\<rparr>
      in (pop_oldest (length (rg_entries g2)) g2, entry))"

definition pending :: "registry \<Rightarrow> string option \<Rightarrow> rat option \<Rightarrow> rat \<Rightarrow> registry \<times> hint list" where
  "pending g destination registered_after now =
     (let g1 = evict now g;
          entries = map snd (rg_entries g1);
          by_host = (if truthy destination
            then filter (\<lambda>h. registry_host_matches (hn_host h)
                   (lower (rstrip_chars ''.'' (strip (the destination))))) entries
            else entries);
          fresh = (case registered_after of None \<Rightarrow> by_host
                   | Some t \<Rightarrow> filter (\<lambda>h. hn_registered h > t) by_host)
      in (g1, fresh))"

definition get_hint :: "registry \<Rightarrow> string \<Rightarrow> rat \<Rightarrow> registry \<times> hint option" where
  "get_hint g i now = (let g1 = evict now g in (g1, dict_get (rg_entries g1) i))"

definition discard :: "registry \<Rightarrow> string \<Rightarrow> registry \<times> hint option" where
  "discard g i = (g\<lparr>rg_entries := dict_del i (rg_entries g)\<rparr>, dict_get (rg_entries g) i)"

record registry_stats =
  st_pending :: nat
  st_registered :: nat
  st_expired :: nat
  st_overflowed :: nat
  st_ttl :: rat

definition registry_stats :: "registry \<Rightarrow> rat \<Rightarrow> registry \<times> registry_stats" where
  "registry_stats g now =
     (let g1 = evict now g in
      (g1, \<lparr>st_pending = length (rg_entries g1), st_registered = rg_registered g1,
            st_expired = rg_expired g1, st_overflowed = rg_overflowed g1, st_ttl = rg_ttl g1\<rparr>))"

datatype registry_op =
    OpRegister hint "rat option" rat string
  | OpPending "string option" "rat option" rat
  | OpGet string rat
  | OpDiscard string
  | OpStats rat

fun registry_step :: "registry \<Rightarrow> registry_op \<Rightarrow> registry" where
  "registry_step g (OpRegister h ttl now fresh) = fst (register_hint g h ttl now fresh)"
| "registry_step g (OpPending d t now) = fst (pending g d t now)"
| "registry_step g (OpGet i now) = fst (get_hint g i now)"
| "registry_step g (OpDiscard i) = fst (discard g i)"
| "registry_step g (OpStats now) = fst (registry_stats g now)"

section \<open>Eviction\<close>

lemma foldl_del: "foldl (\<lambda>d k. dict_del k d) d ks = filter (\<lambda>kv. fst kv \<notin> set ks) d"
  by (induction ks arbitrary: d) (auto simp: dict_del_def intro!: filter_cong)

lemma evict_entries:
  assumes "dict_ok (rg_entries g)"
  shows "rg_entries (evict now g) = filter (\<lambda>(k, h). now < hn_expires h) (rg_entries g)"
proof -
  have same: "h = h'" if "(k, h) \<in> set (rg_entries g)" "(k, h') \<in> set (rg_entries g)" for k h h'
    using dict_get_in [OF assms that(1)] dict_get_in [OF assms that(2)] by simp
  have mem: "(k \<in> fst ` set (filter (\<lambda>(k, h). hn_expires h \<le> now) (rg_entries g))) \<longleftrightarrow> hn_expires h \<le> now"
    if kh: "(k, h) \<in> set (rg_entries g)" for k h
  proof
    assume "k \<in> fst ` set (filter (\<lambda>(k, h). hn_expires h \<le> now) (rg_entries g))"
    then obtain h' where h': "(k, h') \<in> set (rg_entries g)" "hn_expires h' \<le> now" by auto
    show "hn_expires h \<le> now" using same [OF kh h'(1)] h'(2) by simp
  next
    assume "hn_expires h \<le> now"
    then show "k \<in> fst ` set (filter (\<lambda>(k, h). hn_expires h \<le> now) (rg_entries g))"
      using kh by (intro image_eqI [of _ _ "(k, h)"]) simp_all
  qed
  have "filter (\<lambda>kv. fst kv \<notin> fst ` set (filter (\<lambda>(k, h). hn_expires h \<le> now) (rg_entries g))) (rg_entries g)
      = filter (\<lambda>(k, h). now < hn_expires h) (rg_entries g)"
  proof (rule filter_cong [OF refl])
    fix kv assume kv: "kv \<in> set (rg_entries g)"
    obtain k h where eq: "kv = (k, h)" by (cases kv)
    show "(fst kv \<notin> fst ` set (filter (\<lambda>(k, h). hn_expires h \<le> now) (rg_entries g)))
        = (case kv of (k, h) \<Rightarrow> now < hn_expires h)"
      using mem [of k h] kv unfolding eq by (simp only: fst_conv prod.case not_le)
  qed
  then show ?thesis unfolding evict_def Let_def foldl_del set_map by simp
qed

lemma evict_fields [simp]:
  "rg_ttl (evict now g) = rg_ttl g" "rg_max (evict now g) = rg_max g"
  "rg_registered (evict now g) = rg_registered g" "rg_overflowed (evict now g) = rg_overflowed g"
  by (simp_all add: evict_def Let_def)

lemma evict_counts:
  assumes "dict_ok (rg_entries g)"
  shows "length (rg_entries (evict now g)) + rg_expired (evict now g)
    = length (rg_entries g) + rg_expired g"
proof -
  have "length (filter (\<lambda>(k, h). now < hn_expires h) d) + length (filter (\<lambda>(k, h). hn_expires h \<le> now) d)
      = length d" for d :: "(string, hint) dict"
    by (induction d) auto
  then show ?thesis using evict_entries [OF assms, of now] by (simp add: evict_def Let_def)
qed

section \<open>Well-formed registries\<close>

definition registry_ok :: "registry \<Rightarrow> bool" where
  "registry_ok g \<longleftrightarrow> dict_ok (rg_entries g)
     \<and> (\<forall>(k, h)\<in>set (rg_entries g). hn_id h = k)
     \<and> length (rg_entries g) \<le> rg_max g
     \<and> length (rg_entries g) + rg_expired g + rg_overflowed g \<le> rg_registered g"

lemma evict_ok: assumes "registry_ok g" shows "registry_ok (evict now g)"
proof -
  have d: "dict_ok (rg_entries g)" using assms by (simp add: registry_ok_def)
  have "length (rg_entries (evict now g)) \<le> length (rg_entries g)"
    unfolding evict_entries [OF d] by (rule length_filter_le)
  then show ?thesis
    using assms evict_counts [OF d, of now] dict_ok_filter [OF d] evict_entries [OF d, of now]
    by (auto simp add: registry_ok_def simp del: length_filter_le)
qed

lemma pop_oldest_drop:
  "length (rg_entries g) \<le> n + rg_max g \<Longrightarrow>
     pop_oldest n g = g\<lparr>rg_entries := drop (length (rg_entries g) - rg_max g) (rg_entries g),
       rg_overflowed := rg_overflowed g + (length (rg_entries g) - rg_max g)\<rparr>"
proof (induction n arbitrary: g)
  case (Suc n)
  show ?case
  proof (cases "length (rg_entries g) > rg_max g")
    case True
    then obtain e es where "rg_entries g = e # es" by (cases "rg_entries g") auto
    then show ?thesis using Suc.IH [of "g\<lparr>rg_entries := es, rg_overflowed := rg_overflowed g + 1\<rparr>"] Suc.prems True
      by (simp add: Suc_diff_le)
  qed simp
qed simp

lemma length_dict_set_le: "length (dict_set k v d) \<le> Suc (length d)"
  by (induction d) (auto simp: dict_set_def)

lemma dict_set_or_snoc:
  "dict_get d k = None \<Longrightarrow> dict_set k v d = d @ [(k, v)]"
  "dict_get d k \<noteq> None \<Longrightarrow> length (dict_set k v d) = length d"
  by (induction d) (auto simp: dict_set_def split: if_splits)

lemma set_dict_set: "(k', v') \<in> set (dict_set k v d) \<Longrightarrow> (k' = k \<and> v' = v) \<or> (k', v') \<in> set d"
  by (induction d) (auto simp: dict_set_def split: if_splits)

lemma register_hint_eq:
  "fst (register_hint g h ttl now fresh) =
     (let entry = stamped g h ttl now fresh; es = dict_set (hn_id entry) entry (rg_entries (evict now g));
          over = length es - rg_max g
      in (evict now g)\<lparr>rg_entries := drop over es, rg_registered := rg_registered g + 1,
            rg_overflowed := rg_overflowed g + over\<rparr>)"
  by (simp add: register_hint_def Let_def pop_oldest_drop)

lemma register_ok:
  assumes "registry_ok g" shows "registry_ok (fst (register_hint g h ttl now fresh))"
proof -
  let ?e = "stamped g h ttl now fresh"
  let ?es = "dict_set (hn_id ?e) ?e (rg_entries (evict now g))"
  have ok: "registry_ok (evict now g)" using assms by (rule evict_ok)
  have "dict_ok ?es" using ok by (simp add: registry_ok_def)
  then have "dict_ok (drop n ?es)" for n by (simp add: dict_ok_def flip: drop_map)
  moreover have "\<forall>(k, x)\<in>set (drop n ?es). hn_id x = k" for n
    using ok by (auto simp: registry_ok_def dest!: in_set_dropD set_dict_set)
  moreover have "length ?es \<le> Suc (length (rg_entries (evict now g)))" by (rule length_dict_set_le)
  ultimately show ?thesis using ok by (auto simp: registry_ok_def register_hint_eq Let_def)
qed

interpretation registry: invariant_machine registry_step registry_ok
proof (unfold_locales, goal_cases)
  case (1 g op)
  then show ?case
  proof (cases op)
    case (OpDiscard i)
    have "length (dict_del i (rg_entries g)) \<le> length (rg_entries g)"
      unfolding dict_del_def by (rule length_filter_le)
    moreover have "dict_ok (dict_del i (rg_entries g))"
      using 1 by (simp add: dict_del_def dict_ok_filter registry_ok_def)
    moreover have "set (dict_del i (rg_entries g)) \<subseteq> set (rg_entries g)" by (auto simp: dict_del_def)
    ultimately show ?thesis using 1 OpDiscard by (auto simp: registry_ok_def discard_def)
  qed (simp_all add: evict_ok register_ok pending_def get_hint_def registry_stats_def Let_def)
qed

text \<open>Whatever sequence of calls a registry receives, it never holds more than its cap, ids are
  unique and equal to the key, and entries held, expired and dropped for the cap never exceed
  the registrations.\<close>

theorem registry_runs_ok:
  "registry_ok (foldl registry_step (new_registry ttl m) ops)"
  by (rule registry.run_inv) (simp add: registry_ok_def new_registry_def dict_ok_def)

lemma registered_snd: "snd (register_hint g h ttl now fresh) = stamped g h ttl now fresh"
  by (simp add: register_hint_def Let_def)

text \<open>The cap never pushes out the hint that is being registered.\<close>

lemma registered_kept:
  assumes "registry_ok g" and "0 < rg_max g"
  shows "(hn_id (stamped g h ttl now fresh), stamped g h ttl now fresh)
    \<in> set (rg_entries (fst (register_hint g h ttl now fresh)))"
proof -
  let ?e = "stamped g h ttl now fresh"
  let ?ev = "rg_entries (evict now g)"
  let ?es = "dict_set (hn_id ?e) ?e ?ev"
  have ok: "length ?ev \<le> rg_max g" using evict_ok [OF assms(1), of now] by (simp add: registry_ok_def)
  have g: "rg_entries (fst (register_hint g h ttl now fresh)) = drop (length ?es - rg_max g) ?es"
    by (simp add: register_hint_eq Let_def)
  show ?thesis
  proof (cases "dict_get ?ev (hn_id ?e)")
    case None
    then have es: "?es = ?ev @ [(hn_id ?e, ?e)]" by (rule dict_set_or_snoc)
    have "length ?es - rg_max g \<le> length ?ev" using ok assms(2) by (simp add: es)
    then show ?thesis unfolding g by (simp add: es)
  next
    case (Some x)
    then have "length ?es = length ?ev" by (intro dict_set_or_snoc) simp
    then have "length ?es - rg_max g = 0" using ok by simp
    moreover have "(hn_id ?e, ?e) \<in> set ?es" by (rule dict_get_SomeD) simp
    ultimately show ?thesis unfolding g by simp
  qed
qed

text \<open>A hint that was just registered is found by its id until it expires, whatever was
  evicted for the cap, and the hints that the cap pushes out are the oldest ones.\<close>

theorem register_then_get:
  assumes "registry_ok g" and "0 < rg_max g" and "t < hn_expires (snd (register_hint g h ttl now fresh))"
  shows "snd (get_hint (fst (register_hint g h ttl now fresh)) (hn_id (snd (register_hint g h ttl now fresh))) t)
       = Some (snd (register_hint g h ttl now fresh))
    \<and> (\<exists>old. old @ rg_entries (fst (register_hint g h ttl now fresh))
         = dict_set (hn_id (snd (register_hint g h ttl now fresh))) (snd (register_hint g h ttl now fresh))
             (rg_entries (evict now g)))"
proof -
  let ?e = "stamped g h ttl now fresh"
  let ?es = "dict_set (hn_id ?e) ?e (rg_entries (evict now g))"
  let ?g = "fst (register_hint g h ttl now fresh)"
  have "registry_ok ?g" using assms(1) by (rule register_ok)
  then have "dict_get (rg_entries (evict t ?g)) (hn_id ?e) = Some ?e"
    using assms(3) registered_kept [OF assms(1,2), of h ttl now fresh]
    by (intro dict_get_in) (auto simp: registered_snd evict_entries registry_ok_def dict_ok_filter)
  moreover have "take (length ?es - rg_max g) ?es @ rg_entries ?g = ?es"
    by (simp add: register_hint_eq Let_def)
  ultimately show ?thesis unfolding registered_snd by (auto simp: get_hint_def Let_def)
qed

lemma pending_host:
  assumes "registry_ok g" and "d \<noteq> []"
  shows "snd (pending g (Some d) None now) =
    filter (\<lambda>h. now < hn_expires h \<and> registry_host_matches (hn_host h) (lower (rstrip_chars ''.'' (strip d))))
      (map snd (rg_entries g))"
proof -
  have "map snd (rg_entries (evict now g)) = filter (\<lambda>h. now < hn_expires h) (map snd (rg_entries g))"
    using assms by (simp add: evict_entries registry_ok_def filter_map comp_def case_prod_unfold)
  then show ?thesis using assms(2) by (auto simp: pending_def Let_def conj_commute intro!: filter_cong)
qed

text \<open>The sinkhole sees exactly the hints still alive, oldest first; with a host, those among
  them that designate it.\<close>

theorem pending_spec:
  assumes "registry_ok g"
  shows "snd (pending g None None now) = filter (\<lambda>h. now < hn_expires h) (map snd (rg_entries g))
    \<and> snd (pending g (Some d) (Some t) now) =
        filter (\<lambda>h. now < hn_expires h \<and> t < hn_registered h
          \<and> (d = [] \<or> registry_host_matches (hn_host h) (lower (rstrip_chars ''.'' (strip d)))))
        (map snd (rg_entries g))"
proof -
  have "map snd (rg_entries (evict now g)) = filter (\<lambda>h. now < hn_expires h) (map snd (rg_entries g))"
    using assms by (simp add: evict_entries registry_ok_def filter_map comp_def case_prod_unfold)
  then show ?thesis
    by (auto simp: pending_def Let_def intro!: filter_cong)
qed

abbreviation plain_hint :: hint where
  "plain_hint \<equiv>
     \<lparr>hn_id = [], hn_host = Some ''oast.fun'', hn_app = ''shop'', hn_signal = ''shop.a.b'', hn_route = None,
      hn_param = None, hn_request_id = None, hn_client_ip = None, hn_ttl = None, hn_registered = 0,
      hn_expires = 0\<rparr>"

abbreviation full_registry :: registry where
  "full_registry \<equiv> fst (register_hint (new_registry 60 1) plain_hint None 5 ''one'')"

lemma full_registry_ok: "registry_ok full_registry"
  by (rule register_ok) (simp add: registry_ok_def new_registry_def dict_ok_def)

lemma register_then_get_witness:
  "rg_overflowed (fst (register_hint full_registry plain_hint None 6 ''two'')) = 1
   \<and> snd (get_hint (fst (register_hint full_registry plain_hint None 6 ''two''))
        (hn_id (snd (register_hint full_registry plain_hint None 6 ''two''))) 7)
       = Some (snd (register_hint full_registry plain_hint None 6 ''two''))
   \<and> (\<exists>old. old @ rg_entries (fst (register_hint full_registry plain_hint None 6 ''two''))
         = dict_set (hn_id (snd (register_hint full_registry plain_hint None 6 ''two'')))
             (snd (register_hint full_registry plain_hint None 6 ''two'')) (rg_entries (evict 6 full_registry)))"
proof
  show "rg_overflowed (fst (register_hint full_registry plain_hint None 6 ''two'')) = 1" by code_simp
  have "0 < rg_max full_registry" "7 < hn_expires (snd (register_hint full_registry plain_hint None 6 ''two''))"
    by code_simp+
  then show "snd (get_hint (fst (register_hint full_registry plain_hint None 6 ''two''))
        (hn_id (snd (register_hint full_registry plain_hint None 6 ''two''))) 7)
       = Some (snd (register_hint full_registry plain_hint None 6 ''two''))
   \<and> (\<exists>old. old @ rg_entries (fst (register_hint full_registry plain_hint None 6 ''two''))
         = dict_set (hn_id (snd (register_hint full_registry plain_hint None 6 ''two'')))
             (snd (register_hint full_registry plain_hint None 6 ''two'')) (rg_entries (evict 6 full_registry)))"
    by (rule register_then_get [OF full_registry_ok])
qed

lemma pending_spec_witness:
  "length (snd (pending full_registry (Some ''X.OAST.fun.'') (Some 4) 6)) = 1
   \<and> snd (pending full_registry None None 6) = filter (\<lambda>h. 6 < hn_expires h) (map snd (rg_entries full_registry))"
proof
  show "length (snd (pending full_registry (Some ''X.OAST.fun.'') (Some 4) 6)) = 1" by code_simp
qed (rule conjunct1 [OF pending_spec [OF full_registry_ok]])

end
