(* ===== verification/Ip_Address.thy ===== *)
theory Ip_Address
  imports Json
begin

text \<open>
  The part of Python's \<open>ipaddress\<close> module the collector uses: reading an IPv4 or IPv6 address,
  printing it, and membership in a network; and \<open>parse_address\<close> of
  \<open>platform/collector/bench_collector/ingest.py\<close> on top of it.
\<close>

section \<open>Addresses\<close>

datatype address = V4 int | V6 int "string option"

definition dec_octet :: "string \<Rightarrow> int option" where
  "dec_octet s =
     (if s \<noteq> [] \<and> list_all (\<lambda>c. 48 \<le> code c \<and> code c \<le> 57) s \<and> length s \<le> 3
         \<and> (s = ''0'' \<or> hd s \<noteq> CHR ''0'')
      then let n = foldl (\<lambda>a c. 10 * a + int (code c - 48)) 0 s in if n \<le> 255 then Some n else None
      else None)"

fun octets :: "string list \<Rightarrow> int \<Rightarrow> int option" where
  "octets [] acc = Some acc"
| "octets (p # ps) acc = (case dec_octet p of None \<Rightarrow> None | Some n \<Rightarrow> octets ps (256 * acc + n))"

definition parse_v4 :: "string \<Rightarrow> int option" where
  "parse_v4 s = (let ps = split_char (CHR ''.'') s in if length ps = 4 then octets ps 0 else None)"

definition hex_value :: "char \<Rightarrow> nat option" where
  "hex_value c = (let n = code c in
     if 48 \<le> n \<and> n \<le> 57 then Some (n - 48)
     else if 97 \<le> n \<and> n \<le> 102 then Some (n - 87)
     else if 65 \<le> n \<and> n \<le> 70 then Some (n - 55) else None)"

definition hextet :: "string \<Rightarrow> int option" where
  "hextet s =
     (if s \<noteq> [] \<and> length s \<le> 4 \<and> list_all (\<lambda>c. hex_value c \<noteq> None) s
      then Some (foldl (\<lambda>a c. 16 * a + int (the (hex_value c))) 0 s) else None)"

fun hextets :: "string list \<Rightarrow> int \<Rightarrow> int option" where
  "hextets [] acc = Some acc"
| "hextets (p # ps) acc = (case hextet p of None \<Rightarrow> None | Some n \<Rightarrow> hextets ps (65536 * acc + n))"

definition hex_text :: "int \<Rightarrow> string" where
  "hex_text n =
     (let ds = dropWhile (\<lambda>c. c = CHR ''0'') (hex_byte (nat (n div 256)) @ hex_byte (nat (n mod 256)))
      in if ds = [] then ''0'' else ds)"

text \<open>The parts of an address with a trailing dotted quad written as two hextets.\<close>

definition v6_parts :: "string \<Rightarrow> string list option" where
  "v6_parts s =
     (let ps = split_char (CHR '':'') s in
      if length ps < 3 then None
      else if CHR ''.'' \<in> set (last ps) then
        map_option (\<lambda>n. butlast ps @ [hex_text (n div 65536), hex_text (n mod 65536)]) (parse_v4 (last ps))
      else Some ps)"

definition v6_number :: "string \<Rightarrow> int option" where
  "v6_number s =
     (case v6_parts s of None \<Rightarrow> None
      | Some ps \<Rightarrow>
        (let skips = filter (\<lambda>i. ps ! i = []) [1 ..< length ps - 1] in
         if s = [] \<or> 9 < length ps \<or> 1 < length skips then None
         else case skips of
           [] \<Rightarrow> if length ps = 8 \<and> hd ps \<noteq> [] \<and> last ps \<noteq> [] then hextets ps 0 else None
         | k # _ \<Rightarrow>
             let hi = (if hd ps = [] then k - 1 else k);
                 lo0 = length ps - k - 1;
                 lo = (if last ps = [] then lo0 - 1 else lo0)
             in if (hd ps = [] \<and> hi \<noteq> 0) \<or> (last ps = [] \<and> lo \<noteq> 0) \<or> 8 < hi + lo + 1 then None
                else case hextets (take hi ps) 0 of None \<Rightarrow> None
                  | Some h \<Rightarrow> hextets (drop (length ps - lo) ps) (65536 ^ (8 - (hi + lo)) * h)))"

definition parse_v6 :: "string \<Rightarrow> (int \<times> string option) option" where
  "parse_v6 s =
     (if CHR ''/'' \<in> set s then None
      else if CHR ''%'' \<in> set s then
        (let scope = after (CHR ''%'') s in
         if scope = [] \<or> CHR ''%'' \<in> set scope then None
         else map_option (\<lambda>n. (n, Some scope)) (v6_number (before (CHR ''%'') s)))
      else map_option (\<lambda>n. (n, None)) (v6_number s))"

definition ip_address :: "string \<Rightarrow> address option" where
  "ip_address s =
     (case parse_v4 s of
        Some n \<Rightarrow> Some (V4 n)
      | None \<Rightarrow> map_option (\<lambda>(n, scope). V6 n scope) (parse_v6 s))"

section \<open>Printing\<close>

definition v4_text :: "int \<Rightarrow> string" where
  "v4_text n =
     join ''.'' (map (dec_digits \<circ> nat)
       [n div 16777216, n div 65536 mod 256, n div 256 mod 256, n mod 256])"

text \<open>The longest run of zero hextets (the first of several), as start and length.\<close>

fun zero_runs :: "nat \<Rightarrow> nat \<Rightarrow> string list \<Rightarrow> (nat \<times> nat) list" where
  "zero_runs i run [] = (if run = 0 then [] else [(i - run, run)])"
| "zero_runs i run (h # hs) =
     (if h = ''0'' then zero_runs (Suc i) (Suc run) hs
      else (if run = 0 then [] else [(i - run, run)]) @ zero_runs (Suc i) 0 hs)"

definition compress :: "string list \<Rightarrow> string list" where
  "compress hs =
     (let best = foldl (\<lambda>(s, n) (s', n'). if n < n' then (s', n') else (s, n)) (0, 0) (zero_runs 0 0 hs) in
      if snd best \<le> 1 then hs
      else let stop = fst best + snd best;
               hs1 = (if stop = length hs then hs @ [[]] else hs);
               hs2 = take (fst best) hs1 @ [[]] @ drop stop hs1
           in if fst best = 0 then [] # hs2 else hs2)"

definition v6_text :: "int \<Rightarrow> string" where
  "v6_text n =
     join '':'' (compress (map (\<lambda>i. hex_text (n div 65536 ^ (7 - i) mod 65536)) [0 ..< 8]))"

definition address_text :: "address \<Rightarrow> string" where
  "address_text a =
     (case a of V4 n \<Rightarrow> v4_text n
      | V6 n scope \<Rightarrow> v6_text n @ (case scope of None \<Rightarrow> [] | Some s \<Rightarrow> CHR ''%'' # s))"

section \<open>Networks\<close>

datatype network = Net4 int nat | Net6 int nat

definition in_network :: "address \<Rightarrow> network \<Rightarrow> bool" where
  "in_network a net =
     (case (a, net) of
        (V4 n, Net4 b p) \<Rightarrow> n div 2 ^ (32 - p) = b div 2 ^ (32 - p)
      | (V6 n _, Net6 b p) \<Rightarrow> n div 2 ^ (128 - p) = b div 2 ^ (128 - p)
      | _ \<Rightarrow> False)"

section \<open>Socket peers\<close>

definition parse_address :: "json \<Rightarrow> address option" where
  "parse_address raw =
     (if raw = JNull \<or> raw = JStr [] then None
      else let text = strip (jstr raw) in
        if CHR '','' \<in> set text \<or> CHR '' '' \<in> set text then None
        else ip_address
          (if startswith text ''['' then before (CHR '']'') (tl text)
           else if count_list text (CHR '':'') = 1 then before (CHR '':'') text
           else text))"

lemma parse_address_no_list:
  assumes "CHR '','' \<in> set s"
  shows "parse_address (JStr s) = None"
proof -
  have "CHR '','' \<in> set (strip s)"
  proof -
    obtain a b where s: "s = a @ CHR '','' # b" using assms by (meson split_list)
    have "\<not> is_space (CHR '','')" by code_simp
    then show ?thesis
      by (simp add: s strip_where_def rstrip_where_def dropWhile_append)
  qed
  then show ?thesis by (auto simp: parse_address_def Let_def)
qed

lemma parse_examples:
  "parse_address (JStr '' 10.77.0.5:80 '') = Some (V4 172818437)"
  "parse_address (JStr ''10.77.0.05'') = None"
  "parse_address (JStr ''1.2.3.4, 10.77.0.5'') = None"
  "map_option address_text (parse_address (JStr ''[2001:DB8:0:0::1]:443'')) = Some ''2001:db8::1''"
  "map_option address_text (parse_address (JStr ''::ffff:10.0.0.1'')) = Some ''::ffff:a00:1''"
  "in_network (V4 172818437) (Net4 172818432 24)"
  by code_simp+

end
