(* ===== verification/Collector.thy ===== *)
theory Collector
  imports Registry Ip_Address
begin

text \<open>
  \<open>platform/collector/bench_collector/ingest.py\<close>: the collector's runs, its intake and its
  buffered writer, over the registry of pending hints.

  Parameters of the operations: the pydantic adapter (\<open>validate\<close>: a raw event becomes a
  validated one or is rejected), whether the database accepts a batch (\<open>db_ok\<close>), the clock and
  fresh ids. One call of an operation is atomic, as between two awaits of the event loop; the
  writer task takes one step of its loop at a time. Log output and \<open>received_at\<close> texts are left out.
\<close>

section \<open>State\<close>

record queued =
  qd_run :: string
  qd_received :: rat
  qd_type :: string
  qd_app :: string
  qd_ts :: "rat option"
  qd_synthetic :: bool
  qd_payload :: obj

record stored =
  sr_run :: string
  sr_seq :: nat
  sr_item :: queued

record run =
  rn_id :: string
  rn_tool :: string
  rn_tool_version :: "string option"
  rn_profile :: "string option"
  rn_targets :: "string list"
  rn_addresses :: "(string, obj) dict"
  rn_notes :: "string option"
  rn_started :: rat
  rn_closed :: "rat option"
  rn_active :: bool
  rn_count :: nat

record collector =
  co_networks :: "network list"
  co_maxsize :: nat
  co_batch :: nat
  co_active :: "string option"
  co_seq :: "(string, nat) dict"
  co_counters :: "(string, nat) dict"
  co_queue :: "queued list list"
  co_runs :: "(string, run) dict"
  co_events :: "stored list"
  co_registry :: registry

definition cnt :: "(string, nat) dict \<Rightarrow> string \<Rightarrow> nat" where
  "cnt d k = (case dict_get d k of None \<Rightarrow> 0 | Some n \<Rightarrow> n)"

definition bump :: "string \<Rightarrow> nat \<Rightarrow> collector \<Rightarrow> collector" where
  "bump k n c = c\<lparr>co_counters := dict_set k (cnt (co_counters c) k + n) (co_counters c)\<rparr>"

definition new_collector :: "network list \<Rightarrow> nat \<Rightarrow> nat \<Rightarrow> rat \<Rightarrow> nat \<Rightarrow> collector" where
  "new_collector nets maxsize batch ttl m =
     \<lparr>co_networks = nets, co_maxsize = maxsize, co_batch = batch, co_active = None, co_seq = [],
      co_counters = [], co_queue = [], co_runs = [], co_events = [], co_registry = new_registry ttl m\<rparr>"

section \<open>Sources\<close>

definition PEER_FIELDS :: "string list" where
  "PEER_FIELDS = [''peer_ip'', ''source_ip'']"

definition peer_address :: "obj \<Rightarrow> address option" where
  "peer_address attrs =
     (case List.map_filter (\<lambda>k. parse_address (jget attrs k)) PEER_FIELDS of [] \<Rightarrow> None | a # _ \<Rightarrow> Some a)"

definition is_synthetic_source :: "collector \<Rightarrow> obj \<Rightarrow> bool" where
  "is_synthetic_source c attrs =
     (case peer_address attrs of None \<Rightarrow> False
      | Some a \<Rightarrow> list_ex (in_network a) (co_networks c))"

definition stamp_registration_peer :: "obj \<Rightarrow> string option \<Rightarrow> obj" where
  "stamp_registration_peer record peer =
     (if jtruthy (jget record ''client_ip'') \<or> \<not> truthy peer then record
      else case parse_address (JStr (the peer)) of
        None \<Rightarrow> record
      | Some a \<Rightarrow> dict_set ''client_ip'' (JStr (address_text a)) record)"

section \<open>Hints\<close>

definition hint_of :: "obj \<Rightarrow> hint" where
  "hint_of r =
     \<lparr>hn_id = str_or (str_field r ''correlation_id'') [], hn_host = str_field r ''destination_host'',
      hn_app = str_or (str_field r ''app'') [], hn_signal = str_or (str_field r ''signal'') [],
      hn_route = str_field r ''route'', hn_param = str_field r ''param'',
      hn_request_id = str_field r ''request_id'', hn_client_ip = str_field r ''client_ip'',
      hn_ttl = num_field r ''ttl'', hn_registered = 0, hn_expires = 0\<rparr>"

definition entry_payload :: "obj \<Rightarrow> hint \<Rightarrow> obj" where
  "entry_payload r h =
     dict_set ''expires_at'' (JFloat (hn_expires h) [])
       (dict_set ''registered_at'' (JFloat (hn_registered h) [])
          (dict_set ''correlation_id'' (JStr (hn_id h)) r))"

definition register_record :: "collector \<Rightarrow> obj \<Rightarrow> rat option \<Rightarrow> rat \<Rightarrow> string \<Rightarrow> collector \<times> obj" where
  "register_record c r ttl now fresh =
     (let ge = register_hint (co_registry c) (hint_of r) ttl now fresh in
      (bump ''correlations'' 1 (c\<lparr>co_registry := fst ge\<rparr>), entry_payload r (snd ge)))"

text \<open>\<open>Queue.put_nowait\<close>: a maximal size of 0 is unbounded.\<close>

definition queue_full :: "collector \<Rightarrow> bool" where
  "queue_full c = (0 < co_maxsize c \<and> co_maxsize c \<le> length (co_queue c))"

definition put_batch :: "collector \<Rightarrow> queued list \<Rightarrow> collector \<times> bool" where
  "put_batch c items =
     (if queue_full c then (bump ''dropped_overflow'' (length items) c, False)
      else (c\<lparr>co_queue := co_queue c @ [items]\<rparr>, True))"

definition enqueue_payload :: "collector \<Rightarrow> obj \<Rightarrow> rat \<Rightarrow> collector \<times> bool" where
  "enqueue_payload c payload now =
     (case co_active c of
        None \<Rightarrow> (bump ''discarded_idle'' 1 c, False)
      | Some r \<Rightarrow>
          put_batch c
            [\<lparr>qd_run = r, qd_received = now, qd_type = jstr (jget payload ''type''),
              qd_app = (case dict_get payload ''app'' of None \<Rightarrow> [] | Some a \<Rightarrow> jstr a),
              qd_ts = num_field payload ''ts'', qd_synthetic = jtruthy (jget payload ''synthetic''),
              qd_payload = payload\<rparr>])"

definition register_correlation ::
  "collector \<Rightarrow> obj \<Rightarrow> string option \<Rightarrow> rat \<Rightarrow> string \<Rightarrow> collector \<times> obj" where
  "register_correlation c spec peer now fresh =
     (let r1 = stamp_registration_peer (dict_set ''type'' (JStr ''correlation'') spec) peer;
          r2 = (if is_synthetic_source c spec then dict_set ''synthetic'' (JBool True) r1 else r1);
          ce = register_record c r2 (num_field spec ''ttl'') now fresh;
          c1 = bump ''received'' 1 (fst ce)
      in (fst (enqueue_payload c1 (snd ce) now), snd ce))"

section \<open>Intake\<close>

text \<open>A validated event: the attributes (with the extra fields), and what \<open>dump_event\<close> makes of it.\<close>

record vevent =
  ve_type :: string
  ve_app :: string
  ve_ts :: "rat option"
  ve_synthetic :: bool
  ve_fields :: obj
  ve_payload :: obj

definition MAX_EVENTS_PER_BATCH :: nat where "MAX_EVENTS_PER_BATCH = 500"

definition signal_type :: "string \<Rightarrow> bool" where
  "signal_type t = (t = ''signal'' \<or> t = ''trigger'')"

record intake =
  in_col :: collector
  in_accepted :: "queued list"
  in_dropped :: nat
  in_idle :: nat
  in_over :: nat

definition intake_event ::
  "string option \<Rightarrow> rat \<Rightarrow> string \<Rightarrow> vevent \<Rightarrow> intake \<Rightarrow> intake" where
  "intake_event peer now fresh ev st =
     (let c = in_col st;
          by_source = (\<not> ve_synthetic ev \<and> is_synthetic_source c (ve_fields ev));
          synthetic = (ve_synthetic ev \<or> is_synthetic_source c (ve_fields ev));
          c1 = (if by_source then bump ''synthetic_by_source'' 1 c else c);
          p1 = dict_set ''synthetic'' (JBool synthetic) (ve_payload ev);
          unpeered = (signal_type (ve_type ev) \<and> peer_address (ve_fields ev) = None);
          p2 = (if unpeered then dict_set ''peer_missing'' (JBool True) p1 else p1);
          c2 = (if unpeered then bump ''signals_without_peer'' 1 c1 else c1);
          cp = (if ve_type ev = ''correlation''
                then (let r = stamp_registration_peer p2 peer in
                      register_record c2 r (num_field r ''ttl'') now fresh)
                else (c2, p2))
      in case co_active c of
           None \<Rightarrow> st\<lparr>in_col := fst cp, in_idle := in_idle st + 1\<rparr>
         | Some r \<Rightarrow> st\<lparr>in_col := fst cp, in_accepted := in_accepted st @
              [\<lparr>qd_run = r, qd_received = now, qd_type = ve_type ev, qd_app = ve_app ev, qd_ts = ve_ts ev,
                qd_synthetic = synthetic, qd_payload = snd cp\<rparr>]\<rparr>)"

definition intake_step ::
  "(json \<Rightarrow> vevent option) \<Rightarrow> string option \<Rightarrow> rat \<Rightarrow> (nat \<Rightarrow> string) \<Rightarrow> intake \<Rightarrow> nat \<times> json \<Rightarrow> intake" where
  "intake_step validate peer now fresh st ir =
     (if MAX_EVENTS_PER_BATCH \<le> fst ir then st\<lparr>in_over := in_over st + 1\<rparr>
      else case validate (snd ir) of
        None \<Rightarrow> st\<lparr>in_dropped := in_dropped st + 1\<rparr>
      | Some ev \<Rightarrow> intake_event peer now (fresh (fst ir)) ev st)"

record submit_reply =
  rp_accepted :: nat
  rp_dropped :: nat
  rp_idle :: nat

definition submit ::
  "(json \<Rightarrow> vevent option) \<Rightarrow> collector \<Rightarrow> json list \<Rightarrow> string option \<Rightarrow> rat \<Rightarrow> (nat \<Rightarrow> string) \<Rightarrow>
   collector \<times> submit_reply" where
  "submit validate c raws peer now fresh =
     (let st = foldl (intake_step validate peer now fresh)
            \<lparr>in_col = c, in_accepted = [], in_dropped = 0, in_idle = 0, in_over = 0\<rparr>
            (zip [0 ..< length raws] raws);
          n = length (in_accepted st);
          c1 = bump ''discarded_idle'' (in_idle st) (bump ''dropped_over_batch'' (in_over st)
                (bump ''dropped_invalid'' (in_dropped st)
                  (bump ''received'' (n + in_dropped st + in_idle st + in_over st) (in_col st))));
          cq = (if in_accepted st \<noteq> [] then put_batch c1 (in_accepted st) else (c1, False))
      in (fst cq, \<lparr>rp_accepted = (if snd cq then n else 0), rp_dropped = in_dropped st + in_over st,
                   rp_idle = in_idle st\<rparr>))"

text \<open>The endpoint \<open>POST /v1/events\<close> of \<open>app.py\<close>: a body that is no batch counts as one drop.\<close>

definition ingest_events ::
  "(json \<Rightarrow> vevent option) \<Rightarrow> collector \<Rightarrow> json option \<Rightarrow> string option \<Rightarrow> rat \<Rightarrow> (nat \<Rightarrow> string) \<Rightarrow>
   collector \<times> submit_reply" where
  "ingest_events validate c body peer now fresh =
     (case body of
        Some (JObj d) \<Rightarrow>
          (case jget d ''events'' of
             JList raws \<Rightarrow> submit validate c raws peer now fresh
           | _ \<Rightarrow> (bump ''dropped_invalid'' 1 c, \<lparr>rp_accepted = 0, rp_dropped = 1, rp_idle = 0\<rparr>))
      | _ \<Rightarrow> (bump ''dropped_invalid'' 1 c, \<lparr>rp_accepted = 0, rp_dropped = 1, rp_idle = 0\<rparr>))"

section \<open>The writer\<close>

fun coalesce :: "nat \<Rightarrow> queued list \<Rightarrow> queued list list \<Rightarrow> queued list \<times> queued list list" where
  "coalesce limit items [] = (items, [])"
| "coalesce limit items (b # q) =
     (if length items < limit then coalesce limit (items @ b) q else (items, b # q))"

fun number_rows :: "(string, nat) dict \<Rightarrow> queued list \<Rightarrow> (string, nat) dict \<times> stored list" where
  "number_rows sq [] = (sq, [])"
| "number_rows sq (x # xs) =
     (let n = cnt sq (qd_run x) + 1;
          rest = number_rows (dict_set (qd_run x) n sq) xs
      in (fst rest, \<lparr>sr_run = qd_run x, sr_seq = n, sr_item = x\<rparr> # snd rest))"

definition add_count :: "stored list \<Rightarrow> string \<times> run \<Rightarrow> string \<times> run" where
  "add_count rows kr =
     (fst kr, (snd kr)\<lparr>rn_count := rn_count (snd kr) + length (filter (\<lambda>x. sr_run x = fst kr) rows)\<rparr>)"

definition write_items :: "(queued list \<Rightarrow> bool) \<Rightarrow> collector \<Rightarrow> queued list \<Rightarrow> collector" where
  "write_items db_ok c items =
     (if items = [] then c
      else
        let sr = number_rows (co_seq c) items; c1 = c\<lparr>co_seq := fst sr\<rparr> in
        if db_ok items
        then bump ''written'' (length (snd sr))
               (c1\<lparr>co_events := co_events c1 @ snd sr, co_runs := map (add_count (snd sr)) (co_runs c1)\<rparr>)
        else bump ''dropped_write_error'' (length items) c1)"

definition writer_step :: "(queued list \<Rightarrow> bool) \<Rightarrow> collector \<Rightarrow> collector" where
  "writer_step db_ok c =
     (case co_queue c of
        [] \<Rightarrow> c
      | b # q \<Rightarrow>
          (let iq = coalesce (co_batch c) b q in write_items db_ok (c\<lparr>co_queue := snd iq\<rparr>) (fst iq)))"

text \<open>\<open>flush\<close> waits until the writer has emptied the queue.\<close>

definition flush :: "(queued list \<Rightarrow> bool) \<Rightarrow> collector \<Rightarrow> collector" where
  "flush db_ok c = (writer_step db_ok ^^ length (co_queue c)) c"

section \<open>Runs\<close>

record run_spec =
  rc_tool :: string
  rc_tool_version :: "string option"
  rc_profile :: "string option"
  rc_targets :: "string list"
  rc_addresses :: "(string, obj) dict"
  rc_notes :: "string option"

definition merge_addresses ::
  "(string, obj) dict \<Rightarrow> (string, obj) dict option \<Rightarrow> (string, obj) dict option" where
  "merge_addresses existing closing =
     (case closing of
        None \<Rightarrow> None
      | Some cl \<Rightarrow>
          if cl = [] then None
          else Some (foldl (\<lambda>m (app, rec).
             dict_set app (foldl (\<lambda>d (k, v). dict_set k v d) (get_or (dict_get m app) []) rec) m) existing cl))"

definition close_run_locked ::
  "collector \<Rightarrow> string \<Rightarrow> (string, obj) dict option \<Rightarrow> rat \<Rightarrow> collector \<times> run option" where
  "close_run_locked c i closing now =
     (case dict_get (co_runs c) i of
        None \<Rightarrow> (c, None)
      | Some r \<Rightarrow>
          (let merged = merge_addresses (rn_addresses r) closing;
               r1 = (case merged of None \<Rightarrow> r | Some m \<Rightarrow> r\<lparr>rn_addresses := m\<rparr>);
               r2 = (if rn_active r \<or> merged \<noteq> None
                     then r1\<lparr>rn_active := False,
                             rn_closed := (if rn_closed r1 = None then Some now else rn_closed r1)\<rparr>
                     else r1);
               c1 = c\<lparr>co_runs := dict_set i r2 (co_runs c)\<rparr>
           in (if co_active c = Some i then c1\<lparr>co_active := None\<rparr> else c1, Some r2)))"

definition close_run ::
  "(queued list \<Rightarrow> bool) \<Rightarrow> collector \<Rightarrow> string \<Rightarrow> (string, obj) dict option \<Rightarrow> rat \<Rightarrow>
   collector \<times> run option" where
  "close_run db_ok c i closing now = close_run_locked (flush db_ok c) i closing now"

text \<open>\<open>DbError\<close>: the primary key of the new run is taken, so the insert fails.\<close>

datatype open_result = Opened run | Conflict | DbError

definition open_run :: "collector \<Rightarrow> run_spec \<Rightarrow> bool \<Rightarrow> rat \<Rightarrow> string \<Rightarrow> collector \<times> open_result" where
  "open_run c spec force now fresh =
     (if co_active c \<noteq> None \<and> \<not> force then (c, Conflict)
      else
        let c1 = (case co_active c of None \<Rightarrow> c | Some i \<Rightarrow> fst (close_run_locked c i None now));
            r = \<lparr>rn_id = fresh, rn_tool = rc_tool spec, rn_tool_version = rc_tool_version spec,
                 rn_profile = rc_profile spec, rn_targets = rc_targets spec,
                 rn_addresses = rc_addresses spec, rn_notes = rc_notes spec, rn_started = now,
                 rn_closed = None, rn_active = True, rn_count = 0\<rparr>
        in if dict_get (co_runs c1) fresh \<noteq> None then (c1, DbError)
           else (c1\<lparr>co_runs := dict_set fresh r (co_runs c1), co_seq := dict_set fresh 0 (co_seq c1),
                    co_active := Some fresh\<rparr>, Opened r))"

text \<open>A restart: memory is lost, the database stays; the latest active run is adopted again.\<close>

definition restart :: "collector \<Rightarrow> collector" where
  "restart c =
     (let fresh = (new_collector (co_networks c) (co_maxsize c) (co_batch c) (rg_ttl (co_registry c))
                     (rg_max (co_registry c)))\<lparr>co_runs := co_runs c, co_events := co_events c\<rparr>
      in case rev (sort_key rn_started (filter rn_active (map snd (co_runs c)))) of
           [] \<Rightarrow> fresh
         | r # _ \<Rightarrow>
             fresh\<lparr>co_active := Some (rn_id r),
                   co_seq := [(rn_id r, foldr max
                     (map sr_seq (filter (\<lambda>x. sr_run x = rn_id r) (co_events c))) 0)]\<rparr>)"

section \<open>Reading\<close>

definition type_names :: "string \<Rightarrow> string list" where
  "type_names t = (if signal_type t then [''signal'', ''trigger''] else [t])"

record page =
  pg_next :: "nat option"
  pg_rows :: "stored list"

definition select_events ::
  "collector \<Rightarrow> string \<Rightarrow> string option \<Rightarrow> nat option \<Rightarrow> nat \<Rightarrow> page" where
  "select_events c i ty after_seq limit =
     (let rows = take limit (sort_key sr_seq (filter (\<lambda>x. sr_run x = i
            \<and> (case ty of None \<Rightarrow> True | Some t \<Rightarrow> qd_type (sr_item x) \<in> set (type_names t))
            \<and> (case after_seq of None \<Rightarrow> True | Some n \<Rightarrow> n < sr_seq x)) (co_events c)))
      in \<lparr>pg_next = (if rows = [] then None else Some (sr_seq (last rows))), pg_rows = rows\<rparr>)"

definition get_events ::
  "(queued list \<Rightarrow> bool) \<Rightarrow> collector \<Rightarrow> string \<Rightarrow> string option \<Rightarrow> nat option \<Rightarrow> nat \<Rightarrow>
   collector \<times> page" where
  "get_events db_ok c i ty after_seq limit =
     (let c1 = flush db_ok c in (c1, select_events c1 i ty after_seq limit))"

definition DROPS :: "string list" where
  "DROPS = [''dropped_invalid'', ''dropped_overflow'', ''dropped_over_batch'', ''dropped_write_error'']"

definition dropped_total :: "collector \<Rightarrow> nat" where
  "dropped_total c = sum_list (map (cnt (co_counters c)) DROPS)"

datatype collector_op =
    CRegister obj "string option" rat string
  | CSubmit "json list" "string option" rat "nat \<Rightarrow> string"
  | CWrite
  | CFlush
  | COpen run_spec bool rat string
  | CClose string "(string, obj) dict option" rat
  | CRestart

fun collector_step ::
  "(json \<Rightarrow> vevent option) \<Rightarrow> (queued list \<Rightarrow> bool) \<Rightarrow> collector \<Rightarrow> collector_op \<Rightarrow> collector" where
  "collector_step validate db_ok c (CRegister spec peer now fresh) = fst (register_correlation c spec peer now fresh)"
| "collector_step validate db_ok c (CSubmit raws peer now fresh) = fst (submit validate c raws peer now fresh)"
| "collector_step validate db_ok c CWrite = writer_step db_ok c"
| "collector_step validate db_ok c CFlush = flush db_ok c"
| "collector_step validate db_ok c (COpen spec force now fresh) = fst (open_run c spec force now fresh)"
| "collector_step validate db_ok c (CClose i closing now) = fst (close_run db_ok c i closing now)"
| "collector_step validate db_ok c CRestart = restart c"

end
