(* ===== verification/Collector_Facts.thy ===== *)
theory Collector_Facts
  imports Collector Events
begin

text \<open>
  What every sequence of collector operations keeps: the ledger of received events, at most one
  active run and the pointer to it, sequence numbers that increase per run, and the run's event
  count. Paging through an export returns the run.
\<close>

section \<open>The ledger\<close>

definition SINKS :: "string list" where
  "SINKS = [''written'', ''dropped_invalid'', ''dropped_over_batch'', ''dropped_overflow'',
     ''dropped_write_error'', ''discarded_idle'']"

abbreviation count_of :: "collector \<Rightarrow> string \<Rightarrow> nat" where
  "count_of c k \<equiv> cnt (co_counters c) k"

definition settled :: "collector \<Rightarrow> nat" where
  "settled c = sum_list (map (count_of c) SINKS)"

definition queued_total :: "collector \<Rightarrow> nat" where
  "queued_total c = sum_list (map length (co_queue c))"

definition ledger :: "collector \<Rightarrow> bool" where
  "ledger c \<longleftrightarrow> count_of c ''received'' = settled c + queued_total c"

lemma cnt_bump [simp]: "count_of (bump k n c) j = count_of c j + (if j = k then n else 0)"
  by (simp add: bump_def cnt_def)

lemma bump_fields [simp]:
  "co_queue (bump k n c) = co_queue c" "co_active (bump k n c) = co_active c"
  "co_seq (bump k n c) = co_seq c" "co_runs (bump k n c) = co_runs c"
  "co_events (bump k n c) = co_events c" "co_batch (bump k n c) = co_batch c"
  "co_maxsize (bump k n c) = co_maxsize c" "co_registry (bump k n c) = co_registry c"
  "co_networks (bump k n c) = co_networks c"
  by (simp_all add: bump_def)

lemma settled_bump [simp]: "settled (bump k n c) = settled c + (if k \<in> set SINKS then n else 0)"
  by (simp add: settled_def SINKS_def)

lemma queued_bump [simp]: "queued_total (bump k n c) = queued_total c"
  by (simp add: queued_total_def)

lemma settled_cong: "co_counters c = co_counters c' \<Longrightarrow> settled c = settled c'"
  by (simp add: settled_def)

lemma SINKS_mem [simp]:
  "''received'' \<notin> set SINKS" "''correlations'' \<notin> set SINKS" "''synthetic_by_source'' \<notin> set SINKS"
  "''signals_without_peer'' \<notin> set SINKS" "''written'' \<in> set SINKS" "''dropped_overflow'' \<in> set SINKS"
  "''discarded_idle'' \<in> set SINKS" "''dropped_invalid'' \<in> set SINKS" "''dropped_over_batch'' \<in> set SINKS"
  "''dropped_write_error'' \<in> set SINKS"
  by (simp_all add: SINKS_def)

text \<open>Everything that an intake operation settles or queues.\<close>

definition balance :: "collector \<Rightarrow> nat" where
  "balance c = settled c + queued_total c"

lemma balance_put: "balance (fst (put_batch c items)) = balance c + length items"
  by (simp add: put_batch_def balance_def queued_total_def settled_def SINKS_def)

lemma received_put [simp]: "count_of (fst (put_batch c items)) ''received'' = count_of c ''received''"
  by (simp add: put_batch_def)

lemma balance_register [simp]:
  "balance (fst (register_record c r ttl now fresh)) = balance c"
  "count_of (fst (register_record c r ttl now fresh)) ''received'' = count_of c ''received''"
  by (simp_all add: register_record_def Let_def balance_def queued_total_def settled_def SINKS_def)

lemma balance_bump [simp]: "balance (bump k n c) = balance c + (if k \<in> set SINKS then n else 0)"
  by (simp add: balance_def)

lemma balance_enqueue:
  "balance (fst (enqueue_payload c p now)) = balance c + 1"
  "count_of (fst (enqueue_payload c p now)) ''received'' = count_of c ''received''"
  by (simp_all add: enqueue_payload_def balance_put split: option.split)

lemma ledger_register_correlation: "ledger c \<Longrightarrow> ledger (fst (register_correlation c spec peer now fresh))"
  using balance_enqueue
  by (simp add: ledger_def register_correlation_def Let_def flip: balance_def)

lemma intake_event_balance:
  "balance (in_col (intake_event peer now fresh ev st)) = balance (in_col st)
   \<and> count_of (in_col (intake_event peer now fresh ev st)) ''received'' = count_of (in_col st) ''received''"
  by (simp add: intake_event_def Let_def split: option.split)

lemma intake_fold_balance:
  "balance (in_col (foldl (intake_step validate peer now fresh) st irs)) = balance (in_col st)
   \<and> count_of (in_col (foldl (intake_step validate peer now fresh) st irs)) ''received''
       = count_of (in_col st) ''received''"
  by (induction irs arbitrary: st) (simp_all add: intake_step_def intake_event_balance split: option.split)

lemma ledger_submit: "ledger c \<Longrightarrow> ledger (fst (submit validate c raws peer now fresh))"
  using intake_fold_balance [of validate peer now fresh
      "\<lparr>in_col = c, in_accepted = [], in_dropped = 0, in_idle = 0, in_over = 0\<rparr>"
      "zip [0 ..< length raws] raws"]
  by (simp add: ledger_def submit_def Let_def balance_put flip: balance_def)

lemma length_number_rows [simp]: "length (snd (number_rows sq xs)) = length xs"
  by (induction xs arbitrary: sq) (simp_all add: Let_def)

lemma coalesce_total:
  "length (fst (coalesce n items q)) + sum_list (map length (snd (coalesce n items q)))
     = length items + sum_list (map length q)"
  by (induction n items q rule: coalesce.induct) auto

lemma write_items_balance:
  "balance (write_items db_ok c items) = balance c + length items
   \<and> count_of (write_items db_ok c items) ''received'' = count_of c ''received''"
  by (simp add: write_items_def Let_def balance_def queued_total_def settled_def SINKS_def)

lemma ledger_writer_step: "ledger c \<Longrightarrow> ledger (writer_step db_ok c)"
proof (cases "co_queue c")
  case (Cons b q)
  assume "ledger c"
  then show ?thesis
    using write_items_balance [of db_ok "c\<lparr>co_queue := snd (coalesce (co_batch c) b q)\<rparr>"
        "fst (coalesce (co_batch c) b q)"] coalesce_total [of "co_batch c" b q] Cons
    by (simp add: ledger_def writer_step_def Let_def balance_def queued_total_def settled_def)
qed (simp add: writer_step_def)

lemma ledger_flush: "ledger c \<Longrightarrow> ledger (flush db_ok c)"
proof -
  have "ledger c \<Longrightarrow> ledger ((writer_step db_ok ^^ n) c)" for n
    by (induction n) (simp_all add: ledger_writer_step)
  then show "ledger c \<Longrightarrow> ?thesis" by (simp add: flush_def)
qed

lemma close_run_locked_frame [simp]:
  "co_counters (fst (close_run_locked c i closing now)) = co_counters c"
  "co_queue (fst (close_run_locked c i closing now)) = co_queue c"
  "co_seq (fst (close_run_locked c i closing now)) = co_seq c"
  "co_events (fst (close_run_locked c i closing now)) = co_events c"
  by (simp_all add: close_run_locked_def Let_def split: option.split)

lemma open_run_frame [simp]:
  "co_counters (fst (open_run c spec force now fresh)) = co_counters c"
  "co_queue (fst (open_run c spec force now fresh)) = co_queue c"
  "co_events (fst (open_run c spec force now fresh)) = co_events c"
  by (simp_all add: open_run_def Let_def split: option.split)

lemma ledger_cong: "co_counters c' = co_counters c \<Longrightarrow> co_queue c' = co_queue c \<Longrightarrow> ledger c' = ledger c"
  by (simp add: ledger_def settled_def queued_total_def)

lemma restart_fields [simp]:
  "co_counters (restart c) = []" "co_queue (restart c) = []" "co_runs (restart c) = co_runs c"
  "co_events (restart c) = co_events c"
  by (simp_all add: restart_def Let_def new_collector_def split: list.split)

lemma ledger_step: "ledger c \<Longrightarrow> ledger (collector_step validate db_ok c op)"
proof (cases op)
  case (CClose i closing now)
  assume "ledger c"
  then show ?thesis using CClose ledger_flush [of c db_ok]
    by (simp add: close_run_def ledger_cong [of "fst (close_run_locked (flush db_ok c) i closing now)" "flush db_ok c"])
next
  case (COpen spec force now fresh)
  assume "ledger c"
  then show ?thesis using COpen by (simp add: ledger_cong [of "fst (open_run c spec force now fresh)" c])
next
  case CRestart
  then show ?thesis by (simp add: ledger_def settled_def queued_total_def cnt_def SINKS_def)
qed (simp_all add: ledger_register_correlation ledger_submit ledger_writer_step ledger_flush)

interpretation bookkeeping: invariant_machine "collector_step validate db_ok" ledger for validate db_ok
  by unfold_locales (rule ledger_step)


text \<open>The endpoint breaks the ledger: a body that is no batch is a drop that was never received.\<close>

lemma malformed_body_unbalanced:
  "\<not> ledger (fst (ingest_events validate (new_collector nets maxsize batch ttl m) None peer now fresh))"
  by (simp add: ingest_events_def ledger_def settled_def queued_total_def new_collector_def bump_def cnt_def SINKS_def)

text \<open>The reply of \<open>submit\<close> loses an overflowed batch: nothing accepted, nothing dropped.\<close>

lemma overflow_unreported:
  "let c = (new_collector [] 1 500 60 10)\<lparr>co_active := Some ''r'', co_queue := [[]]\<rparr>;
       ev = \<lparr>ve_type = ''note'', ve_app = ''shop'', ve_ts = None, ve_synthetic = False, ve_fields = [], ve_payload = []\<rparr>;
       out = submit (\<lambda>_. Some ev) c [JNull] None 0 (\<lambda>_. ''id'')
   in rp_accepted (snd out) = 0 \<and> rp_dropped (snd out) = 0 \<and> rp_idle (snd out) = 0
      \<and> count_of (fst out) ''dropped_overflow'' = 1"
  by code_simp

section \<open>Runs and sequence numbers\<close>

definition seqs :: "collector \<Rightarrow> string \<Rightarrow> nat list" where
  "seqs c i = map sr_seq (filter (\<lambda>x. sr_run x = i) (co_events c))"

definition pending_runs :: "collector \<Rightarrow> string set" where
  "pending_runs c = qd_run ` set (concat (co_queue c))"

definition runs_ok :: "collector \<Rightarrow> bool" where
  "runs_ok c \<longleftrightarrow> dict_ok (co_runs c) \<and> (\<forall>(k, r)\<in>set (co_runs c). rn_id r = k)
     \<and> (\<forall>(k, r)\<in>set (co_runs c). rn_active r \<longleftrightarrow> co_active c = Some k)
     \<and> set_option (co_active c) \<subseteq> fst ` set (co_runs c)"

definition seqs_ok :: "collector \<Rightarrow> bool" where
  "seqs_ok c \<longleftrightarrow> sr_run ` set (co_events c) \<union> pending_runs c \<subseteq> fst ` set (co_runs c)
     \<and> (\<forall>i. sorted_wrt (<) (seqs c i))
     \<and> (\<forall>i\<in>set_option (co_active c) \<union> pending_runs c. \<forall>n\<in>set (seqs c i). n \<le> cnt (co_seq c) i)
     \<and> (\<forall>(k, r)\<in>set (co_runs c). rn_count r = length (seqs c k))"

definition collector_ok :: "collector \<Rightarrow> bool" where
  "collector_ok c \<longleftrightarrow> runs_ok c \<and> seqs_ok c"

text \<open>Both parts read only some of the fields.\<close>

lemma collector_ok_cong:
  assumes ok: "collector_ok c" and runs: "co_runs c' = co_runs c" and act: "co_active c' = co_active c"
    and sq: "co_seq c' = co_seq c" and ev: "co_events c' = co_events c"
    and pend: "pending_runs c' \<subseteq> pending_runs c \<union> set_option (co_active c)"
  shows "collector_ok c'"
proof -
  let ?K = "fst ` set (co_runs c)"
  have r: "runs_ok c'" using ok by (simp add: collector_ok_def runs_ok_def runs act)
  have so: "seqs_ok c" and act_known: "set_option (co_active c) \<subseteq> ?K"
    using ok by (simp_all add: collector_ok_def runs_ok_def)
  have eq: "seqs c' i = seqs c i" for i by (simp add: seqs_def ev)
  have known: "sr_run ` set (co_events c) \<union> pending_runs c \<subseteq> ?K"
    and srt: "\<forall>i. sorted_wrt (<) (seqs c i)"
    and bnd: "\<forall>i\<in>set_option (co_active c) \<union> pending_runs c. \<forall>n\<in>set (seqs c i). n \<le> cnt (co_seq c) i"
    and cts: "\<forall>(k, r)\<in>set (co_runs c). rn_count r = length (seqs c k)"
    using so unfolding seqs_ok_def by simp_all
  have "sr_run ` set (co_events c) \<union> pending_runs c' \<subseteq> ?K" using known act_known pend by blast
  moreover have "\<forall>i\<in>set_option (co_active c) \<union> pending_runs c'. \<forall>n\<in>set (seqs c i). n \<le> cnt (co_seq c) i"
    using bnd pend by blast
  ultimately have "seqs_ok c'" using srt cts unfolding seqs_ok_def eq runs act sq ev by blast
  then show ?thesis using r by (simp add: collector_ok_def)
qed

lemma enqueue_frame:
  "co_runs (fst (put_batch c items)) = co_runs c" "co_active (fst (put_batch c items)) = co_active c"
  "co_seq (fst (put_batch c items)) = co_seq c" "co_events (fst (put_batch c items)) = co_events c"
  "pending_runs (fst (put_batch c items)) \<subseteq> pending_runs c \<union> qd_run ` set items"
  by (auto simp: put_batch_def pending_runs_def)

lemma register_frame [simp]:
  "co_runs (fst (register_record c r ttl now fresh)) = co_runs c"
  "co_active (fst (register_record c r ttl now fresh)) = co_active c"
  "co_seq (fst (register_record c r ttl now fresh)) = co_seq c"
  "co_events (fst (register_record c r ttl now fresh)) = co_events c"
  "co_queue (fst (register_record c r ttl now fresh)) = co_queue c"
  by (simp_all add: register_record_def Let_def)

definition same_runs :: "collector \<Rightarrow> collector \<Rightarrow> bool" where
  "same_runs c c' \<longleftrightarrow> co_runs c' = co_runs c \<and> co_active c' = co_active c \<and> co_seq c' = co_seq c
     \<and> co_events c' = co_events c"

lemma same_runs_ok:
  "collector_ok c \<Longrightarrow> same_runs c c' \<Longrightarrow> pending_runs c' \<subseteq> pending_runs c \<union> set_option (co_active c) \<Longrightarrow>
     collector_ok c'"
  by (rule collector_ok_cong [of c]) (simp_all add: same_runs_def)

lemma ok_register_correlation:
  assumes "collector_ok c" shows "collector_ok (fst (register_correlation c spec peer now fresh))"
proof (rule same_runs_ok [OF assms])
  show "same_runs c (fst (register_correlation c spec peer now fresh))"
    by (simp add: same_runs_def register_correlation_def Let_def enqueue_payload_def enqueue_frame split: option.split)
  show "pending_runs (fst (register_correlation c spec peer now fresh)) \<subseteq> pending_runs c \<union> set_option (co_active c)"
    by (auto simp: register_correlation_def Let_def enqueue_payload_def put_batch_def pending_runs_def
        split: option.splits)
qed

lemma intake_event_frame:
  "same_runs (in_col st) (in_col (intake_event peer now fresh ev st))
   \<and> co_queue (in_col (intake_event peer now fresh ev st)) = co_queue (in_col st)
   \<and> qd_run ` set (in_accepted (intake_event peer now fresh ev st))
       \<subseteq> qd_run ` set (in_accepted st) \<union> set_option (co_active (in_col st))"
  by (auto simp: intake_event_def Let_def same_runs_def split: option.splits if_splits)

lemma intake_step_frame:
  "same_runs (in_col st) (in_col (intake_step validate peer now fresh st ir))
   \<and> co_queue (in_col (intake_step validate peer now fresh st ir)) = co_queue (in_col st)
   \<and> qd_run ` set (in_accepted (intake_step validate peer now fresh st ir))
       \<subseteq> qd_run ` set (in_accepted st) \<union> set_option (co_active (in_col st))"
  using intake_event_frame
  by (simp add: intake_step_def same_runs_def split: option.split)

lemma intake_fold_frame:
  "same_runs (in_col st) (in_col (foldl (intake_step validate peer now fresh) st irs))
   \<and> co_queue (in_col (foldl (intake_step validate peer now fresh) st irs)) = co_queue (in_col st)
   \<and> qd_run ` set (in_accepted (foldl (intake_step validate peer now fresh) st irs))
       \<subseteq> qd_run ` set (in_accepted st) \<union> set_option (co_active (in_col st))"
proof (induction irs arbitrary: st)
  case (Cons ir irs)
  show ?case
    using Cons.IH [of "intake_step validate peer now fresh st ir"]
      intake_step_frame [of st validate peer now fresh ir]
    unfolding foldl_Cons same_runs_def by auto
qed (simp add: same_runs_def)

lemma ok_submit:
  assumes "collector_ok c" shows "collector_ok (fst (submit validate c raws peer now fresh))"
proof -
  define st where "st = foldl (intake_step validate peer now fresh)
      \<lparr>in_col = c, in_accepted = [], in_dropped = 0, in_idle = 0, in_over = 0\<rparr> (zip [0 ..< length raws] raws)"
  have st: "same_runs c (in_col st)" "co_queue (in_col st) = co_queue c"
    "qd_run ` set (in_accepted st) \<subseteq> set_option (co_active c)"
    using intake_fold_frame [of "\<lparr>in_col = c, in_accepted = [], in_dropped = 0, in_idle = 0, in_over = 0\<rparr>"
        validate peer now fresh "zip [0 ..< length raws] raws"]
    by (simp_all add: st_def)
  show ?thesis
  proof (rule same_runs_ok [OF assms])
    show "same_runs c (fst (submit validate c raws peer now fresh))"
      using st(1) by (simp add: submit_def Let_def same_runs_def enqueue_frame flip: st_def)
    show "pending_runs (fst (submit validate c raws peer now fresh)) \<subseteq> pending_runs c \<union> set_option (co_active c)"
      using st(2,3) by (auto simp: submit_def Let_def put_batch_def pending_runs_def simp flip: st_def)
  qed
qed

subsection \<open>Writing\<close>

lemma cnt_set [simp]: "cnt (dict_set k n sq) i = (if i = k then n else cnt sq i)"
  by (simp add: cnt_def)

lemma number_rows_runs: "map sr_run (snd (number_rows sq xs)) = map qd_run xs"
  by (induction xs arbitrary: sq) (simp_all add: Let_def)

lemma number_rows_seq: "cnt (fst (number_rows sq xs)) i = cnt sq i + length (filter (\<lambda>x. qd_run x = i) xs)"
  by (induction xs arbitrary: sq) (simp_all add: Let_def)

lemma number_rows_seqs:
  "map sr_seq (filter (\<lambda>x. sr_run x = i) (snd (number_rows sq xs)))
     = [cnt sq i + 1 ..< cnt sq i + 1 + length (filter (\<lambda>x. qd_run x = i) xs)]"
proof (induction xs arbitrary: sq)
  case (Cons x xs)
  show ?case by (simp add: Let_def Cons.IH upt_conv_Cons del: upt_Suc)
qed simp

lemma add_count_keys [simp]: "fst ` set (map (add_count rows) d) = fst ` set d"
  by (auto simp: add_count_def image_image)

lemma dict_ok_add_count: "dict_ok (map (add_count rows) d) = dict_ok d"
  by (simp add: dict_ok_def comp_def add_count_def)

lemma ok_write_items:
  assumes ok: "collector_ok c" and items: "qd_run ` set items \<subseteq> fst ` set (co_runs c)"
    and bound: "\<forall>i\<in>qd_run ` set items. \<forall>n\<in>set (seqs c i). n \<le> cnt (co_seq c) i"
  shows "collector_ok (write_items db_ok c items)"
proof -
  let ?nr = "number_rows (co_seq c) items"
  consider (nil) "items = []" | (fail) "items \<noteq> []" "\<not> db_ok items" | (good) "items \<noteq> []" "db_ok items"
    by blast
  then show ?thesis
  proof cases
    case nil
    then show ?thesis using ok by (simp add: write_items_def)
  next
    case fail
    have le: "cnt (co_seq c) i \<le> cnt (fst ?nr) i" for i by (simp add: number_rows_seq)
    have so: "seqs_ok c" and ro: "runs_ok c" using ok by (simp_all add: collector_ok_def)
    let ?c = "write_items db_ok c items"
    have f: "co_runs ?c = co_runs c" "co_active ?c = co_active c" "co_seq ?c = fst ?nr"
      "co_events ?c = co_events c" "co_queue ?c = co_queue c"
      using fail by (simp_all add: write_items_def Let_def)
    have eq: "seqs ?c i = seqs c i" "pending_runs ?c = pending_runs c" for i
      by (simp_all add: seqs_def pending_runs_def f)
    have "\<forall>i\<in>set_option (co_active c) \<union> pending_runs c. \<forall>n\<in>set (seqs c i). n \<le> cnt (fst ?nr) i"
      using so le unfolding seqs_ok_def by (meson order_trans)
    then have "seqs_ok ?c" using so unfolding seqs_ok_def f(1-4) eq by blast
    moreover have "runs_ok ?c" using ro unfolding runs_ok_def f(1,2) .
    ultimately show ?thesis by (simp add: collector_ok_def)
  next
    case good
    let ?c = "write_items db_ok c items"
    have f: "co_runs ?c = map (add_count (snd ?nr)) (co_runs c)" "co_active ?c = co_active c"
      "co_seq ?c = fst ?nr" "co_events ?c = co_events c @ snd ?nr" "co_queue ?c = co_queue c"
      using good by (simp_all add: write_items_def Let_def)
    have sq: "seqs ?c i = seqs c i @ [cnt (co_seq c) i + 1 ..< cnt (co_seq c) i + 1 + length (filter (\<lambda>x. qd_run x = i) items)]" for i
      by (simp add: seqs_def f number_rows_seqs)
    have mem: "filter (\<lambda>x. qd_run x = i) items \<noteq> [] \<Longrightarrow> i \<in> qd_run ` set items" for i
      by (auto simp: filter_empty_conv)
    have sorted: "sorted_wrt (<) (seqs ?c i)" for i
    proof (cases "filter (\<lambda>x. qd_run x = i) items = []")
      case True
      then show ?thesis using ok by (simp add: sq collector_ok_def seqs_ok_def)
    next
      case False
      then have "\<forall>n\<in>set (seqs c i). n \<le> cnt (co_seq c) i" using bound mem by blast
      then show ?thesis using ok
        by (fastforce simp: sq collector_ok_def seqs_ok_def sorted_wrt_append)
    qed
    have upper: "\<forall>n\<in>set (seqs ?c i). n \<le> cnt (fst ?nr) i"
      if "i \<in> set_option (co_active c) \<union> pending_runs c" for i
      using ok that by (fastforce simp: sq collector_ok_def seqs_ok_def number_rows_seq)
    have cnts: "\<forall>(k, r)\<in>set (co_runs ?c). rn_count r = length (seqs ?c k)"
    proof -
      have "length (filter (\<lambda>x. sr_run x = k) (snd ?nr)) = length (filter (\<lambda>x. qd_run x = k) items)" for k
      proof -
        have "length (filter (\<lambda>x. sr_run x = k) (snd ?nr)) = length (map sr_seq (filter (\<lambda>x. sr_run x = k) (snd ?nr)))"
          by simp
        then show ?thesis by (simp only: number_rows_seqs length_upt add_diff_cancel_left')
      qed
      moreover have "length (seqs ?c k) = length (seqs c k) + length (filter (\<lambda>x. qd_run x = k) items)" for k
        by (simp only: sq length_append length_upt add_diff_cancel_left')
      moreover have "rn_count r = length (seqs c k)" if "(k, r) \<in> set (co_runs c)" for k r
        using ok that by (auto simp: collector_ok_def seqs_ok_def)
      ultimately show ?thesis by (auto simp: f(1) add_count_def)
    qed
    have "sr_run ` set (snd ?nr) = qd_run ` set items"
      by (metis number_rows_runs set_map)
    then have known: "sr_run ` set (co_events ?c) \<union> pending_runs ?c \<subseteq> fst ` set (co_runs ?c)"
      using ok items unfolding f(1,4) add_count_keys
      by (simp add: pending_runs_def f(5) image_Un collector_ok_def seqs_ok_def)
    have runs: "runs_ok ?c"
      using ok by (auto simp: collector_ok_def runs_ok_def f dict_ok_add_count add_count_def image_image)
    have pend: "pending_runs ?c = pending_runs c" by (simp only: pending_runs_def f(5))
    have "seqs_ok ?c"
      unfolding seqs_ok_def using known sorted cnts upper
      by (simp add: f(2,3) pend)
    then show ?thesis using runs by (simp add: collector_ok_def)
  qed
qed

lemma coalesce_set:
  "set (fst (coalesce n items q)) \<union> set (concat (snd (coalesce n items q))) = set items \<union> set (concat q)"
  by (induction n items q rule: coalesce.induct) auto

lemma ok_writer_step: "collector_ok c \<Longrightarrow> collector_ok (writer_step db_ok c)"
proof (cases "co_queue c")
  case (Cons b q)
  assume ok: "collector_ok c"
  let ?iq = "coalesce (co_batch c) b q"
  let ?c = "c\<lparr>co_queue := snd ?iq\<rparr>"
  have q: "co_queue ?c = snd ?iq" by simp
  have un: "set (fst ?iq) \<union> set (concat (snd ?iq)) = set (concat (co_queue c))"
    using coalesce_set [of "co_batch c" b q] Cons by simp
  have "set (concat (snd ?iq)) \<subseteq> set (concat (co_queue c))" "set (fst ?iq) \<subseteq> set (concat (co_queue c))"
    unfolding un [symmetric] by blast+
  then have sub: "pending_runs ?c \<subseteq> pending_runs c" "qd_run ` set (fst ?iq) \<subseteq> pending_runs c"
    by (simp_all only: pending_runs_def q image_mono)
  have ok': "collector_ok ?c"
    by (rule collector_ok_cong [OF ok]) (use sub(1) in \<open>simp_all add: le_supI1\<close>)
  have "collector_ok (write_items db_ok ?c (fst ?iq))"
  proof (rule ok_write_items [OF ok'])
    show "qd_run ` set (fst ?iq) \<subseteq> fst ` set (co_runs ?c)"
      using ok sub(2) by (auto simp: collector_ok_def seqs_ok_def)
    show "\<forall>i\<in>qd_run ` set (fst ?iq). \<forall>n\<in>set (seqs ?c i). n \<le> cnt (co_seq ?c) i"
      using ok sub(2) by (auto simp: collector_ok_def seqs_ok_def seqs_def)
  qed
  then show ?thesis using Cons by (simp add: writer_step_def Let_def)
qed (simp add: writer_step_def)

lemma ok_flush: "collector_ok c \<Longrightarrow> collector_ok (flush db_ok c)"
proof -
  have "collector_ok c \<Longrightarrow> collector_ok ((writer_step db_ok ^^ n) c)" for n
    by (induction n) (simp_all add: ok_writer_step)
  then show "collector_ok c \<Longrightarrow> ?thesis" by (simp add: flush_def)
qed

subsection \<open>Opening, closing, restarting\<close>

lemma image_fst_dict_set: "fst ` set (dict_set k v d) = insert k (fst ` set d)"
  by (induction d) (auto simp: dict_set_def split: if_splits)

lemma dict_set_known: "k \<in> fst ` set d \<Longrightarrow> fst ` set (dict_set k v d) = fst ` set d"
  by (auto simp: image_fst_dict_set)

lemma ok_close_locked:
  assumes "collector_ok c" shows "collector_ok (fst (close_run_locked c i closing now))"
proof (cases "dict_get (co_runs c) i")
  case None
  then show ?thesis using assms by (simp add: close_run_locked_def)
next
  case (Some r)
  let ?c = "fst (close_run_locked c i closing now)"
  obtain r2 where r2: "co_runs ?c = dict_set i r2 (co_runs c)" "rn_id r2 = rn_id r" "\<not> rn_active r2"
    "rn_count r2 = rn_count r"
    using Some by (auto simp: close_run_locked_def Let_def split: option.splits)
  have act: "co_active ?c = (if co_active c = Some i then None else co_active c)"
    using Some by (simp add: close_run_locked_def Let_def)
  have in_runs: "(i, r) \<in> set (co_runs c)" by (rule dict_get_SomeD [OF Some])
  then have known: "i \<in> fst ` set (co_runs c)" by force
  have keys: "fst ` set (co_runs ?c) = fst ` set (co_runs c)" using known by (simp add: r2(1) dict_set_known)
  have entry: "(k, x) \<in> set (co_runs ?c) \<Longrightarrow> (k = i \<and> x = r2) \<or> (k \<noteq> i \<and> (k, x) \<in> set (co_runs c))" for k x
  proof -
    assume a: "(k, x) \<in> set (co_runs ?c)"
    have d: "dict_ok (co_runs ?c)" using assms by (simp add: r2(1) collector_ok_def runs_ok_def)
    have g: "dict_get (co_runs ?c) k = Some x" using dict_get_in [OF d a] .
    show ?thesis
    proof (cases "k = i")
      case False
      then have "dict_get (co_runs c) k = Some x" using g by (simp add: r2(1))
      then show ?thesis using False dict_get_SomeD by fast
    qed (use g in \<open>simp add: r2(1)\<close>)
  qed
  have runs: "runs_ok c" and sq: "seqs_ok c" using assms by (simp_all add: collector_ok_def)
  have "runs_ok ?c"
  proof -
    have "dict_ok (co_runs ?c)" using runs by (simp add: r2(1) runs_ok_def)
    moreover have "rn_id x = k \<and> (rn_active x \<longleftrightarrow> co_active ?c = Some k)" if "(k, x) \<in> set (co_runs ?c)" for k x
      using entry [OF that] runs in_runs r2 act by (auto simp: runs_ok_def)
    moreover have "set_option (co_active ?c) \<subseteq> fst ` set (co_runs ?c)"
      using runs unfolding keys by (auto simp: act runs_ok_def)
    ultimately show ?thesis unfolding runs_ok_def by blast
  qed
  moreover have "seqs_ok ?c"
  proof -
    have eq: "seqs ?c k = seqs c k" "pending_runs ?c = pending_runs c" for k
      by (simp_all add: seqs_def pending_runs_def)
    have "rn_count x = length (seqs c k)" if "(k, x) \<in> set (co_runs ?c)" for k x
      using entry [OF that] sq in_runs r2(4) by (auto simp: seqs_ok_def)
    moreover have "set_option (co_active ?c) \<subseteq> set_option (co_active c)" by (auto simp: act)
    ultimately show ?thesis using sq unfolding seqs_ok_def eq keys close_run_locked_frame by blast
  qed
  ultimately show ?thesis by (simp add: collector_ok_def)
qed

lemma close_locked_inactive:
  assumes "collector_ok c" and "co_active c = Some i"
  shows "co_active (fst (close_run_locked c i closing now)) = None"
proof -
  have "i \<in> fst ` set (co_runs c)" using assms by (simp add: collector_ok_def runs_ok_def)
  then have "dict_get (co_runs c) i \<noteq> None" by (simp add: dict_get_None_iff)
  then show ?thesis using assms(2) by (auto simp: close_run_locked_def Let_def split: option.split)
qed

lemma ok_open:
  assumes "collector_ok c" shows "collector_ok (fst (open_run c spec force now fresh))"
proof (cases "co_active c \<noteq> None \<and> \<not> force")
  case True
  then show ?thesis using assms by (simp add: open_run_def)
next
  case False
  define c1 where "c1 = (case co_active c of None \<Rightarrow> c | Some i \<Rightarrow> fst (close_run_locked c i None now))"
  have ok: "collector_ok c1" using assms ok_close_locked by (simp add: c1_def split: option.split)
  have act: "co_active c1 = None"
    using assms close_locked_inactive by (auto simp: c1_def split: option.split)
  show ?thesis
  proof (cases "dict_get (co_runs c1) fresh")
    case (Some r)
    then have "fst (open_run c spec force now fresh) = c1"
      unfolding open_run_def if_not_P [OF False] Let_def by (simp flip: c1_def)
    then show ?thesis using ok by simp
  next
    case None
    let ?r = "\<lparr>rn_id = fresh, rn_tool = rc_tool spec, rn_tool_version = rc_tool_version spec,
                 rn_profile = rc_profile spec, rn_targets = rc_targets spec,
                 rn_addresses = rc_addresses spec, rn_notes = rc_notes spec, rn_started = now,
                 rn_closed = None, rn_active = True, rn_count = 0\<rparr>"
    let ?c = "c1\<lparr>co_runs := co_runs c1 @ [(fresh, ?r)], co_seq := dict_set fresh 0 (co_seq c1),
                 co_active := Some fresh\<rparr>"
    have c: "fst (open_run c spec force now fresh) = ?c"
      using None unfolding open_run_def if_not_P [OF False] Let_def
      by (simp add: dict_set_or_snoc(1) flip: c1_def)
    have new: "fresh \<notin> fst ` set (co_runs c1)" using None by (simp add: dict_get_None_iff)
    have runs: "runs_ok c1" and sq: "seqs_ok c1" using ok by (simp_all add: collector_ok_def)
    have "runs_ok ?c"
      using runs new act by (auto simp: runs_ok_def dict_ok_def rev_image_eqI)
    moreover have "seqs_ok ?c"
    proof -
      have eq: "seqs ?c i = seqs c1 i" "pending_runs ?c = pending_runs c1" for i
        by (simp_all add: seqs_def pending_runs_def)
      have "seqs c1 fresh = []" using sq new by (auto simp: seqs_def seqs_ok_def filter_empty_conv)
      moreover have "fresh \<notin> pending_runs c1" using sq new by (auto simp: seqs_ok_def)
      ultimately show ?thesis using sq unfolding seqs_ok_def eq by auto
    qed
    ultimately show ?thesis unfolding c by (simp add: collector_ok_def)
  qed
qed

lemma restart_active:
  assumes "runs_ok c"
  shows "co_active (restart c) = co_active c"
    and "co_active c = Some i \<Longrightarrow> co_seq (restart c) = [(i, foldr max (seqs c i) 0)]"
proof -
  let ?act = "filter rn_active (map snd (co_runs c))"
  have ids: "rn_active r \<longleftrightarrow> co_active c = Some (rn_id r)" if mem: "r \<in> snd ` set (co_runs c)" for r
  proof -
    obtain k where k: "(k, r) \<in> set (co_runs c)" using mem by (elim imageE) (metis prod.collapse)
    then have "rn_id r = k" "rn_active r \<longleftrightarrow> co_active c = Some k" using assms by (auto simp: runs_ok_def)
    then show ?thesis by simp
  qed
  have *: "co_active (restart c) = co_active c
      \<and> (\<forall>i. co_active c = Some i \<longrightarrow> co_seq (restart c) = [(i, foldr max (seqs c i) 0)])"
  proof (cases "rev (sort_key rn_started ?act)")
    case Nil
    then have none: "set ?act = {}" by (metis Nil_is_rev_conv set_sort list.set(1))
    have "co_active c = None"
    proof (cases "co_active c")
      case (Some i)
      then obtain r where "(i, r) \<in> set (co_runs c)" using assms by (auto simp: runs_ok_def)
      then have "r \<in> set ?act" using assms Some by (force simp: runs_ok_def)
      then show ?thesis unfolding none by simp
    qed
    then show ?thesis using Nil by (simp add: restart_def Let_def new_collector_def)
  next
    case (Cons r rs)
    then have "r \<in> set ?act" by (metis list.set_intros(1) set_rev set_sort)
    then have "co_active c = Some (rn_id r)" using ids by auto
    then show ?thesis using Cons by (simp add: restart_def Let_def new_collector_def seqs_def)
  qed
  then show "co_active (restart c) = co_active c"
    and "co_active c = Some i \<Longrightarrow> co_seq (restart c) = [(i, foldr max (seqs c i) 0)]" by blast+
qed

lemma foldr_max_upper: "n \<in> set ns \<Longrightarrow> n \<le> foldr max ns (0 :: nat)"
  by (induction ns) (auto simp: le_max_iff_disj)

lemma ok_restart:
  assumes "collector_ok c" shows "collector_ok (restart c)"
proof -
  have runs: "runs_ok c" and sq: "seqs_ok c" using assms by (simp_all add: collector_ok_def)
  have "runs_ok (restart c)" using runs restart_active(1) [OF runs] by (simp add: runs_ok_def)
  moreover have "seqs_ok (restart c)"
  proof -
    have eq: "seqs (restart c) i = seqs c i" "pending_runs (restart c) = {}" for i
      by (simp_all add: seqs_def pending_runs_def)
    have "n \<le> cnt (co_seq (restart c)) i" if "co_active c = Some i" "n \<in> set (seqs c i)" for i n
      using restart_active(2) [OF runs that(1)] foldr_max_upper [OF that(2)] by (simp add: cnt_def)
    then show ?thesis
      using sq restart_active(1) [OF runs] by (auto simp: seqs_ok_def eq)
  qed
  ultimately show ?thesis by (simp add: collector_ok_def)
qed

lemma ok_step: "collector_ok c \<Longrightarrow> collector_ok (collector_step validate db_ok c op)"
  by (cases op)
     (simp_all add: ok_register_correlation ok_submit ok_writer_step ok_flush ok_open ok_restart
        close_run_def ok_close_locked)

interpretation collecting: invariant_machine "collector_step validate db_ok" collector_ok for validate db_ok
  by unfold_locales (rule ok_step)

text \<open>C12: through every sequence of registrations, batches, writes (failing or not), openings,
  closings and restarts, at most one run is active and it is the one the collector points to;
  the stored events of each run carry strictly increasing sequence numbers in the order they
  were written; and each run's event count is the number of its stored events.\<close>

theorem collector_runs_ok:
  "let c = foldl (collector_step validate db_ok) (new_collector nets maxsize batch ttl m) ops in
     (\<forall>i. sorted_wrt (<) (seqs c i))
   \<and> list_all (\<lambda>(k, r). rn_count r = length (seqs c k) \<and> (rn_active r \<longleftrightarrow> co_active c = Some k)) (co_runs c)
   \<and> length (filter (rn_active \<circ> snd) (co_runs c)) \<le> 1"
proof -
  let ?c = "foldl (collector_step validate db_ok) (new_collector nets maxsize batch ttl m) ops"
  have ok: "collector_ok ?c"
    by (rule collecting.run_inv)
       (simp add: collector_ok_def runs_ok_def seqs_ok_def seqs_def pending_runs_def new_collector_def dict_ok_def)
  have "length (filter (rn_active \<circ> snd) d) \<le> 1"
    if "dict_ok d" "\<forall>(k, r)\<in>set d. rn_active r \<longleftrightarrow> a = Some k" for d :: "(string, run) dict" and a
    using that
  proof (induction d)
    case (Cons kr d)
    obtain k r where kr: "kr = (k, r)" by (cases kr)
    show ?case
    proof (cases "rn_active r")
      case True
      then have "filter (rn_active \<circ> snd) d = []"
        using Cons.prems by (force simp: kr dict_ok_def filter_empty_conv)
      then show ?thesis by (simp add: kr comp_def)
    next
      case False
      then show ?thesis using Cons by (simp add: kr dict_ok_def)
    qed
  qed simp
  moreover have "dict_ok (co_runs ?c)" "\<forall>(k, r)\<in>set (co_runs ?c). rn_active r \<longleftrightarrow> co_active ?c = Some k"
    using ok unfolding collector_ok_def runs_ok_def by blast+
  ultimately have "length (filter (rn_active \<circ> snd) (co_runs ?c)) \<le> 1" by blast
  then show ?thesis using ok
    by (auto simp: Let_def collector_ok_def runs_ok_def seqs_ok_def list_all_iff)
qed

end
