(* ===== verification/Bytes.thy ===== *)
theory Bytes
  imports Py_Text "HOL-Library.Word"
begin

text \<open>
  Byte strings of the wire formats: Python's \<open>bytes\<close> as lists of 8-bit words, slices,
  \<open>int.from_bytes\<close> and \<open>int.to_bytes\<close> in network order, and the latin-1 and UTF-8 codecs.
  A decoded text is a list of characters, as in the other theories; code points above 255 only
  occur in \<open>utf8_points\<close>, which is CPython's decoder with \<open>errors="replace"\<close>.
\<close>

unbundle bit_operations_syntax

type_synonym byte = "8 word"
type_synonym bytes = "byte list"

section \<open>Slices\<close>

text \<open>\<open>buf[a:b]\<close> for \<open>0 <= a\<close>: Python clips at the end and is empty when \<open>b < a\<close>.\<close>

definition subrange :: "'a list \<Rightarrow> nat \<Rightarrow> nat \<Rightarrow> 'a list" where
  "subrange xs a b = take (b - a) (drop a xs)"

lemma length_subrange [simp]: "a \<le> b \<Longrightarrow> b \<le> length xs \<Longrightarrow> length (subrange xs a b) = b - a"
  by (simp add: subrange_def)

lemma subrange_mid: "subrange (pre @ xs @ post) (length pre) (length pre + length xs) = xs"
  by (simp add: subrange_def)

lemma subrange_mid_at:
  "buf = pre @ xs @ post \<Longrightarrow> a = length pre \<Longrightarrow> b = a + length xs \<Longrightarrow> subrange buf a b = xs"
  by (simp add: subrange_mid)

lemma subrange_empty [simp]: "b \<le> a \<Longrightarrow> subrange xs a b = []"
  by (simp add: subrange_def)

lemma subrange_split: "a \<le> b \<Longrightarrow> b \<le> length xs \<Longrightarrow> xs = take a xs @ subrange xs a b @ drop b xs"
proof -
  assume "a \<le> b" "b \<le> length xs"
  then have "take (b - a) (drop a xs) @ drop b xs = drop a xs"
    by (metis append_take_drop_id drop_drop le_add_diff_inverse2)
  then show ?thesis by (simp add: subrange_def)
qed

section \<open>Numbers in network order\<close>

definition be_num :: "bytes \<Rightarrow> nat" where
  "be_num bs = foldl (\<lambda>n b. n * 256 + unat b) 0 bs"

fun be_bytes :: "nat \<Rightarrow> nat \<Rightarrow> bytes" where
  "be_bytes 0 n = []"
| "be_bytes (Suc k) n = be_bytes k (n div 256) @ [of_nat n]"

lemma length_be_bytes [simp]: "length (be_bytes k n) = k"
  by (induction k arbitrary: n) auto

lemma be_num_Nil [simp]: "be_num [] = 0"
  by (simp add: be_num_def)

lemma be_num_snoc [simp]: "be_num (bs @ [b]) = be_num bs * 256 + unat b"
  by (simp add: be_num_def)

lemma unat_byte: "unat (b :: byte) < 256"
  using unsigned_less [where ?'a = nat, of b] by simp

lemma unat_of_nat_byte: "unat (of_nat n :: byte) = n mod 256"
  by (simp add: unat_of_nat)

lemma be_num_bytes: "be_num (be_bytes k n) = n mod 256 ^ k"
proof (induction k arbitrary: n)
  case (Suc k)
  have "n mod (256 * 256 ^ k) = 256 * (n div 256 mod 256 ^ k) + n mod 256" by (rule mod_mult2_eq)
  then show ?case by (simp add: Suc unat_of_nat_byte)
qed simp

lemma be_num_bytes_id [simp]: "n < 256 ^ k \<Longrightarrow> be_num (be_bytes k n) = n"
  by (simp add: be_num_bytes)

lemma be_num_less: "be_num bs < 256 ^ length bs"
proof (induction bs rule: rev_induct)
  case (snoc b bs)
  have "be_num bs * 256 + unat b < (be_num bs + 1) * 256" using unat_byte [of b] by simp
  also have "\<dots> \<le> 256 ^ length bs * 256" using snoc by (intro mult_right_mono) auto
  finally show ?case by (simp add: mult.commute)
qed simp

lemma be_bytes_num [simp]: "be_bytes (length bs) (be_num bs) = bs"
proof (induction bs rule: rev_induct)
  case (snoc b bs)
  have "(be_num bs * 256 + unat b) div 256 = be_num bs" using unat_byte [of b] by simp
  moreover have "(of_nat (be_num bs * 256 + unat b) :: byte) = b"
    by (rule word_unat_eq_iff [THEN iffD2]) (use unat_byte [of b] in \<open>simp only: unat_of_nat_byte mod_mult_self3 mod_less\<close>)
  ultimately show ?case using snoc by (simp del: of_nat_add of_nat_mult)
qed simp

text \<open>\<open>int.bit_length\<close> of a magnitude, and the number of octets it takes.\<close>

fun bit_len :: "nat \<Rightarrow> nat" where
  "bit_len n = (if n = 0 then 0 else Suc (bit_len (n div 2)))"

declare bit_len.simps [simp del]

lemma bit_len_0 [simp]: "bit_len 0 = 0"
  by (simp add: bit_len.simps)

lemma less_bit_len: "n < 2 ^ bit_len n"
proof (induction n rule: bit_len.induct)
  case (1 n)
  show ?case
  proof (cases "n = 0")
    case False
    then have "n div 2 < 2 ^ bit_len (n div 2)" using 1 by simp
    then show ?thesis using False by (subst bit_len.simps) simp
  qed simp
qed

lemma bit_len_le: "n < 2 ^ k \<Longrightarrow> bit_len n \<le> k"
proof (induction n arbitrary: k rule: bit_len.induct)
  case (1 n)
  show ?case
  proof (cases "n = 0")
    case False
    then obtain j where k: "k = Suc j" using 1(2) by (cases k) auto
    then have "bit_len (n div 2) \<le> j" using 1(2) False by (intro 1(1)) auto
    then show ?thesis using False by (subst bit_len.simps) (simp add: k)
  qed simp
qed

lemma less_256_bit_len: "n < 256 ^ ((bit_len n + 7) div 8)"
proof -
  have "n < 2 ^ bit_len n" by (rule less_bit_len)
  also have "(2::nat) ^ bit_len n \<le> 2 ^ (8 * ((bit_len n + 7) div 8))" by (intro power_increasing) auto
  finally show ?thesis by (simp add: power_mult)
qed

section \<open>Texts\<close>

definition latin1 :: "bytes \<Rightarrow> string" where
  "latin1 bs = map (\<lambda>b. char_of (unat b)) bs"

definition latin1_encode :: "string \<Rightarrow> bytes" where
  "latin1_encode s = map (\<lambda>c. of_nat (code c)) s"

lemma latin1_encode_inverse [simp]: "latin1 (latin1_encode s) = s"
proof -
  have "char_of (code c) = c" for c by (rule code_inject [THEN iffD1]) (use code_less [of c] in simp)
  then show ?thesis by (simp add: latin1_def latin1_encode_def comp_def unat_of_nat_byte)
qed

lemma latin1_inverse [simp]: "latin1_encode (latin1 bs) = bs"
  using unat_byte by (simp add: latin1_def latin1_encode_def comp_def)

lemma length_latin1 [simp]: "length (latin1 bs) = length bs" "length (latin1_encode s) = length s"
  by (simp_all add: latin1_def latin1_encode_def)

subsection \<open>UTF-8\<close>

definition continuation :: "nat \<Rightarrow> bool" where
  "continuation b = (128 \<le> b \<and> b < 192)"

text \<open>The second byte after a lead byte: overlong forms, surrogates and code points above
  U+10FFFF are excluded here.\<close>

definition second_ok :: "nat \<Rightarrow> nat \<Rightarrow> bool" where
  "second_ok a b =
     (if a = 224 then 160 \<le> b \<and> b < 192
      else if a = 237 then 128 \<le> b \<and> b < 160
      else if a = 240 then 144 \<le> b \<and> b < 192
      else if a = 244 then 128 \<le> b \<and> b < 144
      else continuation b)"

text \<open>One code point, or U+FFFD for a maximal part of an ill-formed sequence, and the rest.\<close>

definition utf8_next :: "nat \<Rightarrow> nat list \<Rightarrow> nat \<times> nat list" where
  "utf8_next a rest =
     (if a < 128 then (a, rest)
      else if 194 \<le> a \<and> a < 224 then
        (case rest of
           b # r \<Rightarrow> if continuation b then ((a - 192) * 64 + (b - 128), r) else (65533, rest)
         | [] \<Rightarrow> (65533, []))
      else if 224 \<le> a \<and> a < 240 then
        (case rest of
           b # r \<Rightarrow>
             if second_ok a b then
               (case r of
                  c # q \<Rightarrow> if continuation c
                    then ((a - 224) * 4096 + (b - 128) * 64 + (c - 128), q) else (65533, r)
                | [] \<Rightarrow> (65533, []))
             else (65533, rest)
         | [] \<Rightarrow> (65533, []))
      else if 240 \<le> a \<and> a < 245 then
        (case rest of
           b # r \<Rightarrow>
             if second_ok a b then
               (case r of
                  c # q \<Rightarrow>
                    if continuation c then
                      (case q of
                         d # p \<Rightarrow> if continuation d
                           then ((a - 240) * 262144 + (b - 128) * 4096 + (c - 128) * 64 + (d - 128), p)
                           else (65533, q)
                       | [] \<Rightarrow> (65533, []))
                    else (65533, r)
                | [] \<Rightarrow> (65533, []))
             else (65533, rest)
         | [] \<Rightarrow> (65533, []))
      else (65533, rest))"

lemma utf8_next_shorter: "length (snd (utf8_next a rest)) \<le> length rest"
  by (simp add: utf8_next_def split: list.split)

function utf8_points :: "nat list \<Rightarrow> nat list" where
  "utf8_points [] = []"
| "utf8_points (a # rest) = fst (utf8_next a rest) # utf8_points (snd (utf8_next a rest))"
  by pat_completeness auto

termination by (relation "measure length") (simp_all add: le_imp_less_Suc utf8_next_shorter)

definition utf8_point_bytes :: "nat \<Rightarrow> nat list" where
  "utf8_point_bytes c =
     (if c < 128 then [c]
      else if c < 2048 then [192 + c div 64, 128 + c mod 64]
      else if c < 65536 then [224 + c div 4096, 128 + c div 64 mod 64, 128 + c mod 64]
      else [240 + c div 262144, 128 + c div 4096 mod 64, 128 + c div 64 mod 64, 128 + c mod 64])"

definition decode_utf8 :: "bytes \<Rightarrow> nat list" where
  "decode_utf8 bs = utf8_points (map unat bs)"

definition encode_utf8 :: "nat list \<Rightarrow> bytes" where
  "encode_utf8 cps = map of_nat (concat (map utf8_point_bytes cps))"

text \<open>The code points of a text and the text of code points below 256.\<close>

definition points_of :: "string \<Rightarrow> nat list" where
  "points_of s = map code s"

definition text_of :: "nat list \<Rightarrow> string" where
  "text_of cps = map char_of cps"

definition ascii_bytes :: "bytes \<Rightarrow> bool" where
  "ascii_bytes bs = list_all (\<lambda>b. unat b < 128) bs"

lemma decode_ascii: "ascii_bytes bs \<Longrightarrow> decode_utf8 bs = map unat bs"
  by (induction bs) (simp_all add: decode_utf8_def ascii_bytes_def utf8_next_def)

lemma encode_decode_ascii: "ascii_bytes bs \<Longrightarrow> encode_utf8 (decode_utf8 bs) = bs"
proof -
  assume a: "ascii_bytes bs"
  then have "concat (map utf8_point_bytes (map unat bs)) = map unat bs"
    by (induction bs) (simp_all add: utf8_point_bytes_def ascii_bytes_def)
  then show ?thesis using a by (simp add: decode_ascii encode_utf8_def comp_def)
qed


end
