(* ===== verification/Ber.thy ===== *)
theory Ber
  imports Bytes
begin

text \<open>
  \<open>platform/oob/src/edge_resolver/ber.py\<close>: the reader and writer of BER elements that the LDAP
  listener uses. Offsets are positions in one buffer, as in the code; a raised \<open>BerError\<close> is
  the left value of a sum.
\<close>

section \<open>Reading\<close>

datatype ber_error =
    TruncatedLength | IndefiniteLength | LengthTooLarge | TruncatedLongForm
  | TruncatedElement | MultiByteTag | PastEnd | NotSequence | NoOperation

record tlv =
  tl_tag :: byte
  tl_content :: bytes
  tl_end :: nat

definition read_length :: "bytes \<Rightarrow> nat \<Rightarrow> ber_error + nat \<times> nat" where
  "read_length buf pos =
     (if length buf \<le> pos then Inl TruncatedLength
      else
        let first = unat (buf ! pos); count = first - 128 in
        if first < 128 then Inr (first, pos + 1)
        else if first = 128 then Inl IndefiniteLength
        else if 4 < count then Inl LengthTooLarge
        else if length buf < pos + 1 + count then Inl TruncatedLongForm
        else Inr (be_num (subrange buf (pos + 1) (pos + 1 + count)), pos + 1 + count))"

definition read_tlv :: "bytes \<Rightarrow> nat \<Rightarrow> ber_error + tlv" where
  "read_tlv buf pos =
     (if length buf \<le> pos then Inl TruncatedElement
      else
        let tag = buf ! pos in
        if tag AND 0x1F = 0x1F then Inl MultiByteTag
        else bindE (read_length buf (pos + 1)) (\<lambda>(n, p).
          if length buf < p + n then Inl PastEnd
          else Inr \<lparr>tl_tag = tag, tl_content = subrange buf p (p + n), tl_end = p + n\<rparr>))"

text \<open>\<open>int.from_bytes(content, "big", signed=True)\<close>, 0 for no octets.\<close>

definition tlv_int :: "bytes \<Rightarrow> int" where
  "tlv_int bs =
     (if bs = [] then 0
      else if unat (hd bs) < 128 then int (be_num bs)
      else int (be_num bs) - 256 ^ length bs)"

lemma read_length_progress:
  "read_length buf pos = Inr (n, p) \<Longrightarrow> pos < p \<and> p \<le> length buf"
  by (auto simp: read_length_def Let_def split: if_splits)

lemma read_tlv_sound:
  assumes "read_tlv buf pos = Inr t"
  shows "pos + 1 < tl_end t" "tl_end t \<le> length buf" "tl_tag t = buf ! pos"
    and "\<exists>p. pos + 1 < p \<and> p \<le> tl_end t \<and> tl_content t = subrange buf p (tl_end t)"
proof -
  obtain n p where np: "read_length buf (pos + 1) = Inr (n, p)" and fits: "p + n \<le> length buf"
    and t: "t = \<lparr>tl_tag = buf ! pos, tl_content = subrange buf p (p + n), tl_end = p + n\<rparr>"
    using assms by (auto simp: read_tlv_def Let_def bindE_Inr_iff split: if_splits)
  have "pos + 1 < p" using read_length_progress [OF np] by simp
  then show "pos + 1 < tl_end t" "tl_end t \<le> length buf" "tl_tag t = buf ! pos"
    and "\<exists>p. pos + 1 < p \<and> p \<le> tl_end t \<and> tl_content t = subrange buf p (tl_end t)"
    using fits by (auto simp: t)
qed

text \<open>\<open>iter_tlv\<close>, consumed to the end: the elements, or the first error.\<close>

function iter_tlv :: "bytes \<Rightarrow> nat \<Rightarrow> ber_error + tlv list" where
  "iter_tlv buf pos =
     (if length buf \<le> pos then Inr []
      else case read_tlv buf pos of
        Inl e \<Rightarrow> Inl e
      | Inr t \<Rightarrow> bindE (iter_tlv buf (tl_end t)) (\<lambda>ts. Inr (t # ts)))"
  by pat_completeness auto

termination
proof (relation "measure (\<lambda>(buf, pos). length buf - pos)")
  fix buf pos t
  assume "\<not> length buf \<le> pos" "read_tlv buf pos = Inr t"
  then show "((buf, tl_end t), buf, pos) \<in> measure (\<lambda>(buf, pos). length buf - pos)"
    using read_tlv_sound(1) [of buf pos t] by simp
qed simp

declare iter_tlv.simps [simp del]

section \<open>Writing\<close>

definition octets_of :: "nat \<Rightarrow> bytes" where
  "octets_of n = be_bytes ((bit_len n + 7) div 8) n"

definition encode_length :: "nat \<Rightarrow> bytes" where
  "encode_length n =
     (if n < 128 then [of_nat n]
      else let raw = octets_of n in (0x80 OR of_nat (length raw)) # raw)"

definition tlv_bytes :: "byte \<Rightarrow> bytes \<Rightarrow> bytes" where
  "tlv_bytes tag content = tag # encode_length (length content) @ content"

text \<open>\<open>value.to_bytes(length, "big", signed=True)\<close> with the length of \<open>enc_int\<close>.\<close>

definition int_octets :: "int \<Rightarrow> nat" where
  "int_octets v = max 1 ((bit_len (nat \<bar>v\<bar>) + 8) div 8)"

definition signed_bytes :: "int \<Rightarrow> bytes" where
  "signed_bytes v = be_bytes (int_octets v) (nat (v mod 256 ^ int_octets v))"

definition TAG_INTEGER :: byte where "TAG_INTEGER = 0x02"
definition TAG_OCTET_STRING :: byte where "TAG_OCTET_STRING = 0x04"
definition TAG_ENUMERATED :: byte where "TAG_ENUMERATED = 0x0A"
definition TAG_SEQUENCE :: byte where "TAG_SEQUENCE = 0x30"
definition TAG_SET :: byte where "TAG_SET = 0x31"

definition enc_int_tag :: "int \<Rightarrow> byte \<Rightarrow> bytes" where
  "enc_int_tag v tag = tlv_bytes tag (signed_bytes v)"

definition enc_int :: "int \<Rightarrow> bytes" where
  "enc_int v = enc_int_tag v TAG_INTEGER"

definition enc_enum :: "int \<Rightarrow> bytes" where
  "enc_enum v = enc_int_tag v TAG_ENUMERATED"

definition enc_str :: "bytes \<Rightarrow> bytes" where
  "enc_str raw = tlv_bytes TAG_OCTET_STRING raw"

definition enc_seq :: "bytes list \<Rightarrow> bytes" where
  "enc_seq parts = tlv_bytes TAG_SEQUENCE (concat parts)"

definition enc_set :: "bytes list \<Rightarrow> bytes" where
  "enc_set parts = tlv_bytes TAG_SET (concat parts)"

section \<open>Round trips\<close>

lemma octets_small: "n < 256 ^ k \<Longrightarrow> length (octets_of n) \<le> k"
proof -
  assume "n < 256 ^ k"
  then have "bit_len n \<le> 8 * k" by (intro bit_len_le) (simp add: power_mult)
  then show ?thesis by (simp add: octets_of_def)
qed

lemma octets_pos: "0 < n \<Longrightarrow> 0 < length (octets_of n)"
  by (subst (asm) neq0_conv [symmetric]) (simp add: octets_of_def bit_len.simps [of n])

lemma octets_num [simp]: "be_num (octets_of n) = n"
  by (simp add: octets_of_def less_256_bit_len)

lemma long_form_byte:
  assumes "0 < k" "k \<le> 4"
  shows "unat (0x80 OR of_nat k :: byte) = 128 + k"
proof -
  have "k = 1 \<or> k = 2 \<or> k = 3 \<or> k = 4" using assms by arith
  then show ?thesis by (elim disjE) (simp_all add: unat_word_ariths)
qed

lemma read_length_encode:
  assumes "n < 256 ^ 4"
  shows "read_length (pre @ encode_length n @ post) (length pre)
    = Inr (n, length pre + length (encode_length n))"
proof (cases "n < 128")
  case True
  then have "unat (of_nat n :: byte) = n" by (simp add: unat_of_nat_byte)
  then show ?thesis using True by (simp add: encode_length_def read_length_def Let_def nth_append)
next
  case False
  let ?raw = "octets_of n"
  have k: "0 < length ?raw" "length ?raw \<le> 4" using False assms octets_small octets_pos by auto
  have first: "unat (0x80 OR of_nat (length ?raw) :: byte) = 128 + length ?raw" by (rule long_form_byte [OF k])
  have mid: "subrange (pre @ (0x80 OR of_nat (length ?raw)) # ?raw @ post) (Suc (length pre))
      (Suc (length pre + length ?raw)) = ?raw"
    by (rule subrange_mid_at [of _ "pre @ [0x80 OR of_nat (length ?raw)]" _ post]) simp_all
  show ?thesis using False k
    by (simp add: encode_length_def read_length_def Let_def nth_append first mid)
qed

definition one_octet_tag :: "byte \<Rightarrow> bool" where
  "one_octet_tag tag \<longleftrightarrow> tag AND 0x1F \<noteq> 0x1F"

lemma read_tlv_bytes:
  assumes "one_octet_tag tag" and "length c < 256 ^ 4"
  shows "read_tlv (pre @ tlv_bytes tag c @ post) (length pre)
    = Inr \<lparr>tl_tag = tag, tl_content = c, tl_end = length pre + length (tlv_bytes tag c)\<rparr>"
proof -
  let ?len = "encode_length (length c)"
  have len: "read_length (pre @ tag # ?len @ c @ post) (Suc (length pre))
      = Inr (length c, Suc (length pre + length ?len))"
    using read_length_encode [OF assms(2), of "pre @ [tag]" "c @ post"] by simp
  have mid: "subrange (pre @ tag # ?len @ c @ post) (Suc (length pre + length ?len))
      (Suc (length pre + length ?len + length c)) = c"
    by (rule subrange_mid_at [of _ "pre @ tag # ?len" _ post]) simp_all
  show ?thesis using assms(1)
    by (simp add: read_tlv_def tlv_bytes_def Let_def nth_append len mid one_octet_tag_def)
qed

text \<open>Elements as an encoder and a decoder that works inside of a buffer.\<close>

definition element_bytes :: "byte \<times> bytes \<Rightarrow> bytes" where
  "element_bytes e = tlv_bytes (fst e) (snd e)"

definition read_element :: "bytes \<Rightarrow> nat \<Rightarrow> ber_error + (byte \<times> bytes) \<times> nat" where
  "read_element buf pos =
     bindE (read_tlv buf pos) (\<lambda>t. Inr ((tl_tag t, tl_content t), tl_end t))"

definition element_ok :: "byte \<times> bytes \<Rightarrow> bool" where
  "element_ok e \<longleftrightarrow> one_octet_tag (fst e) \<and> length (snd e) < 256 ^ 4"

interpretation ber: buffer_codec element_bytes read_element element_ok
  by unfold_locales (simp add: element_bytes_def read_element_def element_ok_def read_tlv_bytes)

lemma iter_tlv_bytes:
  "list_all element_ok es \<Longrightarrow>
   map_sum id (map (\<lambda>t. (tl_tag t, tl_content t)))
     (iter_tlv (pre @ concat (map element_bytes es)) (length pre)) = Inr es"
proof (induction es arbitrary: pre)
  case Nil
  then show ?case by (simp add: iter_tlv.simps)
next
  case (Cons e es)
  let ?buf = "pre @ element_bytes e @ concat (map element_bytes es)"
  have "read_element ?buf (length pre) = Inr (e, length pre + length (element_bytes e))"
    by (rule ber.dec_at) (use Cons.prems in simp_all)
  then obtain t where t: "read_tlv ?buf (length pre) = Inr t" "(tl_tag t, tl_content t) = e"
    "tl_end t = length (pre @ element_bytes e)"
    by (auto simp: read_element_def bindE_Inr_iff)
  have "element_bytes e \<noteq> []" by (simp add: element_bytes_def tlv_bytes_def)
  then have here: "iter_tlv ?buf (length pre)
      = bindE (iter_tlv ?buf (length (pre @ element_bytes e))) (\<lambda>ts. Inr (t # ts))"
    by (subst iter_tlv.simps) (simp add: t)
  have "map_sum id (map (\<lambda>t. (tl_tag t, tl_content t))) (iter_tlv ?buf (length (pre @ element_bytes e))) = Inr es"
    using Cons.IH [of "pre @ element_bytes e"] Cons.prems by (simp add: id_def)
  then show ?case using t(2)
    by (cases "iter_tlv ?buf (length (pre @ element_bytes e))") (simp_all add: here del: append_assoc)
qed

lemma hd_be_bytes: "hd (be_bytes (Suc k) n) = of_nat (n div 256 ^ k)"
proof (induction k arbitrary: n)
  case (Suc k)
  have "hd (be_bytes (Suc (Suc k)) n) = hd (be_bytes (Suc k) (n div 256))"
    by (simp add: hd_append)
  then show ?case using Suc by (simp add: div_mult2_eq)
qed simp

lemma signed_range: "\<bar>v\<bar> < 2 ^ (8 * int_octets v - 1)"
proof -
  have "nat \<bar>v\<bar> < 2 ^ bit_len (nat \<bar>v\<bar>)" by (rule less_bit_len)
  also have "(2::nat) ^ bit_len (nat \<bar>v\<bar>) \<le> 2 ^ (8 * int_octets v - 1)"
    by (intro power_increasing) (auto simp: int_octets_def)
  finally show ?thesis by (simp add: nat_less_iff)
qed

lemma tlv_int_signed: "tlv_int (signed_bytes v) = v"
proof -
  obtain k where k: "int_octets v = Suc k" by (cases "int_octets v") (auto simp: int_octets_def)
  let ?m = "nat (v mod 256 ^ Suc k)"
  have half: "(2::int) ^ (8 * Suc k - 1) = 128 * 256 ^ k" by (simp add: power_add power_mult)
  then have v: "v < 128 * 256 ^ k" "- (128 * 256 ^ k) < v" using signed_range [of v] by (auto simp: k)
  have m: "int ?m = (if 0 \<le> v then v else v + 256 ^ Suc k)"
  proof (cases "0 \<le> v")
    case True
    then show ?thesis using v by (simp add: mod_pos_pos_trivial)
  next
    case False
    then have "v mod 256 ^ Suc k = (v + 256 ^ Suc k) mod 256 ^ Suc k" by simp
    also have "\<dots> = v + 256 ^ Suc k" using v False by (intro mod_pos_pos_trivial) auto
    finally show ?thesis using v False by simp
  qed
  have lt: "?m < 256 ^ Suc k" by (simp add: nat_less_iff)
  then have "?m div 256 ^ k < 256" by (simp add: less_mult_imp_div_less)
  then have "unat (hd (be_bytes (Suc k) ?m)) = ?m div 256 ^ k"
    by (simp add: hd_be_bytes unat_of_nat_byte del: be_bytes.simps)
  moreover have "?m div 256 ^ k < 128 \<longleftrightarrow> ?m < 128 * 256 ^ k" by (simp add: div_less_iff_less_mult)
  moreover have "?m < 128 * 256 ^ k \<longleftrightarrow> 0 \<le> v" using m v by (auto simp: nat_less_iff split: if_splits)
  moreover have "be_bytes (Suc k) ?m \<noteq> []" by simp
  moreover have "be_num (be_bytes (Suc k) ?m) = ?m" by (rule be_num_bytes_id [OF lt])
  ultimately have "tlv_int (be_bytes (Suc k) ?m) = (if 0 \<le> v then int ?m else int ?m - 256 ^ Suc k)"
    unfolding tlv_int_def length_be_bytes by presburger
  also have "\<dots> = v" unfolding m by simp
  finally show ?thesis by (simp only: signed_bytes_def k)
qed

text \<open>C13: whatever sequence of elements is written, \<open>iter_tlv\<close> reads it back, tags and contents, and
  an integer of any size survives its two's complement encoding.\<close>

theorem ber_roundtrip:
  assumes "list_all element_ok es"
  shows "map_sum id (map (\<lambda>t. (tl_tag t, tl_content t))) (iter_tlv (concat (map element_bytes es)) 0) = Inr es
    \<and> tlv_int (signed_bytes v) = v"
  using iter_tlv_bytes [OF assms, of "[]"] tlv_int_signed by simp

lemma ber_roundtrip_witness:
  "map_sum id (map (\<lambda>t. (tl_tag t, tl_content t)))
     (iter_tlv (concat (map element_bytes [(0x04, []), (0x02, [0xFF, 0x7F])])) 0)
       = Inr [(0x04, []), (0x02, [0xFF, 0x7F])]
   \<and> tlv_int (signed_bytes (-129)) = -129"
  by (rule ber_roundtrip) (simp add: element_ok_def one_octet_tag_def)

section \<open>Refusing what is incomplete\<close>

lemma subrange_append: "b \<le> length xs \<Longrightarrow> subrange (xs @ ys) a b = subrange xs a b"
  by (simp add: subrange_def)

lemma read_length_append:
  "read_length buf pos = Inr r \<Longrightarrow> read_length (buf @ rest) pos = Inr r"
  by (auto simp: read_length_def Let_def nth_append subrange_append split: if_splits)

lemma read_tlv_append:
  assumes "read_tlv buf pos = Inr t" shows "read_tlv (buf @ rest) pos = Inr t"
proof -
  obtain n p where np: "read_length buf (pos + 1) = Inr (n, p)" and fits: "p + n \<le> length buf"
    and pos: "pos < length buf" and tag: "buf ! pos AND 0x1F \<noteq> 0x1F"
    and t: "t = \<lparr>tl_tag = buf ! pos, tl_content = subrange buf p (p + n), tl_end = p + n\<rparr>"
    using assms by (auto simp: read_tlv_def Let_def bindE_Inr_iff split: if_splits)
  show ?thesis
    using pos tag fits read_length_append [OF np, of rest]
    by (simp add: read_tlv_def Let_def nth_append t subrange_append)
qed

text \<open>A strict prefix of an element is never taken for an element: the reader refuses it.\<close>

theorem truncated_refused:
  assumes "element_ok e" and "k < length (element_bytes e)"
  shows "isl (read_tlv (take k (element_bytes e)) 0)"
proof (cases "read_tlv (take k (element_bytes e)) 0")
  case (Inr t)
  have "read_tlv (element_bytes e) 0 = Inr t"
    using read_tlv_append [OF Inr, of "drop k (element_bytes e)"] by simp
  then have "tl_end t = length (element_bytes e)"
    using ber.dec_here [OF assms(1), of "[]"] by (simp add: read_element_def)
  then show ?thesis using read_tlv_sound(2) [OF Inr] assms(2) by simp
qed simp

lemma truncated_refused_witness:
  "element_ok (0x30, [1, 2, 3]) \<and> isl (read_tlv (take 4 (element_bytes (0x30, [1, 2, 3]))) 0)"
proof
  show ok: "element_ok (0x30, [1, 2, 3])" by (simp add: element_ok_def one_octet_tag_def)
  show "isl (read_tlv (take 4 (element_bytes (0x30, [1, 2, 3]))) 0)"
    by (rule truncated_refused [OF ok]) (simp add: element_bytes_def tlv_bytes_def encode_length_def)
qed

end
