(* ===== verification/Tokens.thy ===== *)
theory Tokens
  imports Bytes Ip_Address Hosts
begin

text \<open>
  \<open>platform/oob/src/edge_resolver/tokens.py\<close>: finding the identifier a payload carries, in the
  places each channel offers, with one global order of the places.
\<close>

section \<open>The grammar\<close>

definition is_label :: "string \<Rightarrow> bool" where
  "is_label s = (4 \<le> length s \<and> length s \<le> 32 \<and> list_all is_lower_alnum s)"

definition is_nonce :: "string \<Rightarrow> bool" where
  "is_nonce s =
     (s \<noteq> [] \<and> length s \<le> 64 \<and> is_lower_alnum (hd s)
      \<and> list_all (\<lambda>c. is_lower_alnum c \<or> c = CHR ''-'') s)"

definition parse_token :: "string option \<Rightarrow> (string \<times> string option) option" where
  "parse_token value =
     (if \<not> truthy value then None
      else
        let candidate = lower (strip (the value)) in
        if is_label candidate then Some (candidate, None)
        else if CHR ''-'' \<in> set candidate \<and> is_label (before (CHR ''-'') candidate)
                \<and> is_nonce (after (CHR ''-'') candidate)
        then Some (before (CHR ''-'') candidate, Some (after (CHR ''-'') candidate))
        else None)"

section \<open>Candidates\<close>

record candidate =
  cd_source :: string
  cd_value :: string

definition SOURCE_RANK :: "(string, nat) dict" where
  "SOURCE_RANK =
     [(''dns_label'', 10), (''host_header'', 20), (''path_segment'', 30), (''query_t'', 40),
      (''smtp_localpart'', 50), (''ldap_dn'', 60), (''smtp_domain'', 70), (''smtp_sender'', 75)]"

definition cd_rank :: "candidate \<Rightarrow> nat" where
  "cd_rank c = get_or (dict_get SOURCE_RANK (cd_source c)) 99"

record extraction =
  ex_token :: "string option"
  ex_nonce :: "string option"
  ex_source :: "string option"
  ex_candidate :: "string option"

definition ex_found :: "extraction \<Rightarrow> bool" where
  "ex_found x = (ex_token x \<noteq> None)"

definition ex_label :: "extraction \<Rightarrow> string" where
  "ex_label x =
     (case ex_token x of
        None \<Rightarrow> str_or (ex_candidate x) []
      | Some t \<Rightarrow> if truthy (ex_nonce x) then t @ ''-'' @ the (ex_nonce x) else t)"

definition order_candidates :: "candidate list \<Rightarrow> candidate list" where
  "order_candidates cs = sort_key (\<lambda>c. (cd_rank c, cd_source c)) (filter (\<lambda>c. cd_value c \<noteq> []) cs)"

definition extract_token :: "candidate list \<Rightarrow> extraction" where
  "extract_token cs =
     (let ordered = order_candidates cs; shown = (\<lambda>c. Some (take 128 (lower (strip (cd_value c))))) in
      case List.find (\<lambda>c. parse_token (Some (cd_value c)) \<noteq> None) ordered of
        Some c \<Rightarrow>
          (let p = the (parse_token (Some (cd_value c))) in
           \<lparr>ex_token = Some (fst p), ex_nonce = snd p, ex_source = Some (cd_source c),
            ex_candidate = shown c\<rparr>)
      | None \<Rightarrow>
          \<lparr>ex_token = None, ex_nonce = None, ex_source = None,
           ex_candidate = (case ordered of [] \<Rightarrow> None | c # _ \<Rightarrow> shown c)\<rparr>)"

section \<open>Where candidates come from\<close>

definition host_label :: "string option \<Rightarrow> string \<Rightarrow> string option" where
  "host_label host zone =
     (if \<not> truthy host then None
      else
        let name = lower (strip_chars ''.'' (strip (the host))) in
        if name = [] \<or> startswith name ''['' then None
        else
          let bare = (if count_list name (CHR '':'') = 1 then before (CHR '':'') name else name) in
          if bare = zone then None
          else
            let inner = (if zone \<noteq> [] \<and> endswith bare (CHR ''.'' # zone)
                         then take (length bare - (length zone + 1)) bare else bare)
            in case filter (\<lambda>l. l \<noteq> []) (split_char (CHR ''.'') inner) of [] \<Rightarrow> None | l # _ \<Rightarrow> Some l)"

definition first_path_segment :: "string option \<Rightarrow> string option" where
  "first_path_segment p =
     (if \<not> truthy p then None
      else
        case filter (\<lambda>s. s \<noteq> []) (split_char (CHR ''/'') (before (CHR ''?'') (the p))) of
          [] \<Rightarrow> None
        | s # _ \<Rightarrow> Some (lower (strip s)))"

text \<open>\<open>urllib.parse.unquote\<close>: percent escapes of each run of ASCII characters, decoded as UTF-8.\<close>

fun unpercent :: "string \<Rightarrow> nat list" where
  "unpercent (CHR ''%'' # a # b # s) =
     (case (hex_value a, hex_value b) of
        (Some x, Some y) \<Rightarrow> (16 * x + y) # unpercent s
      | _ \<Rightarrow> 37 # unpercent (a # b # s))"
| "unpercent (c # s) = code c # unpercent s"
| "unpercent [] = []"

definition is_ascii :: "char \<Rightarrow> bool" where
  "is_ascii c = (code c < 128)"

function unquote :: "string \<Rightarrow> string" where
  "unquote [] = []"
| "unquote (c # s) =
     (if is_ascii c
      then text_of (utf8_points (unpercent (takeWhile is_ascii (c # s)))) @ unquote (dropWhile is_ascii (c # s))
      else c # unquote s)"
  by pat_completeness auto

termination by (relation "measure length") (simp_all add: length_dropWhile_le le_imp_less_Suc)

definition plus_to_space :: "string \<Rightarrow> string" where
  "plus_to_space s = map (\<lambda>c. if c = CHR ''+'' then CHR '' '' else c) s"

text \<open>The non-blank pairs of \<open>parse_qs\<close>, in order.\<close>

definition query_pairs :: "string \<Rightarrow> (string \<times> string) list" where
  "query_pairs q =
     List.map_filter (\<lambda>nv.
        if nv \<noteq> [] \<and> CHR ''='' \<in> set nv \<and> after (CHR ''='') nv \<noteq> []
        then Some (unquote (plus_to_space (before (CHR ''='') nv)),
                   unquote (plus_to_space (after (CHR ''='') nv)))
        else None) (split_char (CHR ''&'') q)"

definition query_token :: "string option \<Rightarrow> string option" where
  "query_token query =
     (if \<not> truthy query then None
      else
        case filter (\<lambda>p. fst p = ''t'') (query_pairs (the query)) of
          [] \<Rightarrow> None
        | p # _ \<Rightarrow> Some (lower (strip (snd p))))"

definition address_parts :: "string option \<Rightarrow> string option \<times> string option" where
  "address_parts address =
     (if \<not> truthy address then (None, None)
      else
        let a0 = strip (the address);
            addr = (if startswith a0 ''<'' \<and> endswith a0 ''>'' then strip (butlast (tl a0)) else a0)
        in if CHR ''@'' \<notin> set addr then (falsy_none (lower addr), None)
           else (falsy_none (lower (strip (rbefore (CHR ''@'') addr))),
                 falsy_none (lower (strip (rafter (CHR ''@'') addr)))))"

definition dn_values :: "string option \<Rightarrow> string list" where
  "dn_values dn =
     (if \<not> truthy dn then []
      else
        let unified = map (\<lambda>c. if c \<in> {CHR ''/'', CHR '';'', CHR ''+''} then CHR '','' else c) (the dn);
            chunks = filter (\<lambda>c. c \<noteq> []) (map (\<lambda>p. strip p) (split_char (CHR '','') unified))
        in map (\<lambda>c. lower (strip (if CHR ''='' \<in> set c then after (CHR ''='') c else c))) chunks)"

definition dn_candidates :: "string option \<Rightarrow> candidate list" where
  "dn_candidates dn = map (\<lambda>v. \<lparr>cd_source = ''ldap_dn'', cd_value = v\<rparr>) (dn_values dn)"

section \<open>The grammar is unambiguous\<close>

lemma label_no_dash: "is_label s \<Longrightarrow> CHR ''-'' \<notin> set s"
  by (auto simp: is_label_def list_all_iff is_lower_alnum_def code_def)

lemma parse_token_iff:
  "parse_token (Some s) = Some (t, n) \<longleftrightarrow>
     (case n of
        None \<Rightarrow> lower (strip s) = t \<and> is_label t
      | Some m \<Rightarrow> lower (strip s) = t @ CHR ''-'' # m \<and> is_label t \<and> is_nonce m)"
proof -
  let ?c = "lower (strip s)"
  have empty: "s = [] \<Longrightarrow> ?c = []" by (simp add: strip_where_def rstrip_where_def)
  show ?thesis
  proof (cases n)
    case None
    then show ?thesis using empty by (auto simp: parse_token_def Let_def is_label_def)
  next
    case (Some m)
    have "before (CHR ''-'') (t @ CHR ''-'' # m) = t \<and> after (CHR ''-'') (t @ CHR ''-'' # m) = m" if "is_label t"
      using label_no_dash [OF that] by (simp add: before_append after_append)
    moreover have "\<not> is_label (t @ CHR ''-'' # m)" using label_no_dash [of "t @ CHR ''-'' # m"] by auto
    ultimately show ?thesis
      using Some empty before_after [of "CHR ''-''" ?c] by (auto simp: parse_token_def Let_def)
  qed
qed

section \<open>Which candidate wins\<close>

definition parses :: "candidate \<Rightarrow> bool" where
  "parses c \<longleftrightarrow> parse_token (Some (cd_value c)) \<noteq> None"

lemma parses_nonempty: "parses c \<Longrightarrow> cd_value c \<noteq> []"
  by (auto simp: parses_def parse_token_def)

lemma set_order_candidates: "set (order_candidates cs) = {c \<in> set cs. cd_value c \<noteq> []}"
  by (simp add: order_candidates_def)

lemma find_sorted_least:
  assumes "List.find P (sort_key f xs) = Some x"
  shows "x \<in> set xs" "P x" "y \<in> set xs \<Longrightarrow> P y \<Longrightarrow> f x \<le> f y"
proof -
  obtain i where i: "i < length xs" "P (sort_key f xs ! i)" "x = sort_key f xs ! i"
    "\<forall>j<i. \<not> P (sort_key f xs ! j)"
    using assms by (auto simp: find_Some_iff)
  then show "x \<in> set xs" "P x" using nth_mem [of i "sort_key f xs"] by auto
  assume "y \<in> set xs" "P y"
  then obtain j where j: "j < length xs" "sort_key f xs ! j = y" "i \<le> j"
    using i(4) by (metis in_set_conv_nth length_sort not_le set_sort)
  have "sorted (map f (sort_key f xs))" by simp
  then show "f x \<le> f y" using j i(1,3) sorted_nth_mono [of "map f (sort_key f xs)" i j] by simp
qed

text \<open>An identifier is reported exactly when some candidate is one; it is then the parse of a
  candidate whose place has the least rank among all places that hold an identifier, so what
  the other places hold can neither hide nor replace it.\<close>

theorem extract_token_spec:
  "case ex_token (extract_token cs) of
     None \<Rightarrow> filter parses cs = []
   | Some t \<Rightarrow>
       (\<exists>c. c \<in> set cs \<and> parse_token (Some (cd_value c)) = Some (t, ex_nonce (extract_token cs))
          \<and> ex_source (extract_token cs) = Some (cd_source c)
          \<and> cd_rank c = Min (cd_rank ` {d \<in> set cs. parses d}))"
proof (cases "List.find parses (order_candidates cs)")
  case None
  then have "filter parses cs = []"
    by (auto simp: find_None_iff set_order_candidates filter_empty_conv dest: parses_nonempty)
  then show ?thesis
    using None by (simp add: extract_token_def Let_def parses_def [abs_def])
next
  case (Some c)
  note least = find_sorted_least [OF Some [unfolded order_candidates_def]]
  have c: "c \<in> set cs" "parses c" using least(1,2) by auto
  have "cd_rank c \<le> cd_rank d" if "d \<in> set cs" "parses d" for d
    using least(3) [of d] that parses_nonempty [of d] by auto
  then have "Min (cd_rank ` {d \<in> set cs. parses d}) = cd_rank c"
    using c by (intro Min_eqI) auto
  moreover obtain t n where "parse_token (Some (cd_value c)) = Some (t, n)"
    using c(2) by (auto simp: parses_def)
  ultimately show ?thesis
    using Some c(1) by (force simp: extract_token_def Let_def parses_def [abs_def])
qed

text \<open>With at most one candidate per place the result does not depend on the order in which a
  channel lists them.\<close>

lemma extract_token_order:
  assumes "mset cs = mset ds" and "inj_on cd_source (set cs)"
  shows "extract_token cs = extract_token ds"
proof -
  let ?f = "\<lambda>c. (cd_rank c, cd_source c)"
  have same: "mset (filter (\<lambda>c. cd_value c \<noteq> []) cs) = mset (filter (\<lambda>c. cd_value c \<noteq> []) ds)"
    using assms(1) by simp
  have "order_candidates cs = order_candidates ds"
    unfolding order_candidates_def
    by (rule sort_key_inj_key_eq) (use assms(2) same in \<open>auto simp: inj_on_def\<close>)
  then show ?thesis by (simp add: extract_token_def)
qed

section \<open>A planted name gives its identifier back\<close>

lemma strip_where_ends: "s = [] \<or> \<not> P (hd s) \<and> \<not> P (last s) \<Longrightarrow> strip_where P s = s"
  by (cases s) (auto simp: strip_where_def rstrip_where_def hd_rev dropWhile_eq_self_iff simp flip: hd_rev)

definition planted_word :: "string \<Rightarrow> string option \<Rightarrow> string" where
  "planted_word t n = (case n of None \<Rightarrow> t | Some m \<Rightarrow> t @ CHR ''-'' # m)"

definition planted_ok :: "string \<Rightarrow> string option \<Rightarrow> bool" where
  "planted_ok t n \<longleftrightarrow> is_label t \<and> (case n of None \<Rightarrow> True | Some m \<Rightarrow> is_nonce m)"

lemma planted_word_chars:
  assumes "planted_ok t n"
  shows "list_all (\<lambda>c. is_lower_alnum c \<or> c = CHR ''-'') (planted_word t n)"
  using assms
  by (auto simp: planted_ok_def planted_word_def is_label_def is_nonce_def list_all_iff split: option.splits)

lemma planted_word_host:
  assumes "planted_ok t n" and "host_name zone"
  shows "host_name (planted_word t n @ CHR ''.'' # zone)" "CHR ''.'' \<notin> set (planted_word t n)"
    "planted_word t n \<noteq> []" "hd (planted_word t n) \<noteq> CHR ''.''"
proof -
  have t: "is_label t" using assms by (simp add: planted_ok_def)
  note cs = planted_word_chars [OF assms(1)]
  have dot: "\<not> is_lower_alnum (CHR ''.'')" by code_simp
  show "planted_word t n \<noteq> []"
    using t by (auto simp: planted_word_def is_label_def split: option.split)
  then show "hd (planted_word t n) \<noteq> CHR ''.''" "CHR ''.'' \<notin> set (planted_word t n)"
    using cs dot by (cases "planted_word t n"; auto simp: list_all_iff)+
  show "host_name (planted_word t n @ CHR ''.'' # zone)"
    using cs assms(2) by (auto simp: host_name_def list_all_iff)
qed

lemma strip_host_spelling:
  assumes "host_name n" and "lower h = n" and "hd n \<noteq> CHR ''.''"
  shows "lower (strip_chars ''.'' (strip h)) = n"
proof -
  have ne: "h \<noteq> []" using assms(1,2) by (auto simp: host_name_def)
  have "\<forall>c\<in>set h. \<not> is_space c"
    using lower_eq_char [OF assms(2)] host_name_char [OF assms(1)] by blast
  then have "strip h = h" by (rule strip_where_none)
  moreover have "lower_char (CHR ''.'') = CHR ''.''" by code_simp
  then have "hd h \<noteq> CHR ''.''" "last h \<noteq> CHR ''.''"
    using assms ne by (auto simp: host_name_def lower_def hd_map last_map)
  ultimately show ?thesis using assms(2) by (simp add: strip_where_ends)
qed

lemma parse_planted:
  assumes "planted_ok t n" and "host_name zone"
  shows "parse_token (Some (planted_word t n)) = Some (t, n)"
proof -
  note w = planted_word_host(1) [OF assms]
  have "\<forall>c\<in>set (planted_word t n). \<not> is_space c" using host_name_char(1) [OF w] by simp
  moreover have "lower_char (CHR ''-'') = CHR ''-''" by code_simp
  then have "lower (planted_word t n) = planted_word t n"
    using planted_word_chars [OF assms(1)]
    by (auto simp: lower_def list_all_iff intro!: map_idI dest: is_lower_alnum_lower)
  ultimately have "lower (strip (planted_word t n)) = planted_word t n" by (simp add: strip_where_none)
  then show ?thesis
    using assms(1) parse_token_iff [of "planted_word t n" t n]
    by (simp add: planted_ok_def planted_word_def split: option.splits)
qed

lemma host_label_planted:
  assumes "planted_ok t n" and "host_name zone" and "lower h = planted_word t n @ CHR ''.'' # zone"
  shows "host_label (Some h) zone = Some (planted_word t n)"
proof -
  let ?w = "planted_word t n" and ?z = "CHR ''.'' # zone"
  note w = planted_word_host [OF assms(1,2)]
  have hd: "hd (?w @ ?z) \<noteq> CHR ''.''" using w(3,4) by simp
  have spelled: "lower (strip_chars ''.'' (strip h)) = ?w @ ?z" by (rule strip_host_spelling [OF w(1) assms(3) hd])
  have no_colon: "CHR '':'' \<notin> set (?w @ ?z)" "CHR ''['' \<notin> set (?w @ ?z)"
    using host_name_char [OF w(1)] by blast+
  have ne: "h \<noteq> []" using assms(3) by auto
  have "\<not> startswith (?w @ ?z) ''[''" using no_colon(2) w(3) by (cases ?w) auto
  moreover have "?w @ ?z \<noteq> zone"
  proof
    assume "?w @ ?z = zone"
    then have "length (?w @ ?z) = length zone" by (rule arg_cong)
    then show False by simp
  qed
  moreover have "zone \<noteq> []" using assms(2) by (simp add: host_name_def)
  moreover have "endswith (?w @ ?z) ?z" by (auto simp: endswith_iff)
  ultimately show ?thesis
    using no_colon(1) ne w(2,3) unfolding host_label_def Let_def option.sel spelled
    by (simp add: split_char_none)
qed

text \<open>A candidate of the first place that holds an identifier wins.\<close>

lemma extract_first:
  assumes "parse_token (Some (cd_value c)) = Some (t, n)"
    and "\<forall>d\<in>set others. (cd_rank c, cd_source c) \<le> (cd_rank d, cd_source d)"
  shows "ex_token (extract_token (c # others)) = Some t \<and> ex_nonce (extract_token (c # others)) = n"
proof -
  have "cd_value c \<noteq> []" using assms(1) by (auto simp: parse_token_def)
  moreover have "insort_key (\<lambda>c. (cd_rank c, cd_source c)) c (order_candidates others) = c # order_candidates others"
    using assms(2) by (auto intro!: insort_is_Cons simp: set_order_candidates)
  ultimately have "order_candidates (c # others) = c # order_candidates others"
    by (simp add: order_candidates_def)
  then show ?thesis using assms(1) by (simp add: extract_token_def Let_def)
qed

text \<open>A payload aimed at \<open>label.zone\<close> or \<open>label-nonce.zone\<close>, in any capitalisation, gives
  back its label and nonce whatever the request carries in other places.\<close>

theorem planted_name_found:
  assumes "planted_ok t n" and "host_name zone" and "lower h = planted_word t n @ CHR ''.'' # zone"
  shows "host_label (Some h) zone = Some (planted_word t n)
    \<and> ex_token (extract_token (\<lparr>cd_source = ''dns_label'', cd_value = planted_word t n\<rparr> # others)) = Some t"
proof -
  let ?c = "\<lparr>cd_source = ''dns_label'', cd_value = planted_word t n\<rparr>"
  have "\<forall>d. (cd_rank ?c, cd_source ?c) \<le> (cd_rank d, cd_source d)"
    by (auto simp: cd_rank_def SOURCE_RANK_def dict_get_def get_or_def less_eq_prod_def)
  then show ?thesis
    using extract_first [of ?c t n others] parse_planted [OF assms(1,2)] host_label_planted [OF assms] by simp
qed

lemma planted_name_found_witness:
  "host_label (Some ''ShOp0031-9f2c.Edge.NET'') ''edge.net'' = Some ''shop0031-9f2c''
   \<and> ex_token (extract_token [\<lparr>cd_source = ''dns_label'', cd_value = ''shop0031-9f2c''\<rparr>,
        \<lparr>cd_source = ''host_header'', cd_value = ''blog0007''\<rparr>]) = Some ''shop0031''"
proof -
  have "planted_ok ''shop0031'' (Some ''9f2c'')" "host_name ''edge.net''"
    "lower ''ShOp0031-9f2c.Edge.NET'' = planted_word ''shop0031'' (Some ''9f2c'') @ CHR ''.'' # ''edge.net''"
    by code_simp+
  from planted_name_found [OF this, of "[\<lparr>cd_source = ''host_header'', cd_value = ''blog0007''\<rparr>]"]
  show ?thesis by (simp add: planted_word_def)
qed

end
