(* ===== verification/Ldap.thy ===== *)
theory Ldap
  imports Ber Tokens
begin

text \<open>
  \<open>platform/oob/src/edge_resolver/listeners/ldap.py\<close>: framing of messages off a connection, the
  dispatch of one message and the session around it. A connection is the bytes the client sends
  before it closes or times out; a note is a call of the recorder.
\<close>

section \<open>Messages\<close>

definition APP_BIND_REQUEST :: byte where "APP_BIND_REQUEST = 0x60"
definition APP_BIND_RESPONSE :: byte where "APP_BIND_RESPONSE = 0x61"
definition APP_UNBIND_REQUEST :: byte where "APP_UNBIND_REQUEST = 0x42"
definition APP_SEARCH_REQUEST :: byte where "APP_SEARCH_REQUEST = 0x63"
definition APP_SEARCH_ENTRY :: byte where "APP_SEARCH_ENTRY = 0x64"
definition APP_SEARCH_DONE :: byte where "APP_SEARCH_DONE = 0x65"
definition APP_EXTENDED_REQUEST :: byte where "APP_EXTENDED_REQUEST = 0x77"
definition APP_EXTENDED_RESPONSE :: byte where "APP_EXTENDED_RESPONSE = 0x78"

text \<open>What a call of the recorder says: an operation with its DN (as code points) and details,
  a message that could not be read, or a connection without any operation worth a DN.\<close>

datatype ldap_note =
    Operation string "nat list" "(string \<times> int) list"
  | Unparseable
  | NothingUseful

definition note_candidates :: "ldap_note \<Rightarrow> candidate list" where
  "note_candidates n =
     (case n of Operation _ dn _ \<Rightarrow> dn_candidates (Some (text_of dn)) | _ \<Rightarrow> [])"

definition success_body :: bytes where
  "success_body = enc_enum 0 @ enc_str [] @ enc_str []"

definition ldap_attribute :: "string \<Rightarrow> string \<Rightarrow> bytes" where
  "ldap_attribute name value =
     enc_seq [enc_str (encode_utf8 (points_of name)), enc_set [enc_str (encode_utf8 (points_of value))]]"

definition result_message :: "int \<Rightarrow> byte \<Rightarrow> bytes \<Rightarrow> bytes" where
  "result_message i tag body = enc_seq [enc_int i, tlv_bytes tag body]"

record ldap_outcome =
  lo_response :: "bytes option"
  lo_recorded :: bool
  lo_notes :: "ldap_note list"

definition field_int :: "tlv list \<Rightarrow> nat \<Rightarrow> int \<Rightarrow> int" where
  "field_int fs i d = (if i < length fs then tlv_int (tl_content (fs ! i)) else d)"

definition field_text :: "tlv list \<Rightarrow> nat \<Rightarrow> nat list" where
  "field_text fs i = (if i < length fs then decode_utf8 (tl_content (fs ! i)) else [])"

definition ldap_operation :: "int \<Rightarrow> tlv \<Rightarrow> ber_error + ldap_outcome" where
  "ldap_operation i op =
     (if tl_tag op = APP_UNBIND_REQUEST
      then Inr \<lparr>lo_response = None, lo_recorded = False, lo_notes = []\<rparr>
      else if tl_tag op = APP_BIND_REQUEST then
        bindE (iter_tlv (tl_content op) 0) (\<lambda>fs.
          Inr \<lparr>lo_response = Some (result_message i APP_BIND_RESPONSE success_body), lo_recorded = True,
               lo_notes = [Operation ''bind'' (field_text fs 1) [(''version'', field_int fs 0 0)]]\<rparr>)
      else if tl_tag op = APP_SEARCH_REQUEST then
        bindE (iter_tlv (tl_content op) 0) (\<lambda>fs.
          Inr \<lparr>lo_response = Some
                 (result_message i APP_SEARCH_ENTRY
                    (enc_str (encode_utf8 (field_text fs 0)) @ enc_seq [ldap_attribute ''objectClass'' ''top''])
                  @ result_message i APP_SEARCH_DONE success_body),
               lo_recorded = True,
               lo_notes = [Operation ''search'' (field_text fs 0) [(''scope'', field_int fs 1 (-1))]]\<rparr>)
      else if tl_tag op = APP_EXTENDED_REQUEST
      then Inr \<lparr>lo_response = Some (result_message i APP_EXTENDED_RESPONSE success_body), lo_recorded = True,
                lo_notes = [Operation ''extended'' [] []]\<rparr>
      else Inr \<lparr>lo_response = None, lo_recorded = True,
                lo_notes = [Operation (''op-0x'' @ hex_byte (unat (tl_tag op))) [] []]\<rparr>)"

definition ldap_dispatch :: "bytes \<Rightarrow> ber_error + ldap_outcome" where
  "ldap_dispatch message =
     bindE (read_tlv message 0) (\<lambda>envelope.
       if tl_tag envelope \<noteq> TAG_SEQUENCE then Inl NotSequence
       else bindE (iter_tlv (tl_content envelope) 0) (\<lambda>parts.
         if length parts < 2 then Inl NoOperation
         else ldap_operation (tlv_int (tl_content (parts ! 0))) (parts ! 1)))"

section \<open>Framing and session\<close>

definition LDAP_MAX_MESSAGE :: int where "LDAP_MAX_MESSAGE = 65536"

text \<open>\<open>_read_message\<close>: \<open>readexactly\<close> fails when the connection ends first.\<close>

definition read_exactly :: "nat \<Rightarrow> bytes \<Rightarrow> (bytes \<times> bytes) option" where
  "read_exactly n s = (if n \<le> length s then Some (take n s, drop n s) else None)"

definition read_body :: "nat \<Rightarrow> bytes \<Rightarrow> bytes \<Rightarrow> (bytes \<times> bytes) option" where
  "read_body n prefix s =
     (if LDAP_MAX_MESSAGE < int n then None
      else map_option (\<lambda>(b, rest). (prefix @ b, rest)) (read_exactly n s))"

definition read_message :: "bytes \<Rightarrow> (bytes \<times> bytes) option" where
  "read_message s =
     Option.bind (read_exactly 2 s) (\<lambda>(head, s1).
       let first = unat (head ! 1); count = first - 128 in
       if first < 128 then read_body first head s1
       else if first = 128 then None
       else if 4 < count then None
       else Option.bind (read_exactly count s1) (\<lambda>(x, s2). read_body (be_num x) (head @ x) s2))"

lemma read_exactly_Some:
  "read_exactly n s = Some (a, b) \<longleftrightarrow> s = a @ b \<and> length a = n"
  by (auto simp: read_exactly_def)

lemma read_body_Some:
  "read_body n prefix s = Some (m, rest) \<longleftrightarrow>
     (\<exists>b. m = prefix @ b \<and> s = b @ rest \<and> length b = n \<and> int n \<le> LDAP_MAX_MESSAGE)"
  by (auto simp: read_body_def read_exactly_Some)

text \<open>The two forms of a message that is read off a connection.\<close>

lemma read_message_cases:
  assumes "read_message s = Some (m, rest)"
  obtains (short) tag n b where "m = tag # n # b" "unat n < 128" "length b = unat n" "s = m @ rest"
  | (long) tag n x b where "m = tag # n # x @ b" "128 < unat n" "unat n - 128 \<le> 4"
      "length x = unat n - 128" "length b = be_num x" "s = m @ rest"
proof -
  obtain head s1 where h: "s = head @ s1" "length head = 2"
    and m: "(let first = unat (head ! 1); count = first - 128 in
       if first < 128 then read_body first head s1
       else if first = 128 then None
       else if 4 < count then None
       else Option.bind (read_exactly count s1) (\<lambda>(x, s2). read_body (be_num x) (head @ x) s2)) = Some (m, rest)"
    using assms by (auto simp: read_message_def bind_eq_Some_conv read_exactly_Some)
  obtain tag n where tn: "head = [tag, n]" using h(2) by (auto simp: length_Suc_conv numeral_2_eq_2)
  show ?thesis
  proof (cases "unat n < 128")
    case True
    then obtain b where "m = head @ b" "s1 = b @ rest" "length b = unat n"
      using m by (auto simp: tn read_body_Some)
    then show ?thesis using True h(1) by (intro short [of tag n b]) (simp_all add: tn)
  next
    case False
    then obtain x s2 where x: "128 < unat n" "unat n - 128 \<le> 4" "s1 = x @ s2" "length x = unat n - 128"
      and "read_body (be_num x) (head @ x) s2 = Some (m, rest)"
      using m by (auto simp: tn Let_def bind_eq_Some_conv read_exactly_Some split: if_splits)
    then obtain b where "m = head @ x @ b" "s2 = b @ rest" "length b = be_num x"
      by (auto simp: read_body_Some)
    then show ?thesis using x h(1) by (intro long [of tag n x b]) (simp_all add: tn)
  qed
qed

lemma read_message_split:
  assumes "read_message s = Some (m, rest)" shows "s = m @ rest" and "2 \<le> length m"
  using assms by (cases rule: read_message_cases; simp)+

lemma read_message_shorter: "read_message s = Some (m, rest) \<Longrightarrow> length rest < length s"
  using read_message_split [of s m rest] by auto

function ldap_session :: "bool \<Rightarrow> bool \<Rightarrow> bytes \<Rightarrow> bytes \<times> ldap_note list" where
  "ldap_session saw recorded s =
     (case read_message s of
        None \<Rightarrow> ([], if saw \<and> \<not> recorded then [NothingUseful] else [])
      | Some (m, rest) \<Rightarrow>
          (case ldap_dispatch m of
             Inl _ \<Rightarrow> ([], [Unparseable])
           | Inr o1 \<Rightarrow>
               (let recorded1 = (recorded \<or> lo_recorded o1) in
                case lo_response o1 of
                  None \<Rightarrow> ([], lo_notes o1 @ (if recorded1 then [] else [NothingUseful]))
                | Some r \<Rightarrow>
                    (let rn = ldap_session True recorded1 rest in (r @ fst rn, lo_notes o1 @ snd rn)))))"
  by pat_completeness auto

termination
  by (relation "measure (\<lambda>(saw, recorded, s). length s)") (auto dest: read_message_shorter)

declare ldap_session.simps [simp del]

definition ldap_connection :: "bytes \<Rightarrow> bytes \<times> ldap_note list" where
  "ldap_connection s = ldap_session False False s"

section \<open>Framing agrees with the reader\<close>

text \<open>What is read off a connection is a prefix of it that is exactly one BER element: the
  reader takes all of it, or refuses its multi-byte tag. The length checks of the reader never
  fire on it.\<close>

theorem message_is_one_element:
  assumes "read_message s = Some (m, rest)"
  shows "s = m @ rest
    \<and> (case read_tlv m 0 of
         Inl e \<Rightarrow> e = MultiByteTag
       | Inr t \<Rightarrow> tl_end t = length m \<and> tl_tag t = hd m)"
  using assms
proof (cases rule: read_message_cases)
  case (short tag n b)
  then have "read_length m 1 = Inr (length b, 2)"
    by (simp add: read_length_def Let_def)
  then show ?thesis using short by (simp add: read_tlv_def Let_def)
next
  case (long tag n x b)
  have n: "unat n = 128 + length x" using long by simp
  have "subrange m (Suc (Suc 0)) (Suc (Suc (length x))) = x"
    by (rule subrange_mid_at [of _ "[tag, n]" _ b]) (use long in simp_all)
  then have "read_length m 1 = Inr (length b, 2 + length x)"
    using long(1,2,5) \<open>unat n - 128 \<le> 4\<close> by (simp add: read_length_def Let_def n)
  then show ?thesis using long by (simp add: read_tlv_def Let_def)
qed

lemma message_is_one_element_witness:
  "(let s = enc_seq [enc_int 1] @ [0x30] in
     s = enc_seq [enc_int 1] @ [0x30]
     \<and> (case read_tlv (enc_seq [enc_int 1]) 0 of
          Inl e \<Rightarrow> e = MultiByteTag
        | Inr t \<Rightarrow> tl_end t = length (enc_seq [enc_int 1]) \<and> tl_tag t = hd (enc_seq [enc_int 1])))"
proof -
  have "read_message (enc_seq [enc_int 1] @ [0x30]) = Some (enc_seq [enc_int 1], [0x30])" by code_simp
  from message_is_one_element [OF this] show ?thesis by (simp only: Let_def)
qed

section \<open>No connection goes unnoticed\<close>

lemma operation_notes:
  assumes "ldap_operation i op = Inr o1"
  shows "lo_recorded o1 \<longleftrightarrow> lo_notes o1 \<noteq> []" and "lo_response o1 \<noteq> None \<Longrightarrow> lo_recorded o1"
  using assms by (auto simp: ldap_operation_def bindE_Inr_iff split: if_splits)

lemma dispatch_notes:
  assumes "ldap_dispatch m = Inr o1"
  shows "lo_recorded o1 \<longleftrightarrow> lo_notes o1 \<noteq> []" and "lo_response o1 \<noteq> None \<Longrightarrow> lo_recorded o1"
  using assms operation_notes by (auto simp: ldap_dispatch_def bindE_Inr_iff split: if_splits)

text \<open>A connection leaves a note exactly when a whole message came over it, whatever the message
  says and wherever it breaks off after that.\<close>

theorem ldap_connection_noted:
  "snd (ldap_connection s) = [] \<longleftrightarrow> read_message s = None"
proof (cases "read_message s")
  case None
  then show ?thesis by (simp add: ldap_connection_def ldap_session.simps [of False])
next
  case (Some mr)
  then obtain m rest where m: "read_message s = Some (m, rest)" by (cases mr) auto
  show ?thesis
  proof (cases "ldap_dispatch m")
    case (Inl e)
    then show ?thesis using m by (simp add: ldap_connection_def ldap_session.simps [of False])
  next
    case (Inr o1)
    then show ?thesis using m dispatch_notes [OF Inr]
      by (auto simp: ldap_connection_def ldap_session.simps [of False] Let_def split: option.splits)
  qed
qed

section \<open>A directory lookup is answered and its base is noted\<close>

lemma iter_tlv_written:
  assumes "list_all element_ok es"
  shows "\<exists>ts. iter_tlv (concat (map element_bytes es)) 0 = Inr ts
    \<and> map (\<lambda>t. (tl_tag t, tl_content t)) ts = es"
  using iter_tlv_bytes [OF assms, of "[]"]
  by (cases "iter_tlv (concat (map element_bytes es)) 0") auto

lemma dispatch_request:
  assumes id: "int_octets v < 256" and op: "element_ok (tag, body)"
    and small: "length (enc_int v @ tlv_bytes tag body) < 256 ^ 4"
  shows "\<exists>t. ldap_dispatch (enc_seq [enc_int v, tlv_bytes tag body]) = ldap_operation v t
    \<and> tl_tag t = tag \<and> tl_content t = body"
proof -
  let ?parts = "[(TAG_INTEGER, signed_bytes v), (tag, body)]"
  have bytes: "concat (map element_bytes ?parts) = enc_int v @ tlv_bytes tag body"
    by (simp add: element_bytes_def enc_int_def enc_int_tag_def)
  have "length (signed_bytes v) < 256" using id by (simp add: signed_bytes_def)
  then have "list_all element_ok ?parts"
    using op by (simp add: element_ok_def one_octet_tag_def TAG_INTEGER_def)
  from iter_tlv_written [OF this, unfolded bytes] obtain ts where
    ts: "iter_tlv (enc_int v @ tlv_bytes tag body) 0 = Inr ts"
      "map (\<lambda>t. (tl_tag t, tl_content t)) ts = ?parts" by (elim exE conjE) (rule that)
  obtain t1 t2 where "ts = [t1, t2]" "tl_content t1 = signed_bytes v" "tl_tag t2 = tag" "tl_content t2 = body"
    using ts(2) by auto
  moreover have "read_tlv (enc_seq [enc_int v, tlv_bytes tag body]) 0
      = Inr \<lparr>tl_tag = TAG_SEQUENCE, tl_content = enc_int v @ tlv_bytes tag body,
             tl_end = length (enc_seq [enc_int v, tlv_bytes tag body])\<rparr>"
    using read_tlv_bytes [OF _ small, of TAG_SEQUENCE "[]" "[]"]
    by (simp add: enc_seq_def one_octet_tag_def TAG_SEQUENCE_def)
  ultimately have "ldap_dispatch (enc_seq [enc_int v, tlv_bytes tag body]) = ldap_operation v t2"
    "tl_tag t2 = tag" "tl_content t2 = body"
    using ts(1) tlv_int_signed [of v] by (simp_all add: ldap_dispatch_def)
  then show ?thesis by blast
qed

text \<open>A well-formed search request, whatever follows its base object, is answered with one entry
  whose name is the base object asked for and a success, both under the id of the request; the
  recorder gets the base object.\<close>

theorem search_answered:
  assumes "int_octets v < 256" and "ascii_bytes base"
    and "list_all element_ok ((TAG_OCTET_STRING, base) # further)"
    and "length (concat (map element_bytes ((TAG_OCTET_STRING, base) # further))) < 256 ^ 3"
  shows "\<exists>scope. ldap_dispatch (enc_seq [enc_int v, tlv_bytes APP_SEARCH_REQUEST
        (concat (map element_bytes ((TAG_OCTET_STRING, base) # further)))])
    = Inr \<lparr>lo_response = Some
             (result_message v APP_SEARCH_ENTRY (enc_str base @ enc_seq [ldap_attribute ''objectClass'' ''top''])
              @ result_message v APP_SEARCH_DONE success_body),
           lo_recorded = True,
           lo_notes = [Operation ''search'' (map unat base) [(''scope'', scope)]]\<rparr>"
proof -
  let ?further = "(TAG_OCTET_STRING, base) # further" and ?v = "enc_int v"
  let ?body = "concat (map element_bytes ?further)"
  have len: "length (encode_length n) \<le> 5" if "n < 256 ^ 4" for n
    using octets_small [OF that] by (simp add: encode_length_def Let_def)
  have "length (signed_bytes v) < 256" using assms(1) by (simp add: signed_bytes_def)
  then have "length ?v < 300"
    using len [of "length (signed_bytes v)"] by (simp add: enc_int_def enc_int_tag_def tlv_bytes_def)
  moreover have "length (tlv_bytes APP_SEARCH_REQUEST ?body) < 256 ^ 3 + 6"
    using len [of "length ?body"] assms(4) by (simp only: tlv_bytes_def) simp
  ultimately have small: "length (?v @ tlv_bytes APP_SEARCH_REQUEST ?body) < 256 ^ 4" by simp
  have "element_ok (APP_SEARCH_REQUEST, ?body)"
    using assms(4) by (simp add: element_ok_def one_octet_tag_def APP_SEARCH_REQUEST_def)
  from dispatch_request [OF assms(1) this small] obtain t where
    t: "ldap_dispatch (enc_seq [?v, tlv_bytes APP_SEARCH_REQUEST ?body]) = ldap_operation v t"
      "tl_tag t = APP_SEARCH_REQUEST" "tl_content t = ?body" by blast
  obtain ts where ts: "iter_tlv ?body 0 = Inr ts" "map (\<lambda>t. (tl_tag t, tl_content t)) ts = ?further"
    using iter_tlv_written [OF assms(3)] by (elim exE conjE) (rule that)
  then obtain t0 ts' where t0: "ts = t0 # ts'" "tl_content t0 = base" by (cases ts) auto
  have "field_text ts 0 = map unat base" using assms(2) by (simp add: t0 field_text_def decode_ascii)
  moreover have "encode_utf8 (map unat base) = base"
    using encode_decode_ascii [OF assms(2)] by (simp add: decode_ascii [OF assms(2)])
  ultimately show ?thesis
    using ts(1) t by (simp add: ldap_operation_def APP_SEARCH_REQUEST_def APP_BIND_REQUEST_def APP_UNBIND_REQUEST_def)
qed

abbreviation shop_dn :: bytes where
  "shop_dn \<equiv> [0x63, 0x6E, 0x3D, 0x73, 0x68, 0x6F, 0x70]"

lemma search_answered_witness:
  "\<exists>scope. ldap_dispatch (enc_seq [enc_int 7, tlv_bytes APP_SEARCH_REQUEST
        (concat (map element_bytes [(TAG_OCTET_STRING, shop_dn), (TAG_ENUMERATED, [2])]))])
    = Inr \<lparr>lo_response = Some
             (result_message 7 APP_SEARCH_ENTRY (enc_str shop_dn @ enc_seq [ldap_attribute ''objectClass'' ''top''])
              @ result_message 7 APP_SEARCH_DONE success_body),
           lo_recorded = True,
           lo_notes = [Operation ''search'' (map unat shop_dn) [(''scope'', scope)]]\<rparr>"
proof (rule search_answered)
  show "int_octets 7 < 256" by (simp add: int_octets_def bit_len.simps)
  show "ascii_bytes shop_dn" by (simp add: ascii_bytes_def)
  show "list_all element_ok [(TAG_OCTET_STRING, shop_dn), (TAG_ENUMERATED, [2])]"
    by (simp add: element_ok_def one_octet_tag_def TAG_OCTET_STRING_def TAG_ENUMERATED_def)
  show "length (concat (map element_bytes [(TAG_OCTET_STRING, shop_dn), (TAG_ENUMERATED, [2])])) < 256 ^ 3"
    by (simp add: element_bytes_def tlv_bytes_def encode_length_def)
qed

end
