(* ===== verification/Hint_Index.thy ===== *)
theory Hint_Index
  imports Hosts Json "HOL-Library.Multiset"
begin

text \<open>
  \<open>platform/oob/src/edge_resolver/correlation.py\<close> without its worker: the hints an application
  announced (\<open>oob_hint\<close>), the index over them (\<open>hint_index\<close>), the join of one observation
  (\<open>index_match\<close>) and one poll of the full listing (\<open>poll_once\<close>). Clock readings are arguments;
  so is \<open>show_ts\<close>, the text Python prints for a float, which identifies a hint without an id.
\<close>

section \<open>Hints\<close>

record oob_hint =
  oh_id :: string
  oh_ts :: rat
  oh_app :: string
  oh_host :: string
  oh_expires :: rat
  oh_signal :: "string option"
  oh_route :: "string option"
  oh_param :: "string option"
  oh_param_in :: "string option"
  oh_request_id :: "string option"
  oh_source_ips :: "string list"
  oh_synthetic :: bool

text \<open>What the constructor raises on a field of the wrong type, and \<open>float\<close> of a decoded value.
  Texts read are decimal numerals; \<open>float\<close> also takes \<open>inf\<close> and \<open>nan\<close>, which no rational is.\<close>

datatype payload_error = BadNumber | BadHost

definition digits_val :: "string \<Rightarrow> nat" where
  "digits_val s = foldl (\<lambda>n c. 10 * n + (code c - 48)) 0 s"

definition digits_or_nil :: "string \<Rightarrow> bool" where
  "digits_or_nil s = list_all (\<lambda>c. 48 \<le> code c \<and> code c \<le> 57) s"

definition unsigned :: "string \<Rightarrow> bool \<times> string" where
  "unsigned s = (case s of [] \<Rightarrow> (False, []) | c # cs \<Rightarrow>
     if c = CHR ''-'' then (True, cs) else if c = CHR ''+'' then (False, cs) else (False, s))"

definition mantissa_of :: "string \<Rightarrow> rat option" where
  "mantissa_of s =
     (let whole = before (CHR ''.'') s;
          frac = (if CHR ''.'' \<in> set s then after (CHR ''.'') s else [])
      in if whole @ frac \<noteq> [] \<and> digits_or_nil (whole @ frac)
         then Some (of_nat (digits_val (whole @ frac)) / 10 ^ length frac) else None)"

definition exponent_of :: "string \<Rightarrow> rat option" where
  "exponent_of s =
     (let (neg, ds) = unsigned s
      in if ds \<noteq> [] \<and> digits_or_nil ds
         then Some (if neg then 1 / 10 ^ digits_val ds else 10 ^ digits_val ds) else None)"

definition text_float :: "string \<Rightarrow> rat option" where
  "text_float s =
     (let (neg, u) = unsigned (lower (strip s));
          scale = (if CHR ''e'' \<in> set u then exponent_of (after (CHR ''e'') u) else Some 1)
      in case (mantissa_of (before (CHR ''e'') u), scale) of
           (Some m, Some k) \<Rightarrow> Some (if neg then - (m * k) else m * k)
         | _ \<Rightarrow> None)"

definition jfloat :: "json \<Rightarrow> payload_error + rat" where
  "jfloat v =
     (case v of JInt n \<Rightarrow> Inr (of_int n) | JFloat r s \<Rightarrow> Inr r | JBool b \<Rightarrow> Inr (if b then 1 else 0)
      | JStr s \<Rightarrow> (case text_float s of Some r \<Rightarrow> Inr r | None \<Rightarrow> Inl BadNumber)
      | _ \<Rightarrow> Inl BadNumber)"

text \<open>\<open>normalise_host\<close> on a decoded value: a true value that is no text has no \<open>strip\<close>.\<close>

definition payload_host :: "json \<Rightarrow> payload_error + string" where
  "payload_host v =
     (case v of JStr s \<Rightarrow> Inr (normalise_host (Some s))
      | _ \<Rightarrow> if jtruthy v then Inl BadHost else Inr [])"

definition hint_of :: "(rat \<Rightarrow> string) \<Rightarrow> string \<Rightarrow> obj \<Rightarrow> rat \<Rightarrow> rat \<Rightarrow> oob_hint" where
  "hint_of show_ts host p ts expires =
     \<lparr>oh_id = jstr (jor (jget p ''correlation_id'') (JStr (host @ CHR '':'' # show_ts ts))),
      oh_ts = ts, oh_app = jstr (jor (jget p ''app'') (JStr [])), oh_host = host, oh_expires = expires,
      oh_signal = str_field p ''signal'', oh_route = str_field p ''route'', oh_param = str_field p ''param'',
      oh_param_in = str_field p ''param_in'', oh_request_id = str_field p ''request_id'',
      oh_source_ips = (let ip = jget p ''client_ip'' in if jtruthy ip then [jstr ip] else []),
      oh_synthetic = jtruthy (jget p ''synthetic'')\<rparr>"

definition from_payload :: "(rat \<Rightarrow> string) \<Rightarrow> rat \<Rightarrow> rat \<Rightarrow> obj \<Rightarrow> payload_error + oob_hint option" where
  "from_payload show_ts default_ttl now p =
     bindE (payload_host (jor (jget p ''destination_host'') (jget p ''host''))) (\<lambda>host.
       if host = [] then Inr None
       else bindE (jfloat (jor (jget p ''registered_at'') (jor (jget p ''ts'') (JFloat now (show_ts now)))))
         (\<lambda>ts. bindE
            (if jget p ''expires_at'' = JNull
             then bindE (jfloat (jor (jget p ''ttl'') (JFloat default_ttl (show_ts default_ttl)))) (\<lambda>t. Inr (ts + t))
             else jfloat (jget p ''expires_at''))
            (\<lambda>expires. Inr (Some (hint_of show_ts host p ts expires)))))"

section \<open>Attributions\<close>

datatype attribution_mode = MODE_HINT | MODE_OWNED_LABEL | MODE_SOURCE | MODE_UNATTRIBUTED
datatype confidence = HIGH | LOW | NONE

record oob_attribution =
  oa_mode :: attribution_mode
  oa_confidence :: confidence
  oa_app :: "string option"
  oa_hint :: "oob_hint option"
  oa_age_ms :: "int option"
  oa_source_match :: "bool option"

definition attribution_of :: "attribution_mode \<Rightarrow> confidence \<Rightarrow> string option \<Rightarrow> oob_attribution" where
  "attribution_of m c a =
     \<lparr>oa_mode = m, oa_confidence = c, oa_app = a, oa_hint = None, oa_age_ms = None, oa_source_match = None\<rparr>"

definition UNATTRIBUTED :: oob_attribution where
  "UNATTRIBUTED = attribution_of MODE_UNATTRIBUTED NONE None"

text \<open>\<open>as_json\<close>: what is stored and reported of an attribution.\<close>

definition opt_json :: "string option \<Rightarrow> json" where
  "opt_json x = (case x of None \<Rightarrow> JNull | Some s \<Rightarrow> JStr s)"

definition mode_text :: "attribution_mode \<Rightarrow> string" where
  "mode_text m = (case m of MODE_HINT \<Rightarrow> ''hint'' | MODE_OWNED_LABEL \<Rightarrow> ''owned_label''
                  | MODE_SOURCE \<Rightarrow> ''source'' | MODE_UNATTRIBUTED \<Rightarrow> ''unattributed'')"

definition as_attribution :: "oob_hint \<Rightarrow> obj" where
  "as_attribution h =
     [(''app'', opt_json (falsy_none (oh_app h))), (''route'', opt_json (oh_route h)),
      (''param'', opt_json (oh_param h)), (''param_in'', opt_json (oh_param_in h)),
      (''request_id'', opt_json (oh_request_id h)), (''signal'', opt_json (oh_signal h)),
      (''correlation_id'', JStr (oh_id h))]"

definition attribution_json :: "oob_attribution \<Rightarrow> obj" where
  "attribution_json a =
     (let out = [(''mode'', JStr (mode_text (oa_mode a))), (''app'', opt_json (oa_app a))]
      in case oa_hint a of
           None \<Rightarrow> out
         | Some h \<Rightarrow>
             foldl (\<lambda>d (k, v). dict_set k v d) out
               (as_attribution h @ [(''app'', opt_json (oa_app a)),
                  (''hint_age_ms'', case oa_age_ms a of None \<Rightarrow> JNull | Some n \<Rightarrow> JInt n),
                  (''source_match'', case oa_source_match a of None \<Rightarrow> JNull | Some b \<Rightarrow> JBool b)]))"

section \<open>The index\<close>

record hint_index =
  ix_hint_ttl :: rat
  ix_source_ttl :: rat
  ix_max :: nat
  ix_by_host :: "(string, oob_hint list) dict"
  ix_recent :: "oob_hint list"
  ix_seen :: "(string, rat) dict"
  ix_sources :: "(string, string \<times> rat) dict"
  ix_static :: "(string, string) dict"
  ix_added :: nat

definition new_index :: "rat \<Rightarrow> rat \<Rightarrow> nat \<Rightarrow> hint_index" where
  "new_index hint_ttl source_ttl m =
     \<lparr>ix_hint_ttl = hint_ttl, ix_source_ttl = source_ttl, ix_max = m, ix_by_host = [], ix_recent = [],
      ix_seen = [], ix_sources = [], ix_static = [], ix_added = 0\<rparr>"

definition set_static_sources :: "(string, string) dict \<Rightarrow> hint_index \<Rightarrow> hint_index" where
  "set_static_sources m g = g\<lparr>ix_static := m\<rparr>"

definition SCAN_LIMIT :: nat where "SCAN_LIMIT = 512"

text \<open>\<open>deque(maxlen=n)\<close> and the slice \<open>[-n:]\<close>: the last \<open>n\<close> elements.\<close>

definition last_n :: "nat \<Rightarrow> 'a list \<Rightarrow> 'a list" where
  "last_n n xs = drop (length xs - n) xs"

definition live :: "rat \<Rightarrow> oob_hint \<Rightarrow> bool" where
  "live now h = (now < oh_expires h)"

definition prune :: "rat \<Rightarrow> hint_index \<Rightarrow> hint_index" where
  "prune now g =
     g\<lparr>ix_by_host := map (\<lambda>(host, hs). (host, filter (live now) hs))
                       (filter (\<lambda>(host, hs). \<not> list_all (\<lambda>h. \<not> live now h) hs) (ix_by_host g)),
       ix_seen := filter (\<lambda>(i, expires). now < expires) (ix_seen g),
       ix_sources := filter (\<lambda>(ip, app, seen). now - seen \<le> ix_source_ttl g) (ix_sources g)\<rparr>"

definition learn_sources :: "oob_hint \<Rightarrow> (string, string \<times> rat) dict \<Rightarrow> (string, string \<times> rat) dict" where
  "learn_sources h d =
     foldl (\<lambda>d ip. if oh_app h \<noteq> [] then dict_set ip (oh_app h, oh_ts h) d else d) d (oh_source_ips h)"

definition index_add :: "rat \<Rightarrow> oob_hint \<Rightarrow> hint_index \<Rightarrow> hint_index \<times> bool" where
  "index_add now h g =
     (if dict_get (ix_seen g) (oh_id h) \<noteq> None then (g, False)
      else (prune now
        (g\<lparr>ix_seen := dict_set (oh_id h) (oh_expires h) (ix_seen g),
           ix_by_host := bucket_add (oh_host h) h (ix_by_host g),
           ix_recent := last_n (ix_max g) (ix_recent g @ [h]),
           ix_added := ix_added g + 1,
           ix_sources := learn_sources h (ix_sources g)\<rparr>), True))"

text \<open>A payload that raises ends the loop; what was added before stays.\<close>

fun add_payloads ::
  "(rat \<Rightarrow> string) \<Rightarrow> rat \<Rightarrow> obj list \<Rightarrow> hint_index \<Rightarrow> hint_index \<times> (payload_error + nat)" where
  "add_payloads show_ts now [] g = (g, Inr 0)"
| "add_payloads show_ts now (p # ps) g =
     (case from_payload show_ts (ix_hint_ttl g) now p of
        Inl e \<Rightarrow> (g, Inl e)
      | Inr None \<Rightarrow> add_payloads show_ts now ps g
      | Inr (Some h) \<Rightarrow>
          (let (g1, new) = index_add now h g; (g2, r) = add_payloads show_ts now ps g1
           in (g2, bindE r (\<lambda>n. Inr (if new then n + 1 else n)))))"

definition note_source :: "string \<Rightarrow> string \<Rightarrow> rat \<Rightarrow> hint_index \<Rightarrow> hint_index" where
  "note_source ip app ts g = g\<lparr>ix_sources := dict_set ip (app, ts) (ix_sources g)\<rparr>"

definition app_for_source :: "string \<Rightarrow> rat \<Rightarrow> hint_index \<Rightarrow> string option" where
  "app_for_source ip now g =
     (case dict_get (ix_sources g) ip of
        Some (app, seen) \<Rightarrow> if now - seen \<le> ix_source_ttl g then Some app else dict_get (ix_static g) ip
      | None \<Rightarrow> dict_get (ix_static g) ip)"

section \<open>The join\<close>

definition bucket :: "string \<Rightarrow> hint_index \<Rightarrow> oob_hint list" where
  "bucket name g = (case dict_get (ix_by_host g) name of None \<Rightarrow> [] | Some hs \<Rightarrow> hs)"

definition host_candidates :: "string \<Rightarrow> rat \<Rightarrow> hint_index \<Rightarrow> oob_hint list" where
  "host_candidates name now g =
     (let exact = filter (live now) (bucket name g)
      in if exact \<noteq> [] then exact
         else filter (\<lambda>h. live now h \<and> hosts_match name (oh_host h)) (last_n SCAN_LIMIT (ix_recent g)))"

text \<open>\<open>sort(key=..., reverse=True)\<close> keeps the order of equal keys.\<close>

definition sort_desc :: "('a \<Rightarrow> 'k::linorder) \<Rightarrow> 'a list \<Rightarrow> 'a list" where
  "sort_desc key xs = rev (sort_key key (rev xs))"

definition strength :: "string \<Rightarrow> oob_hint \<Rightarrow> bool \<times> rat" where
  "strength ip h = (ip \<in> set (oh_source_ips h), oh_ts h)"

definition match_host :: "string \<Rightarrow> string \<Rightarrow> rat \<Rightarrow> hint_index \<Rightarrow> hint_index \<times> oob_hint option" where
  "match_host name ip now g =
     (let g1 = prune now g
      in (g1, case sort_desc (strength ip) (host_candidates name now g1) of [] \<Rightarrow> None | h # _ \<Rightarrow> Some h))"

definition hint_attribution :: "string \<Rightarrow> rat \<Rightarrow> oob_hint \<Rightarrow> oob_attribution" where
  "hint_attribution ip now h =
     \<lparr>oa_mode = MODE_HINT, oa_confidence = HIGH, oa_app = falsy_none (oh_app h), oa_hint = Some h,
      oa_age_ms = Some (max 0 \<lfloor>(now - oh_ts h) * 1000\<rfloor>),
      oa_source_match = (if oh_source_ips h = [] then None else Some (ip \<in> set (oh_source_ips h)))\<rparr>"

definition source_attribution :: "string \<Rightarrow> rat \<Rightarrow> hint_index \<Rightarrow> oob_attribution" where
  "source_attribution ip now g =
     (let app = app_for_source ip now g
      in if truthy app then attribution_of MODE_SOURCE LOW app else UNATTRIBUTED)"

definition index_match :: "string option \<Rightarrow> string \<Rightarrow> rat \<Rightarrow> hint_index \<Rightarrow> hint_index \<times> oob_attribution" where
  "index_match host ip now g =
     (let name = normalise_host host;
          (g1, found) = (if name \<noteq> [] then match_host name ip now g else (g, None))
      in (g1, case found of Some h \<Rightarrow> hint_attribution ip now h | None \<Rightarrow> source_attribution ip now g1))"

record index_stats =
  is_pending :: nat
  is_received :: nat
  is_sources :: nat

definition index_stats :: "hint_index \<Rightarrow> index_stats" where
  "index_stats g =
     \<lparr>is_pending = sum_list (map (length \<circ> snd) (ix_by_host g)), is_received = ix_added g,
      is_sources = length (ix_sources g)\<rparr>"

section \<open>Polling\<close>

record poller =
  po_failures :: nat
  po_polls :: nat
  po_watermark :: rat
  po_last_error :: "string option"

definition new_poller :: poller where
  "new_poller = \<lparr>po_failures = 0, po_polls = 0, po_watermark = 0, po_last_error = None\<rparr>"

text \<open>\<open>fetch\<close> raises (with a message), gives nothing (no endpoint), or gives payloads.\<close>

datatype fetched = Raised string | Nothing | Payloads "obj list"

fun newest_registered :: "obj list \<Rightarrow> payload_error + rat option" where
  "newest_registered [] = Inr None"
| "newest_registered (p # ps) =
     bindE (jfloat (jor (jget p ''registered_at'') (JInt 0))) (\<lambda>r.
       bindE (newest_registered ps) (\<lambda>m. Inr (Some (case m of None \<Rightarrow> r | Some x \<Rightarrow> max r x))))"

definition poll_query :: "poller \<Rightarrow> rat option" where
  "poll_query p = (if po_watermark p = 0 then None else Some (po_watermark p))"

definition poll_once ::
  "(rat \<Rightarrow> string) \<Rightarrow> rat \<Rightarrow> fetched \<Rightarrow> poller \<times> hint_index \<Rightarrow> (poller \<times> hint_index) \<times> (payload_error + nat)" where
  "poll_once show_ts now answer s =
     (let p = (fst s)\<lparr>po_polls := po_polls (fst s) + 1\<rparr>; g = snd s
      in case answer of
           Raised message \<Rightarrow>
             ((p\<lparr>po_failures := po_failures p + 1, po_last_error := Some message\<rparr>, g), Inr 0)
         | Nothing \<Rightarrow> ((p\<lparr>po_failures := po_failures p + 1\<rparr>, g), Inr 0)
         | Payloads ps \<Rightarrow>
             (let p1 = p\<lparr>po_failures := 0, po_last_error := None\<rparr>
              in case newest_registered ps of
                   Inl e \<Rightarrow> ((p1, g), Inl e)
                 | Inr m \<Rightarrow>
                     (let newest = get_or m 0;
                          p2 = (if newest \<noteq> 0 then p1\<lparr>po_watermark := max (po_watermark p1) (newest - 1)\<rparr> else p1);
                          (g1, r) = add_payloads show_ts now ps g
                      in ((p2, g1), r))))"

end
