(* ===== verification/Hint_Facts.thy ===== *)
theory Hint_Facts
  imports Hint_Index Registry
begin

text \<open>
  What the hint index of \<open>Hint_Index\<close> promises: its invariant under every operation, the choice of
  the hint an observation is attributed to, the place of address agreement in that choice, and
  the composition with the collector's registry, from an announced fetch to its attribution.
\<close>

section \<open>The hints held\<close>

definition held :: "hint_index \<Rightarrow> oob_hint list" where
  "held g = concat (map snd (ix_by_host g))"

lemma bucket_add_Cons:
  "bucket_add k v ((k', vs) # d) = (if k' = k then (k', vs @ [v]) # d else (k', vs) # bucket_add k v d)"
  by (auto simp: bucket_add_def dict_set_def split: option.splits)

lemma bucket_add_Nil: "bucket_add k v [] = [(k, [v])]"
  by (simp add: bucket_add_def)

lemma mset_bucket_add:
  "mset (concat (map snd (bucket_add k v d))) = add_mset v (mset (concat (map snd d)))"
  by (induction d) (auto simp: bucket_add_Nil bucket_add_Cons)

lemma set_bucket_add:
  "(k', vs') \<in> set (bucket_add k v d) \<Longrightarrow>
     (k', vs') \<in> set d \<or> k' = k \<and> (\<exists>vs. vs' = vs @ [v] \<and> (vs = [] \<or> (k, vs) \<in> set d))"
  by (induction d) (auto simp: bucket_add_Nil bucket_add_Cons split: if_splits)

lemma held_prune: "held (prune now g) = filter (live now) (held g)"
proof -
  have "concat (map snd (map (\<lambda>(host, hs). (host, filter (live now) hs))
          (filter (\<lambda>(host, hs). \<not> list_all (\<lambda>h. \<not> live now h) hs) d)))
      = filter (live now) (concat (map snd d))" for d
    by (induction d) (auto simp: list_all_iff filter_empty_conv)
  then show ?thesis by (simp add: held_def prune_def)
qed

lemma prune_others [simp]:
  "ix_recent (prune now g) = ix_recent g" "ix_max (prune now g) = ix_max g" "ix_added (prune now g) = ix_added g"
  "ix_static (prune now g) = ix_static g" "ix_hint_ttl (prune now g) = ix_hint_ttl g"
  "ix_source_ttl (prune now g) = ix_source_ttl g"
  by (simp_all add: prune_def)

lemma dict_ok_map: "dict_ok (map (\<lambda>(k, v). (k, f k v)) d) \<longleftrightarrow> dict_ok d"
  by (simp add: dict_ok_def comp_def case_prod_beta)

lemma dict_get_map: "dict_get (map (\<lambda>(k, v). (k, f v)) d) k = map_option f (dict_get d k)"
  by (induction d) auto

lemma dict_get_filter:
  "dict_ok d \<Longrightarrow> dict_get (filter (\<lambda>(k, v). P v) d) k
     = (case dict_get d k of None \<Rightarrow> None | Some v \<Rightarrow> if P v then Some v else None)"
  by (induction d) (auto simp: dict_ok_def dict_get_def split: option.splits dest: map_of_SomeD intro: rev_image_eqI)

section \<open>Well-formed indexes\<close>

text \<open>Buckets are never empty and hold hints of their host; no id occurs twice; the ids seen are
  exactly the ids held, with their expiry.\<close>

definition index_ok :: "hint_index \<Rightarrow> bool" where
  "index_ok g \<longleftrightarrow>
     dict_ok (ix_by_host g) \<and> dict_ok (ix_seen g) \<and> dict_ok (ix_sources g)
     \<and> (\<forall>(k, hs)\<in>set (ix_by_host g). hs \<noteq> [] \<and> (\<forall>h\<in>set hs. oh_host h = k))
     \<and> distinct (map oh_id (held g))
     \<and> set (ix_seen g) = (\<lambda>h. (oh_id h, oh_expires h)) ` set (held g)
     \<and> length (ix_recent g) \<le> ix_max g
     \<and> length (held g) \<le> ix_added g"

lemma distinct_map_filter': "distinct (map f xs) \<Longrightarrow> distinct (map f (filter P xs))"
  by (induction xs) auto

lemma prune_ok: assumes "index_ok g" shows "index_ok (prune now g)"
proof -
  have b: "dict_ok (ix_by_host (prune now g))"
    using assms by (simp add: index_ok_def prune_def dict_ok_map)
  have s: "dict_ok (ix_seen (prune now g))" "dict_ok (ix_sources (prune now g))"
    using assms by (simp_all add: index_ok_def prune_def)
  have k: "\<forall>(k, hs)\<in>set (ix_by_host (prune now g)). hs \<noteq> [] \<and> (\<forall>h\<in>set hs. oh_host h = k)"
    using assms by (auto simp: index_ok_def prune_def list_all_iff filter_empty_conv)
  have "set (ix_seen (prune now g)) = (\<lambda>h. (oh_id h, oh_expires h)) ` set (held (prune now g))"
    using assms unfolding held_prune by (auto simp: index_ok_def prune_def live_def)
  then show ?thesis
    using assms b s k length_filter_le [of "live now" "held g"]
    by (auto simp: index_ok_def held_prune distinct_map_filter' simp del: length_filter_le)
qed

lemma dict_ok_learn_sources [simp]: "dict_ok d \<Longrightarrow> dict_ok (learn_sources h d)"
proof -
  have "dict_ok d \<Longrightarrow> dict_ok (foldl (\<lambda>d ip. if oh_app h \<noteq> [] then dict_set ip (oh_app h, oh_ts h) d else d) d ips)"
    for ips by (induction ips arbitrary: d) auto
  then show "dict_ok d \<Longrightarrow> dict_ok (learn_sources h d)" by (simp add: learn_sources_def)
qed

lemma length_last_n: "length (last_n n xs) \<le> n"
  by (simp add: last_n_def)

lemma index_add_ok: assumes "index_ok g" shows "index_ok (fst (index_add now h g))"
proof (cases "dict_get (ix_seen g) (oh_id h) = None")
  case True
  define g' where "g' = g\<lparr>ix_seen := dict_set (oh_id h) (oh_expires h) (ix_seen g),
           ix_by_host := bucket_add (oh_host h) h (ix_by_host g),
           ix_recent := last_n (ix_max g) (ix_recent g @ [h]),
           ix_added := ix_added g + 1,
           ix_sources := learn_sources h (ix_sources g)\<rparr>"
  have m: "mset (held g') = add_mset h (mset (held g))" by (simp add: held_def g'_def mset_bucket_add)
  then have st: "set (held g') = insert h (set (held g))" by (metis set_mset_add_mset_insert set_mset_mset)
  have "oh_id h \<notin> oh_id ` set (held g)"
    using True assms unfolding index_ok_def dict_get_None_iff by (force simp: image_image)
  moreover have "mset (map oh_id (held g')) = mset (oh_id h # map oh_id (held g))" using m by simp
  ultimately have "distinct (map oh_id (held g'))"
    using assms mset_eq_imp_distinct_iff [of "map oh_id (held g')" "oh_id h # map oh_id (held g)"]
    by (simp add: index_ok_def)
  moreover have "set (ix_seen g') = (\<lambda>h. (oh_id h, oh_expires h)) ` set (held g')"
    unfolding st using assms dict_set_or_snoc(1) [OF True, of "oh_expires h"] by (simp add: g'_def index_ok_def)
  moreover have "\<forall>(k, hs)\<in>set (ix_by_host g'). hs \<noteq> [] \<and> (\<forall>h\<in>set hs. oh_host h = k)"
    using assms by (fastforce simp: g'_def index_ok_def dest!: set_bucket_add)
  moreover have "length (held g') = Suc (length (held g))" using m by (metis size_add_mset size_mset)
  moreover have "dict_ok (ix_by_host g') \<and> dict_ok (ix_seen g') \<and> dict_ok (ix_sources g')
      \<and> length (ix_recent g') \<le> ix_max g' \<and> ix_added g' = Suc (ix_added g)"
    using assms by (simp add: g'_def index_ok_def length_last_n)
  ultimately have "index_ok g'" using assms by (simp add: index_ok_def)
  then show ?thesis using True by (simp add: index_add_def prune_ok g'_def)
qed (use assms in \<open>auto simp: index_add_def\<close>)

lemma new_index_ok [simp]: "index_ok (new_index hint_ttl source_ttl m)"
  by (simp add: index_ok_def new_index_def dict_ok_def held_def)

lemma add_payloads_ok: "index_ok g \<Longrightarrow> index_ok (fst (add_payloads show_ts now ps g))"
proof (induction ps arbitrary: g)
  case (Cons p ps)
  then show ?case using index_add_ok [OF Cons.prems]
    by (auto simp: case_prod_beta Let_def split: sum.splits option.splits)
qed simp


section \<open>Runs of the index and its poller\<close>

datatype index_op =
    AddHint rat oob_hint
  | AddPayloads "rat \<Rightarrow> string" rat "obj list"
  | Poll "rat \<Rightarrow> string" rat fetched
  | NoteSource string string rat
  | StaticSources "(string, string) dict"
  | MatchHost "string option" string rat

fun index_step :: "poller \<times> hint_index \<Rightarrow> index_op \<Rightarrow> poller \<times> hint_index" where
  "index_step (p, g) (AddHint now h) = (p, fst (index_add now h g))"
| "index_step (p, g) (AddPayloads show_ts now ps) = (p, fst (add_payloads show_ts now ps g))"
| "index_step (p, g) (Poll show_ts now answer) = fst (poll_once show_ts now answer (p, g))"
| "index_step (p, g) (NoteSource ip app ts) = (p, note_source ip app ts g)"
| "index_step (p, g) (StaticSources m) = (p, set_static_sources m g)"
| "index_step (p, g) (MatchHost host ip now) = (p, fst (index_match host ip now g))"

lemma match_index: "fst (index_match host ip now g) = (if normalise_host host \<noteq> [] then prune now g else g)"
  by (simp add: index_match_def match_host_def Let_def)

lemma poll_index:
  "snd (fst (poll_once show_ts now answer (p, g))) = g
   \<or> (\<exists>ps. answer = Payloads ps \<and> snd (fst (poll_once show_ts now answer (p, g))) = fst (add_payloads show_ts now ps g))"
  by (auto simp: poll_once_def Let_def case_prod_beta split: fetched.splits sum.splits)

interpretation index: invariant_machine index_step "\<lambda>s. index_ok (snd s)"
proof (unfold_locales, goal_cases)
  case (1 s op)
  obtain p g where s: "s = (p, g)" by (cases s)
  show ?case
  proof (cases op)
    case (Poll show_ts now answer)
    then show ?thesis using 1 poll_index [of show_ts now answer p g] by (auto simp: s add_payloads_ok)
  qed (use 1 in \<open>auto simp: s index_add_ok add_payloads_ok match_index prune_ok\<close>,
       auto simp: index_ok_def note_source_def set_static_sources_def held_def)
qed


text \<open>The watermark of the poller never goes back.\<close>

lemma poll_watermark: "po_watermark (fst s) \<le> po_watermark (fst (index_step s op))"
proof -
  obtain p g where "s = (p, g)" by (cases s)
  then show ?thesis
    by (cases op) (auto simp: poll_once_def Let_def case_prod_beta split: fetched.splits sum.splits)
qed

lemma run_watermark: "po_watermark (fst s) \<le> po_watermark (fst (foldl index_step s ops))"
proof (induction ops arbitrary: s)
  case (Cons op ops)
  from poll_watermark Cons.IH have "po_watermark (fst s) \<le> po_watermark (fst (foldl index_step (index_step s op) ops))"
    by (rule order_trans)
  then show ?case by simp
qed simp

text \<open>A listing with a time that is no number ends the poll with an exception, and with it the thread.\<close>

lemma poll_raises:
  "snd (poll_once show_ts now (Payloads [[(''destination_host'', JStr ''a.b''), (''registered_at'', JStr ''soon'')]]) s)
     = Inl BadNumber"
proof -
  have "jfloat (JStr ''soon'') = Inl BadNumber" by code_simp
  then show ?thesis by (simp add: poll_once_def Let_def jget_def jor_def)
qed

section \<open>Which hint is chosen\<close>

lemma set_sort_desc [simp]: "set (sort_desc key xs) = set xs"
  by (simp add: sort_desc_def)

lemma sort_desc_hd:
  assumes "sort_desc key xs = h # hs" and "x \<in> set xs"
  shows "key x \<le> key h"
proof -
  have "sorted (map key (rev (h # hs)))"
    using assms(1) by (metis rev_rev_ident sort_desc_def sorted_sort_key)
  moreover have "x \<in> set (h # hs)" using assms by (metis set_sort_desc)
  ultimately show ?thesis by (auto simp: sorted_append)
qed

lemma sort_desc_Nil [simp]: "sort_desc key [] = []" "sort_desc key xs = [] \<longleftrightarrow> xs = []"
  by (simp add: sort_desc_def) (metis set_empty set_sort_desc)

lemma in_bucket:
  assumes "index_ok g" shows "h \<in> set (bucket name g) \<longleftrightarrow> h \<in> set (held g) \<and> oh_host h = name"
proof -
  have d: "dict_ok (ix_by_host g)" and k: "\<And>k hs x. (k, hs) \<in> set (ix_by_host g) \<Longrightarrow> x \<in> set hs \<Longrightarrow> oh_host x = k"
    using assms by (auto simp: index_ok_def)
  show ?thesis
  proof
    assume "h \<in> set (bucket name g)"
    then obtain hs where "dict_get (ix_by_host g) name = Some hs" "h \<in> set hs"
      by (cases "dict_get (ix_by_host g) name") (auto simp: bucket_def)
    then show "h \<in> set (held g) \<and> oh_host h = name"
      using k by (force simp: held_def dest: dict_get_SomeD)
  next
    assume "h \<in> set (held g) \<and> oh_host h = name"
    then obtain hs where "(name, hs) \<in> set (ix_by_host g)" "h \<in> set hs" using k by (force simp: held_def)
    then show "h \<in> set (bucket name g)" using dict_get_in [OF d] by (auto simp: bucket_def)
  qed
qed

text \<open>A hint is eligible for a name when it is alive and registered for that very name; failing any
  such hint, when it is alive, among the recent ones, and for a parent or a subdomain.\<close>

definition exact_hint :: "hint_index \<Rightarrow> string \<Rightarrow> rat \<Rightarrow> oob_hint \<Rightarrow> bool" where
  "exact_hint g name now h \<longleftrightarrow> h \<in> set (held g) \<and> oh_host h = name \<and> now < oh_expires h"

definition eligible :: "hint_index \<Rightarrow> string \<Rightarrow> rat \<Rightarrow> oob_hint \<Rightarrow> bool" where
  "eligible g name now h \<longleftrightarrow>
     exact_hint g name now h
     \<or> (\<nexists>x. exact_hint g name now x) \<and> now < oh_expires h \<and> h \<in> set (last_n SCAN_LIMIT (ix_recent g))
        \<and> hosts_match name (oh_host h)"

lemma host_candidates_eligible:
  assumes "index_ok g"
  shows "h \<in> set (host_candidates name now (prune now g)) \<longleftrightarrow> eligible g name now h"
proof -
  have e: "x \<in> set (filter (live now) (bucket name (prune now g))) \<longleftrightarrow> exact_hint g name now x" for x
    using in_bucket [OF prune_ok [OF assms]] by (auto simp: exact_hint_def held_prune live_def)
  show ?thesis
  proof (cases "filter (live now) (bucket name (prune now g)) = []")
    case True
    then have "\<nexists>x. exact_hint g name now x" using e by (metis empty_iff empty_set)
    then show ?thesis using True by (auto simp: host_candidates_def Let_def eligible_def live_def)
  next
    case False
    then have "\<exists>x. exact_hint g name now x" using e by (metis list.set_intros(1) neq_Nil_conv)
    then show ?thesis using False e unfolding host_candidates_def Let_def eligible_def by simp
  qed
qed

lemma match_cases:
  assumes "index_ok g" and "normalise_host host \<noteq> []"
  obtains (hint) h where "snd (index_match host ip now g) = hint_attribution ip now h"
      "eligible g (normalise_host host) now h"
      "\<And>x. eligible g (normalise_host host) now x \<Longrightarrow> strength ip x \<le> strength ip h"
  | (source) "snd (index_match host ip now g) = source_attribution ip now (prune now g)"
      "\<nexists>h. eligible g (normalise_host host) now h"
proof (cases "sort_desc (strength ip) (host_candidates (normalise_host host) now (prune now g))")
  case Nil
  then have "\<nexists>h. eligible g (normalise_host host) now h"
    using host_candidates_eligible [OF assms(1)] by (metis empty_iff empty_set sort_desc_Nil(2))
  then show thesis using Nil assms(2) by (intro source) (simp_all add: index_match_def match_host_def Let_def)
next
  case (Cons h hs)
  have "h \<in> set (host_candidates (normalise_host host) now (prune now g))"
    using Cons by (metis list.set_intros(1) set_sort_desc)
  then show thesis
    using Cons assms host_candidates_eligible [OF assms(1)] sort_desc_hd [OF Cons]
    by (intro hint [of h]) (simp_all add: index_match_def match_host_def Let_def)
qed

lemma source_attribution_weak:
  "oa_mode (source_attribution ip now g) \<noteq> MODE_HINT" "oa_confidence (source_attribution ip now g) \<noteq> HIGH"
  "oa_hint (source_attribution ip now g) = None"
  by (simp_all add: source_attribution_def attribution_of_def UNATTRIBUTED_def Let_def)


text \<open>The address a callback comes from never decides whether it counts as proven: two observers
  of one name agree on the confidence of a hint, and when a single hint is eligible, on that hint.\<close>

theorem address_never_downgrades:
  fixes now
  assumes "index_ok g" and "normalise_host host \<noteq> []"
  defines "a ip \<equiv> snd (index_match host ip now g)"
  shows "(oa_confidence (a ip) = HIGH \<longleftrightarrow> oa_confidence (a ip') = HIGH)
    \<and> (eligible g (normalise_host host) now = (\<lambda>x. x = h) \<longrightarrow>
        oa_hint (a ip) = Some h \<and> oa_hint (a ip') = Some h)"
proof -
  have "(oa_confidence (a ip) = HIGH \<longleftrightarrow> (\<exists>x. eligible g (normalise_host host) now x))
      \<and> (eligible g (normalise_host host) now = (\<lambda>x. x = h) \<longrightarrow> oa_hint (a ip) = Some h)" for ip
    using assms(1,2)
  proof (cases rule: match_cases [where ip = ip and now = now])
    case (hint x)
    then show ?thesis unfolding a_def by (auto simp: hint_attribution_def)
  next
    case source
    then show ?thesis unfolding a_def by (auto simp: source_attribution_weak)
  qed
  then show ?thesis by blast
qed

section \<open>From the announcement to the attribution\<close>

text \<open>The collector's answer to a lookup: the registry's entries as JSON objects
  (\<open>list_correlations\<close> in \<open>bench_collector/app.py\<close>).\<close>

definition hint_payload :: "(rat \<Rightarrow> string) \<Rightarrow> hint \<Rightarrow> obj" where
  "hint_payload show_ts e =
     [(''app'', JStr (hn_app e)), (''signal'', JStr (hn_signal e)), (''destination_host'', opt_json (hn_host e)),
      (''route'', opt_json (hn_route e)), (''param'', opt_json (hn_param e)),
      (''request_id'', opt_json (hn_request_id e)), (''client_ip'', opt_json (hn_client_ip e)),
      (''correlation_id'', JStr (hn_id e)), (''registered_at'', JFloat (hn_registered e) (show_ts (hn_registered e))),
      (''expires_at'', JFloat (hn_expires e) (show_ts (hn_expires e)))]"

definition hint_answer :: "(rat \<Rightarrow> string) \<Rightarrow> registry \<Rightarrow> string \<Rightarrow> rat \<Rightarrow> obj list" where
  "hint_answer show_ts reg name now = map (hint_payload show_ts) (snd (pending reg (Some name) None now))"

text \<open>The hint the resolver reads from the entry of an application that announced a plain host.\<close>

definition announced :: "hint \<Rightarrow> oob_hint" where
  "announced e =
     \<lparr>oh_id = hn_id e, oh_ts = hn_registered e, oh_app = hn_app e, oh_host = the (hn_host e),
      oh_expires = hn_expires e, oh_signal = Some (hn_signal e), oh_route = hn_route e, oh_param = hn_param e,
      oh_param_in = None, oh_request_id = hn_request_id e,
      oh_source_ips = (if truthy (hn_client_ip e) then [the (hn_client_ip e)] else []), oh_synthetic = False\<rparr>"

definition plain_entry :: "hint \<Rightarrow> bool" where
  "plain_entry e \<longleftrightarrow>
     (\<exists>h. hn_host e = Some h \<and> h \<noteq> [] \<and> normalise_host (Some h) = h) \<and> hn_registered e \<noteq> 0 \<and> hn_id e \<noteq> []"

lemma from_hint_payload:
  assumes "plain_entry e"
  shows "from_payload show_ts ttl now (hint_payload show_ts e) = Inr (Some (announced e))"
proof -
  obtain h where h: "hn_host e = Some h" "h \<noteq> []" "normalise_host (Some h) = h"
    using assms by (auto simp: plain_entry_def)
  have f: "str_field [(''a'', opt_json x)] ''a'' = x" for x
    by (simp add: str_field_def jget_def opt_json_def split: option.splits)
  then show ?thesis using assms h
    by (auto simp: from_payload_def hint_payload_def hint_of_def announced_def plain_entry_def opt_json_def
          payload_host_def jget_def jor_def jfloat_def str_field_def Let_def truthy_def split: option.splits)
qed

text \<open>A recent hint that is alive and related to a name.\<close>

definition recent_hit :: "string \<Rightarrow> rat \<Rightarrow> hint_index \<Rightarrow> bool" where
  "recent_hit name t g \<longleftrightarrow>
     (\<exists>x\<in>set (last_n SCAN_LIMIT (ix_recent g)). t < oh_expires x \<and> hosts_match name (oh_host x))"

lemma recent_hit_eligible: "recent_hit name t g \<Longrightarrow> \<exists>h. eligible g name t h"
  by (auto simp: recent_hit_def eligible_def)

lemma last_n_snoc: "0 < n \<Longrightarrow> last_n n (xs @ [x]) = last_n (n - 1) xs @ [x]"
  by (cases n) (auto simp: last_n_def)

lemma index_add_max [simp]: "ix_max (fst (index_add now h g)) = ix_max g"
  and index_add_ttl [simp]: "ix_hint_ttl (fst (index_add now h g)) = ix_hint_ttl g"
  by (simp_all add: index_add_def)

lemma index_add_hit:
  assumes "0 < ix_max g" and "t < oh_expires h" and "hosts_match name (oh_host h)"
    and "recent_hit name t g \<or> dict_get (ix_seen g) (oh_id h) = None"
  shows "recent_hit name t (fst (index_add now h g))"
proof (cases "dict_get (ix_seen g) (oh_id h) = None")
  case True
  have "h \<in> set (last_n SCAN_LIMIT (ix_recent (fst (index_add now h g))))"
    using True assms(1) by (simp add: index_add_def last_n_snoc SCAN_LIMIT_def)
  then show ?thesis using assms(2,3) by (auto simp: recent_hit_def)
next
  case False
  from assms(4) have "recent_hit name t g"
  proof
    assume "dict_get (ix_seen g) (oh_id h) = None"
    with False show ?thesis ..
  qed
  then show ?thesis using False by (simp add: index_add_def)
qed

lemma add_entries_hit:
  assumes "\<forall>e\<in>set es. plain_entry e \<and> t < hn_expires e \<and> hosts_match name (the (hn_host e))" and "0 < ix_max g"
    and "recent_hit name t g \<or> (\<exists>x\<in>set es. dict_get (ix_seen g) (hn_id x) = None)"
  shows "recent_hit name t (fst (add_payloads show_ts now (map (hint_payload show_ts) es) g))
    \<and> (\<exists>n. snd (add_payloads show_ts now (map (hint_payload show_ts) es) g) = Inr n)"
  using assms
proof (induction es arbitrary: g)
  case (Cons e es)
  have same: "fst (index_add now (announced e) g) = g" if "dict_get (ix_seen g) (hn_id e) \<noteq> None"
    using that by (simp add: index_add_def announced_def)
  have "recent_hit name t (fst (index_add now (announced e) g))
      \<or> (\<exists>x\<in>set es. dict_get (ix_seen (fst (index_add now (announced e) g))) (hn_id x) = None)"
  proof (cases "recent_hit name t g \<or> dict_get (ix_seen g) (hn_id e) = None")
    case True
    then have "recent_hit name t (fst (index_add now (announced e) g))"
      using Cons.prems(1,2) by (intro index_add_hit) (simp_all add: announced_def)
    then show ?thesis ..
  next
    case False
    then have "fst (index_add now (announced e) g) = g" by (intro same) blast
    then show ?thesis using Cons.prems(3) False by auto
  qed
  from Cons.IH [OF _ _ this] Cons.prems(1,2) show ?case
    using from_hint_payload [of e show_ts "ix_hint_ttl g" now] by (auto simp: case_prod_beta Let_def)
qed simp


section \<open>Examples\<close>

abbreviation fetch_hint :: hint where
  "fetch_hint \<equiv>
     \<lparr>hn_id = ''c1'', hn_host = Some ''oast.fun'', hn_app = ''shop'', hn_signal = ''shop.a.b'', hn_route = None,
      hn_param = Some ''url'', hn_request_id = None, hn_client_ip = Some ''10.0.0.7'', hn_ttl = None,
      hn_registered = 0, hn_expires = 0\<rparr>"

abbreviation fetch_registry :: registry where
  "fetch_registry \<equiv> new_registry 60 3"

abbreviation shown :: "rat \<Rightarrow> string" where
  "shown \<equiv> \<lambda>r. ''0.0''"

abbreviation fetch_index :: hint_index where
  "fetch_index \<equiv>
     fst (index_add 6 (announced (snd (register_hint fetch_registry fetch_hint None 5 ''x''))) (new_index 120 900 3))"

lemma fetch_index_ok: "index_ok fetch_index"
  by (intro index_add_ok new_index_ok)


lemma address_never_downgrades_witness:
  "oa_confidence (snd (index_match (Some ''oast.fun'') ''10.0.0.7'' 7 fetch_index)) = HIGH
   \<and> oa_confidence (snd (index_match (Some ''oast.fun'') ''192.168.1.1'' 7 fetch_index)) = HIGH"
proof -
  have ne: "normalise_host (Some ''oast.fun'') \<noteq> []" by code_simp
  have "oa_confidence (snd (index_match (Some ''oast.fun'') ''10.0.0.7'' 7 fetch_index)) = HIGH" by code_simp
  then show ?thesis
    using address_never_downgrades [OF fetch_index_ok ne, of "''10.0.0.7''" 7 "''192.168.1.1''"] by simp
qed


end
