(* ===== verification/Reporting.thy ===== *)
theory Reporting
  imports Prelude "HOL-Library.Sublist"
begin

text \<open>
  \<open>platform/oob/src/edge_resolver/telemetry.py\<close>: the bounded queue of events and the thread that
  posts them in batches. The thread is modelled by its batches: how many events it gets before its
  deadline and whether the POST succeeds are arguments, since the clock and the network decide them.
\<close>

section \<open>State and operations\<close>

record 'e telemetry =
  tm_enabled :: bool
  tm_max :: nat
  tm_batch_size :: nat
  tm_running :: bool
  tm_queue :: "'e list"
  tm_sent :: "'e list"
  tm_enqueued :: nat
  tm_dropped :: nat
  tm_posted :: nat
  tm_failed :: nat
  tm_last_error :: "string option"

definition new_telemetry :: "bool \<Rightarrow> nat \<Rightarrow> nat \<Rightarrow> 'e telemetry" where
  "new_telemetry enabled m batch =
     \<lparr>tm_enabled = enabled, tm_max = m, tm_batch_size = batch, tm_running = False, tm_queue = [], tm_sent = [],
      tm_enqueued = 0, tm_dropped = 0, tm_posted = 0, tm_failed = 0, tm_last_error = None\<rparr>"

definition telemetry_start :: "'e telemetry \<Rightarrow> 'e telemetry" where
  "telemetry_start t = t\<lparr>tm_running := True\<rparr>"

definition telemetry_submit :: "'e \<Rightarrow> 'e telemetry \<Rightarrow> 'e telemetry \<times> bool" where
  "telemetry_submit e t =
     (let t1 = t\<lparr>tm_enqueued := tm_enqueued t + 1\<rparr>
      in if \<not> tm_enabled t1 then (t1\<lparr>tm_dropped := tm_dropped t1 + 1\<rparr>, False)
         else if length (tm_queue t1) < tm_max t1 then (t1\<lparr>tm_queue := tm_queue t1 @ [e]\<rparr>, True)
         else (t1\<lparr>tm_dropped := tm_dropped t1 + 1\<rparr>, False))"

text \<open>\<open>gets\<close> is the number of events that are there before the deadline of the batch.\<close>

definition collect_batch :: "nat \<Rightarrow> 'e telemetry \<Rightarrow> 'e telemetry \<times> 'e list" where
  "collect_batch gets t =
     (let n = min gets (tm_batch_size t) in (t\<lparr>tm_queue := drop n (tm_queue t)\<rparr>, take n (tm_queue t)))"

definition post_batch :: "'e list \<Rightarrow> string option \<Rightarrow> 'e telemetry \<Rightarrow> 'e telemetry" where
  "post_batch batch failure t =
     (case failure of
        None \<Rightarrow> t\<lparr>tm_posted := tm_posted t + length batch, tm_sent := tm_sent t @ batch\<rparr>
      | Some e \<Rightarrow> t\<lparr>tm_failed := tm_failed t + length batch, tm_last_error := Some e\<rparr>)"

definition flush_batch :: "nat \<Rightarrow> string option \<Rightarrow> 'e telemetry \<Rightarrow> 'e telemetry" where
  "flush_batch gets failure t =
     (let (t1, batch) = collect_batch gets t in if batch = [] then t1 else post_batch batch failure t1)"

text \<open>The thread leaves its loop and posts one last batch of what is queued.\<close>

definition telemetry_stop :: "string option \<Rightarrow> 'e telemetry \<Rightarrow> 'e telemetry" where
  "telemetry_stop failure t =
     (if tm_running t then (flush_batch (length (tm_queue t)) failure t)\<lparr>tm_running := False\<rparr> else t)"

datatype 'e telemetry_op = Start | Submit 'e | Flush nat "string option" | Stop "string option"

fun telemetry_step :: "'e telemetry \<Rightarrow> 'e telemetry_op \<Rightarrow> 'e telemetry" where
  "telemetry_step t Start = telemetry_start t"
| "telemetry_step t (Submit e) = fst (telemetry_submit e t)"
| "telemetry_step t (Flush gets failure) = (if tm_running t then flush_batch gets failure t else t)"
| "telemetry_step t (Stop failure) = telemetry_stop failure t"

section \<open>The ledger\<close>

definition telemetry_ok :: "'e telemetry \<Rightarrow> bool" where
  "telemetry_ok t \<longleftrightarrow>
     tm_enqueued t = tm_dropped t + tm_posted t + tm_failed t + length (tm_queue t)
     \<and> length (tm_queue t) \<le> tm_max t \<and> length (tm_sent t) = tm_posted t"

lemma submit_ok: "telemetry_ok t \<Longrightarrow> telemetry_ok (fst (telemetry_submit e t))"
  by (auto simp: telemetry_ok_def telemetry_submit_def Let_def)

lemma flush_ok: "telemetry_ok t \<Longrightarrow> telemetry_ok (flush_batch gets failure t)"
  by (auto simp: telemetry_ok_def flush_batch_def collect_batch_def post_batch_def Let_def split: option.splits)

lemma stop_ok: "telemetry_ok t \<Longrightarrow> telemetry_ok (telemetry_stop failure t)"
  using flush_ok [of t "length (tm_queue t)" failure] by (simp add: telemetry_stop_def telemetry_ok_def)

interpretation telemetry: invariant_machine telemetry_step telemetry_ok
proof (unfold_locales, goal_cases)
  case (1 t op)
  then show ?case
    by (cases op) (simp_all add: submit_ok flush_ok stop_ok, simp add: telemetry_start_def telemetry_ok_def)
qed

text \<open>After any calls, each event that was submitted is counted as dropped, posted or failed, or is
  still queued, and the queue keeps its bound.\<close>

lemma telemetry_runs_ok: "telemetry_ok (foldl telemetry_step (new_telemetry enabled m batch) ops)"
  by (rule telemetry.run_inv) (simp add: telemetry_ok_def new_telemetry_def)

section \<open>Order\<close>

definition submitted :: "'e telemetry_op list \<Rightarrow> 'e list" where
  "submitted ops = List.map_filter (\<lambda>op. case op of Submit e \<Rightarrow> Some e | _ \<Rightarrow> None) ops"

lemma submitted_snoc [simp]:
  "submitted [] = []"
  "submitted (ops @ [op]) = submitted ops @ (case op of Submit e \<Rightarrow> [e] | _ \<Rightarrow> [])"
  by (simp_all add: submitted_def List.map_filter_def split: telemetry_op.splits)

lemma flush_order:
  "subseq (tm_sent t @ tm_queue t) es \<Longrightarrow>
     subseq (tm_sent (flush_batch gets failure t) @ tm_queue (flush_batch gets failure t)) es"
proof -
  assume a: "subseq (tm_sent t @ tm_queue t) es"
  let ?n = "min gets (tm_batch_size t)"
  have "subseq (tm_sent t @ drop ?n (tm_queue t)) (tm_sent t @ tm_queue t)" 
    by (intro list_emb_append_mono subseq_order.order_refl suffix_imp_subseq suffix_drop)
  then have "subseq (tm_sent t @ drop ?n (tm_queue t)) es" using a by (rule subseq_order.order_trans)
  then show ?thesis using a
    by (auto simp: flush_batch_def collect_batch_def post_batch_def Let_def split: option.splits)
qed

text \<open>Events reach the endpoint in the order of their submission, each at most once.\<close>

lemma sent_in_order:
  "subseq (tm_sent (foldl telemetry_step (new_telemetry enabled m batch) ops)
         @ tm_queue (foldl telemetry_step (new_telemetry enabled m batch) ops)) (submitted ops)"
proof (induction ops rule: rev_induct)
  case Nil
  show ?case by (simp add: new_telemetry_def)
next
  case (snoc op ops)
  let ?t = "foldl telemetry_step (new_telemetry enabled m batch) ops"
  show ?case
  proof (cases op)
    case (Submit e)
    have "subseq ((tm_sent ?t @ tm_queue ?t) @ []) (submitted ops @ [e])"
      using snoc by (intro list_emb_append_mono) simp_all
    moreover have "subseq ((tm_sent ?t @ tm_queue ?t) @ [e]) (submitted ops @ [e])"
      using snoc by (intro list_emb_append_mono) simp_all
    ultimately show ?thesis by (auto simp: Submit telemetry_submit_def Let_def)
  qed (use snoc flush_order in \<open>auto simp: telemetry_start_def telemetry_stop_def\<close>)
qed

section \<open>Stopping\<close>

text \<open>When the thread stops, it posts one batch: what is queued beyond the size of a batch is neither
  posted nor counted as lost.\<close>

lemma stop_leaves_events:
  assumes "tm_running t" and "tm_batch_size t < length (tm_queue t)"
  shows "tm_queue (telemetry_stop None t) \<noteq> []"
  using assms by (simp add: telemetry_stop_def flush_batch_def collect_batch_def post_batch_def Let_def)

end
