(* ===== verification/Oob_Config.thy ===== *)
theory Oob_Config
  imports Ip_Address Hosts
begin

text \<open>
  \<open>platform/oob/src/edge_resolver/config.py\<close>: the settings the attribution and the listeners read,
  and the readers of the lists among the environment's values. The host of the reporting endpoint,
  which the code takes out of its URL, is a field, and the lifetime of a DNS answer is not negative.
\<close>

record oob_config =
  cf_zone :: string
  cf_telemetry_host :: "string option"
  cf_app :: string
  cf_public_ip :: "string option"
  cf_dns_ttl :: nat
  cf_internal_names :: "string list"
  cf_denylist :: "string list"
  cf_synthetic :: "network list"
  cf_known_tokens :: "string list"
  cf_mail_name :: string

definition owned_zone :: "oob_config \<Rightarrow> string" where
  "owned_zone c = lower (strip_chars ''.'' (cf_zone c))"

definition mail_hostname :: "oob_config \<Rightarrow> string" where
  "mail_hostname c = (if cf_mail_name c \<noteq> [] then cf_mail_name c else ''mx1.'' @ owned_zone c)"

definition internal_suffixes :: "oob_config \<Rightarrow> string list" where
  "internal_suffixes c =
     (let names = cf_internal_names c; host = cf_telemetry_host c
      in if truthy host \<and> lower (the host) \<notin> set names then names @ [lower (the host)] else names)"

definition synthetic_source :: "oob_config \<Rightarrow> string \<Rightarrow> bool" where
  "synthetic_source c address =
     (if cf_synthetic c = [] then False
      else case ip_address address of None \<Rightarrow> False | Some a \<Rightarrow> list_ex (in_network a) (cf_synthetic c))"

text \<open>\<open>_csv\<close> and \<open>_source_map\<close>.\<close>

definition csv_items :: "string option \<Rightarrow> string list" where
  "csv_items raw =
     map (lower \<circ> strip) (filter (\<lambda>item. strip item \<noteq> []) (split_char (CHR '','') (str_or raw [])))"

definition source_map :: "string option \<Rightarrow> (string, string) dict" where
  "source_map raw =
     foldl (\<lambda>d grp.
       if CHR ''='' \<in> set grp
       then foldl (\<lambda>d address. dict_set address (strip (before (CHR ''='') grp)) d) d
              (csv_items (Some (after (CHR ''='') grp)))
       else d) [] (split_char (CHR '';'') (str_or raw []))"

lemma source_map_example:
  "source_map (Some ''shopfront=10.5.0.4,10.5.0.5; billing = 10.5.0.9 ;junk'') =
     [(''10.5.0.4'', ''shopfront''), (''10.5.0.5'', ''shopfront''), (''10.5.0.9'', ''billing'')]"
  by code_simp

lemma endpoint_is_internal:
  "cf_telemetry_host c = Some h \<Longrightarrow> h \<noteq> [] \<Longrightarrow> lower h \<in> set (internal_suffixes c)"
  by (simp add: internal_suffixes_def Let_def truthy_def)

text \<open>A configuration for the examples.\<close>

definition demo_cfg :: oob_config where
  "demo_cfg =
     \<lparr>cf_zone = ''telemetry-edge.net'', cf_telemetry_host = None, cf_app = ''edge-resolver'', cf_public_ip = None, cf_dns_ttl = 30,
      cf_internal_names = [], cf_denylist = [], cf_synthetic = [], cf_known_tokens = [], cf_mail_name = []\<rparr>"

end
