(* ===== verification/Observations.thy ===== *)
theory Observations
  imports Hint_Facts Tokens Reporting Oob_Config
begin

text \<open>
  \<open>platform/oob/src/edge_resolver/store.py\<close>, \<open>recorder.py\<close> and the worker of \<open>correlation.py\<close>:
  what happens to a request a listener saw. An observation is one mutable object shared by the
  ring of the store, the queue of the worker and the worker's hands, so the model keeps the objects
  in a heap (\<open>rs_heap\<close>) and passes their addresses around. The steps of the listeners and of the
  worker's thread interleave as an inductive relation.
\<close>

section \<open>Observations\<close>

record observation =
  ob_seq :: nat
  ob_ts :: rat
  ob_channel :: string
  ob_host :: "string option"
  ob_token :: "string option"
  ob_nonce :: "string option"
  ob_source :: "string option"
  ob_raw_token :: "string option"
  ob_owned :: "bool option"
  ob_known :: bool
  ob_source_ip :: string
  ob_synthetic :: bool
  ob_app :: "string option"
  ob_confidence :: confidence
  ob_attribution :: obj
  ob_raw :: string
  ob_detail :: obj

text \<open>The event a report submits; \<open>client_ip\<close> repeats the address.\<close>

record oob_report =
  re_app :: string
  re_ts :: rat
  re_synthetic :: bool
  re_token :: string
  re_channel :: string
  re_source_ip :: string
  re_client_ip :: string
  re_raw :: string
  re_host :: "string option"
  re_confidence :: confidence
  re_attribution :: obj

definition confidence_text :: "confidence \<Rightarrow> string" where
  "confidence_text c = (case c of HIGH \<Rightarrow> ''high'' | LOW \<Rightarrow> ''low'' | NONE \<Rightarrow> ''none'')"

definition RAW_MAX :: int where "RAW_MAX = 2048"

text \<open>A slice \<open>s[:n]\<close> with a bound that may be negative.\<close>

definition upto_index :: "int \<Rightarrow> 'a list \<Rightarrow> 'a list" where
  "upto_index n s = take (nat (if n < 0 then int (length s) + n else n)) s"

definition raw_suffix :: "string option \<Rightarrow> bool option \<Rightarrow> confidence \<Rightarrow> string" where
  "raw_suffix source owned c =
     '' | src='' @ str_or source ''none'' @ '' origin=''
       @ (case owned of None \<Rightarrow> ''n/a'' | Some b \<Rightarrow> if b then ''owned'' else ''external'')
       @ '' conf='' @ confidence_text c"

definition annotate :: "string \<Rightarrow> string option \<Rightarrow> bool option \<Rightarrow> confidence \<Rightarrow> string" where
  "annotate raw source owned c =
     (let suffix = raw_suffix source owned c
      in upto_index (RAW_MAX - int (length suffix)) raw @ suffix)"

text \<open>\<open>rpartition\<close> for a separator of several characters: the last occurrence.\<close>

definition rpartition_text :: "string \<Rightarrow> string \<Rightarrow> (string \<times> string) option" where
  "rpartition_text sep s = map_option (\<lambda>(a, b). (rev b, rev a)) (split_once (rev sep) (rev s))"

definition reannotate :: "string \<Rightarrow> confidence \<Rightarrow> string" where
  "reannotate raw c =
     (case rpartition_text '' conf='' raw of
        Some (head, tail) \<Rightarrow> head @ '' conf='' @ confidence_text c
      | None \<Rightarrow> raw)"

definition report_of :: "oob_config \<Rightarrow> observation \<Rightarrow> oob_report" where
  "report_of cfg x =
     \<lparr>re_app = str_or (ob_app x) (cf_app cfg), re_ts = ob_ts x, re_synthetic = ob_synthetic x,
      re_token = str_or (ob_token x) ''unidentified'', re_channel = ob_channel x,
      re_source_ip = ob_source_ip x, re_client_ip = ob_source_ip x, re_raw = ob_raw x,
      re_host = (if truthy (ob_host x) then ob_host x else None),
      re_confidence = ob_confidence x, re_attribution = ob_attribution x\<rparr>"

section \<open>State\<close>

text \<open>\<open>rs_reported\<close> is the sequence of observations \<open>report\<close> was called on.\<close>

record resolver =
  rs_heap :: "observation list"
  rs_items :: "nat list"
  rs_maxlen :: nat
  rs_seq :: nat
  rs_index :: hint_index
  rs_worker :: bool
  rs_running :: bool
  rs_queue :: "(nat \<times> string \<times> string) list"
  rs_queue_max :: nat
  rs_hands :: "(nat \<times> string \<times> string) list"
  rs_processed :: nat
  rs_dropped :: nat
  rs_improved :: nat
  rs_reported :: "nat list"
  rs_telemetry :: "oob_report telemetry"

definition new_resolver ::
  "nat \<Rightarrow> hint_index \<Rightarrow> bool \<Rightarrow> nat \<Rightarrow> oob_report telemetry \<Rightarrow> resolver" where
  "new_resolver maxlen g worker queue_max t =
     \<lparr>rs_heap = [], rs_items = [], rs_maxlen = maxlen, rs_seq = 0, rs_index = g, rs_worker = worker,
      rs_running = False, rs_queue = [], rs_queue_max = queue_max, rs_hands = [], rs_processed = 0,
      rs_dropped = 0, rs_improved = 0, rs_reported = [], rs_telemetry = t\<rparr>"

section \<open>The store\<close>

definition store_add :: "observation \<Rightarrow> resolver \<Rightarrow> resolver \<times> nat" where
  "store_add x s =
     (let a = length (rs_heap s); n = rs_seq s + 1
      in (s\<lparr>rs_heap := rs_heap s @ [x\<lparr>ob_seq := n\<rparr>], rs_seq := n,
            rs_items := last_n (rs_maxlen s) (rs_items s @ [a])\<rparr>, a))"

definition store_update :: "nat \<Rightarrow> (observation \<Rightarrow> observation) \<Rightarrow> resolver \<Rightarrow> resolver" where
  "store_update a f s = s\<lparr>rs_heap := (rs_heap s)[a := f (rs_heap s ! a)]\<rparr>"

definition store_all :: "resolver \<Rightarrow> observation list" where
  "store_all s = map (\<lambda>a. rs_heap s ! a) (rs_items s)"

definition store_since :: "int \<Rightarrow> int \<Rightarrow> resolver \<Rightarrow> observation list" where
  "store_since seq limit s = upto_index limit (filter (\<lambda>x. seq < int (ob_seq x)) (store_all s))"

definition store_reset :: "resolver \<Rightarrow> resolver" where
  "store_reset s = s\<lparr>rs_items := [], rs_seq := 0\<rparr>"

section \<open>The recorder\<close>

definition report :: "oob_config \<Rightarrow> nat \<Rightarrow> resolver \<Rightarrow> resolver" where
  "report cfg a s =
     s\<lparr>rs_reported := rs_reported s @ [a],
       rs_telemetry := fst (telemetry_submit (report_of cfg (rs_heap s ! a)) (rs_telemetry s))\<rparr>"

record request =
  rq_channel :: string
  rq_source_ip :: string
  rq_candidates :: "candidate list"
  rq_raw :: string
  rq_host :: "string option"
  rq_detail :: obj
  rq_owned :: "bool option"

definition attribute :: "request \<Rightarrow> bool \<Rightarrow> rat \<Rightarrow> hint_index \<Rightarrow> hint_index \<times> oob_attribution" where
  "attribute q found now g =
     (let (g1, a) = index_match (rq_host q) (rq_source_ip q) now g
      in (g1, if oa_mode a = MODE_UNATTRIBUTED \<and> found \<and> rq_owned q = Some True
              then attribution_of MODE_OWNED_LABEL HIGH None else a))"

definition known_token :: "oob_config \<Rightarrow> extraction \<Rightarrow> bool option \<Rightarrow> bool" where
  "known_token cfg x owned =
     (let known = (ex_found x \<and> owned \<noteq> Some False)
      in if known \<and> cf_known_tokens cfg \<noteq> [] then the (ex_token x) \<in> set (cf_known_tokens cfg) else known)"

definition new_observation :: "oob_config \<Rightarrow> request \<Rightarrow> rat \<Rightarrow> oob_attribution \<Rightarrow> observation" where
  "new_observation cfg q now a =
     (let x = extract_token (rq_candidates q)
      in \<lparr>ob_seq = 0, ob_ts = now, ob_channel = rq_channel q, ob_host = rq_host q, ob_token = ex_token x,
          ob_nonce = ex_nonce x, ob_source = ex_source x, ob_raw_token = falsy_none (ex_label x),
          ob_owned = rq_owned q, ob_known = known_token cfg x (rq_owned q), ob_source_ip = rq_source_ip q,
          ob_synthetic = synthetic_source cfg (rq_source_ip q), ob_app = oa_app a,
          ob_confidence = oa_confidence a, ob_attribution = attribution_json a,
          ob_raw = annotate (rq_raw q) (ex_source x) (rq_owned q) (oa_confidence a),
          ob_detail = rq_detail q\<rparr>)"

definition enqueue :: "nat \<Rightarrow> string \<Rightarrow> string \<Rightarrow> resolver \<Rightarrow> resolver \<times> bool" where
  "enqueue a host ip s =
     (if \<not> rs_running s then (s, False)
      else if length (rs_queue s) < rs_queue_max s then (s\<lparr>rs_queue := rs_queue s @ [(a, host, ip)]\<rparr>, True)
      else (s\<lparr>rs_dropped := rs_dropped s + 1\<rparr>, False))"

definition record_request :: "oob_config \<Rightarrow> request \<Rightarrow> rat \<Rightarrow> resolver \<Rightarrow> resolver" where
  "record_request cfg q now s =
     (let (g, a) = attribute q (ex_found (extract_token (rq_candidates q))) now (rs_index s);
          (s1, i) = store_add (new_observation cfg q now a) (s\<lparr>rs_index := g\<rparr>);
          (s2, deferred) =
            (if rs_worker s1 \<and> truthy (rq_host q) \<and> oa_confidence a \<in> {LOW, NONE}
             then enqueue i (the (rq_host q)) (rq_source_ip q) s1 else (s1, False))
      in if deferred then s2 else report cfg i s2)"

definition refine_observation :: "oob_attribution \<Rightarrow> observation \<Rightarrow> observation" where
  "refine_observation a x =
     x\<lparr>ob_app := (if truthy (oa_app a) then oa_app a else ob_app x), ob_confidence := oa_confidence a,
       ob_attribution := attribution_json a, ob_raw := reannotate (ob_raw x) (oa_confidence a)\<rparr>"

definition finalise :: "oob_config \<Rightarrow> nat \<Rightarrow> oob_attribution \<Rightarrow> resolver \<Rightarrow> resolver" where
  "finalise cfg i a s =
     report cfg i
       (if oa_mode a \<noteq> MODE_UNATTRIBUTED \<and> oa_confidence a \<noteq> ob_confidence (rs_heap s ! i)
        then store_update i (refine_observation a) s else s)"

section \<open>The worker\<close>

text \<open>One targeted lookup, what it raises included: then the observation stays unattributed.\<close>

definition lookup_attribution ::
  "(rat \<Rightarrow> string) \<Rightarrow> rat \<Rightarrow> fetched \<Rightarrow> string \<Rightarrow> string \<Rightarrow> hint_index \<Rightarrow> hint_index \<times> oob_attribution" where
  "lookup_attribution show_ts now answer host ip g =
     (case answer of
        Raised message \<Rightarrow> (g, UNATTRIBUTED)
      | Nothing \<Rightarrow> index_match (Some host) ip now g
      | Payloads ps \<Rightarrow>
          (case add_payloads show_ts now ps g of
             (g1, Inl e) \<Rightarrow> (g1, UNATTRIBUTED)
           | (g1, Inr n) \<Rightarrow> index_match (Some host) ip now g1))"

definition handle_lookup ::
  "oob_config \<Rightarrow> (rat \<Rightarrow> string) \<Rightarrow> rat \<Rightarrow> fetched \<Rightarrow> nat \<times> string \<times> string \<Rightarrow> resolver \<Rightarrow> resolver" where
  "handle_lookup cfg show_ts now answer item s =
     (let (i, host, ip) = item;
          (g, a) = lookup_attribution show_ts now answer host ip (rs_index s);
          s1 = s\<lparr>rs_index := g, rs_improved := rs_improved s + (if oa_mode a = MODE_HINT then 1 else 0),
                rs_processed := rs_processed s + 1\<rparr>
      in finalise cfg i a s1)"

definition take_item :: "resolver \<Rightarrow> resolver" where
  "take_item s = s\<lparr>rs_hands := rs_hands s @ [hd (rs_queue s)], rs_queue := tl (rs_queue s)\<rparr>"

definition worker_start :: "resolver \<Rightarrow> resolver" where
  "worker_start s = s\<lparr>rs_running := True\<rparr>"

definition worker_stop :: "oob_config \<Rightarrow> resolver \<Rightarrow> resolver" where
  "worker_stop cfg s =
     foldl (\<lambda>s item. finalise cfg (fst item) UNATTRIBUTED s) (s\<lparr>rs_running := False, rs_queue := []\<rparr>) (rs_queue s)"

section \<open>Interleaved steps\<close>

text \<open>Listeners record; the thread takes an item and later handles it, with any answer; the poller and
  the lookups change the index; the administrator may reset the store; the worker is started and
  stopped. A worker that was stopped while it handled an item still finishes that item.\<close>

inductive resolver_step :: "oob_config \<Rightarrow> resolver \<Rightarrow> resolver \<Rightarrow> bool" for cfg where
  recorded: "resolver_step cfg s (record_request cfg q now s)"
| taken: "rs_running s \<Longrightarrow> rs_queue s \<noteq> [] \<Longrightarrow> resolver_step cfg s (take_item s)"
| handled: "rs_hands s = xs @ item # ys \<Longrightarrow>
     resolver_step cfg s (handle_lookup cfg show_ts now answer item (s\<lparr>rs_hands := xs @ ys\<rparr>))"
| indexed: "resolver_step cfg s (s\<lparr>rs_index := snd (index_step (p, rs_index s) op)\<rparr>)"
| posted: "resolver_step cfg s (s\<lparr>rs_telemetry := flush_batch gets failure (rs_telemetry s)\<rparr>)"
| emptied: "resolver_step cfg s (store_reset s)"
| started: "resolver_step cfg s (worker_start s)"
| stopped: "resolver_step cfg s (worker_stop cfg s)"

inductive_cases resolver_stepE: "resolver_step cfg s s'"

inductive resolver_run :: "oob_config \<Rightarrow> resolver \<Rightarrow> resolver \<Rightarrow> bool" for cfg where
  run_refl: "resolver_run cfg s s"
| run_step: "resolver_run cfg s s1 \<Longrightarrow> resolver_step cfg s1 s2 \<Longrightarrow> resolver_run cfg s s2"

end
