(* ===== verification/Observation_Facts.thy ===== *)
theory Observation_Facts
  imports Observations
begin

text \<open>
  What \<open>Observations\<close> guarantees, whatever the interleaving of the listeners and the worker: no
  observation is lost or reported twice, evidence is only ever strengthened, the store pages in
  order, and how the text of a report changes with its confidence.
\<close>

section \<open>Effects of the operations\<close>

lemma report_fields [simp]:
  "rs_reported (report cfg i s) = rs_reported s @ [i]" "rs_heap (report cfg i s) = rs_heap s"
  "rs_items (report cfg i s) = rs_items s" "rs_seq (report cfg i s) = rs_seq s"
  "rs_maxlen (report cfg i s) = rs_maxlen s" "rs_index (report cfg i s) = rs_index s"
  "rs_queue (report cfg i s) = rs_queue s" "rs_hands (report cfg i s) = rs_hands s"
  "rs_telemetry (report cfg i s) = fst (telemetry_submit (report_of cfg (rs_heap s ! i)) (rs_telemetry s))"
  by (simp_all add: report_def)

lemma finalise_fields [simp]:
  "rs_reported (finalise cfg i a s) = rs_reported s @ [i]"
  "rs_items (finalise cfg i a s) = rs_items s" "rs_seq (finalise cfg i a s) = rs_seq s"
  "rs_maxlen (finalise cfg i a s) = rs_maxlen s" "rs_index (finalise cfg i a s) = rs_index s"
  "rs_queue (finalise cfg i a s) = rs_queue s" "rs_hands (finalise cfg i a s) = rs_hands s"
  by (simp_all add: finalise_def store_update_def)

lemma finalise_heap:
  "rs_heap (finalise cfg i a s) =
     (if oa_mode a \<noteq> MODE_UNATTRIBUTED \<and> oa_confidence a \<noteq> ob_confidence (rs_heap s ! i)
      then (rs_heap s)[i := refine_observation a (rs_heap s ! i)] else rs_heap s)"
  by (simp add: finalise_def store_update_def)

lemma stop_fields:
  "rs_reported (worker_stop cfg s) = rs_reported s @ map fst (rs_queue s)"
  "rs_items (worker_stop cfg s) = rs_items s" "rs_seq (worker_stop cfg s) = rs_seq s"
  "rs_maxlen (worker_stop cfg s) = rs_maxlen s" "rs_index (worker_stop cfg s) = rs_index s"
  "rs_queue (worker_stop cfg s) = []" "rs_hands (worker_stop cfg s) = rs_hands s"
  "rs_heap (worker_stop cfg s) = rs_heap s"
proof -
  have "rs_reported (foldl f s xs) = rs_reported s @ map fst xs \<and> rs_items (foldl f s xs) = rs_items s
      \<and> rs_seq (foldl f s xs) = rs_seq s \<and> rs_maxlen (foldl f s xs) = rs_maxlen s
      \<and> rs_index (foldl f s xs) = rs_index s \<and> rs_queue (foldl f s xs) = rs_queue s
      \<and> rs_hands (foldl f s xs) = rs_hands s \<and> rs_heap (foldl f s xs) = rs_heap s"
    if "f = (\<lambda>s item. finalise cfg (fst item) UNATTRIBUTED s)" for f s and xs :: "(nat \<times> string \<times> string) list"
    using that
    by (induction xs arbitrary: s) (simp_all add: finalise_heap UNATTRIBUTED_def attribution_of_def)
  from this [OF refl, of "s\<lparr>rs_running := False, rs_queue := []\<rparr>" "rs_queue s"]
  show "rs_reported (worker_stop cfg s) = rs_reported s @ map fst (rs_queue s)"
    "rs_items (worker_stop cfg s) = rs_items s" "rs_seq (worker_stop cfg s) = rs_seq s"
    "rs_maxlen (worker_stop cfg s) = rs_maxlen s" "rs_index (worker_stop cfg s) = rs_index s"
    "rs_queue (worker_stop cfg s) = []" "rs_hands (worker_stop cfg s) = rs_hands s"
    "rs_heap (worker_stop cfg s) = rs_heap s"
    by (simp_all add: worker_stop_def)
qed

text \<open>Recording stores one observation and either reports it or leaves it, when its evidence is weak,
  at the end of the queue.\<close>

lemma record_cases:
  fixes cfg q now s
  defines "g \<equiv> fst (attribute q (ex_found (extract_token (rq_candidates q))) now (rs_index s))"
    and "a \<equiv> snd (attribute q (ex_found (extract_token (rq_candidates q))) now (rs_index s))"
  defines "s1 \<equiv> fst (store_add (new_observation cfg q now a) (s\<lparr>rs_index := g\<rparr>))"
  obtains (reported) n where "record_request cfg q now s = report cfg (length (rs_heap s)) (s1\<lparr>rs_dropped := n\<rparr>)"
  | (queued) "record_request cfg q now s =
        s1\<lparr>rs_queue := rs_queue s @ [(length (rs_heap s), the (rq_host q), rq_source_ip q)]\<rparr>"
      "oa_confidence a \<in> {LOW, NONE}" "length (rs_queue s) < rs_queue_max s"
proof -
  have s1: "store_add (new_observation cfg q now a) (s\<lparr>rs_index := g\<rparr>) = (s1, length (rs_heap s))"
    by (simp add: s1_def store_add_def Let_def)
  have same: "s1\<lparr>rs_dropped := rs_dropped s1\<rparr> = s1" by simp
  have e: "rs_queue s1 = rs_queue s" "rs_queue_max s1 = rs_queue_max s" by (simp_all add: s1_def store_add_def Let_def)
  have r: "record_request cfg q now s =
     (let (s2, deferred) =
            (if rs_worker s1 \<and> truthy (rq_host q) \<and> oa_confidence a \<in> {LOW, NONE}
             then enqueue (length (rs_heap s)) (the (rq_host q)) (rq_source_ip q) s1 else (s1, False))
      in if deferred then s2 else report cfg (length (rs_heap s)) s2)"
    unfolding record_request_def
    using s1 by (auto simp add: case_prod_beta Let_def simp flip: g_def a_def)
  show thesis
  proof (cases "rs_worker s1 \<and> truthy (rq_host q) \<and> oa_confidence a \<in> {LOW, NONE} \<and> rs_running s1
      \<and> length (rs_queue s1) < rs_queue_max s1")
    case True
    then show thesis using r e by (intro queued) (auto simp: enqueue_def)
  next
    case False
    then show thesis using r same reported [of "rs_dropped s1"] reported [of "rs_dropped s1 + 1"]
      by (auto simp: enqueue_def split: if_splits)
  qed
qed

lemma store_add_fields [simp]:
  "rs_heap (fst (store_add x s)) = rs_heap s @ [x\<lparr>ob_seq := rs_seq s + 1\<rparr>]"
  "rs_items (fst (store_add x s)) = last_n (rs_maxlen s) (rs_items s @ [length (rs_heap s)])"
  "rs_seq (fst (store_add x s)) = rs_seq s + 1" "rs_maxlen (fst (store_add x s)) = rs_maxlen s"
  "rs_index (fst (store_add x s)) = rs_index s" "rs_reported (fst (store_add x s)) = rs_reported s"
  "rs_queue (fst (store_add x s)) = rs_queue s" "rs_hands (fst (store_add x s)) = rs_hands s"
  "rs_telemetry (fst (store_add x s)) = rs_telemetry s"
  by (simp_all add: store_add_def Let_def)

section \<open>No observation is lost or reported twice\<close>

text \<open>Each address is in exactly one place: among the reported, in the queue, or in a thread's hands.\<close>

definition accounted :: "resolver \<Rightarrow> bool" where
  "accounted s \<longleftrightarrow>
     mset (rs_reported s) + mset (map fst (rs_queue s)) + mset (map fst (rs_hands s)) = mset [0..<length (rs_heap s)]"

lemma record_accounted: "accounted s \<Longrightarrow> accounted (record_request cfg q now s)"
  by (cases rule: record_cases [of cfg q now s]) (auto simp: accounted_def)

lemma handle_fields:
  "rs_reported (handle_lookup cfg show_ts now answer item s) = rs_reported s @ [fst item]"
  "rs_queue (handle_lookup cfg show_ts now answer item s) = rs_queue s"
  "rs_hands (handle_lookup cfg show_ts now answer item s) = rs_hands s"
  "length (rs_heap (handle_lookup cfg show_ts now answer item s)) = length (rs_heap s)"
  "rs_items (handle_lookup cfg show_ts now answer item s) = rs_items s"
  "rs_seq (handle_lookup cfg show_ts now answer item s) = rs_seq s"
  "rs_maxlen (handle_lookup cfg show_ts now answer item s) = rs_maxlen s"
  by (simp_all add: handle_lookup_def Let_def case_prod_beta finalise_heap)

lemma step_accounted: "resolver_step cfg s s' \<Longrightarrow> accounted s \<Longrightarrow> accounted s'"
proof (induction rule: resolver_step.induct)
  case (taken s)
  then obtain x xs where "rs_queue s = x # xs" by (cases "rs_queue s") auto
  then show ?case using taken by (simp add: accounted_def take_item_def ac_simps)
next
  case (recorded s q now)
  then show ?case by (intro record_accounted)
qed (simp_all add: accounted_def handle_fields stop_fields store_reset_def worker_start_def ac_simps)

lemma run_accounted: "resolver_run cfg s s' \<Longrightarrow> accounted s \<Longrightarrow> accounted s'"
  by (induction rule: resolver_run.induct) (auto intro: step_accounted)

lemma new_accounted: "accounted (new_resolver maxlen g worker m t)"
  by (simp add: accounted_def new_resolver_def)

text \<open>C17: whatever the listeners, the worker and its lookups do in whatever order, each observation that
  was recorded is reported exactly once, or waits for its lookup; and stopping the worker reports all
  that waited in its queue, so that when no item is in a thread's hands everything is reported.\<close>

theorem observations_reported_once:
  assumes "resolver_run cfg (new_resolver maxlen g worker m t) s"
  shows "mset (rs_reported s) + mset (map fst (rs_queue s)) + mset (map fst (rs_hands s))
      = mset [0..<length (rs_heap s)]
    \<and> (rs_hands s = [] \<longrightarrow> mset (rs_reported (worker_stop cfg s)) = mset [0..<length (rs_heap s)])"
  using run_accounted [OF assms new_accounted] by (auto simp add: accounted_def stop_fields)

section \<open>Evidence is only strengthened\<close>

definition rank_of :: "confidence \<Rightarrow> nat" where
  "rank_of c = (case c of NONE \<Rightarrow> 0 | LOW \<Rightarrow> 1 | HIGH \<Rightarrow> 2)"

text \<open>Only weak observations wait for a lookup.\<close>

definition waiting :: "resolver \<Rightarrow> nat set" where
  "waiting s = fst ` set (rs_queue s) \<union> fst ` set (rs_hands s)"

definition weak_waiting :: "resolver \<Rightarrow> bool" where
  "weak_waiting s \<longleftrightarrow> (\<forall>i\<in>waiting s. ob_confidence (rs_heap s ! i) \<noteq> HIGH)"

text \<open>What of an observation never changes.\<close>

definition identity_of :: "observation \<Rightarrow> observation" where
  "identity_of x = x\<lparr>ob_app := None, ob_confidence := NONE, ob_attribution := [], ob_raw := []\<rparr>"

definition strengthened :: "observation \<Rightarrow> observation \<Rightarrow> bool" where
  "strengthened x y \<longleftrightarrow>
     rank_of (ob_confidence x) \<le> rank_of (ob_confidence y)
     \<and> (ob_confidence x = ob_confidence y \<longrightarrow> y = x) \<and> identity_of y = identity_of x"

lemma strengthened_refl [simp]: "strengthened x x"
  by (simp add: strengthened_def)

lemma rank_inj: "rank_of a = rank_of b \<longleftrightarrow> a = b"
  by (cases a; cases b) (simp_all add: rank_of_def)

lemma strengthened_trans:
  assumes "strengthened x y" and "strengthened y z" shows "strengthened x z"
proof -
  have "ob_confidence x = ob_confidence y" if "ob_confidence x = ob_confidence z"
    using assms that by (simp add: strengthened_def flip: rank_inj)
  then show ?thesis using assms by (auto simp: strengthened_def)
qed

lemma match_modes:
  assumes "oa_mode (snd (index_match host ip now g)) \<noteq> MODE_UNATTRIBUTED"
  shows "oa_confidence (snd (index_match host ip now g)) \<noteq> NONE"
  using assms
  by (auto simp: index_match_def hint_attribution_def source_attribution_def attribution_of_def UNATTRIBUTED_def
           Let_def case_prod_beta split: option.splits if_splits)

lemma lookup_modes:
  assumes "oa_mode (snd (lookup_attribution show_ts now answer host ip g)) \<noteq> MODE_UNATTRIBUTED"
  shows "oa_confidence (snd (lookup_attribution show_ts now answer host ip g)) \<noteq> NONE"
  using assms match_modes
  by (auto simp: lookup_attribution_def UNATTRIBUTED_def attribution_of_def split: fetched.splits prod.splits sum.splits)

lemma refine_strengthens:
  assumes "ob_confidence x \<noteq> HIGH" and "oa_confidence a \<noteq> ob_confidence x" and "oa_confidence a \<noteq> NONE"
  shows "strengthened x (refine_observation a x)"
proof -
  have "rank_of (ob_confidence x) < rank_of (oa_confidence a)"
    using assms by (cases "ob_confidence x"; cases "oa_confidence a") (simp_all add: rank_of_def)
  then show ?thesis using assms(2) by (auto simp: strengthened_def refine_observation_def identity_of_def)
qed

lemma handle_heap:
  fixes cfg show_ts now answer item s
  defines "s' \<equiv> handle_lookup cfg show_ts now answer item s"
  assumes "ob_confidence (rs_heap s ! fst item) \<noteq> HIGH"
  shows "strengthened (rs_heap s ! j) (rs_heap s' ! j)"
    and "j \<noteq> fst item \<Longrightarrow> rs_heap s' ! j = rs_heap s ! j"
proof -
  obtain i host ip where item: "item = (i, host, ip)" by (cases item)
  let ?a = "snd (lookup_attribution show_ts now answer host ip (rs_index s))"
  have h: "rs_heap s' = (if oa_mode ?a \<noteq> MODE_UNATTRIBUTED \<and> oa_confidence ?a \<noteq> ob_confidence (rs_heap s ! i)
      then (rs_heap s)[i := refine_observation ?a (rs_heap s ! i)] else rs_heap s)"
    by (simp add: s'_def item handle_lookup_def case_prod_beta Let_def finalise_heap)
  then show "j \<noteq> fst item \<Longrightarrow> rs_heap s' ! j = rs_heap s ! j" by (simp add: item)
  show "strengthened (rs_heap s ! j) (rs_heap s' ! j)"
  proof (cases "oa_mode ?a \<noteq> MODE_UNATTRIBUTED \<and> oa_confidence ?a \<noteq> ob_confidence (rs_heap s ! i) \<and> j = i \<and> i < length (rs_heap s)")
    case True
    then have "strengthened (rs_heap s ! i) (refine_observation ?a (rs_heap s ! i))"
      using assms(2) lookup_modes [of show_ts now answer host ip "rs_index s"]
      by (intro refine_strengthens) (simp_all add: item)
    then show ?thesis using True h by simp
  next
    case False
    then have "rs_heap s' ! j = rs_heap s ! j" using h by (auto simp: nth_list_update list_update_beyond)
    then show ?thesis by simp
  qed
qed

lemma accounted_distinct:
  assumes "accounted s"
  shows "distinct (rs_reported s @ map fst (rs_queue s) @ map fst (rs_hands s))"
    and "waiting s \<subseteq> {..<length (rs_heap s)}"
proof -
  have m: "mset (rs_reported s @ map fst (rs_queue s) @ map fst (rs_hands s)) = mset [0..<length (rs_heap s)]"
    using assms by (simp add: accounted_def ac_simps)
  show "distinct (rs_reported s @ map fst (rs_queue s) @ map fst (rs_hands s))"
    using mset_eq_imp_distinct_iff [OF m] by simp
  have "waiting s \<subseteq> set (rs_reported s @ map fst (rs_queue s) @ map fst (rs_hands s))"
    by (auto simp: waiting_def)
  then show "waiting s \<subseteq> {..<length (rs_heap s)}" unfolding mset_eq_setD [OF m] by auto
qed

definition kept :: "resolver \<Rightarrow> resolver \<Rightarrow> bool" where
  "kept s s' \<longleftrightarrow>
     length (rs_heap s) \<le> length (rs_heap s')
     \<and> (\<forall>i<length (rs_heap s). strengthened (rs_heap s ! i) (rs_heap s' ! i))"

lemma same_heap:
  assumes "rs_heap s' = rs_heap s" and "waiting s' \<subseteq> waiting s"
    and "weak_waiting s"
  shows "kept s s' \<and> weak_waiting s'"
  using assms by (auto simp: kept_def weak_waiting_def)

lemma record_kept:
  assumes "accounted s" and "weak_waiting s"
  shows "kept s (record_request cfg q now s) \<and> weak_waiting (record_request cfg q now s)"
proof -
  have low: "i < length (rs_heap s)" if "i \<in> waiting s" for i
    using that accounted_distinct(2) [OF assms(1)] by auto
  show ?thesis
  proof (cases rule: record_cases [of cfg q now s])
    case (reported n)
    then have "waiting (record_request cfg q now s) = waiting s" by (simp add: waiting_def)
    then show ?thesis using reported assms(2) low by (simp add: kept_def weak_waiting_def nth_append)
  next
    case queued
    then have "waiting (record_request cfg q now s) = insert (length (rs_heap s)) (waiting s)"
      by (auto simp: waiting_def)
    then show ?thesis using queued assms(2) low
      by (auto simp: kept_def weak_waiting_def nth_append new_observation_def Let_def)
  qed
qed

lemma handle_kept:
  fixes cfg show_ts now answer
  assumes "accounted s" and "weak_waiting s" and "rs_hands s = xs @ item # ys"
  defines "s' \<equiv> handle_lookup cfg show_ts now answer item (s\<lparr>rs_hands := xs @ ys\<rparr>)"
  shows "kept s s' \<and> weak_waiting s'"
proof -
  have i: "fst item \<in> waiting s" using assms(3) by (simp add: waiting_def)
  then have w: "ob_confidence (rs_heap (s\<lparr>rs_hands := xs @ ys\<rparr>) ! fst item) \<noteq> HIGH"
    using assms(2) by (simp add: weak_waiting_def)
  have "kept s s'"
    using handle_heap(1) [OF w] handle_fields(4) by (simp add: kept_def s'_def)
  moreover have "fst item \<notin> fst ` set (rs_queue s) \<union> fst ` set (xs @ ys)"
    using accounted_distinct(1) [OF assms(1)] assms(3) by auto
  moreover have "waiting s' = fst ` set (rs_queue s) \<union> fst ` set (xs @ ys)"
    by (simp add: waiting_def s'_def handle_fields)
  moreover have "waiting s' \<subseteq> waiting s" using assms(3) by (auto simp: waiting_def s'_def handle_fields)
  ultimately have "kept s s'" and out: "fst item \<notin> waiting s'" and sub: "waiting s' \<subseteq> waiting s" by simp_all
  have "ob_confidence (rs_heap s' ! j) \<noteq> HIGH" if "j \<in> waiting s'" for j
  proof -
    have "rs_heap s' ! j = rs_heap s ! j"
      using handle_heap(2) [OF w, of j cfg show_ts now answer] that out by (auto simp: s'_def)
    then show ?thesis using that sub assms(2) by (auto simp: weak_waiting_def)
  qed
  then show ?thesis using \<open>kept s s'\<close> by (simp add: weak_waiting_def)
qed

lemma step_kept:
  "resolver_step cfg s s' \<Longrightarrow> accounted s \<Longrightarrow> weak_waiting s \<Longrightarrow> kept s s' \<and> weak_waiting s'"
proof (induction rule: resolver_step.induct)
  case (taken s)
  then show ?case by (intro same_heap) (auto simp: waiting_def take_item_def dest: list.set_sel)
next
  case (recorded s q now)
  then show ?case by (intro record_kept)
next
  case (handled s xs item ys show_ts now answer)
  then show ?case by (intro handle_kept)
qed (intro same_heap; simp add: waiting_def stop_fields store_reset_def worker_start_def; fail)+

lemma kept_trans: "kept s s1 \<Longrightarrow> kept s1 s2 \<Longrightarrow> kept s s2"
  unfolding kept_def using strengthened_trans by (meson le_trans less_le_trans)

lemma run_kept:
  "resolver_run cfg s s' \<Longrightarrow> accounted s \<Longrightarrow> weak_waiting s \<Longrightarrow> kept s s' \<and> accounted s' \<and> weak_waiting s'"
proof (induction rule: resolver_run.induct)
  case (run_refl s)
  then show ?case by (simp add: kept_def)
next
  case (run_step s s1 s2)
  then show ?case using step_kept step_accounted kept_trans by blast
qed

text \<open>From any state of the service on, an observation keeps its place and everything that says what
  was observed; its confidence never falls, and while it stays the same nothing changes at all.\<close>

theorem evidence_only_strengthened:
  assumes "resolver_run cfg (new_resolver maxlen g worker m t) s" and "resolver_run cfg s s'"
    and "i < length (rs_heap s)"
  shows "i < length (rs_heap s')
    \<and> rank_of (ob_confidence (rs_heap s ! i)) \<le> rank_of (ob_confidence (rs_heap s' ! i))
    \<and> (ob_confidence (rs_heap s ! i) = ob_confidence (rs_heap s' ! i) \<longrightarrow> rs_heap s' ! i = rs_heap s ! i)
    \<and> identity_of (rs_heap s' ! i) = identity_of (rs_heap s ! i)"
proof -
  have "weak_waiting (new_resolver maxlen g worker m t)" by (simp add: weak_waiting_def waiting_def new_resolver_def)
  then have "accounted s \<and> weak_waiting s" using run_kept [OF assms(1) new_accounted] by blast
  then have "kept s s'" using run_kept [OF assms(2)] by blast
  then show ?thesis using assms(3) by (simp add: kept_def strengthened_def)
qed

section \<open>The store in order\<close>

definition store_ok :: "resolver \<Rightarrow> bool" where
  "store_ok s \<longleftrightarrow>
     (\<forall>a\<in>set (rs_items s). a < length (rs_heap s)) \<and> length (rs_items s) \<le> rs_maxlen s
     \<and> sorted_wrt (<) (map ob_seq (store_all s)) \<and> (\<forall>x\<in>set (store_all s). ob_seq x \<le> rs_seq s)"

lemma strengthened_seq: "strengthened x y \<Longrightarrow> ob_seq y = ob_seq x"
proof -
  have "ob_seq (identity_of z) = ob_seq z" for z by (simp add: identity_of_def)
  then show "strengthened x y \<Longrightarrow> ob_seq y = ob_seq x" unfolding strengthened_def by metis
qed

lemma store_ok_kept:
  assumes "store_ok s" and "kept s s'" and "rs_items s' = rs_items s" and "rs_seq s' = rs_seq s"
    and "rs_maxlen s' = rs_maxlen s"
  shows "store_ok s'"
proof -
  have "map ob_seq (store_all s') = map ob_seq (store_all s)"
    using assms(1-3) by (auto simp: store_ok_def store_all_def kept_def intro: strengthened_seq)
  then have "ob_seq ` set (store_all s') = ob_seq ` set (store_all s)" by (metis list.set_map)
  then have "\<forall>x\<in>set (store_all s'). ob_seq x \<le> rs_seq s'"
    using assms(1,4) unfolding store_ok_def by (metis (no_types, lifting) imageE imageI)
  then show ?thesis
    using assms \<open>map ob_seq (store_all s') = _\<close> by (auto simp: store_ok_def kept_def)
qed

lemma last_n_simps: "set (last_n n xs) \<subseteq> set xs" "map f (last_n n xs) = last_n n (map f xs)"
  by (auto simp: last_n_def drop_map dest: in_set_dropD)

lemma record_store:
  assumes "store_ok s" shows "store_ok (record_request cfg q now s)"
proof -
  have new: "store_ok s'" if "rs_heap s' = rs_heap s @ [x\<lparr>ob_seq := rs_seq s + 1\<rparr>]" and "rs_seq s' = rs_seq s + 1"
    and "rs_items s' = last_n (rs_maxlen s) (rs_items s @ [length (rs_heap s)])" and "rs_maxlen s' = rs_maxlen s" for s' x
  proof -
    have "map (\<lambda>a. rs_heap s' ! a) (rs_items s @ [length (rs_heap s)]) = store_all s @ [x\<lparr>ob_seq := rs_seq s + 1\<rparr>]"
      using assms that(1) by (simp add: store_ok_def store_all_def nth_append)
    from this have a: "store_all s' = last_n (rs_maxlen s) (store_all s @ [x\<lparr>ob_seq := rs_seq s + 1\<rparr>])"
      by (simp only: store_all_def [of s'] that(3) last_n_simps(2))
    have "sorted_wrt (<) (map ob_seq (store_all s @ [x\<lparr>ob_seq := rs_seq s + 1\<rparr>]))"
      using assms by (auto simp: store_ok_def sorted_wrt_append)
    then have "sorted_wrt (<) (map ob_seq (store_all s'))"
      unfolding a last_n_simps(2) unfolding last_n_def by (rule sorted_wrt_drop)
    moreover have "\<forall>y\<in>set (store_all s'). ob_seq y \<le> rs_seq s'"
      using assms last_n_simps(1) [of "rs_maxlen s" "store_all s @ [x\<lparr>ob_seq := rs_seq s + 1\<rparr>]"]
      by (fastforce simp: a that(2) store_ok_def)
    moreover have "\<forall>b\<in>set (rs_items s'). b < length (rs_heap s')"
      using assms last_n_simps(1) [of "rs_maxlen s" "rs_items s @ [length (rs_heap s)]"]
      by (fastforce simp: that store_ok_def)
    ultimately show ?thesis by (simp add: store_ok_def that length_last_n)
  qed
  let ?x = "new_observation cfg q now (snd (attribute q (ex_found (extract_token (rq_candidates q))) now (rs_index s)))"
  show ?thesis
  proof (cases rule: record_cases [of cfg q now s])
    case (reported n)
    show ?thesis unfolding reported by (rule new [of _ ?x]) simp_all
  next
    case queued
    show ?thesis unfolding queued(1) by (rule new [of _ ?x]) simp_all
  qed
qed

lemma step_store:
  "resolver_step cfg s s' \<Longrightarrow> accounted s \<Longrightarrow> weak_waiting s \<Longrightarrow> store_ok s \<Longrightarrow> store_ok s'"
proof (induction rule: resolver_step.induct)
  case (recorded s q now)
  then show ?case by (intro record_store)
next
  case (handled s xs item ys show_ts now answer)
  let ?s = "handle_lookup cfg show_ts now answer item (s\<lparr>rs_hands := xs @ ys\<rparr>)"
  have "kept s ?s" using handle_kept [OF handled(2,3,1)] ..
  then show ?case by (rule store_ok_kept [OF handled(4)]) (simp_all add: handle_fields)
qed (simp_all add: store_ok_def store_all_def stop_fields store_reset_def worker_start_def take_item_def)

lemma run_store:
  assumes "resolver_run cfg s s'" and "accounted s" and "weak_waiting s" and "store_ok s" shows "store_ok s'"
  using assms
proof (induction rule: resolver_run.induct)
  case (run_step s s1 s2)
  then show ?case using run_kept step_store by blast
qed

lemma step_maxlen: "resolver_step cfg s s' \<Longrightarrow> rs_maxlen s' = rs_maxlen s"
proof (induction rule: resolver_step.induct)
  case (recorded s q now)
  show ?case by (cases rule: record_cases [of cfg q now s]) simp_all
qed (simp_all add: handle_fields stop_fields store_reset_def worker_start_def take_item_def)

lemma run_maxlen: "resolver_run cfg s s' \<Longrightarrow> rs_maxlen s' = rs_maxlen s"
  by (induction rule: resolver_run.induct) (simp_all add: step_maxlen)

lemma filter_after_prefix:
  assumes "sorted_wrt (<) (map f (xs @ ys))" and "xs \<noteq> []"
  shows "filter (\<lambda>x. f (last xs) < (f x :: nat)) (xs @ ys) = ys"
proof -
  have l: "last xs \<in> set xs" using assms(2) by simp
  have "\<forall>x\<in>set xs. f x \<le> f (last xs)"
    using assms by (cases xs rule: rev_cases) (auto simp: sorted_wrt_append intro: less_imp_le)
  moreover have "\<forall>y\<in>set ys. f (last xs) < f y" using assms(1) l by (auto simp: sorted_wrt_append)
  ultimately have "filter (\<lambda>x. f (last xs) < f x) xs = []" "filter (\<lambda>x. f (last xs) < f x) ys = ys"
    by (auto simp: filter_empty_conv filter_id_conv not_less)
  then show ?thesis by simp
qed

lemma since_take: "store_since k (int n) s = take n (filter (\<lambda>x. k < int (ob_seq x)) (store_all s))"
  by (simp add: store_since_def upto_index_def)

text \<open>A client that pages through the store from the last sequence number it saw reads the retained
  observations in their order, none twice and none left out, and the store keeps its bound.\<close>

theorem store_pages:
  assumes "resolver_run cfg (new_resolver maxlen g worker m t) s" and "store_since k (int n) s \<noteq> []"
  shows "store_since k (int n) s @ store_since (int (ob_seq (last (store_since k (int n) s)))) (int p) s
      = store_since k (int (n + p)) s
    \<and> distinct (map ob_seq (store_all s)) \<and> length (store_all s) \<le> maxlen"
proof -
  let ?n = "new_resolver maxlen g worker m t"
  have n: "weak_waiting ?n" "store_ok ?n"
    by (simp_all add: weak_waiting_def waiting_def store_ok_def store_all_def new_resolver_def)
  then have ok: "store_ok s" using run_store [OF assms(1) new_accounted] by blast
  have max: "rs_maxlen s = maxlen" using run_maxlen [OF assms(1)] by (simp add: new_resolver_def)
  let ?L = "filter (\<lambda>x. k < int (ob_seq x)) (store_all s)"
  let ?y = "last (take n ?L)"
  have s: "sorted_wrt (<) (map ob_seq (store_all s))" using ok by (simp add: store_ok_def)
  have ne: "take n ?L \<noteq> []" using assms(2) by (simp add: since_take)
  have "?y \<in> set ?L" using last_in_set [OF ne] by (rule in_set_takeD)
  then have "k < int (ob_seq ?y)" by simp
  then have "filter (\<lambda>x. ob_seq ?y < ob_seq x) (store_all s) = filter (\<lambda>x. ob_seq ?y < ob_seq x) ?L"
    by (auto intro!: filter_cong)
  also have "\<dots> = drop n ?L"
    using filter_after_prefix [of ob_seq "take n ?L" "drop n ?L"] s ne
    by (simp add: sorted_wrt_map sorted_wrt_filter)
  finally have "take n ?L @ take p (filter (\<lambda>x. ob_seq ?y < ob_seq x) (store_all s)) = take (n + p) ?L"
    by (simp add: take_add)
  moreover have "length (store_all s) \<le> rs_maxlen s" using ok by (simp add: store_ok_def store_all_def)
  ultimately show ?thesis
    using s max by (simp add: since_take strict_sorted_iff del: of_nat_add)
qed

section \<open>From the reports to the events posted\<close>

definition reports_ok :: "resolver \<Rightarrow> bool" where
  "reports_ok s \<longleftrightarrow> telemetry_ok (rs_telemetry s) \<and> tm_enqueued (rs_telemetry s) = length (rs_reported s)"

lemma submit_enqueued: "tm_enqueued (fst (telemetry_submit e t)) = tm_enqueued t + 1"
  by (simp add: telemetry_submit_def Let_def)

lemma flush_enqueued: "tm_enqueued (flush_batch gets failure t) = tm_enqueued t"
  by (auto simp: flush_batch_def collect_batch_def post_batch_def Let_def split: option.splits)

lemma report_ok: "reports_ok s \<Longrightarrow> reports_ok (report cfg i s)"
  by (simp add: reports_ok_def submit_ok submit_enqueued)

lemma finalise_ok: "reports_ok s \<Longrightarrow> reports_ok (finalise cfg i a s)"
  unfolding finalise_def by (rule report_ok) (simp add: reports_ok_def store_update_def)

lemma same_reports:
  "rs_telemetry s' = rs_telemetry s \<Longrightarrow> rs_reported s' = rs_reported s \<Longrightarrow> reports_ok s \<Longrightarrow> reports_ok s'"
  by (simp add: reports_ok_def)

lemma step_reports: "resolver_step cfg s s' \<Longrightarrow> reports_ok s \<Longrightarrow> reports_ok s'"
proof (induction rule: resolver_step.induct)
  case (recorded s q now)
  show ?case
  proof (cases rule: record_cases [of cfg q now s])
    case (reported n)
    show ?thesis unfolding reported by (rule report_ok, rule same_reports [OF _ _ recorded]) simp_all
  next
    case queued
    show ?thesis unfolding queued(1) by (rule same_reports [OF _ _ recorded]) simp_all
  qed
next
  case (handled s xs item ys show_ts now answer)
  then show ?case
    unfolding handle_lookup_def Let_def case_prod_beta
    by (intro finalise_ok) (simp add: reports_ok_def)
next
  case (posted s gets failure)
  then show ?case by (simp add: reports_ok_def flush_ok flush_enqueued)
next
  case (stopped s)
  have "reports_ok s \<Longrightarrow> reports_ok (foldl (\<lambda>s item. finalise cfg (fst item) UNATTRIBUTED s) s xs)"
    for s and xs :: "(nat \<times> string \<times> string) list"
    by (induction xs arbitrary: s) (simp_all add: finalise_ok)
  then show ?case using stopped by (simp add: worker_stop_def reports_ok_def)
qed (auto simp: reports_ok_def store_reset_def worker_start_def take_item_def)

lemma run_reports: "resolver_run cfg s s' \<Longrightarrow> reports_ok s \<Longrightarrow> reports_ok s'"
  by (induction rule: resolver_run.induct) (auto intro: step_reports)

text \<open>From the listeners to the endpoint nothing disappears silently while the service runs: the
  observations recorded are those waiting for the worker and those reported, and each report was
  posted, failed, was dropped for the bound or is queued, each counted as such.\<close>

theorem reports_accounted:
  assumes "resolver_run cfg (new_resolver maxlen g worker m (new_telemetry enabled qm batch)) s"
  shows "length (rs_heap s) = length (rs_queue s) + length (rs_hands s)
      + tm_dropped (rs_telemetry s) + tm_posted (rs_telemetry s) + tm_failed (rs_telemetry s)
      + length (tm_queue (rs_telemetry s))"
proof -
  have "reports_ok (new_resolver maxlen g worker m (new_telemetry enabled qm batch))"
    by (simp add: reports_ok_def telemetry_ok_def new_telemetry_def new_resolver_def)
  with assms have "reports_ok s" by (rule run_reports)
  moreover have "size (mset (rs_reported s) + mset (map fst (rs_queue s)) + mset (map fst (rs_hands s)))
      = size (mset [0..<length (rs_heap s)])"
    using run_accounted [OF assms new_accounted] by (simp add: accounted_def)
  ultimately show ?thesis by (simp add: reports_ok_def telemetry_ok_def)
qed

section \<open>The text of a report\<close>

lemma split_once_first:
  assumes "p \<noteq> []" and "hd p \<notin> set a"
  shows "split_once p (a @ p @ b) = Some (a, b)"
  using assms(2)
proof (induction a)
  case Nil
  show ?case by (simp add: split_once.simps)
next
  case (Cons x a)
  have "\<not> startswith ((x # a) @ p @ b) p" using Cons.prems assms(1) by (cases p) (auto simp: startswith_def)
  then show ?case using Cons by (subst split_once.simps) simp
qed

lemma rpartition_last:
  assumes "sep \<noteq> []" and "last sep \<notin> set b"
  shows "rpartition_text sep (a @ sep @ b) = Some (a, b)"
  using split_once_first [of "rev sep" "rev b" "rev a"] assms by (simp add: rpartition_text_def hd_rev)

lemma confidence_text_plain: "CHR ''='' \<notin> set (confidence_text c)"
  by (cases c) (simp_all add: confidence_text_def)

definition raw_origin :: "string option \<Rightarrow> bool option \<Rightarrow> string" where
  "raw_origin source owned =
     '' | src='' @ str_or source ''none'' @ '' origin=''
       @ (case owned of None \<Rightarrow> ''n/a'' | Some b \<Rightarrow> if b then ''owned'' else ''external'')"

lemma raw_suffix_origin: "raw_suffix source owned c = raw_origin source owned @ '' conf='' @ confidence_text c"
  by (simp add: raw_suffix_def raw_origin_def)

lemma reannotate_suffix: "reannotate (head @ '' conf='' @ confidence_text c) c' = head @ '' conf='' @ confidence_text c'"
  using rpartition_last [of "'' conf=''" "confidence_text c" head] confidence_text_plain
  by (simp add: reannotate_def)

text \<open>A report whose evidence improves late says so in place: its text is the one it had, with only
  the confidence exchanged, whatever the request's own text contains; it grows by one character at
  most.\<close>

theorem annotation_follows_confidence:
  "reannotate (annotate raw source owned c) c' =
     upto_index (RAW_MAX - int (length (raw_suffix source owned c))) raw @ raw_suffix source owned c'
   \<and> length (reannotate (annotate raw source owned c) c') \<le> length (annotate raw source owned c) + 1"
proof -
  have "reannotate (annotate raw source owned c) c' =
     upto_index (RAW_MAX - int (length (raw_suffix source owned c))) raw @ raw_suffix source owned c'"
    using reannotate_suffix [of "upto_index (RAW_MAX - int (length (raw_suffix source owned c))) raw @ raw_origin source owned" c c']
    by (simp add: annotate_def Let_def raw_suffix_origin)
  moreover have "length (confidence_text c') \<le> length (confidence_text c) + 1"
    by (cases c; cases c') (simp_all add: confidence_text_def)
  ultimately show ?thesis by (simp add: annotate_def Let_def raw_suffix_origin)
qed

lemma length_annotate:
  assumes "int (length (raw_suffix source owned c)) \<le> RAW_MAX"
  shows "int (length (annotate raw source owned c)) \<le> RAW_MAX"
  using assms by (simp add: annotate_def Let_def upto_index_def)

text \<open>The one character is enough to pass the limit of the protocol: a text that was cut to it and whose
  confidence then rises from low to high is one character too long.\<close>

lemma upgraded_text_too_long:
  "length (annotate (replicate 3000 (CHR ''a'')) None None LOW) = 2048
   \<and> length (reannotate (annotate (replicate 3000 (CHR ''a'')) None None LOW) HIGH) = 2049"
proof -
  have l: "length (raw_suffix None None LOW) = 31" "length (raw_suffix None None HIGH) = 32" by code_simp+
  have "reannotate (annotate (replicate 3000 (CHR ''a'')) None None LOW) HIGH
      = upto_index (RAW_MAX - int (length (raw_suffix None None LOW))) (replicate 3000 (CHR ''a'')) @ raw_suffix None None HIGH"
    using reannotate_suffix [of "upto_index (RAW_MAX - int (length (raw_suffix None None LOW))) (replicate 3000 (CHR ''a'')) @ raw_origin None None" LOW HIGH]
    by (simp add: annotate_def Let_def raw_suffix_origin)
  then show ?thesis by (simp add: annotate_def Let_def l upto_index_def RAW_MAX_def)
qed

section \<open>An example\<close>

text \<open>A DNS lookup is recorded while nothing is known, waits for its lookup, and is attributed by the hint
  that the lookup brings.\<close>

definition demo_request :: request where
  "demo_request =
     \<lparr>rq_channel = ''dns'', rq_source_ip = ''10.0.0.7'', rq_candidates = [], rq_raw = ''dns A a.oast.fun'',
      rq_host = Some ''a.oast.fun'', rq_detail = [], rq_owned = Some False\<rparr>"

definition demo0 :: resolver where
  "demo0 = new_resolver 9 (new_index 120 900 3) True 5 (new_telemetry True 5 2)"

definition demo1 :: resolver where "demo1 = worker_start demo0"
definition demo2 :: resolver where "demo2 = record_request demo_cfg demo_request 6 demo1"
definition demo3 :: resolver where "demo3 = take_item demo2"
definition demo4 :: resolver where
  "demo4 = handle_lookup demo_cfg shown 6
     (Payloads [hint_payload shown (fetch_hint\<lparr>hn_registered := 5, hn_expires := 65\<rparr>)])
     (hd (rs_hands demo3)) (demo3\<lparr>rs_hands := []\<rparr>)"

lemma demo2_queue: "rs_running demo2" "rs_queue demo2 = [(0, ''a.oast.fun'', ''10.0.0.7'')]"
  by code_simp+

lemma demo3_hands: "rs_hands demo3 = [(0, ''a.oast.fun'', ''10.0.0.7'')]"
  by code_simp

lemma demo_runs:
  "resolver_run demo_cfg demo0 demo2" "resolver_run demo_cfg demo2 demo4" "resolver_run demo_cfg demo0 demo3"
  "resolver_run demo_cfg demo0 demo4"
proof -
  show 02: "resolver_run demo_cfg demo0 demo2"
    unfolding demo2_def demo1_def by (rule run_step [OF run_step [OF run_refl started] recorded])
  have 23: "resolver_step demo_cfg demo2 demo3"
    unfolding demo3_def by (rule taken) (simp_all add: demo2_queue)
  have 34: "resolver_step demo_cfg demo3 demo4"
    using handled [of demo3 "[]" "hd (rs_hands demo3)" "[]" demo_cfg shown 6
        "Payloads [hint_payload shown (fetch_hint\<lparr>hn_registered := 5, hn_expires := 65\<rparr>)]"]
    by (simp add: demo4_def demo3_hands)
  show 03: "resolver_run demo_cfg demo0 demo3" using 02 23 by (rule run_step)
  show "resolver_run demo_cfg demo2 demo4" using run_step [OF run_step [OF run_refl 23] 34] .
  show "resolver_run demo_cfg demo0 demo4" using 03 34 by (rule run_step)
qed

theorem observations_reported_once_witness:
  "mset (rs_reported demo3) + mset (map fst (rs_queue demo3)) + mset (map fst (rs_hands demo3)) = mset [0..<length (rs_heap demo3)]
   \<and> mset (rs_reported (worker_stop demo_cfg demo4)) = mset [0..<length (rs_heap demo4)] \<and> rs_reported demo4 = [0]"
proof (intro conjI)
  show "mset (rs_reported demo3) + mset (map fst (rs_queue demo3)) + mset (map fst (rs_hands demo3)) = mset [0..<length (rs_heap demo3)]"
    using observations_reported_once [OF demo_runs(3) [unfolded demo0_def]] by (rule conjunct1)
  have "rs_hands demo4 = []" by (simp add: demo4_def handle_fields)
  then show "mset (rs_reported (worker_stop demo_cfg demo4)) = mset [0..<length (rs_heap demo4)]"
    using observations_reported_once [OF demo_runs(4) [unfolded demo0_def]] by blast
  show "rs_reported demo4 = [0]" by code_simp
qed

theorem evidence_only_strengthened_witness:
  "identity_of (rs_heap demo4 ! 0) = identity_of (rs_heap demo2 ! 0)
   \<and> ob_confidence (rs_heap demo2 ! 0) = NONE \<and> ob_confidence (rs_heap demo4 ! 0) = HIGH"
proof (intro conjI)
  have "0 < length (rs_heap demo2)" by code_simp
  then show "identity_of (rs_heap demo4 ! 0) = identity_of (rs_heap demo2 ! 0)"
    using evidence_only_strengthened [OF demo_runs(1) [unfolded demo0_def] demo_runs(2)] by blast
qed code_simp+

theorem store_pages_witness:
  "store_since 0 1 demo4 @ store_since (int (ob_seq (last (store_since 0 1 demo4)))) 4 demo4 = store_since 0 5 demo4
   \<and> length (store_since 0 5 demo4) = 1"
proof
  have "store_since 0 1 demo4 \<noteq> []" by code_simp
  from store_pages [OF demo_runs(4) [unfolded demo0_def], of 0 1 4] this
  show "store_since 0 1 demo4 @ store_since (int (ob_seq (last (store_since 0 1 demo4)))) 4 demo4 = store_since 0 5 demo4"
    by simp
qed code_simp

theorem reports_accounted_witness:
  "length (rs_heap demo4) = length (rs_queue demo4) + length (rs_hands demo4)
      + tm_dropped (rs_telemetry demo4) + tm_posted (rs_telemetry demo4) + tm_failed (rs_telemetry demo4)
      + length (tm_queue (rs_telemetry demo4))
   \<and> length (tm_queue (rs_telemetry demo4)) = 1"
proof
  show "length (rs_heap demo4) = length (rs_queue demo4) + length (rs_hands demo4)
      + tm_dropped (rs_telemetry demo4) + tm_posted (rs_telemetry demo4) + tm_failed (rs_telemetry demo4)
      + length (tm_queue (rs_telemetry demo4))"
    by (rule reports_accounted [OF demo_runs(4) [unfolded demo0_def]])
qed code_simp

end
