(* ===== verification/Smtp.thy ===== *)
theory Smtp
  imports Observations
begin

text \<open>
  \<open>platform/oob/src/edge_resolver/listeners/smtp.py\<close>: the envelope of a connection, the reaction to
  each command, the reading of a message, and the session with the calls of the recorder as its
  trace. What the stream's \<open>readline\<close> gives is the input: \<open>Some raw\<close> for a line with its end,
  \<open>None\<close> where it raises (a timeout or an overlong line), the end of the list for the end of the
  connection. \<open>sends\<close> bounds how many lines can still be written before the peer is gone.
\<close>

section \<open>Lines\<close>

type_synonym reads = "bytes option list"

definition MAX_LINE :: int where "MAX_LINE = 4096"
definition SMTP_MAX_MESSAGE :: int where "SMTP_MAX_MESSAGE = 262144"

text \<open>\<open>raw[:n]\<close>, which leaves a short text as it is.\<close>

definition clip :: "int \<Rightarrow> 'a list \<Rightarrow> 'a list" where
  "clip n xs = (if int (length xs) \<le> n then xs else take (nat n) xs)"

definition line_text :: "bytes \<Rightarrow> string" where
  "line_text raw = rstrip_chars [char_of (13::nat), char_of (10::nat)] (text_of (decode_utf8 raw))"

definition read_line :: "reads \<Rightarrow> (string \<times> reads) option" where
  "read_line reads =
     (case reads of Some raw # rest \<Rightarrow> if raw = [] then None else Some (line_text (clip MAX_LINE raw), rest)
      | _ \<Rightarrow> None)"

record message =
  ms_headers :: "string list"
  ms_size :: nat

text \<open>\<open>_read_message\<close>: to the line with the dot, the end, or a failure.\<close>

fun read_data :: "bool \<Rightarrow> message \<Rightarrow> reads \<Rightarrow> message \<times> reads" where
  "read_data in_headers m [] = (m, [])"
| "read_data in_headers m (None # rest) = (m, rest)"
| "read_data in_headers m (Some raw # rest) =
     (if raw = [] then (m, rest)
      else
        let m1 = m\<lparr>ms_size := ms_size m + length raw\<rparr>; line = line_text raw
        in if line = ''.'' then (m1, rest)
           else
             let ends = (in_headers \<and> line = []);
                 m2 = (if in_headers \<and> line \<noteq> [] \<and> length (ms_headers m1) < 64
                       then m1\<lparr>ms_headers := ms_headers m1 @ [clip 512 line]\<rparr> else m1)
             in read_data (in_headers \<and> \<not> ends \<and> int (ms_size m2) \<le> SMTP_MAX_MESSAGE) m2 rest)"

definition extract_address :: "string \<Rightarrow> string \<Rightarrow> string option" where
  "extract_address argument marker =
     (let t0 = strip argument;
          t = (if startswith (upper t0) marker then strip (drop (length marker) t0) else t0)
      in if startswith t ''<'' then
           (if CHR ''>'' \<in> set t then falsy_none (strip (tl (before (CHR ''>'') t)))
            else falsy_none (strip (tl t)))
         else falsy_none (strip (before (CHR '' '') t)))"

section \<open>Commands\<close>

record envelope =
  en_mail_from :: "string option"
  en_rcpts :: "string list"
  en_helo :: "string option"

definition reset_envelope :: "envelope \<Rightarrow> envelope" where
  "reset_envelope e = e\<lparr>en_mail_from := None, en_rcpts := []\<rparr>"

definition open_envelope :: "envelope \<Rightarrow> bool" where
  "open_envelope e \<longleftrightarrow> truthy (en_mail_from e) \<or> en_rcpts e \<noteq> []"

text \<open>What a command does: the envelope after it and the lines to send; or the reading of a message; or
  the end.\<close>

datatype reaction = Replies envelope "string list" | ReadData | Quit

definition smtp_react :: "string \<Rightarrow> envelope \<Rightarrow> string \<Rightarrow> reaction" where
  "smtp_react hostname e line =
     (let verb = upper (strip (before (CHR '' '') line)); argument = strip (after (CHR '' '') line)
      in if verb = ''EHLO'' then
           Replies (e\<lparr>en_helo := Some argument\<rparr>)
             [''250-'' @ hostname, ''250-PIPELINING'', ''250-SIZE '' @ int_text SMTP_MAX_MESSAGE, ''250 8BITMIME'']
         else if verb = ''HELO'' then Replies (e\<lparr>en_helo := Some argument\<rparr>) [''250 '' @ hostname]
         else if verb = ''MAIL'' then
           Replies (e\<lparr>en_mail_from := extract_address argument ''FROM:''\<rparr>) [''250 2.1.0 Ok'']
         else if verb = ''RCPT'' then
           Replies (case extract_address argument ''TO:'' of
                      Some r \<Rightarrow> e\<lparr>en_rcpts := en_rcpts e @ [r]\<rparr> | None \<Rightarrow> e) [''250 2.1.5 Ok'']
         else if verb = ''DATA'' then ReadData
         else if verb = ''RSET'' then Replies (reset_envelope e) [''250 2.0.0 Ok'']
         else if verb = ''NOOP'' then Replies e [''250 2.0.0 Ok'']
         else if verb = ''VRFY'' then Replies e [''252 2.0.0 Cannot VRFY user'']
         else if verb \<in> {''STARTTLS'', ''AUTH''} then
           Replies e [''502 5.5.1 Error: command not implemented'']
         else if verb = ''QUIT'' then Quit
         else Replies e [''250 2.0.0 Ok''])"

section \<open>Sessions\<close>

text \<open>A call of the recorder: the envelope, the message, and whether the transaction was cut off.\<close>

record mail_note =
  mn_envelope :: envelope
  mn_message :: message
  mn_aborted :: bool

text \<open>What happens on a connection, in order: commands that change the envelope, lines sent, notes.\<close>

datatype smtp_event = Changed envelope envelope | Sent string | Noted mail_note

definition no_message :: message where
  "no_message = \<lparr>ms_headers = [], ms_size = 0\<rparr>"

definition close_events :: "envelope \<Rightarrow> smtp_event list" where
  "close_events e =
     (if open_envelope e then [Noted \<lparr>mn_envelope = e, mn_message = no_message, mn_aborted = True\<rparr>] else [])"

lemma read_data_shorter: "length (snd (read_data h m reads)) \<le> length reads"
proof (induction reads arbitrary: h m)
  case (Cons x reads)
  then show ?case by (cases x) (auto simp: Let_def le_SucI)
qed simp

lemma read_line_shorter: "read_line reads = Some (line, rest) \<Longrightarrow> length rest < length reads"
  by (auto simp: read_line_def split: list.splits option.splits if_splits)

function smtp_loop :: "string \<Rightarrow> string \<Rightarrow> nat \<Rightarrow> envelope \<Rightarrow> reads \<Rightarrow> smtp_event list" where
  "smtp_loop hostname queue_id sends e reads =
     (case read_line reads of
        None \<Rightarrow> close_events e
      | Some (line, rest) \<Rightarrow>
          (case smtp_react hostname e line of
             Replies e1 out \<Rightarrow>
               Changed e e1 # map Sent (take sends out)
               @ (if sends < length out then close_events e1
                  else smtp_loop hostname queue_id (sends - length out) e1 rest)
           | Quit \<Rightarrow> map Sent (take sends [''221 2.0.0 Bye'']) @ close_events e
           | ReadData \<Rightarrow>
               (if sends = 0 then close_events e
                else
                  let (m, rest1) = read_data True no_message rest
                  in Sent ''354 End data with <CR><LF>.<CR><LF>''
                     # Noted \<lparr>mn_envelope = e, mn_message = m, mn_aborted = False\<rparr>
                     # map Sent (take (sends - 1) [''250 2.0.0 Ok: queued as '' @ queue_id])
                     @ (if sends = 1 then close_events (reset_envelope e)
                        else smtp_loop hostname queue_id (sends - 2) (reset_envelope e) rest1))))"
  by pat_completeness auto

termination
proof (relation "measure (\<lambda>(h, q, n, e, reads). length reads)", goal_cases)
  case (3 h q n e reads x line rest r m rest1)
  then have "rest1 = snd (read_data True no_message rest)" by (metis snd_conv)
  then have "length rest1 \<le> length rest" by (simp add: read_data_shorter)
  moreover have "length rest < length reads" using 3 by (intro read_line_shorter [of reads line]) simp
  ultimately show ?case by simp
qed (auto dest: read_line_shorter)

declare smtp_loop.simps [simp del]

definition smtp_connection :: "oob_config \<Rightarrow> string \<Rightarrow> nat \<Rightarrow> reads \<Rightarrow> smtp_event list" where
  "smtp_connection cfg queue_id sends reads =
     (let e = \<lparr>en_mail_from = None, en_rcpts = [], en_helo = None\<rparr>; hostname = mail_hostname cfg
      in map Sent (take sends [''220 '' @ hostname @ '' ESMTP Postfix''])
         @ (if sends = 0 then close_events e else smtp_loop hostname queue_id (sends - 1) e reads))"

section \<open>What is recorded\<close>

definition inside_zone :: "string \<Rightarrow> string \<Rightarrow> bool" where
  "inside_zone domain zone \<longleftrightarrow> domain = zone \<or> endswith domain (CHR ''.'' # zone)"

record mail_findings =
  mf_candidates :: "candidate list"
  mf_owned :: "bool option"
  mf_host :: "string option"

definition rcpt_step :: "string \<Rightarrow> mail_findings \<Rightarrow> string \<Rightarrow> mail_findings" where
  "rcpt_step zone f address =
     (let (user, domain) = address_parts (Some address);
          f1 = (case domain of
                  None \<Rightarrow> f
                | Some d \<Rightarrow>
                    \<lparr>mf_candidates = mf_candidates f @
                       [\<lparr>cd_source = (if inside_zone d zone then ''dns_label'' else ''smtp_domain''),
                         cd_value = str_or (host_label (Some d) zone) []\<rparr>],
                     mf_owned = (if inside_zone d zone then Some True
                                 else if mf_owned f = None then Some False else mf_owned f),
                     mf_host = (if truthy (mf_host f) then mf_host f else Some d)\<rparr>)
      in case user of
           None \<Rightarrow> f1
         | Some u \<Rightarrow> f1\<lparr>mf_candidates := mf_candidates f1 @ [\<lparr>cd_source = ''smtp_localpart'', cd_value = u\<rparr>]\<rparr>)"

definition mail_findings :: "string \<Rightarrow> envelope \<Rightarrow> mail_findings" where
  "mail_findings zone e =
     (let f = foldl (rcpt_step zone) \<lparr>mf_candidates = [], mf_owned = None, mf_host = None\<rparr> (en_rcpts e)
      in if truthy (en_mail_from e) then
           (let (user, domain) = address_parts (en_mail_from e)
            in f\<lparr>mf_candidates := mf_candidates f @
                  [\<lparr>cd_source = ''smtp_sender'', cd_value = str_or user []\<rparr>,
                   \<lparr>cd_source = ''smtp_sender'', cd_value = str_or (host_label domain zone) []\<rparr>]\<rparr>)
         else f)"

definition newline :: string where "newline = [char_of (10::nat)]"

definition mail_raw :: "mail_note \<Rightarrow> string" where
  "mail_raw n =
     (let e = mn_envelope n; m = mn_message n;
          rcpts = join '','' (map (\<lambda>r. CHR ''<'' # r @ ''>'') (en_rcpts e))
      in join newline
           ((''smtp helo='' @ str_or (en_helo e) ''-'' @ '' from=<'' @ str_or (en_mail_from e) [] @ ''> rcpt=''
             @ (if rcpts = [] then ''-'' else rcpts) @ '' body_bytes='' @ dec_digits (ms_size m)
             @ (if mn_aborted n then '' aborted'' else []))
            # ms_headers m))"

definition mail_request :: "oob_config \<Rightarrow> string \<Rightarrow> mail_note \<Rightarrow> request" where
  "mail_request cfg peer_ip n =
     (let e = mn_envelope n; m = mn_message n; f = mail_findings (owned_zone cfg) e
      in \<lparr>rq_channel = ''smtp'', rq_source_ip = peer_ip, rq_candidates = mf_candidates f, rq_raw = mail_raw n,
          rq_host = mf_host f,
          rq_detail = [(''helo'', opt_json (en_helo e)), (''mail_from'', opt_json (en_mail_from e)),
            (''rcpt_to'', JList (map JStr (en_rcpts e))),
            (''headers'', JList (map JStr (take 32 (ms_headers m)))),
            (''body_bytes'', JInt (int (ms_size m))), (''aborted'', JBool (mn_aborted n))],
          rq_owned = mf_owned f\<rparr>)"

section \<open>No recipient is lost\<close>

text \<open>A trace is settled when each note is of the current envelope, which is then reset, each command
  changes the current envelope by one recipient at most or resets it, and nothing is left open.\<close>

definition small_change :: "envelope \<Rightarrow> envelope \<Rightarrow> bool" where
  "small_change a b \<longleftrightarrow> b = reset_envelope a \<or> en_rcpts b = en_rcpts a \<or> (\<exists>r. en_rcpts b = en_rcpts a @ [r])"

fun settled :: "envelope \<Rightarrow> smtp_event list \<Rightarrow> bool" where
  "settled e [] = (\<not> open_envelope e)"
| "settled e (Sent l # es) = settled e es"
| "settled e (Changed a b # es) = (a = e \<and> small_change a b \<and> settled b es)"
| "settled e (Noted n # es) = (mn_envelope n = e \<and> settled (reset_envelope e) es)"

lemma settled_sent [simp]: "settled e (map Sent ls @ es) = settled e es"
  by (induction ls) simp_all

lemma reset_closed [simp]: "\<not> open_envelope (reset_envelope e)"
  by (simp add: open_envelope_def reset_envelope_def truthy_def)

lemma settled_close [simp]: "settled e (close_events e)"
  by (simp add: close_events_def)

lemma react_change: "smtp_react hostname e line = Replies e1 out \<Longrightarrow> small_change e e1"
  by (auto simp: smtp_react_def Let_def small_change_def split: if_splits option.splits)

lemma loop_settled: "settled e (smtp_loop hostname queue_id sends e reads)"
proof (induction hostname queue_id sends e reads rule: smtp_loop.induct)
  case (1 hostname queue_id sends e reads)
  show ?case
  proof (cases "read_line reads")
    case None
    then show ?thesis by (simp add: smtp_loop.simps [of _ _ _ _ reads])
  next
    case (Some lr)
    obtain line rest where lr: "lr = (line, rest)" by (cases lr)
    note IH = 1 [OF Some lr [symmetric]]
    show ?thesis
    proof (cases "smtp_react hostname e line")
      case (Replies e1 out)
      then show ?thesis using Some lr IH(1) [OF Replies] react_change [OF Replies]
        by (auto simp: smtp_loop.simps [of _ _ _ _ reads])
    next
      case ReadData
      obtain m rest1 where m: "read_data True no_message rest = (m, rest1)"
        by (cases "read_data True no_message rest")
      have "sends \<noteq> 0 \<Longrightarrow> sends \<noteq> 1 \<Longrightarrow> settled (reset_envelope e) (smtp_loop hostname queue_id (sends - 2) (reset_envelope e) rest1)"
        using IH(2) [OF ReadData _ refl m [symmetric]] .
      then show ?thesis using Some lr ReadData m by (auto simp: smtp_loop.simps [of _ _ _ _ reads])
    next
      case Quit
      then show ?thesis using Some lr by (simp add: smtp_loop.simps [of _ _ _ _ reads])
    qed
  qed
qed

lemma connection_settled:
  "settled \<lparr>en_mail_from = None, en_rcpts = [], en_helo = None\<rparr> (smtp_connection cfg queue_id sends reads)"
  unfolding smtp_connection_def Let_def settled_sent
  by (simp add: loop_settled)

definition added_rcpts :: "smtp_event \<Rightarrow> string list" where
  "added_rcpts ev = (case ev of Changed a b \<Rightarrow> drop (length (en_rcpts a)) (en_rcpts b) | _ \<Rightarrow> [])"

definition noted_rcpts :: "smtp_event \<Rightarrow> string list" where
  "noted_rcpts ev = (case ev of Noted n \<Rightarrow> en_rcpts (mn_envelope n) | _ \<Rightarrow> [])"

definition withdraws :: "smtp_event \<Rightarrow> bool" where
  "withdraws ev = (case ev of Changed a b \<Rightarrow> length (en_rcpts b) < length (en_rcpts a) | _ \<Rightarrow> False)"

lemma settled_rcpts:
  "settled e es \<Longrightarrow> \<not> list_ex withdraws es \<Longrightarrow>
     concat (map noted_rcpts es) = en_rcpts e @ concat (map added_rcpts es)"
proof (induction e es rule: settled.induct)
  case (3 e a b es)
  have "en_rcpts b = en_rcpts a @ drop (length (en_rcpts a)) (en_rcpts b)"
    using 3(2,3) by (auto simp: small_change_def withdraws_def reset_envelope_def)
  then show ?case using 3 by (simp add: noted_rcpts_def added_rcpts_def)
qed (auto simp: noted_rcpts_def added_rcpts_def reset_envelope_def open_envelope_def)

text \<open>Unless the client withdraws recipients itself with \<open>RSET\<close>, every recipient the listener accepted is
  in exactly one of the transactions it records, in the order given, wherever the connection breaks
  off: in the middle of a message, before it, or while a reply is being written.\<close>

theorem recipients_recorded:
  assumes "\<not> list_ex withdraws (smtp_connection cfg queue_id sends reads)"
  shows "concat (map noted_rcpts (smtp_connection cfg queue_id sends reads))
       = concat (map added_rcpts (smtp_connection cfg queue_id sends reads))"
  using settled_rcpts [OF connection_settled assms] by simp

section \<open>Every sender is served\<close>

definition serves :: "smtp_event \<Rightarrow> bool" where
  "serves ev =
     (case ev of Sent l \<Rightarrow>
        take 3 l \<in> {''220'', ''221'', ''250'', ''252'', ''354''} \<or> l = ''502 5.5.1 Error: command not implemented''
      | _ \<Rightarrow> True)"

lemma serves_simps [simp]:
  "serves (Changed a b)" "serves (Noted n)" "serves (Sent ''354 End data with <CR><LF>.<CR><LF>'')"
  by (simp_all add: serves_def)

lemma react_serves:
  "smtp_react hostname e line = Replies e1 out \<Longrightarrow> list_all serves (map Sent out)"
  by (auto simp: smtp_react_def Let_def serves_def split: if_splits)

lemma list_all_take: "list_all P (map f xs) \<Longrightarrow> list_all P (map f (take n xs))"
  by (auto simp: list_all_iff dest: in_set_takeD)

lemma loop_serves: "list_all serves (smtp_loop hostname queue_id sends e reads)"
proof (induction hostname queue_id sends e reads rule: smtp_loop.induct)
  case (1 hostname queue_id sends e reads)
  have close: "list_all serves (close_events x)" for x by (simp add: close_events_def serves_def)
  show ?case
  proof (cases "read_line reads")
    case None
    then show ?thesis by (simp add: smtp_loop.simps [of _ _ _ _ reads] close)
  next
    case (Some lr)
    obtain line rest where lr: "lr = (line, rest)" by (cases lr)
    note IH = 1 [OF Some lr [symmetric]]
    show ?thesis
    proof (cases "smtp_react hostname e line")
      case (Replies e1 out)
      then show ?thesis using Some lr IH(1) [OF Replies] list_all_take [OF react_serves [OF Replies]] close
        by (auto simp: smtp_loop.simps [of _ _ _ _ reads])
    next
      case ReadData
      obtain m rest1 where m: "read_data True no_message rest = (m, rest1)"
        by (cases "read_data True no_message rest")
      have "sends \<noteq> 0 \<Longrightarrow> sends \<noteq> 1 \<Longrightarrow> list_all serves (smtp_loop hostname queue_id (sends - 2) (reset_envelope e) rest1)"
        using IH(2) [OF ReadData _ refl m [symmetric]] .
      moreover have "list_all serves (map Sent (take n [''250 2.0.0 Ok: queued as '' @ queue_id]))" for n
        by (rule list_all_take) (simp add: serves_def)
      ultimately show ?thesis using Some lr ReadData m close
        by (auto simp: smtp_loop.simps [of _ _ _ _ reads])
    next
      case Quit
      moreover have "list_all serves (map Sent (take sends [''221 2.0.0 Bye'']))"
        by (rule list_all_take) (simp add: serves_def)
      ultimately show ?thesis using Some lr close by (simp add: smtp_loop.simps [of _ _ _ _ reads])
    qed
  qed
qed

text \<open>On every connection, whatever is sent, each reply is one of the positive codes, or the refusal of
  \<open>STARTTLS\<close> and \<open>AUTH\<close>: no command of a mail transaction is ever refused.\<close>

theorem replies_positive: "list_all serves (smtp_connection cfg queue_id sends reads)"
proof -
  have "list_all serves (map Sent (take sends [''220 '' @ mail_hostname cfg @ '' ESMTP Postfix'']))"
    by (rule list_all_take) (simp add: serves_def)
  moreover have "list_all serves (close_events x)" for x by (simp add: close_events_def serves_def)
  ultimately show ?thesis using loop_serves by (simp add: smtp_connection_def Let_def)
qed

section \<open>Whose mail it is\<close>

definition rcpt_domain :: "string \<Rightarrow> string option" where
  "rcpt_domain r = snd (address_parts (Some r))"

lemma rcpt_domain_truthy: "rcpt_domain r = Some d \<Longrightarrow> d \<noteq> []"
  by (auto simp: rcpt_domain_def address_parts_def Let_def split: if_splits)

lemma rcpt_step_fields:
  "mf_host (rcpt_step zone f r) = (if truthy (mf_host f) \<or> rcpt_domain r = None then mf_host f else rcpt_domain r)"
  "mf_owned (rcpt_step zone f r) =
     (case rcpt_domain r of None \<Rightarrow> mf_owned f
      | Some d \<Rightarrow> if inside_zone d zone then Some True else if mf_owned f = None then Some False else mf_owned f)"
  by (auto simp: rcpt_step_def rcpt_domain_def Let_def case_prod_beta split: option.splits)

lemma fold_owned:
  "mf_owned (foldl (rcpt_step zone) f rs) = Some True \<longleftrightarrow>
     mf_owned f = Some True \<or> (\<exists>r\<in>set rs. \<exists>d. rcpt_domain r = Some d \<and> inside_zone d zone)"
  by (induction rs arbitrary: f) (auto simp: rcpt_step_fields split: option.splits)

lemma fold_unowned:
  "mf_owned (foldl (rcpt_step zone) f rs) = None \<longleftrightarrow> mf_owned f = None \<and> (\<forall>r\<in>set rs. rcpt_domain r = None)"
  by (induction rs arbitrary: f) (auto simp: rcpt_step_fields split: option.splits)

lemma fold_host:
  "mf_host (foldl (rcpt_step zone) f rs) =
     (if truthy (mf_host f) then mf_host f
      else case List.map_filter rcpt_domain rs of [] \<Rightarrow> mf_host f | d # _ \<Rightarrow> Some d)"
proof (induction rs arbitrary: f)
  case (Cons r rs)
  then show ?case using rcpt_domain_truthy [of r]
    by (auto simp: rcpt_step_fields List.map_filter_simps truthy_def split: option.splits list.splits)
qed (simp add: List.map_filter_simps)

text \<open>A transaction is one of the zone we own exactly when some recipient is in it, and is a foreign one
  when there are recipients with a domain but none of it; the host that the attribution joins on is
  the domain of the first recipient that has one.\<close>

theorem mail_ownership:
  "(rq_owned (mail_request cfg ip n) = Some True \<longleftrightarrow>
      (\<exists>r d. r \<in> set (en_rcpts (mn_envelope n)) \<and> rcpt_domain r = Some d \<and> inside_zone d (owned_zone cfg)))
   \<and> (rq_owned (mail_request cfg ip n) = None \<longleftrightarrow> List.map_filter rcpt_domain (en_rcpts (mn_envelope n)) = [])
   \<and> rq_host (mail_request cfg ip n) =
      (case List.map_filter rcpt_domain (en_rcpts (mn_envelope n)) of [] \<Rightarrow> None | d # _ \<Rightarrow> Some d)"
proof -
  let ?rs = "en_rcpts (mn_envelope n)"
  let ?f = "foldl (rcpt_step (owned_zone cfg)) \<lparr>mf_candidates = [], mf_owned = None, mf_host = None\<rparr> ?rs"
  have q: "rq_owned (mail_request cfg ip n) = mf_owned ?f" "rq_host (mail_request cfg ip n) = mf_host ?f"
    by (simp_all add: mail_request_def mail_findings_def Let_def case_prod_beta)
  have "List.map_filter rcpt_domain rs = [] \<longleftrightarrow> (\<forall>r\<in>set rs. rcpt_domain r = None)" for rs
    by (induction rs) (auto simp: List.map_filter_simps split: option.splits)
  then have "mf_owned ?f = None \<longleftrightarrow> List.map_filter rcpt_domain ?rs = []" by (simp add: fold_unowned)
  moreover have "mf_owned ?f = Some True \<longleftrightarrow>
      (\<exists>r d. r \<in> set ?rs \<and> rcpt_domain r = Some d \<and> inside_zone d (owned_zone cfg))"
    by (auto simp: fold_owned)
  moreover have "mf_host ?f = (case List.map_filter rcpt_domain ?rs of [] \<Rightarrow> None | d # _ \<Rightarrow> Some d)"
    by (simp add: fold_host truthy_def cong: list.case_cong)
  ultimately show ?thesis unfolding q by blast
qed

section \<open>An example\<close>

definition mail_line :: "string \<Rightarrow> bytes option" where
  "mail_line s = Some (latin1_encode s @ [13, 10])"

abbreviation demo_mail :: reads where
  "demo_mail \<equiv> map mail_line [''MAIL FROM:<a@b.example>'', ''RCPT TO:<shop0031@x.example>'', ''DATA'', ''Subject: hi'', [], ''.'',
     ''RCPT TO:<c@d.example>'']"

theorem recipients_recorded_witness:
  "concat (map noted_rcpts (smtp_connection demo_cfg ''1F'' 99 demo_mail)) = [''shop0031@x.example'', ''c@d.example'']
   \<and> concat (map noted_rcpts (smtp_connection demo_cfg ''1F'' 99 demo_mail))
      = concat (map added_rcpts (smtp_connection demo_cfg ''1F'' 99 demo_mail))"
proof
  have "\<not> list_ex withdraws (smtp_connection demo_cfg ''1F'' 99 demo_mail)" by code_simp
  then show "concat (map noted_rcpts (smtp_connection demo_cfg ''1F'' 99 demo_mail))
      = concat (map added_rcpts (smtp_connection demo_cfg ''1F'' 99 demo_mail))"
    by (rule recipients_recorded)
qed code_simp

end
