(* ===== verification/Dns_Wire.thy ===== *)
theory Dns_Wire
  imports Bytes Ip_Address
begin

text \<open>
  \<open>platform/oob/src/edge_resolver/dnswire.py\<close>: names with compression pointers, queries, the
  responses the resolver writes and the answers it reads from the upstream server. The fields
  that \<open>struct\<close> packs as \<open>!H\<close> are 16-bit words; what is raised is the left value of a sum: a
  \<open>DnsFormatError\<close>, what \<open>struct.pack\<close> raises on a value that exceeds its field (\<open>FieldOverflow\<close>), or
  what \<open>inet_aton\<close> raises on a text that is no address (\<open>BadAddress\<close>).
\<close>

section \<open>Names\<close>

datatype dns_error =
    PointerLoop | NameOverrun | TruncatedPointer | ReservedLabel byte | LabelOverrun
  | ShortMessage | TruncatedQuestion | TruncatedHeader | TruncatedData | LongLabel
  | FieldOverflow | BadAddress

text \<open>The messages of the errors a reader can raise.\<close>

definition dns_error_text :: "dns_error \<Rightarrow> string" where
  "dns_error_text e =
     (case e of
        PointerLoop \<Rightarrow> ''compression pointer loop''
      | NameOverrun \<Rightarrow> ''name runs past end of message''
      | TruncatedPointer \<Rightarrow> ''truncated compression pointer''
      | ReservedLabel b \<Rightarrow> ''reserved label type 0x'' @ hex_byte (unat b)
      | LabelOverrun \<Rightarrow> ''label runs past end of message''
      | ShortMessage \<Rightarrow> ''message shorter than a DNS header''
      | TruncatedQuestion \<Rightarrow> ''truncated question''
      | TruncatedHeader \<Rightarrow> ''truncated record header''
      | TruncatedData \<Rightarrow> ''truncated record data''
      | LongLabel \<Rightarrow> ''label longer than 63 bytes''
      | _ \<Rightarrow> [])"

text \<open>The loop of \<open>parse_name\<close> at a position, with the depth of the pointers followed so far.\<close>

function name_at :: "bytes \<Rightarrow> nat \<Rightarrow> nat \<Rightarrow> dns_error + bytes list \<times> nat" where
  "name_at data depth pos =
     (if length data \<le> pos then Inl NameOverrun
      else
        let b = data ! pos; n = unat b in
        if b = 0 then Inr ([], pos + 1)
        else if b AND 0xC0 = 0xC0 then
          (if length data \<le> pos + 1 then Inl TruncatedPointer
           else if 10 < depth + 1 then Inl PointerLoop
           else bindE (name_at data (depth + 1) (unat (b AND 0x3F) * 256 + unat (data ! (pos + 1))))
                  (\<lambda>(sub, _). Inr (sub, pos + 2)))
        else if b AND 0xC0 \<noteq> 0 then Inl (ReservedLabel b)
        else if length data < pos + 1 + n then Inl LabelOverrun
        else bindE (name_at data depth (pos + 1 + n))
               (\<lambda>(ls, e). Inr (subrange data (pos + 1) (pos + 1 + n) # ls, e)))"
  by pat_completeness auto

termination
  by (relation "measures [\<lambda>(data, depth, pos). 11 - depth, \<lambda>(data, depth, pos). length data - pos]") auto

declare name_at.simps [simp del]

definition parse_name :: "bytes \<Rightarrow> nat \<Rightarrow> nat \<Rightarrow> dns_error + bytes list \<times> nat" where
  "parse_name data offset depth = (if 10 < depth then Inl PointerLoop else name_at data depth offset)"

definition label_bytes :: "bytes \<Rightarrow> bytes" where
  "label_bytes l = of_nat (length l) # l"

definition encode_labels :: "bytes list \<Rightarrow> dns_error + bytes" where
  "encode_labels ls =
     (if list_ex (\<lambda>l. 63 < length l) ls then Inl LongLabel
      else Inr (concat (map label_bytes ls) @ [0]))"

text \<open>\<open>encode_name\<close> of a text.\<close>

definition name_labels :: "string \<Rightarrow> bytes list" where
  "name_labels s = map latin1_encode (filter (\<lambda>p. p \<noteq> []) (split_char (CHR ''.'') (strip_chars ''.'' s)))"

definition encode_name :: "string \<Rightarrow> dns_error + bytes" where
  "encode_name s = encode_labels (name_labels s)"

definition dotted_name :: "bytes list \<Rightarrow> string" where
  "dotted_name ls = lower (join ''.'' (map latin1 ls))"

section \<open>Messages\<close>

type_synonym u16 = "16 word"

definition pack16 :: "u16 \<Rightarrow> bytes" where
  "pack16 w = be_bytes 2 (unat w)"

definition unpack16 :: "bytes \<Rightarrow> nat \<Rightarrow> u16" where
  "unpack16 data pos = of_nat (be_num (subrange data pos (pos + 2)))"

definition TYPE_A :: u16 where "TYPE_A = 1"
definition TYPE_NS :: u16 where "TYPE_NS = 2"
definition TYPE_SOA :: u16 where "TYPE_SOA = 6"
definition TYPE_MX :: u16 where "TYPE_MX = 15"
definition TYPE_TXT :: u16 where "TYPE_TXT = 16"
definition TYPE_ANY :: u16 where "TYPE_ANY = 255"

definition TYPE_NAMES :: "(u16 \<times> string) list" where
  "TYPE_NAMES =
     [(1, ''A''), (2, ''NS''), (5, ''CNAME''), (6, ''SOA''), (12, ''PTR''), (15, ''MX''), (16, ''TXT''), (28, ''AAAA''),
      (33, ''SRV''), (255, ''ANY'')]"

definition type_name :: "u16 \<Rightarrow> string" where
  "type_name t = (case map_of TYPE_NAMES t of None \<Rightarrow> ''TYPE'' @ dec_digits (unat t) | Some n \<Rightarrow> n)"

definition CLASS_IN :: u16 where "CLASS_IN = 1"
definition CLASS_ANY :: u16 where "CLASS_ANY = 255"
definition RCODE_NOERROR :: u16 where "RCODE_NOERROR = 0"
definition RCODE_FORMERR :: u16 where "RCODE_FORMERR = 1"
definition RCODE_SERVFAIL :: u16 where "RCODE_SERVFAIL = 2"
definition RCODE_NXDOMAIN :: u16 where "RCODE_NXDOMAIN = 3"
definition MAX_UDP :: nat where "MAX_UDP = 512"

record question =
  qn_labels :: "bytes list"
  qn_type :: u16
  qn_class :: u16

definition qn_name :: "question \<Rightarrow> string" where
  "qn_name q = dotted_name (qn_labels q)"

record dns_query =
  dq_txid :: u16
  dq_flags :: u16
  dq_question :: "question option"
  dq_qdcount :: u16
  dq_raw :: bytes
  dq_trailing :: bytes

definition dq_opcode :: "dns_query \<Rightarrow> u16" where
  "dq_opcode q = drop_bit 11 (dq_flags q) AND 0x0F"

definition dq_recursion :: "dns_query \<Rightarrow> bool" where
  "dq_recursion q = (dq_flags q AND 0x0100 \<noteq> 0)"

definition parse_question :: "bytes \<Rightarrow> nat \<Rightarrow> dns_error + question \<times> nat" where
  "parse_question data pos =
     bindE (parse_name data pos 0) (\<lambda>(ls, p).
       if length data < p + 4 then Inl TruncatedQuestion
       else Inr (\<lparr>qn_labels = ls, qn_type = unpack16 data p, qn_class = unpack16 data (p + 2)\<rparr>, p + 4))"

definition parse_query :: "bytes \<Rightarrow> dns_error + dns_query" where
  "parse_query data =
     (if length data < 12 then Inl ShortMessage
      else
        let txid = unpack16 data 0; flags = unpack16 data 2; qdcount = unpack16 data 4 in
        if qdcount = 0
        then Inr \<lparr>dq_txid = txid, dq_flags = flags, dq_question = None, dq_qdcount = 0, dq_raw = data,
                  dq_trailing = []\<rparr>
        else bindE (parse_question data 12) (\<lambda>(q, p).
          Inr \<lparr>dq_txid = txid, dq_flags = flags, dq_question = Some q, dq_qdcount = qdcount,
               dq_raw = data, dq_trailing = drop p data\<rparr>))"

definition header_bytes :: "u16 \<Rightarrow> u16 \<Rightarrow> u16 \<Rightarrow> u16 \<Rightarrow> u16 \<Rightarrow> bytes" where
  "header_bytes txid flags qd an ns =
     pack16 txid @ pack16 flags @ pack16 qd @ pack16 an @ pack16 ns @ pack16 0"

definition record_bytes :: "bytes \<Rightarrow> u16 \<Rightarrow> nat \<Rightarrow> bytes \<Rightarrow> bytes" where
  "record_bytes name rrtype ttl rdata =
     name @ pack16 rrtype @ pack16 CLASS_IN @ be_bytes 4 ttl @ pack16 (of_nat (length rdata)) @ rdata"

definition QNAME_POINTER :: bytes where "QNAME_POINTER = [0xC0, 0x0C]"

definition response_flags :: "dns_query \<Rightarrow> u16 \<Rightarrow> bool \<Rightarrow> u16" where
  "response_flags q rcode authoritative =
     0x8000 OR push_bit 11 (dq_opcode q AND 0x0F) OR (if authoritative then 0x0400 else 0)
     OR (if dq_recursion q then 0x0100 else 0) OR 0x0080 OR (rcode AND 0x0F)"

definition question_bytes :: "question option \<Rightarrow> dns_error + bytes" where
  "question_bytes q =
     (case q of
        None \<Rightarrow> Inr []
      | Some q \<Rightarrow> bindE (encode_labels (qn_labels q)) (\<lambda>n. Inr (n @ pack16 (qn_type q) @ pack16 (qn_class q))))"

text \<open>What \<open>struct.pack\<close> can write: it raises on a lifetime or a length that exceeds its field.\<close>

definition packs :: "nat \<Rightarrow> bytes \<Rightarrow> bool" where
  "packs ttl rdata = (length rdata < 65536 \<and> ttl < 4294967296)"

text \<open>The authority section: each entry with the name it belongs to.\<close>

fun authority_bytes :: "nat \<Rightarrow> (string \<times> u16 \<times> bytes) list \<Rightarrow> dns_error + bytes" where
  "authority_bytes ttl [] = Inr []"
| "authority_bytes ttl ((zone, rrtype, rdata) # rest) =
     bindE (encode_name zone) (\<lambda>n.
       if packs ttl rdata then bindE (authority_bytes ttl rest) (\<lambda>r. Inr (record_bytes n rrtype ttl rdata @ r))
       else Inl FieldOverflow)"

definition build_response ::
  "dns_query \<Rightarrow> (u16 \<times> bytes) list \<Rightarrow> (string \<times> u16 \<times> bytes) list \<Rightarrow> u16 \<Rightarrow> bool \<Rightarrow> nat \<Rightarrow>
   dns_error + bytes" where
  "build_response q answers authority rcode authoritative ttl =
     (let flags = response_flags q rcode authoritative; qd = (if dq_question q = None then 0 else 1) in
      bindE (question_bytes (dq_question q)) (\<lambda>qb.
      bindE (if list_all (packs ttl \<circ> snd) answers then authority_bytes ttl authority else Inl FieldOverflow) (\<lambda>ns.
        if 65536 \<le> length answers \<or> 65536 \<le> length authority then Inl FieldOverflow else
        let body = concat (map (\<lambda>(t, rdata). record_bytes QNAME_POINTER t ttl rdata) answers);
            message = header_bytes (dq_txid q) flags qd (of_nat (length answers)) (of_nat (length authority))
                        @ qb @ body @ ns
        in Inr (if MAX_UDP < length message
                then header_bytes (dq_txid q) (flags OR 0x0200) qd 0 0 @ qb else message))))"

definition build_format_error :: "bytes \<Rightarrow> bytes" where
  "build_format_error data =
     header_bytes (if 2 \<le> length data then unpack16 data 0 else 0) (0x8000 OR RCODE_FORMERR) 0 0 0"

text \<open>\<open>socket.inet_aton\<close>: up to four numbers, decimal, octal or hexadecimal, the last of which fills the
  octets that are left; what follows a white space is ignored.\<close>

definition aton_number :: "string \<Rightarrow> nat option" where
  "aton_number s =
     (let (base, digits) =
        (if startswith s ''0x'' \<or> startswith s ''0X'' then (16, drop 2 s)
         else if startswith s ''0'' \<and> s \<noteq> ''0'' then (8, s) else (10, s));
        nums = map hex_value digits
      in if digits \<noteq> [] \<and> list_all (\<lambda>v. v \<noteq> None \<and> the v < base) nums
         then Some (foldl (\<lambda>n v. base * n + the v) 0 nums) else None)"

definition aton :: "string \<Rightarrow> bytes option" where
  "aton s =
     (let parts = map aton_number (split_char (CHR ''.'')
              (takeWhile (\<lambda>c. \<not> (c = CHR '' '' \<or> (9 \<le> code c \<and> code c \<le> 13))) s));
          n = length parts; xs = map the parts
      in if None \<in> set parts \<or> 4 < n \<or> list_ex (\<lambda>x. 255 < x) (butlast xs) \<or> 256 ^ (5 - n) \<le> last xs then None
         else Some (map of_nat (butlast xs) @ be_bytes (5 - n) (last xs)))"

definition a_rdata :: "string \<Rightarrow> dns_error + bytes" where
  "a_rdata ip = (case aton ip of None \<Rightarrow> Inl BadAddress | Some b \<Rightarrow> Inr b)"

lemma length_aton:
  assumes "aton s = Some b"
  shows "length b = 4"
proof -
  define parts where "parts = map aton_number (split_char (CHR ''.'')
    (takeWhile (\<lambda>c. \<not> (c = CHR '' '' \<or> (9 \<le> code c \<and> code c \<le> 13))) s))"
  have "parts \<noteq> []" by (simp add: parts_def)
  then have "Suc 0 \<le> length parts" by (cases parts) simp_all
  moreover have "length parts \<le> 4" "b = map of_nat (butlast (map the parts)) @ be_bytes (5 - length parts) (last (map the parts))"
    using assms unfolding aton_def Let_def parts_def [symmetric] by (auto split: if_splits)
  ultimately show ?thesis by (simp only: length_append length_map length_butlast length_be_bytes)
qed

lemma aton_examples:
  "aton ''10.0.0.9'' = Some [10, 0, 0, 9]" "aton ''0x7f.0.010.1 x'' = Some [127, 0, 8, 1]"
  "aton ''256.0.0.1'' = None" "aton [] = None" "aton ''1.2.3.4.5'' = None" "aton ''08'' = None"
  by code_simp+

definition txt_rdata :: "bytes \<Rightarrow> bytes" where
  "txt_rdata encoded = (let payload = take 255 encoded in of_nat (length payload) # payload)"

definition soa_rdata :: "string \<Rightarrow> dns_error + bytes" where
  "soa_rdata zone =
     bindE (encode_name (''ns1.'' @ zone)) (\<lambda>m.
     bindE (encode_name (''hostmaster.'' @ zone)) (\<lambda>r.
       Inr (m @ r @ be_bytes 4 1 @ be_bytes 4 300 @ be_bytes 4 60 @ be_bytes 4 3600 @ be_bytes 4 30)))"

section \<open>Answers of another server\<close>

record dns_record =
  dr_name :: string
  dr_type :: u16
  dr_class :: u16
  dr_ttl :: nat
  dr_rdata :: bytes

record dns_response =
  rs_txid :: u16
  rs_flags :: u16
  rs_rcode :: u16
  rs_question :: "question option"
  rs_answers :: "dns_record list"

fun parse_questions :: "bytes \<Rightarrow> nat \<Rightarrow> nat \<Rightarrow> dns_error + question list \<times> nat" where
  "parse_questions data 0 pos = Inr ([], pos)"
| "parse_questions data (Suc n) pos =
     bindE (parse_question data pos) (\<lambda>(q, p).
       bindE (parse_questions data n p) (\<lambda>(qs, e). Inr (q # qs, e)))"

definition parse_record :: "bytes \<Rightarrow> nat \<Rightarrow> dns_error + dns_record \<times> nat" where
  "parse_record data pos =
     bindE (parse_name data pos 0) (\<lambda>(ls, p).
       if length data < p + 10 then Inl TruncatedHeader
       else
         let rdlength = unat (unpack16 data (p + 8)) in
         if length data < p + 10 + rdlength then Inl TruncatedData
         else Inr (\<lparr>dr_name = dotted_name ls, dr_type = unpack16 data p, dr_class = unpack16 data (p + 2),
                    dr_ttl = be_num (subrange data (p + 4) (p + 8)),
                    dr_rdata = subrange data (p + 10) (p + 10 + rdlength)\<rparr>, p + 10 + rdlength))"

fun parse_records :: "bytes \<Rightarrow> nat \<Rightarrow> nat \<Rightarrow> dns_error + dns_record list" where
  "parse_records data 0 pos = Inr []"
| "parse_records data (Suc n) pos =
     bindE (parse_record data pos) (\<lambda>(r, p).
       bindE (parse_records data n p) (\<lambda>rs. Inr (r # rs)))"

definition parse_response :: "bytes \<Rightarrow> dns_error + dns_response" where
  "parse_response data =
     (if length data < 12 then Inl ShortMessage
      else
        bindE (parse_questions data (unat (unpack16 data 4)) 12) (\<lambda>(qs, pos).
        bindE (parse_records data (unat (unpack16 data 6)) pos) (\<lambda>rs.
          Inr \<lparr>rs_txid = unpack16 data 0, rs_flags = unpack16 data 2, rs_rcode = unpack16 data 2 AND 0x0F,
               rs_question = (case qs of [] \<Rightarrow> None | q # _ \<Rightarrow> Some q), rs_answers = rs\<rparr>)))"

text \<open>\<open>Response.addresses\<close>: the A records, as 32-bit addresses.\<close>

definition rs_addresses :: "dns_response \<Rightarrow> int list" where
  "rs_addresses r =
     map (\<lambda>d. int (be_num (dr_rdata d)))
       (filter (\<lambda>d. dr_type d = TYPE_A \<and> length (dr_rdata d) = 4) (rs_answers r))"

definition build_query :: "string \<Rightarrow> u16 \<Rightarrow> u16 \<Rightarrow> dns_error + bytes" where
  "build_query name qtype txid =
     bindE (encode_name name) (\<lambda>n.
       Inr (header_bytes txid 0x0100 1 0 0 @ n @ pack16 qtype @ pack16 CLASS_IN))"

end
