(* ===== verification/Dns_Facts.thy ===== *)
theory Dns_Facts
  imports Dns_Wire
begin

text \<open>
  What the DNS codec guarantees: names and responses read back as written, wherever they stand in
  a message; names read from a message can be written again; a response is short or truncated;
  and an answer is read back whole by the reader used for the upstream server.
\<close>

section \<open>Fields\<close>

lemma unat_u16: "unat (w :: u16) < 256 ^ 2"
  using unsigned_less [where ?'a = nat, of w] by simp

lemma length_pack16 [simp]: "length (pack16 w) = 2"
  by (simp add: pack16_def)

lemma unpack16_at:
  "data = pre @ pack16 w @ post \<Longrightarrow> pos = length pre \<Longrightarrow> unpack16 data pos = w"
  using unat_u16 [of w] subrange_mid_at [of data pre "pack16 w" post pos "pos + 2"]
  by (simp add: unpack16_def) (simp add: pack16_def)

lemma length_header [simp]: "length (header_bytes a b c d e) = 12"
  by (simp add: header_bytes_def)

lemma header_fields:
  assumes "data = header_bytes a b c d e @ post"
  shows "unpack16 data 0 = a" "unpack16 data 2 = b" "unpack16 data 4 = c" "unpack16 data 6 = d"
proof -
  note data = assms [unfolded header_bytes_def append_assoc]
  show "unpack16 data 0 = a" by (rule unpack16_at [of _ "[]"]) (use data in simp_all)
  show "unpack16 data 2 = b" by (rule unpack16_at [of _ "pack16 a"]) (use data in simp_all)
  show "unpack16 data 4 = c" by (rule unpack16_at [of _ "pack16 a @ pack16 b"]) (use data in simp_all)
  show "unpack16 data 6 = d" by (rule unpack16_at [of _ "pack16 a @ pack16 b @ pack16 c"]) (use data in simp_all)
qed

section \<open>Names\<close>

definition label_ok :: "bytes \<Rightarrow> bool" where
  "label_ok l \<longleftrightarrow> l \<noteq> [] \<and> length l \<le> 63"

lemma small_byte:
  "list_all (\<lambda>n. (word_of_int n :: byte) AND 0xC0 = 0) [0..63]"
  "list_all (\<lambda>n. (word_of_int n :: byte) AND 0xC0 \<noteq> 0) [64..255]"
  by code_simp+

lemmas small_byte_bounds = small_byte [unfolded list_all_iff set_upto]

lemma length_byte:
  assumes "label_ok l"
  shows "(of_nat (length l) :: byte) \<noteq> 0" "(of_nat (length l) :: byte) AND 0xC0 = 0"
    "unat (of_nat (length l) :: byte) = length l"
proof -
  have n: "0 < length l" "length l \<le> 63" using assms by (simp_all add: label_ok_def)
  show u: "unat (of_nat (length l) :: byte) = length l" using n by (simp add: unat_of_nat_byte)
  then show "(of_nat (length l) :: byte) \<noteq> 0" using n by (metis unat_0 less_irrefl)
  show "(of_nat (length l) :: byte) AND 0xC0 = 0"
    using bspec [OF small_byte_bounds(1), of "int (length l)"] n by simp
qed

lemma byte_small: "(b :: byte) AND 0xC0 = 0 \<Longrightarrow> unat b \<le> 63"
proof (rule ccontr)
  assume a: "b AND 0xC0 = 0" "\<not> unat b \<le> 63"
  then have "int (unat b) \<in> {64..255}" 
    unfolding atLeastAtMost_iff using a(2) unat_byte [of b] by linarith
  from bspec [OF small_byte_bounds(2) this] have "(word_of_int (int (unat b)) :: byte) AND 0xC0 \<noteq> 0" .
  then show False using a(1) by simp
qed

definition name_bytes :: "bytes list \<Rightarrow> bytes" where
  "name_bytes ls = concat (map label_bytes ls) @ [0]"

lemma encode_labels_ok: "list_all label_ok ls \<Longrightarrow> encode_labels ls = Inr (name_bytes ls)"
  by (auto simp: encode_labels_def name_bytes_def label_ok_def list_all_iff list_ex_iff)

lemma name_at_bytes:
  "list_all label_ok ls \<Longrightarrow>
   name_at (pre @ name_bytes ls @ post) depth (length pre) = Inr (ls, length pre + length (name_bytes ls))"
proof (induction ls arbitrary: pre)
  case Nil
  then show ?case by (simp add: name_at.simps name_bytes_def nth_append)
next
  case (Cons l ls)
  let ?data = "pre @ label_bytes l @ name_bytes ls @ post"
  have l: "label_ok l" using Cons.prems by simp
  have data: "pre @ name_bytes (l # ls) @ post = ?data" by (simp add: name_bytes_def)
  have pos: "length (pre @ label_bytes l) = length pre + 1 + length l" by (simp add: label_bytes_def)
  have "name_at ((pre @ label_bytes l) @ name_bytes ls @ post) depth (length (pre @ label_bytes l))
      = Inr (ls, length (pre @ label_bytes l) + length (name_bytes ls))"
    by (rule Cons.IH) (use Cons.prems in simp)
  then have rest: "name_at ?data depth (length pre + 1 + length l)
      = Inr (ls, length pre + 1 + length l + length (name_bytes ls))"
    unfolding pos by simp
  have mid: "subrange ?data (length pre + 1) (length pre + 1 + length l) = l"
    by (rule subrange_mid_at [of _ "pre @ [of_nat (length l)]" _ "name_bytes ls @ post"]) (simp_all add: label_bytes_def)
  have here: "?data ! length pre = of_nat (length l)" by (simp add: nth_append label_bytes_def)
  have long: "\<not> length ?data \<le> length pre" "\<not> length ?data < length pre + 1 + length l"
    by (simp_all add: label_bytes_def)
  have zero: "((0 :: byte) = 0xC0) = False" by simp
  have "name_at ?data depth (length pre) = Inr (l # ls, length pre + 1 + length l + length (name_bytes ls))"
    by (subst name_at.simps)
       (simp only: here length_byte [OF l] long Let_def if_False if_True mid rest bindE_simps prod.case
          not_False_eq_True simp_thms zero)
  then show ?case unfolding data by (simp add: name_bytes_def label_bytes_def)
qed

text \<open>Names as an encoder and a decoder that works inside of a message.\<close>

interpretation dns_name: buffer_codec name_bytes "\<lambda>data pos. parse_name data pos 0" "list_all label_ok"
  by unfold_locales (simp add: parse_name_def name_at_bytes)

lemma name_at_sound:
  "name_at data depth pos = Inr (ls, e) \<Longrightarrow> list_all label_ok ls \<and> pos < e \<and> e \<le> length data"
proof (induction data depth pos arbitrary: ls e rule: name_at.induct)
  case (1 data depth pos)
  let ?b = "data ! pos"
  consider (stop) "?b = 0" | (jump) "?b \<noteq> 0" "?b AND 0xC0 = 0xC0"
    | (label) "?b \<noteq> 0" "?b AND 0xC0 \<noteq> 0xC0" "?b AND 0xC0 = 0" | (bad) "?b \<noteq> 0" "?b AND 0xC0 \<noteq> 0xC0" "?b AND 0xC0 \<noteq> 0"
    by blast
  then show ?case
  proof cases
    case stop
    then show ?thesis using "1.prems" by (subst (asm) name_at.simps) (auto split: if_splits)
  next
    case jump
    then obtain sub e' where s: "pos + 1 < length data" "depth + 1 \<le> 10"
      "name_at data (depth + 1) (unat (?b AND 0x3F) * 256 + unat (data ! (pos + 1))) = Inr (sub, e')"
      "ls = sub" "e = pos + 2"
      using "1.prems" by (subst (asm) name_at.simps) (auto simp: Let_def bindE_Inr_iff split: if_splits)
    then have "list_all label_ok sub" using "1.IH"(1) [OF _ refl refl _ _ _ _ s(3)] jump by simp
    then show ?thesis using s by simp
  next
    case label
    then obtain more_ls where s: "pos + 1 + unat ?b \<le> length data"
      "name_at data depth (pos + 1 + unat ?b) = Inr (more_ls, e)"
      "ls = subrange data (pos + 1) (pos + 1 + unat ?b) # more_ls"
      using "1.prems" by (subst (asm) name_at.simps) (auto simp: Let_def bindE_Inr_iff split: if_splits)
    then have "list_all label_ok more_ls \<and> pos + 1 + unat ?b < e \<and> e \<le> length data"
      using "1.IH"(2) [OF _ refl refl _ _ _ _ s(2)] label by simp
    moreover have "unat ?b \<noteq> 0" using label(1) by (simp add: unat_eq_0)
    then have "label_ok (subrange data (pos + 1) (pos + 1 + unat ?b))"
      using s(1) byte_small [OF label(3)] by (auto simp: label_ok_def simp flip: length_0_conv)
    ultimately show ?thesis using s(3) by simp
  next
    case bad
    then show ?thesis using "1.prems" by (subst (asm) name_at.simps) (auto simp: Let_def split: if_splits)
  qed
qed

section \<open>Questions\<close>

definition question_ok :: "question \<Rightarrow> bool" where
  "question_ok q \<longleftrightarrow> list_all label_ok (qn_labels q)"

definition written_question :: "question \<Rightarrow> bytes" where
  "written_question q = name_bytes (qn_labels q) @ pack16 (qn_type q) @ pack16 (qn_class q)"

lemma question_bytes_ok: "question_ok q \<Longrightarrow> question_bytes (Some q) = Inr (written_question q)"
  by (simp add: question_bytes_def question_ok_def encode_labels_ok written_question_def)

lemma parse_question_at:
  assumes "question_ok q" and "data = pre @ written_question q @ post" and "pos = length pre"
  shows "parse_question data pos = Inr (q, pos + length (written_question q))"
proof -
  let ?n = "name_bytes (qn_labels q)"
  have "parse_name data pos 0 = Inr (qn_labels q, pos + length ?n)"
    by (rule dns_name.dec_at [of _ _ pre]) (use assms in \<open>simp_all add: question_ok_def written_question_def\<close>)
  moreover have "unpack16 data (pos + length ?n) = qn_type q"
    by (rule unpack16_at [of _ "pre @ ?n"]) (use assms in \<open>simp_all add: written_question_def\<close>)
  moreover have "unpack16 data (pos + length ?n + 2) = qn_class q"
    by (rule unpack16_at [of _ "pre @ ?n @ pack16 (qn_type q)"])
       (use assms in \<open>simp_all add: written_question_def\<close>)
  ultimately show ?thesis
    using assms(2,3) by (simp add: parse_question_def written_question_def)
qed

lemma parse_question_sound:
  assumes "parse_question data pos = Inr (q, e)" shows "question_ok q" and "e \<le> length data"
proof -
  obtain ls p where n: "parse_name data pos 0 = Inr (ls, p)" "p + 4 \<le> length data" "qn_labels q = ls" "e = p + 4"
    using assms by (auto simp: parse_question_def bindE_Inr_iff split: if_splits)
  then show "question_ok q" "e \<le> length data"
    using name_at_sound [of data 0 pos ls p] by (simp_all add: parse_name_def question_ok_def)
qed

lemma parse_query_question:
  assumes "parse_query data = Inr q" and "dq_question q = Some qn" shows "question_ok qn"
  using assms parse_question_sound(1) by (auto simp: parse_query_def Let_def bindE_Inr_iff split: if_splits)

lemma answerable:
  assumes "parse_query data = Inr q" and "list_all (packs ttl \<circ> snd) answers" and "length answers < 65536"
  shows "\<exists>m. build_response q answers [] rcode authoritative ttl = Inr m"
proof -
  have "\<exists>b. question_bytes (dq_question q) = Inr b"
    using question_bytes_ok parse_query_question [OF assms(1)]
    by (cases "dq_question q") (auto simp: question_bytes_def)
  then show ?thesis using assms(2,3) by (auto simp: build_response_def Let_def)
qed

text \<open>Every query that can be read can be answered: whatever pointers its name is made of, the
  labels read from it are labels that can be written again, so building a response whose answers
  fit their fields never fails.\<close>

theorem parsed_query_answerable:
  assumes "parse_query data = Inr q" and "list_all (packs ttl \<circ> snd) answers" and "length answers < 65536"
  shows "\<exists>m. build_response q answers [] rcode authoritative ttl = Inr m"
  using assms by (rule answerable)

section \<open>Responses\<close>

lemma flag_bits:
  fixes x :: u16
  shows "(push_bit 11 x :: u16) AND 0x0F = 0" "(push_bit 11 x :: u16) AND 0x0200 = 0"
proof -
  have "(push_bit 11 x :: u16) AND mask 4 = 0"
    by (rule bit_word_eqI) (auto simp: bit_simps)
  then show "(push_bit 11 x :: u16) AND 0x0F = 0" by (simp add: mask_eq_exp_minus_1)
  have "(push_bit 11 x :: u16) AND 2 ^ 9 = 0"
    by (simp only: and_exp_eq_0_iff_not_bit) (simp add: bit_simps)
  then show "(push_bit 11 x :: u16) AND 0x0200 = 0" by simp
qed

lemma response_flags_low: "response_flags q rcode authoritative AND 0x0F = rcode AND 0x0F"
  using flag_bits(1) [of "dq_opcode q AND 0x0F"]
  by (simp add: response_flags_def bit.conj_disj_distrib2 and.assoc)

lemma response_flags_untruncated: "response_flags q rcode authoritative AND 0x0200 = 0"
  using flag_bits(2) [of "dq_opcode q AND 0x0F"]
  by (simp add: response_flags_def bit.conj_disj_distrib2 and.assoc)

lemma truncated_bit: "((w :: u16) OR 0x0200) AND 0x0200 = 0x0200"
  by (rule bit_word_eqI) (auto simp: bit_and_iff bit_or_iff)

lemma unat_of_nat_u16: "n < 65536 \<Longrightarrow> unat (of_nat n :: u16) = n"
  by (simp add: unat_of_nat)

definition answer_bytes :: "nat \<Rightarrow> (u16 \<times> bytes) list \<Rightarrow> bytes" where
  "answer_bytes ttl answers = concat (map (\<lambda>(t, d). record_bytes QNAME_POINTER t ttl d) answers)"

definition answer_record :: "bytes list \<Rightarrow> nat \<Rightarrow> u16 \<times> bytes \<Rightarrow> dns_record" where
  "answer_record ls ttl a =
     \<lparr>dr_name = dotted_name ls, dr_type = fst a, dr_class = CLASS_IN, dr_ttl = ttl, dr_rdata = snd a\<rparr>"

text \<open>The pointer that every answer uses for its name leads to the name of the question.\<close>

lemma parse_pointer_at:
  assumes "list_all label_ok ls" and "data = head @ name_bytes ls @ tail1" and "length head = 12"
    and "data = pre @ QNAME_POINTER @ tail2" and "pos = length pre"
  shows "parse_name data pos 0 = Inr (ls, pos + 2)"
proof -
  have "name_at data 1 12 = Inr (ls, 12 + length (name_bytes ls))"
    using name_at_bytes [OF assms(1), of head tail1 1] assms(2,3) by simp
  moreover have "data ! pos = 0xC0" "data ! Suc pos = 0x0C" "Suc pos < length data"
    using assms(4,5) by (simp_all add: QNAME_POINTER_def nth_append)
  ultimately show ?thesis
    by (simp add: parse_name_def name_at.simps [of data 0 pos] Let_def)
qed

lemma parse_record_at:
  assumes "list_all label_ok ls" and "data = head @ name_bytes ls @ tail1" and "length head = 12"
    and "data = pre @ record_bytes QNAME_POINTER t ttl d @ post" and "pos = length pre"
    and "length d < 65536" and "ttl < 256 ^ 4"
  shows "parse_record data pos = Inr (answer_record ls ttl (t, d), pos + 12 + length d)"
proof -
  let ?q = "QNAME_POINTER" and ?n = "of_nat (length d) :: u16"
  note data = assms(4) [unfolded record_bytes_def append_assoc]
  have ptr: "parse_name data pos 0 = Inr (ls, pos + 2)"
    by (rule parse_pointer_at [OF assms(1-3) data assms(5)])
  have len2: "length ?q = 2" by (simp add: QNAME_POINTER_def)
  have t: "unpack16 data (pos + 2) = t"
    by (rule unpack16_at [of _ "pre @ ?q"]) (use data assms(5) len2 in simp_all)
  have c: "unpack16 data (pos + 2 + 2) = CLASS_IN"
    by (rule unpack16_at [of _ "pre @ ?q @ pack16 t"]) (use data assms(5) len2 in simp_all)
  have "subrange data (pos + 2 + 4) (pos + 2 + 8) = be_bytes 4 ttl"
    by (rule subrange_mid_at [of _ "pre @ ?q @ pack16 t @ pack16 CLASS_IN"]) (use data assms(5) len2 in simp_all)
  then have ttl: "be_num (subrange data (pos + 2 + 4) (pos + 2 + 8)) = ttl" using assms(7) by simp
  have n: "unpack16 data (pos + 2 + 8) = ?n"
    by (rule unpack16_at [of _ "pre @ ?q @ pack16 t @ pack16 CLASS_IN @ be_bytes 4 ttl"])
       (use data assms(5) len2 in simp_all)
  have d: "subrange data (pos + 2 + 10) (pos + 2 + 10 + length d) = d"
    by (rule subrange_mid_at [of _ "pre @ ?q @ pack16 t @ pack16 CLASS_IN @ be_bytes 4 ttl @ pack16 ?n"])
       (use data assms(5) len2 in simp_all)
  have long: "pos + 12 + length d \<le> length data" using data assms(5) len2 by simp
  then have fits: "\<not> length data < pos + 2 + 10" "\<not> length data < pos + 2 + 10 + length d" by simp_all
  show ?thesis
    unfolding parse_record_def ptr bindE_simps prod.case Let_def n unat_of_nat_u16 [OF assms(6)] t c ttl d
      if_not_P [OF fits(1)] if_not_P [OF fits(2)]
    by (simp add: answer_record_def)
qed

lemma parse_records_at:
  assumes ls: "list_all label_ok ls" and ttl: "ttl < 256 ^ 4"
  shows "list_all (\<lambda>a. length (snd a) < 65536) answers \<Longrightarrow>
    data = head @ name_bytes ls @ tail1 \<Longrightarrow> length head = 12 \<Longrightarrow>
    data = pre @ answer_bytes ttl answers @ post \<Longrightarrow> pos = length pre \<Longrightarrow>
    parse_records data (length answers) pos = Inr (map (answer_record ls ttl) answers)"
proof (induction answers arbitrary: pre pos)
  case (Cons a answers)
  obtain t d where a: "a = (t, d)" by (cases a)
  have data: "data = pre @ record_bytes QNAME_POINTER t ttl d @ answer_bytes ttl answers @ post"
    using Cons.prems(4) by (simp add: a answer_bytes_def)
  have d: "length d < 65536" using Cons.prems(1) by (simp add: a)
  have len: "length (pre @ record_bytes QNAME_POINTER t ttl d) = pos + 12 + length d"
    using Cons.prems(5) by (simp add: record_bytes_def QNAME_POINTER_def)
  have "parse_record data pos = Inr (answer_record ls ttl a, pos + 12 + length d)"
    using parse_record_at [OF ls Cons.prems(2,3) data Cons.prems(5) d ttl] by (simp add: a)
  moreover have "parse_records data (length answers) (pos + 12 + length d) = Inr (map (answer_record ls ttl) answers)"
    by (rule Cons.IH [of "pre @ record_bytes QNAME_POINTER t ttl d"])
       (use Cons.prems data len in simp_all)
  ultimately show ?case by simp
qed simp

lemma build_response_cases:
  assumes "build_response q answers authority rcode authoritative ttl = Inr m" and "dq_question q = Some qn"
    and "question_ok qn"
  obtains (whole) ns where "m = header_bytes (dq_txid q) (response_flags q rcode authoritative) 1
        (of_nat (length answers)) (of_nat (length authority)) @ written_question qn @ answer_bytes ttl answers @ ns"
      "length m \<le> MAX_UDP"
  | (truncated) "m = header_bytes (dq_txid q) (response_flags q rcode authoritative OR 0x0200) 1 0 0
        @ written_question qn"
  using assms question_bytes_ok [OF assms(3)]
  by (auto simp: build_response_def Let_def bindE_Inr_iff answer_bytes_def split: if_splits)

lemma build_response_packs:
  assumes "build_response q answers authority rcode authoritative ttl = Inr m"
  shows "list_all (packs ttl \<circ> snd) answers" "length answers < 65536"
  using assms by (auto simp: build_response_def Let_def bindE_Inr_iff split: if_splits)

lemma response_parses:
  assumes "build_response q answers authority rcode authoritative ttl = Inr m"
    and "dq_question q = Some qn" and "question_ok qn"
    and "unpack16 m 2 AND 0x0200 = 0"
  shows "parse_response m = Inr \<lparr>rs_txid = dq_txid q, rs_flags = response_flags q rcode authoritative,
    rs_rcode = rcode AND 0x0F, rs_question = Some qn,
    rs_answers = map (answer_record (qn_labels qn) ttl) answers\<rparr>"
  using assms(1-3)
proof (cases rule: build_response_cases)
  case (truncated)
  have "unpack16 m 2 = response_flags q rcode authoritative OR 0x0200"
    by (rule header_fields(2)) (rule truncated)
  then show ?thesis using assms(4) truncated_bit [of "response_flags q rcode authoritative"] by simp
next
  case (whole ns)
  let ?ls = "qn_labels qn"
  let ?head = "header_bytes (dq_txid q) (response_flags q rcode authoritative) 1
        (of_nat (length answers)) (of_nat (length authority))"
  let ?rest = "answer_bytes ttl answers @ ns"
  have m: "m = ?head @ written_question qn @ ?rest" using whole(1) by simp
  note fields_m = header_fields [OF m]
  have q: "parse_question m 12 = Inr (qn, 12 + length (written_question qn))"
    by (rule parse_question_at [OF assms(3) m]) simp
  have fit: "list_all (\<lambda>a. length (snd a) < 65536) answers"
    using build_response_packs(1) [OF assms(1)] by (simp add: list_all_iff packs_def)
  have rs: "parse_records m (length answers) (12 + length (written_question qn))
      = Inr (map (answer_record ?ls ttl) answers)"
  proof (cases "answers = []")
    case False
    then have ttl: "ttl < 256 ^ 4" using build_response_packs(1) [OF assms(1)] by (cases answers) (simp_all add: packs_def)
    show ?thesis
    proof (rule parse_records_at [OF _ ttl fit])
      show "list_all label_ok ?ls" using assms(3) by (simp add: question_ok_def)
      show "m = ?head @ name_bytes ?ls @ pack16 (qn_type qn) @ pack16 (qn_class qn) @ ?rest"
        using m by (simp add: written_question_def)
      show "m = (?head @ written_question qn) @ answer_bytes ttl answers @ ns" using m by simp
    qed simp_all
  qed simp
  have one: "parse_questions m 1 12 = Inr ([qn], 12 + length (written_question qn))" using q by simp
  have "\<not> length m < 12" using m by simp
  then show ?thesis
    unfolding parse_response_def fields_m
    using one rs unat_of_nat_u16 [OF build_response_packs(2) [OF assms(1)]] response_flags_low [of q rcode authoritative]
    by simp
qed

text \<open>A response that is not marked as truncated is read back whole by the reader used for the
  upstream server: the id of the query, its question, the response code and every answer with
  its type, lifetime and data under the queried name.\<close>

theorem response_roundtrip:
  assumes "build_response q answers authority rcode authoritative ttl = Inr m"
    and "dq_question q = Some qn" and "question_ok qn"
    and "unpack16 m 2 AND 0x0200 = 0"
  shows "parse_response m = Inr \<lparr>rs_txid = dq_txid q, rs_flags = response_flags q rcode authoritative,
    rs_rcode = rcode AND 0x0F, rs_question = Some qn,
    rs_answers = map (answer_record (qn_labels qn) ttl) answers\<rparr>"
  using assms by (rule response_parses)

text \<open>A response over UDP is at most 512 octets, or it is marked as truncated and is the header with the
  question and nothing else.\<close>

theorem response_bounded:
  assumes "build_response q answers authority rcode authoritative ttl = Inr m"
    and "dq_question q = Some qn" and "question_ok qn"
  shows "length m \<le> 512 \<or>
    m = header_bytes (dq_txid q) (response_flags q rcode authoritative OR 0x0200) 1 0 0 @ written_question qn"
  using assms by (cases rule: build_response_cases) (simp_all add: MAX_UDP_def)

section \<open>A concrete exchange\<close>

definition shop_question :: question where
  "shop_question =
     \<lparr>qn_labels = [[0x73, 0x68, 0x6F, 0x70], [0x66, 0x75, 0x6E]], qn_type = TYPE_A, qn_class = CLASS_IN\<rparr>"

definition shop_query :: dns_query where
  "shop_query =
     \<lparr>dq_txid = 7, dq_flags = 0x0100, dq_question = Some shop_question, dq_qdcount = 1, dq_raw = [],
      dq_trailing = []\<rparr>"

abbreviation shop_answers :: "(u16 \<times> bytes) list" where
  "shop_answers \<equiv> [(TYPE_A, [10, 0, 0, 9])]"

abbreviation shop_reply :: bytes where
  "shop_reply \<equiv> header_bytes 7 (response_flags shop_query RCODE_NOERROR True) 1 1 0
     @ written_question shop_question @ answer_bytes 30 shop_answers"

lemma shop_question_ok: "question_ok shop_question"
  by (simp add: question_ok_def shop_question_def label_ok_def)

lemma shop_answers_fit: "list_all (packs 30 \<circ> snd) shop_answers" "length shop_answers < 65536"
  by (simp_all add: packs_def)

lemma shop_reply_built:
  "build_response shop_query shop_answers [] RCODE_NOERROR True 30 = Inr shop_reply"
  using question_bytes_ok [OF shop_question_ok]
  by (simp add: build_response_def Let_def shop_query_def answer_bytes_def MAX_UDP_def record_bytes_def packs_def
      written_question_def name_bytes_def label_bytes_def shop_question_def QNAME_POINTER_def)

lemma shop_reply_untruncated: "unpack16 shop_reply 2 AND 0x0200 = 0"
proof -
  have "unpack16 shop_reply 2 = response_flags shop_query RCODE_NOERROR True"
    by (rule header_fields(2)) (rule refl)
  then show ?thesis by (simp only: response_flags_untruncated)
qed

lemma shop_reply_parsed:
  "parse_response shop_reply = Inr \<lparr>rs_txid = 7, rs_flags = response_flags shop_query RCODE_NOERROR True,
     rs_rcode = RCODE_NOERROR, rs_question = Some shop_question,
     rs_answers = [answer_record (qn_labels shop_question) 30 (TYPE_A, [10, 0, 0, 9])]\<rparr>"
  using response_parses [OF shop_reply_built _ shop_question_ok shop_reply_untruncated]
  by (simp add: shop_query_def RCODE_NOERROR_def)

lemma response_roundtrip_witness:
  "build_response shop_query shop_answers [] RCODE_NOERROR True 30 = Inr shop_reply
   \<and> parse_response shop_reply = Inr \<lparr>rs_txid = dq_txid shop_query,
       rs_flags = response_flags shop_query RCODE_NOERROR True, rs_rcode = RCODE_NOERROR AND 0x0F,
       rs_question = Some shop_question,
       rs_answers = map (answer_record (qn_labels shop_question) 30) shop_answers\<rparr>"
proof
  show "build_response shop_query shop_answers [] RCODE_NOERROR True 30 = Inr shop_reply" by (rule shop_reply_built)
  show "parse_response shop_reply = Inr \<lparr>rs_txid = dq_txid shop_query,
       rs_flags = response_flags shop_query RCODE_NOERROR True, rs_rcode = RCODE_NOERROR AND 0x0F,
       rs_question = Some shop_question,
       rs_answers = map (answer_record (qn_labels shop_question) 30) shop_answers\<rparr>"
  proof (rule response_roundtrip [OF shop_reply_built _ shop_question_ok])
    show "dq_question shop_query = Some shop_question" by (simp add: shop_query_def)
    show "unpack16 shop_reply 2 AND 0x0200 = 0" by (rule shop_reply_untruncated)
  qed
qed

lemma response_bounded_witness:
  "question_ok shop_question \<and> (length shop_reply \<le> 512 \<or>
     shop_reply = header_bytes (dq_txid shop_query) (response_flags shop_query RCODE_NOERROR True OR 0x0200) 1 0 0
       @ written_question shop_question)"
  using shop_question_ok response_bounded [OF shop_reply_built _ shop_question_ok]
  by (simp add: shop_query_def)

lemma shop_query_parsed:
  "parse_query (header_bytes 7 0x0100 1 0 0 @ written_question shop_question)
     = Inr (shop_query\<lparr>dq_raw := header_bytes 7 0x0100 1 0 0 @ written_question shop_question\<rparr>)"
proof -
  let ?data = "header_bytes 7 0x0100 1 0 0 @ written_question shop_question"
  have "parse_question ?data 12 = Inr (shop_question, 12 + length (written_question shop_question))"
    by (rule parse_question_at [OF shop_question_ok, of _ "header_bytes 7 0x0100 1 0 0" "[]"]) simp_all
  then show ?thesis
    unfolding parse_query_def header_fields [OF refl, of 7 "0x0100" 1 0 0 "written_question shop_question"]
    by (simp add: Let_def shop_query_def)
qed

lemma parsed_query_answerable_witness:
  "\<exists>m. build_response (shop_query\<lparr>dq_raw := header_bytes 7 0x0100 1 0 0 @ written_question shop_question\<rparr>)
     shop_answers [] RCODE_NOERROR True 30 = Inr m"
  by (rule parsed_query_answerable [OF shop_query_parsed shop_answers_fit])

end
