(* ===== verification/Upstream.thy ===== *)
theory Upstream
  imports Dns_Facts Ip_Address
begin

text \<open>
  \<open>platform/oob/src/edge_resolver/upstream.py\<close>: whether anybody upstream claims a name. What each
  server's exchange ends in, the clock, and whether a slot is free are arguments; a lookup that
  waits for its slot has two parts, with the state of other lookups in between.
\<close>

section \<open>State\<close>

record claim =
  cl_claimed :: bool
  cl_addresses :: "int list"
  cl_rcode :: u16
  cl_reason :: string

definition unclaimed_for :: "u16 \<Rightarrow> string \<Rightarrow> claim" where
  "unclaimed_for rcode reason = \<lparr>cl_claimed = False, cl_addresses = [], cl_rcode = rcode, cl_reason = reason\<rparr>"

definition UNCLAIMED :: claim where
  "UNCLAIMED = unclaimed_for RCODE_NOERROR ''unclaimed''"

record stub =
  sb_servers :: "(string \<times> nat) list"
  sb_networks :: "network list"
  sb_positive_ttl :: rat
  sb_negative_ttl :: rat
  sb_cache :: "(string, claim \<times> rat) dict"
  sb_queries :: nat
  sb_timeouts :: nat
  sb_hits :: nat
  sb_refused :: nat

definition new_stub :: "(string \<times> nat) list \<Rightarrow> network list \<Rightarrow> rat \<Rightarrow> rat \<Rightarrow> stub" where
  "new_stub servers networks positive negative =
     \<lparr>sb_servers = servers, sb_networks = networks, sb_positive_ttl = positive, sb_negative_ttl = negative,
      sb_cache = [], sb_queries = 0, sb_timeouts = 0, sb_hits = 0, sb_refused = 0\<rparr>"

text \<open>\<open>parse_servers\<close>: addresses with an optional decimal port. \<open>int\<close> raises on the superscript digits,
  which \<open>isdigit\<close> accepts: then there is no result.\<close>

definition digits_num :: "string \<Rightarrow> nat" where
  "digits_num s = foldl (\<lambda>n c. 10 * n + (code c - 48)) 0 s"

definition server_item :: "string \<Rightarrow> ((string \<times> nat) option) option" where
  "server_item item =
     (let text = strip item; host = rbefore (CHR '':'') text; port = rafter (CHR '':'') text
      in if text = [] then Some None
         else if CHR '':'' \<in> set text \<and> host \<noteq> [] \<and> all_digits port then
           (if list_all (\<lambda>c. code c < 58) port then Some (Some (host, digits_num port)) else None)
         else Some (Some (text, 53)))"

definition parse_servers :: "string option \<Rightarrow> (string \<times> nat) list option" where
  "parse_servers raw =
     (let items = map server_item (split_char (CHR '','') (str_or raw []))
      in if None \<in> set items then None else Some (List.map_filter the items))"

section \<open>The cache\<close>

definition cached_claim :: "rat \<Rightarrow> string \<Rightarrow> stub \<Rightarrow> stub \<times> claim option" where
  "cached_claim now name s =
     (case dict_get (sb_cache s) name of
        None \<Rightarrow> (s, None)
      | Some (c, expiry) \<Rightarrow>
          if expiry \<le> now then (s\<lparr>sb_cache := dict_del name (sb_cache s)\<rparr>, None)
          else (s\<lparr>sb_hits := sb_hits s + 1\<rparr>, Some c))"

definition CACHE_LIMIT :: int where "CACHE_LIMIT = 8192"

definition remember :: "rat \<Rightarrow> string \<Rightarrow> claim \<Rightarrow> stub \<Rightarrow> stub" where
  "remember now name c s =
     (let ttl = (if cl_claimed c then sb_positive_ttl s else sb_negative_ttl s);
          kept = (if CACHE_LIMIT < int (length (sb_cache s)) then [] else sb_cache s)
      in s\<lparr>sb_cache := dict_set name (c, now + ttl) kept\<rparr>)"

section \<open>Asking\<close>

datatype exchange = TimedOut | Unreachable string | Replied bytes

definition is_local :: "network list \<Rightarrow> int \<Rightarrow> bool" where
  "is_local networks a = (networks = [] \<or> list_ex (in_network (V4 a)) networks)"

text \<open>What one reply says: a final claim, or why it says nothing.\<close>

definition judge_reply :: "network list \<Rightarrow> bytes \<Rightarrow> claim + claim" where
  "judge_reply networks data =
     (case parse_response data of
        Inl e \<Rightarrow> Inr (unclaimed_for RCODE_NOERROR ''unparseable'')
      | Inr r \<Rightarrow>
          if rs_rcode r = RCODE_NOERROR \<and> rs_answers r \<noteq> [] then
            (let addresses = rs_addresses r; near = filter (is_local networks) addresses
             in if addresses \<noteq> [] \<and> near = []
                then Inl (unclaimed_for (rs_rcode r) ''answered off-network'')
                else Inl \<lparr>cl_claimed = True, cl_addresses = (if near = [] then addresses else near),
                          cl_rcode = rs_rcode r, cl_reason = ''answered''\<rparr>)
          else if rs_rcode r = RCODE_NXDOMAIN then Inl (unclaimed_for (rs_rcode r) ''nxdomain'')
          else Inr (unclaimed_for (rs_rcode r) (''rcode '' @ dec_digits (unat (rs_rcode r)))))"

text \<open>\<open>_ask\<close>, with what the exchange with each server in turn ends in.\<close>

fun ask_servers :: "exchange list \<Rightarrow> claim \<Rightarrow> stub \<Rightarrow> stub \<times> claim" where
  "ask_servers [] sofar s = (s, sofar)"
| "ask_servers (x # xs) sofar s =
     (let s1 = s\<lparr>sb_queries := sb_queries s + 1\<rparr>
      in case x of
           TimedOut \<Rightarrow> ask_servers xs (unclaimed_for RCODE_NOERROR ''timeout'') (s1\<lparr>sb_timeouts := sb_timeouts s1 + 1\<rparr>)
         | Unreachable e \<Rightarrow> ask_servers xs (unclaimed_for RCODE_NOERROR (''error: '' @ e)) s1
         | Replied data \<Rightarrow>
             (case judge_reply (sb_networks s) data of Inl c \<Rightarrow> (s1, c) | Inr c \<Rightarrow> ask_servers xs c s1))"

definition claim_key :: "string \<Rightarrow> string" where
  "claim_key name = lower (strip_chars ''.'' name)"

text \<open>The part of \<open>claim\<close> before the slot: \<open>None\<close> when the server has to be asked.\<close>

definition claim_early :: "rat \<Rightarrow> bool \<Rightarrow> bool \<Rightarrow> string \<Rightarrow> stub \<Rightarrow> stub \<times> claim option" where
  "claim_early now critical locked name s =
     (let key = claim_key name
      in if key = [] \<or> sb_servers s = [] then (s, Some UNCLAIMED)
         else case cached_claim now key s of
           (s1, Some c) \<Rightarrow> (s1, Some c)
         | (s1, None) \<Rightarrow>
             if \<not> critical \<and> locked
             then (s1\<lparr>sb_refused := sb_refused s1 + 1\<rparr>, Some (unclaimed_for RCODE_NOERROR ''busy''))
             else (s1, None))"

definition claim_in_slot :: "rat \<Rightarrow> rat \<Rightarrow> exchange list \<Rightarrow> string \<Rightarrow> stub \<Rightarrow> stub \<times> claim" where
  "claim_in_slot now done outcomes name s =
     (let key = claim_key name
      in case cached_claim now key s of
           (s1, Some c) \<Rightarrow> (s1, c)
         | (s1, None) \<Rightarrow>
             (let (s2, c) = ask_servers outcomes UNCLAIMED s1 in (remember done key c s2, c)))"

definition accepts_datagram :: "u16 \<Rightarrow> bytes \<Rightarrow> bool" where
  "accepts_datagram txid data = (\<not> (2 \<le> length data \<and> unpack16 data 0 \<noteq> txid))"

section \<open>What is believed\<close>

text \<open>A claim is good when it holds no address outside of the deployment, and none unless claimed.\<close>

definition good_claim :: "network list \<Rightarrow> claim \<Rightarrow> bool" where
  "good_claim networks c \<longleftrightarrow> list_all (is_local networks) (cl_addresses c) \<and> (cl_claimed c \<or> cl_addresses c = [])
     \<and> length (cl_addresses c) < 65536 \<and> list_all (\<lambda>a. 0 \<le> a \<and> a < 4294967296) (cl_addresses c)"

lemma unclaimed_simps [simp]:
  "good_claim networks (unclaimed_for rcode reason)" "good_claim networks UNCLAIMED"
  "\<not> cl_claimed (unclaimed_for rcode reason)" "\<not> cl_claimed UNCLAIMED"
  by (simp_all add: good_claim_def unclaimed_for_def UNCLAIMED_def)

lemma parse_records_count: "parse_records data n pos = Inr rs \<Longrightarrow> length rs = n"
  by (induction data n pos arbitrary: rs rule: parse_records.induct) (auto simp: bindE_Inr_iff)

lemma few_addresses: "parse_response data = Inr r \<Longrightarrow> length (filter P (rs_addresses r)) < 65536"
proof -
  assume "parse_response data = Inr r"
  then have "length (rs_answers r) = unat (unpack16 data 6)"
    by (auto simp: parse_response_def bindE_Inr_iff parse_records_count split: if_splits)
  then have "length (rs_answers r) < 65536" using unat_u16 [of "unpack16 data 6"] by simp
  moreover have "length (filter P (rs_addresses r)) \<le> length (rs_answers r)"
    using length_filter_le [of P "rs_addresses r"]
      length_filter_le [of "\<lambda>d. dr_type d = TYPE_A \<and> length (dr_rdata d) = 4" "rs_answers r"]
    by (simp add: rs_addresses_def)
  ultimately show ?thesis by simp
qed

lemma address_range: "a \<in> set (rs_addresses r) \<Longrightarrow> 0 \<le> a \<and> a < 4294967296"
proof -
  assume "a \<in> set (rs_addresses r)"
  then obtain d :: dns_record where "length (dr_rdata d) = 4" "a = int (be_num (dr_rdata d))"
    unfolding rs_addresses_def set_map set_filter by blast
  then show ?thesis using be_num_less [of "dr_rdata d"] by simp
qed

lemma judge_good:
  "judge_reply networks data = Inl c \<Longrightarrow> good_claim networks c"
  "judge_reply networks data = Inr c \<Longrightarrow> good_claim networks c \<and> \<not> cl_claimed c"
  by (auto simp: judge_reply_def Let_def good_claim_def list_all_iff unclaimed_for_def filter_empty_conv few_addresses address_range
           split: sum.splits if_splits)

lemma ask_fields [simp]:
  "sb_networks (fst (ask_servers xs sofar s)) = sb_networks s" "sb_cache (fst (ask_servers xs sofar s)) = sb_cache s"
  "sb_servers (fst (ask_servers xs sofar s)) = sb_servers s"
proof -
  have "sb_networks (fst (ask_servers xs sofar s)) = sb_networks s \<and> sb_cache (fst (ask_servers xs sofar s)) = sb_cache s
      \<and> sb_servers (fst (ask_servers xs sofar s)) = sb_servers s"
    by (induction xs arbitrary: sofar s) (simp_all add: Let_def split: exchange.splits sum.splits)
  then show "sb_networks (fst (ask_servers xs sofar s)) = sb_networks s"
    "sb_cache (fst (ask_servers xs sofar s)) = sb_cache s" "sb_servers (fst (ask_servers xs sofar s)) = sb_servers s" by simp_all
qed

lemma ask_good:
  "good_claim (sb_networks s) sofar \<Longrightarrow> good_claim (sb_networks s) (snd (ask_servers xs sofar s))"
proof (induction xs arbitrary: sofar s)
  case (Cons x xs)
  have IH: "good_claim (sb_networks s) (snd (ask_servers xs c s1))"
    if "sb_networks s1 = sb_networks s" "good_claim (sb_networks s) c" for c s1
    using Cons.IH [of s1 c] that by simp
  show ?case
  proof (cases x)
    case (Replied data)
    then show ?thesis
      using judge_good [of "sb_networks s" data]
      by (cases "judge_reply (sb_networks s) data") (simp_all add: Let_def IH)
  qed (simp_all add: Let_def IH)
qed simp

text \<open>The servers before the decisive one said nothing.\<close>

definition silent :: "network list \<Rightarrow> exchange \<Rightarrow> bool" where
  "silent networks x = (case x of Replied data \<Rightarrow> \<not> isl (judge_reply networks data) | _ \<Rightarrow> True)"

lemma ask_decisive:
  assumes "\<not> cl_claimed sofar"
  shows "cl_claimed (snd (ask_servers xs sofar s)) \<longleftrightarrow>
    (\<exists>bs0 data as0 c. xs = bs0 @ Replied data # as0 \<and> list_all (silent (sb_networks s)) bs0
       \<and> judge_reply (sb_networks s) data = Inl c \<and> cl_claimed c \<and> snd (ask_servers xs sofar s) = c)"
  using assms
proof (induction xs arbitrary: sofar s)
  case (Cons x xs)
  let ?n = "sb_networks s"
  let ?P = "\<lambda>xs r. \<exists>bs0 data as0 c. xs = bs0 @ Replied data # as0 \<and> list_all (silent ?n) bs0
       \<and> judge_reply ?n data = Inl c \<and> cl_claimed c \<and> r = c"
  have skip: "?P (x # xs) r \<longleftrightarrow> ?P xs r" if "silent ?n x" for r
  proof
    assume "?P (x # xs) r"
    then obtain bs0 data as0 c where b: "x # xs = bs0 @ Replied data # as0" "list_all (silent ?n) bs0"
        "judge_reply ?n data = Inl c" "cl_claimed c" "r = c" by blast
    have "bs0 \<noteq> []" using b(1,3) that by (auto simp: silent_def)
    then obtain b where "bs0 = x # b" "xs = b @ Replied data # as0" using b(1) by (cases bs0) auto
    then show "?P xs r" using b(2-5) by auto
  next
    assume "?P xs r"
    then show "?P (x # xs) r" using that by (elim exE) (rule exI [of _ "x # _"], auto)
  qed
  show ?case
  proof (cases "silent ?n x")
    case True
    then obtain s1 c where step: "ask_servers (x # xs) sofar s = ask_servers xs c s1" "sb_networks s1 = ?n" "\<not> cl_claimed c"
      using judge_good(2) [of ?n] by (cases x) (force simp: silent_def Let_def split: sum.splits)+
    show ?thesis using Cons.IH [OF step(3), of s1] skip [OF True] unfolding step(1,2) by simp
  next
    case False
    then obtain data c where x: "x = Replied data" "judge_reply ?n data = Inl c"
      by (cases x) (auto simp: silent_def isl_def)
    then have r: "snd (ask_servers (x # xs) sofar s) = c" by (simp add: Let_def)
    show ?thesis
    proof
      assume "cl_claimed (snd (ask_servers (x # xs) sofar s))"
      then show "?P (x # xs) (snd (ask_servers (x # xs) sofar s))"
        using x r by - (rule exI [of _ "[]"], rule exI [of _ data], rule exI [of _ xs], rule exI [of _ c], simp)
    qed auto
  qed
qed simp

lemma ask_until:
  "list_all (silent (sb_networks s)) bs0 \<Longrightarrow> judge_reply (sb_networks s) data = Inl c \<Longrightarrow>
     snd (ask_servers (bs0 @ Replied data # as0) sofar s) = c"
proof (induction bs0 arbitrary: sofar s)
  case (Cons x bs0)
  have IH: "snd (ask_servers (bs0 @ Replied data # as0) k s1) = c" if "sb_networks s1 = sb_networks s" for k s1
    using Cons.IH [of s1 k] Cons.prems that by simp
  show ?case using Cons.prems(1)
    by (cases x) (auto simp: silent_def Let_def IH split: sum.splits)
qed (simp add: Let_def)

section \<open>Runs\<close>

datatype stub_op = Early rat bool bool string | InSlot rat rat "exchange list" string

fun stub_step :: "stub \<Rightarrow> stub_op \<Rightarrow> stub" where
  "stub_step s (Early now critical locked name) = fst (claim_early now critical locked name s)"
| "stub_step s (InSlot now done outcomes name) = fst (claim_in_slot now done outcomes name s)"

text \<open>What a call answers, if it answers.\<close>

fun stub_answer :: "stub \<Rightarrow> stub_op \<Rightarrow> claim option" where
  "stub_answer s (Early now critical locked name) = snd (claim_early now critical locked name s)"
| "stub_answer s (InSlot now done outcomes name) = Some (snd (claim_in_slot now done outcomes name s))"

definition stub_ok :: "network list \<Rightarrow> stub \<Rightarrow> bool" where
  "stub_ok networks s \<longleftrightarrow>
     sb_networks s = networks \<and> dict_ok (sb_cache s) \<and> int (length (sb_cache s)) \<le> CACHE_LIMIT + 1
     \<and> (\<forall>(k, c, t)\<in>set (sb_cache s). good_claim networks c)"

lemma cached_ok:
  assumes "stub_ok networks s"
  shows "stub_ok networks (fst (cached_claim now name s))"
    and "snd (cached_claim now name s) = Some c \<Longrightarrow> good_claim networks c"
proof -
  have "length (dict_del name (sb_cache s)) \<le> length (sb_cache s)" by (simp add: dict_del_def)
  moreover have "set (dict_del name (sb_cache s)) \<subseteq> set (sb_cache s)" by (auto simp: dict_del_def)
  ultimately show "stub_ok networks (fst (cached_claim now name s))"
    using assms by (fastforce simp: cached_claim_def stub_ok_def split: option.splits)
  show "snd (cached_claim now name s) = Some c \<Longrightarrow> good_claim networks c"
    using assms
    by (auto simp: cached_claim_def stub_ok_def split: option.splits if_splits dest!: dict_get_SomeD)
qed

lemma set_dict_set': "x \<in> set (dict_set k v d) \<Longrightarrow> x = (k, v) \<or> x \<in> set d"
  by (induction d) (auto simp: dict_set_def split: if_splits)

lemma length_dict_set: "length (dict_set k v d) \<le> length d + 1"
  by (induction d) (auto simp: dict_set_def)

lemma remember_ok:
  assumes "stub_ok networks s" and "good_claim networks c"
  shows "stub_ok networks (remember now name c s)"
proof -
  define kept where "kept = (if CACHE_LIMIT < int (length (sb_cache s)) then [] else sb_cache s)"
  have "int (length kept) \<le> CACHE_LIMIT" by (simp add: kept_def CACHE_LIMIT_def)
  moreover have "set kept \<subseteq> set (sb_cache s)" "dict_ok kept"
    using assms(1) by (simp_all add: kept_def stub_ok_def dict_ok_def)
  moreover have r: "remember now name c s = s\<lparr>sb_cache := dict_set name (c, now + (if cl_claimed c then sb_positive_ttl s
      else sb_negative_ttl s)) kept\<rparr>" by (simp add: remember_def Let_def kept_def)
  moreover have "int (length (dict_set name v kept)) \<le> int (length kept) + 1" for v
    using length_dict_set [of name v kept] by linarith
  then have "int (length (dict_set name v kept)) \<le> CACHE_LIMIT + 1" for v
    using \<open>int (length kept) \<le> CACHE_LIMIT\<close> by (meson add_le_cancel_right order_trans)
  ultimately show ?thesis
    using assms unfolding r stub_ok_def by (fastforce dest!: set_dict_set')
qed

lemma early_ok:
  assumes "stub_ok networks s"
  shows "stub_ok networks (fst (claim_early now critical locked name s))"
    and "snd (claim_early now critical locked name s) = Some c \<Longrightarrow> good_claim networks c"
  using cached_ok [OF assms, of now "claim_key name"] assms
  by (auto simp: claim_early_def Let_def stub_ok_def split: option.splits prod.splits if_splits)

lemma in_slot_ok:
  assumes "stub_ok networks s"
  shows "stub_ok networks (fst (claim_in_slot now done outcomes name s))"
    and "good_claim networks (snd (claim_in_slot now done outcomes name s))"
proof -
  obtain s1 hit where h: "cached_claim now (claim_key name) s = (s1, hit)" by (cases "cached_claim now (claim_key name) s")
  have s1: "stub_ok networks s1" using cached_ok(1) [OF assms, of now "claim_key name"] by (simp add: h)
  then have "good_claim networks (snd (ask_servers outcomes UNCLAIMED s1))"
    using ask_good [of s1 UNCLAIMED outcomes] by (simp add: stub_ok_def)
  moreover have "stub_ok networks (fst (ask_servers outcomes UNCLAIMED s1))" using s1 by (simp add: stub_ok_def)
  ultimately show "stub_ok networks (fst (claim_in_slot now done outcomes name s))"
    "good_claim networks (snd (claim_in_slot now done outcomes name s))"
    using s1 h cached_ok(2) [OF assms, of now "claim_key name"] remember_ok
    by (auto simp: claim_in_slot_def Let_def case_prod_beta split: option.splits)
qed

interpretation stub: invariant_machine stub_step "stub_ok networks"
proof (unfold_locales, goal_cases)
  case (1 s op)
  then show ?case by (cases op) (simp_all add: early_ok in_slot_ok)
qed

lemma stub_reachable_ok: "stub_ok networks (foldl stub_step (new_stub servers networks positive negative) ops)"
  by (rule stub.run_inv) (simp add: stub_ok_def new_stub_def dict_ok_def CACHE_LIMIT_def)

lemma stub_answer_good:
  "stub_answer (foldl stub_step (new_stub servers networks positive negative) ops) op = Some c \<Longrightarrow> good_claim networks c"
  using early_ok(2) [OF stub_reachable_ok] in_slot_ok(2) [OF stub_reachable_ok] by (cases op) auto

text \<open>Whatever the servers reply, in whatever order lookups share the resolver and its cache, no claim
  it ever answers with holds an address outside of the deployment's networks, an unclaimed name
  has no address, and the cache keeps its bound.\<close>

theorem claims_stay_inside:
  "(case stub_answer (foldl stub_step (new_stub servers networks positive negative) ops) op of
      None \<Rightarrow> True
    | Some c \<Rightarrow> list_all (is_local networks) (cl_addresses c) \<and> (cl_claimed c \<or> cl_addresses c = []))
   \<and> int (length (sb_cache (foldl stub_step (new_stub servers networks positive negative) ops))) \<le> 8193"
  using stub_answer_good stub_reachable_ok
  by (auto simp: stub_ok_def CACHE_LIMIT_def good_claim_def split: option.split)

text \<open>A name that is not cached is claimed exactly when a server answers it with records that point
  into the deployment (or with no address at all), and every server before it in the list timed out,
  failed or gave nothing conclusive; a name that does not exist, or an answer from outside, ends the
  search.\<close>

theorem claimed_iff:
  assumes "dict_get (sb_cache s) (claim_key name) = None"
  shows "cl_claimed (snd (claim_in_slot now done outcomes name s)) \<longleftrightarrow>
    (\<exists>bs0 data as0 r. outcomes = bs0 @ Replied data # as0
       \<and> list_all (silent (sb_networks s)) bs0
       \<and> parse_response data = Inr r \<and> rs_rcode r = RCODE_NOERROR \<and> rs_answers r \<noteq> []
       \<and> (rs_addresses r = [] \<or> list_ex (is_local (sb_networks s)) (rs_addresses r))
       \<and> cl_addresses (snd (claim_in_slot now done outcomes name s))
           = filter (is_local (sb_networks s)) (rs_addresses r))"
proof -
  have c: "snd (claim_in_slot now done outcomes name s) = snd (ask_servers outcomes UNCLAIMED s)"
    using assms by (simp add: claim_in_slot_def cached_claim_def Let_def case_prod_beta)
  have j: "judge_reply n data = Inl c \<and> cl_claimed c \<longleftrightarrow>
      (\<exists>r. parse_response data = Inr r \<and> rs_rcode r = RCODE_NOERROR \<and> rs_answers r \<noteq> []
        \<and> (rs_addresses r = [] \<or> list_ex (is_local n) (rs_addresses r))
        \<and> c = \<lparr>cl_claimed = True, cl_addresses = filter (is_local n) (rs_addresses r),
               cl_rcode = rs_rcode r, cl_reason = ''answered''\<rparr>)" for n data c
    by (auto simp: judge_reply_def Let_def list_ex_iff filter_empty_conv unclaimed_for_def split: sum.splits if_splits)
  show ?thesis
    unfolding c ask_decisive [OF unclaimed_simps(4)]
  proof (intro iffI; elim exE conjE)
    fix bs0 data as0 k
    assume a: "outcomes = bs0 @ Replied data # as0" "list_all (silent (sb_networks s)) bs0"
      "judge_reply (sb_networks s) data = Inl k" "cl_claimed k" "snd (ask_servers outcomes UNCLAIMED s) = k"
    obtain r where "parse_response data = Inr r" "rs_rcode r = RCODE_NOERROR" "rs_answers r \<noteq> []"
        "rs_addresses r = [] \<or> list_ex (is_local (sb_networks s)) (rs_addresses r)"
        "cl_addresses k = filter (is_local (sb_networks s)) (rs_addresses r)"
      using j [of "sb_networks s" data k] a(3,4) by auto
    then show "\<exists>bs0 data as0 r. outcomes = bs0 @ Replied data # as0
       \<and> list_all (silent (sb_networks s)) bs0
       \<and> parse_response data = Inr r \<and> rs_rcode r = RCODE_NOERROR \<and> rs_answers r \<noteq> []
       \<and> (rs_addresses r = [] \<or> list_ex (is_local (sb_networks s)) (rs_addresses r))
       \<and> cl_addresses (snd (ask_servers outcomes UNCLAIMED s)) = filter (is_local (sb_networks s)) (rs_addresses r)"
      using a(1,2,5) by blast
  next
    fix bs0 data as0 r
    assume a: "outcomes = bs0 @ Replied data # as0" "list_all (silent (sb_networks s)) bs0"
      "parse_response data = Inr r" "rs_rcode r = RCODE_NOERROR" "rs_answers r \<noteq> []"
      "rs_addresses r = [] \<or> list_ex (is_local (sb_networks s)) (rs_addresses r)"
    define k where "k = \<lparr>cl_claimed = True, cl_addresses = filter (is_local (sb_networks s)) (rs_addresses r),
               cl_rcode = rs_rcode r, cl_reason = ''answered''\<rparr>"
    then have k: "judge_reply (sb_networks s) data = Inl k \<and> cl_claimed k"
      using j [of "sb_networks s" data k] a(3-6) by blast
    then have "snd (ask_servers outcomes UNCLAIMED s) = k"
      using ask_until [OF a(2)] a(1) by blast
    then show "\<exists>bs0 data as0 c. outcomes = bs0 @ Replied data # as0 \<and> list_all (silent (sb_networks s)) bs0
       \<and> judge_reply (sb_networks s) data = Inl c \<and> cl_claimed c \<and> snd (ask_servers outcomes UNCLAIMED s) = c"
      using a(1,2) k by blast
  qed
qed

text \<open>The first server says nothing; the second answers with an address of the deployment.\<close>

definition shop_stub :: stub where
  "shop_stub = new_stub [(''10.0.0.53'', 53), (''10.0.1.53'', 53)] [Net4 167772160 8] 30 5"

lemma claimed_iff_witness:
  "cl_claimed (snd (claim_in_slot 1 2 [TimedOut, Replied shop_reply] ''Shop.fun.'' shop_stub))"
proof (rule claimed_iff [THEN iffD2], goal_cases)
  case 1
  show ?case by (simp add: shop_stub_def new_stub_def)
next
  case 2
  define r where "r = \<lparr>rs_txid = 7, rs_flags = response_flags shop_query RCODE_NOERROR True,
     rs_rcode = RCODE_NOERROR, rs_question = Some shop_question,
     rs_answers = [answer_record (qn_labels shop_question) 30 (TYPE_A, [10, 0, 0, 9])]\<rparr>"
  have p: "parse_response shop_reply = Inr r" unfolding r_def by (rule shop_reply_parsed)
  have a: "rs_addresses r = [167772169]"
    by (simp add: r_def rs_addresses_def answer_record_def be_num_def)
  have near: "is_local (sb_networks shop_stub) 167772169"
    by (simp add: shop_stub_def new_stub_def is_local_def in_network_def)
  have ask: "snd (claim_in_slot 1 2 [TimedOut, Replied shop_reply] ''Shop.fun.'' shop_stub)
      = \<lparr>cl_claimed = True, cl_addresses = [167772169], cl_rcode = RCODE_NOERROR, cl_reason = ''answered''\<rparr>"
    using near
    by (simp add: claim_in_slot_def cached_claim_def Let_def judge_reply_def p a
        shop_stub_def new_stub_def del: append.simps)
       (simp add: r_def)
  have "[TimedOut, Replied shop_reply] = [TimedOut] @ Replied shop_reply # []" by simp
  moreover have "rs_rcode r = RCODE_NOERROR" "rs_answers r \<noteq> []" by (simp_all add: r_def)
  moreover have "list_all (silent (sb_networks shop_stub)) [TimedOut]" by (simp add: silent_def)
  ultimately show ?case using p a near ask by (fastforce simp del: append.simps)
qed

end
