(* ===== verification/Dns_Listener.thy ===== *)
theory Dns_Listener
  imports Upstream Observations
begin

text \<open>
  \<open>platform/oob/src/edge_resolver/listeners/dns.py\<close>: how one query is answered, what is recorded of
  it, and the framing over TCP. What the upstream server says of a name is an argument (absent when
  there is none); so is the address a client can reach, which the kernel tells.
\<close>

section \<open>Policy\<close>

definition dns_matches :: "string \<Rightarrow> string list \<Rightarrow> bool" where
  "dns_matches name patterns = list_ex (\<lambda>p. name = p \<or> endswith name (CHR ''.'' # p)) patterns"

definition is_internal_name :: "oob_config \<Rightarrow> string \<Rightarrow> bool" where
  "is_internal_name cfg name = dns_matches name (internal_suffixes cfg)"

definition is_denied :: "oob_config \<Rightarrow> string \<Rightarrow> bool" where
  "is_denied cfg name = dns_matches name (cf_denylist cfg)"

definition ANSWER_LIMIT :: int where "ANSWER_LIMIT = 1024"

text \<open>\<open>local_address_towards\<close>: \<open>None\<close> when no address is found.\<close>

type_synonym reach = "string \<Rightarrow> string option"

definition answer_ip :: "oob_config \<Rightarrow> reach \<Rightarrow> string \<Rightarrow> (string, string) dict \<Rightarrow> (string, string) dict \<times> string" where
  "answer_ip cfg towards peer cache =
     (if truthy (cf_public_ip cfg) then (cache, the (cf_public_ip cfg))
      else if truthy (dict_get cache peer) then (cache, the (dict_get cache peer))
      else
        let address = str_or (towards peer) ''127.0.0.1'';
            kept = (if ANSWER_LIMIT < int (length cache) then [] else cache)
        in (dict_set peer address kept, address))"

section \<open>What is recorded\<close>

definition malformed_request :: "string \<Rightarrow> string \<Rightarrow> bytes \<Rightarrow> dns_error \<Rightarrow> request" where
  "malformed_request peer proto data e =
     \<lparr>rq_channel = ''dns'', rq_source_ip = peer, rq_candidates = [],
      rq_raw = ''dns/'' @ proto @ '' unparseable query ('' @ dns_error_text e @ ''): ''
        @ concat (map (hex_byte \<circ> unat) (take 256 data)),
      rq_host = None, rq_detail = [(''proto'', JStr proto), (''malformed'', JBool True)], rq_owned = None\<rparr>"

definition name_request :: "oob_config \<Rightarrow> question \<Rightarrow> string \<Rightarrow> string \<Rightarrow> bool \<Rightarrow> string \<Rightarrow> request" where
  "name_request cfg q peer proto owned outcome =
     (let name = qn_name q; kind = type_name (qn_type q)
      in \<lparr>rq_channel = ''dns'', rq_source_ip = peer,
          rq_candidates = [\<lparr>cd_source = ''dns_label'', cd_value = str_or (host_label (Some name) (owned_zone cfg)) []\<rparr>],
          rq_raw = ''dns/'' @ proto @ '' qname='' @ name @ '' qtype='' @ kind
            @ '' qclass='' @ dec_digits (unat (qn_class q)) @ '' answer='' @ outcome,
          rq_host = Some name,
          rq_detail = [(''proto'', JStr proto), (''qname'', JStr name), (''qtype'', JStr kind), (''answer'', JStr outcome)],
          rq_owned = Some owned\<rparr>)"

section \<open>Answers\<close>

definition TXT_ANSWER :: string where "TXT_ANSWER = ''v=spf1 -all''"

definition owned_name :: "oob_config \<Rightarrow> string \<Rightarrow> bool" where
  "owned_name cfg name = (name = owned_zone cfg \<or> endswith name (CHR ''.'' # owned_zone cfg))"

fun seqE :: "('e + 'a list) list \<Rightarrow> 'e + 'a list" where
  "seqE [] = Inr []"
| "seqE (x # xs) = bindE x (\<lambda>a. bindE (seqE xs) (\<lambda>b. Inr (a @ b)))"

definition onlyE :: "bool \<Rightarrow> u16 \<Rightarrow> 'e + bytes \<Rightarrow> 'e + (u16 \<times> bytes) list" where
  "onlyE wanted t rdata = (if wanted then bindE rdata (\<lambda>b. Inr [(t, b)]) else Inr [])"

definition sinkhole_answers :: "oob_config \<Rightarrow> question \<Rightarrow> bool \<Rightarrow> string \<Rightarrow> dns_error + (u16 \<times> bytes) list" where
  "sinkhole_answers cfg q owned address =
     (let t = qn_type q; zone = owned_zone cfg
      in if qn_class q = CLASS_IN \<or> qn_class q = CLASS_ANY then
           seqE [onlyE (t = TYPE_A \<or> t = TYPE_ANY) TYPE_A (a_rdata address),
                 onlyE (t = TYPE_TXT \<or> t = TYPE_ANY) TYPE_TXT (Inr (txt_rdata (latin1_encode TXT_ANSWER))),
                 onlyE (t = TYPE_MX) TYPE_MX (bindE (encode_name (qn_name q)) (\<lambda>n. Inr (pack16 10 @ n))),
                 onlyE (t = TYPE_NS \<or> t = TYPE_ANY) TYPE_NS (encode_name (''ns1.'' @ zone)),
                 onlyE (t = TYPE_SOA \<and> owned) TYPE_SOA (soa_rdata zone)]
         else Inr [])"

definition zone_soa :: "oob_config \<Rightarrow> bool \<Rightarrow> dns_error + (string \<times> u16 \<times> bytes) list" where
  "zone_soa cfg wanted =
     (if wanted then bindE (soa_rdata (owned_zone cfg)) (\<lambda>d. Inr [(owned_zone cfg, TYPE_SOA, d)]) else Inr [])"

text \<open>The records of a claimed name: the text of each address reads back as its octets.\<close>

definition claim_answers :: "question \<Rightarrow> int list \<Rightarrow> (u16 \<times> bytes) list" where
  "claim_answers q addresses =
     (if qn_type q = TYPE_A \<or> qn_type q = TYPE_ANY then map (\<lambda>a. (TYPE_A, be_bytes 4 (nat a))) addresses else [])"

section \<open>One query\<close>

record dns_outcome =
  do_cache :: "(string, string) dict"
  do_request :: "request option"
  do_reply :: "dns_error + bytes"

type_synonym asked = "(string \<Rightarrow> bool \<Rightarrow> claim) option"

definition sinkhole ::
  "oob_config \<Rightarrow> reach \<Rightarrow> dns_query \<Rightarrow> question \<Rightarrow> string \<Rightarrow> string \<Rightarrow> bool \<Rightarrow> (string, string) dict \<Rightarrow> dns_outcome" where
  "sinkhole cfg towards query q peer proto owned cache =
     (let (cache1, address) = answer_ip cfg towards peer cache
      in \<lparr>do_cache = cache1, do_request = Some (name_request cfg q peer proto owned address),
          do_reply = bindE (sinkhole_answers cfg q owned address) (\<lambda>answers.
            bindE (zone_soa cfg (answers = [] \<and> owned)) (\<lambda>authority.
              build_response query answers authority RCODE_NOERROR owned (cf_dns_ttl cfg)))\<rparr>)"

definition answer_question ::
  "oob_config \<Rightarrow> reach \<Rightarrow> asked \<Rightarrow> dns_query \<Rightarrow> question \<Rightarrow> string \<Rightarrow> string \<Rightarrow> (string, string) dict \<Rightarrow> dns_outcome" where
  "answer_question cfg towards upstream query q peer proto cache =
     (let name = qn_name q; owned = owned_name cfg name; internal = is_internal_name cfg name
      in if is_denied cfg name then
           \<lparr>do_cache = cache, do_request = Some (name_request cfg q peer proto owned ''nxdomain''),
            do_reply = bindE (zone_soa cfg owned) (\<lambda>authority.
              build_response query [] authority RCODE_NXDOMAIN True (cf_dns_ttl cfg))\<rparr>
         else
           case upstream of
             None \<Rightarrow> sinkhole cfg towards query q peer proto owned cache
           | Some ask \<Rightarrow>
               (let c = ask name internal
                in if cl_claimed c then
                     \<lparr>do_cache = cache, do_request = None,
                      do_reply = build_response query (claim_answers q (cl_addresses c)) [] RCODE_NOERROR False
                        (cf_dns_ttl cfg)\<rparr>
                   else if internal then
                     \<lparr>do_cache = cache, do_request = None,
                      do_reply = build_response query [] [] RCODE_SERVFAIL False 30\<rparr>
                   else sinkhole cfg towards query q peer proto owned cache))"

definition dns_handle ::
  "oob_config \<Rightarrow> reach \<Rightarrow> asked \<Rightarrow> bytes \<Rightarrow> string \<Rightarrow> string \<Rightarrow> (string, string) dict \<Rightarrow> dns_outcome" where
  "dns_handle cfg towards upstream data peer proto cache =
     (case parse_query data of
        Inl e \<Rightarrow>
          \<lparr>do_cache = cache, do_request = Some (malformed_request peer proto data e),
           do_reply = Inr (build_format_error data)\<rparr>
      | Inr query \<Rightarrow>
          (case dq_question query of
             None \<Rightarrow>
               \<lparr>do_cache = cache, do_request = None, do_reply = build_response query [] [] RCODE_FORMERR False 30\<rparr>
           | Some q \<Rightarrow> answer_question cfg towards upstream query q peer proto cache))"

section \<open>Framing over TCP\<close>

text \<open>A connection is the octets that arrive before it ends or times out; a handler with its own state
  answers each message. What it raises, and an answer too long for the length field, ends the
  connection.\<close>

function dns_tcp :: "('s \<Rightarrow> bytes \<Rightarrow> 's \<times> (dns_error + bytes)) \<Rightarrow> 's \<Rightarrow> bytes \<Rightarrow> 's \<times> bytes" where
  "dns_tcp handler s (a # b # rest) =
     (let n = unat a * 256 + unat b
      in if n = 0 \<or> length rest < n then (s, [])
         else case handler s (take n rest) of
           (s1, Inl e) \<Rightarrow> (s1, [])
         | (s1, Inr reply) \<Rightarrow>
             if 65536 \<le> length reply then (s1, [])
             else let (s2, out) = dns_tcp handler s1 (drop n rest)
                  in (s2, be_bytes 2 (length reply) @ reply @ out))"
| "dns_tcp handler s [] = (s, [])"
| "dns_tcp handler s [a] = (s, [])"
  by pat_completeness auto

termination by (relation "measure (\<lambda>(_, _, data). length data)") auto

text \<open>One connection's handler, with the cache of addresses as its state.\<close>

definition tcp_handler ::
  "oob_config \<Rightarrow> reach \<Rightarrow> asked \<Rightarrow> string \<Rightarrow> (string, string) dict \<Rightarrow> bytes \<Rightarrow> (string, string) dict \<times> (dns_error + bytes)" where
  "tcp_handler cfg towards upstream peer cache data =
     (let out = dns_handle cfg towards upstream data peer ''tcp'' cache in (do_cache out, do_reply out))"

end
