(* ===== verification/Dns_Listener_Facts.thy ===== *)
theory Dns_Listener_Facts
  imports Dns_Listener
begin

text \<open>
  What the DNS listener guarantees: every datagram of ordinary size is answered, with its own id;
  a name is sinkholed and recorded exactly when nobody claims it; and no address outside of the
  deployment is ever handed out, whatever the upstream servers say.
\<close>

section \<open>Names as they are written\<close>

lemma split_char_mid: "split_char c (s @ c # t) = split_char c s @ split_char c t"
  by (induction s) (auto split: list.split)

lemma split_char_size: "sum_list (map (\<lambda>p. length p + 1) (split_char c s)) = length s + 1"
  by (induction s) (auto split: list.split)

lemma split_lower: "split_char (CHR ''.'') (lower s) = map lower (split_char (CHR ''.'') s)"
proof -
  have "lower_char x = CHR ''.'' \<longleftrightarrow> x = CHR ''.''" for x by (rule lower_char_eq_low) (simp add: code_def)
  then show ?thesis by (induction s) (auto split: list.split)
qed

abbreviation pieces :: "string \<Rightarrow> string list" where
  "pieces s \<equiv> filter (\<lambda>p. p \<noteq> []) (split_char (CHR ''.'') s)"

lemma pieces_mid: "pieces (s @ CHR ''.'' # t) = pieces s @ pieces t"
  by (simp add: split_char_mid)

lemma pieces_drop: "pieces (dropWhile (\<lambda>c. c = CHR ''.'') s) = pieces s"
  by (induction s) auto

lemma pieces_rstrip: "pieces (rstrip_where (\<lambda>c. c = CHR ''.'') s) = pieces s"
proof (induction s rule: rev_induct)
  case (snoc x s)
  then show ?case
    by (cases "x = CHR ''.''") (simp_all add: rstrip_where_def split_char_mid [of _ _ "[]", simplified])
qed (simp add: rstrip_where_def)

lemma pieces_strip: "pieces (strip_chars ''.'' s) = pieces s"
  by (simp add: strip_where_def pieces_rstrip pieces_drop)

lemma pieces_join: "pieces (join ''.'' xs) = concat (map pieces xs)"
  by (induction "''.''" xs rule: join.induct) (simp_all add: pieces_mid)

lemma name_labels_pieces: "name_labels s = map latin1_encode (pieces s)"
  using pieces_strip [of s] by (simp add: name_labels_def)

lemma encode_name_size:
  assumes "encode_name s = Inr b" shows "length b \<le> length s + 2"
proof -
  have size: "length (concat (map (label_bytes \<circ> latin1_encode) ps)) = (\<Sum>p\<leftarrow>ps. Suc (length p))" for ps
    by (induction ps) (simp_all add: label_bytes_def)
  have less: "(\<Sum>p\<leftarrow>filter P ps. Suc (length p)) \<le> (\<Sum>p\<leftarrow>ps. Suc (length p))" for P and ps :: "string list"
    by (induction ps) auto
  have "b = concat (map label_bytes (name_labels s)) @ [0]"
    using assms by (simp add: encode_name_def encode_labels_def split: if_splits)
  then have "length b = (\<Sum>p\<leftarrow>pieces s. Suc (length p)) + 1"
    using size [of "pieces s"] by (simp add: name_labels_pieces)
  then show ?thesis
    using less [of "\<lambda>p. p \<noteq> []" "split_char (CHR ''.'') s"] split_char_size [of "CHR ''.''" s] by simp
qed

lemma short_pieces_encode: "list_all (\<lambda>p. length p \<le> 63) (split_char (CHR ''.'') s) \<Longrightarrow> \<exists>b. encode_name s = Inr b"
  by (auto simp: encode_name_def encode_labels_def name_labels_pieces list_all_iff list_ex_iff)

lemma piece_length: "p \<in> set (split_char c s) \<Longrightarrow> length p \<le> length s"
proof -
  assume "p \<in> set (split_char c s)"
  then have "Suc (length p) \<le> (\<Sum>p\<leftarrow>split_char c s. Suc (length p))"
    by (intro member_le_sum_list) (auto simp: image_iff)
  then show ?thesis using split_char_size [of c s] by simp
qed

text \<open>A name that was read from a message can be written again as a text, dots in its labels or not.\<close>

lemma dotted_name_encodes:
  assumes "list_all label_ok ls" shows "\<exists>b. encode_name (dotted_name ls) = Inr b"
proof -
  have "length p \<le> 63" if p: "p \<in> set (pieces (dotted_name ls))" for p
  proof -
    have "pieces (lower s) = map lower (pieces s)" for s
      by (simp add: split_lower filter_map comp_def)
    then obtain r where r: "p = lower r" "r \<in> set (pieces (join ''.'' (map latin1 ls)))"
      using p by (auto simp: dotted_name_def)
    then obtain l where l: "l \<in> set ls" "r \<in> set (split_char (CHR ''.'') (latin1 l))"
      by (auto simp: pieces_join)
    then show ?thesis
      using piece_length [OF l(2)] assms r(1) by (auto simp: list_all_iff label_ok_def)
  qed
  then have "\<not> list_ex (\<lambda>l. 63 < length l) (name_labels (dotted_name ls))"
    by (fastforce simp: name_labels_pieces list_ex_iff)
  then show ?thesis by (simp add: encode_name_def encode_labels_def)
qed

text \<open>However its pointers are folded, a name is at most eleven times as long as its message.\<close>

lemma name_at_size:
  "name_at data depth pos = Inr (ls, e) \<Longrightarrow> depth \<le> 10 \<Longrightarrow>
     (\<Sum>l\<leftarrow>ls. Suc (length l)) + pos \<le> (11 - depth) * length data"
proof (induction data depth pos arbitrary: ls e rule: name_at.induct)
  case (1 data depth pos)
  let ?b = "data ! pos"
  have here: "pos < length data" using "1.prems"(1) by (subst (asm) name_at.simps) (auto split: if_splits)
  have "1 * length data \<le> (11 - depth) * length data" using "1.prems"(2) by (intro mult_right_mono) simp_all
  then have one: "length data \<le> (11 - depth) * length data" by simp
  consider (stop) "?b = 0" | (jump) "?b \<noteq> 0" "?b AND 0xC0 = 0xC0"
    | (label) "?b \<noteq> 0" "?b AND 0xC0 \<noteq> 0xC0" "?b AND 0xC0 = 0" | (bad) "?b \<noteq> 0" "?b AND 0xC0 \<noteq> 0xC0" "?b AND 0xC0 \<noteq> 0"
    by blast
  then show ?case
  proof cases
    case stop
    then have "ls = []" using "1.prems" by (subst (asm) name_at.simps) (auto split: if_splits)
    moreover have "pos \<le> (11 - depth) * length data" by (rule order_trans [OF less_imp_le [OF here] one])
    ultimately show ?thesis by simp
  next
    case jump
    then obtain sub e' where s: "pos + 1 < length data" "depth + 1 \<le> 10"
      "name_at data (depth + 1) (unat (?b AND 0x3F) * 256 + unat (data ! (pos + 1))) = Inr (sub, e')" "ls = sub"
      using "1.prems" by (subst (asm) name_at.simps) (auto simp: Let_def bindE_Inr_iff split: if_splits)
    then have "(\<Sum>l\<leftarrow>ls. Suc (length l)) \<le> (11 - (depth + 1)) * length data"
      using "1.IH"(1) [OF _ refl refl _ _ _ _ s(3) s(2)] jump by simp
    moreover have "11 - depth = Suc (11 - (depth + 1))" using s(2) by simp
    then have "(11 - depth) * length data = length data + (11 - (depth + 1)) * length data" by (metis mult_Suc)
    ultimately show ?thesis using here by simp
  next
    case label
    then obtain more_ls where s: "pos + 1 + unat ?b \<le> length data"
      "name_at data depth (pos + 1 + unat ?b) = Inr (more_ls, e)"
      "ls = subrange data (pos + 1) (pos + 1 + unat ?b) # more_ls"
      using "1.prems" by (subst (asm) name_at.simps) (auto simp: Let_def bindE_Inr_iff split: if_splits)
    then have "(\<Sum>l\<leftarrow>more_ls. Suc (length l)) + (pos + 1 + unat ?b) \<le> (11 - depth) * length data"
      using "1.IH"(2) [OF _ refl refl _ _ _ _ s(2) "1.prems"(2)] label by simp
    then show ?thesis using s by (simp add: subrange_def)
  next
    case bad
    then show ?thesis using "1.prems" by (subst (asm) name_at.simps) (auto simp: Let_def split: if_splits)
  qed
qed

lemma join_size: "length (join ''.'' (map latin1 ls)) \<le> (\<Sum>l\<leftarrow>ls. Suc (length l))"
  by (induction ls rule: induct_list012) simp_all

lemma query_name_size:
  assumes "parse_query data = Inr query" and "dq_question query = Some q"
  shows "length (qn_name q) \<le> 11 * length data"
proof -
  obtain e where "parse_question data 12 = Inr (q, e)"
    using assms by (auto simp: parse_query_def Let_def bindE_Inr_iff split: if_splits)
  then obtain p where "name_at data 0 12 = Inr (qn_labels q, p)"
    by (auto simp: parse_question_def parse_name_def bindE_Inr_iff split: if_splits)
  then have "(\<Sum>l\<leftarrow>qn_labels q. Suc (length l)) \<le> 11 * length data"
    using name_at_size by fastforce
  then show ?thesis using join_size [of "qn_labels q"] by (simp add: qn_name_def dotted_name_def)
qed

section \<open>Every query is answered\<close>

text \<open>What the answers need: an owned zone of labels that can be written, addresses in dotted form, a
  lifetime that fits its field.\<close>

definition dns_ready :: "oob_config \<Rightarrow> reach \<Rightarrow> (string, string) dict \<Rightarrow> bool" where
  "dns_ready cfg towards cache \<longleftrightarrow>
     list_all (\<lambda>p. length p \<le> 63) (split_char (CHR ''.'') (owned_zone cfg)) \<and> length (owned_zone cfg) \<le> 255
     \<and> cf_dns_ttl cfg < 4294967296
     \<and> (truthy (cf_public_ip cfg) \<longrightarrow> aton (the (cf_public_ip cfg)) \<noteq> None)
     \<and> (\<forall>p. truthy (towards p) \<longrightarrow> aton (the (towards p)) \<noteq> None)
     \<and> (\<forall>(p, a)\<in>set cache. aton a \<noteq> None)"

definition few_claimed :: "asked \<Rightarrow> bool" where
  "few_claimed upstream \<longleftrightarrow>
     (\<forall>ask name critical. upstream = Some ask \<longrightarrow> length (cl_addresses (ask name critical)) < 65536)"

lemma answer_ip_ready:
  assumes "dns_ready cfg towards cache"
  shows "aton (snd (answer_ip cfg towards peer cache)) \<noteq> None"
    and "dns_ready cfg towards (fst (answer_ip cfg towards peer cache))"
proof -
  have here: "aton ''127.0.0.1'' \<noteq> None" by code_simp
  define kept where "kept = (if ANSWER_LIMIT < int (length cache) then [] else cache)"
  define addr where "addr = str_or (towards peer) ''127.0.0.1''"
  have addr: "aton addr \<noteq> None"
  proof (cases "truthy (towards peer)")
    case True
    then have "aton (the (towards peer)) \<noteq> None" using assms by (simp add: dns_ready_def)
    then show ?thesis using True by (cases "towards peer") (simp_all add: addr_def str_or_def)
  next
    case False
    then show ?thesis using here by (cases "towards peer") (simp_all add: addr_def str_or_def)
  qed
  have cached: "dict_get cache peer = Some a \<Longrightarrow> aton a \<noteq> None" for a
    using assms by (auto simp: dns_ready_def dest: dict_get_SomeD)
  show "aton (snd (answer_ip cfg towards peer cache)) \<noteq> None"
    using assms addr cached by (auto simp: answer_ip_def Let_def addr_def dns_ready_def dest: truthyE)
  have "set kept \<subseteq> set cache" by (simp add: kept_def)
  then have "\<forall>(p, a)\<in>set (dict_set peer addr kept). aton a \<noteq> None"
    using assms addr by (fastforce simp: dns_ready_def dest!: set_dict_set')
  then show "dns_ready cfg towards (fst (answer_ip cfg towards peer cache))"
    using assms unfolding answer_ip_def kept_def [symmetric] addr_def [symmetric] Let_def
    by (simp add: dns_ready_def)
qed

lemma zone_records:
  assumes "dns_ready cfg towards cache"
  shows "\<exists>n. encode_name (owned_zone cfg) = Inr n"
    and "\<exists>b. encode_name (''ns1.'' @ owned_zone cfg) = Inr b \<and> length b < 65536"
    and "\<exists>d. soa_rdata (owned_zone cfg) = Inr d \<and> length d < 65536"
proof -
  let ?z = "owned_zone cfg"
  have z: "list_all (\<lambda>p. length p \<le> 63) (split_char (CHR ''.'') ?z)" "length ?z \<le> 255"
    using assms by (simp_all add: dns_ready_def)
  then show "\<exists>n. encode_name ?z = Inr n" by (simp add: short_pieces_encode)
  have "split_char (CHR ''.'') (''ns1.'' @ ?z) = ''ns1'' # split_char (CHR ''.'') ?z"
    "split_char (CHR ''.'') (''hostmaster.'' @ ?z) = ''hostmaster'' # split_char (CHR ''.'') ?z" by simp_all
  then obtain m r where m: "encode_name (''ns1.'' @ ?z) = Inr m" and r: "encode_name (''hostmaster.'' @ ?z) = Inr r"
    using z(1) short_pieces_encode [of "''ns1.'' @ ?z"] short_pieces_encode [of "''hostmaster.'' @ ?z"] by auto
  have "length m \<le> 261" "length r \<le> 268" using encode_name_size [OF m] encode_name_size [OF r] z(2) by simp_all
  then show "\<exists>b. encode_name (''ns1.'' @ ?z) = Inr b \<and> length b < 65536"
    "\<exists>d. soa_rdata ?z = Inr d \<and> length d < 65536"
    using m r by (simp_all add: soa_rdata_def)
qed

text \<open>A list of answers that fit, at most a given number.\<close>

definition fitting :: "nat \<Rightarrow> nat \<Rightarrow> dns_error + (u16 \<times> bytes) list \<Rightarrow> bool" where
  "fitting ttl n r \<longleftrightarrow> (\<exists>xs. r = Inr xs \<and> list_all (packs ttl \<circ> snd) xs \<and> length xs \<le> n)"

lemma fitting_only:
  assumes "ttl < 4294967296" and "\<exists>b. rdata = Inr b \<and> length b < 65536"
  shows "fitting ttl 1 (onlyE wanted t rdata)"
  using assms by (auto simp: fitting_def onlyE_def packs_def)

lemma fitting_seq: "list_all (fitting ttl 1) rs \<Longrightarrow> fitting ttl (length rs) (seqE rs)"
proof (induction rs)
  case (Cons r rs)
  then obtain xs ys where "r = Inr xs" "seqE rs = Inr ys" "list_all (packs ttl \<circ> snd) xs" "list_all (packs ttl \<circ> snd) ys"
    "length xs \<le> 1" "length ys \<le> length rs" by (auto simp: fitting_def)
  then show ?case by (auto simp: fitting_def)
qed (simp add: fitting_def)

lemma fitting_five:
  assumes "fitting ttl 1 r1" "fitting ttl 1 r2" "fitting ttl 1 r3" "fitting ttl 1 r4" "fitting ttl 1 r5"
  shows "fitting ttl 5 (seqE [r1, r2, r3, r4, r5])"
  using fitting_seq [of ttl "[r1, r2, r3, r4, r5]"] assms by (simp add: eval_nat_numeral del: seqE.simps)

lemma sinkhole_answers_fit:
  assumes ready: "dns_ready cfg towards cache" and ip: "aton address \<noteq> None" and q: "question_ok q"
    and short: "length (qn_name q) \<le> 65531"
  shows "fitting (cf_dns_ttl cfg) 5 (sinkhole_answers cfg q owned address)"
proof -
  have ttl: "cf_dns_ttl cfg < 4294967296" using ready by (simp add: dns_ready_def)
  obtain n where n: "encode_name (qn_name q) = Inr n"
    using dotted_name_encodes q by (auto simp: question_ok_def qn_name_def)
  have len: "length n \<le> 65533" using encode_name_size [OF n] short by simp
  have mx: "\<exists>b. bindE (encode_name (qn_name q)) (\<lambda>n. Inr (pack16 10 @ n)) = Inr b \<and> length b < 65536"
    using n len by simp
  have a: "\<exists>b. a_rdata address = Inr b \<and> length b < 65536"
    using ip length_aton by (fastforce simp: a_rdata_def)
  have t: "\<exists>b. (Inr (txt_rdata (latin1_encode TXT_ANSWER)) :: dns_error + bytes) = Inr b \<and> length b < 65536"
    by (simp add: txt_rdata_def TXT_ANSWER_def)
  note only = fitting_only [OF ttl]
  show ?thesis
  proof (cases "qn_class q = CLASS_IN \<or> qn_class q = CLASS_ANY")
    case True
    then have "sinkhole_answers cfg q owned address = seqE [
        onlyE (qn_type q = TYPE_A \<or> qn_type q = TYPE_ANY) TYPE_A (a_rdata address),
        onlyE (qn_type q = TYPE_TXT \<or> qn_type q = TYPE_ANY) TYPE_TXT (Inr (txt_rdata (latin1_encode TXT_ANSWER))),
        onlyE (qn_type q = TYPE_MX) TYPE_MX (bindE (encode_name (qn_name q)) (\<lambda>n. Inr (pack16 10 @ n))),
        onlyE (qn_type q = TYPE_NS \<or> qn_type q = TYPE_ANY) TYPE_NS (encode_name (''ns1.'' @ owned_zone cfg)),
        onlyE (qn_type q = TYPE_SOA \<and> owned) TYPE_SOA (soa_rdata (owned_zone cfg))]"
      unfolding sinkhole_answers_def Let_def by (simp only: if_P)
    then show ?thesis
      by (rule ssubst)
         (rule fitting_five; rule only; rule a t mx zone_records [OF ready])
  next
    case False
    then show ?thesis by (simp add: sinkhole_answers_def fitting_def)
  qed
qed

lemma pack_unpack: "2 \<le> length data \<Longrightarrow> pack16 (unpack16 data 0) = take 2 data"
proof -
  assume "2 \<le> length data"
  then have len: "length (take 2 data) = 2" by simp
  then have "be_num (take 2 data) < 65536" using be_num_less [of "take 2 data"] by simp
  then show ?thesis
    using be_bytes_num [of "take 2 data"] len
    by (simp add: pack16_def unpack16_def subrange_def unat_of_nat_u16 flip: numeral_2_eq_2)
qed

text \<open>A response carries the id, and its length fits the length field of TCP.\<close>

definition replies_to :: "u16 \<Rightarrow> bytes \<Rightarrow> bool" where
  "replies_to txid m \<longleftrightarrow> 12 \<le> length m \<and> length m < 65536 \<and> take 2 m = pack16 txid"

lemma header_replies: "length rest < 65524 \<Longrightarrow> replies_to txid (header_bytes txid flags qd an ns @ rest)"
  by (simp add: replies_to_def) (simp add: header_bytes_def pack16_def)

lemma response_replies:
  assumes "dq_question q = Some qn" and "question_ok qn" and "length (written_question qn) < 65524"
    and "list_all (packs ttl \<circ> snd) answers" and "length answers < 65536" and "length authority < 65536"
    and "\<exists>ns. authority_bytes ttl authority = Inr ns"
  shows "\<exists>m. build_response q answers authority rcode authoritative ttl = Inr m \<and> replies_to (dq_txid q) m"
proof -
  obtain ns where "authority_bytes ttl authority = Inr ns" using assms(7) by blast
  then obtain m where m: "build_response q answers authority rcode authoritative ttl = Inr m"
    using assms question_bytes_ok [OF assms(2)] by (auto simp: build_response_def Let_def)
  from m assms(1,2) have "replies_to (dq_txid q) m"
  proof (cases rule: build_response_cases)
    case (whole rest)
    then have "length (written_question qn @ answer_bytes ttl answers @ rest) < 65524" by (simp add: MAX_UDP_def)
    then show ?thesis unfolding whole(1) by (rule header_replies)
  next
    case truncated
    then show ?thesis using header_replies [OF assms(3)] by simp
  qed
  then show ?thesis using m by blast
qed

lemma zone_soa_fits:
  assumes "dns_ready cfg towards cache"
  shows "\<exists>au ns. zone_soa cfg wanted = Inr au \<and> length au \<le> 1 \<and> authority_bytes (cf_dns_ttl cfg) au = Inr ns"
  using zone_records [OF assms] assms by (auto simp: zone_soa_def packs_def dns_ready_def)

lemma query_facts:
  assumes "parse_query data = Inr query" and "dq_question query = Some q" and "length data \<le> 5900"
  shows "question_ok q" "length (qn_name q) \<le> 65531" "length (written_question q) < 65524"
proof -
  show ok: "question_ok q" by (rule parse_query_question [OF assms(1,2)])
  show "length (qn_name q) \<le> 65531" using query_name_size [OF assms(1,2)] assms(3) by linarith
  obtain e where "parse_question data 12 = Inr (q, e)"
    using assms(1,2) by (auto simp: parse_query_def Let_def bindE_Inr_iff split: if_splits)
  then obtain p where "name_at data 0 12 = Inr (qn_labels q, p)"
    by (auto simp: parse_question_def parse_name_def bindE_Inr_iff split: if_splits)
  then have "(\<Sum>l\<leftarrow>qn_labels q. Suc (length l)) \<le> 11 * length data" using name_at_size by fastforce
  moreover have "length (name_bytes ls) = (\<Sum>l\<leftarrow>ls. Suc (length l)) + 1" for ls
    by (induction ls) (simp_all add: name_bytes_def label_bytes_def)
  ultimately show "length (written_question q) < 65524"
    using assms(3) by (simp add: written_question_def)
qed

lemma sinkhole_replies:
  assumes ready: "dns_ready cfg towards cache" and q: "dq_question query = Some q" "question_ok q"
    "length (qn_name q) \<le> 65531" "length (written_question q) < 65524"
  shows "\<exists>m. do_reply (sinkhole cfg towards query q peer proto owned cache) = Inr m \<and> replies_to (dq_txid query) m"
    and "dns_ready cfg towards (do_cache (sinkhole cfg towards query q peer proto owned cache))"
proof -
  obtain cache1 address where ip: "answer_ip cfg towards peer cache = (cache1, address)"
    by (cases "answer_ip cfg towards peer cache")
  have address: "aton address \<noteq> None" and ready1: "dns_ready cfg towards cache1"
    using answer_ip_ready [OF ready, of peer] by (simp_all add: ip)
  obtain xs where xs: "sinkhole_answers cfg q owned address = Inr xs" "list_all (packs (cf_dns_ttl cfg) \<circ> snd) xs" "length xs \<le> 5"
    using sinkhole_answers_fit [OF ready address q(2,3)] by (auto simp: fitting_def)
  obtain au ns where au: "zone_soa cfg (xs = [] \<and> owned) = Inr au" "length au \<le> 1"
      "authority_bytes (cf_dns_ttl cfg) au = Inr ns"
    using zone_soa_fits [OF ready] by blast
  have "\<exists>m. build_response query xs au RCODE_NOERROR owned (cf_dns_ttl cfg) = Inr m \<and> replies_to (dq_txid query) m"
    by (rule response_replies [OF q(1,2,4) xs(2)]) (use xs(3) au(2,3) in simp_all)
  then show "\<exists>m. do_reply (sinkhole cfg towards query q peer proto owned cache) = Inr m \<and> replies_to (dq_txid query) m"
    by (simp add: sinkhole_def ip xs(1) au(1))
  show "dns_ready cfg towards (do_cache (sinkhole cfg towards query q peer proto owned cache))"
    by (simp add: sinkhole_def ip ready1)
qed

lemma question_replies:
  fixes peer proto :: string
  assumes ready: "dns_ready cfg towards cache" and few: "few_claimed upstream"
    and q: "dq_question query = Some q" "question_ok q" "length (qn_name q) \<le> 65531" "length (written_question q) < 65524"
  defines "o1 \<equiv> answer_question cfg towards upstream query q peer proto cache"
  shows "(\<exists>m. do_reply o1 = Inr m \<and> replies_to (dq_txid query) m) \<and> dns_ready cfg towards (do_cache o1)"
proof -
  note sink = sinkhole_replies [OF ready q, of peer proto]
  note reply = response_replies [OF q(1,2,4)]
  have ttl: "cf_dns_ttl cfg < 4294967296" using ready by (simp add: dns_ready_def)
  have claimed: "list_all (packs (cf_dns_ttl cfg) \<circ> snd) (claim_answers q as)" for as
    using ttl by (auto simp: claim_answers_def list_all_iff packs_def)
  have count: "upstream = Some ask \<Longrightarrow> length (claim_answers q (cl_addresses (ask n i))) < 65536" for ask n i
    using few by (simp add: claim_answers_def few_claimed_def)
  obtain au ns where au: "zone_soa cfg (owned_name cfg (qn_name q)) = Inr au" "length au \<le> 1"
      "authority_bytes (cf_dns_ttl cfg) au = Inr ns"
    using zone_soa_fits [OF ready] by blast
  have denied: "\<exists>m. build_response query [] au RCODE_NXDOMAIN True (cf_dns_ttl cfg) = Inr m \<and> replies_to (dq_txid query) m"
    by (rule reply) (use au in simp_all)
  show ?thesis
  proof (cases "is_denied cfg (qn_name q)")
    case True
    then show ?thesis using denied au(1) ready by (simp add: o1_def answer_question_def Let_def)
  next
    case False
    show ?thesis
    proof (cases upstream)
      case None
      then show ?thesis using False sink by (simp add: o1_def answer_question_def Let_def)
    next
      case (Some ask)
      have "\<exists>m. build_response query (claim_answers q (cl_addresses (ask n i))) [] RCODE_NOERROR False (cf_dns_ttl cfg) = Inr m
          \<and> replies_to (dq_txid query) m" for n i
        by (rule reply [OF claimed count [OF Some]]) simp_all
      moreover have "\<exists>m. build_response query [] [] RCODE_SERVFAIL False 30 = Inr m \<and> replies_to (dq_txid query) m"
        by (rule reply) simp_all
      ultimately show ?thesis using False Some sink ready by (simp add: o1_def answer_question_def Let_def)
    qed
  qed
qed

lemma query_txid: "parse_query data = Inr query \<Longrightarrow> 2 \<le> length data \<and> dq_txid query = unpack16 data 0"
  by (auto simp: parse_query_def Let_def bindE_Inr_iff split: if_splits)

lemma handled:
  fixes peer proto :: string
  assumes "dns_ready cfg towards cache" and "few_claimed upstream" and "length data \<le> 5900"
  defines "o1 \<equiv> dns_handle cfg towards upstream data peer proto cache"
  shows "(\<exists>m. do_reply o1 = Inr m \<and> replies_to (if 2 \<le> length data then unpack16 data 0 else 0) m)
    \<and> dns_ready cfg towards (do_cache o1)"
proof (cases "parse_query data")
  case (Inl e)
  have "replies_to txid (header_bytes txid flags 0 0 0)" for txid flags
    using header_replies [of "[]"] by simp
  then show ?thesis using Inl assms(1) by (simp add: o1_def dns_handle_def build_format_error_def)
next
  case (Inr query)
  note t = query_txid [OF Inr]
  show ?thesis
  proof (cases "dq_question query")
    case None
    have "build_response query [] [] RCODE_FORMERR False 30
        = Inr (header_bytes (dq_txid query) (response_flags query RCODE_FORMERR False) 0 0 0)"
      using None by (simp add: build_response_def question_bytes_def MAX_UDP_def)
    then show ?thesis
      using Inr None t assms(1) header_replies [of "[]" "dq_txid query"] by (simp add: o1_def dns_handle_def)
  next
    case (Some q)
    show ?thesis
      using question_replies [OF assms(1,2) Some query_facts [OF Inr Some assms(3)], of peer proto] Inr Some t
      by (simp add: o1_def dns_handle_def)
  qed
qed

text \<open>C18: every datagram of up to 5900 octets gets an answer, whatever it holds and whatever the upstream
  server says: nothing is raised, the answer has a header, it carries the id of the question, and
  the listener is left as ready as it was. (A folded name makes the bound: eleven passes over a
  larger message can exceed the length field of a record.)\<close>

theorem dns_always_answered:
  assumes "dns_ready cfg towards cache" and "few_claimed upstream" and "length data \<le> 5900"
  shows "(\<exists>m. do_reply (dns_handle cfg towards upstream data peer proto cache) = Inr m
      \<and> 12 \<le> length m \<and> (2 \<le> length data \<longrightarrow> take 2 m = take 2 data))
    \<and> dns_ready cfg towards (do_cache (dns_handle cfg towards upstream data peer proto cache))"
  using handled [OF assms, of peer proto] pack_unpack by (auto simp: replies_to_def)

section \<open>Who answers for a name\<close>

text \<open>What a whole response to an A question says, as the reader for the upstream server reads it.\<close>

lemma answer_addresses:
  assumes "build_response q answers authority rcode authoritative ttl = Inr m" and "dq_question q = Some qn"
    and "question_ok qn" and "unpack16 m 2 AND 0x0200 = 0" and "parse_response m = Inr r"
  shows "rs_addresses r = map (\<lambda>a. int (be_num (snd a))) (filter (\<lambda>a. fst a = TYPE_A \<and> length (snd a) = 4) answers)"
    and "rs_rcode r = rcode AND 0x0F"
  using response_parses [OF assms(1-4)] assms(5)
  by (simp_all add: rs_addresses_def answer_record_def filter_map comp_def)

lemma good_addresses:
  assumes "list_all (\<lambda>a. 0 \<le> a \<and> a < 4294967296) as" and "qn_type q = TYPE_A"
  shows "map (\<lambda>a. int (be_num (snd a))) (filter (\<lambda>a. fst a = TYPE_A \<and> length (snd a) = 4) (claim_answers q as)) = as"
  using assms(1) by (induction as) (auto simp: claim_answers_def assms(2) be_num_bytes nat_less_iff)

lemma sinkhole_a:
  assumes "qn_type q = TYPE_A" and "qn_class q = CLASS_IN" and "aton address = Some b"
  shows "sinkhole_answers cfg q owned address = Inr [(TYPE_A, b)]"
  using assms by (simp add: sinkhole_answers_def onlyE_def a_rdata_def TYPE_A_def TYPE_ANY_def TYPE_TXT_def TYPE_MX_def
      TYPE_NS_def TYPE_SOA_def CLASS_IN_def)

text \<open>Who is asked for a name, and with what outcome.\<close>

datatype verdict = Denied | Claimed "int list" | Withheld | Sinkholed

definition name_verdict :: "oob_config \<Rightarrow> asked \<Rightarrow> string \<Rightarrow> verdict" where
  "name_verdict cfg upstream name =
     (if is_denied cfg name then Denied
      else case upstream of
        None \<Rightarrow> Sinkholed
      | Some ask \<Rightarrow>
          (let c = ask name (is_internal_name cfg name)
           in if cl_claimed c then Claimed (cl_addresses c)
              else if is_internal_name cfg name then Withheld else Sinkholed))"

lemma answer_by_verdict:
  "answer_question cfg towards upstream query q peer proto cache =
     (case name_verdict cfg upstream (qn_name q) of
        Denied \<Rightarrow>
          \<lparr>do_cache = cache,
           do_request = Some (name_request cfg q peer proto (owned_name cfg (qn_name q)) ''nxdomain''),
           do_reply = bindE (zone_soa cfg (owned_name cfg (qn_name q))) (\<lambda>authority.
             build_response query [] authority RCODE_NXDOMAIN True (cf_dns_ttl cfg))\<rparr>
      | Claimed as \<Rightarrow>
          \<lparr>do_cache = cache, do_request = None,
           do_reply = build_response query (claim_answers q as) [] RCODE_NOERROR False (cf_dns_ttl cfg)\<rparr>
      | Withheld \<Rightarrow>
          \<lparr>do_cache = cache, do_request = None, do_reply = build_response query [] [] RCODE_SERVFAIL False 30\<rparr>
      | Sinkholed \<Rightarrow> sinkhole cfg towards query q peer proto (owned_name cfg (qn_name q)) cache)"
  by (simp add: answer_question_def name_verdict_def Let_def split: option.split)

lemma low_rcodes [simp]:
  "RCODE_NXDOMAIN AND 15 = RCODE_NXDOMAIN" "RCODE_NOERROR AND 15 = RCODE_NOERROR" "RCODE_SERVFAIL AND 15 = RCODE_SERVFAIL"
  by (simp_all add: RCODE_NXDOMAIN_def RCODE_NOERROR_def RCODE_SERVFAIL_def)

lemma a_query_outcome:
  fixes peer proto :: string
  assumes p: "parse_query data = Inr query" "dq_question query = Some q" "qn_type q = TYPE_A" "qn_class q = CLASS_IN"
    and m: "do_reply (dns_handle cfg towards upstream data peer proto cache) = Inr m"
    and whole: "unpack16 m 2 AND 0x0200 = 0" and r: "parse_response m = Inr r"
    and as: "\<And>as. name_verdict cfg upstream (qn_name q) = Claimed as \<Longrightarrow> list_all (\<lambda>a. 0 \<le> a \<and> a < 4294967296) as"
  defines "own \<equiv> snd (answer_ip cfg towards peer cache)"
    and "noted \<equiv> do_request (dns_handle cfg towards upstream data peer proto cache)"
  shows "case name_verdict cfg upstream (qn_name q) of
      Denied \<Rightarrow> rs_rcode r = RCODE_NXDOMAIN \<and> rs_addresses r = [] \<and> map_option rq_host noted = Some (Some (qn_name q))
    | Claimed as \<Rightarrow> rs_rcode r = RCODE_NOERROR \<and> rs_addresses r = as \<and> noted = None
    | Withheld \<Rightarrow> rs_rcode r = RCODE_SERVFAIL \<and> rs_addresses r = [] \<and> noted = None
    | Sinkholed \<Rightarrow> rs_rcode r = RCODE_NOERROR \<and> Some (rs_addresses r) = map_option (\<lambda>b. [int (be_num b)]) (aton own)
        \<and> map_option rq_host noted = Some (Some (qn_name q))"
proof -
  have ok: "question_ok q" by (rule parse_query_question [OF p(1,2)])
  have h: "dns_handle cfg towards upstream data peer proto cache = answer_question cfg towards upstream query q peer proto cache"
    using p(1,2) by (simp add: dns_handle_def)
  note reads = answer_addresses [OF _ p(2) ok whole r]
  show ?thesis
  proof (cases "name_verdict cfg upstream (qn_name q)")
    case Denied
    then obtain au where "build_response query [] au RCODE_NXDOMAIN True (cf_dns_ttl cfg) = Inr m"
      using m by (auto simp: h answer_by_verdict bindE_Inr_iff)
    from reads [OF this] show ?thesis using Denied by (simp add: noted_def h answer_by_verdict name_request_def Let_def)
  next
    case (Claimed as)
    then have "build_response query (claim_answers q as) [] RCODE_NOERROR False (cf_dns_ttl cfg) = Inr m"
      using m by (simp add: h answer_by_verdict)
    from reads [OF this] show ?thesis
      using Claimed good_addresses [OF assms(8) p(3)] by (simp add: noted_def h answer_by_verdict)
  next
    case Withheld
    then have "build_response query [] [] RCODE_SERVFAIL False 30 = Inr m" using m by (simp add: h answer_by_verdict)
    from reads [OF this] show ?thesis using Withheld by (simp add: noted_def h answer_by_verdict)
  next
    case Sinkholed
    then have s: "do_reply (sinkhole cfg towards query q peer proto (owned_name cfg (qn_name q)) cache) = Inr m"
      using m by (simp add: h answer_by_verdict)
    obtain cache1 where ip: "answer_ip cfg towards peer cache = (cache1, own)" by (cases "answer_ip cfg towards peer cache") (simp add: own_def)
    have "aton own \<noteq> None"
      using s p(3,4) by (auto simp: sinkhole_def ip bindE_Inr_iff sinkhole_answers_def onlyE_def a_rdata_def Let_def split: option.splits)
    then obtain b where b: "aton own = Some b" by blast
    have "length b = 4" by (rule length_aton [OF b])
    moreover have "build_response query [(TYPE_A, b)] [] RCODE_NOERROR (owned_name cfg (qn_name q)) (cf_dns_ttl cfg) = Inr m"
      using s by (simp add: sinkhole_def ip sinkhole_a [OF p(3,4) b] zone_soa_def)
    ultimately show ?thesis
      using reads Sinkholed b by (simp add: noted_def h answer_by_verdict sinkhole_def ip name_request_def Let_def)
  qed
qed

text \<open>C19: a name is answered by whoever claims it. The whole answer to an A question, read back by a
  resolver, says that a denied name does not exist; gives the addresses of a name that is claimed
  upstream, and records nothing; fails for an internal name nobody answers for, and records
  nothing; and gives every other name the one address of this service that the client can reach,
  and records the name.\<close>

theorem name_policy:
  fixes peer proto :: string
  assumes "parse_query data = Inr query" and "dq_question query = Some q" and "qn_type q = TYPE_A"
    and "qn_class q = CLASS_IN"
    and "do_reply (dns_handle cfg towards upstream data peer proto cache) = Inr m"
    and "unpack16 m 2 AND 0x0200 = 0" and "parse_response m = Inr r"
    and "\<And>as. name_verdict cfg upstream (qn_name q) = Claimed as \<Longrightarrow> list_all (\<lambda>a. 0 \<le> a \<and> a < 4294967296) as"
  shows "case name_verdict cfg upstream (qn_name q) of
      Denied \<Rightarrow> rs_rcode r = RCODE_NXDOMAIN \<and> rs_addresses r = []
        \<and> map_option rq_host (do_request (dns_handle cfg towards upstream data peer proto cache)) = Some (Some (qn_name q))
    | Claimed as \<Rightarrow> rs_rcode r = RCODE_NOERROR \<and> rs_addresses r = as
        \<and> do_request (dns_handle cfg towards upstream data peer proto cache) = None
    | Withheld \<Rightarrow> rs_rcode r = RCODE_SERVFAIL \<and> rs_addresses r = []
        \<and> do_request (dns_handle cfg towards upstream data peer proto cache) = None
    | Sinkholed \<Rightarrow> rs_rcode r = RCODE_NOERROR
        \<and> Some (rs_addresses r) = map_option (\<lambda>b. [int (be_num b)]) (aton (snd (answer_ip cfg towards peer cache)))
        \<and> map_option rq_host (do_request (dns_handle cfg towards upstream data peer proto cache)) = Some (Some (qn_name q))"
  using assms by (rule a_query_outcome)

text \<open>C20: whatever the upstream servers have replied so far, the addresses in an answer to an A question are
  addresses of the deployment or this service's own address.\<close>

theorem no_foreign_address:
  fixes peer proto :: string
  assumes p: "parse_query data = Inr query" "dq_question query = Some q" "qn_type q = TYPE_A" "qn_class q = CLASS_IN"
    and m: "do_reply (dns_handle cfg towards (Some ask) data peer proto cache) = Inr m"
      "unpack16 m 2 AND 0x0200 = 0" "parse_response m = Inr r"
    and ask: "\<And>name critical. \<exists>ops op.
      stub_answer (foldl stub_step (new_stub servers networks positive negative) ops) op = Some (ask name critical)"
    and a: "a \<in> set (rs_addresses r)"
  shows "is_local networks a \<or> aton (snd (answer_ip cfg towards peer cache)) = Some (be_bytes 4 (nat a))"
proof -
  have good: "good_claim networks (ask name critical)" for name critical
    using ask [of name critical] stub_answer_good by (elim exE) simp
  then have claimed: "list_all (is_local networks) as \<and> list_all (\<lambda>a. 0 \<le> a \<and> a < 4294967296) as"
    if "name_verdict cfg (Some ask) (qn_name q) = Claimed as" for as
    using that by (auto simp: name_verdict_def Let_def good_claim_def split: if_splits)
  note out = a_query_outcome [OF p m]
  show ?thesis
  proof (cases "name_verdict cfg (Some ask) (qn_name q)")
    case Denied
    with out a show ?thesis by simp
  next
    case (Claimed as)
    with out claimed a show ?thesis by (auto simp: list_all_iff)
  next
    case Withheld
    with out a show ?thesis by simp
  next
    case Sinkholed
    with out have "Some (rs_addresses r) = map_option (\<lambda>b. [int (be_num b)]) (aton (snd (answer_ip cfg towards peer cache)))"
      by simp
    then obtain b where b: "aton (snd (answer_ip cfg towards peer cache)) = Some b" "rs_addresses r = [int (be_num b)]"
      by (cases "aton (snd (answer_ip cfg towards peer cache))") auto
    then have "be_bytes 4 (nat a) = b" using a length_aton [OF b(1)] be_bytes_num [of b] by simp
    then show ?thesis using b(1) by simp
  qed
qed

section \<open>Framing\<close>

definition framed :: "bytes \<Rightarrow> bytes" where
  "framed m = be_bytes 2 (length m) @ m"

fun answer_all :: "('s \<Rightarrow> bytes \<Rightarrow> 's \<times> (dns_error + bytes)) \<Rightarrow> 's \<Rightarrow> bytes list \<Rightarrow> 's \<times> bytes list" where
  "answer_all handler s [] = (s, [])"
| "answer_all handler s (m # ms) =
     (case handler s m of
        (s1, Inl e) \<Rightarrow> (s1, [])
      | (s1, Inr reply) \<Rightarrow> let (s2, replies) = answer_all handler s1 ms in (s2, reply # replies))"

lemma dns_tcp_frames:
  assumes "\<And>s m. inv0 s \<Longrightarrow> ok m \<Longrightarrow>
      \<exists>s1 reply. handler s m = (s1, Inr reply) \<and> inv0 s1 \<and> length reply < 65536"
    and "\<And>m. ok m \<Longrightarrow> m \<noteq> [] \<and> length m < 65536"
  shows "list_all ok ms \<Longrightarrow> inv0 s \<Longrightarrow> dns_tcp handler s (concat (map framed ms)) =
     (fst (answer_all handler s ms), concat (map framed (snd (answer_all handler s ms))))"
proof (induction ms arbitrary: s)
  case (Cons m ms)
  have m: "m \<noteq> []" "length m < 65536" using assms(2) [of m] Cons.prems(1) by simp_all
  obtain s1 reply where h: "handler s m = (s1, Inr reply)" "inv0 s1" "length reply < 65536"
    using assms(1) [of s m] Cons.prems by auto
  have n: "unat (of_nat (length m div 256) :: byte) * 256 + unat (of_nat (length m) :: byte) = length m"
    using m(2) by (simp add: unat_of_nat_byte)
  have "framed m = of_nat (length m div 256) # of_nat (length m) # m"
    by (simp add: framed_def numeral_2_eq_2)
  then show ?case
    using Cons.IH [OF _ h(2)] Cons.prems(1) m h n
    by (simp add: Let_def case_prod_beta) (simp add: framed_def)
qed simp

text \<open>Over TCP, a sequence of framed messages is answered by the framed answers, one by one and in
  order: none is lost, none is cut in two, and none ends the connection.\<close>

theorem dns_tcp_answers_all:
  assumes "dns_ready cfg towards cache" and "few_claimed upstream"
    and "list_all (\<lambda>m. m \<noteq> [] \<and> length m \<le> 5900) ms"
  shows "snd (dns_tcp (tcp_handler cfg towards upstream peer) cache (concat (map framed ms)))
      = concat (map framed (snd (answer_all (tcp_handler cfg towards upstream peer) cache ms)))
    \<and> length (snd (answer_all (tcp_handler cfg towards upstream peer) cache ms)) = length ms"
proof -
  let ?h = "tcp_handler cfg towards upstream peer"
  have step: "\<exists>s1 reply. ?h s m = (s1, Inr reply) \<and> dns_ready cfg towards s1 \<and> length reply < 65536"
    if "dns_ready cfg towards s" "m \<noteq> [] \<and> length m \<le> 5900" for s m
    using handled [OF that(1) assms(2), of m peer "''tcp''"] that(2)
    by (auto simp: tcp_handler_def Let_def replies_to_def)
  have "length (snd (answer_all ?h s ms)) = length ms"
    if "dns_ready cfg towards s" "list_all (\<lambda>m. m \<noteq> [] \<and> length m \<le> 5900) ms" for s ms
    using that
  proof (induction ms arbitrary: s)
    case (Cons m ms)
    obtain s1 reply where "?h s m = (s1, Inr reply)" "dns_ready cfg towards s1"
      using step [of s m] Cons.prems by auto
    then show ?case using Cons.IH [of s1] Cons.prems(2) by (simp add: Let_def case_prod_beta)
  qed simp
  then show ?thesis
    using dns_tcp_frames [of "dns_ready cfg towards" "\<lambda>m. m \<noteq> [] \<and> length m \<le> 5900" ?h, OF step _ assms(3,1)] assms(1,3)
    by simp
qed

text \<open>An answer does not depend on the transport: a client that retries a truncated answer over TCP gets it
  again.\<close>

lemma tcp_retry_gets_the_same:
  "do_reply (dns_handle cfg towards upstream data peer ''tcp'' cache)
     = do_reply (dns_handle cfg towards upstream data peer ''udp'' cache)"
  by (simp add: dns_handle_def answer_by_verdict sinkhole_def case_prod_beta split: sum.split option.split verdict.split)

section \<open>A concrete client\<close>

definition shop_cfg :: oob_config where
  "shop_cfg =
     \<lparr>cf_zone = ''Fun.'', cf_telemetry_host = None, cf_app = ''edge-resolver'', cf_public_ip = None, cf_dns_ttl = 30,
      cf_internal_names = [''db''], cf_denylist = [], cf_synthetic = [], cf_known_tokens = [], cf_mail_name = []\<rparr>"

abbreviation shop_reach :: reach where
  "shop_reach \<equiv> \<lambda>_. Some ''10.0.0.9''"

abbreviation nobody :: "string \<Rightarrow> bool \<Rightarrow> claim" where
  "nobody \<equiv> \<lambda>_ _. UNCLAIMED"

abbreviation shop_message :: bytes where
  "shop_message \<equiv> header_bytes 7 0x0100 1 0 0 @ written_question shop_question"

lemma shop_zone: "owned_zone shop_cfg = ''fun''"
  by code_simp

lemma shop_ready: "dns_ready shop_cfg shop_reach []" and shop_few: "few_claimed (Some nobody)"
proof -
  have "aton ''10.0.0.9'' \<noteq> None" by (simp add: aton_examples)
  then show "dns_ready shop_cfg shop_reach []" by (simp add: dns_ready_def shop_zone) (simp add: shop_cfg_def)
  show "few_claimed (Some nobody)" by (simp add: few_claimed_def UNCLAIMED_def unclaimed_for_def)
qed

lemma shop_name: "qn_name shop_question = ''shop.fun''"
  by code_simp

lemma shop_length: "length (written_question shop_question) \<le> 100"
  by (simp add: written_question_def name_bytes_def label_bytes_def shop_question_def)

lemma shop_verdict: "name_verdict shop_cfg (Some nobody) ''shop.fun'' = Sinkholed"
proof -
  have "is_internal_name shop_cfg ''shop.fun'' = False" "is_denied shop_cfg ''shop.fun'' = False" by code_simp+
  then show ?thesis by (simp add: name_verdict_def Let_def)
qed

lemma shop_address: "snd (answer_ip shop_cfg shop_reach peer []) = ''10.0.0.9''"
  by (simp add: answer_ip_def shop_cfg_def str_or_def Let_def)

lemma shop_handled: "do_reply (dns_handle shop_cfg shop_reach (Some nobody) shop_message peer proto []) = Inr shop_reply"
proof -
  let ?q = "shop_query\<lparr>dq_raw := shop_message\<rparr>"
  have q: "dq_question ?q = Some shop_question" "qn_type shop_question = TYPE_A" "qn_class shop_question = CLASS_IN"
    by (simp_all add: shop_query_def shop_question_def)
  have "owned_name shop_cfg ''shop.fun''" by code_simp
  then have "do_reply (dns_handle shop_cfg shop_reach (Some nobody) shop_message peer proto [])
      = build_response ?q shop_answers [] RCODE_NOERROR True 30"
    using shop_address [of peer] aton_examples(1)
    by (simp add: dns_handle_def shop_query_parsed q(1) answer_by_verdict shop_name shop_verdict sinkhole_def
        sinkhole_a [OF q(2,3)] zone_soa_def case_prod_beta del: append.simps) (simp add: shop_cfg_def)
  also have "\<dots> = build_response shop_query shop_answers [] RCODE_NOERROR True 30"
  proof -
    have "response_flags ?q RCODE_NOERROR True = response_flags shop_query RCODE_NOERROR True"
      by (simp add: response_flags_def dq_opcode_def dq_recursion_def)
    moreover have "dq_txid ?q = dq_txid shop_query" "dq_question ?q = dq_question shop_query" by simp_all
    ultimately show ?thesis by (simp only: build_response_def)
  qed
  finally show ?thesis by (simp only: shop_reply_built)
qed

lemma dns_always_answered_witness:
  "\<exists>m. do_reply (dns_handle shop_cfg shop_reach (Some nobody) [7, 8, 9] ''10.0.0.7'' ''udp'' []) = Inr m \<and> take 2 m = [7, 8]"
  using dns_always_answered [OF shop_ready shop_few, of "[7, 8, 9]" "''10.0.0.7''" "''udp''"] by fastforce

lemma name_policy_witness:
  "\<exists>r. parse_response shop_reply = Inr r \<and> rs_addresses r = [167772169]
     \<and> map_option rq_host (do_request (dns_handle shop_cfg shop_reach (Some nobody) shop_message ''10.0.0.7'' ''udp'' []))
         = Some (Some ''shop.fun'')"
proof -
  obtain r where r: "parse_response shop_reply = Inr r" using shop_reply_parsed by blast
  have "be_num [10, 0, 0, 9] = 167772169" by (simp add: be_num_def)
  then show ?thesis
    using name_policy [OF shop_query_parsed _ _ _ shop_handled shop_reply_untruncated r, of shop_question "''10.0.0.7''" "''udp''"] r
      aton_examples(1) shop_address [of "''10.0.0.7''"]
    by (simp add: shop_query_def shop_name shop_verdict) (simp add: shop_question_def)
qed

lemma no_foreign_address_witness:
  "\<exists>r. parse_response shop_reply = Inr r
     \<and> (\<forall>a\<in>set (rs_addresses r). is_local [Net4 2130706432 8] a \<or> aton ''10.0.0.9'' = Some (be_bytes 4 (nat a)))"
proof -
  obtain r where r: "parse_response shop_reply = Inr r" using shop_reply_parsed by blast
  have q: "dq_question (shop_query\<lparr>dq_raw := shop_message\<rparr>) = Some shop_question" by (simp add: shop_query_def)
  have ask: "\<exists>ops op. stub_answer (foldl stub_step (new_stub [] [Net4 2130706432 8] 30 5) ops) op = Some (nobody name critical)"
    for name critical
    by (rule exI [of _ "[]"], rule exI [of _ "Early 0 False False []"]) (simp add: claim_early_def new_stub_def Let_def)
  have "is_local [Net4 2130706432 8] a \<or> aton (snd (answer_ip shop_cfg shop_reach ''10.0.0.7'' [])) = Some (be_bytes 4 (nat a))"
    if "a \<in> set (rs_addresses r)" for a
    by (rule no_foreign_address [OF shop_query_parsed q _ _ shop_handled shop_reply_untruncated r ask that])
       (simp_all add: shop_question_def)
  then show ?thesis using r by (auto simp: shop_address)
qed

lemma dns_tcp_answers_all_witness:
  "length (snd (answer_all (tcp_handler shop_cfg shop_reach (Some nobody) ''10.0.0.7'') [] [shop_message, [1, 2]])) = 2"
proof -
  have "shop_message \<noteq> []" by (simp flip: length_0_conv)
  then have "list_all (\<lambda>m. m \<noteq> [] \<and> length m \<le> 5900) [shop_message, [1, 2]]" using shop_length by simp
  from conjunct2 [OF dns_tcp_answers_all [OF shop_ready shop_few this, of "''10.0.0.7''"]] show ?thesis
    by (simp only: list.size)
qed

end
