(* ===== verification/Export.thy ===== *)
theory Export
  imports Collector_Facts
begin

text \<open>
  Reading a run out of the collector: \<open>export_events\<close> and \<open>count_http_requests\<close> of
  \<open>runners/_lib/collector.py\<close> and \<open>fetch_events\<close> of \<open>benchctl/events.py\<close>, against the endpoint
  \<open>GET /v1/runs/{id}/events\<close>. A server is a function of its state and the cursor; a loop that a server
  may keep going forever has the result \<open>None\<close> then.
\<close>

section \<open>The endpoint\<close>

datatype reply = Refused | Page "obj list" "int option"

text \<open>\<open>Event.as_dict\<close>; \<open>show_ts\<close> prints a time.\<close>

definition stored_json :: "(rat \<Rightarrow> string) \<Rightarrow> stored \<Rightarrow> obj" where
  "stored_json show_ts x =
     dict_set ''received_at'' (JStr (show_ts (qd_received (sr_item x))))
       (dict_set ''seq'' (JInt (int (sr_seq x))) (qd_payload (sr_item x)))"

definition export_reply :: "(rat \<Rightarrow> string) \<Rightarrow> page \<Rightarrow> reply" where
  "export_reply show_ts pg = Page (map (stored_json show_ts) (pg_rows pg)) (map_option int (pg_next pg))"

text \<open>A server whose collector goes on working: before each request some operations take place. The
  endpoint accepts a limit from 1 to 50000.\<close>

type_synonym live_server = "collector \<times> collector_op list list"

definition live_collector :: "(json \<Rightarrow> vevent option) \<Rightarrow> (queued list \<Rightarrow> bool) \<Rightarrow> live_server \<Rightarrow> collector" where
  "live_collector validate db_ok s =
     (case snd s of [] \<Rightarrow> fst s | ops # _ \<Rightarrow> foldl (collector_step validate db_ok) (fst s) ops)"

definition serve_events ::
  "(json \<Rightarrow> vevent option) \<Rightarrow> (queued list \<Rightarrow> bool) \<Rightarrow> (rat \<Rightarrow> string) \<Rightarrow> string \<Rightarrow> string option \<Rightarrow> nat \<Rightarrow>
   live_server \<Rightarrow> int option \<Rightarrow> live_server \<times> reply" where
  "serve_events validate db_ok show_ts i ty limit s after_seq =
     (let c = live_collector validate db_ok s
      in if int limit < 1 \<or> 50000 < int limit \<or> (case after_seq of None \<Rightarrow> False | Some n \<Rightarrow> n < 0)
            \<or> dict_get (co_runs c) i = None then ((c, tl (snd s)), Refused)
         else let (c1, pg) = get_events db_ok c i ty (map_option nat after_seq) limit
              in ((c1, tl (snd s)), export_reply show_ts pg))"

section \<open>The runners' loop\<close>

text \<open>\<open>isinstance(seq, int)\<close>, which a truth value is as well.\<close>

definition event_seq :: "obj \<Rightarrow> int option" where
  "event_seq e = (case jget e ''seq'' of JInt n \<Rightarrow> Some n | JBool b \<Rightarrow> Some (of_bool b) | _ \<Rightarrow> None)"

definition advance :: "int \<Rightarrow> obj \<Rightarrow> int" where
  "advance n e = (case event_seq e of None \<Rightarrow> n | Some k \<Rightarrow> max n k)"

definition advance_page :: "int \<Rightarrow> obj list \<Rightarrow> int option \<Rightarrow> int" where
  "advance_page n es nxt =
     (let m = foldl advance n es in case nxt of None \<Rightarrow> m | Some k \<Rightarrow> if k = 0 then m else max m k)"

text \<open>The loop of both readers; what they do with an event is a parameter.\<close>

partial_function (option) page_loop ::
  "('s \<Rightarrow> int option \<Rightarrow> 's \<times> reply) \<Rightarrow> ('a \<Rightarrow> obj \<Rightarrow> 'a) \<Rightarrow> nat \<Rightarrow> 's \<Rightarrow> int \<Rightarrow> 'a \<Rightarrow> ('s \<times> int \<times> 'a) option" where
  "page_loop serve f page_size s n a =
     (case serve s (Some n) of
        (s1, Refused) \<Rightarrow> Some (s1, n, a)
      | (s1, Page es nxt) \<Rightarrow>
          (let n1 = advance_page n es nxt; a1 = foldl f a es
           in if es = [] \<or> length es < page_size then Some (s1, n1, a1) else page_loop serve f page_size s1 n1 a1))"

section \<open>Counting requests\<close>

definition count_request :: "nat \<Rightarrow> obj \<Rightarrow> nat" where
  "count_request t e = (if jtruthy (jget e ''synthetic'') then t else t + 1)"

record collector_client =
  cc_cursor :: "(string, int) dict"
  cc_counts :: "(string, nat) dict"

definition new_client :: collector_client where
  "new_client = \<lparr>cc_cursor = [], cc_counts = []\<rparr>"

definition count_http_requests ::
  "('s \<Rightarrow> int option \<Rightarrow> 's \<times> reply) \<Rightarrow> nat \<Rightarrow> string \<Rightarrow> 's \<Rightarrow> collector_client \<Rightarrow> ('s \<times> collector_client \<times> nat) option" where
  "count_http_requests serve page_size i s cl =
     map_option (\<lambda>(s1, n, t). (s1, \<lparr>cc_cursor = dict_set i n (cc_cursor cl), cc_counts = dict_set i t (cc_counts cl)\<rparr>, t))
       (page_loop serve count_request page_size s (get_or (dict_get (cc_cursor cl) i) 0) (get_or (dict_get (cc_counts cl) i) 0))"

section \<open>Exporting a run\<close>

text \<open>The lines of the two files and the counts.\<close>

record export =
  xp_kept :: "obj list"
  xp_out :: "obj list"
  xp_types :: "(string, nat) dict"
  xp_apps :: "(string, nat) dict"
  xp_requests :: "(string, nat) dict"

definition tally_up :: "string \<Rightarrow> (string, nat) dict \<Rightarrow> (string, nat) dict" where
  "tally_up k d = dict_set k (get_or (dict_get d k) 0 + 1) d"

definition export_event :: "(obj \<Rightarrow> bool) \<Rightarrow> export \<Rightarrow> obj \<Rightarrow> export" where
  "export_event in_scope x e =
     (if \<not> in_scope e then x\<lparr>xp_out := xp_out x @ [e]\<rparr>
      else
        let kind = (case dict_get e ''type'' of None \<Rightarrow> ''unknown'' | Some t \<Rightarrow> jstr t);
            app = (if jtruthy (jget e ''app'') then jstr (jget e ''app'') else []);
            x1 = x\<lparr>xp_kept := xp_kept x @ [e], xp_types := tally_up kind (xp_types x)\<rparr>
        in if app = [] then x1
           else x1\<lparr>xp_apps := tally_up app (xp_apps x1),
                   xp_requests := (if kind = ''http_request'' \<and> \<not> jtruthy (jget e ''synthetic'')
                     then tally_up app (xp_requests x1) else xp_requests x1)\<rparr>)"

definition export_events ::
  "('s \<Rightarrow> int option \<Rightarrow> 's \<times> reply) \<Rightarrow> (obj \<Rightarrow> bool) \<Rightarrow> nat \<Rightarrow> 's \<Rightarrow> ('s \<times> int \<times> export) option" where
  "export_events serve in_scope page_size s =
     page_loop serve (export_event in_scope) page_size s 0
       \<lparr>xp_kept = [], xp_out = [], xp_types = [], xp_apps = [], xp_requests = []\<rparr>"

section \<open>The scorer's loop\<close>

text \<open>\<open>fetch_events\<close>, before the events are read and the run's record is looked up; a refused request
  raises, and then there is no list.\<close>

partial_function (option) fetch_loop ::
  "('s \<Rightarrow> int option \<Rightarrow> 's \<times> reply) \<Rightarrow> 's \<Rightarrow> int option \<Rightarrow> obj list \<Rightarrow> ('s \<times> obj list option) option" where
  "fetch_loop serve s cursor items =
     (case serve s cursor of
        (s1, Refused) \<Rightarrow> Some (s1, None)
      | (s1, Page es nxt) \<Rightarrow>
          (if es = [] \<or> nxt = None \<or> (cursor \<noteq> None \<and> the nxt \<le> the cursor) then Some (s1, Some (items @ es))
           else fetch_loop serve s1 nxt (items @ es)))"

definition fetch_events :: "('s \<Rightarrow> int option \<Rightarrow> 's \<times> reply) \<Rightarrow> 's \<Rightarrow> ('s \<times> stream option) option" where
  "fetch_events serve s =
     map_option (\<lambda>(s1, items). (s1, map_option (\<lambda>xs. events_from_iterable (map JObj xs)) items)) (fetch_loop serve s None [])"

text \<open>The written file as \<open>load_events\<close> decodes it: a single line is a document of its own.\<close>

definition written_file :: "obj list \<Rightarrow> export_file" where
  "written_file es = (case es of [e] \<Rightarrow> OneDocument (JObj e) | _ \<Rightarrow> PerLine (map JObj es))"

end
