(* ===== verification/Export_Facts.thy ===== *)
theory Export_Facts
  imports Export
begin

text \<open>
  Reading a source that goes on growing: whatever is appended between two pages, both readers end,
  and have then read every event of the run exactly once and in order. One locale states what the
  readers need of a source; the collector is one.
\<close>

section \<open>Interface: a source that is read in pages\<close>

definition key :: "obj \<Rightarrow> int" where
  "key e = the (event_seq e)"

definition cursor_of :: "obj list \<Rightarrow> int" where
  "cursor_of d = (if d = [] then 0 else key (last d))"

definition in_order :: "obj list \<Rightarrow> bool" where
  "in_order es \<longleftrightarrow> sorted_wrt (\<lambda>a b. key a < key b) es \<and> list_all (\<lambda>e. event_seq e = Some (key e) \<and> 0 < key e) es"

definition page_reply :: "nat \<Rightarrow> int \<Rightarrow> obj list \<Rightarrow> reply" where
  "page_reply page_size n rs =
     (let es = take page_size (filter (\<lambda>e. n < key e) rs)
      in Page es (if es = [] then None else Some (key (last es))))"

lemma in_order_append:
  "in_order (d @ r) \<longleftrightarrow> in_order d \<and> in_order r \<and> (\<forall>a\<in>set d. \<forall>b\<in>set r. key a < key b)"
  by (auto simp: in_order_def sorted_wrt_append)

lemma upto_cursor: "in_order d \<Longrightarrow> e \<in> set d \<Longrightarrow> key e \<le> cursor_of d"
proof (induction d rule: rev_induct)
  case (snoc x d)
  then show ?case by (auto simp: in_order_append cursor_of_def less_imp_le)
qed simp

lemma beyond_cursor: "in_order (d @ r) \<Longrightarrow> e \<in> set r \<Longrightarrow> cursor_of d < key e"
proof (cases "d = []")
  case False
  assume "in_order (d @ r)" "e \<in> set r"
  then have "\<forall>a\<in>set d. key a < key e" by (simp add: in_order_append)
  then show ?thesis using False by (simp add: cursor_of_def)
qed (auto simp: cursor_of_def in_order_def list_all_iff)

lemma newer_than_cursor: "in_order (d @ r) \<Longrightarrow> filter (\<lambda>e. cursor_of d < key e) (d @ r) = r"
proof -
  assume o: "in_order (d @ r)"
  then have "filter (\<lambda>e. cursor_of d < key e) d = []"
    using upto_cursor [of d] by (fastforce simp: filter_empty_conv in_order_append)
  moreover have "filter (\<lambda>e. cursor_of d < key e) r = r"
    using beyond_cursor [OF o] by (simp add: filter_id_conv)
  ultimately show ?thesis by simp
qed

lemma advance_all: "in_order (d @ es) \<Longrightarrow> foldl advance (cursor_of d) es = cursor_of (d @ es)"
proof (induction es rule: rev_induct)
  case (snoc x es)
  then have "foldl advance (cursor_of d) es = cursor_of (d @ es)" by (simp add: in_order_append)
  moreover have "event_seq x = Some (key x)" "cursor_of (d @ es) < key x"
    using snoc.prems beyond_cursor [of "d @ es" "[x]" x] by (simp_all add: in_order_def)
  ultimately have "advance (foldl advance (cursor_of d) es) x = key x" by (simp add: advance_def)
  then show ?case by (simp add: cursor_of_def)
qed simp

lemma advance_page_all:
  assumes "in_order (d @ es)"
  shows "advance_page (cursor_of d) es (if es = [] then None else Some (key (last es))) = cursor_of (d @ es)"
  using advance_all [OF assms] by (auto simp: advance_page_def Let_def cursor_of_def)

locale growing_source =
  fixes serve :: "'s \<Rightarrow> int option \<Rightarrow> 's \<times> reply"
    and ok :: "'s \<Rightarrow> bool"
    and rows :: "'s \<Rightarrow> obj list"
    and cap :: "'s \<Rightarrow> nat"
    and page_size :: nat
  assumes positive: "ok s \<Longrightarrow> 0 < page_size"
    and numbered: "ok s \<Longrightarrow> in_order (rows s)"
    and bounded: "ok s \<Longrightarrow> length (rows s) \<le> cap s"
    and served: "ok s \<Longrightarrow> (\<And>n. q = Some n \<Longrightarrow> 0 \<le> n) \<Longrightarrow>
      \<exists>s1 more_rows. serve s q = (s1, page_reply page_size (get_or q 0) (rows s1)) \<and> ok s1
        \<and> rows s1 = rows s @ more_rows \<and> cap s1 \<le> cap s"
begin

lemma cursor_nonneg: "in_order d \<Longrightarrow> 0 \<le> cursor_of d"
  by (cases d rule: rev_cases) (auto simp: cursor_of_def in_order_def)

text \<open>One request, when a prefix of the rows has been read.\<close>

lemma one_page:
  assumes "ok s" and "rows s = d @ r" and "get_or q 0 = cursor_of d"
  obtains s1 r1 where "serve s q = (s1, Page (take page_size r1) (if take page_size r1 = [] then None
        else Some (key (last (take page_size r1)))))"
    and "ok s1" and "rows s1 = d @ r1" and "cap s1 \<le> cap s" and "\<exists>x. r1 = r @ x"
proof -
  have "0 \<le> n" if "q = Some n" for n
    using assms that numbered [OF assms(1)] cursor_nonneg [of d] by (simp add: get_or_def in_order_append)
  then obtain s1 x where s: "serve s q = (s1, page_reply page_size (get_or q 0) (rows s1))" "ok s1"
      "rows s1 = rows s @ x" "cap s1 \<le> cap s"
    using served [OF assms(1), of q] by blast
  then have "rows s1 = d @ (r @ x)" using assms(2) by simp
  moreover have "page_reply page_size (get_or q 0) (rows s1) = Page (take page_size (r @ x))
      (if take page_size (r @ x) = [] then None else Some (key (last (take page_size (r @ x)))))"
    using newer_than_cursor [of d "r @ x"] numbered [OF s(2)] unfolding calculation assms(3)
    by (simp add: page_reply_def Let_def)
  ultimately show ?thesis using that [of s1 "r @ x"] s by simp
qed

lemma page_loop_reads:
  assumes "ok s" and "rows s = d @ r" and "I s" and "\<And>s q. I s \<Longrightarrow> I (fst (serve s q))"
  shows "\<exists>s1 x. page_loop serve f page_size s (cursor_of d) a = Some (s1, cursor_of (d @ x), foldl f a x)
    \<and> ok s1 \<and> rows s1 = d @ x \<and> (\<exists>y. x = r @ y) \<and> I s1"
  using assms(1-3)
proof (induction "cap s - length d" arbitrary: s d r a rule: less_induct)
  case less
  obtain s1 r1 where p: "serve s (Some (cursor_of d)) = (s1, Page (take page_size r1) (if take page_size r1 = [] then None
        else Some (key (last (take page_size r1)))))" "ok s1" "rows s1 = d @ r1" "cap s1 \<le> cap s" "\<exists>x. r1 = r @ x"
    using one_page [OF less.prems(1,2), of "Some (cursor_of d)"] by (auto simp: get_or_def)
  have kept: "I s1" using assms(4) [OF less.prems(3)] p(1) by (metis fst_conv)
  let ?es = "take page_size r1"
  have o: "in_order (d @ r1)" using numbered [OF p(2)] p(3) by simp
  then have "in_order ((d @ ?es) @ drop page_size r1)" by simp
  then have "in_order (d @ ?es)" using in_order_append by blast
  note adv = advance_page_all [OF this]
  have loop: "page_loop serve f page_size s (cursor_of d) a =
      (if ?es = [] \<or> length ?es < page_size then Some (s1, cursor_of (d @ ?es), foldl f a ?es)
       else page_loop serve f page_size s1 (cursor_of (d @ ?es)) (foldl f a ?es))"
    by (subst page_loop.simps) (simp only: p(1) prod.case reply.case adv Let_def)
  show ?case
  proof (cases "?es = [] \<or> length ?es < page_size")
    case True
    have "?es = r1" using True positive [OF less.prems(1)] by auto
    then show ?thesis using loop True p kept by auto
  next
    case False
    then have long: "length ?es = page_size" "0 < page_size" using positive [OF less.prems(1)] by auto
    have rows1: "rows s1 = (d @ ?es) @ drop page_size r1" using p(3) by simp
    have "length (d @ ?es) \<le> cap s1" using bounded [OF p(2)] rows1 by (metis length_append le_add1 order_trans)
    then have "cap s1 - length (d @ ?es) < cap s - length d" using p(4) long by (simp only: length_append)
    from less.hyps [OF this p(2) rows1 kept, of "foldl f a ?es"]
    obtain s2 x y where x: "page_loop serve f page_size s1 (cursor_of (d @ ?es)) (foldl f a ?es)
          = Some (s2, cursor_of ((d @ ?es) @ x), foldl f (foldl f a ?es) x)" "ok s2" "rows s2 = (d @ ?es) @ x"
        "x = drop page_size r1 @ y" "I s2" by blast
    have "page_loop serve f page_size s (cursor_of d) a = Some (s2, cursor_of (d @ (?es @ x)), foldl f a (?es @ x))"
      unfolding loop if_not_P [OF False] x(1) by simp
    moreover have "rows s2 = d @ (?es @ x)" using x(3) by simp
    moreover have "\<exists>z. ?es @ x = r @ z" using p(5) x(4) by (metis append.assoc append_take_drop_id)
    ultimately show ?thesis using x(2,5) by blast
  qed
qed

lemma fetch_loop_reads:
  assumes "ok s" and "rows s = d @ r" and "I s" and "\<And>s q. I s \<Longrightarrow> I (fst (serve s q))"
  shows "\<exists>s1 x. fetch_loop serve s (if d = [] then None else Some (cursor_of d)) d = Some (s1, Some (d @ x))
    \<and> ok s1 \<and> rows s1 = d @ x \<and> (\<exists>y. x = r @ y) \<and> I s1"
  using assms(1-3)
proof (induction "cap s - length d" arbitrary: s d r rule: less_induct)
  case less
  let ?q = "if d = [] then None else Some (cursor_of d)"
  have q: "get_or ?q 0 = cursor_of d" by (simp add: get_or_def cursor_of_def)
  obtain s1 r1 where p: "serve s ?q = (s1, Page (take page_size r1) (if take page_size r1 = [] then None
        else Some (key (last (take page_size r1)))))" "ok s1" "rows s1 = d @ r1" "cap s1 \<le> cap s" "\<exists>x. r1 = r @ x"
    using one_page [OF less.prems(1,2) q] by blast
  have kept: "I s1" using assms(4) [OF less.prems(3)] p(1) by (metis fst_conv)
  let ?es = "take page_size r1"
  have o: "in_order (d @ r1)" using numbered [OF p(2)] p(3) by simp
  show ?case
  proof (cases "?es = []")
    case True
    then have "r1 = []" using positive [OF less.prems(1)] by auto
    moreover have "fetch_loop serve s ?q d = Some (s1, Some (d @ ?es))"
      by (subst fetch_loop.simps) (simp add: p(1) True)
    ultimately show ?thesis using p kept by auto
  next
    case False
    have "cursor_of d < key (last ?es)"
      using False beyond_cursor [OF o] by (metis in_set_takeD last_in_set)
    then have loop: "fetch_loop serve s ?q d = fetch_loop serve s1 (Some (key (last ?es))) (d @ ?es)"
      using False by (subst fetch_loop.simps) (simp add: p(1))
    have last_key: "(if d @ ?es = [] then None else Some (cursor_of (d @ ?es))) = Some (key (last ?es))"
      using False by (simp add: cursor_of_def)
    have rows1: "rows s1 = (d @ ?es) @ drop page_size r1" using p(3) by simp
    have "length (d @ ?es) \<le> cap s1" using bounded [OF p(2)] rows1 by (metis length_append le_add1 order_trans)
    moreover have "0 < length ?es" using False by (simp only: length_greater_0_conv not_False_eq_True)
    ultimately have "cap s1 - length (d @ ?es) < cap s - length d" using p(4) by (simp only: length_append)
    from less.hyps [OF this p(2) rows1 kept]
    obtain s2 x y where x: "fetch_loop serve s1 (Some (key (last ?es))) (d @ ?es) = Some (s2, Some ((d @ ?es) @ x))"
        "ok s2" "rows s2 = (d @ ?es) @ x" "x = drop page_size r1 @ y" "I s2"
      unfolding last_key by blast
    have "fetch_loop serve s ?q d = Some (s2, Some (d @ (?es @ x)))" unfolding loop x(1) by simp
    moreover have "rows s2 = d @ (?es @ x)" using x(3) by simp
    moreover have "\<exists>z. ?es @ x = r @ z" using p(5) x(4) by (metis append.assoc append_take_drop_id)
    ultimately show ?thesis using x(2,5) by blast
  qed
qed

end

section \<open>The collector goes on working\<close>

definition total :: "collector \<Rightarrow> nat" where
  "total c = length (co_events c) + queued_total c"

text \<open>How many events an operation may add.\<close>

fun weight :: "collector_op \<Rightarrow> nat" where
  "weight (CRegister spec peer now fresh) = 1"
| "weight (CSubmit raws peer now fresh) = length raws"
| "weight op = 0"

definition grows :: "nat \<Rightarrow> collector \<Rightarrow> collector \<Rightarrow> bool" where
  "grows n c c' \<longleftrightarrow>
     (\<exists>new. co_events c' = co_events c @ new \<and> list_all (\<lambda>x. 0 < sr_seq x) new)
     \<and> fst ` set (co_runs c) \<subseteq> fst ` set (co_runs c') \<and> total c' \<le> total c + n"

lemma grows_refl: "grows 0 c c"
  by (simp add: grows_def)

lemma grows_trans:
  assumes "grows m a b" and "grows n b c" shows "grows (m + n) a c"
proof -
  obtain x y where "co_events b = co_events a @ x" "co_events c = co_events b @ y"
      "list_all (\<lambda>x. 0 < sr_seq x) x" "list_all (\<lambda>x. 0 < sr_seq x) y"
    using assms unfolding grows_def by blast
  then have "\<exists>z. co_events c = co_events a @ z \<and> list_all (\<lambda>x. 0 < sr_seq x) z"
    by (intro exI [of _ "x @ y"]) simp
  moreover have "fst ` set (co_runs a) \<subseteq> fst ` set (co_runs c)"
    using assms unfolding grows_def by blast
  moreover have "total c \<le> total a + (m + n)" using assms unfolding grows_def by linarith
  ultimately show ?thesis unfolding grows_def by blast
qed

lemma grows_put: "length items \<le> n \<Longrightarrow> grows n c (fst (put_batch c items))"
  by (simp add: grows_def put_batch_def total_def queued_total_def)

lemma grows_same:
  "same_runs c c' \<Longrightarrow> co_queue c' = co_queue c \<Longrightarrow> grows 0 c c'"
  by (simp add: grows_def same_runs_def total_def queued_total_def)

lemma grows_bump: "grows n c (bump k m c') = grows n c c'"
  by (simp add: grows_def total_def)

lemma intake_accepted:
  "length (in_accepted (foldl (intake_step validate peer now fresh) st irs)) \<le> length (in_accepted st) + length irs"
proof (induction irs arbitrary: st)
  case (Cons ir irs)
  have "length (in_accepted (intake_step validate peer now fresh st ir)) \<le> length (in_accepted st) + 1"
    by (simp add: intake_step_def intake_event_def Let_def split: option.split)
  then show ?case using Cons.IH [of "intake_step validate peer now fresh st ir"] by simp
qed simp

lemma grows_submit: "grows (length raws) c (fst (submit validate c raws peer now fresh))"
proof -
  define st where "st = foldl (intake_step validate peer now fresh)
      \<lparr>in_col = c, in_accepted = [], in_dropped = 0, in_idle = 0, in_over = 0\<rparr> (zip [0 ..< length raws] raws)"
  have st: "same_runs c (in_col st)" "co_queue (in_col st) = co_queue c"
    using intake_fold_frame [of "\<lparr>in_col = c, in_accepted = [], in_dropped = 0, in_idle = 0, in_over = 0\<rparr>"
        validate peer now fresh "zip [0 ..< length raws] raws"]
    by (simp_all add: st_def)
  have len: "length (in_accepted st) \<le> length raws"
    using intake_accepted [of validate peer now fresh "\<lparr>in_col = c, in_accepted = [], in_dropped = 0, in_idle = 0, in_over = 0\<rparr>"
        "zip [0 ..< length raws] raws"] by (simp add: st_def)
  define c1 where "c1 = bump ''discarded_idle'' (in_idle st) (bump ''dropped_over_batch'' (in_over st)
                (bump ''dropped_invalid'' (in_dropped st)
                  (bump ''received'' (length (in_accepted st) + in_dropped st + in_idle st + in_over st) (in_col st))))"
  have g: "grows 0 c c1" using grows_same [OF st] by (simp add: c1_def grows_bump)
  have "fst (submit validate c raws peer now fresh)
      = (if in_accepted st \<noteq> [] then fst (put_batch c1 (in_accepted st)) else c1)"
    by (simp add: submit_def Let_def c1_def flip: st_def)
  then show ?thesis
    using grows_trans [OF g grows_put [OF len]] grows_trans [OF g, of "length raws" c1] by (simp add: grows_def)
qed

lemma grows_register: "grows 1 c (fst (register_correlation c spec peer now fresh))"
proof -
  have r: "grows 0 c (fst (register_record c r ttl now fresh))" for r ttl
    by (rule grows_same) (simp_all add: same_runs_def)
  have e: "grows 1 c1 (fst (enqueue_payload c1 p now))" for c1 p
  proof (cases "co_active c1")
    case None
    then show ?thesis using grows_refl [of c1] by (simp add: enqueue_payload_def grows_bump) (simp add: grows_def)
  qed (simp add: enqueue_payload_def grows_put)
  have "grows 0 c (bump k n (fst (register_record c r ttl now fresh)))" for k n r ttl
    using r by (simp add: grows_bump)
  then have "grows 1 c (fst (enqueue_payload (bump k n (fst (register_record c r ttl now fresh))) p now))" for k n r ttl p
    using grows_trans [OF _ e] by fastforce
  then show ?thesis by (simp add: register_correlation_def Let_def)
qed

lemma grows_writer: "grows 0 c (writer_step db_ok c)"
proof (cases "co_queue c")
  case Nil
  then show ?thesis by (simp add: writer_step_def grows_refl)
next
  case (Cons b q)
  let ?iq = "coalesce (co_batch c) b q"
  let ?c = "c\<lparr>co_queue := snd ?iq\<rparr>"
  have pos: "list_all (\<lambda>x. 0 < sr_seq x) (snd (number_rows sq xs))" for sq xs
    by (induction xs arbitrary: sq) (simp_all add: Let_def)
  have "writer_step db_ok c = write_items db_ok ?c (fst ?iq)" by (simp add: writer_step_def Cons Let_def)
  moreover have "length (fst ?iq) + sum_list (map length (snd ?iq)) = queued_total c"
    using coalesce_total [of "co_batch c" b q] by (simp add: queued_total_def Cons)
  ultimately show ?thesis
    using pos by (simp add: grows_def write_items_def Let_def total_def queued_total_def image_image add_count_def)
qed

lemma grows_flush: "grows 0 c (flush db_ok c)"
proof -
  have "grows 0 c ((writer_step db_ok ^^ n) c)" for n
  proof (induction n)
    case (Suc n)
    then show ?case using grows_trans [OF Suc grows_writer [of _ db_ok]] by simp
  qed (simp add: grows_refl)
  then show ?thesis by (simp add: flush_def)
qed

lemma grows_close_locked: "grows 0 c (fst (close_run_locked c i closing now))"
proof (cases "dict_get (co_runs c) i")
  case (Some r)
  then have "\<exists>r2. co_runs (fst (close_run_locked c i closing now)) = dict_set i r2 (co_runs c)"
    by (auto simp: close_run_locked_def Let_def)
  then have "fst ` set (co_runs c) \<subseteq> fst ` set (co_runs (fst (close_run_locked c i closing now)))"
    by (metis image_fst_dict_set subset_insertI)
  then show ?thesis by (simp add: grows_def total_def queued_total_def)
qed (simp add: close_run_locked_def grows_refl)

lemma grows_open: "grows 0 c (fst (open_run c spec force now fresh))"
proof (cases "co_active c \<noteq> None \<and> \<not> force")
  case False
  define c1 where "c1 = (case co_active c of None \<Rightarrow> c | Some i \<Rightarrow> fst (close_run_locked c i None now))"
  have "grows 0 c c1" using grows_refl grows_close_locked by (simp add: c1_def split: option.split)
  moreover have "grows 0 c1 (c1\<lparr>co_runs := dict_set fresh r (co_runs c1), co_seq := sq, co_active := a\<rparr>)" for r sq a
    unfolding grows_def total_def queued_total_def by (simp add: image_fst_dict_set subset_insertI)
  then have "grows 0 c1 (fst (open_run c spec force now fresh))"
    unfolding open_run_def if_not_P [OF False] Let_def c1_def [symmetric] by (simp add: grows_refl)
  ultimately show ?thesis using grows_trans by fastforce
qed (simp add: open_run_def grows_refl)

lemma grows_restart: "grows 0 c (restart c)"
  by (simp add: grows_def total_def queued_total_def)

lemma grows_step: "grows (weight op) c (collector_step validate db_ok c op)"
proof (cases op)
  case (CClose i closing now)
  then show ?thesis
    using grows_trans [OF grows_flush grows_close_locked] by (simp add: close_run_def)
qed (simp_all add: grows_register [simplified] grows_submit grows_writer grows_flush grows_open grows_restart)

lemma grows_run: "grows (sum_list (map weight ops)) c (foldl (collector_step validate db_ok) c ops)"
proof (induction ops arbitrary: c)
  case (Cons op ops)
  then show ?case using grows_trans [OF grows_step Cons] by simp
qed (simp add: grows_refl)

section \<open>The collector is such a source\<close>

definition wanted :: "string \<Rightarrow> string option \<Rightarrow> stored \<Rightarrow> bool" where
  "wanted i ty x \<longleftrightarrow> sr_run x = i \<and> (case ty of None \<Rightarrow> True | Some t \<Rightarrow> qd_type (sr_item x) \<in> set (type_names t))"

definition run_rows :: "(rat \<Rightarrow> string) \<Rightarrow> string \<Rightarrow> string option \<Rightarrow> collector \<Rightarrow> obj list" where
  "run_rows show_ts i ty c = map (stored_json show_ts) (filter (wanted i ty) (co_events c))"

definition live_ok :: "string \<Rightarrow> nat \<Rightarrow> live_server \<Rightarrow> bool" where
  "live_ok i limit s \<longleftrightarrow> 1 \<le> int limit \<and> int limit \<le> 50000 \<and> collector_ok (fst s)
     \<and> list_all (\<lambda>x. 0 < sr_seq x) (co_events (fst s)) \<and> i \<in> fst ` set (co_runs (fst s))"

definition live_cap :: "live_server \<Rightarrow> nat" where
  "live_cap s = total (fst s) + sum_list (map weight (concat (snd s)))"

lemma stored_seq [simp]: "event_seq (stored_json show_ts x) = Some (int (sr_seq x))" "key (stored_json show_ts x) = int (sr_seq x)"
  by (simp_all add: key_def event_seq_def stored_json_def jget_def)

lemma wanted_sorted: "collector_ok c \<Longrightarrow> sorted_wrt (<) (map sr_seq (filter (wanted i ty) (co_events c)))"
proof -
  assume "collector_ok c"
  then have "sorted_wrt (\<lambda>x y. sr_seq x < sr_seq y) (filter (\<lambda>x. sr_run x = i) (co_events c))"
    by (simp add: collector_ok_def seqs_ok_def seqs_def sorted_wrt_map)
  then have "sorted_wrt (\<lambda>x y. sr_seq x < sr_seq y)
      (filter (\<lambda>x. case ty of None \<Rightarrow> True | Some t \<Rightarrow> qd_type (sr_item x) \<in> set (type_names t))
        (filter (\<lambda>x. sr_run x = i) (co_events c)))"
    by (rule sorted_wrt_filter)
  moreover have "filter (\<lambda>x. case ty of None \<Rightarrow> True | Some t \<Rightarrow> qd_type (sr_item x) \<in> set (type_names t))
        (filter (\<lambda>x. sr_run x = i) (co_events c)) = filter (wanted i ty) (co_events c)"
    by (simp add: wanted_def [abs_def] conj_commute)
  ultimately show ?thesis by (simp add: sorted_wrt_map)
qed

lemma run_rows_in_order:
  assumes "live_ok i limit s" shows "in_order (run_rows show_ts i ty (fst s))"
proof -
  have "sorted_wrt (<) (map sr_seq (filter (wanted i ty) (co_events (fst s))))"
    using assms wanted_sorted by (simp add: live_ok_def)
  then show ?thesis
    using assms by (simp add: in_order_def run_rows_def sorted_wrt_map live_ok_def list_all_iff)
qed

lemma selected_page:
  assumes "collector_ok c" and "list_all (\<lambda>x. 0 < sr_seq x) (co_events c)" and "\<And>n. q = Some n \<Longrightarrow> 0 \<le> n"
  shows "export_reply show_ts (select_events c i ty (map_option nat q) limit)
    = page_reply limit (get_or q 0) (run_rows show_ts i ty c)"
proof -
  define fresh where "fresh = (\<lambda>x :: stored. get_or q 0 < int (sr_seq x))"
  let ?ws = "filter (wanted i ty) (co_events c)"
  have newer: "(case map_option nat q of None \<Rightarrow> True | Some n \<Rightarrow> n < sr_seq x) = fresh x" if "x \<in> set (co_events c)" for x
    using assms(2,3) that by (cases q) (auto simp: fresh_def get_or_def list_all_iff nat_less_iff)
  have sorted: "sorted (map sr_seq (filter fresh ?ws))"
    using sorted_wrt_filter [of "\<lambda>x y. sr_seq x < sr_seq y" ?ws fresh] wanted_sorted [OF assms(1), of i ty]
    by (simp add: sorted_wrt_map) (metis (no_types, lifting) less_imp_le sorted_wrt_mono_rel)
  have "filter (\<lambda>x. sr_run x = i
            \<and> (case ty of None \<Rightarrow> True | Some t \<Rightarrow> qd_type (sr_item x) \<in> set (type_names t))
            \<and> (case map_option nat q of None \<Rightarrow> True | Some n \<Rightarrow> n < sr_seq x)) (co_events c) = filter fresh ?ws"
    using newer by (auto simp: wanted_def intro: filter_cong)
  then have rows: "pg_rows (select_events c i ty (map_option nat q) limit) = take limit (filter fresh ?ws)"
    "pg_next (select_events c i ty (map_option nat q) limit)
      = (if take limit (filter fresh ?ws) = [] then None else Some (sr_seq (last (take limit (filter fresh ?ws)))))"
    using sorted by (simp_all add: select_events_def Let_def sort_key_id_if_sorted)
  have "filter (\<lambda>e. get_or q 0 < key e) (run_rows show_ts i ty c) = map (stored_json show_ts) (filter fresh ?ws)"
    by (simp add: run_rows_def filter_map comp_def fresh_def)
  then show ?thesis
    unfolding export_reply_def rows page_reply_def Let_def by (simp add: take_map last_map)
qed

lemma live_serves:
  assumes ok: "live_ok i limit s" and q: "\<And>n. q = Some n \<Longrightarrow> 0 \<le> n"
  shows "\<exists>s1 more_rows. serve_events validate db_ok show_ts i ty limit s q
        = (s1, page_reply limit (get_or q 0) (run_rows show_ts i ty (fst s1)))
    \<and> live_ok i limit s1 \<and> run_rows show_ts i ty (fst s1) = run_rows show_ts i ty (fst s) @ more_rows
    \<and> live_cap s1 \<le> live_cap s"
proof -
  define c where "c = live_collector validate db_ok s"
  define ops where "ops = (case snd s of [] \<Rightarrow> [] | o1 # _ \<Rightarrow> o1)"
  have c: "c = foldl (collector_step validate db_ok) (fst s) ops"
    by (simp add: c_def ops_def live_collector_def split: list.split)
  let ?c1 = "flush db_ok c"
  have grow: "grows (sum_list (map weight ops) + 0) (fst s) ?c1"
    unfolding c by (rule grows_trans [OF grows_run grows_flush])
  then obtain new where new: "co_events ?c1 = co_events (fst s) @ new" "list_all (\<lambda>x. 0 < sr_seq x) new"
    unfolding grows_def by blast
  have okc: "collector_ok ?c1"
    unfolding c using ok by (intro ok_flush collecting.run_inv) (simp add: live_ok_def)
  have pos: "list_all (\<lambda>x. 0 < sr_seq x) (co_events ?c1)" using ok new by (simp add: live_ok_def)
  have "i \<in> fst ` set (co_runs c)"
    using grows_run [of ops "fst s" validate db_ok] ok unfolding c [symmetric] grows_def live_ok_def by blast
  then have known: "dict_get (co_runs c) i \<noteq> None" by (simp add: dict_get_None_iff)
  have ok1: "live_ok i limit (?c1, tl (snd s))"
    using ok okc pos grow unfolding live_ok_def grows_def by (simp add: subset_iff)
  have "serve_events validate db_ok show_ts i ty limit s q
      = ((?c1, tl (snd s)), export_reply show_ts (select_events ?c1 i ty (map_option nat q) limit))"
    using ok known q
    by (auto simp: serve_events_def c_def [symmetric] live_ok_def get_events_def Let_def split: option.split)
  moreover have "live_cap (?c1, tl (snd s)) \<le> live_cap s"
    using grow by (cases "snd s") (simp_all add: live_cap_def ops_def grows_def)
  moreover have "run_rows show_ts i ty ?c1 = run_rows show_ts i ty (fst s) @ map (stored_json show_ts) (filter (wanted i ty) new)"
    by (simp add: run_rows_def new(1))
  ultimately show ?thesis
    using ok1 selected_page [OF okc pos q] by (intro exI [of _ "(?c1, tl (snd s))"]) auto
qed

interpretation live: growing_source "serve_events validate db_ok show_ts i ty limit" "live_ok i limit"
  "\<lambda>s. run_rows show_ts i ty (fst s)" live_cap limit
  for validate db_ok show_ts i ty limit
proof (unfold_locales, goal_cases)
  case (1 s)
  then show ?case by (simp add: live_ok_def)
next
  case (2 s)
  then show ?case by (rule run_rows_in_order)
next
  case (3 s)
  have "length (run_rows show_ts i ty (fst s)) \<le> length (co_events (fst s))" by (simp add: run_rows_def)
  then show ?case by (simp add: live_cap_def total_def)
next
  case (4 s q)
  then show ?case by (rule live_serves)
qed

lemma reachable_live_ok:
  assumes "c = foldl (collector_step validate db_ok) (new_collector nets maxsize batch ttl m) ops"
    and "dict_get (co_runs c) i \<noteq> None" and "1 \<le> int limit" and "int limit \<le> 50000"
  shows "live_ok i limit (c, opss)"
proof -
  let ?c0 = "new_collector nets maxsize batch ttl m"
  have "collector_ok ?c0"
    by (simp add: collector_ok_def runs_ok_def seqs_ok_def seqs_def pending_runs_def new_collector_def dict_ok_def)
  then have "collector_ok c" unfolding assms(1) by (rule collecting.run_inv)
  moreover have "co_events ?c0 = []" by (simp add: new_collector_def)
  then have "list_all (\<lambda>x. 0 < sr_seq x) (co_events c)"
    using grows_run [of ops ?c0 validate db_ok] unfolding assms(1) grows_def by auto
  moreover have "i \<in> fst ` set (co_runs c)" using assms(2) by (metis dict_get_None_iff)
  ultimately show ?thesis using assms(3,4) by (simp add: live_ok_def)
qed

section \<open>An export holds the run\<close>

definition kind_of :: "obj \<Rightarrow> string" where
  "kind_of e = (case dict_get e ''type'' of None \<Rightarrow> ''unknown'' | Some t \<Rightarrow> jstr t)"

definition app_of :: "obj \<Rightarrow> string" where
  "app_of e = (if jtruthy (jget e ''app'') then jstr (jget e ''app'') else [])"

definition tool_request :: "string \<Rightarrow> obj \<Rightarrow> bool" where
  "tool_request app e \<longleftrightarrow> app_of e = app \<and> app \<noteq> [] \<and> kind_of e = ''http_request'' \<and> \<not> jtruthy (jget e ''synthetic'')"

lemma tally_up_get: "get_or (dict_get (tally_up k d) k') 0 = get_or (dict_get d k') 0 + (if k' = k then 1 else (0 :: nat))"
  by (simp add: tally_up_def get_or_def)

lemma export_step:
  "xp_kept (export_event P x e) = xp_kept x @ (if P e then [e] else [])"
  "xp_out (export_event P x e) = xp_out x @ (if P e then [] else [e])"
  "get_or (dict_get (xp_types (export_event P x e)) k) 0
     = get_or (dict_get (xp_types x) k) 0 + (if P e \<and> kind_of e = k then 1 else 0)"
  "get_or (dict_get (xp_requests (export_event P x e)) k) 0
     = get_or (dict_get (xp_requests x) k) 0 + (if P e \<and> tool_request k e then 1 else 0)"
  by (auto simp: export_event_def Let_def tally_up_get tool_request_def app_of_def kind_of_def)

lemma export_all:
  "xp_kept (foldl (export_event P) x es) = xp_kept x @ filter P es"
  "xp_out (foldl (export_event P) x es) = xp_out x @ filter (\<lambda>e. \<not> P e) es"
  "get_or (dict_get (xp_types (foldl (export_event P) x es)) k) 0
     = get_or (dict_get (xp_types x) k) 0 + length (filter (\<lambda>e. P e \<and> kind_of e = k) es)"
  "get_or (dict_get (xp_requests (foldl (export_event P) x es)) k) 0
     = get_or (dict_get (xp_requests x) k) 0 + length (filter (\<lambda>e. P e \<and> tool_request k e) es)"
  by (induction es arbitrary: x) (simp_all add: export_step)

lemma export_reads:
  assumes "live_ok i limit s" and "I s" and "\<And>s q. I s \<Longrightarrow> I (fst (serve_events validate db_ok show_ts i None limit s q))"
  shows "\<exists>s1 x. export_events (serve_events validate db_ok show_ts i None limit) P limit s
      = Some (s1, cursor_of (run_rows show_ts i None (fst s1)), x) \<and> I s1
    \<and> xp_kept x = filter P (run_rows show_ts i None (fst s1)) \<and> xp_out x = filter (\<lambda>e. \<not> P e) (run_rows show_ts i None (fst s1))
    \<and> (\<forall>k. get_or (dict_get (xp_types x) k) 0 = length (filter (\<lambda>e. kind_of e = k) (xp_kept x)))
    \<and> (\<forall>k. get_or (dict_get (xp_requests x) k) 0 = length (filter (tool_request k) (xp_kept x)))"
proof -
  let ?x0 = "\<lparr>xp_kept = [], xp_out = [], xp_types = [], xp_apps = [], xp_requests = []\<rparr>"
  have "run_rows show_ts i None (fst s) = [] @ run_rows show_ts i None (fst s)" by simp
  from live.page_loop_reads [of i limit s show_ts None "[]" _ I validate db_ok "export_event P" ?x0, OF assms(1) this assms(2,3)]
  obtain s1 es where es: "page_loop (serve_events validate db_ok show_ts i None limit) (export_event P) limit s (cursor_of []) ?x0
      = Some (s1, cursor_of ([] @ es), foldl (export_event P) ?x0 es)" "run_rows show_ts i None (fst s1) = [] @ es" "I s1"
    by blast
  define x where "x = foldl (export_event P) ?x0 es"
  have kept: "xp_kept x = filter P es" "xp_out x = filter (\<lambda>e. \<not> P e) es" by (simp_all add: x_def export_all)
  have "get_or (dict_get (xp_types x) k) 0 = length (filter (\<lambda>e. kind_of e = k) (filter P es))"
    "get_or (dict_get (xp_requests x) k) 0 = length (filter (tool_request k) (filter P es))" for k
    by (simp_all add: x_def export_all filter_filter) (simp_all add: get_or_def)
  moreover have "export_events (serve_events validate db_ok show_ts i None limit) P limit s = Some (s1, cursor_of es, x)"
    using es(1) by (simp add: export_events_def x_def cursor_of_def)
  ultimately show ?thesis using es(2,3) kept by auto
qed


section \<open>Metering a running scan\<close>

text \<open>A client that asks for the count again and again.\<close>

fun polls :: "('s \<Rightarrow> int option \<Rightarrow> 's \<times> reply) \<Rightarrow> nat \<Rightarrow> string \<Rightarrow> nat \<Rightarrow> 's \<Rightarrow> collector_client \<Rightarrow>
    ('s \<times> collector_client \<times> nat) option" where
  "polls serve page_size i 0 s cl = count_http_requests serve page_size i s cl"
| "polls serve page_size i (Suc n) s cl =
     (case count_http_requests serve page_size i s cl of None \<Rightarrow> None | Some (s1, cl1, t) \<Rightarrow> polls serve page_size i n s1 cl1)"

definition counted :: "(rat \<Rightarrow> string) \<Rightarrow> string \<Rightarrow> collector \<Rightarrow> collector_client \<Rightarrow> bool" where
  "counted show_ts i c cl \<longleftrightarrow>
     (\<exists>d r. run_rows show_ts i (Some ''http_request'') c = d @ r \<and> get_or (dict_get (cc_cursor cl) i) 0 = cursor_of d
        \<and> get_or (dict_get (cc_counts cl) i) 0 = foldl count_request 0 d)"

lemma count_fold: "foldl count_request t es = t + length (filter (\<lambda>e. \<not> jtruthy (jget e ''synthetic'')) es)"
  by (induction es arbitrary: t) (simp_all add: count_request_def)

lemma one_poll:
  assumes "live_ok i limit s" and "counted show_ts i (fst s) cl"
  shows "\<exists>s1 cl1. count_http_requests (serve_events validate db_ok show_ts i (Some ''http_request'') limit) limit i s cl
      = Some (s1, cl1, foldl count_request 0 (run_rows show_ts i (Some ''http_request'') (fst s1)))
    \<and> live_ok i limit s1 \<and> counted show_ts i (fst s1) cl1"
proof -
  obtain d r where d: "run_rows show_ts i (Some ''http_request'') (fst s) = d @ r"
      "get_or (dict_get (cc_cursor cl) i) 0 = cursor_of d" "get_or (dict_get (cc_counts cl) i) 0 = foldl count_request 0 d"
    using assms(2) unfolding counted_def by blast
  obtain s1 x where x: "page_loop (serve_events validate db_ok show_ts i (Some ''http_request'') limit) count_request limit s
        (cursor_of d) (foldl count_request 0 d) = Some (s1, cursor_of (d @ x), foldl count_request (foldl count_request 0 d) x)"
      "live_ok i limit s1" "run_rows show_ts i (Some ''http_request'') (fst s1) = d @ x"
    using live.page_loop_reads [OF assms(1) d(1), of "\<lambda>_. True" validate db_ok count_request] by blast
  let ?cl = "\<lparr>cc_cursor = dict_set i (cursor_of (d @ x)) (cc_cursor cl), cc_counts = dict_set i (foldl count_request 0 (d @ x)) (cc_counts cl)\<rparr>"
  have "count_http_requests (serve_events validate db_ok show_ts i (Some ''http_request'') limit) limit i s cl
      = Some (s1, ?cl, foldl count_request 0 (d @ x))"
    by (simp add: count_http_requests_def d(2,3) x(1))
  moreover have "counted show_ts i (fst s1) ?cl"
    unfolding counted_def by (rule exI [of _ "d @ x"], rule exI [of _ "[]"]) (simp add: x(3) get_or_def)
  ultimately show ?thesis using x(2,3) by auto
qed

lemma polls_count:
  assumes "live_ok i limit s" and "counted show_ts i (fst s) cl"
  shows "\<exists>s1 cl1. polls (serve_events validate db_ok show_ts i (Some ''http_request'') limit) limit i n s cl
      = Some (s1, cl1, foldl count_request 0 (run_rows show_ts i (Some ''http_request'') (fst s1)))"
  using assms
proof (induction n arbitrary: s cl)
  case 0
  then show ?case using one_poll [OF 0] by fastforce
next
  case (Suc n)
  obtain s1 cl1 t where "count_http_requests (serve_events validate db_ok show_ts i (Some ''http_request'') limit) limit i s cl
      = Some (s1, cl1, t)" "live_ok i limit s1" "counted show_ts i (fst s1) cl1"
    using one_poll [OF Suc.prems] by blast
  then show ?case using Suc.IH [of s1 cl1] by simp
qed

text \<open>While a scan is running the count of requests is exact at every poll: however often the runner
  asks, and whatever the collector takes in between two requests, a poll ends and gives the number
  of stored requests of the run that are not the platform's own.\<close>

theorem requests_metered:
  assumes "c = foldl (collector_step validate db_ok) (new_collector nets maxsize batch ttl m) ops"
    and "dict_get (co_runs c) i \<noteq> None" and "1 \<le> int limit" and "int limit \<le> 50000"
  shows "\<exists>s1 cl1. polls (serve_events validate db_ok show_ts i (Some ''http_request'') limit) limit i n (c, opss) new_client
      = Some (s1, cl1, length (filter (\<lambda>x. sr_run x = i \<and> qd_type (sr_item x) = ''http_request''
          \<and> \<not> jtruthy (jget (qd_payload (sr_item x)) ''synthetic'')) (co_events (fst s1))))"
proof -
  have "counted show_ts i c new_client"
    unfolding counted_def by (rule exI [of _ "[]"]) (simp add: new_client_def get_or_def cursor_of_def)
  then obtain s1 cl1 where p: "polls (serve_events validate db_ok show_ts i (Some ''http_request'') limit) limit i n (c, opss) new_client
      = Some (s1, cl1, foldl count_request 0 (run_rows show_ts i (Some ''http_request'') (fst s1)))"
    using polls_count [OF reachable_live_ok [OF assms, of opss]] by fastforce
  have "jget (stored_json show_ts x) ''synthetic'' = jget (qd_payload (sr_item x)) ''synthetic''" for x
    by (simp add: stored_json_def jget_def)
  moreover have "wanted i (Some ''http_request'') x \<longleftrightarrow> sr_run x = i \<and> qd_type (sr_item x) = ''http_request''" for x
    by (simp add: wanted_def type_names_def signal_type_def)
  ultimately have "foldl count_request 0 (run_rows show_ts i (Some ''http_request'') (fst s1))
      = length (filter (\<lambda>x. sr_run x = i \<and> qd_type (sr_item x) = ''http_request''
          \<and> \<not> jtruthy (jget (qd_payload (sr_item x)) ''synthetic'')) (co_events (fst s1)))"
    by (simp add: count_fold run_rows_def filter_map comp_def filter_filter conj_ac)
  then show ?thesis using p by auto
qed

section \<open>The scorer reads what it could have fetched\<close>

lemma fetch_reads:
  assumes "live_ok i limit s" and "I s" and "\<And>s q. I s \<Longrightarrow> I (fst (serve_events validate db_ok show_ts i None limit s q))"
  shows "\<exists>s1. fetch_events (serve_events validate db_ok show_ts i None limit) s
      = Some (s1, Some (events_from_iterable (map JObj (run_rows show_ts i None (fst s1))))) \<and> I s1"
proof -
  have "run_rows show_ts i None (fst s) = [] @ run_rows show_ts i None (fst s)" by simp
  from live.fetch_loop_reads [of i limit s show_ts None "[]" _ I validate db_ok, OF assms(1) this assms(2,3)] show ?thesis
    by (auto simp: fetch_events_def)
qed

lemma flush_idle: "co_queue c = [] \<Longrightarrow> flush db_ok c = c"
  by (simp add: flush_def)

lemma serve_idle:
  "co_queue c = [] \<Longrightarrow> fst (serve_events validate db_ok show_ts i ty limit (c, []) q) = (c, [])"
  by (simp add: serve_events_def live_collector_def get_events_def flush_idle Let_def)

lemma written_file_events:
  assumes "length es \<noteq> 1" and "es \<noteq> []" and "dict_get (hd es) ''events'' = None"
  shows "load_events (written_file es) = Some (events_from_iterable (map JObj es), [])"
  using assms
  by (cases es rule: remdups_adj.cases) (simp_all add: load_events_def written_file_def export_document_def)

text \<open>Once the collector is idle, what the scorer reads back from an exported run of several events is what
  it would have fetched from the collector itself: the same events, with the same fields, in the
  same order.\<close>

theorem export_read_back:
  assumes c: "c = foldl (collector_step validate db_ok) (new_collector nets maxsize batch ttl m) ops"
    "dict_get (co_runs c) i \<noteq> None" "1 \<le> int limit" "int limit \<le> 50000"
    and idle: "co_queue c = []"
    and rows: "2 \<le> length (run_rows show_ts i None c)" "dict_get (hd (run_rows show_ts i None c)) ''events'' = None"
  shows "\<exists>n x. export_events (serve_events validate db_ok show_ts i None limit) (\<lambda>_. True) limit (c, []) = Some ((c, []), n, x)
    \<and> map_option fst (load_events (written_file (xp_kept x)))
        = Option.bind (fetch_events (serve_events validate db_ok show_ts i None limit) (c, [])) snd"
proof -
  have ok: "live_ok i limit (c, [])" by (rule reachable_live_ok [OF c])
  have keep: "fst (serve_events validate db_ok show_ts i None limit s q) = (c, [])" if "s = (c, [])" for s q
    unfolding that by (rule serve_idle [OF idle])
  obtain n x where x: "export_events (serve_events validate db_ok show_ts i None limit) (\<lambda>_. True) limit (c, []) = Some ((c, []), n, x)"
      "xp_kept x = run_rows show_ts i None c"
    using export_reads [OF ok, of "\<lambda>s. s = (c, [])" validate db_ok show_ts "\<lambda>_. True", OF refl keep] by auto
  have f: "fetch_events (serve_events validate db_ok show_ts i None limit) (c, [])
      = Some ((c, []), Some (events_from_iterable (map JObj (run_rows show_ts i None c))))"
    using fetch_reads [OF ok, of "\<lambda>s. s = (c, [])" validate db_ok show_ts, OF refl keep] by auto
  have "load_events (written_file (xp_kept x)) = Some (events_from_iterable (map JObj (xp_kept x)), [])"
    by (rule written_file_events) (use rows x(2) in \<open>auto\<close>)
  then show ?thesis using x f by auto
qed

text \<open>A run of a single event is lost: its only line is a document, and no event is looked for in it.\<close>

lemma single_event_lost:
  "dict_get e ''events'' = None \<Longrightarrow> map_option fst (load_events (written_file [e])) = Some []"
  by (simp add: load_events_def written_file_def export_document_def jget_def events_from_iterable_def map_filter_simps)

section \<open>A concrete run\<close>

definition demo_events :: "json \<Rightarrow> vevent option" where
  "demo_events j =
     (case j of
        JObj d \<Rightarrow> Some \<lparr>ve_type = jstr (jget d ''type''), ve_app = ''shop'', ve_ts = None, ve_synthetic = False,
                     ve_fields = d, ve_payload = d\<rparr>
      | _ \<Rightarrow> None)"

definition demo_ops :: "collector_op list" where
  "demo_ops =
     [COpen \<lparr>rc_tool = ''zap'', rc_tool_version = None, rc_profile = None, rc_targets = [], rc_addresses = [], rc_notes = None\<rparr>
        False 0 ''r1'',
      CSubmit [JObj [(''type'', JStr ''http_request''), (''app'', JStr ''shop'')], JObj [(''type'', JStr ''signal'')], JNull]
        None 1 (\<lambda>n. ''id''), CFlush]"

abbreviation demo_collector :: collector where
  "demo_collector \<equiv> foldl (collector_step demo_events (\<lambda>_. True)) (new_collector [] 100 500 60 10) demo_ops"

lemma demo_run:
  "dict_get (co_runs demo_collector) ''r1'' \<noteq> None" "co_queue demo_collector = []"
  "map sr_seq (co_events demo_collector) = [1, 2]" "map sr_run (co_events demo_collector) = [''r1'', ''r1'']"
  by code_simp+


lemma requests_metered_witness:
  "\<exists>s1 cl1 t. polls (serve_events demo_events (\<lambda>_. True) (\<lambda>_. []) ''r1'' (Some ''http_request'') 1) 1 ''r1'' 2
       (demo_collector, [demo_ops]) new_client = Some (s1, cl1, t)"
  using requests_metered [OF refl demo_run(1), of 1 "\<lambda>_. []" 2 "[demo_ops]"] by auto

lemma demo_rows:
  "2 \<le> length (run_rows (\<lambda>_. []) ''r1'' None demo_collector)"
  "dict_get (hd (run_rows (\<lambda>_. []) ''r1'' None demo_collector)) ''events'' = None"
  by code_simp+

lemma export_read_back_witness:
  "\<exists>n x. export_events (serve_events demo_events (\<lambda>_. True) (\<lambda>_. []) ''r1'' None 1) (\<lambda>_. True) 1 (demo_collector, [])
       = Some ((demo_collector, []), n, x)
    \<and> map_option fst (load_events (written_file (xp_kept x)))
        = Option.bind (fetch_events (serve_events demo_events (\<lambda>_. True) (\<lambda>_. []) ''r1'' None 1) (demo_collector, [])) snd"
  by (rule export_read_back [OF refl demo_run(1) _ _ demo_run(2) demo_rows]) simp_all

end
