(* ===== verification/Url.thy ===== *)
theory Url
  imports Routes Ip_Address
begin

text \<open>
  The parts of Python's \<open>urllib.parse.urlsplit\<close> that the platform's readers use: authority, path,
  query and host name. It refuses an authority with brackets that do not hold an IPv6 or a future
  address (\<open>None\<close>), as in Python 3.11 and the first releases of 3.12.
\<close>

definition url_cleaned :: "string \<Rightarrow> string" where
  "url_cleaned url =
     drop_scheme (filter (\<lambda>c. code c \<noteq> 9 \<and> code c \<noteq> 10 \<and> code c \<noteq> 13) (dropWhile (\<lambda>c. code c \<le> 32) url))"

definition url_netloc :: "string \<Rightarrow> string" where
  "url_netloc u =
     (if startswith u ''//'' then takeWhile (\<lambda>c. c \<notin> set ''/?#'') (drop 2 u) else [])"

definition bracketed_ok :: "string \<Rightarrow> bool" where
  "bracketed_ok h =
     (if startswith h ''v'' then
        (let t = tl h in CHR ''.'' \<in> set t \<and> before (CHR ''.'') t \<noteq> []
           \<and> list_all (\<lambda>c. hex_value c \<noteq> None) (before (CHR ''.'') t) \<and> after (CHR ''.'') t \<noteq> [])
      else case ip_address h of Some (V6 _ _) \<Rightarrow> True | _ \<Rightarrow> False)"

definition netloc_ok :: "string \<Rightarrow> bool" where
  "netloc_ok n =
     (let o1 = CHR ''['' \<in> set n; c1 = CHR '']'' \<in> set n
      in if o1 \<noteq> c1 then False
         else if o1 then bracketed_ok (before (CHR '']'') (after (CHR ''['') n)) else True)"

record split_url =
  su_netloc :: string
  su_path :: string
  su_query :: string

definition urlsplit :: "string \<Rightarrow> split_url option" where
  "urlsplit url =
     (let u = url_cleaned url; tail = before (CHR ''#'') (drop_netloc u)
      in if netloc_ok (url_netloc u)
         then Some \<lparr>su_netloc = url_netloc u, su_path = before (CHR ''?'') tail, su_query = after (CHR ''?'') tail\<rparr>
         else None)"

text \<open>The \<open>hostname\<close> of a split URL: lowered but for the zone of an address, \<open>None\<close> when empty.\<close>

definition url_hostname :: "split_url \<Rightarrow> string option" where
  "url_hostname s =
     (let info = rafter (CHR ''@'') (su_netloc s);
          host = (if CHR ''['' \<in> set info then before (CHR '']'') (after (CHR ''['') info) else before (CHR '':'') info)
      in if host = [] then None
         else Some (lower (before (CHR ''%'') host)
                    @ (if CHR ''%'' \<in> set host then CHR ''%'' # after (CHR ''%'') host else [])))"

lemma urlsplit_rooted:
  assumes "startswith t ''/''" and "\<not> startswith t ''//''" and "\<forall>c\<in>set t. 32 < code c"
  shows "urlsplit t = Some \<lparr>su_netloc = [], su_path = before (CHR ''?'') (before (CHR ''#'') t),
    su_query = after (CHR ''?'') (before (CHR ''#'') t)\<rparr>"
proof -
  obtain r where t: "t = CHR ''/'' # r" using assms(1) by (cases t) auto
  have "filter (\<lambda>c. code c \<noteq> 9 \<and> code c \<noteq> 10 \<and> code c \<noteq> 13) t = t" using assms(3) by (auto simp: filter_id_conv)
  moreover have "dropWhile (\<lambda>c. code c \<le> 32) t = t" using assms(3) by (simp add: t)
  moreover have "\<not> ascii_alpha (CHR ''/'')" by code_simp
  ultimately have "url_cleaned t = t" by (simp add: url_cleaned_def drop_scheme_def t)
  then show ?thesis
    using assms(2) by (simp add: urlsplit_def Let_def url_netloc_def drop_netloc_def netloc_ok_def)
qed

end
