(* ===== verification/Scan_Table.thy ===== *)
theory Scan_Table
  imports Json Url Hosts
begin

text \<open>
  The first half of \<open>runners/_lib/normalise.py\<close> and the record of \<open>runners/_lib/findings.py\<close>: the
  texts Python's \<open>str\<close> and \<open>repr\<close> give for decoded values, the spellings of a CWE number, the
  mapping table with its errors, the vocabularies of a finding and the helpers all readers of
  scanner reports share.

  The table's YAML file is given as the decoded document, keys by their text; the regular expressions of the
  table are parameters (\<open>valid\<close>: does a pattern compile; \<open>search\<close>: does it occur in a text).
  The name and the severity of a rule are strings or absent. Numbers of more than 4300 digits, which
  Python's \<open>int\<close> refuses, are outside of the model.
\<close>

section \<open>Texts of values\<close>

text \<open>\<open>repr\<close> of a string: the quote it chooses and the characters it escapes.\<close>

definition repr_quote :: "string \<Rightarrow> char" where
  "repr_quote s = (if CHR 0x27 \<in> set s \<and> CHR 0x22 \<notin> set s then CHR 0x22 else CHR 0x27)"

definition repr_char :: "char \<Rightarrow> char \<Rightarrow> string" where
  "repr_char q c =
     (let n = code c
      in if c = q \<or> n = 92 then [CHR 0x5C, c]
         else if n = 9 then [CHR 0x5C, CHR ''t'']
         else if n = 10 then [CHR 0x5C, CHR ''n'']
         else if n = 13 then [CHR 0x5C, CHR ''r'']
         else if n < 32 \<or> (127 \<le> n \<and> n \<le> 160) \<or> n = 173 then [CHR 0x5C, CHR ''x''] @ hex_byte n
         else [c])"

definition repr_str :: "string \<Rightarrow> string" where
  "repr_str s = (let q = repr_quote s in q # concat (map (repr_char q) s) @ [q])"

fun jrepr :: "json \<Rightarrow> string"
  and jreprs :: "json list \<Rightarrow> string list"
  and jrepr_items :: "(string \<times> json) list \<Rightarrow> string list" where
  "jrepr (JStr s) = repr_str s"
| "jrepr (JList xs) = ''['' @ join '', '' (jreprs xs) @ '']''"
| "jrepr (JObj d) = ''{'' @ join '', '' (jrepr_items d) @ ''}''"
| "jrepr JNull = ''None''"
| "jrepr (JBool b) = (if b then ''True'' else ''False'')"
| "jrepr (JInt n) = int_text n"
| "jrepr (JFloat r s) = s"
| "jreprs [] = []"
| "jreprs (x # xs) = jrepr x # jreprs xs"
| "jrepr_items [] = []"
| "jrepr_items ((k, v) # d) = (repr_str k @ '': '' @ jrepr v) # jrepr_items d"

text \<open>\<open>str(value)\<close>.\<close>

definition jtext :: "json \<Rightarrow> string" where
  "jtext v = (case v of JStr s \<Rightarrow> s | _ \<Rightarrow> jrepr v)"

text \<open>\<open>a == b\<close>: numbers and truth values compare by value.\<close>

fun as_number :: "json \<Rightarrow> rat option" where
  "as_number (JBool b) = Some (of_bool b)"
| "as_number (JInt n) = Some (of_int n)"
| "as_number (JFloat r s) = Some r"
| "as_number _ = None"

fun py_eq :: "json \<Rightarrow> json \<Rightarrow> bool"
  and py_eqs :: "json list \<Rightarrow> json list \<Rightarrow> bool"
  and py_eq_items :: "(string \<times> json) list \<Rightarrow> obj \<Rightarrow> bool" where
  "py_eq (JList xs) w = (case w of JList ys \<Rightarrow> py_eqs xs ys | _ \<Rightarrow> False)"
| "py_eq (JObj d) w = (case w of JObj e \<Rightarrow> length d = length e \<and> py_eq_items d e | _ \<Rightarrow> False)"
| "py_eq JNull w = (w = JNull)"
| "py_eq (JStr s) w = (w = JStr s)"
| "py_eq (JBool b) w = (as_number w = Some (of_bool b))"
| "py_eq (JInt n) w = (as_number w = Some (of_int n))"
| "py_eq (JFloat r s) w = (as_number w = Some r)"
| "py_eqs [] ys = (ys = [])"
| "py_eqs (x # xs) ys = (case ys of [] \<Rightarrow> False | y # zs \<Rightarrow> py_eq x y \<and> py_eqs xs zs)"
| "py_eq_items [] e = True"
| "py_eq_items ((k, v) # d) e = ((case dict_get e k of None \<Rightarrow> False | Some w \<Rightarrow> py_eq v w) \<and> py_eq_items d e)"

section \<open>What a reader may raise\<close>

datatype scan_error = TypeErr | AttributeErr | ValueErr | KeyErr | RegexErr | OverflowErr

text \<open>\<open>for x in v\<close> and \<open>v.items()\<close> of a value that may have neither.\<close>

definition iterate :: "json \<Rightarrow> scan_error + json list" where
  "iterate v =
     (case v of JList _ \<Rightarrow> Inr (jiter v) | JObj _ \<Rightarrow> Inr (jiter v) | JStr _ \<Rightarrow> Inr (jiter v)
      | _ \<Rightarrow> Inl TypeErr)"

definition attrs :: "json \<Rightarrow> scan_error + obj" where
  "attrs v = (case v of JObj d \<Rightarrow> Inr d | _ \<Rightarrow> Inl AttributeErr)"

definition or_empty :: "json \<Rightarrow> json \<Rightarrow> json" where
  "or_empty v e = (if jtruthy v then v else e)"

text \<open>A list built by a function that may raise, the first error ending it.\<close>

fun map_err :: "('a \<Rightarrow> 'e + 'b) \<Rightarrow> 'a list \<Rightarrow> 'e + 'b list" where
  "map_err f [] = Inr []"
| "map_err f (x # xs) = bindE (f x) (\<lambda>y. bindE (map_err f xs) (\<lambda>ys. Inr (y # ys)))"

lemma map_err_InrD: "map_err f xs = Inr ys \<Longrightarrow> list_all2 (\<lambda>x y. f x = Inr y) xs ys"
  by (induction xs arbitrary: ys) (auto simp: bindE_Inr_iff)

section \<open>Numbers in texts\<close>

definition py_int :: "json \<Rightarrow> scan_error + int" where
  "py_int v =
     (case v of
        JBool b \<Rightarrow> Inr (of_bool b)
      | JInt n \<Rightarrow> Inr n
      | JFloat r s \<Rightarrow> Inr (if r < 0 then - \<lfloor>- r\<rfloor> else \<lfloor>r\<rfloor>)
      | JStr s \<Rightarrow> (case int_of_text s of None \<Rightarrow> Inl ValueErr | Some n \<Rightarrow> Inr n)
      | _ \<Rightarrow> Inl TypeErr)"

text \<open>The number at the head of a text, with what follows it.\<close>

definition leading_number :: "string \<Rightarrow> (int \<times> string) option" where
  "leading_number s =
     (let ds = takeWhile is_dec s in if ds = [] then None else Some (dec_num ds, dropWhile is_dec s))"

text \<open>A literal of a regular expression, whatever its case, and an optional character of a class.\<close>

definition skip_word :: "string \<Rightarrow> string \<Rightarrow> string option" where
  "skip_word w s = (if startswith (lower s) w then Some (drop (length w) s) else None)"

definition skip_opt :: "(char \<Rightarrow> bool) \<Rightarrow> string \<Rightarrow> string" where
  "skip_opt P s = (case s of [] \<Rightarrow> [] | c # t \<Rightarrow> if P c then t else s)"

definition cwe_sep :: "char \<Rightarrow> bool" where
  "cwe_sep c = (c \<in> set ''-_ :'')"

text \<open>\<open>cwe\<close>, an optional separator and digits at the head of a text.\<close>

definition cwe_here :: "(char \<Rightarrow> bool) \<Rightarrow> string \<Rightarrow> (int \<times> string) option" where
  "cwe_here sep s =
     (case skip_word ''cwe'' s of None \<Rightarrow> None | Some t \<Rightarrow> leading_number (skip_opt sep t))"

text \<open>\<open>re.search\<close> of that.\<close>

fun find_cwe :: "string \<Rightarrow> int option" where
  "find_cwe [] = None"
| "find_cwe (c # s) = (case cwe_here cwe_sep (c # s) of Some (n, _) \<Rightarrow> Some n | None \<Rightarrow> find_cwe s)"

definition cwe_text :: "string \<Rightarrow> int option" where
  "cwe_text s =
     (let t = (case skip_word ''cwe'' s of None \<Rightarrow> s | Some t \<Rightarrow> skip_opt cwe_sep t)
      in if t \<noteq> [] \<and> list_all is_dec t \<and> 0 < dec_num t then Some (dec_num t) else None)"

fun parse_cwe :: "json \<Rightarrow> int option"
  and parse_cwes :: "json list \<Rightarrow> int option" where
  "parse_cwe JNull = None"
| "parse_cwe (JBool b) = None"
| "parse_cwe (JList xs) = parse_cwes xs"
| "parse_cwe (JInt n) = (if 0 < n then Some n else None)"
| "parse_cwe (JStr s) = cwe_text (strip s)"
| "parse_cwe (JFloat r s) = cwe_text (strip s)"
| "parse_cwe (JObj d) = cwe_text (strip (jtext (JObj d)))"
| "parse_cwes [] = None"
| "parse_cwes (x # xs) = (case parse_cwe x of Some n \<Rightarrow> Some n | None \<Rightarrow> parse_cwes xs)"

section \<open>The vocabularies\<close>

definition SEVERITIES :: "string list" where
  "SEVERITIES = [''info'', ''low'', ''medium'', ''high'', ''critical'']"

definition CONFIDENCES :: "string list" where
  "CONFIDENCES = [''low'', ''medium'', ''high'', ''confirmed'']"

definition METHODS :: "string list" where
  "METHODS = [''GET'', ''POST'', ''PUT'', ''PATCH'', ''DELETE'', ''HEAD'', ''OPTIONS'', ''TRACE'']"

definition norm_severity :: "string option \<Rightarrow> json \<Rightarrow> string option" where
  "norm_severity dflt v =
     (if v = JNull then dflt
      else case dict_get
        [(''informational'', Some ''info''), (''information'', Some ''info''), (''info'', Some ''info''),
         (''note'', Some ''info''), (''none'', Some ''info''), (''unknown'', dflt), (''low'', Some ''low''),
         (''medium'', Some ''medium''), (''moderate'', Some ''medium''), (''warning'', Some ''medium''),
         (''high'', Some ''high''), (''important'', Some ''high''), (''critical'', Some ''critical''),
         (''severe'', Some ''critical''), (''emergency'', Some ''critical'')] (lower (strip (jtext v)))
        of None \<Rightarrow> dflt | Some x \<Rightarrow> x)"

definition norm_confidence :: "string option \<Rightarrow> json \<Rightarrow> string option" where
  "norm_confidence dflt v =
     (if v = JNull then dflt
      else case dict_get
        [(''false positive'', ''low''), (''falsepositive'', ''low''), (''tentative'', ''low''), (''low'', ''low''),
         (''medium'', ''medium''), (''moderate'', ''medium''), (''firm'', ''high''), (''high'', ''high''),
         (''certain'', ''confirmed''), (''confirmed'', ''confirmed''), (''trusted'', ''confirmed'')]
        (lower (strip (jtext v)))
        of None \<Rightarrow> dflt | Some x \<Rightarrow> Some x)"

definition norm_method :: "json \<Rightarrow> string option" where
  "norm_method v =
     (if v = JNull then None
      else let t = upper (strip (jtext v)) in if t \<in> set METHODS then Some t else None)"

section \<open>Findings\<close>

record scan_finding =
  sf_tool :: string
  sf_url :: "string option"
  sf_method :: "string option"
  sf_param :: "string option"
  sf_cwe :: "int option"
  sf_name :: "string option"
  sf_severity :: "string option"
  sf_confidence :: "string option"
  sf_raw_ref :: string

definition scan_finding_ok :: "scan_finding \<Rightarrow> bool" where
  "scan_finding_ok f =
     ((case sf_severity f of None \<Rightarrow> True | Some s \<Rightarrow> s \<in> set SEVERITIES)
      \<and> (case sf_confidence f of None \<Rightarrow> True | Some s \<Rightarrow> s \<in> set CONFIDENCES)
      \<and> (case sf_cwe f of None \<Rightarrow> True | Some n \<Rightarrow> 0 < n))"

text \<open>\<open>__post_init__\<close>.\<close>

definition mk_finding :: "scan_finding \<Rightarrow> scan_error + scan_finding" where
  "mk_finding f = (if scan_finding_ok f then Inr f else Inl ValueErr)"

record unmapped_row =
  um_tool :: string
  um_key :: string
  um_name :: "string option"
  um_sample :: string

record scan_result =
  sr_findings :: "scan_finding list"
  sr_unmapped :: "unmapped_row list"

definition no_result :: scan_result where
  "no_result = \<lparr>sr_findings = [], sr_unmapped = []\<rparr>"

definition extend_result :: "scan_result \<Rightarrow> scan_result \<Rightarrow> scan_result" where
  "extend_result r s =
     \<lparr>sr_findings = sr_findings r @ sr_findings s, sr_unmapped = sr_unmapped r @ sr_unmapped s\<rparr>"

definition unmapped :: "string \<Rightarrow> string \<Rightarrow> string option \<Rightarrow> string option \<Rightarrow> unmapped_row" where
  "unmapped tool key name sample =
     \<lparr>um_tool = tool, um_key = key, um_name = name, um_sample = take 280 (str_or sample [])\<rparr>"

section \<open>The mapping table\<close>

record rule =
  ru_key :: string
  ru_cwe :: "int option"
  ru_source :: string
  ru_name :: "string option"
  ru_severity :: "string option"
  ru_pattern :: "string option"
  ru_skip :: bool

definition rule_cwe :: "json \<Rightarrow> scan_error + int option" where
  "rule_cwe v = (if v = JNull then Inr None else bindE (py_int v) (\<lambda>n. Inr (Some n)))"

definition rule_pattern :: "(string \<Rightarrow> bool) \<Rightarrow> obj \<Rightarrow> scan_error + string option" where
  "rule_pattern valid d =
     (case dict_get d ''match'' of
        None \<Rightarrow> Inl KeyErr
      | Some (JStr p) \<Rightarrow> if valid p then Inr (Some p) else Inl RegexErr
      | Some _ \<Rightarrow> Inl TypeErr)"

definition make_rule :: "(string \<Rightarrow> bool) \<Rightarrow> string \<Rightarrow> json \<Rightarrow> bool \<Rightarrow> scan_error + rule" where
  "make_rule valid key v compile_pattern =
     (case v of
        JObj d \<Rightarrow>
          (if dict_get d ''cwe'' = None then Inl ValueErr
           else bindE (rule_cwe (jget d ''cwe'')) (\<lambda>c.
                bindE (if compile_pattern then rule_pattern valid d else Inr None) (\<lambda>p.
                Inr \<lparr>ru_key = key, ru_cwe = c,
                     ru_source = (case dict_get d ''source'' of None \<Rightarrow> [] | Some x \<Rightarrow> jtext x),
                     ru_name = str_field d ''name'', ru_severity = str_field d ''severity'',
                     ru_pattern = p, ru_skip = jtruthy (jget d ''skip'')\<rparr>)))
      | _ \<Rightarrow> Inl ValueErr)"

record cwe_table =
  ct_version :: json
  ct_out_of_catalog :: "(int, string) dict"
  ct_tools :: obj
  ct_rules :: "(string, (string, rule) dict) dict"
  ct_patterns :: "(string, rule list) dict"

definition entry_key :: "json \<Rightarrow> scan_error + string" where
  "entry_key e =
     (case e of
        JObj d \<Rightarrow> (case dict_get d ''match'' of None \<Rightarrow> Inl KeyErr | Some v \<Rightarrow> Inr (jtext v))
      | _ \<Rightarrow> Inl TypeErr)"

definition dict_of :: "('k \<times> 'v) list \<Rightarrow> ('k, 'v) dict" where
  "dict_of kvs = foldl (\<lambda>d (k, v). dict_set k v d) [] kvs"

definition tool_rules :: "(string \<Rightarrow> bool) \<Rightarrow> obj \<Rightarrow> scan_error + (string, rule) dict" where
  "tool_rules valid cfg =
     bindE (attrs (or_empty (jget cfg ''rules'') (JObj []))) (\<lambda>d.
     bindE (map_err (\<lambda>(k, v). bindE (make_rule valid k v False) (\<lambda>r. Inr (k, r))) d) (\<lambda>kvs.
     Inr (dict_of kvs)))"

definition tool_patterns :: "(string \<Rightarrow> bool) \<Rightarrow> obj \<Rightarrow> scan_error + rule list" where
  "tool_patterns valid cfg =
     bindE (iterate (or_empty (jget cfg ''patterns'') (JList []))) (\<lambda>es.
     map_err (\<lambda>e. bindE (entry_key e) (\<lambda>k. make_rule valid k e True)) es)"

definition new_table :: "(string \<Rightarrow> bool) \<Rightarrow> obj \<Rightarrow> scan_error + cwe_table" where
  "new_table valid data =
     bindE (attrs (or_empty (jget data ''out_of_catalog'') (JObj []))) (\<lambda>ooc.
     bindE (map_err (\<lambda>(k, v). bindE (py_int (JStr k)) (\<lambda>n. Inr (n, jtext v))) ooc) (\<lambda>ooc1.
     bindE (attrs (or_empty (jget data ''tools'') (JObj []))) (\<lambda>tools.
     bindE (map_err (\<lambda>(tool, cfg). bindE (attrs cfg) (\<lambda>c. bindE (tool_rules valid c) (\<lambda>rs.
              bindE (tool_patterns valid c) (\<lambda>ps. Inr (tool, rs, ps))))) tools) (\<lambda>rows.
     Inr \<lparr>ct_version = jget data ''version'', ct_out_of_catalog = dict_of ooc1, ct_tools = tools,
          ct_rules = map (\<lambda>(tool, rs, ps). (tool, rs)) rows,
          ct_patterns = map (\<lambda>(tool, rs, ps). (tool, ps)) rows\<rparr>))))"

definition tool_cfg :: "cwe_table \<Rightarrow> string \<Rightarrow> obj" where
  "tool_cfg t tool = obj_of (or_empty (jget (ct_tools t) tool) (JObj []))"

definition rules_of :: "cwe_table \<Rightarrow> string \<Rightarrow> (string, rule) dict" where
  "rules_of t tool = get_or (dict_get (ct_rules t) tool) []"

definition patterns_of :: "cwe_table \<Rightarrow> string \<Rightarrow> rule list" where
  "patterns_of t tool = get_or (dict_get (ct_patterns t) tool) []"

fun first_rule :: "(string, rule) dict \<Rightarrow> string option list \<Rightarrow> rule option" where
  "first_rule rs [] = None"
| "first_rule rs (None # ks) = first_rule rs ks"
| "first_rule rs (Some k # ks) = (case dict_get rs k of Some r \<Rightarrow> Some r | None \<Rightarrow> first_rule rs ks)"

definition table_lookup :: "cwe_table \<Rightarrow> string \<Rightarrow> string option list \<Rightarrow> rule option" where
  "table_lookup t tool keys = first_rule (rules_of t tool) keys"

definition table_match :: "(string \<Rightarrow> string \<Rightarrow> bool) \<Rightarrow> cwe_table \<Rightarrow> string \<Rightarrow> string option \<Rightarrow> rule option" where
  "table_match search t tool txt =
     (if \<not> truthy txt then None
      else List.find (\<lambda>r. case ru_pattern r of None \<Rightarrow> False | Some p \<Rightarrow> search p (the txt))
             (patterns_of t tool))"

text \<open>\<open>value in nulls\<close> for whatever the table holds there, then the comparison as texts.\<close>

definition in_value :: "json \<Rightarrow> json \<Rightarrow> scan_error + bool" where
  "in_value v c =
     (case c of
        JList xs \<Rightarrow> Inr (list_ex (py_eq v) xs)
      | JStr s \<Rightarrow> (case v of JStr w \<Rightarrow> Inr (contains s w) | _ \<Rightarrow> Inl TypeErr)
      | JObj d \<Rightarrow> (case v of JList _ \<Rightarrow> Inl TypeErr | JObj _ \<Rightarrow> Inl TypeErr
                   | JStr w \<Rightarrow> Inr (dict_get d w \<noteq> None) | _ \<Rightarrow> Inr False)
      | _ \<Rightarrow> Inl TypeErr)"

definition is_null_value :: "cwe_table \<Rightarrow> string \<Rightarrow> json \<Rightarrow> scan_error + bool" where
  "is_null_value t tool v =
     (let nulls = (case dict_get (tool_cfg t tool) ''null_values'' of None \<Rightarrow> JList [] | Some x \<Rightarrow> x)
      in bindE (in_value v nulls) (\<lambda>b.
           if b then Inr True
           else case v of JStr s \<Rightarrow> Inr (strip s \<in> set (map jtext (jiter nulls))) | _ \<Rightarrow> Inr False))"

definition declared_unmapped :: "cwe_table \<Rightarrow> string \<Rightarrow> scan_error + string list" where
  "declared_unmapped t tool =
     bindE (iterate (or_empty (jget (tool_cfg t tool) ''unmapped'') (JList []))) (\<lambda>ks. Inr (map jtext ks))"

section \<open>Helpers of the readers\<close>

fun dig_parts :: "json \<Rightarrow> string list \<Rightarrow> json" where
  "dig_parts v [] = v"
| "dig_parts v (p # ps) = (case v of JObj d \<Rightarrow> dig_parts (jget d p) ps | _ \<Rightarrow> JNull)"

definition dig :: "json \<Rightarrow> string \<Rightarrow> json" where
  "dig v dotted = dig_parts v (split_char (CHR ''.'') dotted)"

definition clean :: "json \<Rightarrow> string option" where
  "clean v = (if v = JNull then None else falsy_none (strip (jtext v)))"

definition url_query :: "string \<Rightarrow> scan_error + string" where
  "url_query url = (case urlsplit url of None \<Rightarrow> Inl ValueErr | Some u \<Rightarrow> Inr (su_query u))"

definition param_from_url :: "string option \<Rightarrow> scan_error + string option" where
  "param_from_url url =
     (case url of
        None \<Rightarrow> Inr None
      | Some u \<Rightarrow>
          (if CHR ''?'' \<notin> set u then Inr None
           else bindE (url_query u) (\<lambda>q.
             case filter (\<lambda>p. p \<noteq> []) (split_char (CHR ''&'') q) of
               [p] \<Rightarrow> Inr (clean (JStr (before (CHR ''='') p)))
             | _ \<Rightarrow> Inr None)))"

text \<open>\<open>_clean(v) or _param_from_url(url)\<close>.\<close>

definition or_url_param :: "string option \<Rightarrow> string option \<Rightarrow> scan_error + string option" where
  "or_url_param p url = (if truthy p then Inr p else param_from_url url)"

text \<open>The objects of a file of one document per line, with their line numbers.\<close>

definition json_lines :: "(string \<Rightarrow> json option) \<Rightarrow> string list \<Rightarrow> (nat \<times> obj) list" where
  "json_lines loads ls =
     List.map_filter (\<lambda>(n, l). let t = strip l in
       if t = [] then None
       else case loads t of Some (JObj d) \<Rightarrow> Some (n, d) | _ \<Rightarrow> None) (zip [0 ..< length ls] ls)"

text \<open>The result of a loop over the records of a report: each adds to the result, with its index.\<close>

fun gather :: "nat \<Rightarrow> (nat \<Rightarrow> 'a \<Rightarrow> scan_error + scan_result) \<Rightarrow> 'a list \<Rightarrow> scan_error + scan_result" where
  "gather i f [] = Inr no_result"
| "gather i f (x # xs) =
     bindE (f i x) (\<lambda>r. bindE (gather (Suc i) f xs) (\<lambda>s. Inr (extend_result r s)))"

definition on_obj :: "(obj \<Rightarrow> scan_error + scan_result) \<Rightarrow> json \<Rightarrow> scan_error + scan_result" where
  "on_obj f v = (case v of JObj d \<Rightarrow> f d | _ \<Rightarrow> Inr no_result)"

definition one_finding :: "scan_finding \<Rightarrow> scan_error + scan_result" where
  "one_finding f = bindE (mk_finding f) (\<lambda>g. Inr \<lparr>sr_findings = [g], sr_unmapped = []\<rparr>)"

definition note_unmapped :: "unmapped_row list \<Rightarrow> scan_error + scan_result \<Rightarrow> scan_error + scan_result" where
  "note_unmapped us r = bindE r (\<lambda>s. Inr (s\<lparr>sr_unmapped := us @ sr_unmapped s\<rparr>))"

end
