(* ===== verification/Skipfish_Js.thy ===== *)
theory Skipfish_Js
  imports Scan_Table
begin

text \<open>
  The reader of skipfish's JavaScript files in \<open>runners/_lib/normalise.py\<close>: strings, literals and the
  \<open>var name = literal;\<close> pairs of a file. An index into the text is the rest of the text from
  there. \<open>loads\<close> is \<open>json.loads\<close>, \<open>None\<close> when it refuses the text.
\<close>

section \<open>Strings\<close>

text \<open>\<open>_read_js_string\<close> after the opening quote.\<close>

fun js_string :: "char \<Rightarrow> string \<Rightarrow> string \<times> string" where
  "js_string q [] = ([], [])"
| "js_string q [c] = (if c = q then ([], []) else ([c], []))"
| "js_string q (c # n # s) =
     (if c = CHR 0x5C then
        (let (t, r) = js_string q s
         in (if n \<in> {CHR 0x27, CHR 0x22, CHR 0x5C} then (n # t, r) else (CHR 0x5C # n # t, r)))
      else if c = q then ([], n # s)
      else (let (t, r) = js_string q (n # s) in (c # t, r)))"

lemma js_string_shorter: "length (snd (js_string q s)) \<le> length s"
  by (induction q s rule: js_string.induct) (auto split: prod.splits if_splits)

text \<open>\<open>json.dumps\<close> of a string.\<close>

definition json_char :: "char \<Rightarrow> string" where
  "json_char c =
     (let n = code c
      in if n = 34 \<or> n = 92 then [CHR 0x5C, c]
         else if n = 8 then [CHR 0x5C, CHR ''b'']
         else if n = 9 then [CHR 0x5C, CHR ''t'']
         else if n = 10 then [CHR 0x5C, CHR ''n'']
         else if n = 12 then [CHR 0x5C, CHR ''f'']
         else if n = 13 then [CHR 0x5C, CHR ''r'']
         else if n < 32 \<or> 126 < n then [CHR 0x5C, CHR ''u'', CHR ''0'', CHR ''0''] @ hex_byte n
         else [c])"

definition json_string :: "string \<Rightarrow> string" where
  "json_string s = CHR 0x22 # concat (map json_char s) @ [CHR 0x22]"

section \<open>Literals\<close>

text \<open>The loop of \<open>_read_js_literal\<close>: the text collected, unless a bracket closes nothing.\<close>

function js_literal_loop :: "int \<Rightarrow> string \<Rightarrow> string option" where
  "js_literal_loop depth [] = Some []"
| "js_literal_loop depth (ch # s) =
     (if ch = CHR 0x27 \<or> ch = CHR 0x22 then
        (let (t, r) = js_string ch s in map_option (\<lambda>b. json_string t @ b) (js_literal_loop depth r))
      else
        let d = (if ch \<in> {CHR ''['', CHR ''{''} then depth + 1
                 else if ch \<in> {CHR '']'', CHR ''}''} then depth - 1 else depth)
        in if ch \<in> {CHR '']'', CHR ''}''} \<and> d < 0 then None
           else if ch = CHR '';'' \<and> depth = 0 then Some []
           else if d = 0 \<and> ch \<in> {CHR '']'', CHR ''}''} then Some [ch]
           else map_option ((#) ch) (js_literal_loop d s))"
  by pat_completeness auto
termination
proof (relation "measure (\<lambda>(_, s). length s)")
  fix ch s p t r
  assume "p = js_string ch s" and "(t, r) = p"
  then have "snd (js_string ch s) = r" by (metis snd_conv)
  then show "((depth :: int, r), depth, ch # s) \<in> measure (\<lambda>(_, s). length s)" for depth
    using js_string_shorter [of ch s] by simp
next
  show "((d :: int, s), depth, ch # s) \<in> measure (\<lambda>(_, s). length s)" for d depth ch and s :: string
    by simp
qed simp

definition read_js_literal :: "string \<Rightarrow> string option" where
  "read_js_literal s =
     (case js_literal_loop 0 s of
        None \<Rightarrow> None
      | Some buf \<Rightarrow> falsy_none (strip (rstrip_chars '';'' (strip buf))))"

section \<open>Assignments\<close>

definition ident_start :: "char \<Rightarrow> bool" where
  "ident_start c = (ascii_alpha c \<or> c = CHR ''_'')"

definition ident_char :: "char \<Rightarrow> bool" where
  "ident_char c = (ident_start c \<or> is_dec c)"

text \<open>The pattern \<open>_JS_ASSIGN_RE\<close> at the head of a text: the name and the rest after the equals sign.\<close>

definition js_assign_here :: "string \<Rightarrow> (string \<times> string) option" where
  "js_assign_here s =
     (if \<not> startswith s ''var'' then None
      else
        let a = drop 3 s; b = lstrip a; n = takeWhile ident_char b;
            c = lstrip (dropWhile ident_char b)
        in if a = b \<or> n = [] \<or> \<not> ident_start (hd n) \<or> \<not> startswith c ''='' then None
           else Some (n, lstrip (tl c)))"

lemma lstrip_shorter: "length (lstrip s) \<le> length s"
  by (simp add: lstrip_def length_dropWhile_le)

lemma js_assign_shorter:
  assumes "js_assign_here s = Some (n, r)"
  shows "length r < length s"
proof -
  let ?b = "lstrip (drop 3 s)"
  let ?c = "lstrip (dropWhile ident_char ?b)"
  have "r = lstrip (tl ?c)" and "startswith ?c ''=''" and "startswith s ''var''"
    using assms by (auto simp: js_assign_here_def Let_def split: if_splits)
  moreover have "length ?c \<le> length s"
    using lstrip_shorter [of "dropWhile ident_char ?b"] length_dropWhile_le [of ident_char ?b]
      lstrip_shorter [of "drop 3 s"] by simp
  moreover have "length (lstrip (tl ?c)) \<le> length ?c - 1"
    using lstrip_shorter [of "tl ?c"] by simp
  moreover have "s \<noteq> []" using \<open>startswith s ''var''\<close> by (auto simp: startswith_def)
  ultimately show ?thesis by (cases s) auto
qed

text \<open>\<open>finditer\<close>: the matches from left to right, the next one sought behind the last.\<close>

function js_assignments :: "string \<Rightarrow> (string \<times> string) list" where
  "js_assignments [] = []"
| "js_assignments (c # s) =
     (case js_assign_here (c # s) of
        None \<Rightarrow> js_assignments s
      | Some (n, r) \<Rightarrow> (n, r) # js_assignments r)"
  by pat_completeness auto
termination
  by (relation "measure length") (auto dest: js_assign_shorter)

definition js_step :: "(string \<Rightarrow> json option) \<Rightarrow> obj \<Rightarrow> string \<times> string \<Rightarrow> obj" where
  "js_step loads d m =
     (case read_js_literal (snd m) of
        None \<Rightarrow> d
      | Some lit \<Rightarrow> (case loads lit of None \<Rightarrow> d | Some v \<Rightarrow> dict_set (fst m) v d))"

definition parse_js_assignments :: "(string \<Rightarrow> json option) \<Rightarrow> string \<Rightarrow> obj" where
  "parse_js_assignments loads txt = foldl (js_step loads) [] (js_assignments txt)"

end
