(* ===== verification/Scan_Reports.thy ===== *)
theory Scan_Reports
  imports Skipfish_Js
begin

text \<open>
  The readers of \<open>runners/_lib/normalise.py\<close>, one per scanner, and their dispatch. Each takes the
  decoded report (\<open>JNull\<close> when it cannot be read), the name of its file, the mapping table and the name of the tool, and
  gives the findings with the rows that could not be mapped, or what Python raises.
\<close>

definition nat_text :: "nat \<Rightarrow> string" where
  "nat_text n = dec_digits n"

definition opt_json :: "string option \<Rightarrow> json" where
  "opt_json x = (case x of None \<Rightarrow> JNull | Some s \<Rightarrow> JStr s)"

definition has_skip :: "rule option \<Rightarrow> bool" where
  "has_skip r = (case r of None \<Rightarrow> False | Some x \<Rightarrow> ru_skip x)"

definition rule_cwe_of :: "rule option \<Rightarrow> int option" where
  "rule_cwe_of r = (case r of None \<Rightarrow> None | Some x \<Rightarrow> ru_cwe x)"

section \<open>ZAP\<close>

definition zap_own_cwe :: "cwe_table \<Rightarrow> string \<Rightarrow> json \<Rightarrow> scan_error + int option" where
  "zap_own_cwe t tool own =
     bindE (is_null_value t tool own) (\<lambda>b. Inr (if b then None else parse_cwe own))"

definition zap_severity :: "obj \<Rightarrow> scan_error + string option" where
  "zap_severity alert =
     (case dict_get [(''0'', ''info''), (''1'', ''low''), (''2'', ''medium''), (''3'', ''high'')]
             (strip (jtext (jget alert ''riskcode''))) of
        Some s \<Rightarrow> Inr (Some s)
      | None \<Rightarrow>
          (let d = jget alert ''riskdesc''
           in if jtruthy d
              then (case d of JStr s \<Rightarrow> Inr (norm_severity None (JStr (before (CHR '' '') s)))
                    | _ \<Rightarrow> Inl AttributeErr)
              else Inr (norm_severity None JNull)))"

definition zap_confidence :: "obj \<Rightarrow> string option" where
  "zap_confidence alert =
     (case dict_get [(''0'', ''low''), (''1'', ''low''), (''2'', ''medium''), (''3'', ''high''), (''4'', ''confirmed'')]
             (strip (jtext (jget alert ''confidence''))) of
        Some s \<Rightarrow> Some s
      | None \<Rightarrow> norm_confidence None (jget alert ''confidence''))"

definition zap_instance ::
  "string \<Rightarrow> string \<Rightarrow> int option \<Rightarrow> string option \<Rightarrow> string option \<Rightarrow> string option \<Rightarrow> obj \<Rightarrow> scan_error + scan_result" where
  "zap_instance tool ref cwe name severity confidence inst =
     (let url = clean (jget inst ''uri'')
      in bindE (or_url_param (clean (jget inst ''param'')) url) (\<lambda>param.
         one_finding \<lparr>sf_tool = tool, sf_url = url, sf_method = norm_method (jget inst ''method''),
           sf_param = param, sf_cwe = cwe, sf_name = name, sf_severity = severity,
           sf_confidence = confidence, sf_raw_ref = ref\<rparr>))"

definition zap_instances :: "obj \<Rightarrow> obj \<Rightarrow> json list" where
  "zap_instances site alert =
     (case jget alert ''instances'' of
        JList (x # xs) \<Rightarrow> x # xs
      | _ \<Rightarrow> [JObj [(''uri'', opt_json (clean (jget site ''@name'')))]])"

definition zap_alert ::
  "string \<Rightarrow> cwe_table \<Rightarrow> string \<Rightarrow> nat \<Rightarrow> obj \<Rightarrow> nat \<Rightarrow> obj \<Rightarrow> scan_error + scan_result" where
  "zap_alert path_name t tool si site ai alert =
     (let plugin = clean (jget alert ''pluginid'');
          alert_ref = or_str (clean (jget alert ''alertRef'')) plugin;
          name = or_str (clean (jget alert ''alert'')) (clean (jget alert ''name''));
          rule = table_lookup t tool [alert_ref, plugin]
      in if has_skip rule then Inr no_result
         else
           bindE (case rule of Some r \<Rightarrow> Inr (ru_cwe r) | None \<Rightarrow> zap_own_cwe t tool (jget alert ''cweid'')) (\<lambda>cwe.
           bindE (zap_severity alert) (\<lambda>severity.
           note_unmapped
             (if cwe = None then [unmapped tool (str_or (or_str alert_ref plugin) ''?'') name (Some (jtext (jget alert ''cweid'')))]
              else [])
             (gather 0 (\<lambda>ii. on_obj (zap_instance tool
                (path_name @ ''#site['' @ nat_text si @ ''].alerts['' @ nat_text ai @ ''].instances['' @ nat_text ii @ '']'')
                cwe name severity (zap_confidence alert))) (zap_instances site alert)))))"

definition zap_site :: "string \<Rightarrow> cwe_table \<Rightarrow> string \<Rightarrow> nat \<Rightarrow> obj \<Rightarrow> scan_error + scan_result" where
  "zap_site path_name t tool si site =
     bindE (iterate (or_empty (jget site ''alerts'') (JList []))) (\<lambda>alerts.
     gather 0 (\<lambda>ai. on_obj (zap_alert path_name t tool si site ai)) alerts)"

definition normalise_zap :: "string \<Rightarrow> cwe_table \<Rightarrow> string \<Rightarrow> json \<Rightarrow> scan_error + scan_result" where
  "normalise_zap path_name t tool doc =
     on_obj (\<lambda>d.
       let sites = (case jget d ''site'' of JObj s \<Rightarrow> JList [JObj s] | v \<Rightarrow> v)
       in case sites of
            JList xs \<Rightarrow> gather 0 (\<lambda>si. on_obj (zap_site path_name t tool si)) xs
          | _ \<Rightarrow> Inr no_result) doc"

section \<open>nuclei\<close>

definition first_request_method :: "obj \<Rightarrow> string option" where
  "first_request_method rec =
     (let got = (case jget rec ''request'' of
                   JStr raw \<Rightarrow> if raw = [] then None else norm_method (JStr (before (CHR '' '') (strip raw)))
                 | _ \<Rightarrow> None)
      in if truthy got then got else if jget rec ''type'' = JStr ''http'' then Some ''GET'' else None)"

definition nuclei_tags :: "obj \<Rightarrow> json" where
  "nuclei_tags info =
     (case or_empty (jget info ''tags'') (JList []) of
        JStr s \<Rightarrow> JList (map JStr (filter (\<lambda>x. x \<noteq> []) (map strip (split_char (CHR '','') s))))
      | v \<Rightarrow> v)"

text \<open>The loop over the tags: the CWE and whether the question is settled.\<close>

fun tag_walk :: "(string, rule) dict \<Rightarrow> json list \<Rightarrow> int option \<times> bool \<Rightarrow> int option \<times> bool" where
  "tag_walk rs [] acc = acc"
| "tag_walk rs (tag # tags) acc =
     (case dict_get rs (lower (jtext tag)) of
        None \<Rightarrow> tag_walk rs tags acc
      | Some r \<Rightarrow> (case ru_cwe r of Some n \<Rightarrow> (Some n, True) | None \<Rightarrow> tag_walk rs tags (None, True)))"

definition nuclei_cwe ::
  "cwe_table \<Rightarrow> string \<Rightarrow> rule option \<Rightarrow> json \<Rightarrow> obj \<Rightarrow> scan_error + (int option \<times> bool)" where
  "nuclei_cwe t tool rule tags info =
     (case rule of
        Some r \<Rightarrow> Inr (ru_cwe r, True)
      | None \<Rightarrow>
          (case parse_cwe (dig (JObj info) ''classification.cwe-id'') of
             Some n \<Rightarrow> Inr (Some n, True)
           | None \<Rightarrow> bindE (iterate tags) (\<lambda>ts. Inr (tag_walk (rules_of t (tool @ ''_tags'')) ts (None, False)))))"

definition nuclei_url :: "obj \<Rightarrow> string option" where
  "nuclei_url rec =
     or_str (or_str (or_str (clean (jget rec ''matched-at'')) (clean (jget rec ''matched_at'')))
       (clean (jget rec ''url''))) (clean (jget rec ''host''))"

definition nuclei_finding ::
  "string \<Rightarrow> string \<Rightarrow> nat \<Rightarrow> obj \<Rightarrow> obj \<Rightarrow> string option \<Rightarrow> int option \<Rightarrow> string option \<Rightarrow> scan_finding" where
  "nuclei_finding path_name tool lineno rec info name cwe param =
     (let fuzzed = norm_method (jget rec ''fuzzing_method'')
      in \<lparr>sf_tool = tool, sf_url = nuclei_url rec,
          sf_method = (if truthy fuzzed then fuzzed else norm_method (opt_json (first_request_method rec))),
          sf_param = param, sf_cwe = cwe, sf_name = name,
          sf_severity = norm_severity None (jget info ''severity''),
          sf_confidence = Some (if (case dict_get rec ''matcher-status'' of None \<Rightarrow> True | Some v \<Rightarrow> jtruthy v)
                                then ''high'' else ''medium''),
          sf_raw_ref = path_name @ ''#L'' @ nat_text (lineno + 1)\<rparr>)"

definition nuclei_record ::
  "string \<Rightarrow> cwe_table \<Rightarrow> string \<Rightarrow> nat \<times> obj \<Rightarrow> scan_error + scan_result" where
  "nuclei_record path_name t tool nr =
     (let rec = snd nr;
          template_id = or_str (clean (jget rec ''template-id'')) (clean (jget rec ''templateID''));
          info = obj_of (jget rec ''info'');
          name = or_str (clean (jget info ''name'')) template_id;
          tags = nuclei_tags info;
          rule = table_lookup t tool [template_id]
      in if has_skip rule then Inr no_result
         else
           bindE (nuclei_cwe t tool rule tags info) (\<lambda>cd.
           bindE (or_url_param (clean (jget rec ''fuzzing_parameter'')) (nuclei_url rec)) (\<lambda>param.
           note_unmapped
             (if fst cd = None \<and> \<not> snd cd
              then [unmapped tool (str_or template_id ''?'') name (Some (join '','' (map jtext (jiter tags))))] else [])
             (one_finding (nuclei_finding path_name tool (fst nr) rec info name (fst cd) param)))))"

text \<open>The lines of the file, \<open>None\<close> when it does not exist.\<close>

definition normalise_nuclei ::
  "(string \<Rightarrow> json option) \<Rightarrow> string \<Rightarrow> cwe_table \<Rightarrow> string \<Rightarrow> string list option \<Rightarrow> scan_error + scan_result" where
  "normalise_nuclei loads path_name t tool ls =
     (case ls of None \<Rightarrow> Inr no_result
      | Some l \<Rightarrow> gather 0 (\<lambda>_. nuclei_record path_name t tool) (json_lines loads l))"

section \<open>wapiti\<close>

definition wapiti_level :: "json \<Rightarrow> string option" where
  "wapiti_level v =
     (if v = JNull then None
      else let txt = lower (strip (jtext v))
           in case dict_get [(''0'', ''info''), (''1'', ''low''), (''2'', ''medium''), (''3'', ''high''), (''4'', ''critical'')] txt of
                Some s \<Rightarrow> Some s
              | None \<Rightarrow> norm_severity None (JStr txt))"

text \<open>The two alternatives of \<open>_MITRE_CWE_RE\<close> at the head of a text, and all its matches.\<close>

definition mitre_link :: "string \<Rightarrow> (int \<times> string) option" where
  "mitre_link s =
     (case skip_word ''cwe'' s of None \<Rightarrow> None
      | Some t \<Rightarrow> (case skip_word ''mitre.org/data/definitions/'' (skip_opt (\<lambda>c. c \<in> set ''.-'') t) of
                    None \<Rightarrow> None | Some u \<Rightarrow> leading_number u))"

definition mitre_here :: "string \<Rightarrow> (int \<times> string) option" where
  "mitre_here s =
     (case mitre_link s of Some x \<Rightarrow> Some x
      | None \<Rightarrow> cwe_here (\<lambda>c. c \<in> set ''-:'' \<or> is_space c) s)"

lemma leading_number_shorter: "leading_number s = Some (n, r) \<Longrightarrow> length r < length s"
  by (cases s) (auto simp: leading_number_def Let_def length_dropWhile_le less_Suc_eq_le split: if_splits)

lemma skip_word_shorter: "skip_word w s = Some t \<Longrightarrow> length t \<le> length s"
  by (auto simp: skip_word_def split: if_splits)

lemma skip_opt_shorter: "length (skip_opt P s) \<le> length s"
  by (simp add: skip_opt_def split: list.splits)

lemma cwe_here_shorter: "cwe_here P s = Some (n, r) \<Longrightarrow> length r < length s"
  using skip_word_shorter [of "''cwe''" s] skip_opt_shorter [of P]
  by (auto simp: cwe_here_def split: option.splits dest!: leading_number_shorter)
     (meson leD leI order.trans order.strict_trans2)

lemma mitre_link_shorter: "mitre_link s = Some (n, r) \<Longrightarrow> length r < length s"
  using skip_word_shorter [of "''cwe''" s] skip_opt_shorter [of "\<lambda>c. c \<in> set ''.-''"]
  by (auto simp: mitre_link_def split: option.splits dest!: leading_number_shorter skip_word_shorter)
     (meson leD leI order.trans order.strict_trans2)

lemma mitre_shorter: "mitre_here s = Some (n, r) \<Longrightarrow> length r < length s"
  by (auto simp: mitre_here_def split: option.splits dest: cwe_here_shorter mitre_link_shorter)

function mitre_numbers :: "string \<Rightarrow> int list" where
  "mitre_numbers [] = []"
| "mitre_numbers (c # s) =
     (case mitre_here (c # s) of None \<Rightarrow> mitre_numbers s | Some (n, r) \<Rightarrow> n # mitre_numbers r)"
  by pat_completeness auto
termination
  by (relation "measure length") (auto dest: mitre_shorter)

definition wapiti_ref_cwe :: "json \<Rightarrow> int option" where
  "wapiti_ref_cwe c =
     (case c of
        JObj d \<Rightarrow>
          (case jget d ''ref'' of
             JObj refs \<Rightarrow>
               (case remdups (concat (map (\<lambda>(title, url). mitre_numbers title @ mitre_numbers (jtext url)) refs)) of
                  [n] \<Rightarrow> Some n | _ \<Rightarrow> None)
           | _ \<Rightarrow> None)
      | _ \<Rightarrow> None)"

definition wapiti_cwe :: "rule option \<Rightarrow> obj \<Rightarrow> string \<Rightarrow> int option" where
  "wapiti_cwe rule classifications category =
     (case rule of
        Some r \<Rightarrow> ru_cwe r
      | None \<Rightarrow> (case parse_cwe (dig (JObj classifications) (category @ ''.cwe'')) of
                   Some n \<Rightarrow> Some n
                 | None \<Rightarrow> wapiti_ref_cwe (jget classifications category)))"

definition wapiti_entry :: "string \<Rightarrow> string \<Rightarrow> string \<Rightarrow> int option \<Rightarrow> nat \<Rightarrow> obj \<Rightarrow> scan_error + scan_result" where
  "wapiti_entry path_name tool category cwe ei entry =
     (let url = or_str (clean (jget entry ''path'')) (clean (jget entry ''url''))
      in bindE (or_url_param (clean (jget entry ''parameter'')) url) (\<lambda>param.
         one_finding \<lparr>sf_tool = tool, sf_url = url,
           sf_method = Some (str_or (norm_method (jget entry ''method'')) ''GET''),
           sf_param = param, sf_cwe = cwe, sf_name = clean (JStr category),
           sf_severity = wapiti_level (jget entry ''level''), sf_confidence = None,
           sf_raw_ref = path_name @ ''#vulnerabilities['' @ [CHR 0x27] @ category @ [CHR 0x27] @ ''][''
             @ nat_text ei @ '']''\<rparr>))"

definition wapiti_category :: "string \<Rightarrow> cwe_table \<Rightarrow> string \<Rightarrow> obj \<Rightarrow> string \<times> json \<Rightarrow> scan_error + scan_result" where
  "wapiti_category path_name t tool classifications ce =
     (case snd ce of
        JList entries \<Rightarrow>
          (let rule = table_lookup t tool [Some (fst ce)];
               cwe = wapiti_cwe rule classifications (fst ce)
           in if has_skip rule then Inr no_result
              else note_unmapped
                     (if cwe = None \<and> rule = None \<and> entries \<noteq> [] then [unmapped tool (fst ce) (Some (fst ce)) None] else [])
                     (gather 0 (\<lambda>ei. on_obj (wapiti_entry path_name tool (fst ce) cwe ei)) entries))
      | _ \<Rightarrow> Inr no_result)"

definition normalise_wapiti :: "string \<Rightarrow> cwe_table \<Rightarrow> string \<Rightarrow> json \<Rightarrow> scan_error + scan_result" where
  "normalise_wapiti path_name t tool doc =
     on_obj (\<lambda>d.
       case jget d ''vulnerabilities'' of
         JObj vulns \<Rightarrow> gather 0 (\<lambda>_. wapiti_category path_name t tool (obj_of (jget d ''classifications''))) vulns
       | _ \<Rightarrow> Inr no_result) doc"

section \<open>nikto\<close>

text \<open>What the XML parser gives: the attributes of a scan, and of each item with its two texts.\<close>

record xml_item =
  xi_attrs :: "(string, string) dict"
  xi_uri :: "string option"
  xi_description :: "string option"

record xml_scan =
  xs_attrs :: "(string, string) dict"
  xs_items :: "xml_item list"

type_synonym nikto_row = "string \<times> obj \<times> obj"

definition looks_like_xml :: "string option \<Rightarrow> bool" where
  "looks_like_xml head =
     (case head of None \<Rightarrow> False
      | Some s \<Rightarrow> startswith (dropWhile (\<lambda>c. code c = 32 \<or> (9 \<le> code c \<and> code c \<le> 13)) (take 64 s)) ''<'')"

text \<open>\<open>path.suffix\<close>.\<close>

definition path_suffix :: "string \<Rightarrow> string" where
  "path_suffix name =
     (let ext = rafter (CHR ''.'') name
      in if CHR ''.'' \<in> set name \<and> ext \<noteq> [] \<and> rbefore (CHR ''.'') name \<noteq> [] then CHR ''.'' # ext else [])"

definition numbered :: "'a list \<Rightarrow> (nat \<times> 'a) list" where
  "numbered xs = zip [0 ..< length xs] xs"

definition nikto_host :: "obj \<Rightarrow> obj" where
  "nikto_host scan = map (\<lambda>k. (k, jget scan k)) [''host'', ''ip'', ''port'', ''banner'', ''server_banner'']"

definition nikto_scan :: "string \<Rightarrow> nat \<times> json \<Rightarrow> scan_error + nikto_row list" where
  "nikto_scan path_name ns =
     (case snd ns of
        JObj scan \<Rightarrow>
          bindE (iterate (or_empty (jget scan ''vulnerabilities'') (JList []))) (\<lambda>items.
          Inr (List.map_filter (\<lambda>(vi, item). case item of
                 JObj d \<Rightarrow> Some (path_name @ ''#['' @ nat_text (fst ns) @ ''].vulnerabilities['' @ nat_text vi @ '']'',
                                nikto_host scan, d)
               | _ \<Rightarrow> None) (numbered items)))
      | _ \<Rightarrow> Inr [])"

definition nikto_json_records :: "string \<Rightarrow> json \<Rightarrow> scan_error + nikto_row list" where
  "nikto_json_records path_name doc =
     (if doc = JNull then Inr []
      else bindE (map_err (nikto_scan path_name) (numbered (case doc of JList xs \<Rightarrow> xs | _ \<Rightarrow> [doc])))
             (\<lambda>rss. Inr (concat rss)))"

definition xml_row :: "string \<Rightarrow> nat \<times> xml_scan \<Rightarrow> nat \<times> xml_item \<Rightarrow> nikto_row" where
  "xml_row path_name ns ni =
     (let a = xs_attrs (snd ns); b = xi_attrs (snd ni)
      in (path_name @ ''#scandetails['' @ nat_text (fst ns) @ ''].item['' @ nat_text (fst ni) @ '']'',
          [(''host'', opt_json (or_str (dict_get a ''targethostname'') (dict_get a ''targetip''))),
           (''ip'', opt_json (dict_get a ''targetip'')), (''port'', opt_json (dict_get a ''targetport'')),
           (''banner'', opt_json (dict_get a ''targetbanner''))],
          [(''id'', opt_json (dict_get b ''id'')), (''osvdbid'', opt_json (dict_get b ''osvdbid'')),
           (''method'', opt_json (dict_get b ''method'')),
           (''uri'', JStr (strip (str_or (xi_uri (snd ni)) []))),
           (''msg'', JStr (strip (str_or (xi_description (snd ni)) [])))]))"

definition nikto_xml_records :: "string \<Rightarrow> xml_scan list option \<Rightarrow> nikto_row list" where
  "nikto_xml_records path_name scans =
     (case scans of None \<Rightarrow> []
      | Some xs \<Rightarrow> concat (map (\<lambda>ns. map (xml_row path_name ns) (numbered (xs_items (snd ns)))) (numbered xs)))"

definition join_host :: "obj \<Rightarrow> string option \<Rightarrow> string option" where
  "join_host host uri =
     (if truthy uri \<and> (startswith (the uri) ''http://'' \<or> startswith (the uri) ''https://'') then uri
      else
        let name = or_str (clean (jget host ''host'')) (clean (jget host ''ip''));
            port = clean (jget host ''port'')
        in if \<not> truthy name then uri
           else Some ((if port = Some ''443'' then ''https'' else ''http'') @ ''://''
                  @ (case port of
                       None \<Rightarrow> the name
                     | Some p \<Rightarrow> if p \<in> {''80'', ''443''} then the name else the name @ '':'' @ p)
                  @ str_or uri ''/''))"

definition nikto_cwe :: "cwe_table \<Rightarrow> string \<Rightarrow> rule option \<Rightarrow> obj \<Rightarrow> int option" where
  "nikto_cwe t tool rule item =
     (case rule of
        Some r \<Rightarrow> ru_cwe r
      | None \<Rightarrow>
          (if (case dict_get (tool_cfg t tool) ''use_reference_cwe'' of None \<Rightarrow> True | Some v \<Rightarrow> jtruthy v)
           then (case clean (jget item ''references'') of None \<Rightarrow> None | Some s \<Rightarrow> find_cwe s) else None))"

definition nikto_record ::
  "(string \<Rightarrow> string \<Rightarrow> bool) \<Rightarrow> cwe_table \<Rightarrow> string \<Rightarrow> nikto_row \<Rightarrow> scan_error + scan_result" where
  "nikto_record search t tool row =
     (let item = snd (snd row);
          msg = or_str (clean (jget item ''msg'')) (clean (jget item ''description''));
          ident = or_str (or_str (clean (jget item ''id'')) (clean (jget item ''OSVDB''))) (clean (jget item ''osvdbid''));
          rule = (case table_lookup t tool [ident] of Some r \<Rightarrow> Some r | None \<Rightarrow> table_match search t tool msg)
      in if has_skip rule then Inr no_result
         else
           let cwe = nikto_cwe t tool rule item;
               url = join_host (fst (snd row)) (or_str (clean (jget item ''url'')) (clean (jget item ''uri'')))
           in bindE (param_from_url url) (\<lambda>param.
              note_unmapped (if cwe = None \<and> rule = None then [unmapped tool (str_or ident ''?'') msg msg] else [])
                (one_finding \<lparr>sf_tool = tool, sf_url = url,
                   sf_method = Some (str_or (norm_method (jget item ''method'')) ''GET''),
                   sf_param = param, sf_cwe = cwe, sf_name = msg,
                   sf_severity = (case rule of None \<Rightarrow> None | Some r \<Rightarrow> ru_severity r),
                   sf_confidence = None, sf_raw_ref = fst row\<rparr>)))"

definition nikto_rows ::
  "string \<Rightarrow> string option \<Rightarrow> json \<Rightarrow> xml_scan list option \<Rightarrow> scan_error + nikto_row list" where
  "nikto_rows path_name head doc scans =
     (if lower (path_suffix path_name) = ''.xml'' \<or> looks_like_xml head
      then Inr (nikto_xml_records path_name scans) else nikto_json_records path_name doc)"

definition normalise_nikto ::
  "(string \<Rightarrow> string \<Rightarrow> bool) \<Rightarrow> string \<Rightarrow> cwe_table \<Rightarrow> string \<Rightarrow> string option \<Rightarrow> json \<Rightarrow> xml_scan list option \<Rightarrow>
   scan_error + scan_result" where
  "normalise_nikto search path_name t tool head doc scans =
     bindE (nikto_rows path_name head doc scans) (\<lambda>rows. gather 0 (\<lambda>_. nikto_record search t tool) rows)"

end
