(* ===== verification/Scan_Generic.thy ===== *)
theory Scan_Generic
  imports Scan_Reports
begin

text \<open>
  The readers of \<open>runners/_lib/normalise.py\<close> for skipfish's directories and for reports a vendor
  supplies (free-form JSON and SARIF), and \<open>normalise\<close> itself. \<open>float_of\<close> is Python's \<open>float\<close> on a text.
\<close>

section \<open>skipfish\<close>

definition skipfish_param :: "json \<Rightarrow> string option \<Rightarrow> scan_error + string option" where
  "skipfish_param extra url =
     (case clean extra of
        None \<Rightarrow> param_from_url url
      | Some c \<Rightarrow> if truthy url \<and> contains (the url) (c @ ''='') then Inr (Some c) else param_from_url url)"

definition skipfish_sample ::
  "string \<Rightarrow> string \<Rightarrow> int option \<Rightarrow> string option \<Rightarrow> string option \<Rightarrow> obj \<Rightarrow> scan_error + scan_result" where
  "skipfish_sample tool ref cwe name severity sample =
     (let url = clean (jget sample ''url'')
      in bindE (skipfish_param (jget sample ''extra'') url) (\<lambda>param.
         one_finding \<lparr>sf_tool = tool, sf_url = url, sf_method = None, sf_param = param, sf_cwe = cwe,
           sf_name = name, sf_severity = severity, sf_confidence = None, sf_raw_ref = ref\<rparr>))"

definition skipfish_name :: "rule option \<Rightarrow> string option \<Rightarrow> string option" where
  "skipfish_name rule type_code =
     or_str (case rule of None \<Rightarrow> None | Some r \<Rightarrow> ru_name r)
       (if truthy type_code then Some (''skipfish issue type '' @ the type_code) else None)"

definition skipfish_group ::
  "string \<Rightarrow> cwe_table \<Rightarrow> string \<Rightarrow> obj \<Rightarrow> nat \<Rightarrow> obj \<Rightarrow> scan_error + scan_result" where
  "skipfish_group path_name t tool severity_map gi grp =
     (let type_code = clean (jget grp ''type'');
          rule = table_lookup t tool [type_code];
          name = skipfish_name rule type_code
      in if has_skip rule then Inr no_result
         else
           note_unmapped (if rule_cwe_of rule = None \<and> rule = None then [unmapped tool (str_or type_code ''?'') name None] else [])
             (bindE (iterate (or_empty (jget grp ''samples'') (JList []))) (\<lambda>samples.
              gather 0 (\<lambda>si. on_obj (skipfish_sample tool
                (path_name @ ''#issue_samples['' @ nat_text gi @ ''].samples['' @ nat_text si @ '']'')
                (rule_cwe_of rule) name (norm_severity None (jget severity_map (jtext (jget grp ''severity'')))))) samples)))"

text \<open>The text of \<open>samples.js\<close>, \<open>None\<close> when there is no such file.\<close>

definition normalise_skipfish ::
  "(string \<Rightarrow> json option) \<Rightarrow> string \<Rightarrow> cwe_table \<Rightarrow> string \<Rightarrow> string option \<Rightarrow> scan_error + scan_result" where
  "normalise_skipfish loads path_name t tool txt =
     (case txt of
        None \<Rightarrow> Inr no_result
      | Some s \<Rightarrow>
          (case jget (parse_js_assignments loads s) ''issue_samples'' of
             JList groups \<Rightarrow>
               bindE (attrs (or_empty (jget (tool_cfg t tool) ''severity_map'') (JObj []))) (\<lambda>m.
               gather 0 (\<lambda>gi. on_obj (skipfish_group path_name t tool m gi)) groups)
           | _ \<Rightarrow> Inr no_result))"

section \<open>Free-form JSON\<close>

definition GENERIC_ALIASES :: "(string, string list) dict" where
  "GENERIC_ALIASES =
     [(''url'', [''url'', ''uri'', ''location'', ''target'', ''endpoint'', ''affected_url'', ''request_url'']),
      (''method'', [''method'', ''http_method'', ''verb'', ''request_method'']),
      (''param'', [''param'', ''parameter'', ''input'', ''field'', ''injection_point'', ''affected_input'']),
      (''cwe'', [''cwe'', ''cwe_id'', ''cweid'', ''cwe-id'', ''cwes'']),
      (''name'', [''name'', ''title'', ''issue'', ''vulnerability'', ''rule'', ''check'', ''template'']),
      (''severity'', [''severity'', ''risk'', ''criticality'', ''impact'', ''level'']),
      (''confidence'', [''confidence'', ''certainty'']),
      (''id'', [''id'', ''finding_id'', ''issue_id'', ''ref'', ''uuid''])]"

definition filled :: "json \<Rightarrow> bool" where
  "filled v = (v \<noteq> JNull \<and> v \<noteq> JStr [])"

definition same_key :: "string \<Rightarrow> string \<Rightarrow> bool" where
  "same_key key k = (map (\<lambda>c. if c = CHR ''-'' then CHR ''_'' else c) (lower k) = key)"

definition pick_key :: "obj \<Rightarrow> string \<Rightarrow> json option" where
  "pick_key rec key =
     (if filled (jget rec key) then Some (jget rec key)
      else map_option snd (List.find (\<lambda>(k, v). same_key key k \<and> filled v) rec))"

fun pick_first :: "obj \<Rightarrow> string list \<Rightarrow> json" where
  "pick_first rec [] = JNull"
| "pick_first rec (k # ks) = (case pick_key rec k of Some v \<Rightarrow> v | None \<Rightarrow> pick_first rec ks)"

definition pick :: "obj \<Rightarrow> string \<Rightarrow> json" where
  "pick rec fld = pick_first rec (get_or (dict_get GENERIC_ALIASES fld) [])"

definition generic_record :: "string \<Rightarrow> cwe_table \<Rightarrow> string \<Rightarrow> nat \<Rightarrow> obj \<Rightarrow> scan_error + scan_result" where
  "generic_record path_name t tool ri rec =
     (let ident = clean (pick rec ''id'');
          name = clean (pick rec ''name'');
          rule = table_lookup t tool [ident, name]
      in if has_skip rule then Inr no_result
         else
           let cwe = (case rule of Some r \<Rightarrow> ru_cwe r | None \<Rightarrow> parse_cwe (pick rec ''cwe''));
               url = clean (pick rec ''url'')
           in bindE (or_url_param (clean (pick rec ''param'')) url) (\<lambda>param.
              note_unmapped (if cwe = None \<and> rule = None then [unmapped tool (str_or (or_str ident name) ''?'') name None] else [])
                (one_finding \<lparr>sf_tool = tool, sf_url = url, sf_method = norm_method (pick rec ''method''),
                   sf_param = param, sf_cwe = cwe, sf_name = name,
                   sf_severity = norm_severity None (pick rec ''severity''),
                   sf_confidence = norm_confidence None (pick rec ''confidence''),
                   sf_raw_ref = path_name @ ''#['' @ nat_text ri @ '']''\<rparr>)))"

text \<open>The list of records: under one of five keys, or the document itself.\<close>

definition generic_rows :: "json \<Rightarrow> json list" where
  "generic_rows doc =
     (case doc of
        JObj d \<Rightarrow>
          (case List.map_filter (\<lambda>k. case jget d k of JList xs \<Rightarrow> Some xs | _ \<Rightarrow> None)
                  [''findings'', ''results'', ''issues'', ''vulnerabilities'', ''items''] of
             xs # _ \<Rightarrow> xs
           | [] \<Rightarrow> [doc])
      | JList xs \<Rightarrow> xs
      | _ \<Rightarrow> [])"

definition normalise_generic_json :: "string \<Rightarrow> cwe_table \<Rightarrow> string \<Rightarrow> json \<Rightarrow> scan_error + scan_result" where
  "normalise_generic_json path_name t tool doc =
     gather 0 (\<lambda>ri. on_obj (generic_record path_name t tool ri)) (generic_rows doc)"

section \<open>SARIF\<close>

definition add_rules :: "(string \<Rightarrow> obj \<Rightarrow> (string, obj) dict \<Rightarrow> (string, obj) dict) \<Rightarrow> json list \<Rightarrow>
  (string, obj) dict \<Rightarrow> (string, obj) dict" where
  "add_rules put rs d =
     foldl (\<lambda>d r. case r of JObj m \<Rightarrow> if jtruthy (jget m ''id'') then put (jtext (jget m ''id'')) m d else d | _ \<Rightarrow> d) d rs"

fun extension_rules :: "json list \<Rightarrow> (string, obj) dict \<Rightarrow> scan_error + (string, obj) dict" where
  "extension_rules [] d = Inr d"
| "extension_rules (e # es) d =
     bindE (attrs (or_empty e (JObj []))) (\<lambda>x.
     bindE (iterate (or_empty (jget x ''rules'') (JList []))) (\<lambda>rs.
     extension_rules es (add_rules setdefault rs d)))"

definition sarif_rules :: "obj \<Rightarrow> scan_error + (string, obj) dict" where
  "sarif_rules run =
     bindE (attrs (or_empty (dig (JObj run) ''tool.driver'') (JObj []))) (\<lambda>driver.
     bindE (iterate (or_empty (jget driver ''rules'') (JList []))) (\<lambda>rs.
     bindE (iterate (or_empty (dig (JObj run) ''tool.extensions'') (JList []))) (\<lambda>es.
     extension_rules es (add_rules dict_set rs []))))"

text \<open>\<open>a + b\<close> of two sequences, and what the loop over it finds.\<close>

definition add_seqs :: "json \<Rightarrow> json \<Rightarrow> scan_error + json list" where
  "add_seqs a b =
     (case (a, b) of
        (JList xs, JList ys) \<Rightarrow> Inr (xs @ ys)
      | (JStr s, JStr t) \<Rightarrow> iterate (JStr (s @ t))
      | _ \<Rightarrow> Inl TypeErr)"

definition taxa_tags :: "json \<Rightarrow> json list" where
  "taxa_tags taxa =
     (case taxa of
        JObj x \<Rightarrow> (case jget x ''target'' of
                     JObj tg \<Rightarrow> [jget tg ''id'', jget tg ''name'']
                   | _ \<Rightarrow> [jget x ''id''])
      | _ \<Rightarrow> [])"

definition listed :: "json \<Rightarrow> json list" where
  "listed v = (case v of JList xs \<Rightarrow> xs | _ \<Rightarrow> [])"

fun first_tag_cwe :: "json list \<Rightarrow> int option" where
  "first_tag_cwe [] = None"
| "first_tag_cwe (tag # tags) =
     (case (if tag = JNull then None else find_cwe (jtext tag)) of Some n \<Rightarrow> Some n | None \<Rightarrow> first_tag_cwe tags)"

definition sarif_cwe :: "obj \<Rightarrow> obj \<Rightarrow> scan_error + int option" where
  "sarif_cwe result rule_meta =
     (case parse_cwes [dig (JObj result) ''properties.cwe'', dig (JObj rule_meta) ''properties.cwe''] of
        Some n \<Rightarrow> Inr (Some n)
      | None \<Rightarrow>
          bindE (add_seqs (or_empty (jget result ''taxa'') (JList [])) (or_empty (jget rule_meta ''relationships'') (JList [])))
            (\<lambda>taxa. Inr (first_tag_cwe
               (listed (dig (JObj rule_meta) ''properties.tags'') @ listed (dig (JObj result) ''properties.tags'')
                @ concat (map taxa_tags taxa)))))"

datatype pyfloat = Finite rat | PosInf | NegInf | NotNumber

definition at_least :: "pyfloat \<Rightarrow> rat \<Rightarrow> bool" where
  "at_least f r = (case f of Finite x \<Rightarrow> r \<le> x | PosInf \<Rightarrow> True | NegInf \<Rightarrow> False | NotNumber \<Rightarrow> False)"

definition above :: "pyfloat \<Rightarrow> rat \<Rightarrow> bool" where
  "above f r = (case f of Finite x \<Rightarrow> r < x | PosInf \<Rightarrow> True | NegInf \<Rightarrow> False | NotNumber \<Rightarrow> False)"

text \<open>\<open>float(v)\<close> with its \<open>TypeError\<close> and \<open>ValueError\<close> caught; an integer out of range is not.\<close>

definition float_score :: "(string \<Rightarrow> pyfloat option) \<Rightarrow> json \<Rightarrow> scan_error + pyfloat option" where
  "float_score float_of v =
     (case v of
        JBool b \<Rightarrow> Inr (Some (Finite (of_bool b)))
      | JInt n \<Rightarrow> if 2 ^ 1024 - 2 ^ 970 \<le> \<bar>n\<bar> then Inl OverflowErr else Inr (Some (Finite (of_int n)))
      | JFloat r s \<Rightarrow> Inr (Some (Finite r))
      | JStr s \<Rightarrow> Inr (float_of s)
      | _ \<Rightarrow> Inr None)"

definition sarif_severity :: "(string \<Rightarrow> pyfloat option) \<Rightarrow> obj \<Rightarrow> obj \<Rightarrow> scan_error + string option" where
  "sarif_severity float_of result rule_meta =
     bindE (float_score float_of (jor (dig (JObj result) ''properties.security-severity'')
                                      (dig (JObj rule_meta) ''properties.security-severity''))) (\<lambda>score.
     Inr (case score of
            Some x \<Rightarrow> Some (if at_least x 9 then ''critical'' else if at_least x 7 then ''high''
                            else if at_least x 4 then ''medium'' else if above x 0 then ''low'' else ''info'')
          | None \<Rightarrow> or_str (norm_severity None (jget result ''level''))
                      (norm_severity None (dig (JObj rule_meta) ''defaultConfiguration.level''))))"

definition sarif_request :: "obj \<Rightarrow> obj" where
  "sarif_request result = obj_of (jget result ''webRequest'')"

definition sarif_param :: "obj \<Rightarrow> string option" where
  "sarif_param request = (case jget request ''parameters'' of JObj [(k, v)] \<Rightarrow> clean (JStr k) | _ \<Rightarrow> None)"

fun first_location :: "json list \<Rightarrow> string option" where
  "first_location [] = None"
| "first_location (l # ls) =
     (let uri = dig l ''physicalLocation.artifactLocation.uri''
      in if jtruthy uri then clean uri else first_location ls)"

definition sarif_url :: "obj \<Rightarrow> scan_error + string option" where
  "sarif_url result =
     (case clean (jget (sarif_request result) ''target'') of
        Some u \<Rightarrow> Inr (Some u)
      | None \<Rightarrow> bindE (iterate (or_empty (jget result ''locations'') (JList []))) (\<lambda>ls. Inr (first_location ls)))"

definition sarif_result ::
  "(string \<Rightarrow> pyfloat option) \<Rightarrow> string \<Rightarrow> cwe_table \<Rightarrow> string \<Rightarrow> nat \<Rightarrow> (string, obj) dict \<Rightarrow> nat \<Rightarrow> obj \<Rightarrow>
   scan_error + scan_result" where
  "sarif_result float_of path_name t tool ri rules si result =
     (let rule_id = clean (jget result ''ruleId'');
          rule_meta = get_or (dict_get rules (str_or rule_id [])) [];
          name = or_str (or_str (or_str (clean (dig (JObj result) ''message.text''))
                   (clean (dig (JObj rule_meta) ''shortDescription.text''))) (clean (jget rule_meta ''name''))) rule_id;
          rule = table_lookup t tool [rule_id]
      in bindE (case rule of Some r \<Rightarrow> Inr (ru_cwe r) | None \<Rightarrow> sarif_cwe result rule_meta) (\<lambda>cwe.
         bindE (sarif_url result) (\<lambda>url.
         bindE (or_url_param (sarif_param (sarif_request result)) url) (\<lambda>param.
         bindE (sarif_severity float_of result rule_meta) (\<lambda>severity.
         note_unmapped (if cwe = None \<and> rule = None then [unmapped tool (str_or rule_id ''?'') name None] else [])
           (one_finding \<lparr>sf_tool = tool, sf_url = url,
              sf_method = norm_method (jget (sarif_request result) ''method''), sf_param = param,
              sf_cwe = cwe, sf_name = name, sf_severity = severity,
              sf_confidence = norm_confidence None (dig (JObj result) ''properties.confidence''),
              sf_raw_ref = path_name @ ''#runs['' @ nat_text ri @ ''].results['' @ nat_text si @ '']''\<rparr>))))))"

definition sarif_run ::
  "(string \<Rightarrow> pyfloat option) \<Rightarrow> string \<Rightarrow> cwe_table \<Rightarrow> string \<Rightarrow> nat \<Rightarrow> obj \<Rightarrow> scan_error + scan_result" where
  "sarif_run float_of path_name t tool ri run =
     bindE (sarif_rules run) (\<lambda>rules.
     bindE (iterate (or_empty (jget run ''results'') (JList []))) (\<lambda>results.
     gather 0 (\<lambda>si. on_obj (sarif_result float_of path_name t tool ri rules si)) results))"

definition normalise_sarif ::
  "(string \<Rightarrow> pyfloat option) \<Rightarrow> string \<Rightarrow> cwe_table \<Rightarrow> string \<Rightarrow> obj \<Rightarrow> scan_error + scan_result" where
  "normalise_sarif float_of path_name t tool d =
     bindE (iterate (or_empty (jget d ''runs'') (JList []))) (\<lambda>runs.
     gather 0 (\<lambda>ri. on_obj (sarif_run float_of path_name t tool ri)) runs)"

definition normalise_generic ::
  "(string \<Rightarrow> pyfloat option) \<Rightarrow> string \<Rightarrow> cwe_table \<Rightarrow> string \<Rightarrow> json \<Rightarrow> scan_error + scan_result" where
  "normalise_generic float_of path_name t tool doc =
     (if doc = JNull then Inr no_result
      else case doc of
        JObj d \<Rightarrow>
          (if dict_get d ''runs'' \<noteq> None \<and> (dict_get d ''$schema'' \<noteq> None \<or> dict_get d ''version'' \<noteq> None)
           then normalise_sarif float_of path_name t tool d else normalise_generic_json path_name t tool doc)
      | _ \<Rightarrow> normalise_generic_json path_name t tool doc)"

section \<open>Dispatch\<close>

text \<open>A raw report as the readers find it on disk: its name, its decoded content, and the forms only
  one reader looks for.\<close>

record raw_report =
  rr_name :: string
  rr_doc :: json
  rr_lines :: "string list option"
  rr_head :: "string option"
  rr_xml :: "xml_scan list option"
  rr_samples :: "string option"

text \<open>What the readers use of Python and of its libraries.\<close>

record python_lib =
  py_search :: "string \<Rightarrow> string \<Rightarrow> bool"
  py_loads :: "string \<Rightarrow> json option"
  py_float :: "string \<Rightarrow> pyfloat option"

definition normalise :: "python_lib \<Rightarrow> string \<Rightarrow> raw_report \<Rightarrow> cwe_table \<Rightarrow> scan_error + scan_result" where
  "normalise py tool rp t =
     (if tool = ''zap'' then normalise_zap (rr_name rp) t tool (rr_doc rp)
      else if tool = ''nuclei'' then normalise_nuclei (py_loads py) (rr_name rp) t tool (rr_lines rp)
      else if tool = ''wapiti'' then normalise_wapiti (rr_name rp) t tool (rr_doc rp)
      else if tool = ''nikto'' then normalise_nikto (py_search py) (rr_name rp) t tool (rr_head rp) (rr_doc rp) (rr_xml rp)
      else if tool = ''skipfish'' then normalise_skipfish (py_loads py) (rr_name rp) t tool (rr_samples rp)
      else if tool = ''generic'' then normalise_generic (py_float py) (rr_name rp) t tool (rr_doc rp)
      else Inl KeyErr)"

end
