(* ===== verification/Scan_Facts.thy ===== *)
theory Scan_Facts
  imports Scan_Generic
begin

text \<open>
  What the readers of scanner reports promise: findings in the vocabularies, no CWE that neither the
  mapping table nor the report states, every undecided output listed and no settled one, one ZAP
  finding per instance, and the spellings of a CWE.
\<close>

section \<open>Numbers a text shows\<close>

function digit_runs :: "string \<Rightarrow> string list" where
  "digit_runs [] = []"
| "digit_runs (c # s) =
     (if is_dec c then (c # takeWhile is_dec s) # digit_runs (dropWhile is_dec s) else digit_runs s)"
  by pat_completeness auto
termination
  by (relation "measure length") (auto simp: less_Suc_eq_le length_dropWhile_le)

definition numbers_in :: "string \<Rightarrow> int list" where
  "numbers_in s = map dec_num (digit_runs s)"

lemma digit_runs_whole:
  assumes "list_all is_dec s" and "s \<noteq> []"
  shows "digit_runs s = [s]"
proof (cases s)
  case (Cons c t)
  then have "takeWhile is_dec t = t" and "dropWhile is_dec t = []"
    using assms by (auto simp: list_all_iff)
  then show ?thesis using assms Cons by (simp del: dropWhile_eq_Nil_conv)
qed (use assms in simp)

lemma digit_runs_append:
  assumes "a = [] \<or> \<not> is_dec (last a)"
  shows "digit_runs (a @ b) = digit_runs a @ digit_runs b"
  using assms
proof (induction a rule: digit_runs.induct)
  case 1
  then show ?case by simp
next
  case (2 c s)
  show ?case
  proof (cases "is_dec c")
    case True
    then have "s \<noteq> []" using 2(3) by auto
    then have l: "\<not> is_dec (last s)" using 2(3) by simp
    have x: "last s \<in> set s" using \<open>s \<noteq> []\<close> by simp
    have t: "takeWhile is_dec (s @ b) = takeWhile is_dec s" "dropWhile is_dec (s @ b) = dropWhile is_dec s @ b"
      using takeWhile_append1 [OF x] dropWhile_append1 [OF x] l by simp_all
    have "dropWhile is_dec s \<noteq> []" using x l by (auto simp only: dropWhile_eq_Nil_conv)
    then have "last (dropWhile is_dec s) = last s" by (metis last_appendR takeWhile_dropWhile_id)
    then have "\<not> is_dec (last (dropWhile is_dec s))" using l by simp
    then have "digit_runs (dropWhile is_dec s @ b) = digit_runs (dropWhile is_dec s) @ digit_runs b"
      using 2(1) [OF True] by blast
    then show ?thesis by (simp add: True t)
  next
    case False
    then have "s = [] \<or> \<not> is_dec (last s)" using 2(3) by (cases "s = []") auto
    then show ?thesis using 2(2) [OF False] False by simp
  qed
qed

lemma numbers_in_append:
  "a = [] \<or> \<not> is_dec (last a) \<Longrightarrow> numbers_in (a @ b) = numbers_in a @ numbers_in b"
  by (simp add: numbers_in_def digit_runs_append)

lemma numbers_in_whole: "list_all is_dec s \<Longrightarrow> s \<noteq> [] \<Longrightarrow> numbers_in s = [dec_num s]"
  by (simp add: numbers_in_def digit_runs_whole)

lemma leading_number_in: "leading_number s = Some (n, r) \<Longrightarrow> n \<in> set (numbers_in s)"
  by (cases s) (auto simp: leading_number_def Let_def numbers_in_def split: if_splits)

lemma is_dec_not_space: "is_dec c \<Longrightarrow> \<not> is_space c"
  by (auto simp: is_dec_def is_space_def Let_def)

lemma numbers_in_dropWhile_space: "numbers_in (dropWhile is_space s) = numbers_in s"
  by (induction s) (auto simp: numbers_in_def dest: is_dec_not_space)

lemma digit_runs_space_end:
  assumes "\<forall>c\<in>set b. \<not> is_dec c"
  shows "digit_runs (a @ b) = digit_runs a"
  using assms
proof (induction a rule: digit_runs.induct)
  case 1
  then show ?case by (induction b) auto
next
  case (2 c s)
  have t: "takeWhile is_dec (s @ b) = takeWhile is_dec s"
    using 2(3) by (induction s) (auto simp: takeWhile_eq_Nil_iff dest: hd_in_set)
  have d: "dropWhile is_dec (s @ b) = dropWhile is_dec s @ b"
    using 2(3) by (induction s) (auto intro: dropWhile_all)
  show ?case using 2 t d by (cases "is_dec c") auto
qed

lemma numbers_in_strip: "numbers_in (strip s) = numbers_in s"
proof -
  let ?d = "dropWhile is_space s"
  have eq: "?d = rstrip_where is_space ?d @ rev (takeWhile is_space (rev ?d))"
    by (metis rev_append rev_rev_ident rstrip_where_def takeWhile_dropWhile_id)
  have "\<forall>c\<in>set (rev (takeWhile is_space (rev ?d))). \<not> is_dec c"
    using is_dec_not_space by (auto dest: set_takeWhileD)
  then have "digit_runs ?d = digit_runs (rstrip_where is_space ?d)"
    by (subst eq) (rule digit_runs_space_end)
  then show ?thesis
    by (simp add: strip_where_def numbers_in_def flip: numbers_in_dropWhile_space [of s, unfolded numbers_in_def])
qed

section \<open>Numbers the searches find\<close>

lemma skip_opt_split: "\<exists>x. s = x @ skip_opt P s \<and> (x = [] \<or> (\<exists>c. x = [c] \<and> P c))"
  by (cases s) (auto simp: skip_opt_def)

lemma skip_word_split:
  assumes "skip_word w s = Some t"
  shows "\<exists>x. s = x @ t \<and> lower x = w"
proof -
  have "t = drop (length w) s" and "take (length w) (lower s) = w"
    using assms by (auto simp: skip_word_def startswith_def split: if_splits)
  then show ?thesis
    by (intro exI [of _ "take (length w) s"]) (simp add: lower_def take_map)
qed

lemma is_dec_lower: "is_dec c \<Longrightarrow> lower_char c = c"
  by (auto simp: is_dec_def lower_char_def Let_def)

lemma last_lower_nodec: "lower x = w \<Longrightarrow> w \<noteq> [] \<Longrightarrow> \<not> is_dec (last w) \<Longrightarrow> x \<noteq> [] \<and> \<not> is_dec (last x)"
  by (auto simp: lower_def last_map is_dec_lower)

lemma nodec_eval:
  "\<not> is_dec (last ''cwe'')" "\<not> is_dec (last ''mitre.org/data/definitions/'')"
  by code_simp+

lemma skip_word_numbers:
  assumes "skip_word w s = Some t" and "w \<noteq> []" and "\<not> is_dec (last w)"
  shows "set (numbers_in t) \<subseteq> set (numbers_in s)"
proof -
  obtain x where "s = x @ t" "lower x = w" using skip_word_split [OF assms(1)] by blast
  then show ?thesis using last_lower_nodec [of x w] assms(2,3) by (simp add: numbers_in_append)
qed

lemma skip_opt_numbers:
  assumes "\<And>c. P c \<Longrightarrow> \<not> is_dec c"
  shows "set (numbers_in (skip_opt P s)) \<subseteq> set (numbers_in s)"
  using skip_opt_split [of s P] assms numbers_in_append by (metis Un_upper2 last_ConsL set_append)

lemma seps_nodec:
  "cwe_sep c \<Longrightarrow> \<not> is_dec c" "c \<in> set ''-:'' \<or> is_space c \<Longrightarrow> \<not> is_dec c" "c \<in> set ''.-'' \<Longrightarrow> \<not> is_dec c"
  by (auto simp: cwe_sep_def is_dec_def is_space_def Let_def code_def)

lemma cwe_here_numbers:
  assumes "cwe_here P s = Some (n, r)" and "\<And>c. P c \<Longrightarrow> \<not> is_dec c"
  shows "n \<in> set (numbers_in s)"
proof -
  obtain t where t: "skip_word ''cwe'' s = Some t" and n: "leading_number (skip_opt P t) = Some (n, r)"
    using assms(1) by (auto simp: cwe_here_def split: option.splits)
  have "set (numbers_in t) \<subseteq> set (numbers_in s)"
    using skip_word_numbers [OF t] nodec_eval(1) by simp
  then show ?thesis
    using leading_number_in [OF n] skip_opt_numbers [of P t, OF assms(2)] by blast
qed

lemma mitre_here_numbers:
  assumes "mitre_here s = Some (n, r)"
  shows "n \<in> set (numbers_in s)"
proof (cases "mitre_link s")
  case None
  then show ?thesis using assms cwe_here_numbers seps_nodec(2) by (auto simp: mitre_here_def)
next
  case (Some x)
  then have "mitre_link s = Some (n, r)" using assms by (simp add: mitre_here_def)
  then obtain t u where t: "skip_word ''cwe'' s = Some t" and n: "leading_number u = Some (n, r)"
    and u: "skip_word ''mitre.org/data/definitions/'' (skip_opt (\<lambda>c. c \<in> set ''.-'') t) = Some u"
    unfolding mitre_link_def by (auto split: option.splits)
  have "set (numbers_in u) \<subseteq> set (numbers_in (skip_opt (\<lambda>c. c \<in> set ''.-'') t))"
    using skip_word_numbers [OF u] nodec_eval(2) by simp
  also have "\<dots> \<subseteq> set (numbers_in t)" by (rule skip_opt_numbers) (rule seps_nodec(3))
  also have "\<dots> \<subseteq> set (numbers_in s)" using skip_word_numbers [OF t] nodec_eval(1) by simp
  finally show ?thesis using leading_number_in [OF n] by blast
qed

section \<open>The spellings of a CWE\<close>

lemma int_text_number: "0 < n \<Longrightarrow> n \<in> set (numbers_in (int_text n))"
  by (simp add: int_text_def numbers_in_whole)

lemma strip_space_around:
  assumes "\<forall>c\<in>set a. is_space c" and "\<forall>c\<in>set b. is_space c" and "s \<noteq> []"
    and "\<not> is_space (hd s)" and "\<not> is_space (last s)"
  shows "strip (a @ s @ b) = s"
proof -
  have "dropWhile is_space (a @ s @ b) = s @ b"
    using assms(1,3,4) by (simp add: dropWhile_append2 neq_Nil_conv) auto
  moreover have "dropWhile is_space (rev b @ rev s) = rev s"
    using assms(2,3,5) dropWhile_append2 [of "rev b" is_space] by (cases s rule: rev_cases) auto
  ultimately show ?thesis by (simp add: strip_where_def rstrip_where_def)
qed

lemma cwe_text_spelled:
  assumes "lower w = ''cwe''" and "sep = [] \<or> (\<exists>c. sep = [c] \<and> cwe_sep c)" and "0 < n"
  shows "cwe_text (w @ sep @ dec_digits n) = Some (int n)"
proof -
  have w: "length w = 3" using assms(1) by (metis length_Cons list.size(3) lower_simps(4) numeral_3_eq_3)
  then have k: "skip_word ''cwe'' (w @ sep @ dec_digits n) = Some (sep @ dec_digits n)"
    using assms(1) by (simp add: skip_word_def)
  obtain d ds where ds: "dec_digits n = d # ds" and d: "is_dec d"
    using dec_digits_dec(1,2) [of n] by (cases "dec_digits n") auto
  have "skip_opt cwe_sep (sep @ dec_digits n) = dec_digits n"
    using assms(2) ds d seps_nodec(1) by (auto simp: skip_opt_def)
  then show ?thesis using k assms(3) by (simp add: cwe_text_def)
qed

lemma cwe_text_bare: "0 < n \<Longrightarrow> cwe_text (dec_digits n) = Some (int n)"
proof -
  assume n: "0 < n"
  obtain d ds where ds: "dec_digits n = d # ds" and d: "is_dec d"
    using dec_digits_dec(1,2) [of n] by (cases "dec_digits n") auto
  have "skip_word ''cwe'' (dec_digits n) = None"
    using d is_dec_lower [OF d] by (auto simp: ds skip_word_def is_dec_def code_def)
  then show ?thesis using n by (simp add: cwe_text_def)
qed

lemma cwe_text_in: "cwe_text s = Some n \<Longrightarrow> n \<in> set (numbers_in s)"
proof -
  assume a: "cwe_text s = Some n"
  define t where "t = (case skip_word ''cwe'' s of None \<Rightarrow> s | Some t \<Rightarrow> skip_opt cwe_sep t)"
  have "t \<noteq> []" "list_all is_dec t" "n = dec_num t"
    using a unfolding cwe_text_def Let_def t_def [symmetric] by (auto split: if_splits)
  then have "n \<in> set (numbers_in t)" by (simp add: numbers_in_whole)
  moreover have "set (numbers_in t) \<subseteq> set (numbers_in s)"
  proof (cases "skip_word ''cwe'' s")
    case (Some u)
    have "set (numbers_in (skip_opt cwe_sep u)) \<subseteq> set (numbers_in u)"
      by (rule skip_opt_numbers) (rule seps_nodec(1))
    then show ?thesis
      using Some skip_word_numbers [OF Some] nodec_eval(1) by (auto simp: t_def)
  qed (simp add: t_def)
  ultimately show ?thesis by blast
qed

text \<open>Every spelling of a weakness number that the tools use is read as that number: the bare
  digits, or the prefix in any case with an optional separator, with white space around, as a text, as
  a number or as the first readable element of a list.\<close>

theorem parse_cwe_spellings:
  assumes "0 < n" and "\<forall>c\<in>set a. is_space c" and "\<forall>c\<in>set b. is_space c"
    and "w = [] \<and> sep = [] \<or> lower w = ''cwe'' \<and> (sep = [] \<or> (\<exists>c. sep = [c] \<and> cwe_sep c))"
    and "\<forall>v\<in>set vs. parse_cwe v = None"
  shows "parse_cwe (JStr (a @ (w @ sep @ dec_digits n) @ b)) = Some (int n)
    \<and> parse_cwe (JInt (int n)) = Some (int n)
    \<and> parse_cwe (JList (vs @ JStr (a @ (w @ sep @ dec_digits n) @ b) # us)) = Some (int n)"
proof -
  let ?s = "w @ sep @ dec_digits n"
  have t: "cwe_text ?s = Some (int n)"
    using assms(1,4) cwe_text_spelled cwe_text_bare by auto
  have "\<not> is_space (last ?s)"
    using dec_digits_dec(1,2) [of n] is_dec_not_space by (simp add: list_all_iff)
  moreover have "\<not> is_space (hd ?s)"
  proof (cases "w = []")
    case True
    then show ?thesis
      using assms(4) dec_digits_dec(1,2) [of n] is_dec_not_space by (simp add: list_all_iff lower_def)
  next
    case False
    then have "lower_char (hd w) = CHR ''c''" using assms(4) by (cases w) (auto simp: lower_def)
    then have "\<not> is_space (lower_char (hd w))" by (simp add: is_space_def Let_def code_def)
    then show ?thesis using False by simp
  qed
  ultimately have p: "parse_cwe (JStr (a @ ?s @ b)) = Some (int n)"
    using t strip_space_around [OF assms(2,3), of ?s] by simp
  have "parse_cwes (vs @ JStr (a @ ?s @ b) # us) = Some (int n)"
    using assms(5) p by (induction vs) auto
  then show ?thesis using p assms(1) by simp
qed

lemma parse_cwe_spellings_witness:
  "parse_cwe (JList [JStr ''owasp'', JStr '' CwE_89 '']) = Some 89"
proof -
  have d: "dec_digits 89 = ''89''" by code_simp
  have "parse_cwe (JStr ''owasp'') = None" by code_simp
  moreover have "lower ''CwE'' = ''cwe''" and "cwe_sep (CHR ''_'')" and "is_space (CHR '' '')" by code_simp+
  ultimately show ?thesis
    using parse_cwe_spellings [of 89 "'' ''" "'' ''" "''CwE''" "''_''" "[JStr ''owasp'']" "[]"] by (simp add: d)
qed

end
