(* ===== verification/Scan_Promises.thy ===== *)
theory Scan_Promises
  imports Scan_Facts
begin

text \<open>
  Theorems about every reader of scanner reports at once. Results are joined record by record, so a law
  that holds of no result and of joined ones holds of what a loop over records gives (locale
  \<open>result_law\<close>, interpreted on the two laws below).
\<close>

section \<open>Interface: laws of results\<close>

locale result_law =
  fixes R :: "scan_result \<Rightarrow> bool"
  assumes R_none: "R no_result"
    and R_extend: "R r \<Longrightarrow> R s \<Longrightarrow> R (extend_result r s)"
begin

lemma gather_law:
  assumes "gather i f xs = Inr r" and "\<And>j x s. x \<in> set xs \<Longrightarrow> f j x = Inr s \<Longrightarrow> R s"
  shows "R r"
  using assms
proof (induction xs arbitrary: i r)
  case Nil
  then show ?case by (simp add: R_none)
next
  case (Cons x xs)
  obtain a b where a: "f i x = Inr a" and b: "gather (Suc i) f xs = Inr b" and r: "r = extend_result a b"
    using Cons.prems(1) by (auto simp: bindE_Inr_iff)
  have "R a" using a by (rule Cons.prems(2) [rotated]) simp
  moreover have "R b" using b by (rule Cons.IH) (auto intro: Cons.prems(2))
  ultimately show ?case unfolding r by (rule R_extend)
qed

lemma objects_law:
  assumes "gather i (\<lambda>j. on_obj (f j)) xs = Inr r"
    and "\<And>j d s. JObj d \<in> set xs \<Longrightarrow> f j d = Inr s \<Longrightarrow> R s"
  shows "R r"
  using assms(1)
proof (rule gather_law)
  fix j x s
  assume "x \<in> set xs" and "on_obj (f j) x = Inr s"
  then show "R s" using assms(2) by (auto simp: on_obj_def R_none split: json.splits)
qed

end

lemma extend_result_simps [simp]:
  "sr_findings (extend_result r s) = sr_findings r @ sr_findings s"
  "sr_unmapped (extend_result r s) = sr_unmapped r @ sr_unmapped s"
  "sr_findings no_result = []" "sr_unmapped no_result = []"
  by (simp_all add: extend_result_def no_result_def)

lemma one_findingD:
  "one_finding f = Inr r \<Longrightarrow> scan_finding_ok f \<and> r = \<lparr>sr_findings = [f], sr_unmapped = []\<rparr>"
  by (auto simp: one_finding_def mk_finding_def split: if_splits)

lemma note_unmappedD:
  "note_unmapped us x = Inr r \<Longrightarrow> \<exists>s. x = Inr s \<and> r = s\<lparr>sr_unmapped := us @ sr_unmapped s\<rparr>"
  by (auto simp: note_unmapped_def bindE_Inr_iff)

section \<open>What a document states\<close>

fun nodes :: "json \<Rightarrow> json list"
  and nodes_list :: "json list \<Rightarrow> json list"
  and nodes_items :: "(string \<times> json) list \<Rightarrow> json list" where
  "nodes (JList xs) = JList xs # nodes_list xs"
| "nodes (JObj d) = JObj d # nodes_items d"
| "nodes JNull = [JNull]"
| "nodes (JBool b) = [JBool b]"
| "nodes (JInt n) = [JInt n]"
| "nodes (JFloat r s) = [JFloat r s]"
| "nodes (JStr s) = [JStr s]"
| "nodes_list [] = []"
| "nodes_list (x # xs) = nodes x @ nodes_list xs"
| "nodes_items [] = []"
| "nodes_items ((k, v) # d) = JStr k # nodes v @ nodes_items d"

text \<open>A document states a number when the text of some value or key in it shows it.\<close>

definition states :: "json \<Rightarrow> int \<Rightarrow> bool" where
  "states v n = list_ex (\<lambda>x. n \<in> set (numbers_in (jtext x))) (nodes v)"

lemma nodes_self [simp]: "v \<in> set (nodes v)"
  by (cases v) auto

lemma states_self: "n \<in> set (numbers_in (jtext v)) \<Longrightarrow> states v n"
  by (auto simp: states_def list_ex_iff intro!: bexI [of _ v])

lemma nodes_list_iff: "y \<in> set (nodes_list xs) \<longleftrightarrow> (\<exists>x\<in>set xs. y \<in> set (nodes x))"
  by (induction xs) auto

lemma nodes_items_iff: "y \<in> set (nodes_items d) \<longleftrightarrow> (\<exists>(k, v)\<in>set d. y = JStr k \<or> y \<in> set (nodes v))"
  by (induction d) auto

lemma states_iff: "states v n \<longleftrightarrow> (\<exists>x. x \<in> set (nodes v) \<and> n \<in> set (numbers_in (jtext x)))"
  by (auto simp: states_def list_ex_iff)

lemma states_list: "x \<in> set xs \<Longrightarrow> states x n \<Longrightarrow> states (JList xs) n"
  by (auto simp: states_iff nodes_list_iff simp del: jrepr.simps)

lemma states_item: "(k, v) \<in> set d \<Longrightarrow> states v n \<Longrightarrow> states (JObj d) n"
  unfolding states_iff nodes.simps list.set insert_iff nodes_items_iff by blast

lemma states_key:
  assumes "(k, v) \<in> set d" and "n \<in> set (numbers_in k)"
  shows "states (JObj d) n"
proof -
  have "JStr k \<in> set (nodes (JObj d))" using assms(1) by (force simp: nodes_items_iff)
  then show ?thesis using assms(2) by (auto simp: states_iff jtext_def intro!: exI [of _ "JStr k"])
qed

lemma not_states_null [simp]: "\<not> states JNull n"
proof -
  have "numbers_in (jtext JNull) = []" by code_simp
  then show ?thesis by (simp add: states_def)
qed

lemma states_jget: "states (jget d k) n \<Longrightarrow> states (JObj d) n"
  by (auto simp: jget_def split: option.splits dest: dict_get_SomeD states_item)

lemma states_dig_parts: "states (dig_parts v ps) n \<Longrightarrow> states v n"
proof (induction v ps rule: dig_parts.induct)
  case (2 v p ps)
  then show ?case by (cases v) (auto intro: states_jget)
qed simp

lemma states_dig: "states (dig v p) n \<Longrightarrow> states v n"
  by (simp add: dig_def states_dig_parts)

lemma not_states_empty [simp]: "\<not> states (JObj []) n"
proof -
  have "numbers_in (jtext (JObj [])) = []" by code_simp
  then show ?thesis by (simp add: states_def)
qed

lemma states_obj_of: "states (JObj (obj_of v)) n \<Longrightarrow> states v n"
  by (cases v) (auto simp: obj_of_def)

lemma object_in_iterate: "iterate v = Inr xs \<Longrightarrow> JObj d \<in> set xs \<Longrightarrow> \<exists>ys. v = JList ys \<and> JObj d \<in> set ys"
  by (cases v) (auto simp: iterate_def jiter_def)

lemma states_iterated:
  "iterate (or_empty (jget d k) (JList [])) = Inr xs \<Longrightarrow> JObj e \<in> set xs \<Longrightarrow> states (JObj e) n \<Longrightarrow>
   states (JObj d) n"
  by (rule states_jget [of _ k])
     (auto simp: or_empty_def dest!: object_in_iterate intro: states_list split: if_splits)

lemma clean_SomeD: "clean v = Some s \<Longrightarrow> s = strip (jtext v) \<and> s \<noteq> [] \<and> v \<noteq> JNull"
  by (auto simp: clean_def split: if_splits)

lemma clean_states: "clean v = Some s \<Longrightarrow> n \<in> set (numbers_in s) \<Longrightarrow> states v n"
  using clean_SomeD [of v s] numbers_in_strip [of "jtext v"] by (auto intro: states_self)

lemma parse_cwe_states:
  "parse_cwe v = Some n \<Longrightarrow> states v n"
  "parse_cwes xs = Some n \<Longrightarrow> \<exists>x\<in>set xs. states x n"
proof (induction v and xs rule: parse_cwe_parse_cwes.induct)
  case (4 m)
  then show ?case by (auto intro!: states_self simp: jtext_def int_text_number split: if_splits)
next
  case (5 s)
  then show ?case by (auto intro!: states_self dest: cwe_text_in simp: jtext_def numbers_in_strip)
next
  case (6 r s)
  then show ?case by (auto intro!: states_self dest: cwe_text_in simp: jtext_def numbers_in_strip)
next
  case (7 d)
  then show ?case by (auto intro!: states_self dest: cwe_text_in simp: numbers_in_strip simp del: jrepr.simps)
next
  case (9 x xs)
  then show ?case by (auto split: option.splits)
qed (auto intro: states_list)

section \<open>Numbers found by searching\<close>

lemma numbers_in_suffix:
  assumes "b = [] \<or> \<not> is_dec (hd b)"
  shows "set (numbers_in b) \<subseteq> set (numbers_in (a @ b))"
proof -
  have "digit_runs (a @ b) = digit_runs a @ digit_runs b"
    using assms
  proof (induction a rule: digit_runs.induct)
    case (2 c s)
    have t: "takeWhile is_dec (s @ b) = takeWhile is_dec s"
      using assms by (induction s) (auto simp: takeWhile_eq_Nil_iff)
    have d: "dropWhile is_dec (s @ b) = dropWhile is_dec s @ b"
      using assms by (induction s) (auto, cases b, auto)
    show ?case using 2 t d by (cases "is_dec c") auto
  qed simp
  then show ?thesis by (simp add: numbers_in_def)
qed

lemma skip_word_head:
  assumes "skip_word ''cwe'' s = Some t"
  shows "\<not> is_dec (hd s)"
proof -
  obtain x where "s = x @ t" "lower x = ''cwe''" using skip_word_split [OF assms] by blast
  then have "lower_char (hd s) = CHR ''c''" by (cases x) auto
  moreover have "\<not> is_dec (CHR ''c'')" by code_simp
  ultimately show ?thesis using is_dec_lower [of "hd s"] by auto
qed

lemma found_in:
  assumes "cwe_here P b = Some (n, r) \<and> (\<forall>c. P c \<longrightarrow> \<not> is_dec c) \<or> mitre_here b = Some (n, r)"
  shows "n \<in> set (numbers_in (a @ b))"
proof -
  have "\<not> is_dec (hd b)"
    using assms skip_word_head
    by (auto simp: cwe_here_def mitre_here_def mitre_link_def split: option.splits)
  moreover have "n \<in> set (numbers_in b)"
    using assms cwe_here_numbers mitre_here_numbers by blast
  ultimately show ?thesis using numbers_in_suffix by blast
qed

lemma find_cwe_in: "find_cwe s = Some n \<Longrightarrow> n \<in> set (numbers_in (a @ s))"
proof (induction s arbitrary: a rule: find_cwe.induct)
  case (2 c s)
  show ?case
  proof (cases "cwe_here cwe_sep (c # s)")
    case None
    then show ?thesis using 2(1) [OF None, of "a @ [c]"] 2(2) by simp
  next
    case (Some x)
    then show ?thesis using 2(2) found_in [of cwe_sep "c # s" n "snd x" a] seps_nodec(1) by (cases x) auto
  qed
qed simp

lemma leading_number_suffix: "leading_number s = Some (n, r) \<Longrightarrow> \<exists>x. s = x @ r"
  by (auto simp: leading_number_def Let_def split: if_splits intro: exI [of _ "takeWhile is_dec s"])

lemma cwe_here_suffix: "cwe_here P s = Some (n, r) \<Longrightarrow> \<exists>x. s = x @ r"
proof -
  assume a: "cwe_here P s = Some (n, r)"
  obtain t where t: "skip_word ''cwe'' s = Some t" and n: "leading_number (skip_opt P t) = Some (n, r)"
    using a unfolding cwe_here_def by (auto split: option.splits)
  obtain x1 x2 x3 where "s = x1 @ t" "t = x2 @ skip_opt P t" "skip_opt P t = x3 @ r"
    using skip_word_split [OF t] skip_opt_split [of t P] leading_number_suffix [OF n] by metis
  then have "s = (x1 @ x2 @ x3) @ r" by (metis append_assoc)
  then show "\<exists>x. s = x @ r" ..
qed

lemma mitre_link_suffix: "mitre_link s = Some (n, r) \<Longrightarrow> \<exists>x. s = x @ r"
proof -
  assume a: "mitre_link s = Some (n, r)"
  let ?P = "\<lambda>c. c \<in> set ''.-''"
  obtain t u where t: "skip_word ''cwe'' s = Some t" and n: "leading_number u = Some (n, r)"
    and u: "skip_word ''mitre.org/data/definitions/'' (skip_opt ?P t) = Some u"
    using a unfolding mitre_link_def by (auto split: option.splits)
  obtain x1 x2 x3 x4 where "s = x1 @ t" "t = x2 @ skip_opt ?P t" "skip_opt ?P t = x3 @ u" "u = x4 @ r"
    using skip_word_split [OF t] skip_opt_split [of t ?P] skip_word_split [OF u] leading_number_suffix [OF n]
    by metis
  then have "s = (x1 @ x2 @ x3 @ x4) @ r" by (metis append_assoc)
  then show "\<exists>x. s = x @ r" ..
qed

lemma mitre_here_suffix: "mitre_here s = Some (n, r) \<Longrightarrow> \<exists>x. s = x @ r"
  by (auto simp: mitre_here_def split: option.splits dest: mitre_link_suffix cwe_here_suffix)

lemma mitre_numbers_in: "n \<in> set (mitre_numbers s) \<Longrightarrow> n \<in> set (numbers_in (a @ s))"
proof (induction s arbitrary: a rule: mitre_numbers.induct)
  case (2 c s)
  show ?case
  proof (cases "mitre_here (c # s)")
    case None
    then show ?thesis using 2(1) [OF None, of "a @ [c]"] 2(3) by simp
  next
    case (Some x)
    obtain m r where x: "x = (m, r)" by (cases x)
    obtain y where y: "c # s = y @ r" using mitre_here_suffix Some x by blast
    show ?thesis
    proof (cases "n = m")
      case True
      then show ?thesis using found_in Some x by blast
    next
      case False
      then have "n \<in> set (mitre_numbers r)" using 2(3) by (simp add: Some x)
      then show ?thesis using 2(2) [OF Some x [symmetric], of "a @ y"] by (simp add: y)
    qed
  qed
qed simp

section \<open>The two laws\<close>

definition all_rules :: "cwe_table \<Rightarrow> string \<Rightarrow> rule list" where
  "all_rules t tool = map snd (rules_of t tool) @ patterns_of t tool @ map snd (rules_of t (tool @ ''_tags''))"

definition well_formed :: "string \<Rightarrow> scan_finding \<Rightarrow> bool" where
  "well_formed tool f =
     (sf_tool f = tool \<and> scan_finding_ok f \<and> sf_url f \<noteq> Some [] \<and> sf_param f \<noteq> Some [] \<and> sf_name f \<noteq> Some []
      \<and> (case sf_method f of None \<Rightarrow> True | Some m \<Rightarrow> m \<in> set METHODS))"

definition stated :: "rule list \<Rightarrow> json list \<Rightarrow> int option \<Rightarrow> bool" where
  "stated rs vs c =
     (case c of None \<Rightarrow> True
      | Some n \<Rightarrow> list_ex (\<lambda>r. ru_cwe r = Some n) rs \<or> list_ex (\<lambda>v. states v n) vs)"

definition good_finding :: "cwe_table \<Rightarrow> string \<Rightarrow> json list \<Rightarrow> scan_finding \<Rightarrow> bool" where
  "good_finding t tool vs f = (well_formed tool f \<and> stated (all_rules t tool) vs (sf_cwe f))"

text \<open>The row that stands for a finding: by its name, which for wapiti is its category.\<close>

definition row_of :: "scan_finding \<Rightarrow> unmapped_row \<Rightarrow> bool" where
  "row_of f u = (um_tool u = sf_tool f \<and> (um_name u = sf_name f \<or> clean (opt_json (um_name u)) = sf_name f))"

definition undecided_listed :: "rule list \<Rightarrow> scan_result \<Rightarrow> bool" where
  "undecided_listed rs r =
     list_all (\<lambda>f. sf_cwe f = None \<longrightarrow>
       list_ex (\<lambda>x. ru_cwe x = None) rs \<or> list_ex (row_of f) (sr_unmapped r)) (sr_findings r)"

definition unsettled :: "cwe_table \<Rightarrow> string \<Rightarrow> unmapped_row \<Rightarrow> bool" where
  "unsettled t tool u = (um_key u = ''?'' \<or> dict_get (rules_of t tool) (um_key u) = None)"

definition promised :: "cwe_table \<Rightarrow> string \<Rightarrow> json list \<Rightarrow> scan_result \<Rightarrow> bool" where
  "promised t tool vs r =
     (list_all (good_finding t tool vs) (sr_findings r) \<and> undecided_listed (all_rules t tool) r
      \<and> (tool = ''zap'' \<or> list_all (unsettled t tool) (sr_unmapped r)))"

text \<open>Inside of a record: findings of one name and CWE, nothing listed.\<close>

definition uniform :: "string \<Rightarrow> string option \<Rightarrow> int option \<Rightarrow> scan_result \<Rightarrow> bool" where
  "uniform tool name cwe r =
     (sr_unmapped r = [] \<and> list_all (\<lambda>f. well_formed tool f \<and> sf_name f = name \<and> sf_cwe f = cwe) (sr_findings r))"

interpretation record_law: result_law "uniform tool name cwe" for tool name cwe
  by unfold_locales (auto simp: uniform_def)

interpretation report_law: result_law "promised t tool vs" for t tool vs
  by unfold_locales (auto simp: promised_def undecided_listed_def list_all_iff list_ex_iff)

text \<open>What a record adds keeps the law of reports when its CWE is stated and an undecided one is listed.\<close>

lemma uniform_promised:
  assumes "note_unmapped us x = Inr r" and "\<And>s. x = Inr s \<Longrightarrow> uniform tool name cwe s"
    and "stated (all_rules t tool) vs cwe"
    and "cwe = None \<Longrightarrow> list_ex (\<lambda>x. ru_cwe x = None) (all_rules t tool)
           \<or> list_ex (\<lambda>u. um_tool u = tool \<and> (um_name u = name \<or> clean (opt_json (um_name u)) = name)) us"
    and "tool = ''zap'' \<or> list_all (unsettled t tool) us"
  shows "promised t tool vs r"
proof -
  obtain s where x: "x = Inr s" and r: "r = s\<lparr>sr_unmapped := us @ sr_unmapped s\<rparr>"
    using note_unmappedD [OF assms(1)] by blast
  have u: "sr_unmapped s = []"
    and f: "\<And>f. f \<in> set (sr_findings s) \<Longrightarrow> well_formed tool f \<and> sf_name f = name \<and> sf_cwe f = cwe"
    using assms(2) [OF x] by (auto simp: uniform_def list_all_iff)
  have "list_all (good_finding t tool vs) (sr_findings r)"
    using f assms(3) by (auto simp: r good_finding_def list_all_iff)
  moreover have "undecided_listed (all_rules t tool) r"
    unfolding undecided_listed_def list_all_iff
  proof (intro ballI impI)
    fix g assume "g \<in> set (sr_findings r)" and c: "sf_cwe g = None"
    then have "well_formed tool g \<and> sf_name g = name \<and> sf_cwe g = cwe" using f by (simp add: r)
    then show "list_ex (\<lambda>x. ru_cwe x = None) (all_rules t tool) \<or> list_ex (row_of g) (sr_unmapped r)"
      using assms(4) c by (auto simp: r u row_of_def well_formed_def list_ex_iff)
  qed
  ultimately show ?thesis using assms(5) by (simp add: promised_def r u)
qed

section \<open>Fields\<close>

lemma clean_neq [simp]: "clean v \<noteq> Some []"
  by (auto simp: clean_def)

lemma or_str_neq: "x \<noteq> Some [] \<Longrightarrow> y \<noteq> Some [] \<Longrightarrow> or_str x y \<noteq> Some []"
  by (simp add: or_str_def)

lemma or_str_name [simp]: "y \<noteq> Some [] \<Longrightarrow> or_str x y \<noteq> Some []"
  by (auto simp: or_str_def)

lemma param_from_url_neq [simp]: "param_from_url u \<noteq> Inr (Some [])"
  by (auto simp: param_from_url_def bindE_Inr_iff split: option.splits list.splits)

lemma or_url_param_neq: "or_url_param p u = Inr x \<Longrightarrow> x \<noteq> Some []"
  by (auto simp: or_url_param_def split: if_splits)

lemma norm_method_in: "norm_method v = Some m \<Longrightarrow> m \<in> set METHODS"
  by (auto simp: norm_method_def Let_def split: if_splits)

lemma get_method: "str_or (norm_method v) ''GET'' \<in> set METHODS"
proof -
  have "''GET'' \<in> set METHODS" by (simp add: METHODS_def)
  then show ?thesis using norm_method_in by (auto simp: str_or_def split: option.splits)
qed

lemma lookup_in:
  "table_lookup t tool ks = Some r \<Longrightarrow> r \<in> set (all_rules t tool)"
proof -
  have "first_rule d ks = Some r \<Longrightarrow> r \<in> snd ` set d" for d
    by (induction d ks rule: first_rule.induct) (auto split: option.splits dest: dict_get_SomeD intro: rev_image_eqI)
  then show "table_lookup t tool ks = Some r \<Longrightarrow> r \<in> set (all_rules t tool)"
    by (auto simp: table_lookup_def all_rules_def)
qed

lemma lookup_none:
  "table_lookup t tool ks = None \<Longrightarrow> Some k \<in> set ks \<Longrightarrow> dict_get (rules_of t tool) k = None"
proof -
  have "first_rule d ks = None \<Longrightarrow> Some k \<in> set ks \<Longrightarrow> dict_get d k = None" for d
    by (induction d ks rule: first_rule.induct) (auto split: option.splits)
  then show "table_lookup t tool ks = None \<Longrightarrow> Some k \<in> set ks \<Longrightarrow> dict_get (rules_of t tool) k = None"
    by (simp add: table_lookup_def)
qed

lemma match_in: "table_match search t tool x = Some r \<Longrightarrow> r \<in> set (all_rules t tool)"
  by (auto simp: table_match_def all_rules_def find_Some_iff split: if_splits)

lemma rule_stated: "r \<in> set rs \<Longrightarrow> stated rs vs (ru_cwe r)"
  by (auto simp: stated_def list_ex_iff split: option.splits)

lemma rule_null: "r \<in> set rs \<Longrightarrow> ru_cwe r = None \<Longrightarrow> list_ex (\<lambda>x. ru_cwe x = None) rs"
  by (auto simp: list_ex_iff)

lemma doc_stated: "(\<And>n. c = Some n \<Longrightarrow> \<exists>v\<in>set vs. states v n) \<Longrightarrow> stated rs vs c"
  by (auto simp: stated_def list_ex_iff split: option.splits)

lemma unsettled_key:
  assumes "table_lookup t tool ks = None" and "k = ''?'' \<or> Some k \<in> set ks"
  shows "unsettled t tool (unmapped tool k name sample)"
  using assms lookup_none by (auto simp: unsettled_def unmapped_def)

lemma unmapped_fields [simp]:
  "um_tool (unmapped tool k name sample) = tool" "um_name (unmapped tool k name sample) = name"
  "um_key (unmapped tool k name sample) = k"
  by (simp_all add: unmapped_def)

end
