(* ===== verification/Scan_Readers.thy ===== *)
theory Scan_Readers
  imports Scan_Promises
begin

text \<open>
  The laws of reports discharged for each reader of \<open>normalise.py\<close>, and the theorems about
  \<open>normalise\<close> that rest on them.
\<close>

lemma uniform_one:
  assumes "one_finding f = Inr r" and "sf_url f \<noteq> Some []" "sf_param f \<noteq> Some []" "sf_name f \<noteq> Some []"
    and "\<And>m. sf_method f = Some m \<Longrightarrow> m \<in> set METHODS"
  shows "uniform (sf_tool f) (sf_name f) (sf_cwe f) r"
  using one_findingD [OF assms(1)] assms(2-5)
  by (auto simp: uniform_def well_formed_def split: option.splits)

section \<open>ZAP\<close>

lemma zap_instance_uniform:
  assumes "zap_instance tool ref cwe name severity confidence inst = Inr r" and "name \<noteq> Some []"
  shows "uniform tool name cwe r"
proof -
  obtain param where "or_url_param (clean (jget inst ''param'')) (clean (jget inst ''uri'')) = Inr param"
    and f: "one_finding \<lparr>sf_tool = tool, sf_url = clean (jget inst ''uri''),
      sf_method = norm_method (jget inst ''method''), sf_param = param, sf_cwe = cwe, sf_name = name,
      sf_severity = severity, sf_confidence = confidence, sf_raw_ref = ref\<rparr> = Inr r"
    using assms(1) by (auto simp: zap_instance_def Let_def bindE_Inr_iff)
  then show ?thesis
    using uniform_one [OF f] assms(2) by (simp add: or_url_param_neq norm_method_in)
qed

lemma zap_own_cwe_states:
  assumes "zap_own_cwe t tool v = Inr (Some n)"
  shows "states v n"
  using assms by (auto simp: zap_own_cwe_def bindE_Inr_iff parse_cwe_states(1) split: if_splits)

lemma zap_alert_promised:
  assumes "zap_alert path_name t tool si site ai alert = Inr r" and "tool = ''zap''"
    and v: "\<And>n. states (JObj alert) n \<Longrightarrow> states v n"
  shows "promised t tool [v] r"
proof -
  define plugin where "plugin = clean (jget alert ''pluginid'')"
  define alert_ref where "alert_ref = or_str (clean (jget alert ''alertRef'')) plugin"
  define name where "name = or_str (clean (jget alert ''alert'')) (clean (jget alert ''name''))"
  define rule where "rule = table_lookup t tool [alert_ref, plugin]"
  note eq = assms(1) [unfolded zap_alert_def, folded plugin_def, unfolded Let_def,
      folded alert_ref_def name_def, folded rule_def]
  show ?thesis
  proof (cases "has_skip rule")
    case True
    then show ?thesis using eq report_law.R_none by simp
  next
    case False
    obtain cwe severity where
      c: "(case rule of Some r \<Rightarrow> Inr (ru_cwe r) | None \<Rightarrow> zap_own_cwe t tool (jget alert ''cweid'')) = Inr cwe"
      and n: "note_unmapped
          (if cwe = None then [unmapped tool (str_or (or_str alert_ref plugin) ''?'') name
             (Some (jtext (jget alert ''cweid'')))] else [])
          (gather 0 (\<lambda>ii. on_obj (zap_instance tool
             (path_name @ ''#site['' @ nat_text si @ ''].alerts['' @ nat_text ai @ ''].instances['' @ nat_text ii @ '']'')
             cwe name severity (zap_confidence alert))) (zap_instances site alert)) = Inr r"
      using eq False by (auto simp: bindE_Inr_iff)
    have nm: "name \<noteq> Some []" by (simp add: name_def)
    show ?thesis
    proof (rule uniform_promised [OF n])
      show "uniform tool name cwe s"
        if "gather 0 (\<lambda>ii. on_obj (zap_instance tool
             (path_name @ ''#site['' @ nat_text si @ ''].alerts['' @ nat_text ai @ ''].instances['' @ nat_text ii @ '']'')
             cwe name severity (zap_confidence alert))) (zap_instances site alert) = Inr s" for s
        using that by (rule record_law.objects_law) (rule zap_instance_uniform [OF _ nm])
      show "stated (all_rules t tool) [v] cwe"
      proof (cases rule)
        case None
        then show ?thesis using c by (auto intro!: doc_stated v states_jget [OF zap_own_cwe_states])
      next
        case (Some x)
        then show ?thesis using c lookup_in rule_stated by (auto simp: rule_def)
      qed
    qed (use assms(2) in auto)
  qed
qed

lemma zap_promised:
  assumes "normalise_zap path_name t ''zap'' doc = Inr r"
  shows "promised t ''zap'' [doc] r"
proof (cases doc)
  case (JObj d)
  define sites where "sites = (case jget d ''site'' of JObj s \<Rightarrow> JList [JObj s] | v \<Rightarrow> v)"
  have eq: "(case sites of JList xs \<Rightarrow> gather 0 (\<lambda>si. on_obj (zap_site path_name t ''zap'' si)) xs
               | _ \<Rightarrow> Inr no_result) = Inr r"
    using assms by (simp add: normalise_zap_def JObj on_obj_def sites_def)
  show ?thesis
  proof (cases sites)
    case (JList xs)
    have up: "states doc n" if "JObj e \<in> set xs" "states (JObj e) n" for e n
    proof -
      have "jget d ''site'' = JObj e \<or> jget d ''site'' = JList xs"
        using JList that(1) by (auto simp: sites_def split: json.splits)
      then have "states (jget d ''site'') n" using that states_list by metis
      then show ?thesis by (simp add: JObj states_jget)
    qed
    have "gather 0 (\<lambda>si. on_obj (zap_site path_name t ''zap'' si)) xs = Inr r" using eq JList by simp
    then show ?thesis
    proof (rule report_law.objects_law)
      fix j e s
      assume e: "JObj e \<in> set xs" and s: "zap_site path_name t ''zap'' j e = Inr s"
      obtain alerts where a: "iterate (or_empty (jget e ''alerts'') (JList [])) = Inr alerts"
        and g: "gather 0 (\<lambda>ai. on_obj (zap_alert path_name t ''zap'' j e ai)) alerts = Inr s"
        using s by (auto simp: zap_site_def bindE_Inr_iff)
      show "promised t ''zap'' [doc] s"
        using g by (rule report_law.objects_law)
          (auto intro!: zap_alert_promised up [OF e] intro: states_iterated [OF a])
    qed
  qed (use eq report_law.R_none in auto)
qed (use assms report_law.R_none in \<open>auto simp: normalise_zap_def on_obj_def\<close>)

section \<open>nuclei\<close>

lemma tag_walk_cases:
  assumes "tag_walk rs tags (None, b) = (c, dec)"
  shows "case c of Some n \<Rightarrow> \<exists>r\<in>snd ` set rs. ru_cwe r = Some n
    | None \<Rightarrow> dec \<longrightarrow> b \<or> (\<exists>r\<in>snd ` set rs. ru_cwe r = None)"
  using assms
proof (induction rs tags "(None :: int option, b)" arbitrary: b rule: tag_walk.induct)
  case (2 rs tag tags)
  show ?case
  proof (cases "dict_get rs (lower (jtext tag))")
    case None
    then show ?thesis using 2(1) [OF None] 2(3) by simp
  next
    case (Some r)
    then have r: "r \<in> snd ` set rs" by (auto dest: dict_get_SomeD intro: rev_image_eqI)
    show ?thesis
    proof (cases "ru_cwe r")
      case None
      then show ?thesis using 2(2) [OF Some None] 2(3) r Some by (auto split: option.splits)
    next
      case (Some n)
      then have "c = Some n" using 2(3) \<open>dict_get rs (lower (jtext tag)) = Some r\<close> by simp
      then show ?thesis using r Some by auto
    qed
  qed
qed simp

lemma nuclei_cwe_cases:
  assumes "nuclei_cwe t tool rule tags info = Inr (c, dec)"
    and "\<And>r. rule = Some r \<Longrightarrow> r \<in> set (all_rules t tool)"
  shows "stated (all_rules t tool) [JObj info] c"
    and "c = None \<Longrightarrow> dec \<Longrightarrow> list_ex (\<lambda>x. ru_cwe x = None) (all_rules t tool)"
    and "\<not> dec \<Longrightarrow> rule = None"
proof -
  have "stated (all_rules t tool) [JObj info] c \<and>
    (c = None \<longrightarrow> dec \<longrightarrow> list_ex (\<lambda>x. ru_cwe x = None) (all_rules t tool)) \<and> (\<not> dec \<longrightarrow> rule = None)"
  proof (cases rule)
    case (Some r)
    then show ?thesis using assms rule_stated rule_null by (auto simp: nuclei_cwe_def)
  next
    case None
    show ?thesis
    proof (cases "parse_cwe (dig (JObj info) ''classification.cwe-id'')")
      case (Some n)
      then have "states (JObj info) n" using parse_cwe_states(1) states_dig by blast
      moreover have "c = Some n" and "dec" using assms(1) None Some by (auto simp: nuclei_cwe_def)
      ultimately show ?thesis by (simp add: stated_def)
    next
      case none: None
      obtain ts where w: "tag_walk (rules_of t (tool @ ''_tags'')) ts (None, False) = (c, dec)"
        using assms(1) None none by (auto simp: nuclei_cwe_def bindE_Inr_iff)
      have sub: "r \<in> set (all_rules t tool)" if "r \<in> snd ` set (rules_of t (tool @ ''_tags''))" for r
        using that by (auto simp: all_rules_def)
      show ?thesis
        using tag_walk_cases [OF w] None
        by (cases c) (auto simp: stated_def list_ex_iff dest: sub intro: bexI [OF _ sub])
    qed
  qed
  then show "stated (all_rules t tool) [JObj info] c"
    and "c = None \<Longrightarrow> dec \<Longrightarrow> list_ex (\<lambda>x. ru_cwe x = None) (all_rules t tool)"
    and "\<not> dec \<Longrightarrow> rule = None" by auto
qed

lemma stated_mono:
  "stated rs [a] c \<Longrightarrow> (\<And>n. states a n \<Longrightarrow> \<exists>v\<in>set vs. states v n) \<Longrightarrow> stated rs vs c"
  by (auto simp: stated_def list_ex_iff split: option.splits)

lemma nuclei_finding_uniform:
  assumes "one_finding (nuclei_finding path_name tool lineno rec info name cwe param) = Inr r"
    and "name \<noteq> Some []" and "param \<noteq> Some []"
  shows "uniform tool name cwe r"
proof -
  let ?f = "nuclei_finding path_name tool lineno rec info name cwe param"
  have "m \<in> set METHODS" if "sf_method ?f = Some m" for m
    using that by (auto simp: nuclei_finding_def Let_def dest: norm_method_in split: if_splits)
  then have "uniform (sf_tool ?f) (sf_name ?f) (sf_cwe ?f) r"
    using assms(2,3) by (intro uniform_one [OF assms(1)]) (auto simp: nuclei_finding_def nuclei_url_def Let_def)
  then show ?thesis by (simp add: nuclei_finding_def Let_def)
qed

lemma nuclei_record_promised:
  assumes "nuclei_record path_name t tool nr = Inr r" and "JObj (snd nr) \<in> set vs"
  shows "promised t tool vs r"
proof -
  let ?rec = "snd nr"
  define template_id where "template_id = or_str (clean (jget ?rec ''template-id'')) (clean (jget ?rec ''templateID''))"
  define info where "info = obj_of (jget ?rec ''info'')"
  define name where "name = or_str (clean (jget info ''name'')) template_id"
  define tags where "tags = nuclei_tags info"
  define rule where "rule = table_lookup t tool [template_id]"
  note eq = assms(1) [unfolded nuclei_record_def Let_def, folded template_id_def info_def, folded name_def tags_def,
      folded rule_def]
  show ?thesis
  proof (cases "has_skip rule")
    case True
    then show ?thesis using eq report_law.R_none by simp
  next
    case False
    obtain cwe decided param where c: "nuclei_cwe t tool rule tags info = Inr (cwe, decided)"
      and p: "or_url_param (clean (jget ?rec ''fuzzing_parameter'')) (nuclei_url ?rec) = Inr param"
      and n: "note_unmapped
        (if cwe = None \<and> \<not> decided then [unmapped tool (str_or template_id ''?'') name (Some (join '','' (map jtext (jiter tags))))] else [])
        (one_finding (nuclei_finding path_name tool (fst nr) ?rec info name cwe param)) = Inr r"
      using eq False by (auto simp: bindE_Inr_iff)
    have nm: "name \<noteq> Some []" by (simp add: name_def template_id_def)
    have in_rules: "x \<in> set (all_rules t tool)" if "rule = Some x" for x
      using that lookup_in by (simp add: rule_def)
    note facts = nuclei_cwe_cases [OF c in_rules]
    show ?thesis
    proof (rule uniform_promised [OF n nuclei_finding_uniform [OF _ nm or_url_param_neq [OF p]]])
      show "stated (all_rules t tool) vs cwe"
      proof (rule stated_mono [OF facts(1)])
        fix n assume "states (JObj info) n"
        then have "states (JObj ?rec) n" unfolding info_def by (rule states_jget [OF states_obj_of])
        then show "\<exists>v\<in>set vs. states v n" using assms(2) by blast
      qed
      show "tool = ''zap'' \<or> list_all (unsettled t tool)
         (if cwe = None \<and> \<not> decided then [unmapped tool (str_or template_id ''?'') name (Some (join '','' (map jtext (jiter tags))))] else [])"
        using facts(3) by (auto simp: rule_def str_or_def intro!: unsettled_key split: option.splits)
    qed (use facts(2) in auto)
  qed
qed

definition line_docs :: "(string \<Rightarrow> json option) \<Rightarrow> string list option \<Rightarrow> json list" where
  "line_docs loads ls = (case ls of None \<Rightarrow> [] | Some l \<Rightarrow> map (JObj \<circ> snd) (json_lines loads l))"

lemma nuclei_promised:
  assumes "normalise_nuclei loads path_name t tool ls = Inr r"
  shows "promised t tool (line_docs loads ls) r"
proof (cases ls)
  case None
  then show ?thesis using assms report_law.R_none by (simp add: normalise_nuclei_def)
next
  case (Some l)
  then have "gather 0 (\<lambda>_. nuclei_record path_name t tool) (json_lines loads l) = Inr r"
    using assms by (simp add: normalise_nuclei_def)
  then show ?thesis
  proof (rule report_law.gather_law)
    fix x s
    assume "x \<in> set (json_lines loads l)" and "nuclei_record path_name t tool x = Inr s"
    then show "promised t tool (line_docs loads ls) s"
      by (intro nuclei_record_promised) (auto simp: line_docs_def Some)
  qed
qed

section \<open>wapiti\<close>

lemma wapiti_entry_uniform:
  assumes "wapiti_entry path_name tool category cwe ei entry = Inr r"
  shows "uniform tool (clean (JStr category)) cwe r"
proof -
  obtain param f where p: "or_url_param (clean (jget entry ''parameter''))
      (or_str (clean (jget entry ''path'')) (clean (jget entry ''url''))) = Inr param"
    and o: "one_finding f = Inr r"
    and f: "sf_tool f = tool" "sf_url f = or_str (clean (jget entry ''path'')) (clean (jget entry ''url''))"
      "sf_param f = param" "sf_cwe f = cwe" "sf_name f = clean (JStr category)"
      "sf_method f = Some (str_or (norm_method (jget entry ''method'')) ''GET'')"
    using assms by (auto simp: wapiti_entry_def Let_def bindE_Inr_iff intro!: that)
  show ?thesis using uniform_one [OF o] f p get_method by (simp add: or_url_param_neq)
qed

lemma wapiti_ref_cwe_states:
  assumes "wapiti_ref_cwe c = Some n"
  shows "states c n"
proof -
  obtain d refs where c: "c = JObj d" and r: "jget d ''ref'' = JObj refs"
    and one: "remdups (concat (map (\<lambda>(title, url). mitre_numbers title @ mitre_numbers (jtext url)) refs)) = [n]"
    using assms by (auto simp: wapiti_ref_cwe_def split: json.splits list.splits)
  from one have "n \<in> set (concat (map (\<lambda>(title, url). mitre_numbers title @ mitre_numbers (jtext url)) refs))"
    by (metis list.set_intros(1) set_remdups)
  then obtain title url where tu: "(title, url) \<in> set refs"
    and "n \<in> set (mitre_numbers title) \<or> n \<in> set (mitre_numbers (jtext url))" by auto
  then have "n \<in> set (numbers_in title) \<or> states url n"
    using mitre_numbers_in [of n _ "[]"] states_self by auto
  then have "states (JObj refs) n" using tu states_key states_item by blast
  then show ?thesis using states_jget [of d "''ref''" n] by (simp add: c r)
qed

lemma wapiti_cwe_states: "wapiti_cwe None cls category = Some n \<Longrightarrow> states (JObj cls) n"
  by (auto simp: wapiti_cwe_def split: option.splits
      intro: states_dig [OF parse_cwe_states(1)] states_jget [OF wapiti_ref_cwe_states])

lemma wapiti_category_promised:
  assumes "wapiti_category path_name t tool cls ce = Inr r" and "tool = ''wapiti''"
    and v: "\<And>n. states (JObj cls) n \<Longrightarrow> states v n"
  shows "promised t tool [v] r"
proof (cases "snd ce")
  case (JList entries)
  define rule where "rule = table_lookup t tool [Some (fst ce)]"
  define cwe where "cwe = wapiti_cwe rule cls (fst ce)"
  note eq = assms(1) [unfolded wapiti_category_def JList json.case Let_def, folded rule_def, folded cwe_def]
  show ?thesis
  proof (cases "has_skip rule")
    case True
    then show ?thesis using eq report_law.R_none by simp
  next
    case False
    let ?us = "if cwe = None \<and> rule = None \<and> entries \<noteq> [] then [unmapped tool (fst ce) (Some (fst ce)) None] else []"
    let ?loop = "gather 0 (\<lambda>ei. on_obj (wapiti_entry path_name tool (fst ce) cwe ei)) entries"
    have n: "note_unmapped ?us ?loop = Inr r" using eq False by simp
    have u: "uniform tool (clean (JStr (fst ce))) cwe s" if "?loop = Inr s" for s
      using that by (rule record_law.objects_law) (rule wapiti_entry_uniform)
    show ?thesis
    proof (cases "entries = []")
      case True
      then show ?thesis using n report_law.R_none by (simp add: note_unmapped_def no_result_def)
    next
      case ne: False
      show ?thesis
      proof (rule uniform_promised [OF n u])
        show "stated (all_rules t tool) [v] cwe"
        proof (cases rule)
          case None
          then show ?thesis by (auto simp: cwe_def intro!: doc_stated v wapiti_cwe_states)
        qed (use lookup_in rule_stated in \<open>auto simp: rule_def cwe_def wapiti_cwe_def\<close>)
        show "cwe = None \<Longrightarrow> list_ex (\<lambda>x. ru_cwe x = None) (all_rules t tool) \<or>
            list_ex (\<lambda>u. um_tool u = tool \<and>
              (um_name u = clean (JStr (fst ce)) \<or> clean (opt_json (um_name u)) = clean (JStr (fst ce)))) ?us"
          using ne by (cases rule)
            (auto simp: rule_def cwe_def wapiti_cwe_def opt_json_def dest: rule_null [OF lookup_in])
        show "tool = ''zap'' \<or> list_all (unsettled t tool) ?us"
          by (auto simp: rule_def intro: unsettled_key)
      qed
    qed
  qed
qed (use assms report_law.R_none in \<open>auto simp: wapiti_category_def\<close>)

lemma wapiti_promised:
  assumes "normalise_wapiti path_name t ''wapiti'' doc = Inr r"
  shows "promised t ''wapiti'' [doc] r"
proof (cases doc)
  case (JObj d)
  show ?thesis
  proof (cases "jget d ''vulnerabilities''")
    case (JObj vulns)
    have "gather 0 (\<lambda>_. wapiti_category path_name t ''wapiti'' (obj_of (jget d ''classifications''))) vulns = Inr r"
      using assms \<open>doc = JObj d\<close> JObj by (simp add: normalise_wapiti_def on_obj_def)
    then show ?thesis
    proof (rule report_law.gather_law)
      fix x s
      assume "wapiti_category path_name t ''wapiti'' (obj_of (jget d ''classifications'')) x = Inr s"
      then show "promised t ''wapiti'' [doc] s"
        by (rule wapiti_category_promised)
          (simp_all add: \<open>doc = JObj d\<close> states_jget [OF states_obj_of [of "jget d ''classifications''"]])
    qed
  qed (use assms JObj report_law.R_none in \<open>auto simp: normalise_wapiti_def on_obj_def\<close>)
qed (use assms report_law.R_none in \<open>auto simp: normalise_wapiti_def on_obj_def\<close>)

end
