(* ===== verification/Scan_Normalise.thy ===== *)
theory Scan_Normalise
  imports Scan_Readers
begin

text \<open>
  The laws of reports for the readers of nikto, skipfish, free-form JSON and SARIF, and the theorems
  about \<open>normalise\<close>.
\<close>

section \<open>nikto\<close>

lemma join_host_neq: "uri \<noteq> Some [] \<Longrightarrow> join_host host uri \<noteq> Some []"
  by (auto simp: join_host_def Let_def)

lemma nikto_cwe_states: "nikto_cwe t tool None item = Some n \<Longrightarrow> states (JObj item) n"
proof -
  assume "nikto_cwe t tool None item = Some n"
  then obtain s where "clean (jget item ''references'') = Some s" and "find_cwe s = Some n"
    by (auto simp: nikto_cwe_def split: if_splits option.splits)
  then show "states (JObj item) n"
    using clean_states find_cwe_in [of s n "[]"] states_jget by simp blast
qed

lemma nikto_record_promised:
  assumes "nikto_record search t tool row = Inr r" and "JObj (snd (snd row)) \<in> set vs"
  shows "promised t tool vs r"
proof -
  let ?item = "snd (snd row)"
  define msg where "msg = or_str (clean (jget ?item ''msg'')) (clean (jget ?item ''description''))"
  define ident where "ident = or_str (or_str (clean (jget ?item ''id'')) (clean (jget ?item ''OSVDB'')))
    (clean (jget ?item ''osvdbid''))"
  define rule where "rule = (case table_lookup t tool [ident] of Some r \<Rightarrow> Some r | None \<Rightarrow> table_match search t tool msg)"
  define url where "url = join_host (fst (snd row)) (or_str (clean (jget ?item ''url'')) (clean (jget ?item ''uri'')))"
  define cwe where "cwe = nikto_cwe t tool rule ?item"
  note eq = assms(1) [unfolded nikto_record_def Let_def, folded msg_def ident_def, folded rule_def url_def, folded cwe_def]
  show ?thesis
  proof (cases "has_skip rule")
    case True
    then show ?thesis using eq report_law.R_none by simp
  next
    case False
    obtain param f where p: "param_from_url url = Inr param"
      and n: "note_unmapped (if cwe = None \<and> rule = None then [unmapped tool (str_or ident ''?'') msg msg] else [])
        (one_finding f) = Inr r"
      and f: "sf_tool f = tool" "sf_url f = url" "sf_param f = param" "sf_cwe f = cwe" "sf_name f = msg"
        "sf_method f = Some (str_or (norm_method (jget ?item ''method'')) ''GET'')"
      using eq False by (auto simp: bindE_Inr_iff intro!: that)
    have rules: "x \<in> set (all_rules t tool)" if "rule = Some x" for x
      using that lookup_in match_in by (fastforce simp: rule_def split: option.splits)
    show ?thesis
    proof (rule uniform_promised [OF n])
      show "uniform tool msg cwe s" if "one_finding f = Inr s" for s
      proof -
        have "param \<noteq> Some []" and "url \<noteq> Some []" using p by (auto simp: url_def join_host_neq)
        then show ?thesis using uniform_one [OF that] f get_method by (simp add: msg_def)
      qed
      show "stated (all_rules t tool) vs cwe"
      proof (cases rule)
        case None
        then show ?thesis using nikto_cwe_states [of t tool ?item] assms(2)
          by (auto simp: cwe_def intro!: doc_stated bexI [OF _ assms(2)])
      next
        case (Some x)
        then show ?thesis using rule_stated [OF rules] by (simp add: cwe_def nikto_cwe_def)
      qed
      show "cwe = None \<Longrightarrow> list_ex (\<lambda>x. ru_cwe x = None) (all_rules t tool) \<or>
          list_ex (\<lambda>u. um_tool u = tool \<and> (um_name u = msg \<or> clean (opt_json (um_name u)) = msg))
            (if cwe = None \<and> rule = None then [unmapped tool (str_or ident ''?'') msg msg] else [])"
        by (cases rule) (auto simp: cwe_def nikto_cwe_def dest: rule_null [OF rules])
      show "tool = ''zap'' \<or> list_all (unsettled t tool)
          (if cwe = None \<and> rule = None then [unmapped tool (str_or ident ''?'') msg msg] else [])"
        by (auto simp: rule_def str_or_def intro!: unsettled_key split: option.splits)
    qed
  qed
qed

definition row_values :: "nikto_row list \<Rightarrow> json list" where
  "row_values rows = map (\<lambda>row. JObj (snd (snd row))) rows"

lemma nikto_promised:
  assumes "normalise_nikto search path_name t tool head doc scans = Inr r"
  obtains rows where "nikto_rows path_name head doc scans = Inr rows" and "promised t tool (row_values rows) r"
proof -
  obtain rows where rows: "nikto_rows path_name head doc scans = Inr rows"
    and g: "gather 0 (\<lambda>_. nikto_record search t tool) rows = Inr r"
    using assms by (auto simp: normalise_nikto_def bindE_Inr_iff)
  from g have "promised t tool (row_values rows) r"
  proof (rule report_law.gather_law)
    fix x s assume "x \<in> set rows" and "nikto_record search t tool x = Inr s"
    then show "promised t tool (row_values rows) s"
      by (intro nikto_record_promised) (auto simp: row_values_def)
  qed
  with rows show ?thesis by (rule that)
qed

section \<open>skipfish\<close>

lemma skipfish_sample_uniform:
  assumes "skipfish_sample tool ref cwe name severity sample = Inr r" and "name \<noteq> Some []"
  shows "uniform tool name cwe r"
proof -
  let ?url = "clean (jget sample ''url'')"
  obtain param f where p: "skipfish_param (jget sample ''extra'') ?url = Inr param"
    and o: "one_finding f = Inr r"
    and f: "sf_tool f = tool" "sf_url f = ?url" "sf_param f = param" "sf_cwe f = cwe" "sf_name f = name" "sf_method f = None"
    using assms(1) by (auto simp: skipfish_sample_def Let_def bindE_Inr_iff intro!: that)
  have "param \<noteq> Some []"
    using p by (auto simp: skipfish_param_def dest: clean_SomeD split: option.splits if_splits)
  then show ?thesis using uniform_one [OF o] f assms(2) by simp
qed

lemma skipfish_group_promised:
  assumes "skipfish_group path_name t tool m gi grp = Inr r"
  shows "promised t tool vs r"
proof -
  define type_code where "type_code = clean (jget grp ''type'')"
  define rule where "rule = table_lookup t tool [type_code]"
  define name where "name = skipfish_name rule type_code"
  note eq = assms [unfolded skipfish_group_def Let_def, folded type_code_def, folded rule_def, folded name_def]
  show ?thesis
  proof (cases "has_skip rule")
    case True
    then show ?thesis using eq report_law.R_none by simp
  next
    case False
    let ?us = "if rule_cwe_of rule = None \<and> rule = None then [unmapped tool (str_or type_code ''?'') name None] else []"
    have nm: "name \<noteq> Some []" by (auto simp: name_def skipfish_name_def intro!: or_str_name)
    obtain loop where n: "note_unmapped ?us loop = Inr r"
      and l: "\<And>s. loop = Inr s \<Longrightarrow> uniform tool name (rule_cwe_of rule) s"
    proof
      show "note_unmapped ?us (bindE (iterate (or_empty (jget grp ''samples'') (JList []))) (\<lambda>samples.
              gather 0 (\<lambda>si. on_obj (skipfish_sample tool
                (path_name @ ''#issue_samples['' @ nat_text gi @ ''].samples['' @ nat_text si @ '']'')
                (rule_cwe_of rule) name (norm_severity None (jget m (jtext (jget grp ''severity'')))))) samples)) = Inr r"
        using eq False by simp
    next
      fix s
      assume "bindE (iterate (or_empty (jget grp ''samples'') (JList []))) (\<lambda>samples.
              gather 0 (\<lambda>si. on_obj (skipfish_sample tool
                (path_name @ ''#issue_samples['' @ nat_text gi @ ''].samples['' @ nat_text si @ '']'')
                (rule_cwe_of rule) name (norm_severity None (jget m (jtext (jget grp ''severity'')))))) samples) = Inr s"
      then show "uniform tool name (rule_cwe_of rule) s"
        unfolding bindE_Inr_iff
        by (elim exE conjE) (erule record_law.objects_law, erule skipfish_sample_uniform [OF _ nm])
    qed
    have rules: "x \<in> set (all_rules t tool)" if "rule = Some x" for x
      using that lookup_in by (simp add: rule_def)
    show ?thesis
    proof (rule uniform_promised [OF n l])
      show "stated (all_rules t tool) vs (rule_cwe_of rule)"
        by (cases rule) (auto simp: rule_cwe_of_def stated_def dest: rule_stated [OF rules, unfolded stated_def])
      show "rule_cwe_of rule = None \<Longrightarrow> list_ex (\<lambda>x. ru_cwe x = None) (all_rules t tool) \<or>
          list_ex (\<lambda>u. um_tool u = tool \<and> (um_name u = name \<or> clean (opt_json (um_name u)) = name)) ?us"
        by (cases rule) (auto simp: rule_cwe_of_def dest: rule_null [OF rules])
      show "tool = ''zap'' \<or> list_all (unsettled t tool) ?us"
        by (auto simp: rule_def str_or_def intro!: unsettled_key split: option.splits)
    qed
  qed
qed

lemma skipfish_promised:
  assumes "normalise_skipfish loads path_name t tool js = Inr r"
  shows "promised t tool vs r"
proof (cases js)
  case None
  then show ?thesis using assms report_law.R_none by (simp add: normalise_skipfish_def)
next
  case (Some s)
  show ?thesis
  proof (cases "jget (parse_js_assignments loads s) ''issue_samples''")
    case (JList groups)
    then obtain m where "gather 0 (\<lambda>gi. on_obj (skipfish_group path_name t tool m gi)) groups = Inr r"
      using assms Some by (auto simp: normalise_skipfish_def bindE_Inr_iff)
    then show ?thesis by (rule report_law.objects_law) (rule skipfish_group_promised)
  qed (use assms Some report_law.R_none in \<open>auto simp: normalise_skipfish_def\<close>)
qed

section \<open>Free-form JSON\<close>

lemma pick_key_states:
  assumes "pick_key rec k = Some v" and "states v n"
  shows "states (JObj rec) n"
proof (cases "filled (jget rec k)")
  case True
  then show ?thesis using assms by (auto simp: pick_key_def intro: states_jget)
next
  case False
  then obtain x where "List.find (\<lambda>(k', v). same_key k k' \<and> filled v) rec = Some (x, v)"
    using assms(1) by (auto simp: pick_key_def)
  then have "(x, v) \<in> set rec" by (auto simp: find_Some_iff in_set_conv_nth)
  then show ?thesis using assms(2) by (rule states_item)
qed

lemma pick_states: "states (pick rec fld) n \<Longrightarrow> states (JObj rec) n"
proof -
  have "states (pick_first rec ks) n \<Longrightarrow> states (JObj rec) n" for ks
    by (induction rec ks rule: pick_first.induct) (auto split: option.splits intro: pick_key_states)
  then show "states (pick rec fld) n \<Longrightarrow> states (JObj rec) n" by (simp add: pick_def)
qed

lemma generic_record_promised:
  assumes "generic_record path_name t tool ri rec = Inr r" and v: "\<And>n. states (JObj rec) n \<Longrightarrow> states v n"
  shows "promised t tool [v] r"
proof -
  define ident where "ident = clean (pick rec ''id'')"
  define name where "name = clean (pick rec ''name'')"
  define rule where "rule = table_lookup t tool [ident, name]"
  define cwe where "cwe = (case rule of Some r \<Rightarrow> ru_cwe r | None \<Rightarrow> parse_cwe (pick rec ''cwe''))"
  note eq = assms(1) [unfolded generic_record_def Let_def, folded ident_def name_def, folded rule_def, folded cwe_def]
  show ?thesis
  proof (cases "has_skip rule")
    case True
    then show ?thesis using eq report_law.R_none by simp
  next
    case False
    let ?us = "if cwe = None \<and> rule = None then [unmapped tool (str_or (or_str ident name) ''?'') name None] else []"
    obtain param f where p: "or_url_param (clean (pick rec ''param'')) (clean (pick rec ''url'')) = Inr param"
      and n: "note_unmapped ?us (one_finding f) = Inr r"
      and f: "sf_tool f = tool" "sf_url f = clean (pick rec ''url'')" "sf_param f = param" "sf_cwe f = cwe"
        "sf_name f = name" "sf_method f = norm_method (pick rec ''method'')"
      using eq False by (auto simp: bindE_Inr_iff intro!: that)
    have rules: "x \<in> set (all_rules t tool)" if "rule = Some x" for x
      using that lookup_in by (simp add: rule_def)
    show ?thesis
    proof (rule uniform_promised [OF n])
      show "uniform tool name cwe s" if "one_finding f = Inr s" for s
        using uniform_one [OF that] f by (auto simp: name_def norm_method_in or_url_param_neq [OF p])
      show "stated (all_rules t tool) [v] cwe"
      proof (cases rule)
        case None
        then show ?thesis
          by (auto simp: cwe_def intro!: doc_stated v pick_states [OF parse_cwe_states(1)])
      qed (auto simp: cwe_def dest: rule_stated [OF rules])
      show "cwe = None \<Longrightarrow> list_ex (\<lambda>x. ru_cwe x = None) (all_rules t tool) \<or>
          list_ex (\<lambda>u. um_tool u = tool \<and> (um_name u = name \<or> clean (opt_json (um_name u)) = name)) ?us"
        by (cases rule) (auto simp: cwe_def dest: rule_null [OF rules])
      show "tool = ''zap'' \<or> list_all (unsettled t tool) ?us"
        by (auto simp: rule_def str_or_def or_str_def truthy_def intro!: unsettled_key split: option.splits)
    qed
  qed
qed

lemma generic_rows_states: "JObj e \<in> set (generic_rows doc) \<Longrightarrow> states (JObj e) n \<Longrightarrow> states doc n"
proof (cases doc)
  case (JObj d)
  assume e: "JObj e \<in> set (generic_rows doc)" and s: "states (JObj e) n"
  let ?ls = "List.map_filter (\<lambda>k. case jget d k of JList xs \<Rightarrow> Some xs | _ \<Rightarrow> None)
                  [''findings'', ''results'', ''issues'', ''vulnerabilities'', ''items'']"
  show "states doc n"
  proof (cases ?ls)
    case Nil
    then show ?thesis using e s JObj by (simp add: generic_rows_def)
  next
    case (Cons xs xss)
    then have "xs \<in> set ?ls" by simp
    then obtain k where "jget d k = JList xs"
      by (auto simp only: map_filter_def set_map set_filter split: json.splits) (auto split: json.splits)
    moreover have "JObj e \<in> set xs" using e Cons by (simp only: JObj generic_rows_def json.case list.case)
    ultimately show ?thesis using s states_list states_jget by (metis JObj)
  qed
qed (auto simp: generic_rows_def intro: states_list)

lemma generic_json_promised:
  assumes "normalise_generic_json path_name t tool doc = Inr r"
  shows "promised t tool [doc] r"
  using assms unfolding normalise_generic_json_def
  by (rule report_law.objects_law) (erule generic_record_promised, erule generic_rows_states)

section \<open>SARIF\<close>

text \<open>Every rule object that is kept is in the run.\<close>

definition keeps_values :: "(string \<Rightarrow> obj \<Rightarrow> (string, obj) dict \<Rightarrow> (string, obj) dict) \<Rightarrow> bool" where
  "keeps_values put = (\<forall>k r e. snd ` set (put k r e) \<subseteq> insert r (snd ` set e))"

lemma keeps_values_puts: "keeps_values dict_set" "keeps_values setdefault"
proof -
  have "snd ` set (dict_set k r e) \<subseteq> insert r (snd ` set e)" for k :: string and r :: obj and e
    by (induction e) (auto simp: dict_set_def split: if_splits)
  then show "keeps_values dict_set" by (simp add: keeps_values_def)
qed (auto simp: keeps_values_def setdefault_def)

lemma add_rules_values:
  assumes "keeps_values put"
  shows "snd ` set (add_rules put rs d) \<subseteq> snd ` set d \<union> {m. JObj m \<in> set rs}"
proof (induction rs arbitrary: d)
  case Nil
  then show ?case by (simp add: add_rules_def)
next
  case (Cons r rs)
  define d1 where "d1 = (case r of JObj m \<Rightarrow> if jtruthy (jget m ''id'') then put (jtext (jget m ''id'')) m d else d | _ \<Rightarrow> d)"
  have "snd ` set d1 \<subseteq> snd ` set d \<union> {m. JObj m \<in> set (r # rs)}"
  proof (cases r)
    case (JObj x)
    have "snd ` set (put (jtext (jget x ''id'')) x d) \<subseteq> insert x (snd ` set d)"
      using assms by (simp add: keeps_values_def)
    then show ?thesis by (auto simp: d1_def JObj)
  qed (auto simp: d1_def)
  moreover have "add_rules put (r # rs) d = add_rules put rs d1"
    by (simp add: add_rules_def d1_def)
  ultimately have "snd ` set (add_rules put (r # rs) d) \<subseteq> (snd ` set d \<union> {m. JObj m \<in> set (r # rs)}) \<union> {m. JObj m \<in> set rs}"
    using Cons.IH [of d1] by (simp only:) blast
  then show ?case by auto
qed

lemma add_rules_states:
  assumes "m \<in> snd ` set (add_rules put rs d)" and "iterate (or_empty (jget x ''rules'') (JList [])) = Inr rs"
    and "keeps_values put" and "states (JObj m) n"
  shows "m \<in> snd ` set d \<or> states (JObj x) n"
  using add_rules_values [OF assms(3), of rs d] states_iterated [OF assms(2) _ assms(4)] assms(1) by blast

lemma attrs_obj: "attrs (or_empty v (JObj [])) = Inr x \<Longrightarrow> states (JObj x) n \<Longrightarrow> v = JObj x"
  by (cases v) (auto simp: attrs_def or_empty_def split: if_splits)

lemma extension_rules_states:
  assumes "extension_rules es d = Inr e" and "m \<in> snd ` set e" and "states (JObj m) n"
  shows "m \<in> snd ` set d \<or> (\<exists>x. JObj x \<in> set es \<and> states (JObj x) n)"
  using assms(1,2)
proof (induction es arbitrary: d)
  case Nil
  then show ?case by simp
next
  case (Cons y es)
  obtain x rs where x: "attrs (or_empty y (JObj [])) = Inr x"
    and rs: "iterate (or_empty (jget x ''rules'') (JList [])) = Inr rs"
    and e: "extension_rules es (add_rules setdefault rs d) = Inr e"
    using Cons.prems(1) by (auto simp: bindE_Inr_iff)
  consider "m \<in> snd ` set (add_rules setdefault rs d)" | z where "JObj z \<in> set es" "states (JObj z) n"
    using Cons.IH [OF e Cons.prems(2)] by blast
  then show ?case
  proof cases
    case 1
    then have "m \<in> snd ` set d \<or> states (JObj x) n"
      using add_rules_states [OF _ rs keeps_values_puts(2) assms(3)] by blast
    then show ?thesis using attrs_obj [OF x] by auto
  qed auto
qed

lemma sarif_rules_states:
  assumes "sarif_rules run = Inr rules" and "dict_get rules k = Some m" and "states (JObj m) n"
  shows "states (JObj run) n"
proof -
  obtain driver rs xs where d: "attrs (or_empty (dig (JObj run) ''tool.driver'') (JObj [])) = Inr driver"
    and rs: "iterate (or_empty (jget driver ''rules'') (JList [])) = Inr rs"
    and xs: "iterate (or_empty (dig (JObj run) ''tool.extensions'') (JList [])) = Inr xs"
    and e: "extension_rules xs (add_rules dict_set rs []) = Inr rules"
    using assms(1) by (auto simp: sarif_rules_def bindE_Inr_iff)
  have "m \<in> snd ` set rules" using dict_get_SomeD [OF assms(2)] by force
  from extension_rules_states [OF e this assms(3)]
  consider "m \<in> snd ` set (add_rules dict_set rs [])" | x where "JObj x \<in> set xs" "states (JObj x) n"
    by blast
  then have "states (dig (JObj run) ''tool.driver'') n \<or> states (dig (JObj run) ''tool.extensions'') n"
  proof cases
    case 1
    then have "states (JObj driver) n"
      using add_rules_states [OF _ rs keeps_values_puts(1) assms(3), of "[]"] by simp
    then show ?thesis using attrs_obj [OF d] by simp
  next
    case 2
    obtain ys where "or_empty (dig (JObj run) ''tool.extensions'') (JList []) = JList ys" "JObj x \<in> set ys"
      using object_in_iterate [OF xs 2(1)] by blast
    then have "dig (JObj run) ''tool.extensions'' = JList ys" by (auto simp: or_empty_def split: if_splits)
    then show ?thesis using states_list [OF \<open>JObj x \<in> set ys\<close> 2(2)] by simp
  qed
  then show ?thesis using states_dig by blast
qed

lemma listed_states: "x \<in> set (listed v) \<Longrightarrow> states x n \<Longrightarrow> states v n"
  by (cases v) (auto simp: listed_def intro: states_list)

lemma first_tag_cwe_in: "first_tag_cwe tags = Some n \<Longrightarrow> \<exists>x\<in>set tags. states x n"
proof (induction tags rule: first_tag_cwe.induct)
  case (2 tag tags)
  show ?case
  proof (cases "tag \<noteq> JNull \<and> find_cwe (jtext tag) \<noteq> None")
    case True
    then have "find_cwe (jtext tag) = Some n" using 2(2) by auto
    then have "states tag n" using find_cwe_in [of _ n "[]"] by (auto intro: states_self)
    then show ?thesis by auto
  next
    case False
    then have none: "(if tag = JNull then None else find_cwe (jtext tag)) = None" by auto
    then show ?thesis using 2(1) [OF none] 2(2) by auto
  qed
qed simp

lemma taxa_tags_states: "x \<in> set (taxa_tags v) \<Longrightarrow> states x n \<Longrightarrow> is_obj v \<and> states v n"
proof (cases v)
  case (JObj d)
  assume x: "x \<in> set (taxa_tags v)" and s: "states x n"
  then consider "x = jget d ''id''" | tg k where "jget d ''target'' = JObj tg" "x = jget tg k"
    by (auto simp: JObj taxa_tags_def split: json.splits)
  then show ?thesis using s states_jget JObj by cases (auto simp: is_obj_def, metis)
qed (auto simp: taxa_tags_def)

lemma add_seqs_objects:
  "add_seqs a b = Inr xs \<Longrightarrow> x \<in> set xs \<Longrightarrow> is_obj x \<Longrightarrow> x \<in> set (listed a) \<or> x \<in> set (listed b)"
  by (cases a; cases b) (auto simp: add_seqs_def listed_def iterate_def jiter_def is_obj_def)

lemma listed_or: "listed (or_empty v (JList [])) = listed v"
  by (cases v) (auto simp: listed_def or_empty_def)

lemma sarif_cwe_states:
  assumes "sarif_cwe result rule_meta = Inr (Some n)"
  shows "states (JObj result) n \<or> states (JObj rule_meta) n"
proof (cases "parse_cwes [dig (JObj result) ''properties.cwe'', dig (JObj rule_meta) ''properties.cwe'']")
  case (Some m)
  then have "m = n" using assms by (simp add: sarif_cwe_def)
  then show ?thesis using parse_cwe_states(2) [OF Some] states_dig by auto
next
  case None
  then obtain taxa where t: "add_seqs (or_empty (jget result ''taxa'') (JList []))
        (or_empty (jget rule_meta ''relationships'') (JList [])) = Inr taxa"
    and f: "first_tag_cwe (listed (dig (JObj rule_meta) ''properties.tags'')
      @ listed (dig (JObj result) ''properties.tags'') @ concat (map taxa_tags taxa)) = Some n"
    using assms by (auto simp: sarif_cwe_def bindE_Inr_iff)
  obtain x where x: "states x n" and "x \<in> set (listed (dig (JObj rule_meta) ''properties.tags''))
      \<or> x \<in> set (listed (dig (JObj result) ''properties.tags'')) \<or> (\<exists>y\<in>set taxa. x \<in> set (taxa_tags y))"
    using first_tag_cwe_in [OF f] by auto
  then show ?thesis
  proof (elim disjE bexE)
    fix y assume y: "y \<in> set taxa" "x \<in> set (taxa_tags y)"
    note o = taxa_tags_states [OF y(2) x]
    then have "y \<in> set (listed (jget result ''taxa'')) \<or> y \<in> set (listed (jget rule_meta ''relationships''))"
      using add_seqs_objects [OF t y(1)] by (simp add: listed_or)
    then show ?thesis
      using o states_jget [OF listed_states, of y result "''taxa''" n]
        states_jget [OF listed_states, of y rule_meta "''relationships''" n] by blast
  next
    assume "x \<in> set (listed (dig (JObj rule_meta) ''properties.tags''))"
    then show ?thesis using states_dig [OF listed_states [OF _ x]] by simp
  next
    assume "x \<in> set (listed (dig (JObj result) ''properties.tags''))"
    then show ?thesis using states_dig [OF listed_states [OF _ x]] by simp
  qed
qed

lemma sarif_url_neq: "sarif_url result = Inr u \<Longrightarrow> u \<noteq> Some []"
proof -
  have "first_location ls \<noteq> Some []" for ls
    by (induction ls) (auto simp: Let_def)
  then show "sarif_url result = Inr u \<Longrightarrow> u \<noteq> Some []"
    by (auto simp: sarif_url_def bindE_Inr_iff dest: clean_SomeD split: option.splits)
qed

lemma sarif_result_promised:
  assumes "sarif_result float_of path_name t tool ri rules si result = Inr r"
    and v: "\<And>n. states (JObj result) n \<Longrightarrow> states v n"
    and m: "\<And>k m n. dict_get rules k = Some m \<Longrightarrow> states (JObj m) n \<Longrightarrow> states v n"
  shows "promised t tool [v] r"
proof -
  define rule_id where "rule_id = clean (jget result ''ruleId'')"
  define rule_meta where "rule_meta = get_or (dict_get rules (str_or rule_id [])) []"
  define name where "name = or_str (or_str (or_str (clean (dig (JObj result) ''message.text''))
                   (clean (dig (JObj rule_meta) ''shortDescription.text''))) (clean (jget rule_meta ''name''))) rule_id"
  define rule where "rule = table_lookup t tool [rule_id]"
  note eq = assms(1) [unfolded sarif_result_def Let_def, folded rule_id_def, folded rule_meta_def, folded name_def rule_def]
  have meta: "states v n" if "states (JObj rule_meta) n" for n
    using that m by (auto simp: rule_meta_def get_or_def split: option.splits)
  obtain cwe where c: "(case rule of Some r \<Rightarrow> Inr (ru_cwe r) | None \<Rightarrow> sarif_cwe result rule_meta) = Inr cwe"
    using eq by (auto simp: bindE_Inr_iff)
  let ?us = "if cwe = None \<and> rule = None then [unmapped tool (str_or rule_id ''?'') name None] else []"
  obtain url param f where u: "sarif_url result = Inr url"
    and p: "or_url_param (sarif_param (sarif_request result)) url = Inr param"
    and n: "note_unmapped ?us (one_finding f) = Inr r"
    and f: "sf_tool f = tool" "sf_url f = url" "sf_param f = param" "sf_cwe f = cwe" "sf_name f = name"
      "sf_method f = norm_method (jget (sarif_request result) ''method'')"
    using eq c by (auto simp: bindE_Inr_iff intro!: that)
  have rules: "x \<in> set (all_rules t tool)" if "rule = Some x" for x
    using that lookup_in by (simp add: rule_def)
  show ?thesis
  proof (rule uniform_promised [OF n])
    show "uniform tool name cwe s" if "one_finding f = Inr s" for s
      using uniform_one [OF that] f sarif_url_neq [OF u] or_url_param_neq [OF p]
      by (auto simp: name_def rule_id_def norm_method_in)
    show "stated (all_rules t tool) [v] cwe"
    proof (cases rule)
      case None
      then show ?thesis using c by (auto intro!: doc_stated dest!: sarif_cwe_states intro: v meta)
    next
      case (Some x)
      then show ?thesis using c rule_stated [OF rules] by auto
    qed
    show "cwe = None \<Longrightarrow> list_ex (\<lambda>x. ru_cwe x = None) (all_rules t tool) \<or>
        list_ex (\<lambda>u. um_tool u = tool \<and> (um_name u = name \<or> clean (opt_json (um_name u)) = name)) ?us"
      using c by (cases rule) (auto dest: rule_null [OF rules])
    show "tool = ''zap'' \<or> list_all (unsettled t tool) ?us"
      by (auto simp: rule_def str_or_def intro!: unsettled_key split: option.splits)
  qed
qed

lemma sarif_promised:
  assumes "normalise_sarif float_of path_name t tool d = Inr r"
  shows "promised t tool [JObj d] r"
proof -
  obtain runs where runs: "iterate (or_empty (jget d ''runs'') (JList [])) = Inr runs"
    and g: "gather 0 (\<lambda>ri. on_obj (sarif_run float_of path_name t tool ri)) runs = Inr r"
    using assms by (auto simp: normalise_sarif_def bindE_Inr_iff)
  from g show ?thesis
  proof (rule report_law.objects_law)
    fix j e s
    assume e: "JObj e \<in> set runs" and s: "sarif_run float_of path_name t tool j e = Inr s"
    obtain rules results where rules: "sarif_rules e = Inr rules"
      and res: "iterate (or_empty (jget e ''results'') (JList [])) = Inr results"
      and h: "gather 0 (\<lambda>si. on_obj (sarif_result float_of path_name t tool j rules si)) results = Inr s"
      using s by (auto simp: sarif_run_def bindE_Inr_iff)
    from h show "promised t tool [JObj d] s"
    proof (rule report_law.objects_law)
      fix i x y
      assume x: "JObj x \<in> set results" and "sarif_result float_of path_name t tool j rules i x = Inr y"
      then show "promised t tool [JObj d] y"
        using states_iterated [OF runs e] states_iterated [OF res x] sarif_rules_states [OF rules]
        by (intro sarif_result_promised) blast+
    qed
  qed
qed

lemma generic_promised:
  assumes "normalise_generic float_of path_name t tool doc = Inr r"
  shows "promised t tool [doc] r"
  using assms sarif_promised generic_json_promised report_law.R_none
  by (auto simp: normalise_generic_def split: if_splits json.splits)

section \<open>Every reader\<close>

text \<open>The decoded values a tool's reader looks at.\<close>

definition report_values :: "python_lib \<Rightarrow> string \<Rightarrow> raw_report \<Rightarrow> json list" where
  "report_values py tool rp =
     (if tool \<in> {''zap'', ''wapiti'', ''generic''} then [rr_doc rp]
      else if tool = ''nuclei'' then line_docs (py_loads py) (rr_lines rp)
      else if tool = ''nikto'' then
        (case nikto_rows (rr_name rp) (rr_head rp) (rr_doc rp) (rr_xml rp) of Inr rows \<Rightarrow> row_values rows | Inl _ \<Rightarrow> [])
      else [])"

lemma normalise_promised:
  assumes "normalise py tool rp t = Inr r"
  shows "promised t tool (report_values py tool rp) r"
proof -
  consider "tool = ''zap''" | "tool = ''nuclei''" | "tool = ''wapiti''" | "tool = ''nikto''" | "tool = ''skipfish''"
    | "tool = ''generic''"
    using assms by (auto simp: normalise_def split: if_splits)
  then show ?thesis
  proof cases
    case 4
    then have "normalise_nikto (py_search py) (rr_name rp) t tool (rr_head rp) (rr_doc rp) (rr_xml rp) = Inr r"
      using assms by (simp add: normalise_def)
    then obtain rows where "nikto_rows (rr_name rp) (rr_head rp) (rr_doc rp) (rr_xml rp) = Inr rows"
      and "promised t tool (row_values rows) r" by (rule nikto_promised)
    then show ?thesis using 4 by (simp add: report_values_def)
  qed (use assms zap_promised nuclei_promised wapiti_promised skipfish_promised generic_promised in
        \<open>auto simp: normalise_def report_values_def\<close>)
qed

text \<open>C26: No reader invents a weakness: the CWE of a finding is one a rule of the table gives, or a
  number that the report itself states.\<close>

theorem no_cwe_invented:
  assumes "normalise py tool rp t = Inr r" and "f \<in> set (sr_findings r)" and "sf_cwe f = Some n"
  shows "(\<exists>x\<in>set (all_rules t tool). ru_cwe x = Some n) \<or> (\<exists>v\<in>set (report_values py tool rp). states v n)"
  using normalise_promised [OF assms(1)] assms(2,3)
  by (auto simp: promised_def good_finding_def stated_def list_all_iff list_ex_iff)

text \<open>C27: Every finding of every reader is in the vocabulary the scorer is promised: it carries its tool,
  severities, confidences and methods are of the fixed lists, a CWE is positive, and no field is an empty
  text.\<close>

theorem findings_in_vocabulary:
  assumes "normalise py tool rp t = Inr r" and "f \<in> set (sr_findings r)"
  shows "sf_tool f = tool \<and> scan_finding_ok f
    \<and> sf_url f \<noteq> Some [] \<and> sf_param f \<noteq> Some [] \<and> sf_name f \<noteq> Some []
    \<and> (\<forall>m. sf_method f = Some m \<longrightarrow> m \<in> set METHODS)"
  using normalise_promised [OF assms(1)] assms(2)
  by (auto simp: promised_def good_finding_def well_formed_def list_all_iff)

text \<open>The list of unmapped outputs is the list of open questions: a finding without a CWE is on it
  unless a rule of the table decides for none, and, but for ZAP, no entry of it has a rule.\<close>

theorem open_questions_listed:
  assumes "normalise py tool rp t = Inr r"
  shows "(\<forall>f\<in>set (sr_findings r). sf_cwe f = None \<longrightarrow>
      (\<exists>x\<in>set (all_rules t tool). ru_cwe x = None) \<or> (\<exists>u\<in>set (sr_unmapped r). row_of f u))
    \<and> (tool \<noteq> ''zap'' \<longrightarrow> (\<forall>u\<in>set (sr_unmapped r). um_key u = ''?'' \<or> dict_get (rules_of t tool) (um_key u) = None))"
  using normalise_promised [OF assms(1)]
  by (auto simp: promised_def undecided_listed_def unsettled_def list_all_iff list_ex_iff)

section \<open>Which reports are read\<close>

lemma gather_total: "(\<exists>r. gather i f xs = Inr r) \<longleftrightarrow> (\<forall>j<length xs. \<exists>r. f (i + j) (xs ! j) = Inr r)"
proof (induction xs arbitrary: i)
  case (Cons x xs)
  have "(\<exists>r. gather i f (x # xs) = Inr r) \<longleftrightarrow> (\<exists>r. f i x = Inr r) \<and> (\<exists>r. gather (Suc i) f xs = Inr r)"
    by (auto simp: bindE_Inr_iff)
  also have "\<dots> \<longleftrightarrow> (\<forall>j<length (x # xs). \<exists>r. f (i + j) ((x # xs) ! j) = Inr r)"
    unfolding Cons.IH by (auto simp: less_Suc_eq_0_disj)
  finally show ?case .
qed simp

lemma gather_objects_total:
  assumes "\<And>j d. (\<exists>r. f j d = Inr r) \<longleftrightarrow> P d"
  shows "(\<exists>r. gather i (\<lambda>j. on_obj (f j)) xs = Inr r) \<longleftrightarrow> (\<forall>d. JObj d \<in> set xs \<longrightarrow> P d)"
proof -
  have "(\<exists>r. on_obj (f j) v = Inr r) \<longleftrightarrow> (\<forall>d. v = JObj d \<longrightarrow> P d)" for j v
    using assms by (cases v) (auto simp: on_obj_def)
  then show ?thesis unfolding gather_total by (auto simp: in_set_conv_nth)
qed

lemma norm_severity_ok: "norm_severity None v = Some s \<Longrightarrow> s \<in> set SEVERITIES"
  by (auto simp: norm_severity_def SEVERITIES_def split: option.splits if_splits)

lemma norm_confidence_ok: "norm_confidence None v = Some s \<Longrightarrow> s \<in> set CONFIDENCES"
  by (auto simp: norm_confidence_def CONFIDENCES_def split: option.splits if_splits)

text \<open>What a record of a free-form report has to be for the reader not to raise.\<close>

definition readable_url :: "string option \<Rightarrow> bool" where
  "readable_url url = (case url of None \<Rightarrow> True | Some u \<Rightarrow> CHR ''?'' \<notin> set u \<or> (\<exists>q. url_query u = Inr q))"

lemma param_from_url_total: "(\<exists>p. param_from_url url = Inr p) \<longleftrightarrow> readable_url url"
proof (cases url)
  case None
  then show ?thesis by (simp add: param_from_url_def readable_url_def)
next
  case (Some u)
  have "\<exists>p. (case ps of [p] \<Rightarrow> Inr (clean (JStr (before (CHR ''='') p))) | _ \<Rightarrow> Inr None) = Inr p" for ps
    by (simp split: list.split)
  then show ?thesis
    by (cases "url_query u") (auto simp: Some param_from_url_def readable_url_def)
qed

definition generic_readable :: "cwe_table \<Rightarrow> string \<Rightarrow> obj \<Rightarrow> bool" where
  "generic_readable t tool rec =
     (let rule = table_lookup t tool [clean (pick rec ''id''), clean (pick rec ''name'')]
      in has_skip rule
         \<or> ((case rule of None \<Rightarrow> True | Some r \<Rightarrow> (case ru_cwe r of None \<Rightarrow> True | Some n \<Rightarrow> 0 < n))
            \<and> (clean (pick rec ''param'') \<noteq> None \<or> readable_url (clean (pick rec ''url'')))))"

lemma or_url_param_total: "p \<noteq> Some [] \<Longrightarrow> (\<exists>x. or_url_param p url = Inr x) \<longleftrightarrow> p \<noteq> None \<or> readable_url url"
  using param_from_url_total by (cases p) (auto simp: or_url_param_def)

lemma one_finding_total: "(\<exists>r. one_finding f = Inr r) \<longleftrightarrow> scan_finding_ok f"
  by (simp add: one_finding_def mk_finding_def)

lemma note_unmapped_total: "(\<exists>r. note_unmapped us x = Inr r) \<longleftrightarrow> (\<exists>s. x = Inr s)"
  by (auto simp: note_unmapped_def bindE_Inr_iff)

lemma parse_cwe_positive:
  "parse_cwe v = Some n \<Longrightarrow> 0 < n"
  "parse_cwes vs = Some n \<Longrightarrow> 0 < n"
  by (induction v and vs rule: parse_cwe_parse_cwes.induct)
     (auto simp: cwe_text_def Let_def split: if_splits option.splits)

lemma generic_record_total:
  "(\<exists>r. generic_record path_name t tool j rec = Inr r) \<longleftrightarrow> generic_readable t tool rec"
proof -
  define ident where "ident = clean (pick rec ''id'')"
  define name where "name = clean (pick rec ''name'')"
  define rule where "rule = table_lookup t tool [ident, name]"
  define cwe where "cwe = (case rule of Some r \<Rightarrow> ru_cwe r | None \<Rightarrow> parse_cwe (pick rec ''cwe''))"
  define url where "url = clean (pick rec ''url'')"
  define f where "f param = \<lparr>sf_tool = tool, sf_url = url, sf_method = norm_method (pick rec ''method''),
      sf_param = param, sf_cwe = cwe, sf_name = name, sf_severity = norm_severity None (pick rec ''severity''),
      sf_confidence = norm_confidence None (pick rec ''confidence''),
      sf_raw_ref = path_name @ ''#['' @ nat_text j @ '']''\<rparr>" for param
  have c: "(case cwe of None \<Rightarrow> True | Some n \<Rightarrow> 0 < n)
      \<longleftrightarrow> (case rule of None \<Rightarrow> True | Some r \<Rightarrow> (case ru_cwe r of None \<Rightarrow> True | Some n \<Rightarrow> 0 < n))"
    using parse_cwe_positive(1) by (auto simp: cwe_def split: option.splits)
  have f: "scan_finding_ok (f param) \<longleftrightarrow> (case cwe of None \<Rightarrow> True | Some n \<Rightarrow> 0 < n)" for param
    using norm_severity_ok norm_confidence_ok by (auto simp: f_def scan_finding_ok_def split: option.splits)
  have "(\<exists>r. generic_record path_name t tool j rec = Inr r) \<longleftrightarrow> has_skip rule
      \<or> (\<exists>p. or_url_param (clean (pick rec ''param'')) url = Inr p
          \<and> (\<exists>r. note_unmapped (if cwe = None \<and> rule = None then [unmapped tool (str_or (or_str ident name) ''?'') name None] else [])
                 (one_finding (f p)) = Inr r))"
    unfolding generic_record_def Let_def ident_def [symmetric] name_def [symmetric]
    unfolding rule_def [symmetric] url_def [symmetric]
    unfolding cwe_def [symmetric]
    unfolding f_def [symmetric] by (auto simp: bindE_Inr_iff)
  also have "\<dots> \<longleftrightarrow> generic_readable t tool rec"
    unfolding note_unmapped_total one_finding_total f c
    using or_url_param_total [of "clean (pick rec ''param'')" url]
    by (auto simp: generic_readable_def Let_def rule_def ident_def name_def url_def)
  finally show ?thesis .
qed

text \<open>C28: A vendor's free-form report is read exactly when each of its records that no rule skips has a
  positive CWE in its rule, if it has one, and names its parameter or has a URL with a well-formed
  authority; whatever else a record holds, and however it spells its fields, does not stop the reader.\<close>

theorem free_form_read_iff:
  "(\<exists>r. normalise_generic_json path_name t tool doc = Inr r)
    \<longleftrightarrow> (\<nexists>d. JObj d \<in> set (generic_rows doc) \<and> \<not> generic_readable t tool d)"
  using gather_objects_total [OF generic_record_total] unfolding normalise_generic_json_def by fast

section \<open>A report\<close>

definition demo_py :: python_lib where
  "demo_py = \<lparr>py_search = (\<lambda>p s. contains s p), py_loads = (\<lambda>_. None), py_float = (\<lambda>_. None)\<rparr>"

definition demo_table :: cwe_table where
  "demo_table = (case new_table (\<lambda>_. True)
     [(''version'', JInt 1),
      (''tools'', JObj
        [(''zap'', JObj [(''null_values'', JList [JInt 0, JStr ''-1'']),
                         (''rules'', JObj [(''10094'', JObj [(''cwe'', JNull), (''source'', JStr ''a hedge'')])])]),
         (''generic'', JObj [(''rules'', JObj [(''X2'', JObj [(''cwe'', JInt 79)]),
                                               (''X4'', JObj [(''cwe'', JNull), (''skip'', JBool True)])])])])]
     of Inr t \<Rightarrow> t | Inl _ \<Rightarrow> \<lparr>ct_version = JNull, ct_out_of_catalog = [], ct_tools = [], ct_rules = [], ct_patterns = []\<rparr>)"

definition demo_doc :: json where
  "demo_doc = JObj [(''findings'', JList
     [JObj [(''id'', JStr ''X1''), (''title'', JStr ''SQLi''), (''CWE-ID'', JStr ''CWE-89''), (''url'', JStr ''http://shop/x?id=1'')],
      JObj [(''id'', JStr ''X2''), (''title'', JStr ''XSS''), (''cwe'', JInt 20)],
      JObj [(''id'', JStr ''X3''), (''title'', JStr ''odd''), (''severity'', JStr ''severe'')],
      JObj [(''id'', JStr ''X4'')]])]"

definition demo_report :: raw_report where
  "demo_report = \<lparr>rr_name = ''v.json'', rr_doc = demo_doc, rr_lines = None, rr_head = None, rr_xml = None,
     rr_samples = None\<rparr>"

definition demo_findings :: "scan_finding list" where
  "demo_findings =
     [\<lparr>sf_tool = ''generic'', sf_url = Some ''http://shop/x?id=1'', sf_method = None, sf_param = Some ''id'',
       sf_cwe = Some 89, sf_name = Some ''SQLi'', sf_severity = None, sf_confidence = None, sf_raw_ref = ''v.json#[0]''\<rparr>,
      \<lparr>sf_tool = ''generic'', sf_url = None, sf_method = None, sf_param = None,
       sf_cwe = Some 79, sf_name = Some ''XSS'', sf_severity = None, sf_confidence = None, sf_raw_ref = ''v.json#[1]''\<rparr>,
      \<lparr>sf_tool = ''generic'', sf_url = None, sf_method = None, sf_param = None,
       sf_cwe = None, sf_name = Some ''odd'', sf_severity = Some ''critical'', sf_confidence = None,
       sf_raw_ref = ''v.json#[2]''\<rparr>]"

lemma demo_normalised:
  "normalise demo_py ''generic'' demo_report demo_table
   = Inr \<lparr>sr_findings = demo_findings, sr_unmapped = [unmapped ''generic'' ''X3'' (Some ''odd'') None]\<rparr>"
  by code_simp

lemma no_cwe_invented_witness:
  "(\<exists>x\<in>set (all_rules demo_table ''generic''). ru_cwe x = Some 89)
    \<or> (\<exists>v\<in>set (report_values demo_py ''generic'' demo_report). states v 89)"
  by (rule no_cwe_invented [OF demo_normalised, of "demo_findings ! 0"]) (simp_all add: demo_findings_def)

lemma findings_in_vocabulary_witness:
  "scan_finding_ok (demo_findings ! 2) \<and> sf_tool (demo_findings ! 2) = ''generic''"
  using findings_in_vocabulary [OF demo_normalised, of "demo_findings ! 2"] by (simp add: demo_findings_def)

lemma open_questions_listed_witness:
  "dict_get (rules_of demo_table ''generic'') ''X3'' = None"
  using open_questions_listed [OF demo_normalised] by (simp add: unmapped_def)

end
