(* ===== verification/Scan_Checks.thy ===== *)
theory Scan_Checks
  imports Scan_Normalise
begin

text \<open>
  One finding per instance of a ZAP report, and concrete reports on which the readers of
  \<open>normalise.py\<close> do something else than their documentation says.
\<close>

section \<open>ZAP claims\<close>

definition zap_rule :: "cwe_table \<Rightarrow> string \<Rightarrow> obj \<Rightarrow> rule option" where
  "zap_rule t tool alert =
     (let plugin = clean (jget alert ''pluginid'')
      in table_lookup t tool [or_str (clean (jget alert ''alertRef'')) plugin, plugin])"

definition claim :: "scan_finding \<Rightarrow> string option \<times> string option \<times> string option" where
  "claim f = (sf_name f, sf_url f, sf_method f)"

text \<open>What an alert claims: its name at each of its instances, or at the site when it lists none.\<close>

definition alert_claims ::
  "cwe_table \<Rightarrow> string \<Rightarrow> obj \<Rightarrow> obj \<Rightarrow> (string option \<times> string option \<times> string option) list" where
  "alert_claims t tool site alert =
     (if has_skip (zap_rule t tool alert) then []
      else map (\<lambda>i. (or_str (clean (jget alert ''alert'')) (clean (jget alert ''name'')),
                     clean (jget (obj_of i) ''uri''), norm_method (jget (obj_of i) ''method'')))
             (filter is_obj (zap_instances site alert)))"

definition site_claims :: "cwe_table \<Rightarrow> string \<Rightarrow> obj \<Rightarrow> (string option \<times> string option \<times> string option) list" where
  "site_claims t tool site =
     concat (map (\<lambda>a. alert_claims t tool site (obj_of a)) (filter is_obj (jiter (jget site ''alerts''))))"

definition zap_claims :: "cwe_table \<Rightarrow> string \<Rightarrow> json \<Rightarrow> (string option \<times> string option \<times> string option) list" where
  "zap_claims t tool doc =
     (case jget (obj_of doc) ''site'' of
        JObj s \<Rightarrow> site_claims t tool s
      | JList xs \<Rightarrow> concat (map (\<lambda>s. site_claims t tool (obj_of s)) (filter is_obj xs))
      | _ \<Rightarrow> [])"

lemma gather_claims:
  assumes "gather i (\<lambda>j. on_obj (f j)) xs = Inr r"
    and "\<And>j d s. f j d = Inr s \<Longrightarrow> map claim (sr_findings s) = c d"
  shows "map claim (sr_findings r) = concat (map (\<lambda>v. c (obj_of v)) (filter is_obj xs))"
  using assms(1)
proof (induction xs arbitrary: i r)
  case (Cons x xs)
  obtain a b where a: "on_obj (f i) x = Inr a" and b: "gather (Suc i) (\<lambda>j. on_obj (f j)) xs = Inr b"
    and r: "r = extend_result a b"
    using Cons.prems by (auto simp: bindE_Inr_iff)
  have "map claim (sr_findings a) = (if is_obj x then c (obj_of x) else [])"
    using a assms(2) by (auto simp: on_obj_def is_obj_def obj_of_def split: json.splits)
  then show ?case using Cons.IH [OF b] r by simp
qed simp

lemma jiter_or_empty: "iterate (or_empty v (JList [])) = Inr xs \<Longrightarrow> filter is_obj (jiter v) = filter is_obj xs"
  by (cases v) (auto simp: iterate_def or_empty_def jiter_def split: if_splits)

lemma zap_instance_claim:
  "zap_instance tool ref cwe name severity confidence inst = Inr r \<Longrightarrow>
   map claim (sr_findings r) = [(name, clean (jget inst ''uri''), norm_method (jget inst ''method''))]"
  by (auto simp: zap_instance_def Let_def bindE_Inr_iff claim_def dest!: one_findingD)

lemma zap_alert_claims:
  assumes "zap_alert path_name t tool si site ai alert = Inr r"
  shows "map claim (sr_findings r) = alert_claims t tool site alert"
proof (cases "has_skip (zap_rule t tool alert)")
  case True
  then show ?thesis using assms by (auto simp: zap_alert_def zap_rule_def alert_claims_def Let_def)
next
  case False
  let ?name = "or_str (clean (jget alert ''alert'')) (clean (jget alert ''name''))"
  obtain us cwe severity s where n: "note_unmapped us s = Inr r"
    and s: "s = gather 0 (\<lambda>ii. on_obj (zap_instance tool
             (path_name @ ''#site['' @ nat_text si @ ''].alerts['' @ nat_text ai @ ''].instances['' @ nat_text ii @ '']'')
             cwe ?name severity (zap_confidence alert))) (zap_instances site alert)"
    using assms False by (auto simp: zap_alert_def zap_rule_def Let_def bindE_Inr_iff)
  obtain q where q: "s = Inr q" and r: "sr_findings r = sr_findings q"
    using note_unmappedD [OF n] by auto
  have "map claim (sr_findings q) = concat (map (\<lambda>i. [(?name, clean (jget (obj_of i) ''uri''),
      norm_method (jget (obj_of i) ''method''))]) (filter is_obj (zap_instances site alert)))"
    using s q by (intro gather_claims [where c = "\<lambda>d. [(?name, clean (jget d ''uri''), norm_method (jget d ''method''))]"])
      (auto dest: zap_instance_claim)
  then show ?thesis using False r by (simp add: alert_claims_def)
qed

lemma zap_site_claims:
  assumes "zap_site path_name t tool si site = Inr r"
  shows "map claim (sr_findings r) = site_claims t tool site"
proof -
  obtain alerts where a: "iterate (or_empty (jget site ''alerts'') (JList [])) = Inr alerts"
    and g: "gather 0 (\<lambda>ai. on_obj (zap_alert path_name t tool si site ai)) alerts = Inr r"
    using assms by (auto simp: zap_site_def bindE_Inr_iff)
  show ?thesis
    using gather_claims [OF g zap_alert_claims] jiter_or_empty [OF a] by (simp add: site_claims_def)
qed

text \<open>C29: The findings of a ZAP report are its claims: each instance of each alert that no rule skips is
  one finding, in the order of the report, with the name of the alert and the URL and method of the
  instance.\<close>

theorem zap_one_finding_per_instance:
  assumes "normalise_zap path_name t tool doc = Inr r"
  shows "map claim (sr_findings r) = zap_claims t tool doc"
proof (cases doc)
  case (JObj d)
  show ?thesis
  proof (cases "jget d ''site''")
    case (JList xs)
    then have "gather 0 (\<lambda>si. on_obj (zap_site path_name t tool si)) xs = Inr r"
      using assms \<open>doc = JObj d\<close> by (simp add: normalise_zap_def on_obj_def)
    from gather_claims [OF this zap_site_claims] show ?thesis
      using JList \<open>doc = JObj d\<close> by (simp add: zap_claims_def obj_of_def)
  next
    case site: (JObj s)
    then have "gather 0 (\<lambda>si. on_obj (zap_site path_name t tool si)) [JObj s] = Inr r"
      using assms JObj by (simp add: normalise_zap_def on_obj_def)
    from gather_claims [OF this zap_site_claims] show ?thesis
      using site JObj by (simp add: zap_claims_def obj_of_def is_obj_def)
  qed (use assms JObj in \<open>auto simp: normalise_zap_def on_obj_def zap_claims_def obj_of_def\<close>)
next
  case JNull
  have "zap_claims t tool JNull = []" by (simp add: zap_claims_def obj_of_def jget_def)
  then show ?thesis using assms JNull by (simp add: normalise_zap_def on_obj_def)
qed (use assms in \<open>auto simp: normalise_zap_def on_obj_def zap_claims_def obj_of_def jget_def\<close>)

definition zap_doc :: json where
  "zap_doc = JObj [(''site'', JList [JObj [(''@name'', JStr ''http://shop''), (''alerts'', JList
     [JObj [(''pluginid'', JStr ''40018''), (''alert'', JStr ''SQLi''), (''cweid'', JStr ''89''), (''riskcode'', JStr ''3''),
            (''instances'', JList [JObj [(''uri'', JStr ''http://shop/a''), (''method'', JStr ''POST'')],
                                   JObj [(''uri'', JStr ''http://shop/b'')]])],
      JObj [(''pluginid'', JStr ''10094''), (''name'', JStr ''hint'')]])]])]"

lemma zap_one_finding_per_instance_witness:
  "\<exists>r. normalise_zap ''z.json'' demo_table ''zap'' zap_doc = Inr r
    \<and> map claim (sr_findings r) =
      [(Some ''SQLi'', Some ''http://shop/a'', Some ''POST''), (Some ''SQLi'', Some ''http://shop/b'', None),
       (Some ''hint'', Some ''http://shop'', None)]"
proof -
  have "case normalise_zap ''z.json'' demo_table ''zap'' zap_doc of Inr r \<Rightarrow> True | Inl e \<Rightarrow> False" by code_simp
  then obtain r where r: "normalise_zap ''z.json'' demo_table ''zap'' zap_doc = Inr r"
    by (auto split: sum.splits)
  have "zap_claims demo_table ''zap'' zap_doc =
      [(Some ''SQLi'', Some ''http://shop/a'', Some ''POST''), (Some ''SQLi'', Some ''http://shop/b'', None),
       (Some ''hint'', Some ''http://shop'', None)]" by code_simp
  then show ?thesis using r zap_one_finding_per_instance [OF r] by simp
qed

section \<open>Where the readers and their documentation part\<close>

text \<open>A rule that decides for no CWE settles an output for every reader but ZAP's.\<close>

lemma zap_lists_settled:
  "case normalise_zap ''z.json'' demo_table ''zap'' zap_doc of
     Inr r \<Rightarrow> map um_key (sr_unmapped r) = [''10094''] \<and> dict_get (rules_of demo_table ''zap'') ''10094'' \<noteq> None
   | Inl _ \<Rightarrow> False"
  by code_simp

text \<open>A category with a dot never finds the CWE that its classification states.\<close>

lemma wapiti_dotted_category:
  "wapiti_cwe None [(''XSS'', JObj [(''cwe'', JInt 79)])] ''XSS'' = Some 79"
  "wapiti_cwe None [(''XSS 1.1'', JObj [(''cwe'', JInt 79)])] ''XSS 1.1'' = None"
  by code_simp+

text \<open>A reference to CWE-0 makes the whole report unreadable.\<close>

lemma nikto_zero_raises:
  "normalise_nikto (\<lambda>_ _. False) ''n.json'' demo_table ''nikto'' None
     (JObj [(''host'', JStr ''shop''), (''vulnerabilities'', JList
        [JObj [(''msg'', JStr ''fine'')], JObj [(''msg'', JStr ''odd''), (''references'', JStr ''see CWE-0'')]])]) None
   = Inl ValueErr"
  by code_simp

text \<open>So does one URL whose authority has a bracket that does not hold an address.\<close>

lemma bad_authority_raises:
  "normalise_generic (\<lambda>_. None) ''v.json'' demo_table ''generic''
     (JList [JObj [(''name'', JStr ''fine'')], JObj [(''name'', JStr ''fuzzed''), (''url'', JStr ''http://[x]/?q=1'')]])
   = Inl ValueErr"
  by code_simp

text \<open>A rule to skip an output is not followed in a SARIF report, and is in a free-form one.\<close>

lemma sarif_skip_ignored:
  "case normalise_generic (\<lambda>_. None) ''v.sarif'' demo_table ''generic''
     (JObj [(''version'', JStr ''2.1.0''), (''runs'', JList [JObj [(''results'', JList [JObj [(''ruleId'', JStr ''X4'')]])]])])
   of Inr r \<Rightarrow> map sf_name (sr_findings r) = [Some ''X4''] | Inl _ \<Rightarrow> False"
  "case normalise_generic (\<lambda>_. None) ''v.json'' demo_table ''generic'' (JList [JObj [(''id'', JStr ''X4'')]])
   of Inr r \<Rightarrow> sr_findings r = [] | Inl _ \<Rightarrow> False"
  by code_simp+

end
