(* ===== verification/Skipfish_Facts.thy ===== *)
theory Skipfish_Facts
  imports Scan_Checks
begin

text \<open>
  What the reader of skipfish's JavaScript files gets back of a file of assignments with strings in escaped single quotes: the
  values that were written, as long as no text in them looks like an assignment.
\<close>

section \<open>Writing literals\<close>

text \<open>Compact literals with a printer of strings: JavaScript's in single quotes, or JSON's.\<close>

fun lit_text :: "(string \<Rightarrow> string) \<Rightarrow> json \<Rightarrow> string"
  and lit_texts :: "(string \<Rightarrow> string) \<Rightarrow> json list \<Rightarrow> string"
  and lit_items :: "(string \<Rightarrow> string) \<Rightarrow> (string \<times> json) list \<Rightarrow> string" where
  "lit_text sp (JStr s) = sp s"
| "lit_text sp (JList xs) = ''['' @ lit_texts sp xs @ '']''"
| "lit_text sp (JObj d) = ''{'' @ lit_items sp d @ ''}''"
| "lit_text sp JNull = ''null''"
| "lit_text sp (JBool b) = (if b then ''true'' else ''false'')"
| "lit_text sp (JInt n) = int_text n"
| "lit_text sp (JFloat r s) = s"
| "lit_texts sp [] = []"
| "lit_texts sp (x # xs) = lit_text sp x @ (if xs = [] then [] else '', '' @ lit_texts sp xs)"
| "lit_items sp [] = []"
| "lit_items sp ((k, v) # d) = sp k @ '': '' @ lit_text sp v @ (if d = [] then [] else '', '' @ lit_items sp d)"

definition js_escape :: "char \<Rightarrow> string" where
  "js_escape c = (if c \<in> {CHR 0x27, CHR 0x22, CHR 0x5C} then [CHR 0x5C, c] else [c])"

definition js_quote :: "string \<Rightarrow> string" where
  "js_quote s = CHR 0x27 # concat (map js_escape s) @ [CHR 0x27]"

section \<open>Reading them\<close>

lemma js_string_Cons:
  "c \<noteq> CHR 0x5C \<Longrightarrow> c \<noteq> q \<Longrightarrow> js_string q (c # s) = (c # fst (js_string q s), snd (js_string q s))"
  by (cases s) (auto split: prod.splits)

lemma js_string_read:
  "js_string (CHR 0x27) (concat (map js_escape s) @ CHR 0x27 # r) = (s, r)"
proof (induction s)
  case Nil
  show ?case by (cases r) auto
next
  case (Cons c s)
  show ?case
  proof (cases "c \<in> {CHR 0x27, CHR 0x22, CHR 0x5C}")
    case True
    then have "js_escape c = [CHR 0x5C, c]" by (simp only: js_escape_def if_True)
    then show ?thesis using Cons True by (auto simp: js_escape_def)
  next
    case False
    then have "js_escape c = [c]" by (simp only: js_escape_def if_False)
    then show ?thesis using Cons False js_string_Cons [of c "CHR 0x27"] by auto
  qed
qed

definition plain_char :: "char \<Rightarrow> bool" where
  "plain_char c = (c \<notin> {CHR 0x27, CHR 0x22, CHR ''['', CHR '']'', CHR ''{'', CHR ''}''})"

lemma loop_plain:
  "list_all plain_char w \<Longrightarrow> 1 \<le> depth \<Longrightarrow>
   js_literal_loop depth (w @ r) = map_option ((@) w) (js_literal_loop depth r)"
proof (induction w)
  case Nil
  then show ?case by (cases "js_literal_loop depth r") auto
next
  case (Cons c w)
  then have "js_literal_loop depth ((c # w) @ r) = map_option ((#) c) (js_literal_loop depth (w @ r))"
    by (auto simp: plain_char_def)
  then show ?case using Cons by (simp add: option.map_comp comp_def)
qed

lemma loop_quoted:
  "js_literal_loop depth (js_quote s @ r) = map_option ((@) (json_string s)) (js_literal_loop depth r)"
  by (simp add: js_quote_def js_string_read)

lemma is_dec_plain: "is_dec c \<Longrightarrow> plain_char c"
  by (auto simp: is_dec_def plain_char_def code_def)

lemma int_text_plain: "list_all plain_char (int_text n)"
proof -
  have "list_all plain_char (dec_digits k)" for k
    using dec_digits_dec(1) [of k] is_dec_plain by (simp add: list_all_iff)
  moreover have "plain_char (CHR ''-'')" by (simp add: plain_char_def)
  ultimately show ?thesis by (simp add: int_text_def)
qed

fun plain_floats :: "json \<Rightarrow> bool"
  and plain_floats_list :: "json list \<Rightarrow> bool"
  and plain_floats_items :: "(string \<times> json) list \<Rightarrow> bool" where
  "plain_floats (JFloat r s) = list_all plain_char s"
| "plain_floats (JList xs) = plain_floats_list xs"
| "plain_floats (JObj d) = plain_floats_items d"
| "plain_floats _ = True"
| "plain_floats_list [] = True"
| "plain_floats_list (x # xs) = (plain_floats x \<and> plain_floats_list xs)"
| "plain_floats_items [] = True"
| "plain_floats_items ((k, v) # d) = (plain_floats v \<and> plain_floats_items d)"

lemma loop_open:
  "1 \<le> depth \<Longrightarrow> c \<in> {CHR ''['', CHR ''{''} \<Longrightarrow>
   js_literal_loop depth (c # r) = map_option ((#) c) (js_literal_loop (depth + 1) r)"
  by auto

lemma loop_close:
  "2 \<le> depth \<Longrightarrow> c \<in> {CHR '']'', CHR ''}''} \<Longrightarrow>
   js_literal_loop depth (c # r) = map_option ((#) c) (js_literal_loop (depth - 1) r)"
  by auto

lemma plain_words:
  "list_all plain_char ''null''" "list_all plain_char ''true''" "list_all plain_char ''false''"
  "list_all plain_char '', ''" "list_all plain_char '': ''"
  by code_simp+

lemma loop_literal:
  "plain_floats v \<Longrightarrow> 1 \<le> depth \<Longrightarrow> js_literal_loop depth (lit_text js_quote v @ r)
     = map_option ((@) (lit_text json_string v)) (js_literal_loop depth r)"
  "plain_floats_list xs \<Longrightarrow> 1 \<le> depth \<Longrightarrow> js_literal_loop depth (lit_texts js_quote xs @ r)
     = map_option ((@) (lit_texts json_string xs)) (js_literal_loop depth r)"
  "plain_floats_items d \<Longrightarrow> 1 \<le> depth \<Longrightarrow> js_literal_loop depth (lit_items js_quote d @ r)
     = map_option ((@) (lit_items json_string d)) (js_literal_loop depth r)"
proof (induction v and xs and d arbitrary: depth r and depth r and depth r
    rule: plain_floats_plain_floats_list_plain_floats_items.induct)
  case (2 xs)
  then show ?case
    using loop_open [of depth "CHR ''[''"] loop_close [of "depth + 1" "CHR '']''"]
    by (simp add: option.map_comp comp_def del: js_literal_loop.simps)
next
  case (3 d)
  then show ?case
    using loop_open [of depth "CHR ''{''"] loop_close [of "depth + 1" "CHR ''}''"]
    by (simp add: option.map_comp comp_def del: js_literal_loop.simps)
next
  case "4_1"
  then show ?case by (simp only: lit_text.simps loop_plain [OF plain_words(1)])
next
  case "4_2"
  have "js_literal_loop depth ((if v then ''true'' else ''false'') @ r)
      = map_option ((@) (if v then ''true'' else ''false'')) (js_literal_loop depth r)" if "1 \<le> depth" for v depth r
    using loop_plain [OF plain_words(2) that] loop_plain [OF plain_words(3) that] by (cases v) (simp_all only: if_True if_False)
  then show ?case using "4_2"(2) by (simp only: lit_text.simps)
next
  case "4_3"
  then show ?case using loop_plain [OF int_text_plain] by simp
next
  case "4_4"
  then show ?case using loop_quoted by simp
next
  case 5
  then show ?case by (cases "js_literal_loop depth r") auto
next
  case (6 x xs)
  then show ?case using loop_plain [OF plain_words(4)]
    by (cases "js_literal_loop depth r") (auto simp del: js_literal_loop.simps)
next
  case 7
  then show ?case by (cases "js_literal_loop depth r") auto
next
  case (8 k v d)
  then show ?case using loop_plain [OF plain_words(4)] loop_plain [OF plain_words(5)] loop_quoted
    by (cases "js_literal_loop depth r") (auto simp del: js_literal_loop.simps)
qed (use loop_plain in auto)

definition container :: "json \<Rightarrow> bool" where
  "container v = (case v of JList _ \<Rightarrow> True | JObj _ \<Rightarrow> True | _ \<Rightarrow> False)"

lemma loop_top:
  assumes "c \<in> {CHR ''['', CHR ''{''}" and "e \<in> {CHR '']'', CHR ''}''}"
    and "js_literal_loop 1 (w @ e # r) = map_option ((@) w') (js_literal_loop 1 (e # r))"
  shows "js_literal_loop 0 (c # w @ e # r) = Some (c # w' @ [e])"
proof -
  have "js_literal_loop 1 (e # r) = Some [e]" using assms(2) by auto
  then show ?thesis using assms(1,3) by auto
qed

lemma literal_top:
  assumes "container v" and "plain_floats v"
  shows "js_literal_loop 0 (lit_text js_quote v @ r) = Some (lit_text json_string v)"
proof (cases v)
  case (JList xs)
  have "js_literal_loop 1 (lit_texts js_quote xs @ CHR '']'' # r) =
      map_option ((@) (lit_texts json_string xs)) (js_literal_loop 1 (CHR '']'' # r))"
    using assms(2) JList by (intro loop_literal(2)) auto
  from loop_top [OF _ _ this, of "CHR ''[''"] show ?thesis by (simp add: JList del: js_literal_loop.simps)
next
  case (JObj d)
  have "js_literal_loop 1 (lit_items js_quote d @ CHR ''}'' # r) =
      map_option ((@) (lit_items json_string d)) (js_literal_loop 1 (CHR ''}'' # r))"
    using assms(2) JObj by (intro loop_literal(3)) auto
  from loop_top [OF _ _ this, of "CHR ''{''"] show ?thesis by (simp add: JObj del: js_literal_loop.simps)
qed (use assms(1) in \<open>auto simp: container_def\<close>)

lemma strip_kept:
  assumes "s \<noteq> []" and "\<not> P (hd s)" and "\<not> P (last s)"
  shows "strip_where P s = s" and "rstrip_where P s = s"
proof -
  have "dropWhile P s = s" using assms by (cases s) auto
  moreover have r: "dropWhile P (rev s) = rev s" using assms by (cases s rule: rev_cases) auto
  ultimately show "strip_where P s = s" by (simp add: strip_where_def rstrip_where_def)
  show "rstrip_where P s = s" using r by (simp add: rstrip_where_def)
qed

lemma container_ends:
  assumes "container v"
  shows "lit_text sp v \<noteq> []" "hd (lit_text sp v) \<in> {CHR ''['', CHR ''{''}"
    "last (lit_text sp v) \<in> {CHR '']'', CHR ''}''}"
  using assms by (cases v; simp add: container_def)+

lemma bracket_chars:
  "c \<in> {CHR ''['', CHR ''{'', CHR '']'', CHR ''}''} \<Longrightarrow> \<not> is_space c \<and> c \<notin> set '';'' \<and> c \<notin> set ''var''"
  by (auto simp: is_space_def code_def)

lemma read_container:
  assumes "container v" and "plain_floats v"
  shows "read_js_literal (lit_text js_quote v @ r) = Some (lit_text json_string v)"
proof -
  let ?t = "lit_text json_string v"
  note ends = container_ends [OF assms(1), of json_string]
  have h: "\<not> is_space (hd ?t)" "\<not> is_space (last ?t)" "last ?t \<notin> set '';''" "hd ?t \<notin> set '';''"
    using bracket_chars [of "hd ?t"] bracket_chars [of "last ?t"] ends(2,3) by auto
  show ?thesis
    using literal_top [OF assms, of r] strip_kept [of ?t is_space] h ends(1)
      strip_kept(2) [of ?t "\<lambda>c. c \<in> set '';''"]
    by (simp add: read_js_literal_def falsy_none_def)
qed

section \<open>Files\<close>

text \<open>No assignment seems to start inside of a text.\<close>

fun no_var :: "string \<Rightarrow> bool" where
  "no_var [] = True"
| "no_var (c # s) = (\<not> startswith (c # s) ''var'' \<and> no_var s)"

definition js_name :: "string \<Rightarrow> bool" where
  "js_name n = (n \<noteq> [] \<and> ident_start (hd n) \<and> list_all ident_char n)"

definition js_file :: "(string \<times> json) list \<Rightarrow> string" where
  "js_file vs = concat (map (\<lambda>(n, v). ''var '' @ n @ '' = '' @ lit_text js_quote v @ '';'' @ [CHR 0x0A]) vs)"

lemma assignments_skip:
  assumes "no_var t" and "t \<noteq> []" and "last t \<notin> set ''var''"
  shows "js_assignments (t @ u) = js_assignments u"
  using assms
proof (induction t)
  case (Cons c s)
  have "\<not> startswith ((c # s) @ u) ''var''"
  proof
    assume a: "startswith ((c # s) @ u) ''var''"
    show False
    proof (cases "2 \<le> length s")
      case True
      then have "startswith (c # s) ''var''" using a by (cases s; cases "tl s") auto
      then show False using Cons.prems(1) by simp
    next
      case False
      then have "s = [] \<or> (\<exists>x. s = [x])" by (cases s; cases "tl s") auto
      then show False using a Cons.prems(3) by auto
    qed
  qed
  then have "js_assignments ((c # s) @ u) = js_assignments (s @ u)"
    by (simp add: js_assign_here_def)
  then show ?case using Cons by (cases "s = []") auto
qed simp

lemma assign_here:
  assumes "js_name n" and "x \<noteq> []" and "\<not> is_space (hd x)"
  shows "js_assign_here (''var '' @ n @ '' = '' @ x) = Some (n, x)"
proof -
  have sp: "is_space (CHR '' '')" "\<not> is_space (CHR ''='')" "\<not> ident_char (CHR '' '')" by code_simp+
  obtain c m where n: "n = c # m" using assms(1) by (cases n) (auto simp: js_name_def)
  have c: "ident_start c" and ns: "\<not> is_space c"
    using assms(1) by (auto simp: n js_name_def ident_start_def ascii_alpha_def is_space_def Let_def code_def)
  have all: "\<forall>y\<in>set n. ident_char y" using assms(1) by (simp add: js_name_def list_all_iff)
  have b: "lstrip (drop 3 (''var '' @ n @ '' = '' @ x)) = n @ '' = '' @ x"
    using sp ns by (simp add: lstrip_def n)
  have t: "takeWhile ident_char (n @ '' = '' @ x) = n" "dropWhile ident_char (n @ '' = '' @ x) = '' = '' @ x"
    using all sp(3) by (simp_all add: takeWhile_append2 dropWhile_append2)
  have d: "lstrip ('' = '' @ x) = ''= '' @ x" "lstrip ('' '' @ x) = x"
    using sp assms(2,3) by (cases x; simp add: lstrip_def)+
  have ne: "drop 3 (''var '' @ n @ '' = '' @ x) \<noteq> n @ '' = '' @ x"
    using ns sp(1) by (auto simp: n)
  show ?thesis
    unfolding js_assign_here_def Let_def b t d(1)
    using ne c d(2) by (simp add: n)
qed

lemma assignments_hit: "js_assign_here s = Some (n, r) \<Longrightarrow> js_assignments s = (n, r) # js_assignments r"
  by (cases s) (auto simp: js_assign_here_def startswith_def)

definition writable :: "(string \<Rightarrow> json option) \<Rightarrow> string \<times> json \<Rightarrow> bool" where
  "writable loads nv =
     (js_name (fst nv) \<and> container (snd nv) \<and> plain_floats (snd nv) \<and> no_var (lit_text js_quote (snd nv))
      \<and> loads (lit_text json_string (snd nv)) = Some (snd nv))"

lemma file_assignments:
  assumes "list_all (writable loads) vs"
  shows "foldl (js_step loads) d (js_assignments (js_file vs)) = foldl (\<lambda>d (k, v). dict_set k v d) d vs"
  using assms
proof (induction vs arbitrary: d)
  case Nil
  then show ?case by (simp add: js_file_def)
next
  case (Cons nv vs)
  obtain n v where nv: "nv = (n, v)" by (cases nv)
  have w: "writable loads (n, v)" using Cons.prems nv by simp
  let ?lit = "lit_text js_quote v"
  let ?r = "?lit @ ('';'' @ [CHR 0x0A]) @ js_file vs"
  have c: "container v" and p: "plain_floats v" using w by (auto simp: writable_def)
  note ends = container_ends [OF c, of js_quote]
  have "js_file (nv # vs) = ''var '' @ n @ '' = '' @ ?r" by (simp add: js_file_def nv)
  moreover have "js_assign_here (''var '' @ n @ '' = '' @ ?r) = Some (n, ?r)"
    using w ends(1,2) bracket_chars [of "hd ?lit"] by (intro assign_here) (auto simp: writable_def)
  ultimately have "js_assignments (js_file (nv # vs)) = (n, ?r) # js_assignments ?r"
    using assignments_hit by simp
  also have "js_assignments ?r = js_assignments (('';'' @ [CHR 0x0A]) @ js_file vs)"
    using w ends(1,3) bracket_chars [of "last ?lit"] by (intro assignments_skip) (auto simp: writable_def)
  also have "\<dots> = js_assignments (js_file vs)" by (intro assignments_skip) auto
  finally have "js_assignments (js_file (nv # vs)) = (n, ?r) # js_assignments (js_file vs)" .
  moreover have "js_step loads d (n, ?r) = dict_set n v d"
    using w read_container [OF c p] by (simp add: js_step_def writable_def)
  ultimately show ?case using Cons by (simp add: nv)
qed


definition demo_samples :: json where
  "demo_samples = JList [JObj [(''type'', JInt 5), (''samples'', JList
     [JObj [(''url'', JStr ''http://shop/a]b''), (''extra'', JStr [CHR ''i'', CHR 0x27, CHR ''s'', CHR '' '', CHR 0x22, CHR 0x5C])]])]]"

definition demo_loads :: "string \<Rightarrow> json option" where
  "demo_loads s = (if s = lit_text json_string demo_samples then Some demo_samples
                   else if s = ''[]'' then Some (JList []) else None)"


text \<open>A text in a sample that looks like an assignment is taken for one, and what it assigns replaces the
  samples: a target that echoes such a text empties the report.\<close>

definition hostile_samples :: json where
  "hostile_samples = JList [JObj [(''extra'', JStr ''var issue_samples = [];'')]]"

lemma echoed_text_replaces_samples:
  "parse_js_assignments
     (\<lambda>s. if s = lit_text json_string hostile_samples then Some hostile_samples else if s = ''[]'' then Some (JList []) else None)
     (js_file [(''issue_samples'', hostile_samples)]) = [(''issue_samples'', JList [])]"
  by code_simp

end
