(* ===== verification/Http_Wire.thy ===== *)
theory Http_Wire
  imports Url Tokens
begin

text \<open>
  \<open>platform/oob/src/edge_resolver/httpwire.py\<close>: reading a request off a stream and building a
  response. The stream is what the peer sends in all, whether it then closes (\<open>eof\<close>) or falls
  silent until the timeout, and how much of the rest has arrived when a chunked body is read
  (\<open>arrived\<close>). The stream's own limit is asyncio's default of 65536 octets.
\<close>

definition HEAD_LIMIT :: nat where "HEAD_LIMIT = 16384"
definition BODY_LIMIT :: nat where "BODY_LIMIT = 65536"
definition STREAM_LIMIT :: nat where "STREAM_LIMIT = 65536"

section \<open>The head\<close>

definition CRLF :: bytes where "CRLF = [13, 10]"

fun head_end :: "bytes \<Rightarrow> nat option" where
  "head_end [] = None"
| "head_end (b # s) = (if take 4 (b # s) = [13, 10, 13, 10] then Some 0 else map_option Suc (head_end s))"

text \<open>\<open>readuntil\<close> and what the code does with each of its failures: the head and the rest of the stream.\<close>

definition read_head :: "bytes \<Rightarrow> bool \<Rightarrow> bytes \<times> bytes" where
  "read_head s eof =
     (case head_end s of
        Some i \<Rightarrow> if i \<le> STREAM_LIMIT then (take (i + 4) s, drop (i + 4) s)
                  else (take HEAD_LIMIT s, drop HEAD_LIMIT s)
      | None \<Rightarrow> if STREAM_LIMIT < length s + 1 - 4 then (take HEAD_LIMIT s, drop HEAD_LIMIT s)
                else if eof then (s, []) else ([], s))"

fun crlf_to_lf :: "string \<Rightarrow> string" where
  "crlf_to_lf [] = []"
| "crlf_to_lf [c] = [c]"
| "crlf_to_lf (c # d # s) =
     (if c = CHR 0x0D \<and> d = CHR 0x0A then CHR 0x0A # crlf_to_lf s else c # crlf_to_lf (d # s))"

text \<open>\<open>str.isalpha\<close> below 256.\<close>

definition is_alpha :: "char \<Rightarrow> bool" where
  "is_alpha c = (let n = code c in (65 \<le> n \<and> n \<le> 90) \<or> (97 \<le> n \<and> n \<le> 122) \<or> n = 170 \<or> n = 181 \<or> n = 186
     \<or> (192 \<le> n \<and> n \<noteq> 215 \<and> n \<noteq> 247))"

fun read_headers :: "string list \<Rightarrow> (string, string) dict \<Rightarrow> (string, string) dict" where
  "read_headers [] d = d"
| "read_headers (l # ls) d =
     (if strip l = [] then d
      else if CHR '':'' \<notin> set l then read_headers ls d
      else
        let key = lower (strip (before (CHR '':'') l)); v = strip (after (CHR '':'') l)
        in read_headers ls (dict_set key (case dict_get d key of None \<Rightarrow> v | Some w \<Rightarrow> w @ '', '' @ v) d))"

section \<open>Requests\<close>

record http_request =
  hr_method :: string
  hr_target :: string
  hr_version :: string
  hr_headers :: "(string, string) dict"
  hr_body :: bytes
  hr_head_text :: string

text \<open>A head that is no request, and a length that \<open>int\<close> refuses.\<close>

datatype http_error = NotHttp bytes | BadLength

definition want_length :: "string \<Rightarrow> http_error + nat" where
  "want_length s =
     (if list_all (\<lambda>c. 48 \<le> code c \<and> code c \<le> 57) s \<and> length s \<le> 4300
      then Inr (min (foldl (\<lambda>n c. 10 * n + (code c - 48)) 0 s) BODY_LIMIT) else Inl BadLength)"

definition read_http_body :: "(string, string) dict \<Rightarrow> bytes \<Rightarrow> nat \<Rightarrow> http_error + bytes" where
  "read_http_body headers rest arrived =
     (let size = get_or (dict_get headers ''content-length'') []
      in if all_digits size then
           bindE (want_length size) (\<lambda>want. Inr (if want \<le> length rest then take want rest else []))
         else if contains (lower (get_or (dict_get headers ''transfer-encoding'') [])) ''chunked''
         then Inr (take (min (max 1 arrived) BODY_LIMIT) rest)
         else Inr [])"

definition parse_head :: "bytes \<Rightarrow> http_error + http_request" where
  "parse_head head =
     (let txt = latin1 (take HEAD_LIMIT head);
          ls = split_char (CHR 0x0A) (crlf_to_lf txt);
          parts = split_char (CHR '' '') (hd ls)
      in if length parts < 2 \<or> parts ! 0 = [] \<or> \<not> list_all is_alpha (parts ! 0)
         then Inl (NotHttp (take HEAD_LIMIT head))
         else Inr \<lparr>hr_method = upper (parts ! 0), hr_target = parts ! 1,
                   hr_version = (if 2 < length parts then parts ! 2 else ''HTTP/1.0''),
                   hr_headers = read_headers (tl ls) [], hr_body = [], hr_head_text = strip txt\<rparr>)"

definition read_request :: "bytes \<Rightarrow> bool \<Rightarrow> nat \<Rightarrow> http_error + http_request" where
  "read_request s eof arrived =
     (let (head, rest) = read_head s eof
      in if head = [] then Inl (NotHttp [])
         else bindE (parse_head head) (\<lambda>r.
              bindE (read_http_body (hr_headers r) rest arrived) (\<lambda>b. Inr (r\<lparr>hr_body := b\<rparr>))))"

text \<open>\<open>path\<close>, \<open>query\<close> and \<open>host\<close>; all three raise when the target cannot be split.\<close>

definition request_path :: "split_url \<Rightarrow> string" where
  "request_path u = unquote (if su_path u = [] then ''/'' else su_path u)"

definition request_host :: "http_request \<Rightarrow> split_url \<Rightarrow> string" where
  "request_host r u = str_or (url_hostname u) (get_or (dict_get (hr_headers r) ''host'') [])"

definition user_agent :: "http_request \<Rightarrow> string" where
  "user_agent r = get_or (dict_get (hr_headers r) ''user-agent'') []"

section \<open>Responses\<close>

definition reason_of :: "nat \<Rightarrow> string" where
  "reason_of status =
     get_or (dict_get [(200, ''OK''), (400, ''Bad Request''), (404, ''Not Found''), (405, ''Method Not Allowed'')] status) ''OK''"

definition response_headers :: "string \<Rightarrow> bytes \<Rightarrow> string \<Rightarrow> (string, string) dict \<Rightarrow> (string, string) dict" where
  "response_headers date body content_type extra =
     foldl (\<lambda>d (k, v). dict_set k v d)
       [(''Server'', ''nginx''), (''Date'', date), (''Content-Type'', content_type),
        (''Content-Length'', dec_digits (length body)), (''Connection'', ''close'')] extra"

definition http_response :: "string \<Rightarrow> nat \<Rightarrow> bytes \<Rightarrow> string \<Rightarrow> (string, string) dict \<Rightarrow> bytes" where
  "http_response date status body content_type extra =
     latin1_encode (''HTTP/1.1 '' @ dec_digits status @ '' '' @ reason_of status @ [CHR 0x0D, CHR 0x0A]
       @ concat (map (\<lambda>(k, v). k @ '': '' @ v @ [CHR 0x0D, CHR 0x0A]) (response_headers date body content_type extra)))
     @ CRLF @ body"

section \<open>Heads that are written are read\<close>

text \<open>The octets of some lines, each with its end.\<close>

definition wire_lines :: "string list \<Rightarrow> bytes" where
  "wire_lines ls = latin1_encode (concat (map (\<lambda>l. l @ [CHR 0x0D, CHR 0x0A]) ls))"

definition wire_line :: "string \<Rightarrow> bool" where
  "wire_line l = (l \<noteq> [] \<and> CHR 0x0D \<notin> set l \<and> CHR 0x0A \<notin> set l)"

lemma latin1_encode_simps [simp]:
  "latin1_encode [] = []" "latin1_encode (c # s) = of_nat (code c) # latin1_encode s"
  "latin1_encode (s @ t) = latin1_encode s @ latin1_encode t"
  by (simp_all add: latin1_encode_def)

lemma encode_char_eq: "(of_nat (code c) :: 8 word) = of_nat (code d) \<longleftrightarrow> c = d"
  using latin1_encode_inverse [of "[c]"] latin1_encode_inverse [of "[d]"]
  by (metis latin1_encode_simps(1,2) list.inject)

lemma encode_cr: "(of_nat (code c) :: 8 word) = 13 \<longleftrightarrow> c = CHR 0x0D"
proof -
  have "(13 :: 8 word) = of_nat (code (CHR 0x0D))" by code_simp
  then show ?thesis by (simp only: encode_char_eq)
qed

lemma head_end_line:
  assumes "CHR 0x0D \<notin> set l"
  shows "head_end (latin1_encode l @ s) = map_option ((+) (length l)) (head_end s)"
  using assms
proof (induction l)
  case Nil
  then show ?case by (cases "head_end s") auto
next
  case (Cons c l)
  then have "(of_nat (code c) :: 8 word) \<noteq> 13" by (auto simp: encode_cr)
  then show ?case using Cons by (simp add: option.map_comp comp_def)
qed

lemma head_end_crlf:
  assumes "b \<noteq> 13"
  shows "head_end (13 # 10 # b # s) = map_option (\<lambda>n. n + 2) (head_end (b # s))"
  using assms by (simp add: option.map_comp comp_def del: head_end.simps(2)) (simp add: option.map_comp comp_def)

lemma head_end_lines:
  assumes "ls \<noteq> []" and "list_all wire_line ls"
  shows "head_end (wire_lines ls @ CRLF @ body) = Some (length (wire_lines ls) - 2)"
  using assms
proof (induction ls)
  case (Cons l ls)
  have l: "CHR 0x0D \<notin> set l" using Cons.prems(2) by (simp add: wire_line_def)
  have w: "wire_lines (l # ls) = latin1_encode l @ 13 # 10 # wire_lines ls"
    by (simp add: wire_lines_def code_def)
  show ?case
  proof (cases ls)
    case Nil
    then have "head_end (13 # 10 # CRLF @ body) = Some 0" by (simp add: CRLF_def)
    then show ?thesis using w Nil by (simp add: head_end_line [OF l] wire_lines_def)
  next
    case (Cons m ms)
    then have m: "wire_line m" using Cons.prems(2) by simp
    then obtain c t where c: "m = c # t" "c \<noteq> CHR 0x0D" by (cases m) (auto simp: wire_line_def)
    then obtain s where s: "wire_lines ls = of_nat (code c) # s" by (simp add: Cons wire_lines_def)
    have "head_end (13 # 10 # wire_lines ls @ CRLF @ body)
        = map_option (\<lambda>n. n + 2) (head_end (wire_lines ls @ CRLF @ body))"
      using head_end_crlf [of "of_nat (code c)"] c(2) by (simp add: s encode_cr)
    moreover have "head_end (wire_lines ls @ CRLF @ body) = Some (length (wire_lines ls) - 2)"
      using Cons.IH Cons.prems(2) Cons by simp
    moreover have "2 \<le> length (wire_lines ls)" by (simp add: Cons wire_lines_def)
    ultimately show ?thesis by (simp add: w head_end_line [OF l])
  qed
qed simp

lemma crlf_to_lf_line:
  assumes "CHR 0x0D \<notin> set l"
  shows "crlf_to_lf (l @ CHR 0x0D # CHR 0x0A # s) = l @ CHR 0x0A # crlf_to_lf s"
  using assms
proof (induction l)
  case (Cons c l)
  then show ?case by (cases l) auto
qed simp

lemma lines_of_wire:
  assumes "list_all wire_line ls"
  shows "split_char (CHR 0x0A) (crlf_to_lf (concat (map (\<lambda>l. l @ [CHR 0x0D, CHR 0x0A]) ls) @ [CHR 0x0D, CHR 0x0A]))
    = ls @ [[], []]"
  using assms
proof (induction ls)
  case (Cons l ls)
  then show ?case
    using split_char_append [of "CHR 0x0A" l] crlf_to_lf_line [of l] by (simp add: wire_line_def)
qed simp

text \<open>A head of lines is found, and split into its lines again.\<close>

lemma read_head_wire:
  assumes "ls \<noteq> []" and "list_all wire_line ls" and "length (wire_lines ls) \<le> STREAM_LIMIT"
  shows "read_head (wire_lines ls @ CRLF @ body) eof = (wire_lines ls @ CRLF, body)"
proof -
  have "2 \<le> length (wire_lines ls)" using assms(1) by (cases ls) (simp_all add: wire_lines_def)
  then show ?thesis
    using head_end_lines [OF assms(1,2), of body] assms(3) by (simp add: read_head_def CRLF_def)
qed

end
