(* ===== verification/Admin_Listener.thy ===== *)
theory Admin_Listener
  imports Observations Http_Wire Upstream
begin

text \<open>
  \<open>platform/oob/src/edge_resolver/listeners/admin.py\<close> and \<open>Config.effective_admin_networks\<close>: who may
  use the internal API, and what each route answers and changes. The long poll (\<open>wait=\<close>) only delays
  the answer: the state a route is given is the one at its end. An exception, which the handler logs, is
  an answer of \<open>None\<close>: the connection is closed without one.

  Parameters: \<open>json.loads\<close> of a body (\<open>loads\<close>), \<open>json.dumps\<close> (\<open>dumps\<close>, with its ASCII default),
  the text of a float (\<open>show_ts\<close>), the clock and the date.
\<close>

section \<open>Who may ask\<close>

text \<open>The service passes the platform's own addresses (the reporting endpoint's and its own, found when
  it binds), each with the text \<open>/32\<close> behind it; \<open>ip_network\<close> reads that as the prefix of either family.\<close>

definition platform_network :: "string \<Rightarrow> network option" where
  "platform_network address =
     (case ip_address address of
        None \<Rightarrow> None
      | Some (V4 n) \<Rightarrow> Some (Net4 n 32)
      | Some (V6 n scope) \<Rightarrow> Some (Net6 n 32))"

definition admin_networks :: "oob_config \<Rightarrow> network list \<Rightarrow> string list \<Rightarrow> network list" where
  "admin_networks cfg explicit platform =
     (if explicit \<noteq> [] then explicit
      else [Net4 2130706432 8, Net6 1 128] @ cf_synthetic cfg @ List.map_filter platform_network platform)"

definition admin_allows :: "network list \<Rightarrow> string \<Rightarrow> bool" where
  "admin_allows nets address =
     (if nets = [] then True
      else case ip_address address of None \<Rightarrow> False | Some a \<Rightarrow> list_ex (in_network a) nets)"

section \<open>Arguments\<close>

definition query_first :: "string \<Rightarrow> string \<Rightarrow> string option" where
  "query_first key query =
     (case filter (\<lambda>p. fst p = key) (query_pairs query) of [] \<Rightarrow> None | p # _ \<Rightarrow> Some (snd p))"

text \<open>\<open>_int\<close>; Python refuses a number of more than 4300 digits.\<close>

definition admin_int :: "string option \<Rightarrow> int \<Rightarrow> int" where
  "admin_int v otherwise =
     (case v of
        None \<Rightarrow> otherwise
      | Some s \<Rightarrow>
          if 4300 < length (filter is_dec s) then otherwise
          else (case int_of_text s of None \<Rightarrow> otherwise | Some n \<Rightarrow> n))"

section \<open>Documents\<close>

definition opt_bool :: "bool option \<Rightarrow> json" where
  "opt_bool b = (case b of None \<Rightarrow> JNull | Some x \<Rightarrow> JBool x)"

definition observation_json :: "(rat \<Rightarrow> string) \<Rightarrow> observation \<Rightarrow> json" where
  "observation_json show_ts x =
     JObj [(''seq'', JInt (int (ob_seq x))), (''ts'', JFloat (ob_ts x) (show_ts (ob_ts x))),
           (''channel'', JStr (ob_channel x)), (''host'', opt_json (ob_host x)), (''token'', opt_json (ob_token x)),
           (''nonce'', opt_json (ob_nonce x)), (''source'', opt_json (ob_source x)),
           (''raw_token'', opt_json (ob_raw_token x)), (''owned_zone'', opt_bool (ob_owned x)),
           (''known'', JBool (ob_known x)), (''source_ip'', JStr (ob_source_ip x)),
           (''synthetic'', JBool (ob_synthetic x)), (''app'', opt_json (ob_app x)),
           (''confidence'', JStr (confidence_text (ob_confidence x))), (''attribution'', JObj (ob_attribution x)),
           (''raw'', JStr (ob_raw x)), (''detail'', JObj (ob_detail x))]"

definition observations_page :: "(rat \<Rightarrow> string) \<Rightarrow> int \<Rightarrow> int \<Rightarrow> resolver \<Rightarrow> json" where
  "observations_page show_ts since limit s =
     (let items = store_since since limit s; payload = JList (map (observation_json show_ts) items)
      in JObj [(''since'', JInt since),
               (''next_seq'', if items = [] then JInt since else JInt (int (ob_seq (last items)))),
               (''last_seq'', JInt (int (rs_seq s))), (''count'', JInt (int (length items))),
               (''observations'', payload), (''callbacks'', payload)])"

text \<open>The documents of \<open>stats()\<close> of the client, the index, the poller, the worker and the resolver.\<close>

definition jnat :: "nat \<Rightarrow> json" where
  "jnat n = JInt (int n)"

definition telemetry_stats :: "'e telemetry \<Rightarrow> json" where
  "telemetry_stats t =
     JObj [(''enqueued'', jnat (tm_enqueued t)), (''dropped'', jnat (tm_dropped t)), (''posted'', jnat (tm_posted t)),
           (''failed'', jnat (tm_failed t)), (''last_error'', opt_json (tm_last_error t))]"

definition index_stats_json :: "hint_index \<Rightarrow> json" where
  "index_stats_json g =
     (let i = index_stats g
      in JObj [(''pending'', jnat (is_pending i)), (''received'', jnat (is_received i)), (''sources'', jnat (is_sources i))])"

definition poller_stats :: "(rat \<Rightarrow> string) \<Rightarrow> poller \<Rightarrow> json" where
  "poller_stats show_ts p =
     JObj [(''polls'', jnat (po_polls p)), (''failures'', jnat (po_failures p)),
           (''watermark'', JFloat (po_watermark p) (show_ts (po_watermark p))), (''last_error'', opt_json (po_last_error p))]"

definition worker_stats :: "resolver \<Rightarrow> json" where
  "worker_stats s =
     JObj [(''processed'', jnat (rs_processed s)), (''improved'', jnat (rs_improved s)), (''dropped'', jnat (rs_dropped s)),
           (''queued'', jnat (length (rs_queue s)))]"

definition stub_stats :: "(rat \<Rightarrow> string) \<Rightarrow> stub \<Rightarrow> rat \<Rightarrow> json" where
  "stub_stats show_ts b timeout =
     JObj [(''servers'', JList (map (\<lambda>(host, port). JStr (host @ CHR '':'' # dec_digits port)) (sb_servers b))),
           (''queries'', jnat (sb_queries b)), (''timeouts'', jnat (sb_timeouts b)), (''cache_hits'', jnat (sb_hits b)),
           (''cached'', jnat (length (sb_cache b))), (''refused_slots'', jnat (sb_refused b)),
           (''timeout_s'', JFloat timeout (show_ts timeout))]"

record admin =
  ad_networks :: "network list"
  ad_url :: string
  ad_poller :: "poller option"
  ad_upstream :: "(stub \<times> rat) option"

definition admin_stats :: "(rat \<Rightarrow> string) \<Rightarrow> admin \<Rightarrow> oob_config \<Rightarrow> resolver \<Rightarrow> json" where
  "admin_stats show_ts ad cfg s =
     JObj [(''zone'', JStr (cf_zone cfg)), (''stored'', jnat (length (rs_items s))), (''last_seq'', jnat (rs_seq s)),
           (''telemetry'', telemetry_stats (rs_telemetry s)), (''telemetry_url'', opt_json (falsy_none (ad_url ad))),
           (''correlation'', index_stats_json (rs_index s)),
           (''poller'', case ad_poller ad of None \<Rightarrow> JNull | Some p \<Rightarrow> poller_stats show_ts p),
           (''attribution'', if rs_worker s then worker_stats s else JNull),
           (''upstream'', case ad_upstream ad of None \<Rightarrow> JNull | Some (b, t) \<Rightarrow> stub_stats show_ts b t)]"

section \<open>Registering hints\<close>

text \<open>The payloads the loop gets to, and whether it ends: an item that is no object raises, and so
  does a true value that is no list (the keys of an object and the characters of a text are no objects).\<close>

definition hint_entries :: "json \<Rightarrow> obj list \<times> bool" where
  "hint_entries v =
     (case v of
        JList xs \<Rightarrow> (map obj_of (takeWhile is_obj xs), list_all is_obj xs)
      | _ \<Rightarrow> ([], \<not> jtruthy v))"

text \<open>The document posted: an object under \<open>correlations\<close>, or one hint. \<open>None\<close> as the answer: it raised.\<close>

definition post_hints :: "(rat \<Rightarrow> string) \<Rightarrow> rat \<Rightarrow> json \<Rightarrow> resolver \<Rightarrow> resolver \<times> (nat \<times> json) option" where
  "post_hints show_ts now doc s =
     (case doc of
        JObj d \<Rightarrow>
          (let v = jor (jget d ''correlations'') (if d \<noteq> [] then JList [JObj d] else JList []);
               (ps, ends) = hint_entries v;
               (g, r) = add_payloads show_ts now ps (rs_index s)
           in (s\<lparr>rs_index := g\<rparr>,
               case r of Inl e \<Rightarrow> None
               | Inr n \<Rightarrow> if ends then Some (200, JObj [(''added'', jnat n)]) else None))
      | _ \<Rightarrow> (s, None))"

section \<open>Routes\<close>

definition admin_route ::
  "admin \<Rightarrow> oob_config \<Rightarrow> (rat \<Rightarrow> string) \<Rightarrow> (bytes \<Rightarrow> json option) \<Rightarrow> rat \<Rightarrow> http_request \<Rightarrow> split_url
   \<Rightarrow> resolver \<Rightarrow> resolver \<times> (nat \<times> json) option" where
  "admin_route ad cfg show_ts loads now r u s =
     (let path = (let p = rstrip_chars ''/'' (request_path u) in if p = [] then ''/'' else p); verb = hr_method r
      in if (path = ''/observations'' \<or> path = ''/callbacks'') \<and> verb = ''GET'' then
           (s, Some (200, observations_page show_ts (admin_int (query_first ''since'' (su_query u)) 0)
                 (min (admin_int (query_first ''limit'' (su_query u)) 1000) 5000) s))
         else if path = ''/hints'' \<and> verb = ''POST'' then
           (if hr_body r = [] then post_hints show_ts now (JObj []) s
            else case loads (hr_body r) of
                   None \<Rightarrow> (s, Some (400, JObj [(''error'', JStr ''invalid json'')]))
                 | Some doc \<Rightarrow> post_hints show_ts now doc s)
         else if path = ''/reset'' \<and> verb = ''POST'' then (store_reset s, Some (200, JObj [(''ok'', JBool True)]))
         else if path = ''/stats'' \<and> verb = ''GET'' then (s, Some (200, admin_stats show_ts ad cfg s))
         else if path = ''/healthz'' then (s, Some (200, JObj [(''ok'', JBool True)]))
         else (s, Some (404, JObj [(''error'', JStr ''not found''), (''path'', JStr path)])))"

definition refused_answer :: "string \<Rightarrow> bytes" where
  \<open>refused_answer date =
     http_response date 404 (latin1_encode (''{"error":"not found"}'' @ [CHR 0x0A])) ''application/json'' []\<close>

definition malformed_answer :: "string \<Rightarrow> bytes" where
  \<open>malformed_answer date =
     http_response date 400 (latin1_encode (''{"error":"bad request"}'' @ [CHR 0x0A])) ''application/json'' []\<close>

definition json_answer :: "(json \<Rightarrow> string) \<Rightarrow> string \<Rightarrow> nat \<Rightarrow> json \<Rightarrow> bytes" where
  "json_answer dumps date status doc =
     http_response date status (latin1_encode (dumps doc @ [CHR 0x0A])) ''application/json'' []"

definition admin_connection ::
  "admin \<Rightarrow> oob_config \<Rightarrow> (rat \<Rightarrow> string) \<Rightarrow> (bytes \<Rightarrow> json option) \<Rightarrow> (json \<Rightarrow> string) \<Rightarrow> string \<Rightarrow> rat
   \<Rightarrow> string \<Rightarrow> bytes \<Rightarrow> bool \<Rightarrow> nat \<Rightarrow> resolver \<Rightarrow> resolver \<times> bytes option" where
  "admin_connection ad cfg show_ts loads dumps date now peer input eof arrived s =
     (if \<not> admin_allows (ad_networks ad) peer then (s, Some (refused_answer date))
      else case read_request input eof arrived of
        Inl (NotHttp raw) \<Rightarrow> (s, Some (malformed_answer date))
      | Inl BadLength \<Rightarrow> (s, None)
      | Inr r \<Rightarrow>
          (case urlsplit (hr_target r) of
             None \<Rightarrow> (s, None)
           | Some u \<Rightarrow>
               (let (s1, answer) = admin_route ad cfg show_ts loads now r u s
                in (s1, map_option (\<lambda>(status, doc). json_answer dumps date status doc) answer))))"

end
