(* ===== verification/Web_Listener.thy ===== *)
theory Web_Listener
  imports Observations Http_Wire
begin

text \<open>
  \<open>platform/oob/src/edge_resolver/listeners/web.py\<close>: the HTTP and HTTPS listeners. A connection's
  outcome is the answer written and the calls of the recorder; what the handler logs and swallows is
  an outcome with neither. The name negotiated over TLS (\<open>sni\<close>) and the date of the answer are
  arguments.
\<close>

definition BODY :: bytes where "BODY = [0x6F, 0x6B, 0x0A]"

text \<open>The first 16 digits of the SHA-1 of the body, in quotes.\<close>

definition ETAG :: string where "ETAG = [CHR 0x22] @ ''92a949fd41844e1b'' @ [CHR 0x22]"

definition CACHE_HEADERS :: "(string, string) dict" where
  "CACHE_HEADERS =
     [(''Cache-Control'', ''public, max-age=300''), (''Accept-Ranges'', ''bytes''), (''ETag'', ETAG)]"

definition web_owned :: "string option \<Rightarrow> string \<Rightarrow> bool" where
  "web_owned host zone =
     (let name = strip_chars ''.'' (lower (str_or host []))
      in name \<noteq> [] \<and> (name = zone \<or> endswith name (CHR ''.'' # zone)))"

definition is_address :: "string \<Rightarrow> bool" where
  "is_address v = (ip_address v \<noteq> None)"

record web_outcome =
  wo_requests :: "request list"
  wo_answer :: "bytes option"

definition silent :: web_outcome where
  "silent = \<lparr>wo_requests = [], wo_answer = None\<rparr>"

section \<open>Bytes that are not HTTP\<close>

text \<open>\<open>repr\<close> of bytes.\<close>

definition repr_byte :: "nat \<Rightarrow> 8 word \<Rightarrow> string" where
  "repr_byte q b =
     (let n = unat b
      in if n = q \<or> n = 92 then [CHR 0x5C, char_of n]
         else if n = 9 then [CHR 0x5C, CHR ''t'']
         else if n = 10 then [CHR 0x5C, CHR ''n'']
         else if n = 13 then [CHR 0x5C, CHR ''r'']
         else if n < 32 \<or> 127 \<le> n then [CHR 0x5C, CHR ''x''] @ hex_byte n
         else [char_of n])"

definition repr_bytes :: "bytes \<Rightarrow> string" where
  "repr_bytes bs =
     (let q = (if 39 \<in> set bs \<and> 34 \<notin> set bs then 34 else 39)
      in CHR ''b'' # char_of q # concat (map (repr_byte q) bs) @ [char_of q])"

definition bad_answer :: "string \<Rightarrow> bytes" where
  "bad_answer date = http_response date 400 [] ''text/plain; charset=utf-8'' [(''Connection'', ''close'')]"

definition candidate_of :: "string \<Rightarrow> string option \<Rightarrow> candidate" where
  "candidate_of source v = \<lparr>cd_source = source, cd_value = str_or v []\<rparr>"

definition web_malformed ::
  "oob_config \<Rightarrow> string \<Rightarrow> string option \<Rightarrow> string \<Rightarrow> bytes \<Rightarrow> request" where
  "web_malformed cfg channel sni peer raw =
     \<lparr>rq_channel = channel, rq_source_ip = peer,
      rq_candidates = [candidate_of ''host_header'' (host_label sni (owned_zone cfg))],
      rq_raw = channel @ '' non-http bytes: '' @ repr_bytes (take 512 raw), rq_host = sni,
      rq_detail = [(''malformed'', JBool True), (''server_name'', opt_json sni)],
      rq_owned = (if truthy sni then Some (web_owned sni (owned_zone cfg)) else None)\<rparr>"

section \<open>Requests\<close>

text \<open>The name the payload asked for: a host that is no address, else the negotiated name.\<close>

definition wanted_name :: "string \<Rightarrow> string option \<Rightarrow> string" where
  "wanted_name header_host sni =
     (let hostname = (if header_host = [] then [] else strip_chars ''.'' (lower (before (CHR '':'') header_host)))
      in if hostname \<noteq> [] \<and> \<not> is_address hostname then hostname else str_or sni hostname)"

definition web_request ::
  "oob_config \<Rightarrow> string \<Rightarrow> string option \<Rightarrow> string \<Rightarrow> http_request \<Rightarrow> split_url \<Rightarrow> request" where
  "web_request cfg channel sni peer r u =
     (let header_host = request_host r u; wanted = wanted_name header_host sni; zone = owned_zone cfg
      in \<lparr>rq_channel = channel, rq_source_ip = peer,
          rq_candidates =
            [candidate_of ''host_header'' (host_label (Some wanted) zone),
             candidate_of ''path_segment'' (first_path_segment (Some (request_path u))),
             candidate_of ''query_t'' (query_token (Some (su_query u)))],
          rq_raw = hr_head_text r, rq_host = falsy_none wanted,
          rq_detail =
            [(''method'', JStr (hr_method r)), (''target'', JStr (hr_target r)), (''host'', JStr header_host),
             (''server_name'', opt_json sni), (''user_agent'', JStr (user_agent r)),
             (''body_len'', JInt (int (length (hr_body r))))],
          rq_owned = (if wanted = [] then None else Some (web_owned (Some wanted) zone))\<rparr>)"

definition ok_answer :: "string \<Rightarrow> string \<Rightarrow> bytes" where
  "ok_answer date verb =
     http_response date 200 (if verb = ''HEAD'' then [] else BODY) ''text/plain; charset=utf-8''
       (foldl (\<lambda>d (k, v). dict_set k v d) [] (CACHE_HEADERS @ [(''Content-Length'', dec_digits (length BODY))]))"

definition web_connection ::
  "oob_config \<Rightarrow> string \<Rightarrow> string \<Rightarrow> string option \<Rightarrow> string \<Rightarrow> bytes \<Rightarrow> bool \<Rightarrow> nat \<Rightarrow> web_outcome" where
  "web_connection cfg date channel sni peer s eof arrived =
     (case read_request s eof arrived of
        Inl (NotHttp raw) \<Rightarrow>
          if raw \<noteq> [] \<or> truthy sni
          then \<lparr>wo_requests = [web_malformed cfg channel sni peer raw], wo_answer = Some (bad_answer date)\<rparr>
          else silent
      | Inl BadLength \<Rightarrow> silent
      | Inr r \<Rightarrow>
          (case urlsplit (hr_target r) of
             None \<Rightarrow> silent
           | Some u \<Rightarrow>
               \<lparr>wo_requests = [web_request cfg channel sni peer r u],
                wo_answer = Some (ok_answer date (hr_method r))\<rparr>))"

end
