(* ===== verification/Web_Facts.thy ===== *)
theory Web_Facts
  imports Web_Listener Observation_Facts
begin

text \<open>
  The web listeners: the answer is constant, which connections are recorded and answered, and a
  payload that fetches a planted name is found under its identifier, from the octets on the wire to
  the observation in the store.
\<close>

section \<open>Addresses\<close>

lemma planted_no_address:
  assumes "planted_ok t n" and "host_name zone"
  shows "\<not> is_address (planted_word t n @ CHR ''.'' # zone)"
proof -
  let ?w = "planted_word t n" and ?h = "planted_word t n @ CHR ''.'' # zone"
  note w = planted_word_host [OF assms]
  have "4 \<le> length ?w"
    using assms(1) by (auto simp: planted_ok_def planted_word_def is_label_def split: option.splits)
  then have "dec_octet ?w = None" by (simp add: dec_octet_def)
  moreover have "split_char (CHR ''.'') ?h = ?w # split_char (CHR ''.'') zone"
    using w(2) by (simp add: split_char_append)
  ultimately have "parse_v4 ?h = None" by (simp add: parse_v4_def)
  moreover have "CHR '':'' \<notin> set ?h" "CHR ''%'' \<notin> set ?h"
  proof -
    have "\<not> is_lower_alnum (CHR ''%'')" by code_simp
    then show "CHR ''%'' \<notin> set ?h" using w(1) unfolding host_name_def list_all_iff by fastforce
  qed (use host_name_char(2) [OF w(1)] in blast)
  then have "parse_v6 ?h = None"
    by (simp add: parse_v6_def v6_number_def v6_parts_def split_char_none)
  ultimately show ?thesis by (simp add: is_address_def ip_address_def)
qed

section \<open>Reading what was written\<close>

definition header_key :: "string \<Rightarrow> string" where
  "header_key l = lower (strip (before (CHR '':'') l))"

lemma read_headers_other:
  assumes "\<forall>l\<in>set ls. header_key l \<noteq> k"
  shows "dict_get (read_headers ls d) k = dict_get d k"
  using assms by (induction ls d rule: read_headers.induct) (auto simp: Let_def header_key_def)

definition fetch_lines :: "string \<Rightarrow> string \<Rightarrow> string \<Rightarrow> string list \<Rightarrow> string list" where
  "fetch_lines verb target host hs = (verb @ '' '' @ target @ '' HTTP/1.1'') # (''Host: '' @ host) # hs"

text \<open>A method, a target that starts at the root, and further lines that speak of something else.\<close>

definition plain_fetch :: "string \<Rightarrow> string \<Rightarrow> string list \<Rightarrow> bool" where
  "plain_fetch verb target hs \<longleftrightarrow>
     verb \<noteq> [] \<and> list_all is_alpha verb
     \<and> startswith target ''/'' \<and> \<not> startswith target ''//'' \<and> list_all (\<lambda>c. 32 < code c) target
     \<and> list_all wire_line hs
     \<and> list_all (\<lambda>l. header_key l \<notin> {''host'', ''content-length'', ''transfer-encoding''}) hs"

lemma alpha_char: "is_alpha c \<Longrightarrow> 64 < code c"
  by (auto simp: is_alpha_def Let_def)

lemma request_line_split:
  assumes "plain_fetch verb target hs"
  shows "split_char (CHR '' '') (verb @ '' '' @ target @ '' HTTP/1.1'') = [verb, target, ''HTTP/1.1'']"
    and "wire_line (verb @ '' '' @ target @ '' HTTP/1.1'')"
proof -
  have v: "\<forall>c\<in>set verb. 64 < code c" and t: "\<forall>c\<in>set target. 32 < code c"
    using assms alpha_char by (auto simp: plain_fetch_def list_all_iff)
  have low: "code (CHR '' '') = 32" "code (CHR 0x0D) = 13" "code (CHR 0x0A) = 10" by code_simp+
  have "CHR '' '' \<notin> set verb" "CHR '' '' \<notin> set target" using v t low by force+
  then show "split_char (CHR '' '') (verb @ '' '' @ target @ '' HTTP/1.1'') = [verb, target, ''HTTP/1.1'']"
    by (simp add: split_char_append)
  have "CHR 0x0D \<notin> set verb \<union> set target" "CHR 0x0A \<notin> set verb \<union> set target" using v t low by force+
  then show "wire_line (verb @ '' '' @ target @ '' HTTP/1.1'')" by (simp add: wire_line_def)
qed

lemma read_host_line:
  assumes "\<forall>c\<in>set host. \<not> is_space c"
  shows "read_headers ((''Host: '' @ host) # ls) [] = read_headers ls [(''host'', host)]"
proof -
  have "lower (strip ''Host'') = ''host''" "\<not> is_space (CHR ''H'')" "is_space (CHR '' '')" by code_simp+
  moreover have "strip host = host" by (rule strip_where_none [OF assms])
  moreover have "before (CHR '':'') (''Host: '' @ host) = ''Host''" "after (CHR '':'') (''Host: '' @ host) = '' '' @ host"
    using before_append [of "CHR '':''" "''Host''"] after_append [of "CHR '':''" "''Host''"] by simp_all
  moreover have "strip (''Host: '' @ host) \<noteq> []"
    using \<open>\<not> is_space (CHR ''H'')\<close> by (simp add: strip_where_def rstrip_where_def)
  ultimately show ?thesis by (simp add: strip_where_def dict_set_def dict_get_def)
qed

text \<open>The head of some lines, parsed.\<close>

definition wire_text :: "string list \<Rightarrow> string" where
  "wire_text ls = concat (map (\<lambda>l. l @ [CHR 0x0D, CHR 0x0A]) ls) @ [CHR 0x0D, CHR 0x0A]"

lemma parse_head_wire:
  assumes "ls \<noteq> []" and "list_all wire_line ls" and "length (wire_lines ls) + 2 \<le> HEAD_LIMIT"
    and "split_char (CHR '' '') (hd ls) = [verb, target, version]" and "verb \<noteq> []" and "list_all is_alpha verb"
  shows "parse_head (wire_lines ls @ CRLF) = Inr \<lparr>hr_method = upper verb, hr_target = target, hr_version = version,
    hr_headers = read_headers (tl ls @ [[], []]) [], hr_body = [], hr_head_text = strip (wire_text ls)\<rparr>"
proof -
  have encoded: "wire_lines ls @ CRLF = latin1_encode (wire_text ls)"
    by (simp add: wire_lines_def wire_text_def CRLF_def code_def)
  have "take HEAD_LIMIT (wire_lines ls @ CRLF) = wire_lines ls @ CRLF" using assms(3) by (simp add: CRLF_def)
  then have whole: "latin1 (take HEAD_LIMIT (wire_lines ls @ CRLF)) = wire_text ls"
    by (simp only: encoded latin1_encode_inverse)
  have pieces: "split_char (CHR 0x0A) (crlf_to_lf (wire_text ls)) = ls @ [[], []]"
    unfolding wire_text_def by (rule lines_of_wire [OF assms(2)])
  have first: "hd (ls @ [[], []]) = hd ls" and rest: "tl (ls @ [[], []]) = tl ls @ [[], []]"
    using assms(1) by simp_all
  show ?thesis
    unfolding parse_head_def Let_def whole pieces first rest assms(4) using assms(5,6) by simp
qed

lemma read_request_wire:
  assumes "ls \<noteq> []" and "list_all wire_line ls" and "length (wire_lines ls) + 2 \<le> HEAD_LIMIT"
    and "parse_head (wire_lines ls @ CRLF) = Inr r"
  shows "read_request (wire_lines ls @ CRLF @ body) eof arrived
    = bindE (read_http_body (hr_headers r) body arrived) (\<lambda>b. Inr (r\<lparr>hr_body := b\<rparr>))"
proof -
  have "length (wire_lines ls) \<le> STREAM_LIMIT" using assms(3) by (simp add: HEAD_LIMIT_def STREAM_LIMIT_def)
  then have "read_head (wire_lines ls @ CRLF @ body) eof = (wire_lines ls @ CRLF, body)"
    by (rule read_head_wire [OF assms(1,2)])
  moreover have "CRLF \<noteq> []" by (simp add: CRLF_def)
  ultimately show ?thesis using assms(4) by (simp add: read_request_def bindE_def)
qed

lemma read_fetch:
  assumes "plain_fetch verb target hs" and "wire_line host" and "\<forall>c\<in>set host. \<not> is_space c"
    and "length (wire_lines (fetch_lines verb target host hs)) + 2 \<le> HEAD_LIMIT"
  shows "\<exists>r. read_request (wire_lines (fetch_lines verb target host hs) @ CRLF @ body) eof arrived = Inr r
    \<and> hr_method r = upper verb \<and> hr_target r = target \<and> get_or (dict_get (hr_headers r) ''host'') [] = host"
proof -
  let ?ls = "fetch_lines verb target host hs"
  note line = request_line_split [OF assms(1)]
  have wire: "list_all wire_line ?ls" "?ls \<noteq> []"
    using assms(1,2) line(2) by (auto simp: fetch_lines_def plain_fetch_def wire_line_def)
  have first: "hd ?ls = verb @ '' '' @ target @ '' HTTP/1.1''"
    and rest: "tl ?ls @ [[], []] = (''Host: '' @ host) # hs @ [[], []]"
    by (simp_all add: fetch_lines_def)
  have keys: "\<forall>l\<in>set (hs @ [[], []]). header_key l \<notin> {''host'', ''content-length'', ''transfer-encoding''}"
  proof -
    have "header_key [] = []" by code_simp
    then show ?thesis using assms(1) by (auto simp: plain_fetch_def list_all_iff)
  qed
  let ?d = "read_headers (tl ?ls @ [[], []]) []"
  have get: "dict_get ?d k = dict_get [(''host'', host)] k"
    if "k \<in> {''host'', ''content-length'', ''transfer-encoding''}" for k
    unfolding rest read_host_line [OF assms(3)]
    using keys that by (intro read_headers_other) fastforce
  have "verb \<noteq> []" "list_all is_alpha verb" using assms(1) by (simp_all add: plain_fetch_def)
  note parsed = parse_head_wire [OF wire(2,1) assms(4) line(1) [folded first] this]
  have "\<not> contains [] ''chunked''" by code_simp
  then have "read_http_body ?d body arrived = Inr []"
    using get by (simp add: read_http_body_def get_or_def all_digits_def)
  then show ?thesis
    using get read_request_wire [OF wire(2,1) assms(4) parsed] by (simp add: bindE_def get_or_def)
qed

section \<open>From the wire to the store\<close>

text \<open>What the recorder does with the calls of a connection.\<close>

definition record_all :: "oob_config \<Rightarrow> rat \<Rightarrow> request list \<Rightarrow> resolver \<Rightarrow> resolver" where
  "record_all cfg now qs s = foldl (\<lambda>s q. record_request cfg q now s) s qs"

lemma record_heap:
  "\<exists>a. rs_heap (record_request cfg q now s) = rs_heap s @ [(new_observation cfg q now a)\<lparr>ob_seq := rs_seq s + 1\<rparr>]"
  by (rule record_cases [of cfg q now s]) (auto simp: store_add_def Let_def)

lemma planted_host_wanted:
  assumes "planted_ok t n" and "host_name zone" and "lower h = planted_word t n @ CHR ''.'' # zone"
  shows "wanted_name h sni = lower h" and "wire_line h" and "\<forall>c\<in>set h. \<not> is_space c"
proof -
  let ?n = "planted_word t n @ CHR ''.'' # zone"
  note w = planted_word_host [OF assms(1,2)]
  have cs: "\<not> is_space c \<and> c \<noteq> CHR '':''" if "c \<in> set h" for c
    using lower_eq_char [OF assms(3) that] host_name_char [OF w(1)] by blast
  then show "\<forall>c\<in>set h. \<not> is_space c" by blast
  have "is_space (CHR 0x0D)" "is_space (CHR 0x0A)" by code_simp+
  then show "wire_line h" using cs assms(3) by (auto simp: wire_line_def)
  have "CHR '':'' \<notin> set h" using cs by blast
  then have "before (CHR '':'') h = h" by (simp add: before_id)
  moreover have "strip_chars ''.'' ?n = ?n"
    using w(1,3,4) by (intro strip_where_ends) (simp add: host_name_def hd_append)
  moreover have "\<not> is_address ?n" by (rule planted_no_address [OF assms(1,2)])
  moreover have "h \<noteq> []" using assms(3) by auto
  ultimately show "wanted_name h sni = lower h" by (simp add: wanted_name_def Let_def assms(3))
qed

lemma planted_request:
  fixes cfg channel sni peer r u
  assumes "planted_ok t n" and "host_name (owned_zone cfg)"
    and "lower h = planted_word t n @ CHR ''.'' # owned_zone cfg" and "request_host r u = h"
  defines "q \<equiv> web_request cfg channel sni peer r u"
  shows "ex_token (extract_token (rq_candidates q)) = Some t" and "ex_nonce (extract_token (rq_candidates q)) = n"
    and "rq_owned q = Some True" and "rq_host q = Some (lower h)" and "rq_source_ip q = peer" and "rq_channel q = channel"
proof -
  let ?z = "owned_zone cfg" and ?c = "\<lparr>cd_source = ''host_header'', cd_value = planted_word t n\<rparr>"
  note w = planted_host_wanted [OF assms(1-3)] and p = planted_word_host [OF assms(1,2)]
  have label: "host_label (Some (lower h)) ?z = Some (planted_word t n)"
    using host_label_planted [OF assms(1,2), of "lower h"] assms(3) lower_idem [of h] by metis
  have ne: "lower h \<noteq> []" using assms(3) by simp
  obtain others where others: "rq_candidates q = ?c # others"
    and "\<forall>d\<in>set others. cd_source d \<in> {''path_segment'', ''query_t''}"
    using label p(3) by (simp add: q_def web_request_def Let_def assms(4) w(1) candidate_of_def str_or_def)
  then have "\<forall>d\<in>set others. (cd_rank ?c, cd_source ?c) \<le> (cd_rank d, cd_source d)"
    by (auto simp: cd_rank_def SOURCE_RANK_def get_or_def less_eq_prod_def)
  then show "ex_token (extract_token (rq_candidates q)) = Some t" "ex_nonce (extract_token (rq_candidates q)) = n"
    using extract_first [of ?c t n others] parse_planted [OF assms(1,2)] others by simp_all
  have "strip_chars ''.'' (lower h) = lower h"
    unfolding assms(3) using p by (intro strip_where_ends) (simp add: host_name_def hd_append)
  moreover have "endswith (lower h) (CHR ''.'' # ?z)" by (auto simp: assms(3) endswith_iff)
  ultimately have "web_owned (Some (lower h)) ?z"
    using ne by (simp add: web_owned_def Let_def str_or_def)
  then show "rq_owned q = Some True" using ne by (simp add: q_def web_request_def Let_def assms(4) w(1))
  show "rq_host q = Some (lower h)" "rq_source_ip q = peer" "rq_channel q = channel"
    using ne by (simp_all add: q_def web_request_def Let_def assms(4) w(1) falsy_none_def)
qed


definition web_cfg :: oob_config where
  "web_cfg =
     \<lparr>cf_zone = ''Oob.Test.'', cf_telemetry_host = None, cf_app = ''edge-resolver'', cf_public_ip = None, cf_dns_ttl = 30,
      cf_internal_names = [], cf_denylist = [], cf_synthetic = [], cf_known_tokens = [], cf_mail_name = []\<rparr>"

abbreviation planted_lines :: "string list" where
  "planted_lines \<equiv> fetch_lines ''POST'' ''/blog0007/x?t=blog0008'' ''ShOp0031-9f2c.oob.TEST'' [''Accept: a/b'']"


section \<open>Which connections are noted\<close>

text \<open>Something arrived, or a name was negotiated.\<close>

definition heard :: "string option \<Rightarrow> bytes \<Rightarrow> bool \<Rightarrow> bool" where
  "heard sni s eof \<longleftrightarrow>
     truthy sni \<or> s \<noteq> [] \<and> (eof \<or> head_end s \<noteq> None \<or> STREAM_LIMIT + 3 < length s)"

text \<open>A request whose target \<open>urlsplit\<close> refuses, or whose length is made of digits \<open>int\<close> refuses.\<close>

definition unreadable :: "bytes \<Rightarrow> bool \<Rightarrow> bool" where
  "unreadable s eof \<longleftrightarrow>
     (case parse_head (fst (read_head s eof)) of
        Inl e \<Rightarrow> False
      | Inr r \<Rightarrow> urlsplit (hr_target r) = None
          \<or> (let v = get_or (dict_get (hr_headers r) ''content-length'') []
             in all_digits v \<and> \<not> (list_all (\<lambda>c. 48 \<le> code c \<and> code c \<le> 57) v \<and> length v \<le> 4300)))"

lemma read_http_body_iff:
  "read_http_body headers rest arrived = Inl e \<longleftrightarrow>
     e = BadLength
     \<and> (let v = get_or (dict_get headers ''content-length'') []
        in all_digits v \<and> \<not> (list_all (\<lambda>c. 48 \<le> code c \<and> code c \<le> 57) v \<and> length v \<le> 4300))"
  by (auto simp: read_http_body_def want_length_def bindE_def Let_def)

lemma head_empty_iff:
  "fst (read_head s eof) = [] \<longleftrightarrow> \<not> (s \<noteq> [] \<and> (eof \<or> head_end s \<noteq> None \<or> STREAM_LIMIT + 3 < length s))"
  by (cases s) (auto simp: read_head_def HEAD_LIMIT_def STREAM_LIMIT_def split: option.split)

lemma parse_head_error: "parse_head h = Inl e \<Longrightarrow> e = NotHttp (take HEAD_LIMIT h)"
  by (auto simp: parse_head_def Let_def split: if_splits)

lemma parse_head_empty: "parse_head [] = Inl (NotHttp [])"
  by code_simp

text \<open>A connection gives at most one observation, and is answered exactly when it gives one; this is so
  exactly when something arrived on it (or a name was negotiated) and it is not a request whose target or
  length Python refuses to read.\<close>

theorem web_noted_iff:
  "let w = web_connection cfg date channel sni peer s eof arrived
   in length (wo_requests w) \<le> 1 \<and> (wo_answer w \<noteq> None \<longleftrightarrow> wo_requests w \<noteq> [])
      \<and> (wo_requests w \<noteq> [] \<longleftrightarrow> heard sni s eof \<and> \<not> unreadable s eof)"
proof (cases "read_request s eof arrived")
  case (Inl e)
  then consider (silent_peer) "e = NotHttp []" "fst (read_head s eof) = []"
    | (malformed) "fst (read_head s eof) \<noteq> []" "parse_head (fst (read_head s eof)) = Inl e"
    | (lost) r where "fst (read_head s eof) \<noteq> []" "parse_head (fst (read_head s eof)) = Inr r"
        "read_http_body (hr_headers r) (snd (read_head s eof)) arrived = Inl e"
    by (auto simp: read_request_def case_prod_beta bindE_def split: if_splits sum.splits)
  then show ?thesis
  proof cases
    case silent_peer
    then show ?thesis
      using Inl head_empty_iff [of s eof] parse_head_empty
      by (auto simp: web_connection_def silent_def heard_def unreadable_def)
  next
    case malformed
    then show ?thesis
      using Inl head_empty_iff [of s eof] parse_head_error [OF malformed(2)]
      by (auto simp: web_connection_def silent_def heard_def unreadable_def HEAD_LIMIT_def)
  next
    case lost
    then show ?thesis
      using Inl by (auto simp: web_connection_def silent_def unreadable_def read_http_body_iff Let_def)
  qed
next
  case (Inr r)
  then obtain r0 where r0: "parse_head (fst (read_head s eof)) = Inr r0" "hr_target r = hr_target r0"
    "fst (read_head s eof) \<noteq> []" "\<nexists>e. read_http_body (hr_headers r0) (snd (read_head s eof)) arrived = Inl e"
    by (auto simp: read_request_def case_prod_beta bindE_def split: if_splits sum.splits)
  have "heard sni s eof" using r0(3) head_empty_iff [of s eof] by (auto simp: heard_def)
  moreover have "unreadable s eof \<longleftrightarrow> urlsplit (hr_target r) = None"
    using r0 by (auto simp: unreadable_def read_http_body_iff)
  ultimately show ?thesis using Inr by (auto simp: web_connection_def silent_def split: option.split)
qed

text \<open>The answer tells nothing: the same octets get the same answer whatever zone the node owns, on
  either channel and for every peer, and a name negotiated over TLS matters only by being there; there are
  three answers in all, two of them without a body.\<close>

theorem web_answer_constant:
  "\<exists>f. \<forall>cfg channel sni peer.
     wo_answer (web_connection cfg date channel sni peer s eof arrived) = f (truthy sni)
     \<and> f (truthy sni) \<in> {None, Some (bad_answer date), Some (ok_answer date ''GET''), Some (ok_answer date ''HEAD'')}"
proof -
  define f where "f named =
     (case read_request s eof arrived of
        Inl (NotHttp raw) \<Rightarrow> if raw \<noteq> [] \<or> named then Some (bad_answer date) else None
      | Inl BadLength \<Rightarrow> None
      | Inr r \<Rightarrow> if urlsplit (hr_target r) = None then None else Some (ok_answer date (hr_method r)))" for named
  have "ok_answer date verb \<in> {ok_answer date ''GET'', ok_answer date ''HEAD''}" for verb
    by (simp add: ok_answer_def)
  then have "f named \<in> {None, Some (bad_answer date), Some (ok_answer date ''GET''), Some (ok_answer date ''HEAD'')}" for named
    by (simp add: f_def split: sum.split http_error.split)
  moreover have "wo_answer (web_connection cfg date channel sni peer s eof arrived) = f (truthy sni)" for cfg channel sni peer
    by (simp add: f_def web_connection_def silent_def split: sum.split http_error.split option.split)
  ultimately show ?thesis by blast
qed

section \<open>Requests that are lost\<close>

lemma bad_target_unnoted:
  "web_connection cfg date channel sni peer (wire_lines [''GET http://[x/ HTTP/1.1'', ''Host: shop0031.oob.test''] @ CRLF @ body) eof arrived = silent"
proof -
  let ?ls = "[''GET http://[x/ HTTP/1.1'', ''Host: shop0031.oob.test'']"
  have ls: "?ls \<noteq> []" "list_all wire_line ?ls" "length (wire_lines ?ls) + 2 \<le> HEAD_LIMIT"
    by simp (code_simp, simp add: wire_lines_def HEAD_LIMIT_def)
  have "split_char (CHR '' '') (hd ?ls) = [''GET'', ''http://[x/'', ''HTTP/1.1'']" "list_all is_alpha ''GET''"
    "upper ''GET'' = ''GET''" "dict_get (read_headers (tl ?ls @ [[], []]) []) ''content-length'' = None"
    "dict_get (read_headers (tl ?ls @ [[], []]) []) ''transfer-encoding'' = None" "\<not> contains [] ''chunked''"
    "urlsplit ''http://[x/'' = None"
    by code_simp+
  then show ?thesis
    using read_request_wire [OF ls parse_head_wire [OF ls], of "''GET''" "''http://[x/''" "''HTTP/1.1''" body eof arrived]
    by (simp add: web_connection_def read_http_body_def get_or_def all_digits_def bindE_def del: read_headers.simps)
qed

lemma bad_length_unnoted:
  "web_connection cfg date channel sni peer (wire_lines [''GET / HTTP/1.1'', ''Content-Length: '' @ [CHR 0xB2]] @ CRLF @ body) eof arrived = silent"
proof -
  let ?ls = "[''GET / HTTP/1.1'', ''Content-Length: '' @ [CHR 0xB2]]"
  have ls: "?ls \<noteq> []" "list_all wire_line ?ls" "length (wire_lines ?ls) + 2 \<le> HEAD_LIMIT"
    by simp (code_simp, simp add: wire_lines_def HEAD_LIMIT_def)
  have "split_char (CHR '' '') (hd ?ls) = [''GET'', ''/'', ''HTTP/1.1'']" "list_all is_alpha ''GET''"
    "dict_get (read_headers (tl ?ls @ [[], []]) []) ''content-length'' = Some [CHR 0xB2]"
    "all_digits [CHR 0xB2]" "want_length [CHR 0xB2] = Inl BadLength"
    by code_simp+
  then show ?thesis
    using read_request_wire [OF ls parse_head_wire [OF ls], of "''GET''" "''/''" "''HTTP/1.1''" body eof arrived]
    by (simp add: web_connection_def read_http_body_def get_or_def bindE_def del: read_headers.simps)
qed

end
