(* ===== verification/Admin_Facts.thy ===== *)
theory Admin_Facts
  imports Admin_Listener Web_Facts
begin

text \<open>
  The internal API: which addresses reach it, what it can change, and the page a poll gets.
\<close>

section \<open>Who is heard\<close>

definition loopback :: "address \<Rightarrow> bool" where
  "loopback a = (case a of V4 n \<Rightarrow> n div 16777216 = 127 | V6 n scope \<Rightarrow> n = 1)"

definition address_v4 :: "string \<Rightarrow> bool" where
  "address_v4 a = (case ip_address a of Some (V4 n) \<Rightarrow> True | _ \<Rightarrow> False)"

lemma loopback_networks: "list_ex (in_network a) [Net4 2130706432 8, Net6 1 128] = loopback a"
  by (cases a) (simp_all add: in_network_def loopback_def)

lemma platform_v4:
  assumes "list_all address_v4 platform"
  shows "list_ex (in_network a) (List.map_filter platform_network platform)
    = (\<exists>p\<in>set platform. ip_address p = Some a)"
  using assms
proof (induction platform)
  case (Cons p ps)
  then obtain n where p: "ip_address p = Some (V4 n)"
    by (auto simp: address_v4_def split: option.splits address.splits)
  have "in_network a (Net4 n 32) = (ip_address p = Some a)"
    by (cases a) (auto simp: in_network_def p)
  then show ?case using Cons by (simp add: map_filter_simps platform_network_def p)
qed (simp add: map_filter_simps)

text \<open>With no networks set by hand and a platform of IPv4 addresses, the internal API listens to the
  loopback, to what counts as the platform's own traffic and to the platform's addresses; every other caller
  changes nothing and gets one constant answer, whatever it sends.\<close>

theorem admin_heard_iff:
  fixes cfg platform ad
  defines "door \<equiv> ad\<lparr>ad_networks := admin_networks cfg [] platform\<rparr>"
  assumes "list_all address_v4 platform"
  shows "(admin_allows (ad_networks door) peer \<longleftrightarrow>
      (\<exists>a. ip_address peer = Some a
         \<and> (loopback a \<or> synthetic_source cfg peer \<or> (\<exists>p\<in>set platform. ip_address p = Some a))))
    \<and> (admin_allows (ad_networks door) peer
       \<or> admin_connection door cfg show_ts loads dumps date now peer input eof arrived s = (s, Some (refused_answer date)))"
proof -
  have "admin_allows (ad_networks door) peer \<longleftrightarrow>
      (\<exists>a. ip_address peer = Some a \<and> list_ex (in_network a) (admin_networks cfg [] platform))"
    by (simp add: admin_allows_def door_def admin_networks_def split: option.split)
  moreover have "list_ex (in_network a) (admin_networks cfg [] platform) \<longleftrightarrow>
      loopback a \<or> list_ex (in_network a) (cf_synthetic cfg) \<or> (\<exists>p\<in>set platform. ip_address p = Some a)" for a
    using loopback_networks [of a] platform_v4 [OF assms(2), of a] by (auto simp: admin_networks_def)
  moreover have "synthetic_source cfg peer = list_ex (in_network a) (cf_synthetic cfg)" if "ip_address peer = Some a" for a
    using that by (simp add: synthetic_source_def)
  ultimately show ?thesis by (auto simp: admin_connection_def)
qed

lemma admin_heard_iff_witness:
  "\<forall>ad show_ts loads dumps date now input eof arrived s.
     admin_allows (admin_networks web_cfg [] [''10.5.0.2'']) ''10.5.0.2''
     \<and> admin_connection (ad\<lparr>ad_networks := admin_networks web_cfg [] [''10.5.0.2'']\<rparr>) web_cfg show_ts loads dumps date now
         ''10.5.0.3'' input eof arrived s = (s, Some (refused_answer date))"
proof (intro allI)
  fix ad show_ts loads dumps date now input eof arrived s
  have v4: "list_all address_v4 [''10.5.0.2'']" by code_simp
  have addresses: "ip_address ''10.5.0.2'' = Some (V4 168099842)" "ip_address ''10.5.0.3'' = Some (V4 168099843)"
    "\<not> synthetic_source web_cfg ''10.5.0.3''" by code_simp+
  show "admin_allows (admin_networks web_cfg [] [''10.5.0.2'']) ''10.5.0.2''
     \<and> admin_connection (ad\<lparr>ad_networks := admin_networks web_cfg [] [''10.5.0.2'']\<rparr>) web_cfg show_ts loads dumps date now
         ''10.5.0.3'' input eof arrived s = (s, Some (refused_answer date))"
    using admin_heard_iff [OF v4, where ad = ad and cfg = web_cfg and peer = "''10.5.0.2''"
          and show_ts = show_ts and loads = loads and dumps = dumps and date = date and now = now and input = input
          and eof = eof and arrived = arrived and s = s]
      admin_heard_iff [OF v4, where ad = ad and cfg = web_cfg and peer = "''10.5.0.3''"
          and show_ts = show_ts and loads = loads and dumps = dumps and date = date and now = now and input = input
          and eof = eof and arrived = arrived and s = s]
    by (auto simp: addresses loopback_def)
qed

text \<open>With an IPv6 address of the platform its prefix of 32 bits gets in.\<close>

lemma admin_wide_v6:
  "admin_allows (admin_networks web_cfg [] [''fd00:0:1::5'']) ''fd00:0:ffff::99''"
  by code_simp

text \<open>A caller that is refused does not get what an unknown path gets.\<close>

lemma response_ends_in_body: "\<exists>h. http_response date status body kind extra = h @ body"
  by (simp add: http_response_def)

lemma refused_not_unknown:
  assumes \<open>dumps (JObj [(''error'', JStr ''not found''), (''path'', JStr ''/x'')]) = ''{"error": "not found", "path": "/x"}''\<close>
  shows "refused_answer date \<noteq> json_answer dumps date 404 (JObj [(''error'', JStr ''not found''), (''path'', JStr ''/x'')])"
proof
  let ?a = \<open>latin1_encode (''{"error":"not found"}'' @ [CHR 0x0A])\<close>
    and ?b = \<open>latin1_encode (''{"error": "not found", "path": "/x"}'' @ [CHR 0x0A])\<close>
  assume "refused_answer date = json_answer dumps date 404 (JObj [(''error'', JStr ''not found''), (''path'', JStr ''/x'')])"
  then obtain h k where "h @ ?a = k @ ?b"
    unfolding refused_answer_def json_answer_def assms using response_ends_in_body by metis
  then have "take 4 (rev (h @ ?a)) = take 4 (rev (k @ ?b))" by (rule arg_cong)
  then have "take 4 (rev ?a) = take 4 (rev ?b)" by simp
  moreover have "take 4 (rev ?a) \<noteq> take 4 (rev ?b)" by code_simp
  ultimately show False by contradiction
qed

section \<open>What it changes\<close>

lemma post_hints_state:
  "fst (post_hints show_ts now doc s) = s
   \<or> (\<exists>ps. fst (post_hints show_ts now doc s) = s\<lparr>rs_index := fst (add_payloads show_ts now ps (rs_index s))\<rparr>)"
  by (cases doc) (auto simp: post_hints_def case_prod_beta Let_def)

lemma admin_route_state:
  fixes r u
  defines "path \<equiv> rstrip_chars ''/'' (request_path u)"
  shows "fst (admin_route ad cfg show_ts loads now r u s) = s
    \<or> (hr_method r = ''POST''
       \<and> ((path = ''/reset'' \<and> fst (admin_route ad cfg show_ts loads now r u s) = store_reset s)
          \<or> (path = ''/hints''
             \<and> (\<exists>ps. fst (admin_route ad cfg show_ts loads now r u s)
                  = s\<lparr>rs_index := fst (add_payloads show_ts now ps (rs_index s))\<rparr>))))"
proof (cases "hr_method r = ''POST'' \<and> path = ''/hints''")
  case True
  then show ?thesis
    using post_hints_state [of show_ts now _ s]
    by (auto simp: admin_route_def Let_def path_def split: option.split)
next
  case False
  then show ?thesis by (auto simp: admin_route_def Let_def path_def)
qed

lemma store_reset_run: "resolver_run cfg s (store_reset s)"
  by (rule run_step [OF run_refl emptied])

lemma hints_run: "resolver_run cfg s (s\<lparr>rs_index := fst (add_payloads show_ts now ps (rs_index s))\<rparr>)"
  using run_step [OF run_refl indexed [of cfg s undefined "AddPayloads show_ts now ps"]] by simp

text \<open>A connection to the internal API leaves everything as it is, or it came from an address that is
  allowed and posted to \<open>/reset\<close>, which empties the store, or to \<open>/hints\<close>, which only adds hints to the
  index; so it is one of the steps of the resolver, and what holds in every reachable state still does.\<close>

theorem admin_changes:
  fixes s input eof arrived ad cfg show_ts loads dumps date now peer
  defines "s' \<equiv> fst (admin_connection ad cfg show_ts loads dumps date now peer input eof arrived s)"
  shows "resolver_run cfg s s'
    \<and> (s' = s
       \<or> (admin_allows (ad_networks ad) peer
          \<and> (\<exists>r u. read_request input eof arrived = Inr r \<and> urlsplit (hr_target r) = Some u \<and> hr_method r = ''POST''
               \<and> ((rstrip_chars ''/'' (request_path u) = ''/reset'' \<and> s' = store_reset s)
                  \<or> (rstrip_chars ''/'' (request_path u) = ''/hints''
                     \<and> (\<exists>ps. s' = s\<lparr>rs_index := fst (add_payloads show_ts now ps (rs_index s))\<rparr>))))))"
proof -
  consider (same) "s' = s"
    | (routed) r u where "admin_allows (ad_networks ad) peer" "read_request input eof arrived = Inr r"
        "urlsplit (hr_target r) = Some u" "s' = fst (admin_route ad cfg show_ts loads now r u s)"
  proof (cases "admin_allows (ad_networks ad) peer")
    case allowed: True
    show thesis
    proof (cases "read_request input eof arrived")
      case (Inl e)
      then show thesis by (intro same) (simp add: s'_def admin_connection_def split: http_error.split)
    next
      case (Inr r)
      then show thesis
        using allowed same routed by (cases "urlsplit (hr_target r)") (simp_all add: s'_def admin_connection_def case_prod_beta)
    qed
  qed (simp add: s'_def admin_connection_def)
  then show ?thesis
  proof cases
    case same
    then show ?thesis by (simp add: run_refl)
  next
    case routed
    then show ?thesis
      using admin_route_state [of ad cfg show_ts loads now r u s] store_reset_run [of cfg s] hints_run [of cfg s show_ts now]
      by (auto simp: run_refl)
  qed
qed

section \<open>A page is asked for\<close>

lemma unpercent_plain: "CHR ''%'' \<notin> set s \<Longrightarrow> unpercent s = map code s"
  by (induction s rule: unpercent.induct) auto

lemma utf8_plain: "\<forall>n\<in>set ns. n < 128 \<Longrightarrow> utf8_points ns = ns"
  by (induction ns) (simp_all add: utf8_next_def)

lemma unquote_plain:
  assumes "CHR ''%'' \<notin> set s" and "\<forall>c\<in>set s. is_ascii c"
  shows "unquote s = s"
proof (cases s)
  case (Cons c t)
  have "char_of (code d) = d" for d by (simp add: code_def)
  then have "text_of (map code s) = s" by (simp add: text_of_def comp_def)
  moreover have "utf8_points (map code s) = map code s" using assms(2) by (intro utf8_plain) (auto simp: is_ascii_def)
  moreover have "takeWhile is_ascii s = s" "dropWhile is_ascii s = []"
    using assms(2) by (simp_all only: takeWhile_eq_all_conv dropWhile_eq_Nil_conv)
  moreover have "unquote s = text_of (utf8_points (unpercent (takeWhile is_ascii s))) @ unquote (dropWhile is_ascii s)"
    using assms(2) by (simp only: Cons unquote.simps) simp
  ultimately show ?thesis by (simp only: unpercent_plain [OF assms(1)] unquote.simps append_Nil2)
qed simp

text \<open>A text without the characters that mean something in a query.\<close>

definition plain_word :: "string \<Rightarrow> bool" where
  "plain_word s \<longleftrightarrow> s \<noteq> [] \<and> list_all (\<lambda>c. is_ascii c \<and> 32 < code c \<and> c \<notin> set ''%+&=?#/:'') s"

lemma plain_word_read: "plain_word s \<Longrightarrow> unquote (plus_to_space s) = s"
proof -
  assume "plain_word s"
  then have s: "\<forall>c\<in>set s. is_ascii c" "CHR ''%'' \<notin> set s" "CHR ''+'' \<notin> set s" by (auto simp: plain_word_def list_all_iff)
  have "map (\<lambda>c. if c = CHR ''+'' then CHR '' '' else c) s = s" by (rule map_idI) (use s(3) in auto)
  then show ?thesis using unquote_plain [OF s(2,1)] by (simp add: plus_to_space_def)
qed

lemma pair_read:
  assumes "plain_word k" and "plain_word v"
  shows "query_pairs (k @ CHR ''='' # v) = [(k, v)]"
    and "query_pairs (k @ CHR ''='' # v @ CHR ''&'' # q) = (k, v) # query_pairs q"
proof -
  have k: "CHR ''='' \<notin> set k" "CHR ''&'' \<notin> set k" "k \<noteq> []" and v: "CHR ''='' \<notin> set v" "CHR ''&'' \<notin> set v" "v \<noteq> []"
    using assms by (auto simp: plain_word_def list_all_iff)
  have one: "split_char (CHR ''&'') (k @ CHR ''='' # v) = [k @ CHR ''='' # v]" using k v by (intro split_char_none) simp
  have two: "split_char (CHR ''&'') ((k @ CHR ''='' # v) @ CHR ''&'' # q) = (k @ CHR ''='' # v) # split_char (CHR ''&'') q"
    using k v by (intro split_char_append) simp
  have "before (CHR ''='') (k @ CHR ''='' # v) = k" "after (CHR ''='') (k @ CHR ''='' # v) = v"
    using k by (simp_all add: before_append after_append)
  then show "query_pairs (k @ CHR ''='' # v) = [(k, v)]"
    "query_pairs (k @ CHR ''='' # v @ CHR ''&'' # q) = (k, v) # query_pairs q"
    using one two k v plain_word_read [OF assms(1)] plain_word_read [OF assms(2)]
    by (simp_all add: query_pairs_def map_filter_simps)
qed

lemma dec_char: "is_dec c \<Longrightarrow> is_ascii c \<and> 32 < code c \<and> \<not> is_space c \<and> c \<notin> set ''%+&=?#/:-_''"
  by (auto simp: is_dec_def is_ascii_def is_space_def Let_def code_def)

lemma digits_plain: "plain_word (dec_digits n)"
  using dec_digits_dec(1,2) [of n] dec_char by (fastforce simp: plain_word_def list_all_iff)

lemma int_of_digits: "int_of_text (dec_digits n) = Some (int n)"
proof -
  have d: "\<forall>c\<in>set (dec_digits n). is_dec c" using dec_digits_dec(1) [of n] by (simp add: list_all_iff)
  then have "strip (dec_digits n) = dec_digits n" using dec_char by (intro strip_where_none) blast
  moreover have "split_char (CHR ''_'') (dec_digits n) = [dec_digits n]" using d dec_char by (intro split_char_none) fastforce
  moreover have "\<not> startswith (dec_digits n) ''-''" "\<not> startswith (dec_digits n) ''+''"
    using d dec_char dec_digits_dec(2) [of n] by (cases "dec_digits n"; fastforce)+
  ultimately show ?thesis by (simp add: int_of_text_def)
qed

lemma admin_int_digits: "length (dec_digits n) \<le> 4300 \<Longrightarrow> admin_int (Some (dec_digits n)) m = int n"
  using dec_digits_dec(1) [of n] by (simp add: admin_int_def int_of_digits list_all_iff filter_id_conv)

text \<open>The target a client asks for the page after \<open>k\<close> with at most \<open>n\<close> observations.\<close>

definition page_target :: "nat \<Rightarrow> nat \<Rightarrow> string" where
  "page_target k n = ''/observations?since='' @ dec_digits k @ ''&limit='' @ dec_digits n"

lemma page_target_split:
  "startswith (page_target k n) ''/''" "\<not> startswith (page_target k n) ''//''"
  "list_all (\<lambda>c. 32 < code c) (page_target k n)"
  "urlsplit (page_target k n) = Some \<lparr>su_netloc = [], su_path = ''/observations'',
     su_query = ''since='' @ dec_digits k @ ''&limit='' @ dec_digits n\<rparr>"
proof -
  let ?d = "dec_digits k @ ''&limit='' @ dec_digits n"
  have d: "\<forall>c\<in>set (dec_digits m). is_dec c" for m using dec_digits_dec(1) [of m] by (simp add: list_all_iff)
  then have plain: "32 < code c" "c \<noteq> CHR ''#''" "c \<noteq> CHR ''?''" if "c \<in> set (dec_digits m)" for c m
    using that dec_char by fastforce+
  have lit: "list_all (\<lambda>c. 32 < code c) (''/observations?since='' @ ''&limit='')" by code_simp
  show r: "startswith (page_target k n) ''/''" "\<not> startswith (page_target k n) ''//''" by (simp_all add: page_target_def)
  show a: "list_all (\<lambda>c. 32 < code c) (page_target k n)" using lit plain(1) by (auto simp: page_target_def list_all_iff)
  have "CHR ''#'' \<notin> set (page_target k n)" using plain(2) by (auto simp: page_target_def)
  then have "before (CHR ''#'') (page_target k n) = page_target k n" by (rule before_id)
  moreover have "before (CHR ''?'') (page_target k n) = ''/observations''" "after (CHR ''?'') (page_target k n) = ''since='' @ ?d"
    using before_append [of "CHR ''?''" "''/observations''"] after_append [of "CHR ''?''" "''/observations''"]
    by (simp_all add: page_target_def)
  ultimately show "urlsplit (page_target k n) = Some \<lparr>su_netloc = [], su_path = ''/observations'', su_query = ''since='' @ ?d\<rparr>"
    using urlsplit_rooted [OF r] a by (simp add: list_all_iff)
qed

text \<open>A poll written on the wire gets the page it asks for: from an address that is allowed, the target
  for the observations after \<open>k\<close>, at most \<open>n\<close> of them, answers with those of the store, capped at 5000,
  with the cursor of the next page, and changes nothing.\<close>

theorem admin_page_served:
  assumes "admin_allows (ad_networks ad) peer" and "plain_fetch ''GET'' (page_target k n) hs"
    and "wire_line host" and "\<forall>c\<in>set host. \<not> is_space c"
    and "length (wire_lines (fetch_lines ''GET'' (page_target k n) host hs)) + 2 \<le> HEAD_LIMIT"
    and "length (dec_digits k) \<le> 4300" and "length (dec_digits n) \<le> 4300"
  shows "admin_connection ad cfg show_ts loads dumps date now peer
      (wire_lines (fetch_lines ''GET'' (page_target k n) host hs) @ CRLF @ body) eof arrived s
    = (s, Some (json_answer dumps date 200 (observations_page show_ts (int k) (min (int n) 5000) s)))"
proof -
  obtain r where r: "read_request (wire_lines (fetch_lines ''GET'' (page_target k n) host hs) @ CRLF @ body) eof arrived = Inr r"
    "hr_method r = ''GET''" "hr_target r = page_target k n"
    using read_fetch [OF assms(2,3,4,5), of body eof arrived] by (auto simp: upper_def upper_char_def code_def)
  let ?q = "''since='' @ dec_digits k @ ''&limit='' @ dec_digits n"
  have words: "plain_word ''since''" "plain_word ''limit''" by code_simp+
  have pairs: "query_pairs ?q = [(''since'', dec_digits k), (''limit'', dec_digits n)]"
    using pair_read(2) [OF words(1) digits_plain, of k "''limit='' @ dec_digits n"] pair_read(1) [OF words(2) digits_plain, of n]
    by simp
  then have args: "admin_int (query_first ''since'' ?q) 0 = int k" "admin_int (query_first ''limit'' ?q) 1000 = int n"
    using admin_int_digits assms(6,7) unfolding query_first_def pairs by simp_all
  let ?u = "\<lparr>su_netloc = [], su_path = ''/observations'', su_query = ?q\<rparr>"
  have path: "rstrip_chars ''/'' (request_path ?u) = ''/observations''"
  proof -
    have "unquote ''/observations'' = ''/observations''" "rstrip_chars ''/'' ''/observations'' = ''/observations''" by code_simp+
    then show ?thesis by (simp add: request_path_def)
  qed
  have "admin_route ad cfg show_ts loads now r ?u s
      = (s, Some (200, observations_page show_ts (int k) (min (int n) 5000) s))"
    unfolding admin_route_def path Let_def using r(2) args by simp
  then show ?thesis
    using assms(1) r page_target_split(4) [of k n] by (simp add: admin_connection_def)
qed

end
