(* ===== verification/Agent_Params.thy ===== *)
theory Agent_Params
  imports Tokens Sha256
begin

text \<open>
  \<open>sdk/python/src/telemetry_agent/_params.py\<close>: what the agent inside of a target says about the
  inputs of a request. A value is text or bytes; a described input carries its SHA-256, its length
  and a sample. \<open>json.loads\<close> of a body is a parameter, with what it raises: a \<open>ValueError\<close>, or, on
  a document nested too deeply, a \<open>RecursionError\<close>, which no reader here catches.
\<close>

section \<open>Described inputs\<close>

datatype input_value = Text string | Raw bytes

definition to_text :: "input_value \<Rightarrow> string" where
  "to_text v = (case v of Text s \<Rightarrow> s | Raw b \<Rightarrow> text_of (decode_utf8 b))"

definition value_bytes :: "input_value \<Rightarrow> nat list" where
  "value_bytes v = (case v of Text s \<Rightarrow> utf8_encode s | Raw b \<Rightarrow> map unat b)"

definition value_len :: "input_value \<Rightarrow> nat" where
  "value_len v = (case v of Text s \<Rightarrow> length s | Raw b \<Rightarrow> length b)"

definition SAMPLE_MAX :: nat where "SAMPLE_MAX = 256"

record described =
  de_name :: string
  de_in :: string
  de_sha :: string
  de_len :: nat
  de_sample :: string

definition describe_param :: "string \<Rightarrow> string \<Rightarrow> input_value \<Rightarrow> described" where
  "describe_param name location v =
     \<lparr>de_name = name, de_in = location, de_sha = sha256_hex (value_bytes v), de_len = value_len v,
      de_sample = take SAMPLE_MAX (to_text v)\<rparr>"

definition described_json :: "described \<Rightarrow> json" where
  "described_json e =
     JObj [(''name'', JStr (de_name e)), (''in'', JStr (de_in e)), (''value_sha256'', JStr (de_sha e)),
           (''value_len'', JInt (int (de_len e))), (''sample'', JStr (de_sample e))]"

definition DESCRIBED_HEADERS :: "string list" where
  "DESCRIBED_HEADERS =
     [''host'', ''referer'', ''user-agent'', ''origin'', ''content-type'', ''accept-language'', ''authorization'',
      ''forwarded'', ''true-client-ip'']"

definition is_described_header :: "string \<Rightarrow> bool" where
  "is_described_header name = (lower name \<in> set DESCRIBED_HEADERS \<or> startswith (lower name) ''x-'')"

section \<open>JSON bodies\<close>

definition JSON_DEPTH_MAX :: nat where "JSON_DEPTH_MAX = 16"

definition json_scalar_to_text :: "json \<Rightarrow> string" where
  "json_scalar_to_text v =
     (case v of JStr s \<Rightarrow> s | JNull \<Rightarrow> ''null'' | JBool b \<Rightarrow> if b then ''true'' else ''false''
      | JInt n \<Rightarrow> int_text n | JFloat r s \<Rightarrow> s | _ \<Rightarrow> [])"

definition or_body :: "string \<Rightarrow> string" where
  "or_body pre = (if pre = [] then ''body'' else pre)"

definition sub_path :: "string \<Rightarrow> string \<Rightarrow> string" where
  "sub_path pre key = (if pre = [] then key else pre @ CHR ''.'' # key)"

fun flatten_json :: "json \<Rightarrow> string \<Rightarrow> nat \<Rightarrow> (string \<times> string) list"
  and flatten_items :: "(string \<times> json) list \<Rightarrow> string \<Rightarrow> nat \<Rightarrow> (string \<times> string) list"
  and flatten_list :: "json list \<Rightarrow> nat \<Rightarrow> string \<Rightarrow> nat \<Rightarrow> (string \<times> string) list" where
  "flatten_json (JObj d) pre depth =
     (if JSON_DEPTH_MAX < depth then [] else if d = [] then [(or_body pre, ''{}'')] else flatten_items d pre depth)"
| "flatten_json (JList xs) pre depth =
     (if JSON_DEPTH_MAX < depth then [] else if xs = [] then [(or_body pre, ''[]'')] else flatten_list xs 0 pre depth)"
| "flatten_json v pre depth =
     (if JSON_DEPTH_MAX < depth then [] else [(or_body pre, json_scalar_to_text v)])"
| "flatten_items [] pre depth = []"
| "flatten_items ((k, v) # d) pre depth = flatten_json v (sub_path pre k) (Suc depth) @ flatten_items d pre depth"
| "flatten_list [] i pre depth = []"
| "flatten_list (x # xs) i pre depth =
     flatten_json x (sub_path pre (dec_digits i)) (Suc depth) @ flatten_list xs (Suc i) pre depth"

section \<open>Multipart bodies\<close>

definition multipart_boundary :: "string \<Rightarrow> string option" where
  "multipart_boundary content_type =
     List.find (\<lambda>v. v \<noteq> [])
       (map (\<lambda>c. strip_where (\<lambda>x. x = CHR 0x22) (strip (after (CHR ''='') c)))
         (filter (\<lambda>c. lower (strip (before (CHR ''='') c)) = ''boundary'')
           (map (\<lambda>c. strip c) (tl (split_char (CHR '';'') content_type)))))"

text \<open>\<open>split\<close> at a separator of several characters.\<close>

lemma split_once_parts: "split_once p s = Some (a, b) \<Longrightarrow> s = a @ p @ b"
proof (induction s arbitrary: a)
  case Nil
  then show ?case by (simp add: split_once.simps [of p "[]"] startswith_def split: if_splits)
next
  case (Cons x s)
  show ?case
  proof (cases "startswith (x # s) p")
    case True
    then have "a = []" "b = drop (length p) (x # s)" using Cons.prems by (simp_all add: split_once.simps [of p "x # s"])
    then show ?thesis using True append_take_drop_id [of "length p" "x # s"] by (simp add: startswith_def)
  next
    case False
    then obtain a' where "split_once p s = Some (a', b)" "a = x # a'"
      using Cons.prems by (auto simp: split_once.simps [of p "x # s"])
    then show ?thesis using Cons.IH by simp
  qed
qed

function split_text :: "string \<Rightarrow> string \<Rightarrow> string list" where
  "split_text p s =
     (if p = [] then [s] else case split_once p s of None \<Rightarrow> [s] | Some (a, b) \<Rightarrow> a # split_text p b)"
  by pat_completeness auto

termination
  by (relation "measure (length \<circ> snd)") (auto dest!: split_once_parts)

declare split_text.simps [simp del]

text \<open>The group and the end of \<open>"((?:[^"\\]|\\.)*)"\<close> after its first quote.\<close>

fun quoted :: "string \<Rightarrow> string option" where
  "quoted [] = None"
| "quoted (c # s) =
     (if c = CHR 0x22 then Some []
      else if c = CHR 0x5C then
        (case s of [] \<Rightarrow> None | d # t \<Rightarrow> if d = CHR 0x0A then None else map_option (\<lambda>g. c # d # g) (quoted t))
      else map_option ((#) c) (quoted s))"

definition ascii_lower :: "char \<Rightarrow> char" where
  "ascii_lower c = (if is_ascii c then lower_char c else c)"

text \<open>\<open>search\<close> for \<open>key="..."\<close>, ignoring the case of the key, at any place of the header.\<close>

fun search_attr :: "string \<Rightarrow> string \<Rightarrow> string option" where
  "search_attr key [] = None"
| "search_attr key (c # s) =
     (case (if map ascii_lower (take (length key + 2) (c # s)) = key @ [CHR ''='', CHR 0x22]
            then quoted (drop (length key + 2) (c # s)) else None) of
        Some g \<Rightarrow> Some g
      | None \<Rightarrow> search_attr key s)"

definition byte_text :: "string \<Rightarrow> string" where
  "byte_text s = text_of (decode_utf8 (latin1_encode s))"

definition CRLF_text :: string where "CRLF_text = [CHR 0x0D, CHR 0x0A]"

definition multipart_part :: "string \<Rightarrow> (string \<times> input_value) list" where
  "multipart_part part =
     (if part = [] \<or> part = ''--'' \<or> part = ''--'' @ CRLF_text then []
      else case split_once (CRLF_text @ CRLF_text) part of
        None \<Rightarrow> []
      | Some (head, payload) \<Rightarrow>
          (case search_attr ''name'' head of
             None \<Rightarrow> []
           | Some name \<Rightarrow>
               (let content = (if endswith payload CRLF_text then take (length payload - 2) payload else payload)
                in (case search_attr ''filename'' head of
                      None \<Rightarrow> [] | Some f \<Rightarrow> [(byte_text name @ ''.filename'', Text (byte_text f))])
                   @ [(byte_text name, Raw (latin1_encode content))])))"

definition iter_multipart :: "bytes \<Rightarrow> string \<Rightarrow> (string \<times> input_value) list" where
  "iter_multipart body content_type =
     (case multipart_boundary content_type of
        None \<Rightarrow> []
      | Some b \<Rightarrow> concat (map multipart_part (split_text (''--'' @ b) (latin1 body))))"

section \<open>Hosts, cookies, GraphQL\<close>

definition agent_host :: "string option \<Rightarrow> string" where
  "agent_host v =
     (let t = lower (strip (str_or v []))
      in if t = [] then []
         else if startswith t ''['' then
           (if CHR '']'' \<in> set t then before (CHR '']'') (tl t) else dropWhile (\<lambda>c. c = CHR ''['') t)
         else before (CHR '':'') t)"

definition parse_cookie_header :: "string \<Rightarrow> (string \<times> string) list" where
  "parse_cookie_header raw =
     filter (\<lambda>(n, v). n \<noteq> [])
       (map (\<lambda>c. (strip (before (CHR ''='') c), strip (after (CHR ''='') c)))
         (filter (\<lambda>c. c \<noteq> []) (map (\<lambda>c. strip c) (split_char (CHR '';'') raw))))"

definition nonempty_text :: "string \<Rightarrow> json \<Rightarrow> (string \<times> string) list" where
  "nonempty_text name v = (case v of JStr s \<Rightarrow> if s = [] then [] else [(name, s)] | _ \<Rightarrow> [])"

definition graphql_params :: "json \<Rightarrow> json \<Rightarrow> json \<Rightarrow> (string \<times> string) list" where
  "graphql_params query variables operation =
     nonempty_text ''query'' query @ nonempty_text ''operationName'' operation
     @ (case variables of
          JStr s \<Rightarrow> nonempty_text ''variables'' variables
        | JObj d \<Rightarrow> map (\<lambda>(p, t). (''variables.'' @ p, t)) (filter (\<lambda>(p, t). p \<noteq> []) (flatten_json variables [] 0))
        | JList xs \<Rightarrow> map (\<lambda>(p, t). (''variables.'' @ p, t)) (filter (\<lambda>(p, t). p \<noteq> []) (flatten_json variables [] 0))
        | _ \<Rightarrow> [])"

section \<open>The collector of parameters\<close>

record param_collector =
  pc_entries :: "described list"
  pc_seen :: "(string \<times> string \<times> string) list"
  pc_max :: int
  pc_truncated :: bool

definition new_param_collector :: "int \<Rightarrow> param_collector" where
  "new_param_collector m = \<lparr>pc_entries = [], pc_seen = [], pc_max = m, pc_truncated = False\<rparr>"

definition entry_key :: "described \<Rightarrow> string \<times> string \<times> string" where
  "entry_key e = (de_in e, de_name e, de_sha e)"

definition keep_entry :: "described \<Rightarrow> param_collector \<Rightarrow> param_collector" where
  "keep_entry e c = c\<lparr>pc_seen := entry_key e # pc_seen c, pc_entries := pc_entries c @ [e]\<rparr>"

definition pc_full :: "param_collector \<Rightarrow> bool" where
  "pc_full c = (pc_max c \<le> int (length (pc_entries c)))"

definition pc_add :: "string \<Rightarrow> string \<Rightarrow> input_value \<Rightarrow> param_collector \<Rightarrow> param_collector" where
  "pc_add name location v c =
     (if pc_full c then c\<lparr>pc_truncated := True\<rparr>
      else let e = describe_param name location v
           in if entry_key e \<in> set (pc_seen c) then c else keep_entry e c)"

definition pc_add_many :: "(string \<times> input_value) list \<Rightarrow> string \<Rightarrow> param_collector \<Rightarrow> param_collector" where
  "pc_add_many pairs location c = foldl (\<lambda>c (n, v). pc_add n location v c) c pairs"

definition pc_extend :: "described list \<Rightarrow> param_collector \<Rightarrow> param_collector" where
  "pc_extend es c =
     foldl (\<lambda>c e. if entry_key e \<in> set (pc_seen c) \<or> pc_full c
                   then c\<lparr>pc_truncated := pc_truncated c \<or> pc_full c\<rparr> else keep_entry e c) c es"

section \<open>The parts of a request\<close>

definition texts :: "(string \<times> string) list \<Rightarrow> (string \<times> input_value) list" where
  "texts ps = map (\<lambda>(n, s). (n, Text s)) ps"

text \<open>\<open>parse_qsl\<close> with blank values kept.\<close>

definition qsl_pairs :: "string \<Rightarrow> (string \<times> string) list" where
  "qsl_pairs q =
     map (\<lambda>nv. (unquote (plus_to_space (before (CHR ''='') nv)), unquote (plus_to_space (after (CHR ''='') nv))))
       (filter (\<lambda>nv. nv \<noteq> []) (split_char (CHR ''&'') q))"

definition collect_query :: "input_value \<Rightarrow> param_collector \<Rightarrow> param_collector" where
  "collect_query q c = (if to_text q = [] then c else pc_add_many (texts (qsl_pairs (to_text q))) ''query'' c)"

definition collect_headers :: "(string \<times> string) list \<Rightarrow> param_collector \<Rightarrow> param_collector" where
  "collect_headers hs c =
     foldl (\<lambda>c (n, v).
        if lower n = ''cookie'' then pc_add_many (texts (parse_cookie_header v)) ''cookie'' c
        else if is_described_header (lower n) then pc_add (lower n) ''header'' (Text v) c
        else c) c hs"

datatype loaded = Decoded json | NotJson | TooDeep

text \<open>The inputs of a body with their places; \<open>None\<close> when the reading raises.\<close>

definition json_inputs :: "json \<Rightarrow> (string \<times> (string \<times> input_value) list) list" where
  "json_inputs doc =
     (''json'', texts (flatten_json doc [] 0))
     # (case doc of
          JObj d \<Rightarrow>
            (case jget d ''query'' of
               JStr s \<Rightarrow> [(''graphql'', texts (graphql_params (jget d ''query'') (jget d ''variables'') (jget d ''operationName'')))]
             | _ \<Rightarrow> [])
        | _ \<Rightarrow> [])"

definition body_inputs ::
  "(bytes \<Rightarrow> loaded) \<Rightarrow> bytes \<Rightarrow> string \<Rightarrow> (string \<times> (string \<times> input_value) list) list option" where
  "body_inputs loads body content_type =
     (let base = lower (strip (before (CHR '';'') content_type)); whole = Some [(''raw'', [(''body'', Raw body)])]
      in if body = [] then Some []
         else if base = ''application/json'' \<or> endswith base ''+json'' \<or> (base = [] \<and> hd body \<in> {0x7B, 0x5B}) then
           (case loads body of NotJson \<Rightarrow> whole | TooDeep \<Rightarrow> None | Decoded doc \<Rightarrow> Some (json_inputs doc))
         else if base = ''application/x-www-form-urlencoded'' then
           Some [(''body'', texts (qsl_pairs (text_of (decode_utf8 body))))]
         else if startswith base ''multipart/'' then
           (let parts = iter_multipart body content_type
            in if parts = [] then whole else Some [(''multipart'', parts)])
         else if base = ''application/graphql'' \<or> base = ''application/graphql+json'' then
           Some [(''graphql'', [(''query'', Raw body)])]
         else whole)"

definition add_groups :: "(string \<times> (string \<times> input_value) list) list \<Rightarrow> param_collector \<Rightarrow> param_collector" where
  "add_groups gs c = foldl (\<lambda>c (location, pairs). pc_add_many pairs location c) c gs"

definition collect_body :: "(bytes \<Rightarrow> loaded) \<Rightarrow> bytes \<Rightarrow> string \<Rightarrow> param_collector \<Rightarrow> param_collector option" where
  "collect_body loads body content_type c = map_option (\<lambda>gs. add_groups gs c) (body_inputs loads body content_type)"

end
