(* ===== verification/Agent_Client.thy ===== *)
theory Agent_Client
  imports Agent_Params Url
begin

text \<open>
  \<open>sdk/python/src/telemetry_agent/_client.py\<close>, \<open>_config.py\<close> and \<open>_context.py\<close>: the exporter inside of a
  target. Recording appends to a bounded queue; one thread takes batches off it and posts them, another
  posts the links that announce outbound fetches. The state is a record, every step of a caller or of a
  thread a function; what a POST ends in is an argument. A step whose code raises leaves the state as the
  code leaves it, since every entry point swallows the exception.
\<close>

section \<open>Configuration and context\<close>

text \<open>The networks are given as parsed. Numbers of the environment may be zero or negative.\<close>

record agent_config =
  ac_service :: string
  ac_enabled :: bool
  ac_queue_max :: int
  ac_batch_max :: int
  ac_networks :: "network list"
  ac_max_body :: int
  ac_max_params :: int

definition BATCH_MAX :: int where "BATCH_MAX = 500"
definition QUEUE_MAX :: int where "QUEUE_MAX = 10000"

definition env_bool :: "string option \<Rightarrow> bool \<Rightarrow> bool" where
  "env_bool raw otherwise =
     (case raw of
        None \<Rightarrow> otherwise
      | Some s \<Rightarrow>
          (let w = lower (strip s)
           in if w \<in> {''1'', ''true'', ''yes'', ''on''} then True
              else if w \<in> {''0'', ''false'', ''no'', ''off''} then False else otherwise))"

definition env_int :: "string option \<Rightarrow> int \<Rightarrow> int" where
  "env_int raw otherwise =
     (case raw of
        None \<Rightarrow> otherwise
      | Some s \<Rightarrow> if 4300 < length (filter is_dec s) then otherwise
                 else (case int_of_text s of None \<Rightarrow> otherwise | Some n \<Rightarrow> n))"

definition env_tuple :: "string option \<Rightarrow> string list" where
  "env_tuple raw = filter (\<lambda>x. x \<noteq> []) (map (\<lambda>x. strip x) (split_char (CHR '','') (str_or raw [])))"

text \<open>\<open>config_from_env\<close> on the variables of the environment; \<open>net\<close> reads a network, if it is one.\<close>

definition config_from_env :: "(string \<Rightarrow> network option) \<Rightarrow> (string, string) dict \<Rightarrow> agent_config" where
  "config_from_env net env =
     \<lparr>ac_service = get_or (dict_get env ''TELEMETRY_SERVICE'') ''unknown-service'',
      ac_enabled = env_bool (dict_get env ''TELEMETRY_ENABLED'') True,
      ac_queue_max = env_int (dict_get env ''TELEMETRY_QUEUE_MAX'') QUEUE_MAX,
      ac_batch_max = min (env_int (dict_get env ''TELEMETRY_BATCH_MAX'') BATCH_MAX) BATCH_MAX,
      ac_networks = List.map_filter net (env_tuple (dict_get env ''TELEMETRY_SYNTHETIC_CIDRS'')),
      ac_max_body = env_int (dict_get env ''TELEMETRY_MAX_BODY_BYTES'') 262144,
      ac_max_params = env_int (dict_get env ''TELEMETRY_MAX_PARAMS'') 1024\<rparr>"

record request_context =
  rc_request_id :: string
  rc_synthetic :: bool
  rc_peer_ip :: string
  rc_client_ip :: string
  rc_route :: "string option"
  rc_auth_subject :: "string option"
  rc_extra :: "described list"

section \<open>Who sent a request\<close>

definition is_synthetic_peer :: "agent_config \<Rightarrow> string \<Rightarrow> bool" where
  "is_synthetic_peer cfg peer =
     (if peer = [] \<or> ac_networks cfg = [] then False
      else case ip_address (strip peer) of None \<Rightarrow> False | Some a \<Rightarrow> list_ex (in_network a) (ac_networks cfg))"

definition FORWARDED_HEADERS :: "string list" where
  "FORWARDED_HEADERS = [''x-forwarded-for'', ''x-real-ip'', ''forwarded'', ''true-client-ip'', ''client-ip'']"

abbreviation unquoted :: "string \<Rightarrow> string" where
  "unquoted s \<equiv> strip_where (\<lambda>c. c = CHR 0x22) (strip s)"

definition claimed_address :: "string \<Rightarrow> string \<Rightarrow> bool" where
  "claimed_address peer chunk =
     (let c0 = unquoted chunk;
          c1 = (if CHR ''='' \<in> set c0 then unquoted (after (CHR ''='') c0) else c0);
          c = strip_chars ''[]'' c1
      in strip_chars ''[]'' (if CHR '':'' \<in> set c then rbefore (CHR '':'') c else c) = peer \<or> c = peer)"

definition peer_matches_forwarded_claim :: "string \<Rightarrow> (string, string) dict \<Rightarrow> bool" where
  "peer_matches_forwarded_claim peer headers =
     (peer \<noteq> []
      \<and> list_ex (\<lambda>h. case dict_get headers h of
           None \<Rightarrow> False
         | Some raw \<Rightarrow>
             raw \<noteq> []
             \<and> list_ex (claimed_address peer)
                 (split_char (CHR '','') (map (\<lambda>c. if c = CHR '';'' then CHR '','' else c) raw)))
          FORWARDED_HEADERS)"

section \<open>Records\<close>

text \<open>\<open>SIGNAL_NAME.match\<close>; the dollar also matches before a final line feed.\<close>

definition signal_shaped :: "string \<Rightarrow> bool" where
  "signal_shaped s =
     (let t = (if s \<noteq> [] \<and> last s = CHR 0x0A then butlast s else s); ps = split_char (CHR ''.'') t
      in 3 \<le> length ps \<and> hd ps \<noteq> [] \<and> (let n = code (hd (hd ps)) in 97 \<le> n \<and> n \<le> 122) \<and> list_all is_lower_alnum (hd ps)
         \<and> list_all (\<lambda>p. p \<noteq> [] \<and> list_all (\<lambda>c. is_lower_alnum c \<or> c = CHR ''_'') p) (tl ps))"

definition ATTRIBUTE_MAX :: nat where "ATTRIBUTE_MAX = 1024"

text \<open>\<open>_clip\<close>; \<open>show_any\<close> is Python's \<open>str\<close> on what is no text.\<close>

definition clip_value :: "(json \<Rightarrow> string) \<Rightarrow> nat \<Rightarrow> json \<Rightarrow> string" where
  "clip_value show_any n v = take n (case v of JStr s \<Rightarrow> s | _ \<Rightarrow> show_any v)"

definition agent_hostname :: "string \<Rightarrow> string option" where
  "agent_hostname destination =
     (let t = strip destination;
          plain = (let head = before (CHR ''?'') (before (CHR ''/'') t)
                   in if startswith head ''['' \<and> CHR '']'' \<in> set head then before (CHR '']'') (tl head)
                      else before (CHR '':'') (rafter (CHR ''@'') head))
      in if contains t ''//'' then
           (case urlsplit t of
              None \<Rightarrow> None
            | Some u \<Rightarrow> (case url_hostname u of Some h \<Rightarrow> Some h | None \<Rightarrow> Some plain))
         else Some plain)"

text \<open>The reading of the clock as a JSON number.\<close>

definition stamp :: "(rat \<Rightarrow> string) \<Rightarrow> rat \<Rightarrow> json" where
  "stamp show_ts now = JFloat now (show_ts now)"

definition is_synthetic :: "request_context option \<Rightarrow> bool option \<Rightarrow> bool" where
  "is_synthetic ctx given =
     (case given of Some b \<Rightarrow> b | None \<Rightarrow> (case ctx of None \<Rightarrow> False | Some c \<Rightarrow> rc_synthetic c))"

definition peer_of :: "request_context option \<Rightarrow> string" where
  "peer_of ctx = (case ctx of None \<Rightarrow> [] | Some c \<Rightarrow> rc_peer_ip c)"

definition base_record ::
  "agent_config \<Rightarrow> (rat \<Rightarrow> string) \<Rightarrow> rat \<Rightarrow> request_context option \<Rightarrow> string \<Rightarrow> bool option \<Rightarrow> obj" where
  "base_record cfg show_ts now ctx kind synthetic =
     [(''type'', JStr kind), (''app'', JStr (ac_service cfg)), (''ts'', stamp show_ts now),
      (''synthetic'', JBool (is_synthetic ctx synthetic)), (''peer_ip'', JStr (peer_of ctx))]"

definition truthy_field :: "string \<Rightarrow> string option \<Rightarrow> obj \<Rightarrow> obj" where
  "truthy_field k v d = (if truthy v then dict_set k (JStr (the v)) d else d)"

text \<open>\<open>signal\<close>: the record, unless the name is not shaped like a metric's.\<close>

definition signal_record ::
  "agent_config \<Rightarrow> (json \<Rightarrow> string) \<Rightarrow> (rat \<Rightarrow> string) \<Rightarrow> rat \<Rightarrow> request_context option \<Rightarrow> string \<Rightarrow> obj
   \<Rightarrow> string option \<Rightarrow> bool option \<Rightarrow> obj option" where
  "signal_record cfg show_any show_ts now ctx name attributes request_id synthetic =
     (if \<not> signal_shaped name then None
      else
        let payload = foldl (\<lambda>d (k, v). dict_set k (JStr (clip_value show_any ATTRIBUTE_MAX v)) d) [] attributes;
            rid = or_str (or_str request_id (str_field payload ''request_id'')) (map_option rc_request_id ctx);
            payload = truthy_field ''request_id'' rid payload;
            rec = dict_set ''signal'' (JStr name) (base_record cfg show_ts now ctx ''signal'' synthetic)
        in Some (if payload \<noteq> [] then dict_set ''attributes'' (JObj payload) rec else rec))"

definition note_record ::
  "agent_config \<Rightarrow> (json \<Rightarrow> string) \<Rightarrow> (rat \<Rightarrow> string) \<Rightarrow> rat \<Rightarrow> request_context option \<Rightarrow> json \<Rightarrow> bool option \<Rightarrow> obj" where
  "note_record cfg show_any show_ts now ctx message synthetic =
     dict_set ''message'' (JStr (clip_value show_any 4096 message)) (base_record cfg show_ts now ctx ''note'' synthetic)"

text \<open>\<open>outbound\<close>: the link, and whether its signal is refused; \<open>None\<close> when reading the destination raises.\<close>

definition link_record ::
  "agent_config \<Rightarrow> (rat \<Rightarrow> string) \<Rightarrow> rat \<Rightarrow> request_context option \<Rightarrow> string \<Rightarrow> string option \<Rightarrow> string option
   \<Rightarrow> string option \<Rightarrow> string option \<Rightarrow> bool option \<Rightarrow> (obj \<times> bool) option" where
  "link_record cfg show_ts now ctx destination signal_name param route request_id synthetic =
     map_option (\<lambda>h.
       let d0 = [(''app'', JStr (ac_service cfg)), (''ts'', stamp show_ts now), (''synthetic'', JBool (is_synthetic ctx synthetic)),
                 (''peer_ip'', JStr (peer_of ctx)), (''destination_host'', JStr h)];
           d1 = truthy_field ''client_ip'' (map_option rc_client_ip ctx) d0;
           bad = (truthy signal_name \<and> \<not> signal_shaped (the signal_name));
           d2 = (if bad then d1 else truthy_field ''signal'' signal_name d1);
           d3 = truthy_field ''param'' param d2;
           d4 = truthy_field ''route'' (or_str route (case ctx of None \<Rightarrow> None | Some c \<Rightarrow> rc_route c)) d3
       in (truthy_field ''request_id'' (or_str request_id (map_option rc_request_id ctx)) d4, bad))
     (agent_hostname destination)"

record request_facts =
  rf_method :: string
  rf_route :: string
  rf_path :: "string option"
  rf_host :: "string option"
  rf_status :: "int option"
  rf_params :: "described list"
  rf_auth_subject :: "string option"
  rf_client_ip :: "string option"
  rf_user_agent :: "string option"
  rf_request_id :: "string option"
  rf_synthetic :: bool
  rf_peer_ip :: "string option"

definition agent_text :: "string option \<Rightarrow> json" where
  "agent_text x = (case x of None \<Rightarrow> JNull | Some s \<Rightarrow> JStr s)"

definition request_record ::
  "agent_config \<Rightarrow> (rat \<Rightarrow> string) \<Rightarrow> rat \<Rightarrow> request_context option \<Rightarrow> request_facts \<Rightarrow> obj" where
  "request_record cfg show_ts now ctx f =
     (let d0 = base_record cfg show_ts now ctx ''http_request'' (Some (rf_synthetic f));
          d1 = (case rf_peer_ip f of None \<Rightarrow> d0 | Some p \<Rightarrow> dict_set ''peer_ip'' (JStr p) d0);
          d2 = dict_set ''route'' (JStr (rf_route f)) (dict_set ''method'' (JStr (rf_method f)) d1);
          d3 = truthy_field ''host'' (rf_host f) d2;
          d4 = (case rf_path f of None \<Rightarrow> d3 | Some p \<Rightarrow> dict_set ''path'' (JStr p) d3);
          d5 = (case rf_status f of None \<Rightarrow> d4 | Some n \<Rightarrow> dict_set ''status'' (JInt n) d4);
          d6 = foldl (\<lambda>d (k, v). dict_set k v d) d5
            [(''auth_subject'', agent_text (rf_auth_subject f)), (''client_ip'', JStr (str_or (rf_client_ip f) [])),
             (''user_agent'', JStr (str_or (rf_user_agent f) [])), (''params'', JList (map described_json (rf_params f)))]
      in truthy_field ''request_id'' (rf_request_id f) d6)"

text \<open>\<open>graphql\<close> and \<open>_attach_or_emit\<close>: the context with the inputs, or a record of their own.\<close>

definition graphql_entries :: "json \<Rightarrow> json \<Rightarrow> json \<Rightarrow> described list" where
  "graphql_entries query variables operation =
     map (\<lambda>(n, v). describe_param n ''graphql'' (Text v)) (graphql_params query variables operation)"

definition attach_or_emit ::
  "agent_config \<Rightarrow> (rat \<Rightarrow> string) \<Rightarrow> rat \<Rightarrow> request_context option \<Rightarrow> described list \<Rightarrow> string \<Rightarrow> string \<Rightarrow> string option
   \<Rightarrow> bool option \<Rightarrow> request_context option \<times> obj option" where
  "attach_or_emit cfg show_ts now ctx entries route verb path synthetic =
     (case ctx of
        Some c \<Rightarrow> (Some (c\<lparr>rc_extra := rc_extra c @ entries\<rparr>), None)
      | None \<Rightarrow>
          (None, if entries = [] then None
                 else Some (request_record cfg show_ts now None
                   \<lparr>rf_method = verb, rf_route = route, rf_path = Some (str_or path route), rf_host = None, rf_status = None,
                    rf_params = entries, rf_auth_subject = None, rf_client_ip = None, rf_user_agent = None,
                    rf_request_id = None, rf_synthetic = (synthetic = Some True), rf_peer_ip = None\<rparr>)))"

text \<open>\<open>websocket\<close>: a frame that is a document, or a text or octets that read as one, is taken apart like a
  JSON body. \<open>None\<close>: reading it raised, and nothing is attached. \<open>show_any\<close> is Python's \<open>str\<close>.\<close>

datatype frame_value = Sent input_value | Document json

definition byte_space :: "char \<Rightarrow> bool" where
  "byte_space c = (code c = 32 \<or> 9 \<le> code c \<and> code c \<le> 13)"

definition maybe_json :: "(input_value \<Rightarrow> loaded) \<Rightarrow> frame_value \<Rightarrow> loaded" where
  "maybe_json loads m =
     (case m of
        Document d \<Rightarrow> (case d of JObj _ \<Rightarrow> Decoded d | JList _ \<Rightarrow> Decoded d | _ \<Rightarrow> NotJson)
      | Sent (Text s) \<Rightarrow>
          (let t = strip s in if take 1 t \<in> {''{'', ''[''} then loads (Text t) else NotJson)
      | Sent (Raw b) \<Rightarrow>
          (let t = strip_where byte_space (latin1 b) in if take 1 t \<in> {''{'', ''[''} then loads (Raw (latin1_encode t)) else NotJson))"

definition frame_text :: "(json \<Rightarrow> string) \<Rightarrow> frame_value \<Rightarrow> input_value" where
  "frame_text show_any m = (case m of Sent v \<Rightarrow> v | Document d \<Rightarrow> Text (show_any d))"

definition websocket_entries ::
  "(input_value \<Rightarrow> loaded) \<Rightarrow> (json \<Rightarrow> string) \<Rightarrow> frame_value option \<Rightarrow> (string \<times> frame_value) list \<Rightarrow> string \<Rightarrow> described list option" where
  "websocket_entries loads show_any message more_fields pre =
     (let named = map (\<lambda>(k, v). (k, frame_text show_any v)) more_fields
      in map_option (map (\<lambda>(n, v). describe_param n ''websocket'' v))
        (case message of
           None \<Rightarrow> Some named
         | Some m \<Rightarrow>
             (case maybe_json loads m of
                TooDeep \<Rightarrow> None
              | NotJson \<Rightarrow> Some ((pre, frame_text show_any m) # named)
              | Decoded d \<Rightarrow>
                  Some (map (\<lambda>(n, v). (if n = [] then pre else pre @ CHR ''.'' # n, Text v)) (flatten_json d [] 0) @ named))))"

text \<open>\<open>set_auth_subject\<close> and \<open>current_request_id\<close>.\<close>

definition set_auth_subject :: "string option \<Rightarrow> request_context option \<Rightarrow> request_context option" where
  "set_auth_subject subject ctx = map_option (\<lambda>c. c\<lparr>rc_auth_subject := subject\<rparr>) ctx"

definition current_request_id :: "request_context option \<Rightarrow> string option" where
  "current_request_id ctx = map_option rc_request_id ctx"

end
