(* ===== verification/Agent_Queue.thy ===== *)
theory Agent_Queue
  imports Agent_Client "HOL-Library.Sublist"
begin

text \<open>
  The two lanes of the exporter of \<open>telemetry_agent/_client.py\<close>: callers append, one thread takes and
  posts. What a batch ends in is the list of its attempts. The state also keeps, for the statements only,
  what was recorded (\<open>at_emitted\<close>), evicted, and posted with the outcome.
\<close>

section \<open>State\<close>

record ('e, 'l) agent =
  at_queue :: "'e list"
  at_hand :: "'e list"
  at_inflight :: int
  at_enqueued :: nat
  at_sent :: nat
  at_dropped :: nat
  at_send_failures :: nat
  at_batches :: nat
  at_invalid :: nat
  at_links :: "'l list"
  at_link_hand :: "'l option"
  at_links_inflight :: nat
  at_links_sent :: nat
  at_links_dropped :: nat
  at_links_failed :: nat
  at_emitted :: "'e list"
  at_evicted :: "'e list"
  at_posted :: "('e \<times> bool) list"

definition new_agent :: "('e, 'l) agent" where
  "new_agent =
     \<lparr>at_queue = [], at_hand = [], at_inflight = 0, at_enqueued = 0, at_sent = 0, at_dropped = 0, at_send_failures = 0,
      at_batches = 0, at_invalid = 0, at_links = [], at_link_hand = None, at_links_inflight = 0, at_links_sent = 0,
      at_links_dropped = 0, at_links_failed = 0, at_emitted = [], at_evicted = [], at_posted = []\<rparr>"

section \<open>Recording\<close>

text \<open>A full queue gives up its oldest record; with a bound below one an empty queue raises at \<open>popleft\<close>.\<close>

definition agent_emit :: "agent_config \<Rightarrow> 'e \<Rightarrow> ('e, 'l) agent \<Rightarrow> ('e, 'l) agent" where
  "agent_emit cfg e s =
     (if \<not> ac_enabled cfg then s
      else if ac_queue_max cfg \<le> int (length (at_queue s)) then
        (case at_queue s of
           [] \<Rightarrow> s
         | old # q \<Rightarrow>
             s\<lparr>at_queue := q @ [e], at_dropped := at_dropped s + 1, at_enqueued := at_enqueued s + 1,
               at_emitted := at_emitted s @ [e], at_evicted := at_evicted s @ [old]\<rparr>)
      else s\<lparr>at_queue := at_queue s @ [e], at_enqueued := at_enqueued s + 1, at_emitted := at_emitted s @ [e]\<rparr>)"

definition CORRELATION_QUEUE_MAX :: nat where "CORRELATION_QUEUE_MAX = 2048"

definition dispatch_link :: "agent_config \<Rightarrow> 'l \<Rightarrow> ('e, 'l) agent \<Rightarrow> ('e, 'l) agent" where
  "dispatch_link cfg l s =
     (if \<not> ac_enabled cfg then s
      else if CORRELATION_QUEUE_MAX \<le> length (at_links s)
      then s\<lparr>at_links := tl (at_links s) @ [l], at_links_dropped := at_links_dropped s + 1\<rparr>
      else s\<lparr>at_links := at_links s @ [l]\<rparr>)"

section \<open>The threads\<close>

definition agent_take :: "agent_config \<Rightarrow> ('e, 'l) agent \<Rightarrow> ('e, 'l) agent" where
  "agent_take cfg s =
     (let n = min (ac_batch_max cfg) (int (length (at_queue s)))
      in if n = 0 then s
         else s\<lparr>at_inflight := at_inflight s + 1, at_hand := take (nat n) (at_queue s),
                at_queue := drop (nat n) (at_queue s)\<rparr>)"

text \<open>A POST is tried twice; any status below 500 counts as delivered. \<open>Broken\<close>: it raised.\<close>

datatype attempt = Status nat | Broken

definition answered :: "attempt \<Rightarrow> bool" where
  "answered a = (case a of Status n \<Rightarrow> n < 500 | Broken \<Rightarrow> False)"

definition posted_ok :: "attempt list \<Rightarrow> bool" where
  "posted_ok net = list_ex answered (take 2 net)"

definition agent_send :: "attempt list \<Rightarrow> ('e, 'l) agent \<Rightarrow> ('e, 'l) agent" where
  "agent_send net s =
     (let ok = posted_ok net; s1 = s\<lparr>at_batches := at_batches s + 1, at_inflight := at_inflight s - 1, at_hand := [],
                                    at_posted := at_posted s @ map (\<lambda>e. (e, ok)) (at_hand s)\<rparr>
      in if ok then s1\<lparr>at_sent := at_sent s1 + length (at_hand s)\<rparr>
         else s1\<lparr>at_send_failures := at_send_failures s1 + 1\<rparr>)"

definition take_link :: "('e, 'l) agent \<Rightarrow> ('e, 'l) agent" where
  "take_link s =
     (case at_links s of
        [] \<Rightarrow> s
      | l # ls \<Rightarrow> s\<lparr>at_links := ls, at_link_hand := Some l, at_links_inflight := at_links_inflight s + 1\<rparr>)"

definition send_link :: "attempt list \<Rightarrow> ('e, 'l) agent \<Rightarrow> ('e, 'l) agent" where
  "send_link net s =
     (let s1 = s\<lparr>at_link_hand := None, at_links_inflight := at_links_inflight s - 1\<rparr>
      in if posted_ok net then s1\<lparr>at_links_sent := at_links_sent s1 + 1\<rparr>
         else s1\<lparr>at_links_failed := at_links_failed s1 + 1\<rparr>)"

text \<open>A forked child starts with nothing in hand: the parent exports what was recorded before. The
  counters are inherited; the histories of the child begin with it.\<close>

definition reinit_after_fork :: "('e, 'l) agent \<Rightarrow> ('e, 'l) agent" where
  "reinit_after_fork s =
     s\<lparr>at_queue := [], at_hand := [], at_inflight := 0, at_links := [], at_link_hand := None, at_links_inflight := 0,
       at_emitted := [], at_evicted := [], at_posted := []\<rparr>"

text \<open>The exporter drains the queue; \<open>net\<close> gives the attempts of the batch with a number.\<close>

lemma take_shorter:
  "at_hand (agent_take cfg s) \<noteq> [] \<Longrightarrow> at_hand s = [] \<Longrightarrow>
   length (at_queue (agent_take cfg s)) < length (at_queue s)"
  by (auto simp: agent_take_def Let_def split: if_splits)

function drain_all :: "agent_config \<Rightarrow> (nat \<Rightarrow> attempt list) \<Rightarrow> nat \<Rightarrow> ('e, 'l) agent \<Rightarrow> ('e, 'l) agent" where
  "drain_all cfg net k s =
     (let s1 = agent_take cfg (s\<lparr>at_hand := []\<rparr>)
      in if at_hand s1 = [] then s1 else drain_all cfg net (k + 1) (agent_send (net k) s1))"
  by pat_completeness auto

termination
proof (relation "measure (\<lambda>(cfg, net, k, s). length (at_queue s))", goal_cases)
  case (2 cfg net k s s1)
  then have "length (at_queue s1) < length (at_queue (s\<lparr>at_hand := []\<rparr>))"
    using take_shorter [of cfg "s\<lparr>at_hand := []\<rparr>"] by simp
  then show ?case by (simp add: agent_send_def Let_def)
qed simp

declare drain_all.simps [simp del]

definition agent_idle :: "('e, 'l) agent \<Rightarrow> bool" where
  "agent_idle s = (at_queue s = [] \<and> at_inflight s = 0 \<and> at_links s = [] \<and> at_links_inflight s = 0)"

section \<open>Operations\<close>

datatype ('e, 'l) agent_op =
    Emit 'e
  | InvalidSignal
  | TakeBatch
  | SendBatch "attempt list"
  | Dispatch 'l
  | TakeLink
  | SendLink "attempt list"
  | Forked

text \<open>The thread takes a batch when it has none in hand, and sends when it has one.\<close>

fun agent_step :: "agent_config \<Rightarrow> ('e, 'l) agent \<Rightarrow> ('e, 'l) agent_op \<Rightarrow> ('e, 'l) agent" where
  "agent_step cfg s (Emit e) = agent_emit cfg e s"
| "agent_step cfg s InvalidSignal = s\<lparr>at_invalid := at_invalid s + 1\<rparr>"
| "agent_step cfg s TakeBatch = (if at_hand s = [] then agent_take cfg s else s)"
| "agent_step cfg s (SendBatch net) = (if at_hand s = [] then s else agent_send net s)"
| "agent_step cfg s (Dispatch l) = dispatch_link cfg l s"
| "agent_step cfg s TakeLink = (if at_link_hand s = None then take_link s else s)"
| "agent_step cfg s (SendLink net) = (if at_link_hand s = None then s else send_link net s)"
| "agent_step cfg s Forked = reinit_after_fork s"

end
