(* ===== verification/Agent_Queue_Facts.thy ===== *)
theory Agent_Queue_Facts
  imports Agent_Queue
begin

text \<open>
  The exporter of the agent keeps its books: every record is evicted, posted once, in hand or queued,
  in the order it was recorded, and the counters say so; draining ends with an idle queue.
\<close>

section \<open>The invariant\<close>

definition sane_config :: "agent_config \<Rightarrow> bool" where
  "sane_config cfg \<longleftrightarrow> 1 \<le> ac_queue_max cfg \<and> 1 \<le> ac_batch_max cfg"

text \<open>Records in the order of posting; the difference of the counters to the histories was inherited.\<close>

definition agent_ok :: "agent_config \<Rightarrow> ('e, 'l) agent \<Rightarrow> bool" where
  "agent_ok cfg s \<longleftrightarrow>
     mset (at_emitted s) = mset (at_evicted s) + mset (map fst (at_posted s)) + mset (at_hand s) + mset (at_queue s)
     \<and> subseq (map fst (at_posted s) @ at_hand s @ at_queue s) (at_emitted s)
     \<and> int (length (at_queue s)) \<le> ac_queue_max cfg
     \<and> int (length (at_hand s)) \<le> ac_batch_max cfg
     \<and> at_inflight s = (if at_hand s = [] then 0 else 1)
     \<and> length (at_links s) \<le> CORRELATION_QUEUE_MAX
     \<and> at_links_inflight s = (if at_link_hand s = None then 0 else 1)
     \<and> (\<exists>e d p. at_enqueued s = e + length (at_emitted s) \<and> at_dropped s = d + length (at_evicted s)
          \<and> at_sent s = p + length (filter snd (at_posted s)))"

lemma subseq_drop_one: "subseq (xs @ y # ys) zs \<Longrightarrow> subseq (xs @ ys) zs"
  by (rule subseq_order.trans [of _ "xs @ y # ys"]) (auto intro: list_emb_append_mono)

lemma emit_ok:
  assumes "sane_config cfg" and "agent_ok cfg s"
  shows "agent_ok cfg (agent_emit cfg e s)"
proof (cases "ac_enabled cfg")
  case True
  show ?thesis
  proof (cases "ac_queue_max cfg \<le> int (length (at_queue s))")
    case full: True
    then obtain old q where q: "at_queue s = old # q" using assms(1) by (cases "at_queue s") (auto simp: sane_config_def)
    let ?s = "agent_emit cfg e s"
    have s: "?s = s\<lparr>at_queue := q @ [e], at_dropped := at_dropped s + 1, at_enqueued := at_enqueued s + 1,
               at_emitted := at_emitted s @ [e], at_evicted := at_evicted s @ [old]\<rparr>"
      using True full by (simp add: agent_emit_def q)
    have "subseq ((map fst (at_posted s) @ at_hand s) @ old # q) (at_emitted s)"
      using assms(2) by (simp add: agent_ok_def q)
    from subseq_drop_one [OF this] have "subseq ((map fst (at_posted s) @ at_hand s @ q) @ [e]) (at_emitted s @ [e])"
      by (intro list_emb_append_mono) simp_all
    then show ?thesis
      using assms(2) unfolding s by (auto simp: agent_ok_def q)
  next
    case False
    have "subseq ((map fst (at_posted s) @ at_hand s @ at_queue s) @ [e]) (at_emitted s @ [e])"
      using assms(2) unfolding agent_ok_def by (intro list_emb_append_mono) simp_all
    then show ?thesis using assms(2) True False by (auto simp: agent_ok_def agent_emit_def)
  qed
qed (use assms(2) in \<open>simp add: agent_emit_def\<close>)

lemma take_ok:
  assumes "sane_config cfg" and "agent_ok cfg s" and "at_hand s = []"
  shows "agent_ok cfg (agent_take cfg s)"
proof (cases "at_queue s = []")
  case False
  define n where "n = nat (min (ac_batch_max cfg) (int (length (at_queue s))))"
  have nz: "min (ac_batch_max cfg) (int (length (at_queue s))) \<noteq> 0"
    using assms(1) False by (auto simp: sane_config_def min_def)
  have n: "0 < n" "int n \<le> ac_batch_max cfg" using assms(1) False by (auto simp: n_def sane_config_def)
  have s: "agent_take cfg s = s\<lparr>at_inflight := at_inflight s + 1, at_hand := take n (at_queue s), at_queue := drop n (at_queue s)\<rparr>"
    using nz by (simp only: agent_take_def Let_def n_def if_False)
  have "mset (at_queue s) = mset (take n (at_queue s)) + mset (drop n (at_queue s))"
    by (metis append_take_drop_id mset_append)
  moreover have "take n (at_queue s) \<noteq> []" using n(1) False by simp
  ultimately show ?thesis using assms(2,3) n(2) unfolding s by (auto simp: agent_ok_def)
qed (use assms in \<open>simp add: agent_take_def sane_config_def\<close>)

lemma send_ok:
  assumes "sane_config cfg" and "agent_ok cfg s" and "at_hand s \<noteq> []"
  shows "agent_ok cfg (agent_send net s)"
  using assms by (auto simp: agent_ok_def agent_send_def Let_def sane_config_def multiset.map_comp comp_def filter_True filter_False)

lemma links_ok:
  assumes "agent_ok cfg s"
  shows "agent_ok cfg (dispatch_link cfg l s)" and "at_link_hand s = None \<Longrightarrow> agent_ok cfg (take_link s)"
    and "at_link_hand s \<noteq> None \<Longrightarrow> agent_ok cfg (send_link net s)"
  using assms
  by (auto simp: agent_ok_def dispatch_link_def take_link_def send_link_def Let_def CORRELATION_QUEUE_MAX_def split: list.split)

lemma agent_step_ok:
  assumes "sane_config cfg" and "agent_ok cfg s"
  shows "agent_ok cfg (agent_step cfg s op)"
proof (cases op)
  case (Emit e)
  then show ?thesis using emit_ok [OF assms] by simp
next
  case TakeBatch
  then show ?thesis using take_ok [OF assms] assms(2) by simp
next
  case (SendBatch net)
  then show ?thesis using send_ok [OF assms] assms(2) by simp
next
  case InvalidSignal
  then show ?thesis using assms(2) by (simp add: agent_ok_def)
next
  case Forked
  then show ?thesis using assms by (simp add: agent_ok_def reinit_after_fork_def sane_config_def)
qed (use links_ok [OF assms(2)] assms(2) in auto)

lemma new_agent_ok: "sane_config cfg \<Longrightarrow> agent_ok cfg new_agent"
  by (simp add: agent_ok_def new_agent_def sane_config_def)

interpretation exporter: invariant_machine "agent_step cfg" "\<lambda>s. sane_config cfg \<longrightarrow> agent_ok cfg s" for cfg
  by unfold_locales (use agent_step_ok in blast)

text \<open>Counters are exact as long as the process does not fork.\<close>

definition counts_exact :: "('e, 'l) agent \<Rightarrow> bool" where
  "counts_exact s \<longleftrightarrow> at_enqueued s = length (at_emitted s) \<and> at_dropped s = length (at_evicted s)
     \<and> at_sent s = length (filter snd (at_posted s))"

lemma step_counts:
  assumes "op \<noteq> Forked" and "counts_exact s"
  shows "counts_exact (agent_step cfg s op)"
  using assms
  by (cases op) (auto simp: counts_exact_def agent_emit_def agent_take_def agent_send_def dispatch_link_def take_link_def
      send_link_def Let_def comp_def filter_True filter_False split: list.split)

lemma run_counts: "Forked \<notin> set ops \<Longrightarrow> counts_exact s \<Longrightarrow> counts_exact (foldl (agent_step cfg) s ops)"
proof (induction ops arbitrary: s)
  case (Cons op ops)
  then have "counts_exact (agent_step cfg s op)" by (intro step_counts) auto
  then show ?case using Cons by simp
qed simp

text \<open>C24: whatever callers, exporter and network do, in any order, with a fork of the process in it or
  not: every record taken in since the process began is evicted for the bound, posted, in the exporter's hands or
  queued, exactly once; what is posted, held and queued is in the order of recording; the queue keeps its
  bound, and at most one batch is out. So a child never posts a record of its parent, which still holds it.\<close>

theorem exporter_accounted:
  fixes cfg ops
  assumes "sane_config cfg"
  defines "s \<equiv> foldl (agent_step cfg) new_agent ops"
  shows "mset (at_emitted s) = mset (at_evicted s) + mset (map fst (at_posted s)) + mset (at_hand s) + mset (at_queue s)
    \<and> subseq (map fst (at_posted s) @ at_hand s @ at_queue s) (at_emitted s)
    \<and> int (length (at_queue s)) \<le> ac_queue_max cfg \<and> int (length (at_hand s)) \<le> ac_batch_max cfg
    \<and> at_inflight s = (if at_hand s = [] then 0 else 1)"
proof -
  have "agent_ok cfg s" using exporter.run_inv [of cfg new_agent ops] new_agent_ok assms by blast
  then show ?thesis unfolding agent_ok_def by simp
qed

definition small_agent :: agent_config where
  "small_agent =
     \<lparr>ac_service = ''shop'', ac_enabled = True, ac_queue_max = 2, ac_batch_max = 2, ac_networks = [], ac_max_body = 262144,
      ac_max_params = 1024\<rparr>"

abbreviation small_ops :: "(nat, nat) agent_op list" where
  "small_ops \<equiv> [Emit 1, Emit 2, Emit 3, TakeBatch, Emit 4, SendBatch [Broken, Status 202], TakeBatch, SendBatch [Broken, Broken]]"

lemma exporter_accounted_witness:
  "let s = foldl (agent_step small_agent) new_agent small_ops
   in mset (at_emitted s) = mset (at_evicted s) + mset (map fst (at_posted s)) + mset (at_hand s) + mset (at_queue s)
      \<and> at_posted s = [(2, True), (3, True), (4, False)]"
proof -
  have "sane_config small_agent" by code_simp
  moreover have "at_posted (foldl (agent_step small_agent) new_agent small_ops) = [(2, True), (3, True), (4, False)]" by code_simp
  ultimately show ?thesis using exporter_accounted [of small_agent small_ops] by (simp add: Let_def)
qed

text \<open>The counters tell how many records are gone only together with the batches that failed: a record of a
  failed batch is in no counter of records.\<close>

lemma exporter_counts:
  fixes cfg ops
  assumes "sane_config cfg" and "Forked \<notin> set ops"
  defines "s \<equiv> foldl (agent_step cfg) new_agent ops"
  shows "at_enqueued s = at_sent s + at_dropped s + length (filter (\<lambda>p. \<not> snd p) (at_posted s))
    + length (at_hand s) + length (at_queue s)"
proof -
  have "agent_ok cfg s" using exporter.run_inv [of cfg new_agent ops] new_agent_ok assms by blast
  then have "size (mset (at_emitted s)) =
      size (mset (at_evicted s) + mset (map fst (at_posted s)) + mset (at_hand s) + mset (at_queue s))"
    unfolding agent_ok_def by simp
  moreover have "counts_exact s" unfolding s_def by (rule run_counts) (use assms in \<open>simp_all add: counts_exact_def new_agent_def\<close>)
  moreover have "length (at_posted s) = length (filter snd (at_posted s)) + length (filter (\<lambda>p. \<not> snd p) (at_posted s))"
    using sum_length_filter_compl [of snd "at_posted s"] by simp
  ultimately show ?thesis by (simp add: counts_exact_def)
qed

section \<open>Draining\<close>

lemma take_batch:
  assumes "1 \<le> ac_batch_max cfg" and "at_queue s \<noteq> []"
  obtains n where "0 < n" "n \<le> length (at_queue s)" "agent_take cfg s =
    s\<lparr>at_inflight := at_inflight s + 1, at_hand := take n (at_queue s), at_queue := drop n (at_queue s)\<rparr>"
proof -
  define n where "n = nat (min (ac_batch_max cfg) (int (length (at_queue s))))"
  have nz: "min (ac_batch_max cfg) (int (length (at_queue s))) \<noteq> 0" using assms by (auto simp: min_def)
  have "agent_take cfg s =
      s\<lparr>at_inflight := at_inflight s + 1, at_hand := take n (at_queue s), at_queue := drop n (at_queue s)\<rparr>"
    using nz by (simp only: agent_take_def Let_def n_def if_False)
  moreover have "0 < n" "n \<le> length (at_queue s)" using assms by (auto simp: n_def)
  ultimately show thesis using that by blast
qed

text \<open>The exporter's loop ends for every queue, every configuration and whatever the collector answers, and
  with a positive batch size it then has posted each record that was queued, once and in order; only the
  outcome of the posts depends on the collector.\<close>

theorem drain_posts_all:
  fixes cfg net k s
  assumes "1 \<le> ac_batch_max cfg" and "at_hand s = []"
  defines "s' \<equiv> drain_all cfg net k s"
  shows "at_queue s' = [] \<and> at_hand s' = [] \<and> at_inflight s' = at_inflight s
    \<and> map fst (at_posted s') = map fst (at_posted s) @ at_queue s \<and> at_emitted s' = at_emitted s"
  using assms(1,2) unfolding s'_def
proof (induction cfg net k s rule: drain_all.induct)
  case (1 cfg net k s)
  have hand: "s\<lparr>at_hand := []\<rparr> = s" using 1(3) by simp
  show ?case
  proof (cases "at_queue s = []")
    case True
    then have "agent_take cfg s = s" using 1(2) by (simp add: agent_take_def)
    then show ?thesis using 1(3) True by (subst (1 2 3 4 5) drain_all.simps) (simp add: hand)
  next
    case False
    then obtain n where n: "0 < n" "n \<le> length (at_queue s)"
      and take: "agent_take cfg s
        = s\<lparr>at_inflight := at_inflight s + 1, at_hand := take n (at_queue s), at_queue := drop n (at_queue s)\<rparr>"
      using take_batch [OF 1(2)] by blast
    let ?s1 = "agent_take cfg s" and ?s2 = "agent_send (net k) (agent_take cfg s)"
    have ne: "at_hand ?s1 \<noteq> []" using n False by (simp add: take)
    have "drain_all cfg net k s = drain_all cfg net (k + 1) ?s2"
      using ne by (subst drain_all.simps) (simp add: hand Let_def)
    moreover have "at_hand ?s2 = []" "at_queue ?s2 = drop n (at_queue s)" "at_inflight ?s2 = at_inflight s"
      "map fst (at_posted ?s2) = map fst (at_posted s) @ take n (at_queue s)" "at_emitted ?s2 = at_emitted s"
      by (auto simp: agent_send_def Let_def take comp_def)
    ultimately show ?thesis using 1(1) [of ?s1] ne 1(2) by (simp add: hand)
  qed
qed

lemma drain_posts_all_witness:
  "map fst (at_posted (drain_all small_agent (\<lambda>_. [Broken, Broken]) 0
     ((new_agent :: (nat, nat) agent)\<lparr>at_queue := [1, 2, 3]\<rparr>))) = [1, 2, 3]"
proof -
  have "1 \<le> ac_batch_max small_agent" by code_simp
  then show ?thesis
    using drain_posts_all [of small_agent "(new_agent :: (nat, nat) agent)\<lparr>at_queue := [1, 2, 3]\<rparr>"] by (simp add: new_agent_def)
qed

end
