(* ===== verification/Agent_Middleware.thy ===== *)
theory Agent_Middleware
  imports Agent_Client
begin

text \<open>
  \<open>sdk/python/src/telemetry_agent/wsgi.py\<close> and \<open>asgi.py\<close>: how the agent sits around an application, what
  it takes of a request, and the one record it makes of it. The router of the framework is a parameter:
  its template and path variables, or (\<open>route_node\<close>) what \<open>matches\<close> answers on each of its routes. The
  application is what it does to the request's context, the status it answers and the subject it names. A
  record of \<open>None\<close>: the agent is off, or describing the request raised, which the middleware swallows.
\<close>

definition UNMATCHED_ROUTE :: string where "UNMATCHED_ROUTE = ''<unmatched>''"

definition header_map :: "(string \<times> string) list \<Rightarrow> (string, string) dict" where
  "header_map hs = foldl (\<lambda>d (k, v). dict_set k v d) [] hs"

definition header_text :: "string \<Rightarrow> (string, string) dict \<Rightarrow> string" where
  "header_text k m = get_or (dict_get m k) []"

text \<open>The inputs of a request in the order in which they are described.\<close>

definition described_inputs ::
  "agent_config \<Rightarrow> (bytes \<Rightarrow> loaded) \<Rightarrow> input_value \<Rightarrow> (string \<times> string) list \<Rightarrow> (string \<times> string) list \<Rightarrow> bytes option
   \<Rightarrow> string \<Rightarrow> described list \<Rightarrow> param_collector option" where
  "described_inputs cfg loads query path_params headers body content_type extra =
     (let c1 = collect_query query (new_param_collector (ac_max_params cfg));
          c2 = pc_add_many (texts path_params) ''path'' c1;
          c3 = collect_headers headers c2
      in map_option (pc_extend extra)
           (case body of None \<Rightarrow> Some c3 | Some b \<Rightarrow> collect_body loads b content_type c3))"

section \<open>WSGI\<close>

text \<open>The texts of the environ, the address \<open>ProxyFix\<close> put aside, and the stream of the body.\<close>

record wsgi_request =
  wq_environ :: "(string, string) dict"
  wq_orig :: "string option"
  wq_input :: "bytes option"
  wq_terminated :: bool

definition environ_headers :: "(string, string) dict \<Rightarrow> (string \<times> string) list" where
  "environ_headers env =
     List.map_filter (\<lambda>(k, v).
        if startswith k ''HTTP_'' then Some (lower (map (\<lambda>c. if c = CHR ''_'' then CHR ''-'' else c) (drop 5 k)), v)
        else if k = ''CONTENT_TYPE'' then Some (''content-type'', v)
        else if k = ''CONTENT_LENGTH'' then Some (''content-length'', v)
        else None) env"

definition environ_get :: "string \<Rightarrow> wsgi_request \<Rightarrow> string" where
  "environ_get k q = get_or (dict_get (wq_environ q) k) []"

definition wsgi_peer :: "wsgi_request \<Rightarrow> (string, string) dict \<Rightarrow> string" where
  "wsgi_peer q headers =
     (let peer = str_or (wq_orig q)
                   (str_or (dict_get (wq_environ q) ''werkzeug.proxy_fix.orig_remote_addr'') (environ_get ''REMOTE_ADDR'' q))
      in if peer_matches_forwarded_claim peer headers then [] else peer)"

definition script_name :: "wsgi_request \<Rightarrow> string" where
  "script_name q = rstrip_chars ''/'' (environ_get ''SCRIPT_NAME'' q)"

definition wsgi_template :: "wsgi_request \<Rightarrow> string option \<Rightarrow> string" where
  "wsgi_template q rule = (case rule of None \<Rightarrow> UNMATCHED_ROUTE | Some r \<Rightarrow> script_name q @ r)"

text \<open>\<open>read(n)\<close> with a size that may be negative, and the body with the stream the application gets.\<close>

definition read_stream :: "int \<Rightarrow> bytes \<Rightarrow> bytes" where
  "read_stream n s = (if n < 0 then s else take (nat n) s)"

definition declared_length :: "wsgi_request \<Rightarrow> int" where
  "declared_length q = env_int (Some (str_or (dict_get (wq_environ q) ''CONTENT_LENGTH'') ''0'')) 0"

definition capture_body :: "agent_config \<Rightarrow> wsgi_request \<Rightarrow> bytes \<times> bytes option" where
  "capture_body cfg q =
     (case wq_input q of
        None \<Rightarrow> ([], None)
      | Some s \<Rightarrow>
          (let declared = declared_length q
           in if declared \<le> 0 \<and> \<not> wq_terminated q then ([], Some s)
              else
                let body = read_stream (if 0 < declared then min declared (ac_max_body cfg) else ac_max_body cfg) s
                in (body, Some (if 0 < declared \<and> declared \<le> int (length body) then body
                                else body @ drop (length body) s))))"

definition wsgi_context :: "agent_config \<Rightarrow> wsgi_request \<Rightarrow> string \<Rightarrow> string \<Rightarrow> request_context" where
  "wsgi_context cfg q rid template =
     (let peer = wsgi_peer q (header_map (environ_headers (wq_environ q)))
      in \<lparr>rc_request_id = rid, rc_synthetic = is_synthetic_peer cfg peer, rc_peer_ip = peer,
          rc_client_ip = environ_get ''REMOTE_ADDR'' q, rc_route = Some template, rc_auth_subject = None, rc_extra = []\<rparr>)"

definition status_code :: "string \<Rightarrow> int option" where
  "status_code line = int_of_text (before (CHR '' '') line)"

definition wsgi_record ::
  "agent_config \<Rightarrow> (bytes \<Rightarrow> loaded) \<Rightarrow> (rat \<Rightarrow> string) \<Rightarrow> rat \<Rightarrow> wsgi_request \<Rightarrow> string \<Rightarrow> (string \<times> string) list
   \<Rightarrow> request_context \<Rightarrow> string option \<Rightarrow> int option \<Rightarrow> bytes \<Rightarrow> obj option" where
  "wsgi_record cfg loads show_ts now q template path_params ctx auth status body =
     (let headers = environ_headers (wq_environ q); m = header_map headers
      in if \<not> ac_enabled cfg then None
         else map_option (\<lambda>c. request_record cfg show_ts now (Some ctx)
           \<lparr>rf_method = get_or (dict_get (wq_environ q) ''REQUEST_METHOD'') ''GET'',
            rf_route = str_or (rc_route ctx) template, rf_path = Some (script_name q @ environ_get ''PATH_INFO'' q),
            rf_host = Some (agent_host (dict_get m ''host'')), rf_status = status, rf_params = pc_entries c,
            rf_auth_subject = (case rc_auth_subject ctx of None \<Rightarrow> auth | Some a \<Rightarrow> Some a),
            rf_client_ip = Some (environ_get ''REMOTE_ADDR'' q), rf_user_agent = Some (header_text ''user-agent'' m),
            rf_request_id = Some (rc_request_id ctx), rf_synthetic = rc_synthetic ctx, rf_peer_ip = Some (rc_peer_ip ctx)\<rparr>)
           (described_inputs cfg loads (Text (environ_get ''QUERY_STRING'' q)) path_params headers (Some body)
              (header_text ''content-type'' m) (rc_extra ctx)))"

section \<open>ASGI\<close>

text \<open>What \<open>matches\<close> answers on a route (\<open>None\<close>: it raises) with its path variables, and its subroutes.\<close>

datatype route_node = RouteNode "nat option" "string option" "(string, string) dict" "route_node list"

definition MOUNT_SUFFIX :: string where "MOUNT_SUFFIX = ''/{path}''"

definition mount_prefix :: "string option \<Rightarrow> string" where
  "mount_prefix path_format =
     (let p = str_or path_format []
      in if endswith p MOUNT_SUFFIX then take (length p - length MOUNT_SUFFIX) p else p)"

fun resolve_node :: "route_node \<Rightarrow> (bool \<times> string \<times> (string, string) dict) option"
  and resolve_nodes :: "route_node list \<Rightarrow> (string \<times> (string, string) dict) option \<Rightarrow> (string \<times> (string, string) dict) option" where
  "resolve_node (RouteNode rank path_format params subs) =
     (if rank = None \<or> rank = Some 0 then None
      else if subs \<noteq> [] then
        (case resolve_nodes subs None of
           None \<Rightarrow> None
         | Some (t, ps) \<Rightarrow>
             Some (True, mount_prefix path_format @ t,
               dict_del ''path'' (foldl (\<lambda>d (k, v). dict_set k v d) params ps)))
      else case path_format of None \<Rightarrow> None | Some f \<Rightarrow> Some (2 \<le> the rank, f, params))"
| "resolve_nodes [] partial = partial"
| "resolve_nodes (r # rs) partial =
     (case resolve_node r of
        None \<Rightarrow> resolve_nodes rs partial
      | Some (full, found) \<Rightarrow>
          if full then Some found else resolve_nodes rs (if partial = None then Some found else partial))"

definition decode_headers :: "(bytes \<times> bytes) list \<Rightarrow> (string \<times> string) list" where
  "decode_headers raw = map (\<lambda>(k, v). (lower (latin1 k), latin1 v)) raw"

definition declares_body :: "(string, string) dict \<Rightarrow> bool" where
  "declares_body m =
     (contains (lower (header_text ''transfer-encoding'' m)) ''chunked''
      \<or> 0 < env_int (Some (get_or (dict_get m ''content-length'') ''0'')) 0)"

text \<open>Messages of \<open>receive\<close>: a part of the body and whether more follows, or any other message.\<close>

datatype asgi_message = BodyPart bytes bool | OtherMessage string

text \<open>\<open>prefetch\<close>: the messages buffered, the body, and the messages not asked for yet.\<close>

fun prefetch :: "int \<Rightarrow> nat \<Rightarrow> asgi_message list \<Rightarrow> asgi_message list \<times> bytes \<times> asgi_message list" where
  "prefetch m total_len [] = ([], [], [])"
| "prefetch m total_len (OtherMessage x # ms) = ([OtherMessage x], [], ms)"
| "prefetch m total_len (BodyPart b more_body # ms) =
     (let part = (if int total_len < m then take (nat (m - int total_len)) b else []);
          seen = total_len + length b
      in if \<not> more_body \<or> m \<le> int seen then ([BodyPart b more_body], part, ms)
         else let (buffered, body, rest) = prefetch m seen ms in (BodyPart b more_body # buffered, part @ body, rest))"

text \<open>\<open>receive\<close> of the application: the buffered messages, then the original ones.\<close>

definition replay_receive :: "asgi_message list \<times> asgi_message list \<Rightarrow> (asgi_message \<times> asgi_message list \<times> asgi_message list) option" where
  "replay_receive s =
     (case s of
        (m # buffered, rest) \<Rightarrow> Some (m, buffered, rest)
      | ([], m # rest) \<Rightarrow> Some (m, [], rest)
      | ([], []) \<Rightarrow> None)"

record asgi_request =
  aq_method :: "string option"
  aq_websocket :: bool
  aq_headers :: "(bytes \<times> bytes) list"
  aq_client :: string
  aq_path :: string
  aq_query :: bytes

definition asgi_context :: "agent_config \<Rightarrow> asgi_request \<Rightarrow> string \<Rightarrow> string \<Rightarrow> request_context" where
  "asgi_context cfg q rid template =
     (let m = header_map (decode_headers (aq_headers q));
          peer = (if peer_matches_forwarded_claim (aq_client q) m then [] else aq_client q)
      in \<lparr>rc_request_id = rid, rc_synthetic = is_synthetic_peer cfg peer, rc_peer_ip = peer, rc_client_ip = aq_client q,
          rc_route = Some template, rc_auth_subject = None, rc_extra = []\<rparr>)"

definition asgi_body :: "agent_config \<Rightarrow> asgi_request \<Rightarrow> asgi_message list \<Rightarrow> bytes option \<times> asgi_message list \<times> asgi_message list" where
  "asgi_body cfg q ms =
     (if \<not> aq_websocket q \<and> declares_body (header_map (decode_headers (aq_headers q)))
      then let (buffered, body, rest) = prefetch (ac_max_body cfg) 0 ms in (Some body, buffered, rest)
      else (None, [], ms))"

definition asgi_record ::
  "agent_config \<Rightarrow> (bytes \<Rightarrow> loaded) \<Rightarrow> (rat \<Rightarrow> string) \<Rightarrow> rat \<Rightarrow> asgi_request \<Rightarrow> string \<Rightarrow> (string \<times> string) list
   \<Rightarrow> request_context \<Rightarrow> string option \<Rightarrow> int option \<Rightarrow> bytes option \<Rightarrow> obj option" where
  "asgi_record cfg loads show_ts now q template path_params ctx auth status body =
     (let headers = decode_headers (aq_headers q); m = header_map headers
      in if \<not> ac_enabled cfg then None
         else map_option (\<lambda>c. request_record cfg show_ts now (Some ctx)
           \<lparr>rf_method = str_or (aq_method q) (if aq_websocket q then ''WEBSOCKET'' else ''GET''),
            rf_route = str_or (rc_route ctx) template, rf_path = Some (aq_path q),
            rf_host = Some (agent_host (or_str (dict_get m '':authority'') (dict_get m ''host''))), rf_status = status,
            rf_params = pc_entries c,
            rf_auth_subject = (case rc_auth_subject ctx of None \<Rightarrow> auth | Some a \<Rightarrow> Some a),
            rf_client_ip = Some (rc_client_ip ctx), rf_user_agent = Some (header_text ''user-agent'' m),
            rf_request_id = Some (rc_request_id ctx), rf_synthetic = rc_synthetic ctx, rf_peer_ip = Some (rc_peer_ip ctx)\<rparr>)
           (described_inputs cfg loads (Raw (aq_query q)) path_params headers body
              (header_text ''content-type'' m) (rc_extra ctx)))"

end
