(* ===== verification/Agent_Facts.thy ===== *)
theory Agent_Facts
  imports Agent_Middleware Score_Verdicts
begin

text \<open>
  The agent and the scorer together: what the scorer reads out of the record of a request is the truth about
  the request. The application behind the middleware sees its body as it came, and no header a caller
  sends makes its traffic count as the platform's own.
\<close>

section \<open>Everything is described\<close>

type_synonym input = "string \<times> string \<times> input_value"

definition add_inputs :: "input list \<Rightarrow> param_collector \<Rightarrow> param_collector" where
  "add_inputs xs c = foldl (\<lambda>c (location, n, v). pc_add n location v c) c xs"

lemma add_inputs_simps [simp]:
  "add_inputs [] c = c" "add_inputs (x # xs) c = add_inputs xs (case x of (l, n, v) \<Rightarrow> pc_add n l v c)"
  "add_inputs (xs @ ys) c = add_inputs ys (add_inputs xs c)"
  by (simp_all add: add_inputs_def case_prod_beta)

definition placed :: "string \<Rightarrow> (string \<times> input_value) list \<Rightarrow> input list" where
  "placed location ps = map (\<lambda>(n, v). (location, n, v)) ps"

lemma add_many_inputs: "pc_add_many ps location c = add_inputs (placed location ps) c"
  by (induction ps arbitrary: c) (simp_all add: pc_add_many_def placed_def)

definition header_inputs :: "(string \<times> string) list \<Rightarrow> input list" where
  "header_inputs hs =
     concat (map (\<lambda>(n, v).
       if lower n = ''cookie'' then placed ''cookie'' (texts (parse_cookie_header v))
       else if is_described_header (lower n) then [(''header'', lower n, Text v)] else []) hs)"

lemma collect_headers_inputs: "collect_headers hs c = add_inputs (header_inputs hs) c"
  by (induction hs arbitrary: c) (auto simp: collect_headers_def header_inputs_def add_many_inputs)

definition query_inputs :: "input_value \<Rightarrow> input list" where
  "query_inputs q = (if to_text q = [] then [] else placed ''query'' (texts (qsl_pairs (to_text q))))"

definition group_inputs :: "(string \<times> (string \<times> input_value) list) list \<Rightarrow> input list" where
  "group_inputs gs = concat (map (\<lambda>(l, ps). placed l ps) gs)"

lemma add_groups_inputs: "add_groups gs c = add_inputs (group_inputs gs) c"
  by (induction gs arbitrary: c) (auto simp: add_groups_def group_inputs_def add_many_inputs)

text \<open>The inputs a request carries: query, path variables, headers and cookies, and the body.\<close>

definition request_inputs ::
  "(bytes \<Rightarrow> loaded) \<Rightarrow> input_value \<Rightarrow> (string \<times> string) list \<Rightarrow> (string \<times> string) list \<Rightarrow> bytes option \<Rightarrow> string
   \<Rightarrow> input list option" where
  "request_inputs loads query path_params headers body content_type =
     map_option (\<lambda>gs. query_inputs query @ placed ''path'' (texts path_params) @ header_inputs headers @ group_inputs gs)
       (case body of None \<Rightarrow> Some [] | Some b \<Rightarrow> body_inputs loads b content_type)"

lemma described_inputs_eq:
  "described_inputs cfg loads query path_params headers body content_type []
   = map_option (\<lambda>xs. add_inputs xs (new_param_collector (ac_max_params cfg)))
       (request_inputs loads query path_params headers body content_type)"
proof -
  have q: "collect_query query c = add_inputs (query_inputs query) c" for c
    by (simp add: collect_query_def query_inputs_def add_many_inputs)
  have "pc_extend [] = id" by (simp add: pc_extend_def fun_eq_iff)
  then show ?thesis
    by (cases body)
       (simp_all add: described_inputs_def request_inputs_def q add_many_inputs collect_headers_inputs collect_body_def
         option.map_comp comp_def add_groups_inputs group_inputs_def Let_def)
qed

definition collector_ok :: "param_collector \<Rightarrow> bool" where
  "collector_ok c \<longleftrightarrow> set (pc_seen c) = entry_key ` set (pc_entries c)"

lemma add_inputs_all:
  assumes "collector_ok c" and "int (length (pc_entries c) + length xs) \<le> pc_max c"
  shows "set (pc_entries c) \<subseteq> set (pc_entries (add_inputs xs c))
    \<and> set (pc_entries (add_inputs xs c)) \<subseteq> set (pc_entries c) \<union> (\<lambda>(l, n, v). describe_param n l v) ` set xs
    \<and> entry_key ` (\<lambda>(l, n, v). describe_param n l v) ` set xs \<subseteq> entry_key ` set (pc_entries (add_inputs xs c))"
  using assms
proof (induction xs arbitrary: c)
  case (Cons x xs)
  obtain l n v where x: "x = (l, n, v)" by (cases x)
  let ?c = "pc_add n l v c" and ?e = "describe_param n l v"
  have room: "\<not> pc_full c" using Cons.prems(2) by (simp add: pc_full_def)
  have ok: "collector_ok ?c" using Cons.prems(1) room by (auto simp: pc_add_def Let_def collector_ok_def keep_entry_def)
  have c: "pc_max ?c = pc_max c" "length (pc_entries ?c) \<le> Suc (length (pc_entries c))"
    "set (pc_entries c) \<subseteq> set (pc_entries ?c)" "set (pc_entries ?c) \<subseteq> insert ?e (set (pc_entries c))"
    "entry_key ?e \<in> entry_key ` set (pc_entries ?c)"
    using room Cons.prems(1) by (auto simp: pc_add_def Let_def keep_entry_def collector_ok_def)
  then have fits: "int (length (pc_entries ?c) + length xs) \<le> pc_max ?c" using Cons.prems(2) by simp
  note IH = Cons.IH [OF ok fits]
  have "entry_key ?e \<in> entry_key ` set (pc_entries (add_inputs xs ?c))" using IH c(5) by blast
  then show ?case using IH c(3,4) by (simp add: x) blast
qed simp

section \<open>The scorer reads what was sent\<close>

definition value_counts :: "string option \<Rightarrow> input_value \<Rightarrow> bool" where
  "value_counts dflt x =
     (case dflt of None \<Rightarrow> value_bytes x \<noteq> [] | Some d \<Rightarrow> sha256_hex (value_bytes x) \<noteq> sha256_of d)"

text \<open>The input a vulnerability is about, with a value that is not its default.\<close>

definition input_hits :: "vuln \<Rightarrow> input \<Rightarrow> bool" where
  "input_hits v x =
     (case x of (location, n, value_sent) \<Rightarrow>
        lower (strip n) = lower (str_or (ep_param (v_entrypoint v)) [])
        \<and> param_in_matches (ep_param_in (v_entrypoint v)) location
        \<and> value_counts (ep_default (v_entrypoint v)) value_sent)"

lemma sha_digits: "set (sha256_hex bs) \<subseteq> set ''0123456789abcdef''"
proof -
  have "hex_digit n \<in> set ''0123456789abcdef''" for n
    unfolding hex_digit_def by (rule nth_mem) simp
  then have "set (hex_byte n) \<subseteq> set ''0123456789abcdef''" for n
    unfolding hex_byte_def set_simps(2) [of "hex_digit a" for a] empty_set insert_subset by simp
  then show ?thesis by (auto simp: sha256_hex_def hex_word_def simp del: list.set)
qed

lemma sha_plain: "strip (sha256_hex bs) = sha256_hex bs" "sha256_hex bs \<noteq> []"
proof -
  have "list_all (\<lambda>c. \<not> is_space c) ''0123456789abcdef''" by code_simp
  then have "\<forall>c\<in>set (sha256_hex bs). \<not> is_space c" using sha_digits [of bs] unfolding list_all_iff by blast
  then show "strip (sha256_hex bs) = sha256_hex bs" by (rule strip_where_none)
  show "sha256_hex bs \<noteq> []" using length_sha256 [of bs] by (metis list.size(3) zero_neq_numeral)
qed

lemma utf8_empty: "utf8_encode s = [] \<longleftrightarrow> s = []"
  by (cases s) (auto simp: utf8_encode_def Let_def)

lemma value_empty_iff: "value_bytes x = [] \<longleftrightarrow> value_len x = 0"
  by (cases x) (simp_all add: value_bytes_def value_len_def utf8_empty)

lemma to_text_empty: "value_bytes x = [] \<Longrightarrow> to_text x = []"
  by (cases x) (simp_all add: value_bytes_def to_text_def decode_utf8_def text_of_def utf8_empty)

definition read_back :: "described \<Rightarrow> param" where
  "read_back e = param_from_dict (obj_of (described_json e))"

definition agent_places :: "string list" where
  "agent_places = [''query'', ''path'', ''header'', ''cookie'', ''json'', ''graphql'', ''body'', ''multipart'', ''raw'', ''websocket'']"

lemma read_back_described:
  assumes "location \<in> set agent_places"
  shows "p_name (read_back (describe_param n location x)) = strip n"
    and "p_location (read_back (describe_param n location x)) = location"
    and "p_sha256 (read_back (describe_param n location x)) = Some (sha256_hex (value_bytes x))"
    and "p_len (read_back (describe_param n location x)) = Some (int (value_len x))"
    and "p_sample (read_back (describe_param n location x)) = Some (take SAMPLE_MAX (to_text x))"
proof -
  have "list_all (\<lambda>l. strip l = l \<and> l \<noteq> []) agent_places" by code_simp
  then have l: "strip location = location" "location \<noteq> []" using assms by (auto simp: list_all_iff)
  note defs = read_back_def described_json_def describe_param_def obj_of_def param_from_dict_def jget_def scalar_text_def
    int_field_def str_field_def
  show "p_name (read_back (describe_param n location x)) = strip n" by (simp add: defs str_or_def falsy_none_def)
  show "p_location (read_back (describe_param n location x)) = location" using l by (simp add: defs str_or_def falsy_none_def)
  show "p_sha256 (read_back (describe_param n location x)) = Some (sha256_hex (value_bytes x))"
    by (simp add: defs falsy_none_def sha_plain)
  show "p_len (read_back (describe_param n location x)) = Some (int (value_len x))"
    "p_sample (read_back (describe_param n location x)) = Some (take SAMPLE_MAX (to_text x))"
    by (simp_all add: defs)
qed

lemma hit_iff:
  assumes "location \<in> set agent_places"
    and "ep_default (v_entrypoint v) = None \<Longrightarrow> sha256_hex (value_bytes x) = EMPTY_SHA256 \<Longrightarrow> value_bytes x = []"
  shows "param_hit v (read_back (describe_param n location x)) \<longleftrightarrow> input_hits v (location, n, x)"
proof -
  let ?p = "read_back (describe_param n location x)"
  note r = read_back_described [OF assms(1), of n x]
  have sha: "param_sha ?p = Some (sha256_hex (value_bytes x))"
    by (simp add: param_sha_def r str_or_def falsy_none_def sha_plain)
  have "value_differs None ?p \<longleftrightarrow> value_bytes x \<noteq> []" if "ep_default (v_entrypoint v) = None"
    using assms(2) [OF that] to_text_empty [of x] value_empty_iff [of x]
    by (auto simp: value_differs_def sha r EMPTY_SHA256_def truthy_def)
  moreover have "value_differs (Some d) ?p \<longleftrightarrow> sha256_hex (value_bytes x) \<noteq> sha256_of d" for d
    by (simp add: value_differs_def sha)
  ultimately have "value_differs (ep_default (v_entrypoint v)) ?p \<longleftrightarrow> value_counts (ep_default (v_entrypoint v)) x"
    by (cases "ep_default (v_entrypoint v)") (simp_all add: value_counts_def)
  then show ?thesis by (simp add: param_hit_def r(1,2) input_hits_def)
qed

text \<open>Entries with one key are hit together, so dropping a repeated input changes nothing.\<close>

lemma hit_by_key:
  assumes "location \<in> set agent_places" and "entry_key (describe_param n location x) = entry_key (describe_param n' l' y)"
    and "\<forall>z\<in>{x, y}. ep_default (v_entrypoint v) = None \<longrightarrow> sha256_hex (value_bytes z) = EMPTY_SHA256 \<longrightarrow> value_bytes z = []"
  shows "param_hit v (read_back (describe_param n location x)) \<longleftrightarrow> param_hit v (read_back (describe_param n' l' y))"
proof -
  have k: "l' = location" "n' = n" "sha256_hex (value_bytes y) = sha256_hex (value_bytes x)"
    using assms(2) by (simp_all add: entry_key_def describe_param_def)
  have "value_bytes x = [] \<longleftrightarrow> value_bytes y = []" if "ep_default (v_entrypoint v) = None"
    using that assms(3) k(3) by (auto simp: EMPTY_SHA256_def)
  then have "input_hits v (location, n, x) \<longleftrightarrow> input_hits v (location, n, y)"
    using k(3) by (auto simp: input_hits_def value_counts_def split: option.split)
  moreover have "param_hit v (read_back (describe_param n location z)) \<longleftrightarrow> input_hits v (location, n, z)"
    if "z \<in> {x, y}" for z
    using assms(3) that by (intro hit_iff [OF assms(1)]) blast
  ultimately show ?thesis unfolding k(1,2) by blast
qed

text \<open>No value of the inputs but the empty one has the digest of the empty value.\<close>

definition no_collision :: "vuln \<Rightarrow> input list \<Rightarrow> bool" where
  "no_collision v xs \<longleftrightarrow>
     (ep_default (v_entrypoint v) = None \<longrightarrow>
       list_all (\<lambda>(l, n, x). sha256_hex (value_bytes x) = EMPTY_SHA256 \<longrightarrow> value_bytes x = []) xs)"

lemma collected_hits:
  assumes "int (length xs) \<le> m" and "list_all (\<lambda>(l, n, x). l \<in> set agent_places) xs" and "no_collision v xs"
  shows "(\<exists>e\<in>set (pc_entries (add_inputs xs (new_param_collector m))). param_hit v (read_back e))
    \<longleftrightarrow> (\<exists>i\<in>set xs. input_hits v i)"
proof -
  let ?E = "set (pc_entries (add_inputs xs (new_param_collector m)))"
  have all: "?E \<subseteq> (\<lambda>(l, n, x). describe_param n l x) ` set xs"
    "entry_key ` (\<lambda>(l, n, x). describe_param n l x) ` set xs \<subseteq> entry_key ` ?E"
    using add_inputs_all [of "new_param_collector m" xs] assms(1) by (auto simp: collector_ok_def new_param_collector_def)
  have good: "l \<in> set agent_places"
    "ep_default (v_entrypoint v) = None \<Longrightarrow> sha256_hex (value_bytes x) = EMPTY_SHA256 \<Longrightarrow> value_bytes x = []"
    if "(l, n, x) \<in> set xs" for l n x
    using that assms(2,3) by (auto simp: list_all_iff no_collision_def)
  show ?thesis
  proof
    assume "\<exists>e\<in>?E. param_hit v (read_back e)"
    then obtain l n x where "(l, n, x) \<in> set xs" "param_hit v (read_back (describe_param n l x))" using all(1) by auto
    then show "\<exists>i\<in>set xs. input_hits v i" using hit_iff good by blast
  next
    assume "\<exists>i\<in>set xs. input_hits v i"
    then obtain l n x where i: "(l, n, x) \<in> set xs" "input_hits v (l, n, x)" by auto
    then have hit: "param_hit v (read_back (describe_param n l x))" using hit_iff good by blast
    have "entry_key (describe_param n l x) \<in> entry_key ` ?E" using all(2) i(1) by force
    then obtain e where e: "e \<in> ?E" "entry_key (describe_param n l x) = entry_key e" by auto
    then obtain l' n' y where y: "(l', n', y) \<in> set xs" "e = describe_param n' l' y" using all(1) by auto
    have "param_hit v (read_back e)"
      using hit_by_key [of l n x n' l' y v] good [OF i(1)] good [OF y(1)] e(2) hit by (auto simp: y(2))
    then show "\<exists>e\<in>?E. param_hit v (read_back e)" using e(1) by blast
  qed
qed

section \<open>From the request to the verdict\<close>

lemma body_places:
  assumes "body_inputs loads b content_type = Some gs" and "(l, ps) \<in> set gs"
  shows "l \<in> set agent_places"
  using assms
  by (auto simp: body_inputs_def json_inputs_def Let_def agent_places_def
      split: if_splits loaded.splits json.splits)

lemma request_places:
  assumes "request_inputs loads query path_params headers body content_type = Some xs"
  shows "list_all (\<lambda>(l, n, x). l \<in> set agent_places) xs"
proof -
  have group: "l \<in> set agent_places"
    if "(case body of None \<Rightarrow> Some [] | Some b \<Rightarrow> body_inputs loads b content_type) = Some gs" "(l, n, x) \<in> set (group_inputs gs)"
    for gs l n x
    using that body_places [of loads _ content_type gs l] by (cases body) (auto simp: group_inputs_def placed_def)
  have "l \<in> set agent_places" if "(l, n, x) \<in> set (query_inputs query @ placed ''path'' (texts path_params) @ header_inputs headers)"
    for l n x
    using that by (auto simp: query_inputs_def header_inputs_def placed_def texts_def agent_places_def split: if_splits)
  then show ?thesis using assms group by (fastforce simp: request_inputs_def list_all_iff)
qed

lemma jget_set: "jget (dict_set k v d) k' = (if k' = k then v else jget d k')"
  by (simp add: jget_def)

lemma jget_truthy_field: "k' \<noteq> k \<Longrightarrow> jget (truthy_field k v d) k' = jget d k'"
  by (simp add: truthy_field_def jget_set)

lemma request_record_params: "jget (request_record cfg show_ts now ctx f) ''params'' = JList (map described_json (rf_params f))"
  by (simp add: request_record_def Let_def jget_truthy_field jget_set)

lemma objects_described: "objects (JList (map described_json es)) = map (\<lambda>e. obj_of (described_json e)) es"
  by (induction es) (simp_all add: objects_def jiter_def described_json_def obj_of_def List.map_filter_simps)

lemma record_exercised:
  "fst (param_is_exercised v (http_from_dict (request_record cfg show_ts now ctx f)))
   \<longleftrightarrow> (\<exists>e\<in>set (rf_params f). param_hit v (read_back e))"
  by (simp add: param_is_exercised_iff http_from_dict_def request_record_params objects_described read_back_def)

definition wsgi_inputs :: "(bytes \<Rightarrow> loaded) \<Rightarrow> wsgi_request \<Rightarrow> (string \<times> string) list \<Rightarrow> bytes \<Rightarrow> input list option" where
  "wsgi_inputs loads q path_params body =
     (let hs = environ_headers (wq_environ q)
      in request_inputs loads (Text (environ_get ''QUERY_STRING'' q)) path_params hs (Some body)
           (header_text ''content-type'' (header_map hs)))"

definition asgi_inputs :: "(bytes \<Rightarrow> loaded) \<Rightarrow> asgi_request \<Rightarrow> (string \<times> string) list \<Rightarrow> bytes option \<Rightarrow> input list option" where
  "asgi_inputs loads q path_params body =
     (let hs = decode_headers (aq_headers q)
      in request_inputs loads (Raw (aq_query q)) path_params hs body (header_text ''content-type'' (header_map hs)))"

text \<open>When a request leaves a record at all.\<close>

lemma record_made_iff:
  "wsgi_record cfg loads show_ts now q template path_params ctx auth status body \<noteq> None
     \<longleftrightarrow> ac_enabled cfg \<and> body_inputs loads body (header_text ''content-type'' (header_map (environ_headers (wq_environ q)))) \<noteq> None"
  by (simp add: wsgi_record_def Let_def described_inputs_def collect_body_def)


section \<open>The application\<close>

text \<open>What the application gets from its first \<open>n\<close> calls of \<open>receive\<close>.\<close>

fun received :: "nat \<Rightarrow> asgi_message list \<times> asgi_message list \<Rightarrow> asgi_message list" where
  "received 0 s = []"
| "received (Suc n) s = (case replay_receive s of None \<Rightarrow> [] | Some (m, s') \<Rightarrow> m # received n s')"

lemma received_all: "received n (buffered, rest) = take n (buffered @ rest)"
proof (induction n arbitrary: buffered rest)
  case (Suc n)
  then show ?case by (cases buffered; cases rest) (simp_all add: replay_receive_def)
qed simp

definition part_octets :: "asgi_message \<Rightarrow> bytes" where
  "part_octets m = (case m of BodyPart b more_body \<Rightarrow> b | OtherMessage x \<Rightarrow> [])"

lemma prefetch_parts:
  "prefetch m n ms = (buffered, body, rest) \<Longrightarrow>
     buffered @ rest = ms \<and> body = take (nat (m - int n)) (concat (map part_octets buffered))"
proof (induction m n ms arbitrary: buffered body rest rule: prefetch.induct)
  case (3 m n b more_body ms)
  show ?case
  proof (cases "\<not> more_body \<or> m \<le> int (n + length b)")
    case True
    then show ?thesis using 3(2) by (auto simp: part_octets_def Let_def)
  next
    case False
    obtain bs y r where p: "prefetch m (n + length b) ms = (bs, y, r)" by (cases "prefetch m (n + length b) ms")
    have IH: "bs @ r = ms" "y = take (nat (m - int (n + length b))) (concat (map part_octets bs))"
      using 3(1) [OF refl refl False p] by simp_all
    have len: "nat (m - int n) - length b = nat (m - (int n + int (length b)))" by simp
    have "part_octets (BodyPart b more_body) = b" by (simp add: part_octets_def)
    then show ?thesis using 3(2) False IH p len by (auto simp: Let_def)
  qed
qed (auto simp: part_octets_def)

lemma read_prefix: "read_stream n s @ drop (length (read_stream n s)) s = s"
  by (simp add: read_stream_def min_def)

lemma capture_exact:
  assumes "0 < declared" and "declared \<le> int (length (read_stream (min declared m) s))"
  shows "read_stream (min declared m) s = s \<or> read_stream (min declared m) s = take (nat declared) s"
  using assms by (auto simp: read_stream_def min_def split: if_splits)

text \<open>The application behind the middleware is not disturbed: an ASGI application receives the messages it
  would have received, in order, and a WSGI one the stream of its body, cut at most at the declared length.
  What is described of an ASGI body is its start, up to the limit.\<close>

theorem application_untouched:
  "received n (snd (asgi_body cfg aq ms)) = take n ms
   \<and> fst (asgi_body cfg aq ms) \<in> {None, Some (take (nat (ac_max_body cfg)) (concat (map part_octets (fst (snd (asgi_body cfg aq ms))))))}
   \<and> (case wq_input q of
        None \<Rightarrow> capture_body cfg q = ([], None)
      | Some s \<Rightarrow> fst (capture_body cfg q) = take (length (fst (capture_body cfg q))) s
          \<and> (snd (capture_body cfg q) = Some s
             \<or> 0 < declared_length q \<and> snd (capture_body cfg q) = Some (take (nat (declared_length q)) s)))"
proof -
  obtain buffered body rest where p: "prefetch (ac_max_body cfg) 0 ms = (buffered, body, rest)"
    by (cases "prefetch (ac_max_body cfg) 0 ms")
  note parts = prefetch_parts [OF p]
  have asgi: "received n (snd (asgi_body cfg aq ms)) = take n ms"
    "fst (asgi_body cfg aq ms) \<in> {None, Some (take (nat (ac_max_body cfg)) (concat (map part_octets (fst (snd (asgi_body cfg aq ms))))))}"
    using parts by (auto simp: asgi_body_def p received_all)
  have prefix: "read_stream k s = take (length (read_stream k s)) s" for k s
    by (simp add: read_stream_def min_def)
  show ?thesis
  proof (cases "wq_input q")
    case None
    then show ?thesis using asgi by (simp add: capture_body_def)
  next
    case (Some s)
    have "fst (capture_body cfg q) = take (length (fst (capture_body cfg q))) s"
      using prefix by (simp add: capture_body_def Some Let_def)
    moreover have "snd (capture_body cfg q) = Some s
        \<or> 0 < declared_length q \<and> snd (capture_body cfg q) = Some (take (nat (declared_length q)) s)"
      using capture_exact [of "declared_length q" "ac_max_body cfg" s]
      by (auto simp: capture_body_def Some Let_def read_prefix)
    ultimately show ?thesis using asgi Some by simp
  qed
qed

text \<open>The default of the vulnerability sent in a query is no exercise of it.\<close>

definition plain_request :: wsgi_request where
  "plain_request =
     \<lparr>wq_environ = [(''REQUEST_METHOD'', ''GET''), (''PATH_INFO'', ''/items/1''), (''QUERY_STRING'', ''q=1''),
                    (''REMOTE_ADDR'', ''10.0.0.9'')],
      wq_orig = None, wq_input = None, wq_terminated = False\<rparr>"

definition plain_agent :: agent_config where
  "plain_agent =
     \<lparr>ac_service = ''shop'', ac_enabled = True, ac_queue_max = 2, ac_batch_max = 2, ac_networks = [], ac_max_body = 262144,
      ac_max_params = 1024\<rparr>"

definition default_vuln :: vuln where
  "default_vuln = (let v = plain_vuln ''A'' [] in v\<lparr>v_entrypoint := (v_entrypoint v)\<lparr>ep_default := Some ''1''\<rparr>\<rparr>)"


section \<open>The platform's own traffic\<close>

lemma header_map_get: "dict_get (header_map hs) k = map_of (rev hs) k"
proof -
  have "dict_get (foldl (\<lambda>d (k, v). dict_set k v d) d hs) k = (case map_of (rev hs) k of None \<Rightarrow> dict_get d k | Some v \<Rightarrow> Some v)" for d
    by (induction hs arbitrary: d) (auto simp: map_add_def split: option.split)
  from this [of "[]"] show ?thesis by (simp add: header_map_def dict_get_def split: option.split)
qed

text \<open>The request with the headers a caller chooses, and without any.\<close>

definition with_headers :: "(string \<times> string) list \<Rightarrow> wsgi_request \<Rightarrow> wsgi_request" where
  "with_headers hs q =
     q\<lparr>wq_environ := filter (\<lambda>(k, v). \<not> startswith k ''HTTP_'') (wq_environ q) @ map (\<lambda>(k, v). (''HTTP_'' @ k, v)) hs\<rparr>"

lemma with_headers_get: "\<not> startswith k ''HTTP_'' \<Longrightarrow> dict_get (wq_environ (with_headers hs q)) k = dict_get (wq_environ q) k"
proof -
  assume k: "\<not> startswith k ''HTTP_''"
  have "map_of (map (\<lambda>(k, v). (''HTTP_'' @ k, v)) hs) k = None"
    using k by (auto simp: map_of_eq_None_iff startswith_def)
  moreover have "map_of (filter (\<lambda>(k, v). \<not> startswith k ''HTTP_'') env) k = map_of env k" for env :: "(string, string) dict"
    using k by (induction env) auto
  ultimately show ?thesis by (simp add: with_headers_def dict_get_def map_add_def del: append.simps split: option.split)
qed

lemma no_claims: "peer_matches_forwarded_claim p (header_map (environ_headers (wq_environ (with_headers [] q)))) = False"
proof -
  have "fst ` set (environ_headers (wq_environ (with_headers [] q))) \<subseteq> {''content-type'', ''content-length''}"
    by (auto simp: environ_headers_def with_headers_def List.map_filter_def split: if_splits)
  moreover have "list_all (\<lambda>h. h \<noteq> ''content-type'' \<and> h \<noteq> ''content-length'') FORWARDED_HEADERS" by code_simp
  ultimately have "\<forall>h\<in>set FORWARDED_HEADERS. dict_get (header_map (environ_headers (wq_environ (with_headers [] q)))) h = None"
    unfolding header_map_get map_of_eq_None_iff set_rev list_all_iff by blast
  then show ?thesis by (auto simp: peer_matches_forwarded_claim_def list_ex_iff)
qed

lemma no_claims_asgi: "peer_matches_forwarded_claim p (header_map (decode_headers [])) = False"
  by (simp add: peer_matches_forwarded_claim_def decode_headers_def header_map_def dict_get_def list_ex_iff)

lemma empty_peer: "is_synthetic_peer cfg [] = False"
  by (simp add: is_synthetic_peer_def)

text \<open>C25: No header makes traffic the platform's own: a request that the WSGI or ASGI middleware marks as synthetic is one
  it would mark with no header at all, so the mark rests on the address of the connection alone. Headers
  can only take the mark away, when they claim that very address.\<close>

theorem headers_never_synthetic:
  "(rc_synthetic (wsgi_context cfg (with_headers hs q) rid template)
      \<longrightarrow> rc_synthetic (wsgi_context cfg (with_headers [] q) rid template)
          \<and> \<not> peer_matches_forwarded_claim (rc_peer_ip (wsgi_context cfg (with_headers [] q) rid template))
                (header_map (environ_headers (wq_environ (with_headers hs q)))))
   \<and> (rc_synthetic (asgi_context cfg aq rid template)
      \<longrightarrow> is_synthetic_peer cfg (aq_client aq) \<and> rc_synthetic (asgi_context cfg (aq\<lparr>aq_headers := []\<rparr>) rid template))"
proof -
  have "\<not> startswith ''werkzeug.proxy_fix.orig_remote_addr'' ''HTTP_''" "\<not> startswith ''REMOTE_ADDR'' ''HTTP_''"
    by (simp_all add: startswith_def)
  note same = this [THEN with_headers_get]
  have orig: "wq_orig (with_headers hs q) = wq_orig q" for hs by (simp add: with_headers_def)
  show ?thesis
    by (auto simp: wsgi_context_def asgi_context_def wsgi_peer_def Let_def environ_get_def same orig no_claims no_claims_asgi
        empty_peer split: if_splits)
qed

lemma headers_never_synthetic_witness:
  "let cfg = plain_agent\<lparr>ac_networks := [Net4 0x0A000000 8]\<rparr>
   in rc_synthetic (wsgi_context cfg (with_headers [(''X_REQUEST_ID'', ''1'')] plain_request) ''r'' ''/'')
      \<and> rc_synthetic (wsgi_context cfg (with_headers [] plain_request) ''r'' ''/'')"
proof -
  have "rc_synthetic (wsgi_context (plain_agent\<lparr>ac_networks := [Net4 0x0A000000 8]\<rparr>)
    (with_headers [(''X_REQUEST_ID'', ''1'')] plain_request) ''r'' ''/'')" by code_simp
  then show ?thesis using headers_never_synthetic unfolding Let_def by blast
qed

section \<open>Concrete cases\<close>

text \<open>A part whose disposition gives the file's name first is described under the name of the file.\<close>

lemma file_name_for_field:
  "search_attr ''name'' (''form-data; filename='' @ CHR 0x22 # ''a.png'' @ CHR 0x22 # ''; name='' @ CHR 0x22 # ''avatar'' @ [CHR 0x22]) = Some ''a.png''"
  by code_simp

text \<open>A name with a line feed at its end passes for a signal's.\<close>

lemma signal_line_feed: "signal_shaped (''app.area.event'' @ [CHR 0x0A])"
  by code_simp

text \<open>A JSON body nested too deeply to be read leaves no record of the request.\<close>

lemma deep_body_unrecorded:
  assumes "body \<noteq> []" and "loads body = TooDeep"
    and "header_text ''content-type'' (header_map (environ_headers (wq_environ q))) = ''application/json''"
  shows "wsgi_record cfg loads show_ts now q template path_params ctx auth status body = None"
proof -
  have "lower (strip (before (CHR '';'') ''application/json'')) = ''application/json''" by code_simp
  then have "body_inputs loads body ''application/json'' = None" using assms(1,2) by (simp add: body_inputs_def Let_def)
  then show ?thesis using record_made_iff [of cfg loads show_ts now q template path_params ctx auth status body] assms(3) by simp
qed

end
