(* ===== verification/Run_Config.thy ===== *)
theory Run_Config
  imports Url Json
begin

text \<open>
  \<open>runners/_lib/config.py\<close>: the applications, their credentials and the tools as the harness reads them.
  YAML files are given as decoded documents, whose lists of users hold objects; the variables of the
  environment are an argument.
\<close>

section \<open>Variables and URLs\<close>

definition var_start :: "char \<Rightarrow> bool" where
  "var_start c = (ascii_alpha c \<or> c = CHR ''_'')"

definition var_char :: "char \<Rightarrow> bool" where
  "var_char c = (var_start c \<or> is_dec c)"

text \<open>A match of \<open>_VAR_RE\<close> at the start of a text: the name, the default and what follows.\<close>

definition var_here :: "string \<Rightarrow> (string \<times> string \<times> string) option" where
  "var_here s =
     (if \<not> startswith s ''${'' then None
      else let t = drop 2 s; name = takeWhile var_char t; r = dropWhile var_char t
           in if name = [] \<or> \<not> var_start (hd name) then None
              else if startswith r ''}'' then Some (name, [], tl r)
              else if startswith r '':-'' \<and> CHR ''}'' \<in> set (drop 2 r)
              then Some (name, before (CHR ''}'') (drop 2 r), after (CHR ''}'') (drop 2 r))
              else None)"

lemma var_here_shorter: "var_here s = Some (n, d, r) \<Longrightarrow> length r < length s"
proof -
  assume v: "var_here s = Some (n, d, r)"
  have w: "length (dropWhile var_char (drop 2 s)) \<le> length s" "length (after c t) \<le> length t" for c t
    using length_dropWhile_le [of var_char "drop 2 s"] length_dropWhile_le [of "\<lambda>x. x \<noteq> c" t]
    by (simp_all add: after_def le_diff_conv)
  have "s \<noteq> []" using v by (auto simp: var_here_def startswith_def)
  then show ?thesis
    using v w(1) w(2) [of "CHR ''}''" "drop 2 (dropWhile var_char (drop 2 s))"]
    by (auto simp: var_here_def Let_def startswith_def split: if_splits) (cases s; simp)+
qed

function expand_text :: "(string, string) dict \<Rightarrow> string \<Rightarrow> string" where
  "expand_text env s =
     (case var_here s of
        Some (name, otherwise, r) \<Rightarrow> str_or (dict_get env name) otherwise @ expand_text env r
      | None \<Rightarrow> (case s of [] \<Rightarrow> [] | c # t \<Rightarrow> c # expand_text env t))"
  by pat_completeness auto

termination
  by (relation "measure (\<lambda>(env, s). length s)") (auto dest: var_here_shorter)

declare expand_text.simps [simp del]

fun expand_vars :: "(string, string) dict \<Rightarrow> json \<Rightarrow> json" where
  "expand_vars env (JStr s) = JStr (expand_text env s)"
| "expand_vars env (JObj d) = JObj (map (\<lambda>(k, v). (k, expand_vars env v)) d)"
| "expand_vars env (JList xs) = JList (map (expand_vars env) xs)"
| "expand_vars env v = v"

text \<open>\<open>_strip_default_port\<close>; \<open>None\<close>: \<open>urlsplit\<close> raises.\<close>

definition url_scheme :: "string \<Rightarrow> string" where
  "url_scheme url =
     (let u = filter (\<lambda>c. code c \<noteq> 9 \<and> code c \<noteq> 10 \<and> code c \<noteq> 13) (dropWhile (\<lambda>c. code c \<le> 32) url)
      in lower (take (length u - Suc (length (drop_scheme u))) u))"

definition url_fragment :: "string \<Rightarrow> string" where
  "url_fragment url = after (CHR ''#'') (drop_netloc (url_cleaned url))"

definition strip_default_port :: "string \<Rightarrow> string option" where
  "strip_default_port url =
     map_option (\<lambda>p.
       let scheme = url_scheme url;
           suffix = (if scheme = ''http'' then '':80'' else if scheme = ''https'' then '':443'' else [])
       in if suffix \<noteq> [] \<and> endswith (su_netloc p) suffix
          then scheme @ ''://'' @ take (length (su_netloc p) - length suffix) (su_netloc p) @ su_path p
               @ (if su_query p = [] then [] else CHR ''?'' # su_query p)
               @ (if url_fragment url = [] then [] else CHR ''#'' # url_fragment url)
          else url)
     (urlsplit url)"

section \<open>Credentials\<close>

record credentials =
  cr_app :: string
  cr_role :: string
  cr_kind :: string
  cr_login_url :: "string option"
  cr_login_page_url :: "string option"
  cr_login_path :: "string option"
  cr_login_page_path :: "string option"
  cr_verify_path :: "string option"
  cr_username :: string
  cr_password :: string
  cr_username_field :: string
  cr_password_field :: string
  cr_extra :: "(string, string) dict"
  cr_logged_in :: "string option"
  cr_logged_out :: "string option"
  cr_verify_url :: "string option"
  cr_token_path :: "string option"
  cr_session :: string
  cr_session_cookie :: "string option"
  cr_header_name :: string
  cr_header_template :: string
  cr_logout_paths :: "string list"
  cr_subject_id :: "string option"

definition resolve_url :: "string \<Rightarrow> json \<Rightarrow> string option" where
  "resolve_url base p =
     (if jtruthy p then Some (if startswith (jstr p) ''http'' then jstr p else base @ jstr p) else None)"

definition re_special :: "char \<Rightarrow> bool" where
  "re_special c = (c \<in> set ''()[]{}?*+-|^$.&~# '' \<or> code c \<in> {92, 9, 10, 13, 11, 12})"

definition re_escape :: "string \<Rightarrow> string" where
  "re_escape s = concat (map (\<lambda>c. if re_special c then [CHR 0x5C, c] else [c]) s)"

definition user_roles :: "obj \<Rightarrow> string list" where
  "user_roles doc = List.map_filter (\<lambda>u. if jtruthy (jget u ''role'') then Some (jstr (jget u ''role'')) else None) (objects (jget doc ''users''))"

definition text_or :: "obj \<Rightarrow> string \<Rightarrow> string \<Rightarrow> string" where
  "text_or d k otherwise = (case dict_get d k of None \<Rightarrow> otherwise | Some v \<Rightarrow> jstr v)"

definition some_text :: "json \<Rightarrow> string option" where
  "some_text v = (if jtruthy v then Some (jstr v) else None)"

definition any_text :: "json \<Rightarrow> string option" where
  "any_text v = (if v = JNull then None else Some (jstr v))"

definition kind_of :: "string \<Rightarrow> string" where
  "kind_of t = get_or (dict_get [(''json'', ''json''), (''form'', ''form''), (''basic'', ''basic''), (''urlencoded'', ''form'')] (lower t)) ''form''"

text \<open>\<open>from_target_doc\<close>; \<open>None\<close>: no user has the role. The last argument names the target's directory.\<close>

definition from_target_doc :: "obj \<Rightarrow> string \<Rightarrow> string option \<Rightarrow> string \<Rightarrow> credentials option" where
  "from_target_doc doc role base_url_override directory =
     (let login = obj_of (jget doc ''login''); session = obj_of (jget doc ''session'')
      in map_option (\<lambda>chosen.
           let base = rstrip_chars ''/'' (str_or (or_str base_url_override (some_text (jget doc ''base_url''))) []);
               login_path = str_or (some_text (jget login ''url'')) [];
               login_url = (if startswith login_path ''http'' then login_path else base @ login_path);
               kind = kind_of (text_or login ''type'' ''form'');
               page_path = (if jtruthy (jget login ''page_url'') then some_text (jget login ''page_url'')
                            else if kind = ''form'' then falsy_none login_path else None)
           in \<lparr>cr_app = str_or (some_text (jget doc ''app'')) directory, cr_role = role, cr_kind = kind,
               cr_login_url = Some login_url,
               cr_login_page_url =
                 or_str (resolve_url base (jget login ''page_url'')) (if kind = ''form'' then Some login_url else None),
               cr_login_path = falsy_none login_path, cr_login_page_path = page_path,
               cr_verify_path = some_text (jget login ''verify_url''),
               cr_username = text_or chosen ''username'' [], cr_password = text_or chosen ''password'' [],
               cr_username_field = text_or login ''username_field'' ''username'',
               cr_password_field = text_or login ''password_field'' ''password'', cr_extra = [],
               cr_logged_in = map_option re_escape (some_text (jget login ''logged_in_indicator'')),
               cr_logged_out = map_option re_escape (some_text (jget login ''logged_out_indicator'')),
               cr_verify_url = resolve_url base (jget login ''verify_url''),
               cr_token_path = any_text (jget login ''token_json_path''),
               cr_session = (if lower (text_or session ''kind'' ''cookie'') \<in> {''bearer'', ''header''} then ''bearer'' else ''cookie''),
               cr_session_cookie = any_text (jget session ''name''), cr_header_name = text_or session ''header'' ''Authorization'',
               cr_header_template = ''Bearer {token}'', cr_logout_paths = map jstr (jiter (jget login ''exclude'')),
               cr_subject_id = some_text (jget chosen ''subject_id'')\<rparr>)
         (List.find (\<lambda>u. jstr (jget u ''role'') = role) (objects (jget doc ''users''))))"

definition resolve_path :: "string \<Rightarrow> string option \<Rightarrow> string option" where
  "resolve_path base p = resolve_url base (case p of None \<Rightarrow> JNull | Some t \<Rightarrow> JStr t)"

definition for_base :: "string \<Rightarrow> credentials \<Rightarrow> credentials" where
  "for_base base_url c =
     (if \<not> truthy (cr_login_path c) then c
      else let base = rstrip_chars ''/'' base_url
           in c\<lparr>cr_login_url := resolve_path base (cr_login_path c), cr_login_page_url := resolve_path base (cr_login_page_path c),
                cr_verify_url := resolve_path base (cr_verify_path c)\<rparr>)"

definition logout_prefixes :: "credentials \<Rightarrow> string list" where
  "logout_prefixes c = map (\<lambda>p. str_or (falsy_none (rstrip_chars ''/'' (before (CHR ''{'') p))) ''/'') (cr_logout_paths c)"

text \<open>\<open>re.split\<close> at the templates of a path: literals and templates in turn.\<close>

function template_parts :: "string \<Rightarrow> string \<Rightarrow> string list" where
  "template_parts lit [] = [lit]"
| "template_parts lit (c # s) =
     (if c = CHR ''{'' \<and> before (CHR ''}'') s \<noteq> [] \<and> CHR ''}'' \<in> set s
      then lit # (c # before (CHR ''}'') s @ ''}'') # template_parts [] (after (CHR ''}'') s)
      else template_parts (lit @ [c]) s)"
  by pat_completeness auto

termination
  by (relation "measure (\<lambda>(lit, s). length s)")
     (simp_all add: after_def less_Suc_eq_le le_diff_conv le_SucI [OF length_dropWhile_le])

definition logout_regexes :: "credentials \<Rightarrow> string list" where
  "logout_regexes c =
     map (\<lambda>p. ''.*'' @ concat (map (\<lambda>part. if part \<noteq> [] \<and> hd part = CHR ''{'' \<and> last part = CHR ''}'' then ''[^/]+'' else re_escape part)
       (filter (\<lambda>part. part \<noteq> []) (template_parts [] p))) @ ''.*'') (cr_logout_paths c)"

definition login_body :: "credentials \<Rightarrow> (string, string) dict" where
  "login_body c =
     foldl (\<lambda>d (k, v). dict_set k v d)
       (dict_set (cr_password_field c) (cr_password c) [(cr_username_field c, cr_username c)]) (cr_extra c)"

section \<open>Applications\<close>

record app_spec =
  as_key :: string
  as_services :: "string list"
  as_base_url :: string
  as_internal_url :: "string option"
  as_internal_network :: string
  as_reset_service :: "string option"
  as_reset_command :: string
  as_restart :: "string list option"
  as_health :: "string list"
  as_expected :: "string option"
  as_openapi :: "string option"
  as_graphql :: "string option"
  as_include :: "string list"
  as_exclude :: "string list"

definition services_to_restart :: "app_spec \<Rightarrow> string list" where
  "services_to_restart a = (case as_restart a of None \<Rightarrow> as_services a | Some xs \<Rightarrow> xs)"

text \<open>\<open>__post_init__\<close>; \<open>None\<close>: a URL is refused.\<close>

definition complete_app :: "app_spec \<Rightarrow> app_spec option" where
  "complete_app a =
     Option.bind (strip_default_port (as_base_url a)) (\<lambda>b.
     map_option (\<lambda>i.
       let services = (if as_services a = [] then [as_key a] else as_services a);
           a = a\<lparr>as_base_url := b, as_internal_url := i, as_services := services,
                 as_reset_service := Some (case as_reset_service a of None \<Rightarrow> hd services | Some r \<Rightarrow> r)\<rparr>
       in a\<lparr>as_health := (if as_health a = [] then services_to_restart a else as_health a)\<rparr>)
     (if truthy (as_internal_url a) then map_option Some (strip_default_port (the (as_internal_url a))) else Some (as_internal_url a)))"

definition harness_url :: "app_spec \<Rightarrow> string" where
  "harness_url a = str_or (as_internal_url a) (as_base_url a)"

definition harness_url_is_the_tools :: "app_spec \<Rightarrow> bool" where
  "harness_url_is_the_tools a = (\<not> truthy (as_internal_url a) \<or> as_internal_url a = Some (as_base_url a))"

definition internal_host :: "app_spec \<Rightarrow> string option" where
  "internal_host a = map_option (\<lambda>u. str_or (url_hostname u) []) (urlsplit (harness_url a))"

definition app_host :: "app_spec \<Rightarrow> string option" where
  "app_host a = map_option su_netloc (urlsplit (as_base_url a))"

section \<open>What a target writes about itself\<close>

record target_file =
  tf_base_url :: "string option"
  tf_roles :: "string list"
  tf_raw :: obj

definition base_url_of :: "obj \<Rightarrow> string option option" where
  "base_url_of doc =
     (if jtruthy (jget doc ''base_url'')
      then map_option Some (strip_default_port (rstrip_chars ''/'' (jstr (jget doc ''base_url'')))) else Some None)"

definition load_target :: "obj \<Rightarrow> target_file option" where
  "load_target doc = map_option (\<lambda>b. \<lparr>tf_base_url = b, tf_roles = user_roles doc, tf_raw = doc\<rparr>) (base_url_of doc)"

definition declares_no_login :: "target_file \<Rightarrow> bool" where
  "declares_no_login t = (tf_roles t = [])"

definition merged_with :: "obj \<Rightarrow> target_file \<Rightarrow> target_file option" where
  "merged_with emitted t =
     (let raw = foldl (\<lambda>d k. if jget emitted k = JNull then d else dict_set k (jget emitted k) d) (tf_raw t)
                  [''app'', ''base_url'', ''users'']
      in map_option (\<lambda>b. \<lparr>tf_base_url = (case b of None \<Rightarrow> tf_base_url t | Some x \<Rightarrow> Some x), tf_roles = user_roles raw, tf_raw = raw\<rparr>)
           (base_url_of raw))"

text \<open>The files of the targets by application, the local overrides and what targets have printed.\<close>

record bench_config =
  bc_files :: "(string, obj) dict"
  bc_override :: "(string, credentials) dict"
  bc_emitted :: "(string, obj) dict"
  bc_network :: string

definition target_of :: "bench_config \<Rightarrow> app_spec \<Rightarrow> target_file option option" where
  "target_of cfg a =
     (case dict_get (bc_files cfg) (as_key a) of
        None \<Rightarrow> Some None
      | Some doc \<Rightarrow>
          Option.bind (load_target doc) (\<lambda>t.
            let emitted = get_or (dict_get (bc_emitted cfg) (as_key a)) []
            in map_option Some (if emitted = [] then Some t else merged_with emitted t)))"

text \<open>\<open>creds_for\<close>: the credentials, none, or an error (\<open>Inl\<close>).\<close>

definition creds_for :: "bench_config \<Rightarrow> app_spec \<Rightarrow> string \<Rightarrow> unit + credentials option" where
  "creds_for cfg a role =
     (case target_of cfg a of
        None \<Rightarrow> Inl ()
      | Some None \<Rightarrow> Inr (dict_get (bc_override cfg) (as_key a))
      | Some (Some t) \<Rightarrow>
          (if declares_no_login t then Inr None
           else case from_target_doc (tf_raw t) role (Some (harness_url a)) (as_key a) of
             None \<Rightarrow> Inl () | Some c \<Rightarrow> Inr (Some c)))"

text \<open>\<open>resolve_urls\<close>: the applications with their own URLs, and those that keep a fallback.\<close>

definition resolve_app :: "bench_config \<Rightarrow> app_spec \<Rightarrow> (app_spec \<times> (string \<times> string) option) option" where
  "resolve_app cfg a =
     map_option (\<lambda>t.
       (case Option.bind t tf_base_url of
          Some b \<Rightarrow> if b \<noteq> [] then (a\<lparr>as_base_url := b\<rparr>, None) else (a, if as_base_url a = [] then None else Some (as_key a, as_base_url a))
        | None \<Rightarrow> (a, if as_base_url a = [] then None else Some (as_key a, as_base_url a))))
     (target_of cfg a)"

definition select_apps :: "(string, app_spec) dict \<Rightarrow> string list \<Rightarrow> app_spec list option" where
  "select_apps apps keys =
     (if keys = [] then Some (map snd apps)
      else if list_ex (\<lambda>k. dict_get apps k = None) keys then None
      else Some (map (\<lambda>k. the (dict_get apps k)) keys))"

text \<open>\<open>image_ref\<close> of a tool: a pinned digest wins over the tag.\<close>

definition image_ref :: "string \<Rightarrow> string option \<Rightarrow> string" where
  "image_ref img digest =
     (if \<not> truthy digest then img
      else let base = before (CHR ''@'') img; tag = rafter (CHR '':'') base
           in (if CHR '':'' \<in> set base \<and> CHR ''/'' \<notin> set tag then rbefore (CHR '':'') base else base) @ CHR ''@'' # the digest)"

end
