(* ===== verification/Run_Docker.thy ===== *)
theory Run_Docker
  imports Json
begin

text \<open>
  \<open>runners/_lib/dockerctl.py\<close>: the command lines the harness gives to docker and what it reads out of the
  answers. An answer is the exit code with the two outputs; \<open>json.loads\<close> of an output is a parameter, and
  so is the answer of each call. \<open>docker inspect\<close> prints a list of objects.
\<close>

section \<open>Answers\<close>

record exec_result =
  ex_code :: int
  ex_out :: string
  ex_err :: string

definition exec_ok :: "exec_result \<Rightarrow> bool" where
  "exec_ok r = (ex_code r = 0)"

text \<open>\<open>str.splitlines\<close>.\<close>

definition is_break :: "char \<Rightarrow> bool" where
  "is_break c = (code c \<in> {10, 11, 12, 13, 28, 29, 30, 133})"

function splitlines :: "string \<Rightarrow> string list" where
  "splitlines s =
     (if s = [] then []
      else let r = dropWhile (\<lambda>c. \<not> is_break c) s
           in takeWhile (\<lambda>c. \<not> is_break c) s
              # (if r = [] then [] else splitlines (if take 2 r = [CHR 0x0D, CHR 0x0A] then drop 2 r else tl r)))"
  by pat_completeness auto

termination
proof (relation "measure length", goal_cases)
  case (2 s r)
  have "length r \<le> length s" unfolding 2(2) by (rule length_dropWhile_le)
  moreover have "r \<noteq> []" using 2(3) by simp
  ultimately show ?case by (cases r) auto
qed simp

declare splitlines.simps [simp del]

section \<open>Readings\<close>

type_synonym decoder = "string \<Rightarrow> json option"

definition inspect_answer :: "decoder \<Rightarrow> exec_result \<Rightarrow> json option" where
  "inspect_answer loads r =
     (if \<not> exec_ok r then None
      else case loads (ex_out r) of Some (JList (x # xs)) \<Rightarrow> Some x | _ \<Rightarrow> None)"

definition container_state :: "decoder \<Rightarrow> exec_result \<Rightarrow> obj" where
  "container_state loads r =
     (case inspect_answer loads r of None \<Rightarrow> [] | Some info \<Rightarrow> obj_of (jget (obj_of info) ''State''))"

definition is_running :: "decoder \<Rightarrow> exec_result \<Rightarrow> bool" where
  "is_running loads r = jtruthy (jget (container_state loads r) ''Running'')"

definition container_exit_code :: "decoder \<Rightarrow> exec_result \<Rightarrow> int option" where
  "container_exit_code loads r =
     (let state = container_state loads r
      in if jtruthy (jget state ''Running'') then None else int_field state ''ExitCode'')"

definition container_health :: "decoder \<Rightarrow> exec_result \<Rightarrow> string" where
  "container_health loads r =
     (let state = container_state loads r; status = jget (obj_of (jget state ''Health'')) ''Status''
      in if state = [] then ''unknown''
         else if jtruthy status then jstr status
         else if jtruthy (jget state ''Running'') then ''none'' else ''stopped'')"

definition container_started_at :: "decoder \<Rightarrow> exec_result \<Rightarrow> string option" where
  "container_started_at loads r = str_field (container_state loads r) ''StartedAt''"

definition image_digest :: "decoder \<Rightarrow> exec_result \<Rightarrow> string option" where
  "image_digest loads r =
     (case inspect_answer loads r of
        None \<Rightarrow> None
      | Some info \<Rightarrow>
          (case jiter (jget (obj_of info) ''RepoDigests'') of
             d # ds \<Rightarrow> Some (jstr d)
           | [] \<Rightarrow> (let i = jget (obj_of info) ''Id'' in if jtruthy i then Some (jstr i) else None)))"

text \<open>\<open>compose_ps_id\<close>: the first line of the answer.\<close>

definition ps_id :: "exec_result \<Rightarrow> string option" where
  "ps_id r =
     (if \<not> exec_ok r then None
      else case splitlines (strip (ex_out r)) of [] \<Rightarrow> None | l # ls \<Rightarrow> Some (strip l))"

definition compose_config :: "decoder \<Rightarrow> exec_result \<Rightarrow> obj option" where
  "compose_config loads r =
     (if \<not> exec_ok r then None else case loads (ex_out r) of Some (JObj d) \<Rightarrow> Some d | _ \<Rightarrow> None)"

definition services_by_profile :: "obj \<Rightarrow> (string \<times> string list) list" where
  "services_by_profile doc =
     map (\<lambda>(n, spec). (n, map jstr (jiter (jget (obj_of spec) ''profiles'')))) (obj_of (jget doc ''services''))"

section \<open>Command lines\<close>

definition compose_argv :: "string \<Rightarrow> string option \<Rightarrow> string \<Rightarrow> string list \<Rightarrow> string list" where
  "compose_argv bin compose_file project args =
     [bin, ''compose''] @ (case compose_file of None \<Rightarrow> [] | Some f \<Rightarrow> [''-f'', f])
     @ (if project = [] then [] else [''-p'', project]) @ args"

record container_spec =
  cs_image :: string
  cs_args :: "string list"
  cs_network :: string
  cs_volumes :: "(string \<times> string) list"
  cs_env :: "(string \<times> string) list"
  cs_entrypoint :: "string option"

definition mounts :: "(string \<times> string) list \<Rightarrow> string list" where
  "mounts vs = concat (map (\<lambda>(h, c). [''-v'', h @ CHR '':'' # c]) vs)"

definition settings :: "(string \<times> string) list \<Rightarrow> string list" where
  "settings vs = concat (map (\<lambda>(k, v). [''-e'', k @ CHR ''='' # v]) vs)"

definition flag :: "string \<Rightarrow> string option \<Rightarrow> string list" where
  "flag name v = (case v of None \<Rightarrow> [] | Some x \<Rightarrow> [name, x])"

text \<open>The command of \<open>run_detached\<close> and that of \<open>run_capture\<close>.\<close>

definition detached_argv :: "string \<Rightarrow> string \<Rightarrow> string option \<Rightarrow> string list \<Rightarrow> container_spec \<Rightarrow> string list" where
  "detached_argv bin name user extra_flags c =
     [bin, ''run'', ''-d'', ''--name'', name, ''--network'', cs_network c] @ flag ''--entrypoint'' (cs_entrypoint c)
     @ flag ''--user'' user @ mounts (cs_volumes c) @ settings (cs_env c) @ extra_flags @ cs_image c # cs_args c"

definition capture_argv :: "string \<Rightarrow> container_spec \<Rightarrow> string list" where
  "capture_argv bin c =
     [bin, ''run'', ''--rm'', ''--network'', cs_network c] @ flag ''--entrypoint'' (cs_entrypoint c)
     @ mounts (cs_volumes c) @ settings (cs_env c) @ cs_image c # cs_args c"

text \<open>The id of a started container: the last line docker prints, or the name it was given.\<close>

definition started_id :: "string \<Rightarrow> exec_result \<Rightarrow> string" where
  "started_id name r = (if strip (ex_out r) = [] then name else strip (last (splitlines (strip (ex_out r)))))"

text \<open>\<open>ensure_image\<close>: what it does when the image is absent.\<close>

datatype image_step = Present | Build | Pull | Absent

definition ensure_image :: "bool \<Rightarrow> bool \<Rightarrow> bool \<Rightarrow> image_step" where
  "ensure_image exists has_build allow_pull =
     (if exists then Present else if has_build then Build else if allow_pull then Pull else Absent)"

section \<open>Facts\<close>

text \<open>An inspection that fails for any reason reads as a container that does not run.\<close>

lemma failed_inspection_reads_as_exit: "ex_code r \<noteq> 0 \<Longrightarrow> \<not> is_running loads r"
  by (simp add: is_running_def container_state_def inspect_answer_def exec_ok_def jget_def dict_get_def)

end
