(* ===== verification/Run_Topology.thy ===== *)
theory Run_Topology
  imports Run_Config Run_Docker
begin

text \<open>
  \<open>runners/_lib/topology.py\<close> and the scope filter of \<open>orchestrate.py\<close>: which containers and addresses an
  application has, the map from addresses to applications that callbacks are resolved through, and the form in
  which it goes to the collector.
\<close>

section \<open>Inspection\<close>

record service_topology =
  st_service :: string
  st_id :: "string option"
  st_name :: "string option"
  st_image :: "string option"
  st_image_id :: "string option"
  st_digest :: "string option"
  st_addresses :: "(string, string) dict"
  st_started :: "string option"

record app_topology =
  tp_app :: string
  tp_services :: "service_topology list"
  tp_before :: "string option"
  tp_after :: "string option"

definition empty_service :: "string \<Rightarrow> service_topology" where
  "empty_service s =
     \<lparr>st_service = s, st_id = None, st_name = None, st_image = None, st_image_id = None, st_digest = None, st_addresses = [],
      st_started = None\<rparr>"

definition network_addresses :: "obj \<Rightarrow> (string, string) dict" where
  "network_addresses networks =
     foldl (\<lambda>d (n, spec). let a = jget (obj_of spec) ''IPAddress'' in if jtruthy a then dict_set n (jstr a) d else d) [] networks"

text \<open>What docker says of a service: its id, the inspection of it, and the digest of an image.\<close>

record service_world =
  sv_id :: "string option"
  sv_info :: obj
  sv_digest :: "string \<Rightarrow> string option"

definition inspect_service :: "string \<Rightarrow> service_world \<Rightarrow> service_topology" where
  "inspect_service s w =
     (if \<not> truthy (sv_id w) then empty_service s
      else let img = as_str (jor (jget (obj_of (jget (sv_info w) ''Config'')) ''Image'') JNull)
           in \<lparr>st_service = s, st_id = sv_id w,
               st_name = falsy_none (dropWhile (\<lambda>c. c = CHR ''/'') (str_or (str_field (sv_info w) ''Name'') [])),
               st_image = img, st_image_id = str_field (sv_info w) ''Image'',
               st_digest = (case img of None \<Rightarrow> None | Some i \<Rightarrow> sv_digest w i),
               st_addresses = network_addresses (obj_of (jget (obj_of (jget (sv_info w) ''NetworkSettings'')) ''Networks'')),
               st_started = str_field (obj_of (jget (sv_info w) ''State'')) ''StartedAt''\<rparr>)"

definition inspect_app :: "(string \<Rightarrow> service_world) \<Rightarrow> app_spec \<Rightarrow> app_topology" where
  "inspect_app docker a =
     \<lparr>tp_app = as_key a, tp_services = map (\<lambda>s. inspect_service s (docker s)) (as_services a), tp_before = None, tp_after = None\<rparr>"

definition inspect_apps :: "(string \<Rightarrow> service_world) \<Rightarrow> app_spec list \<Rightarrow> (string, app_topology) dict" where
  "inspect_apps docker apps = foldl (\<lambda>d a. dict_set (as_key a) (inspect_app docker a) d) [] apps"

section \<open>Addresses\<close>

definition service_ips :: "service_topology \<Rightarrow> string list" where
  "service_ips s = filter (\<lambda>ip. ip \<noteq> []) (map snd (st_addresses s))"

definition app_addresses :: "app_topology \<Rightarrow> string list" where
  "app_addresses t =
     foldl (\<lambda>seen ip. if ip \<in> set seen then seen else seen @ [ip]) [] (concat (map service_ips (tp_services t)))"

definition address_on :: "string \<Rightarrow> string option \<Rightarrow> app_topology \<Rightarrow> string option" where
  "address_on network prefer_host t =
     (let has = (\<lambda>s. dict_get (st_addresses s) network \<noteq> None);
          address = (\<lambda>s. the (dict_get (st_addresses s) network));
          preferred = (if truthy prefer_host
                       then List.find (\<lambda>s. st_service s = the prefer_host \<and> has s) (tp_services t) else None)
      in map_option address (case preferred of Some s \<Rightarrow> Some s | None \<Rightarrow> List.find has (tp_services t)))"

definition address_owner :: "(string, app_topology) dict \<Rightarrow> (string, string) dict" where
  "address_owner ts =
     foldl (\<lambda>d (app, t). foldl (\<lambda>d a. setdefault a app d) d (app_addresses t)) [] ts"

definition duplicate_addresses :: "(string, app_topology) dict \<Rightarrow> (string, string list) dict" where
  "duplicate_addresses ts =
     filter (\<lambda>(a, apps). 1 < length apps)
       (foldl (\<lambda>d (app, t). foldl (\<lambda>d a. bucket_add a app d) d (app_addresses t)) [] ts)"

section \<open>What goes to the collector\<close>

definition opt_json :: "string option \<Rightarrow> json" where
  "opt_json x = (case x of None \<Rightarrow> JNull | Some s \<Rightarrow> JStr s)"

definition service_json :: "service_topology \<Rightarrow> json" where
  "service_json s =
     JObj [(''service'', JStr (st_service s)), (''container_id'', opt_json (st_id s)), (''container_name'', opt_json (st_name s)),
           (''image'', opt_json (st_image s)), (''image_id'', opt_json (st_image_id s)), (''image_digest'', opt_json (st_digest s)),
           (''addresses'', JList (map (\<lambda>(n, ip). JObj [(''network'', JStr n), (''ip'', JStr ip)]) (sort_key fst (st_addresses s)))),
           (''started_at'', opt_json (st_started s))]"

definition topology_json :: "app_topology \<Rightarrow> json" where
  "topology_json t =
     JObj [(''app'', JStr (tp_app t)), (''addresses'', JList (map JStr (app_addresses t))),
           (''services'', JList (map service_json (tp_services t))), (''state_digest_before'', opt_json (tp_before t)),
           (''state_digest_after'', opt_json (tp_after t))]"

definition address_payload :: "(string, app_topology) dict \<Rightarrow> obj" where
  "address_payload ts = map (\<lambda>(app, t). (app, topology_json t)) ts"

section \<open>The scope of a run\<close>

text \<open>\<open>_scope_filter\<close>: by the application an event names, else by the owner of its address.\<close>

definition keep_event :: "string list \<Rightarrow> (string, string) dict \<Rightarrow> obj \<Rightarrow> bool" where
  "keep_event scope owners e =
     (if jtruthy (jget e ''app'') then jstr (jget e ''app'') \<in> set scope
      else case List.find (\<lambda>k. jtruthy (jget e k)) [''source_ip'', ''client_ip'', ''src_ip''] of
        None \<Rightarrow> True
      | Some k \<Rightarrow>
          (case dict_get owners (jstr (jget e k)) of None \<Rightarrow> True | Some owner \<Rightarrow> owner \<in> set scope))"

definition scope_filter :: "app_spec list \<Rightarrow> (string, app_topology) dict \<Rightarrow> obj \<Rightarrow> bool" where
  "scope_filter apps ts = keep_event (map as_key apps) (address_owner ts)"

end
