(* ===== verification/Run_Topology_Facts.thy ===== *)
theory Run_Topology_Facts
  imports Run_Topology Events
begin

text \<open>
  The runner and the scorer on addresses: the runner filters the event stream by its own map of addresses, the scorer attributes
  callbacks by the map it reads out of the run record; on a record without shared addresses the two are one.
\<close>

section \<open>The runner's maps\<close>

definition address_pairs :: "(string, app_topology) dict \<Rightarrow> (string \<times> string) list" where
  "address_pairs ts = concat (map (\<lambda>(app, t). map (\<lambda>a. (a, app)) (app_addresses t)) ts)"

definition holders :: "string \<Rightarrow> (string, app_topology) dict \<Rightarrow> string list" where
  "holders a ts = map fst (filter (\<lambda>(app, t). a \<in> set (app_addresses t)) ts)"

lemma fold_addresses:
  "foldl (\<lambda>d (app, t). foldl (\<lambda>d a. f a app d) d (app_addresses t)) d ts = foldl (\<lambda>d (a, app). f a app d) d (address_pairs ts)"
proof -
  have "foldl (\<lambda>d (a, app). f a app d) d (map (\<lambda>a. (a, app)) xs) = foldl (\<lambda>d a. f a app d) d xs" for d app xs
    by (induction xs arbitrary: d) auto
  then show ?thesis by (induction ts arbitrary: d) (auto simp: address_pairs_def)
qed

lemma distinct_step: "distinct seen \<Longrightarrow> distinct (foldl (\<lambda>seen ip. if ip \<in> set seen then seen else seen @ [ip]) seen xs)
    \<and> set (foldl (\<lambda>seen ip. if ip \<in> set seen then seen else seen @ [ip]) seen xs) = set seen \<union> set xs"
  by (induction xs arbitrary: seen) auto

lemma app_addresses_set:
  "distinct (app_addresses t)" "set (app_addresses t) = (\<Union>s\<in>set (tp_services t). set (service_ips s))"
  using distinct_step [of "[]" "concat (map service_ips (tp_services t))"] by (simp_all add: app_addresses_def)

lemma holders_pairs: "map snd (filter (\<lambda>p. fst p = a) (address_pairs ts)) = holders a ts"
proof -
  have one: "map snd (filter (\<lambda>p. fst p = a) (map (\<lambda>b. (b, app)) xs)) = (if a \<in> set xs then [app] else [])"
    if "distinct xs" for app and xs :: "string list"
    using that by (induction xs) auto
  show ?thesis
  proof (induction ts)
    case (Cons x ts)
    then show ?case
      using one [OF app_addresses_set(1), of "fst x" "snd x"]
      by (simp add: address_pairs_def holders_def case_prod_beta)
  qed (simp add: address_pairs_def holders_def)
qed

lemma owner_get: "dict_get (address_owner ts) a = (case holders a ts of [] \<Rightarrow> None | app # _ \<Rightarrow> Some app)"
proof -
  have "dict_get (foldl (\<lambda>d (a, app). setdefault a app d) d ps) a
      = (case dict_get d a of Some v \<Rightarrow> Some v
         | None \<Rightarrow> (case map snd (filter (\<lambda>p. fst p = a) ps) of [] \<Rightarrow> None | v # _ \<Rightarrow> Some v))" for d and ps :: "(string \<times> string) list"
    by (induction ps arbitrary: d) (auto simp: dict_get_setdefault split: option.split)
  from this [of "[]"] show ?thesis unfolding address_owner_def fold_addresses holders_pairs [symmetric] by simp
qed

lemma unshared:
  assumes "duplicate_addresses ts = []"
  shows "length (holders a ts) \<le> 1"
proof -
  have "dict_get (foldl (\<lambda>d (a, app). bucket_add a app d) d ps) a
      = (let vs = get_or (dict_get d a) [] @ map snd (filter (\<lambda>p. fst p = a) ps)
         in if dict_get d a = None \<and> map snd (filter (\<lambda>p. fst p = a) ps) = [] then None else Some vs)"
    for d and ps :: "(string \<times> string) list"
    by (induction ps arbitrary: d) (auto simp: dict_get_bucket_add Let_def get_or_def split: option.split)
  from this [of "[]" "address_pairs ts"]
  have "dict_get (foldl (\<lambda>d (a, app). bucket_add a app d) [] (address_pairs ts)) a = (if holders a ts = [] then None else Some (holders a ts))"
    by (simp add: holders_pairs [symmetric] get_or_def Let_def)
  then show ?thesis
    using assms dict_get_SomeD [of _ a "holders a ts"]
    by (cases "holders a ts = []") (force simp: duplicate_addresses_def fold_addresses filter_empty_conv)+
qed

section \<open>The scorer's map\<close>

lemma index_get:
  assumes "\<forall>ac\<in>set cs. a \<noteq> fst ac \<and> ct_container_id (snd ac) \<noteq> Some a \<and> ct_service (snd ac) \<noteq> Some a"
  shows "dict_get (foldl index_container d cs) a
    = (let hs = map fst (filter (\<lambda>ac. a \<in> set (ct_addresses (snd ac))) cs) in if hs = [] then dict_get d a else Some (last hs))"
  using assms
proof (induction cs arbitrary: d)
  case (Cons ac cs)
  have "dict_get (index_container d ac) a = (if a \<in> set (ct_addresses (snd ac)) then Some (fst ac) else dict_get d a)"
    using Cons.prems by (auto simp: index_container_def Let_def dict_get_setdefault dict_get_fold_set dest!: truthyE)
  then show ?case using Cons by (auto simp: Let_def)
qed simp

definition entry_of :: "app_topology \<Rightarrow> container" where
  "entry_of t = container_of (obj_of (topology_json t))"

lemma payload_containers:
  assumes "dict_ok ts"
  shows "containers_of [(''addresses'', JObj (address_payload ts))] = map (\<lambda>(app, t). (app, entry_of t)) ts"
proof -
  have "foldl (\<lambda>d (app, entry). case entry of JObj e \<Rightarrow> dict_set app (container_of e) d | _ \<Rightarrow> d) d (address_payload ts)
      = d @ map (\<lambda>(app, t). (app, entry_of t)) ts" if "distinct (map fst d @ map fst ts)" for d
    using that
  proof (induction ts arbitrary: d)
    case (Cons x ts)
    have "dict_get d (fst x) = None" using Cons.prems by (simp add: dict_get_None_iff)
    then have "dict_set (fst x) (entry_of (snd x)) d = d @ [(fst x, entry_of (snd x))]"
      by (induction d) (auto simp: dict_set_def split: if_splits)
    then show ?case
      using Cons.IH [of "d @ [(fst x, entry_of (snd x))]"] Cons.prems
      by (auto simp: address_payload_def topology_json_def entry_of_def obj_of_def case_prod_beta)
  qed (simp add: address_payload_def)
  moreover have "container_map [(''addresses'', JObj (address_payload ts))] = address_payload ts"
    by (cases ts) (simp_all add: container_map_def CONTAINER_MAP_KEYS_def jget_def is_obj_def obj_of_def address_payload_def)
  ultimately show ?thesis using assms by (simp add: containers_of_def dict_ok_def)
qed

lemma services_read: "objects (JList (map service_json ss)) = map (\<lambda>s. obj_of (service_json s)) ss"
  by (induction ss) (simp_all add: objects_def jiter_def service_json_def obj_of_def List.map_filter_simps)

lemma service_addresses_read: "set (service_addresses (obj_of (service_json s))) = set (service_ips s)"
proof -
  have "jget (obj_of (service_json s)) ''addresses''
      = JList (map (\<lambda>(n, ip). JObj [(''network'', JStr n), (''ip'', JStr ip)]) (sort_key fst (st_addresses s)))"
    by (simp add: service_json_def obj_of_def jget_def)
  moreover have "set (List.map_filter (\<lambda>a. case a of JObj d \<Rightarrow> (let ip = jor (jget d ''ip'') (jget d ''address'') in
      if jtruthy ip then Some (jstr ip) else None) | _ \<Rightarrow> if jtruthy a then Some (jstr a) else None)
        (map (\<lambda>(n, ip). JObj [(''network'', JStr n), (''ip'', JStr ip)]) xs)) = {ip \<in> snd ` set xs. ip \<noteq> []}"
    for xs :: "(string \<times> string) list"
  proof (induction xs)
    case (Cons x xs)
    have "jget [(''network'', JStr (fst x)), (''ip'', JStr (snd x))] ''ip'' = JStr (snd x)"
      "jget [(''network'', JStr (fst x)), (''ip'', JStr (snd x))] ''address'' = JNull"
      by (simp_all add: jget_def)
    then show ?case using Cons by (auto simp: List.map_filter_simps jor_def case_prod_beta Let_def)
  qed (simp add: List.map_filter_simps)
  ultimately show ?thesis by (auto simp: service_addresses_def jiter_def service_ips_def)
qed

lemma service_fields_read:
  "jget (obj_of (service_json s)) ''service'' = JStr (st_service s)"
  "jget (obj_of (service_json s)) ''container_id'' = opt_json (st_id s)"
  by (simp_all add: service_json_def obj_of_def jget_def)

lemma entry_reads:
  "set (ct_addresses (entry_of t)) = set (app_addresses t)"
  "ct_service (entry_of t) = Some v \<Longrightarrow> v \<in> st_service ` set (tp_services t)"
  "ct_container_id (entry_of t) = Some v \<Longrightarrow> Some v \<in> st_id ` set (tp_services t)"
proof -
  let ?e = "obj_of (topology_json t)"
  have e: "jget ?e ''service'' = JNull" "jget ?e ''container_id'' = JNull" "jget ?e ''id'' = JNull" "jget ?e ''container'' = JNull"
    "jget ?e ''addresses'' = JList (map JStr (app_addresses t))" "jget ?e ''ip_addresses'' = JNull" "jget ?e ''ips'' = JNull"
    "jget ?e ''ip'' = JNull" "jget ?e ''services'' = JList (map service_json (tp_services t))"
    by (simp_all add: topology_json_def obj_of_def jget_def)
  have texts: "map jstr (map JStr xs) = xs" for xs by (induction xs) simp_all
  have dd: "set (dedupe xs) = set xs" for xs :: "string list" by (simp add: dedupe_def)
  show "set (ct_addresses (entry_of t)) = set (app_addresses t)"
    by (auto simp: entry_of_def container_of_def Let_def e jor_def dd services_read service_addresses_read
        app_addresses_set(2) jiter_def texts simp del: map_map)
  have services: "objects (jget ?e ''services'') = map (\<lambda>s. obj_of (service_json s)) (tp_services t)"
    by (simp add: e services_read)
  have first: "(case objects (jget ?e ''services'') of [] \<Rightarrow> None | s # _ \<Rightarrow> as_str (jget s k)) = Some v
      \<Longrightarrow> \<exists>s\<in>set (tp_services t). as_str (jget (obj_of (service_json s)) k) = Some v" for k
    unfolding services by (cases "tp_services t") auto
  show "v \<in> st_service ` set (tp_services t)" if "ct_service (entry_of t) = Some v"
    using that first [of "''service''"]
    by (auto simp: entry_of_def container_of_def Let_def e(1) service_fields_read or_str_def truthy_def as_str_def split: if_splits)
  show "Some v \<in> st_id ` set (tp_services t)" if "ct_container_id (entry_of t) = Some v"
    using that first [of "''container_id''"]
    by (auto simp: entry_of_def container_of_def Let_def e(2,3) jor_def service_fields_read or_str_def truthy_def as_str_def
        opt_json_def image_iff split: if_splits option.splits) (metis option.distinct(1) option.inject)+
qed

text \<open>C35: Where no address is shared, the scorer reads out of the run record exactly the owners of addresses that the runner
  filtered the event stream by.\<close>

theorem addresses_agree:
  assumes "dict_ok ts" and "duplicate_addresses ts = []"
    and "list_all (\<lambda>(app, t). a \<noteq> app \<and> list_all (\<lambda>s. a \<noteq> st_service s \<and> Some a \<noteq> st_id s) (tp_services t)) ts"
  shows "dict_get (address_index (containers_of [(''addresses'', JObj (address_payload ts))])) a = dict_get (address_owner ts) a"
proof -
  let ?cs = "map (\<lambda>(app, t). (app, entry_of t)) ts"
  have no_name: "\<forall>ac\<in>set ?cs. a \<noteq> fst ac \<and> ct_container_id (snd ac) \<noteq> Some a \<and> ct_service (snd ac) \<noteq> Some a"
    using assms(3) entry_reads(2,3) by (fastforce simp: list_all_iff)
  have hs: "map fst (filter (\<lambda>ac. a \<in> set (ct_addresses (snd ac))) ?cs) = holders a ts"
    by (induction ts) (auto simp: holders_def entry_reads(1))
  have "dict_get (foldl index_container [] ?cs) a = (if holders a ts = [] then None else Some (last (holders a ts)))"
    using index_get [OF no_name, of "[]"] unfolding hs by (simp add: Let_def)
  moreover have "holders a ts = [] \<or> (\<exists>x. holders a ts = [x])"
    using unshared [OF assms(2), of a] by (cases "holders a ts") (auto simp: le_Suc_eq)
  ultimately show ?thesis
    unfolding payload_containers [OF assms(1)] address_index_def owner_get by auto
qed

definition lone_app :: "string \<Rightarrow> string \<Rightarrow> app_topology" where
  "lone_app app ip =
     \<lparr>tp_app = app, tp_services = [(empty_service (app @ ''-web''))\<lparr>st_id := Some (app @ ''-1''), st_addresses := [(''bench'', ip)]\<rparr>],
      tp_before = None, tp_after = None\<rparr>"

lemma addresses_agree_witness:
  "let ts = [(''shop'', lone_app ''shop'' ''10.0.0.2''), (''blog'', lone_app ''blog'' ''10.0.0.3'')]
   in dict_get (address_index (containers_of [(''addresses'', JObj (address_payload ts))])) ''10.0.0.3'' = Some ''blog''"
proof -
  let ?ts = "[(''shop'', lone_app ''shop'' ''10.0.0.2''), (''blog'', lone_app ''blog'' ''10.0.0.3'')]"
  have "dict_ok ?ts" "duplicate_addresses ?ts = []"
    "list_all (\<lambda>(app, t). ''10.0.0.3'' \<noteq> app \<and> list_all (\<lambda>s. ''10.0.0.3'' \<noteq> st_service s \<and> Some ''10.0.0.3'' \<noteq> st_id s) (tp_services t)) ?ts"
    "dict_get (address_owner ?ts) ''10.0.0.3'' = Some ''blog''"
    by code_simp+
  then show ?thesis using addresses_agree [of ?ts "''10.0.0.3''"] by (simp add: Let_def)
qed

text \<open>On a shared address the runner keeps the first application and the scorer the last.\<close>

lemma shared_address_disagrees:
  "let ts = [(''shop'', lone_app ''shop'' ''10.0.0.2''), (''blog'', lone_app ''blog'' ''10.0.0.2'')]
   in dict_get (address_owner ts) ''10.0.0.2'' = Some ''shop''
      \<and> dict_get (address_index (containers_of [(''addresses'', JObj (address_payload ts))])) ''10.0.0.2'' = Some ''blog''"
  by code_simp

text \<open>The digests of an application's state before and after the run go into the record under names that the scorer does not read:
  whatever they are, it sees neither.\<close>

lemma scorer_reads_no_digest: "ct_before (entry_of t) = None \<and> ct_after (entry_of t) = None"
proof -
  have "jget (obj_of (topology_json t)) ''reset_digest_before'' = JNull" "jget (obj_of (topology_json t)) ''reset_digest_after'' = JNull"
    by (simp_all add: topology_json_def obj_of_def jget_def)
  then show ?thesis by (simp add: entry_of_def container_of_def Let_def as_str_def)
qed

end
