(* ===== verification/Run_Budget.thy ===== *)
theory Run_Budget
  imports Json "HOL-Library.Log_Nat"
begin

text \<open>
  \<open>runners/_lib/budget.py\<close>: durations as texts, the two limits of a scan and the watch that decides at each
  poll whether the tool may go on. Clock readings are arguments; a duration is multiplied as a double,
  as Python does before it cuts off the fraction.
\<close>

section \<open>Doubles\<close>

text \<open>The double next to a rational that is not negative, ties to even; \<open>None\<close> beyond the largest one.\<close>

definition pow2 :: "int \<Rightarrow> rat" where
  "pow2 e = (if 0 \<le> e then 2 ^ nat e else 1 / 2 ^ nat (- e))"

definition round_even :: "rat \<Rightarrow> int" where
  "round_even q =
     (let f = \<lfloor>q\<rfloor>; r = q - of_int f
      in if r < 1 / 2 then f else if 1 / 2 < r then f + 1 else if even f then f else f + 1)"

definition double_exponent :: "rat \<Rightarrow> int" where
  "double_exponent q =
     (let (n, d) = quotient_of q; e = bitlen n - bitlen d - 53
      in max (-1074) (if 2 ^ 53 \<le> q / pow2 e then e + 1 else e))"

definition double :: "rat \<Rightarrow> rat option" where
  "double q =
     (if q \<le> 0 then Some 0
      else let v = of_int (round_even (q / pow2 (double_exponent q))) * pow2 (double_exponent q)
           in if 2 ^ 1024 \<le> v then None else Some v)"

text \<open>The result of one operation on doubles, from the exact one.\<close>

definition fl :: "rat \<Rightarrow> rat" where
  "fl q = (if q < 0 then - get_or (double (- q)) (- q) else get_or (double q) q)"

section \<open>Durations\<close>

datatype duration = NoDuration | Seconds int | FloatSeconds rat | DurationText string

datatype duration_error = BadDuration | DurationOverflow

text \<open>The groups of \<open>(\d+(?:\.\d+)?)\s*([smhd]?)\s*\<close>: the digits of the number, those after the dot, the unit.\<close>

definition duration_parts :: "string \<Rightarrow> (string \<times> string \<times> string) option" where
  "duration_parts s =
     (let t = lstrip s; whole = takeWhile is_dec t; r1 = dropWhile is_dec t;
          fraction = (if take 1 r1 = ''.'' then takeWhile is_dec (tl r1) else []);
          r2 = (if fraction = [] then r1 else dropWhile is_dec (tl r1));
          r3 = lstrip r2;
          u = (if r3 \<noteq> [] \<and> lower_char (hd r3) \<in> set ''smhd'' then [lower_char (hd r3)] else []);
          rest = (if u = [] then r3 else tl r3)
      in if whole = [] \<or> lstrip rest \<noteq> [] then None else Some (whole, fraction, u))"

definition UNITS :: "(string, nat) dict" where
  "UNITS = [(''s'', 1), (''m'', 60), (''h'', 3600), (''d'', 86400), ([], 1)]"

definition duration_value :: "string \<Rightarrow> string \<Rightarrow> rat" where
  "duration_value whole fraction = of_int (dec_num (whole @ fraction)) / 10 ^ length fraction"

definition parse_duration :: "duration \<Rightarrow> duration_error + int option" where
  "parse_duration x =
     (case x of
        NoDuration \<Rightarrow> Inr None
      | Seconds n \<Rightarrow> Inr (Some n)
      | FloatSeconds q \<Rightarrow> Inr (Some (if q < 0 then \<lceil>q\<rceil> else \<lfloor>q\<rfloor>))
      | DurationText s \<Rightarrow>
          (case duration_parts s of
             None \<Rightarrow> Inl BadDuration
           | Some (whole, fraction, u) \<Rightarrow>
               (case Option.bind (double (duration_value whole fraction))
                       (\<lambda>d. double (d * of_nat (get_or (dict_get UNITS u) 1))) of
                  None \<Rightarrow> Inl DurationOverflow
                | Some v \<Rightarrow> Inr (Some \<lfloor>v\<rfloor>))))"

section \<open>Budgets\<close>

datatype stop_reason = Completed | BudgetWallClock | BudgetRequests | Interrupted | StopError

definition stop_value :: "stop_reason \<Rightarrow> string" where
  "stop_value r =
     (case r of Completed \<Rightarrow> ''completed'' | BudgetWallClock \<Rightarrow> ''budget_wall_clock'' | BudgetRequests \<Rightarrow> ''budget_requests''
      | Interrupted \<Rightarrow> ''interrupted'' | StopError \<Rightarrow> ''error'')"

definition exhausted :: "stop_reason \<Rightarrow> bool" where
  "exhausted r = (r = BudgetWallClock \<or> r = BudgetRequests)"

record budget =
  bu_wall :: "int option"
  bu_max :: "int option"
  bu_grace :: int
  bu_poll :: rat

definition parse_budget :: "duration \<Rightarrow> int option \<Rightarrow> duration \<Rightarrow> rat \<Rightarrow> duration_error + budget" where
  "parse_budget wall max_requests grace poll =
     bindE (parse_duration wall) (\<lambda>w. bindE (parse_duration grace) (\<lambda>g.
       Inr \<lparr>bu_wall = w, bu_max = (if max_requests = Some 0 then None else max_requests), bu_grace = get_or g 0,
            bu_poll = poll\<rparr>))"

definition describe_budget :: "budget \<Rightarrow> string" where
  "describe_budget b =
     join '', ''
       ((case bu_wall b of
           None \<Rightarrow> ''no time limit''
         | Some w \<Rightarrow> if w = 0 then ''no time limit'' else int_text w @ ''s wall clock'')
        # (case bu_max b of None \<Rightarrow> [] | Some n \<Rightarrow> if n = 0 then [] else [int_text n @ '' requests'']))"

section \<open>The watch\<close>

record watch =
  bw_budget :: budget
  bw_started :: rat
  bw_requests :: int

definition new_watch :: "budget \<Rightarrow> rat \<Rightarrow> watch" where
  "new_watch b now = \<lparr>bw_budget = b, bw_started = now, bw_requests = 0\<rparr>"

definition elapsed :: "watch \<Rightarrow> rat \<Rightarrow> rat" where
  "elapsed w now = now - bw_started w"

definition remaining_s :: "watch \<Rightarrow> rat \<Rightarrow> rat option" where
  "remaining_s w now = map_option (\<lambda>s. max 0 (of_int s - elapsed w now)) (bu_wall (bw_budget w))"

text \<open>\<open>check\<close>: the reason to stop, if any, and the watch with the requests seen.\<close>

definition watch_check :: "int option \<Rightarrow> bool \<Rightarrow> rat \<Rightarrow> watch \<Rightarrow> stop_reason option \<times> watch" where
  "watch_check requests tool_exited now w =
     (let w = (case requests of None \<Rightarrow> w | Some n \<Rightarrow> w\<lparr>bw_requests := max (bw_requests w) n\<rparr>);
          out_of_time = (case bu_wall (bw_budget w) of None \<Rightarrow> False | Some s \<Rightarrow> of_int s \<le> elapsed w now);
          out_of_requests = (case bu_max (bw_budget w) of None \<Rightarrow> False | Some n \<Rightarrow> n \<le> bw_requests w)
      in (if tool_exited then Some Completed else if out_of_time then Some BudgetWallClock
          else if out_of_requests then Some BudgetRequests else None, w))"

section \<open>Facts\<close>

lemma watch_kept:
  "bw_budget (snd (watch_check r e now w)) = bw_budget w" "bw_started (snd (watch_check r e now w)) = bw_started w"
  by (simp_all add: watch_check_def Let_def split: option.split)

text \<open>Requests never go backwards, so a meter that fails hands out no budget; what is exhausted stays so.\<close>

lemma requests_monotone: "bw_requests w \<le> bw_requests (snd (watch_check r e now w))"
  by (simp add: watch_check_def Let_def split: option.split)

lemma exhausted_stays:
  assumes "fst (watch_check r False now w) \<noteq> None" and "now \<le> now'"
  shows "fst (watch_check r' e' now' (snd (watch_check r False now w))) \<noteq> None"
  using assms by (auto simp: watch_check_def Let_def elapsed_def split: option.splits if_splits)

lemma in_time:
  assumes "fst (watch_check r False now w) = None" and "bu_wall (bw_budget w) = Some s"
  shows "elapsed w now < of_int s"
  using assms by (auto simp: watch_check_def Let_def elapsed_def not_le split: option.splits if_splits)

end
