(* ===== verification/Run_Driver.thy ===== *)
theory Run_Driver
  imports Run_Budget Run_Docker
begin

text \<open>
  \<open>BaseDriver.run\<close> and \<open>_run_one\<close> of \<open>runners/_lib/driver.py\<close>: the containers of a scan one after the other, each
  polled under its share of the budget and under the budget of the run. What docker, the meter of
  requests and the clock answer is an argument (\<open>scan_world\<close>); where a call raises its answer is
  \<open>None\<close>. Time stamps of the record and the rounding of the elapsed time are left out, and so is the argument list that \<open>plan\<close> makes of a tool.
\<close>

section \<open>Invocations and results\<close>

record invocation =
  iv_name :: string
  iv_app :: "string option"
  iv_args :: "string list"
  iv_image :: "string option"
  iv_entrypoint :: "string option"
  iv_user :: "string option"
  iv_env :: "(string \<times> string) list"
  iv_volumes :: "(string \<times> string) list"
  iv_flags :: "string list"
  iv_artifacts :: "string list"

record scan_result =
  ir_name :: string
  ir_app :: "string option"
  ir_argv :: "string list"
  ir_image :: string
  ir_digest :: "string option"
  ir_container :: "string option"
  ir_elapsed :: rat
  ir_exit :: "int option"
  ir_stop :: stop_reason
  ir_from :: int
  ir_until :: int
  ir_share :: "rat option"
  ir_present :: "(string \<times> bool) list"
  ir_error :: "string option"

definition scan_requests :: "scan_result \<Rightarrow> int" where
  "scan_requests r = ir_until r - ir_from r"

definition empty_result :: "string \<Rightarrow> string option \<Rightarrow> string \<Rightarrow> scan_result" where
  "empty_result name app img =
     \<lparr>ir_name = name, ir_app = app, ir_argv = [], ir_image = img, ir_digest = None, ir_container = None, ir_elapsed = 0,
      ir_exit = None, ir_stop = StopError, ir_from = 0, ir_until = 0, ir_share = None, ir_present = [], ir_error = None\<rparr>"

section \<open>The world of an invocation\<close>

text \<open>One turn of the loop: the inspection of the container, the meter, and the clock of the two watches;
  or the operator interrupts.\<close>

datatype poll = Poll "exec_result option" "int option" rat rat | KeyboardInterrupt

record scan_world =
  sw_share_now :: rat
  sw_from :: "int option"
  sw_handle :: "string + string \<times> string option"
  sw_started :: rat
  sw_polls :: "nat \<Rightarrow> poll"
  sw_exit :: "exec_result option"
  sw_until :: "int option"
  sw_ended :: rat
  sw_present :: "string \<Rightarrow> bool"
  sw_meter :: "int option"
  sw_now :: rat

text \<open>\<open>_safe_meter\<close>: a meter that raises counts nothing.\<close>

definition safe_meter :: "int option \<Rightarrow> int" where
  "safe_meter m = get_or m 0"

section \<open>The loop\<close>

text \<open>\<open>None\<close> as the outcome: docker raised. The two watches go through the loop.\<close>

definition poll_step :: "decoder \<Rightarrow> poll \<Rightarrow> watch \<Rightarrow> watch \<Rightarrow> (stop_reason option) option \<times> watch \<times> watch" where
  "poll_step loads p own run_watch =
     (case p of
        KeyboardInterrupt \<Rightarrow> (Some (Some Interrupted), own, run_watch)
      | Poll inspection meter t_own t_run \<Rightarrow>
          (case inspection of
             None \<Rightarrow> (None, own, run_watch)
           | Some r \<Rightarrow>
               (let (a, own) = watch_check (Some (safe_meter meter)) (\<not> is_running loads r) t_own own;
                    (b, run_watch) = watch_check (Some (safe_meter meter)) False t_run run_watch
                in (Some (if a \<noteq> None then a else b), own, run_watch))))"

partial_function (option) poll_loop ::
  "decoder \<Rightarrow> (nat \<Rightarrow> poll) \<Rightarrow> nat \<Rightarrow> watch \<Rightarrow> watch \<Rightarrow> (stop_reason option \<times> watch \<times> watch) option" where
  "poll_loop loads polls k own run_watch =
     (case poll_step loads (polls k) own run_watch of
        (None, own, run_watch) \<Rightarrow> Some (None, own, run_watch)
      | (Some (Some reason), own, run_watch) \<Rightarrow> Some (Some reason, own, run_watch)
      | (Some None, own, run_watch) \<Rightarrow> poll_loop loads polls (k + 1) own run_watch)"

declare poll_loop.simps [code]

section \<open>One invocation\<close>

record scan_context =
  sc_tool :: string
  sc_bin :: string
  sc_image :: string
  sc_run_id :: string
  sc_network :: string
  sc_raw :: string
  sc_conf :: string
  sc_workdir :: string
  sc_entrypoint :: "string option"
  sc_user :: "string option"
  sc_budget :: budget
  sc_keep :: bool

definition image_of :: "scan_context \<Rightarrow> invocation \<Rightarrow> string" where
  "image_of ctx job = str_or (iv_image job) (sc_image ctx)"

definition scan_argv :: "scan_context \<Rightarrow> invocation \<Rightarrow> string list" where
  "scan_argv ctx job =
     detached_argv (sc_bin ctx) (''scan-'' @ sc_tool ctx @ ''-'' @ iv_name job @ ''-'' @ take 8 (sc_run_id ctx))
       (or_str (iv_user job) (sc_user ctx)) (iv_flags job)
       \<lparr>cs_image = image_of ctx job, cs_args = iv_args job, cs_network = sc_network ctx,
        cs_volumes = [(sc_raw ctx, sc_workdir ctx @ ''/raw''), (sc_conf ctx, sc_workdir ctx @ ''/conf:ro'')] @ iv_volumes job,
        cs_env = iv_env job, cs_entrypoint = or_str (iv_entrypoint job) (sc_entrypoint ctx)\<rparr>"

definition share_budget :: "budget \<Rightarrow> rat option \<Rightarrow> budget" where
  "share_budget b share =
     b\<lparr>bu_wall := (case share of None \<Rightarrow> None | Some s \<Rightarrow> if s = 0 then None else Some \<lfloor>s\<rfloor>)\<rparr>"

text \<open>What is done to containers: the effects of a scan, in order.\<close>

datatype scan_act = StartScan "string list" | StopScan string int | RemoveScan string

text \<open>\<open>_run_one\<close>: the acts, the result (\<open>None\<close> when docker raised) and the watch of the run; \<open>None\<close> altogether
  when the tool is never stopped.\<close>

definition run_one ::
  "decoder \<Rightarrow> scan_context \<Rightarrow> invocation \<Rightarrow> scan_world \<Rightarrow> watch \<Rightarrow> rat option
   \<Rightarrow> (scan_act list \<times> scan_result option \<times> watch) option" where
  "run_one loads ctx job w run_watch share =
     (let blank = (empty_result (iv_name job) (iv_app job) (image_of ctx job))
                    \<lparr>ir_from := safe_meter (sw_from w), ir_share := share\<rparr>
      in case sw_handle w of
           Inl e \<Rightarrow>
             Some ([StartScan (scan_argv ctx job)], Some (blank\<lparr>ir_error := Some (''could not start container: '' @ e)\<rparr>), run_watch)
         | Inr (cid, digest) \<Rightarrow>
             (case poll_loop loads (sw_polls w) 0 (new_watch (share_budget (sc_budget ctx) share) (sw_started w)) run_watch of
                None \<Rightarrow> None
              | Some (reason, own, run_watch) \<Rightarrow>
                  (let acts = [StartScan (scan_argv ctx job)]
                         @ (if reason = Some Completed then [] else [StopScan cid (bu_grace (sc_budget ctx))])
                   in case sw_exit w of
                        None \<Rightarrow> Some (acts, None, run_watch)
                      | Some r \<Rightarrow>
                          Some (acts @ (if sc_keep ctx then [] else [RemoveScan cid]),
                            map_option (\<lambda>stop. blank
                              \<lparr>ir_argv := scan_argv ctx job, ir_digest := digest, ir_container := Some cid,
                               ir_exit := container_exit_code loads r, ir_stop := stop, ir_elapsed := elapsed own (sw_ended w),
                               ir_until := safe_meter (sw_until w),
                               ir_present := map (\<lambda>n. (n, sw_present w n)) (iv_artifacts job)\<rparr>) reason,
                            run_watch))))"

section \<open>All invocations\<close>

definition share_of :: "watch \<Rightarrow> rat \<Rightarrow> nat \<Rightarrow> rat option" where
  "share_of run_watch now left_over =
     (if bu_wall (bw_budget run_watch) = None then None
      else Some (max 1 (get_or (remaining_s run_watch now) 0 / of_nat left_over)))"

definition not_started :: "string \<Rightarrow> stop_reason \<Rightarrow> invocation \<Rightarrow> scan_result" where
  "not_started img reason job =
     (empty_result (iv_name job) (iv_app job) img)
       \<lparr>ir_stop := reason, ir_error := Some ''not started: run budget exhausted by earlier targets''\<rparr>"

text \<open>The loop over the invocations with their worlds: acts and results, where no results mean that
  docker or the unguarded call of the meter raised, which loses those of earlier invocations too.\<close>

fun run_all ::
  "decoder \<Rightarrow> scan_context \<Rightarrow> watch \<Rightarrow> (invocation \<times> scan_world) list \<Rightarrow> (scan_act list \<times> scan_result list option) option" where
  "run_all loads ctx run_watch [] = Some ([], Some [])"
| "run_all loads ctx run_watch ((job, w) # more_left) =
     (case run_one loads ctx job w run_watch (share_of run_watch (sw_share_now w) (Suc (length more_left))) of
        None \<Rightarrow> None
      | Some (acts, None, _) \<Rightarrow> Some (acts, None)
      | Some (acts, Some result, run_watch) \<Rightarrow>
          (case sw_meter w of
             None \<Rightarrow> Some (acts, None)
           | Some m \<Rightarrow>
               (case watch_check (Some m) False (sw_now w) run_watch of
                  (Some reason, _) \<Rightarrow> Some (acts, Some (result # map (\<lambda>(i, _). not_started (image_of ctx job) reason i) more_left))
                | (None, run_watch) \<Rightarrow>
                    map_option (\<lambda>(acts', rs). (acts @ acts', map_option ((#) result) rs))
                      (run_all loads ctx run_watch more_left))))"

definition driver_run ::
  "decoder \<Rightarrow> scan_context \<Rightarrow> rat \<Rightarrow> (invocation \<times> scan_world) list \<Rightarrow> (scan_act list \<times> scan_result list option) option" where
  "driver_run loads ctx now plan = run_all loads ctx (new_watch (sc_budget ctx) now) plan"

end
