(* ===== verification/Run_Login.thy ===== *)
theory Run_Login
  imports Run_Config
begin

text \<open>
  \<open>runners/_lib/login.py\<close>: logging into a target and proving it. The replies are arguments and the requests are
  returned, so that what is sent is part of the result. \<open>json.loads\<close>, \<open>re.search\<close> and \<open>str.format\<close> on the header
  template are parameters; the wording of details is left out.
\<close>

section \<open>Requests and replies\<close>

datatype http_body = NoBody | JsonBody "(string, string) dict" | FormBody "(string, string) dict"

record http_call =
  hc_method :: string
  hc_url :: string
  hc_body :: http_body
  hc_headers :: "(string, string) dict"

record http_reply =
  hr_status :: int
  hr_body :: string
  hr_cookies :: "string list"

definition reply_ok :: "http_reply \<Rightarrow> bool" where
  "reply_ok r = (200 \<le> hr_status r \<and> hr_status r < 300)"

section \<open>Sessions\<close>

record session =
  se_app :: string
  se_cookies :: "(string, string) dict"
  se_headers :: "(string, string) dict"
  se_token :: "string option"
  se_verified :: bool

definition cookie_text :: "(string, string) dict \<Rightarrow> string" where
  "cookie_text cookies = join ''; '' (map (\<lambda>(k, v). k @ CHR ''='' # v) cookies)"

definition session_headers :: "session \<Rightarrow> (string, string) dict" where
  "session_headers s =
     (if se_cookies s = [] then se_headers s else dict_set ''Cookie'' (cookie_text (se_cookies s)) (se_headers s))"

definition add_cookie :: "(string, string) dict \<Rightarrow> string \<Rightarrow> (string, string) dict" where
  "add_cookie jar line =
     (let first = strip (before (CHR '';'') line);
          name = strip (before (CHR ''='') first); v = strip (after (CHR ''='') first)
      in if CHR ''='' \<notin> set first then jar
         else if (v = [] \<or> v = [CHR 0x22, CHR 0x22]) \<and> dict_get jar name \<noteq> None then dict_del name jar
         else if name \<noteq> [] then dict_set name v jar else jar)"

definition parse_set_cookie :: "string list \<Rightarrow> (string, string) dict" where
  "parse_set_cookie lines = foldl add_cookie [] lines"

text \<open>\<open>_dig\<close>: a path of keys and of list positions, which may count from the end.\<close>

definition list_at :: "json list \<Rightarrow> int \<Rightarrow> json option" where
  "list_at xs i =
     (if 0 \<le> i \<and> i < int (length xs) then Some (xs ! nat i)
      else if i < 0 \<and> - int (length xs) \<le> i then Some (xs ! nat (int (length xs) + i)) else None)"

fun dig :: "json \<Rightarrow> string list \<Rightarrow> json" where
  "dig v [] = v"
| "dig v (p # ps) =
     (case v of
        JList xs \<Rightarrow> (case Option.bind (int_of_text p) (list_at xs) of None \<Rightarrow> JNull | Some x \<Rightarrow> dig x ps)
      | JObj d \<Rightarrow> dig (jget d p) ps
      | _ \<Rightarrow> JNull)"

text \<open>The Base64 form of octets.\<close>

definition b64_char :: "nat \<Rightarrow> char" where
  "b64_char n = ''ABCDEFGHIJKLMNOPQRSTUVWXYZabcdefghijklmnopqrstuvwxyz0123456789+/'' ! (n mod 64)"

fun b64 :: "nat list \<Rightarrow> string" where
  "b64 [] = []"
| "b64 [a] = [b64_char (a div 4), b64_char (16 * (a mod 4)), CHR ''='', CHR ''='']"
| "b64 [a, b] = [b64_char (a div 4), b64_char (16 * (a mod 4) + b div 16), b64_char (4 * (b mod 16)), CHR ''='']"
| "b64 (a # b # c # s) =
     b64_char (a div 4) # b64_char (16 * (a mod 4) + b div 16) # b64_char (4 * (b mod 16) + c div 64) # b64_char c # b64 s"

section \<open>Establishing a session\<close>

datatype login_error = NoLoginUrl | LoginRefused | NoToken | NothingToVerify | NotVerified

record login_world =
  lw_page :: http_reply
  lw_login :: http_reply
  lw_verify :: http_reply

text \<open>The second half of \<open>establish\<close>: verification against its own URL, or against the reply to the login.\<close>

definition marked :: "(string \<Rightarrow> string \<Rightarrow> bool) \<Rightarrow> credentials \<Rightarrow> http_reply \<Rightarrow> bool" where
  "marked search c r =
     (reply_ok r
      \<and> (truthy (cr_logged_in c) \<longrightarrow> search (the (cr_logged_in c)) (hr_body r))
      \<and> (truthy (cr_logged_out c) \<longrightarrow> \<not> search (the (cr_logged_out c)) (hr_body r)))"

definition verify_session ::
  "(string \<Rightarrow> string \<Rightarrow> bool) \<Rightarrow> credentials \<Rightarrow> bool \<Rightarrow> http_reply \<Rightarrow> http_reply option \<Rightarrow> session
   \<Rightarrow> http_call list \<times> (login_error + session)" where
  "verify_session search c strict verify_reply login_reply s =
     (let judge = (\<lambda>r. if \<not> marked search c r \<and> strict then Inl NotVerified else Inr (s\<lparr>se_verified := marked search c r\<rparr>))
      in if truthy (cr_verify_url c)
         then ([\<lparr>hc_method = ''GET'', hc_url = the (cr_verify_url c), hc_body = NoBody, hc_headers = session_headers s\<rparr>],
               judge verify_reply)
         else if truthy (cr_logged_in c) \<or> truthy (cr_logged_out c)
         then ([], case login_reply of None \<Rightarrow> Inr (s\<lparr>se_verified := False\<rparr>) | Some r \<Rightarrow> judge r)
         else ([], if strict then Inl NothingToVerify else Inr (s\<lparr>se_verified := False\<rparr>)))"

definition with_token ::
  "(string \<Rightarrow> string \<Rightarrow> string) \<Rightarrow> credentials \<Rightarrow> session \<Rightarrow> login_error + session" where
  "with_token fmt c s =
     (if cr_session c \<noteq> ''bearer'' \<and> cr_session c \<noteq> ''header'' then Inr s
      else if \<not> truthy (se_token s) then Inl NoToken
      else Inr (s\<lparr>se_headers := dict_set (cr_header_name c) (fmt (cr_header_template c) (the (se_token s))) (se_headers s)\<rparr>))"

definition token_of :: "(string \<Rightarrow> json option) \<Rightarrow> credentials \<Rightarrow> string \<Rightarrow> login_error + string option" where
  "token_of loads c body =
     (if \<not> truthy (cr_token_path c) then Inr None
      else case loads (if body = [] then ''{}'' else body) of
        None \<Rightarrow> Inl NoToken
      | Some doc \<Rightarrow>
          (let v = dig doc (split_char (CHR ''.'') (the (cr_token_path c)))
           in if v = JNull then Inl NoToken else Inr (Some (jstr v))))"

definition establish ::
  "(string \<Rightarrow> json option) \<Rightarrow> (string \<Rightarrow> string \<Rightarrow> bool) \<Rightarrow> (string \<Rightarrow> string \<Rightarrow> string) \<Rightarrow> credentials \<Rightarrow> bool \<Rightarrow> login_world
   \<Rightarrow> http_call list \<times> (login_error + session)" where
  "establish loads search fmt c strict w =
     (let blank = \<lparr>se_app = cr_app c, se_cookies = [], se_headers = [], se_token = None, se_verified = False\<rparr>
      in if cr_kind c = ''basic'' then
           verify_session search c strict (lw_verify w) None
             (blank\<lparr>se_headers := [(''Authorization'', ''Basic '' @ b64 (utf8_encode (cr_username c @ CHR '':'' # cr_password c)))]\<rparr>)
         else if \<not> truthy (cr_login_url c) then ([], Inl NoLoginUrl)
         else
           let page = truthy (cr_login_page_url c);
               pre = (if page then parse_set_cookie (hr_cookies (lw_page w)) else []);
               calls = (if page then [\<lparr>hc_method = ''GET'', hc_url = the (cr_login_page_url c), hc_body = NoBody, hc_headers = []\<rparr>] else [])
                 @ [\<lparr>hc_method = ''POST'', hc_url = the (cr_login_url c),
                      hc_body = (if cr_kind c = ''json'' \<or> cr_kind c = ''bearer'' then JsonBody (login_body c) else FormBody (login_body c)),
                      hc_headers = (if pre = [] then [] else [(''Cookie'', cookie_text pre)])\<rparr>];
               r = lw_login w
           in if \<not> reply_ok r then (calls, Inl LoginRefused)
              else case token_of loads c (hr_body r) of
                Inl e \<Rightarrow> (calls, Inl e)
              | Inr token \<Rightarrow>
                  (case with_token fmt c (blank\<lparr>se_token := token,
                       se_cookies := foldl (\<lambda>d (k, v). dict_set k v d) pre (parse_set_cookie (hr_cookies r))\<rparr>) of
                     Inl e \<Rightarrow> (calls, Inl e)
                   | Inr s \<Rightarrow>
                       (let (more_calls, result) = verify_session search c strict (lw_verify w) (Some r) s
                        in (calls @ more_calls, result))))"

section \<open>What a session proves\<close>

text \<open>A strict login ends in a verified session, but for basic credentials that have indicators and no URL to
  check them against: there nothing is looked at.\<close>

lemma strict_session_verified:
  assumes "snd (establish loads search fmt c True w) = Inr s"
  shows "se_verified s \<or> cr_kind c = ''basic'' \<and> \<not> truthy (cr_verify_url c)"
  using assms
  by (auto simp: establish_def verify_session_def Let_def case_prod_beta split: if_splits sum.splits option.splits)

end
