(* ===== verification/Tool_Plans.thy ===== *)
theory Tool_Plans
  imports Run_Driver Run_Login
begin

text \<open>
  What the drivers of nuclei, wapiti and nikto start (\<open>runners/nuclei\<close>, \<open>runners/wapiti\<close>, \<open>runners/nikto\<close>),
  what a driver may know of a run (\<open>RunContext\<close> of \<open>driver.py\<close>), and the driver for tools that are not started
  by the harness (\<open>runners/generic\<close>).
\<close>

section \<open>What a driver knows\<close>

record plan_options =
  op_rate_limit :: "int option"
  op_wordlist :: "string option"
  op_modules :: "string option"
  op_offline :: bool
  op_skip_prepare :: bool
  op_prepared :: bool

record plan_context =
  pc_profile :: string
  pc_apps :: "app_spec list"
  pc_budget :: budget
  pc_credentials :: "(string, credentials) dict"
  pc_sessions :: "(string, session) dict"
  pc_options :: plan_options

text \<open>\<open>creds_for\<close>: the credentials with their URLs against the tool's base URL.\<close>

definition tool_creds :: "plan_context \<Rightarrow> string \<Rightarrow> credentials option" where
  "tool_creds ctx app =
     map_option (\<lambda>c. case List.find (\<lambda>a. as_key a = app) (pc_apps ctx) of
         None \<Rightarrow> c
       | Some a \<Rightarrow> if as_base_url a = [] then c else for_base (as_base_url a) c)
       (dict_get (pc_credentials ctx) app)"

definition session_for :: "plan_context \<Rightarrow> string \<Rightarrow> session option" where
  "session_for ctx app = dict_get (pc_sessions ctx) app"

definition truncate_rat :: "rat \<Rightarrow> int" where
  "truncate_rat q = (if q < 0 then \<lceil>q\<rceil> else \<lfloor>q\<rfloor>)"

definition share_seconds :: "plan_context \<Rightarrow> rat option" where
  "share_seconds ctx = map_option (\<lambda>s. fl (of_int s / of_nat (max 1 (length (pc_apps ctx))))) (bu_wall (pc_budget ctx))"

text \<open>\<open>int(share_s * f)\<close> for a factor written with decimals.\<close>

definition part_of :: "rat \<Rightarrow> rat \<Rightarrow> int" where
  "part_of share factor = truncate_rat (fl (share * fl factor))"

definition CONTAINER_WORKDIR :: string where "CONTAINER_WORKDIR = ''/work''"

definition blank_invocation :: "app_spec \<Rightarrow> string list \<Rightarrow> string list \<Rightarrow> invocation" where
  "blank_invocation a args artifacts =
     \<lparr>iv_name = as_key a, iv_app = Some (as_key a), iv_args = args, iv_image = None, iv_entrypoint = None, iv_user = None, iv_env = [],
      iv_volumes = [], iv_flags = [], iv_artifacts = artifacts\<rparr>"

text \<open>An option that is given once for each value.\<close>

definition repeated :: "string \<Rightarrow> string list \<Rightarrow> string list" where
  "repeated option values = concat (map (\<lambda>v. [option, v]) values)"

definition header_lines :: "(string, string) dict \<Rightarrow> string list" where
  "header_lines d = map (\<lambda>(k, v). k @ '': '' @ v) d"

section \<open>nuclei\<close>

definition TEMPLATE_VOLUME :: string where "TEMPLATE_VOLUME = ''nuclei-templates''"

definition TEMPLATE_DIR :: string where "TEMPLATE_DIR = ''/templates''"

definition nuclei_prepare :: "plan_context \<Rightarrow> invocation list" where
  "nuclei_prepare ctx =
     (if op_skip_prepare (pc_options ctx) then []
      else [\<lparr>iv_name = ''templates'', iv_app = None, iv_args = [''-update-templates'', ''-update-template-dir'', TEMPLATE_DIR],
             iv_image = None, iv_entrypoint = None, iv_user = None, iv_env = [], iv_volumes = [(TEMPLATE_VOLUME, TEMPLATE_DIR)],
             iv_flags = [], iv_artifacts = []\<rparr>])"

definition nuclei_prepared :: "plan_context \<Rightarrow> bool" where
  "nuclei_prepared ctx = (op_prepared (pc_options ctx) \<and> \<not> op_skip_prepare (pc_options ctx))"

definition nuclei_auth :: "plan_context \<Rightarrow> app_spec \<Rightarrow> string list" where
  "nuclei_auth ctx a =
     (case session_for ctx (as_key a) of None \<Rightarrow> [] | Some s \<Rightarrow> repeated ''-header'' (header_lines (session_headers s)))"

definition nuclei_args :: "plan_context \<Rightarrow> app_spec \<Rightarrow> string list" where
  "nuclei_args ctx a =
     [''-target'', as_base_url a, ''-jsonl'', ''-output'', CONTAINER_WORKDIR @ ''/raw/nuclei-'' @ as_key a @ ''.jsonl'',
      ''-disable-update-check'', ''-include-rr'', ''-matcher-status'', ''-stats'', ''-stats-interval'', ''60'', ''-timeout'', ''10'',
      ''-retries'', ''1'', ''-rate-limit'', int_text (get_or (op_rate_limit (pc_options ctx)) 50), ''-concurrency'', ''25'',
      ''-max-host-error'', ''30'']
     @ (if nuclei_prepared ctx then [''-templates'', TEMPLATE_DIR] else [])
     @ (if pc_profile ctx = ''dast'' then [''-dast''] else [])
     @ (if pc_profile ctx = ''offline'' \<or> op_offline (pc_options ctx) then [''-no-interactsh''] else [])
     @ nuclei_auth ctx a"

definition nuclei_plan :: "plan_context \<Rightarrow> invocation list" where
  "nuclei_plan ctx =
     map (\<lambda>a. (blank_invocation a (nuclei_args ctx a) [''nuclei-'' @ as_key a @ ''.jsonl''])
       \<lparr>iv_volumes := if nuclei_prepared ctx then [(TEMPLATE_VOLUME, TEMPLATE_DIR @ '':ro'')] else []\<rparr>) (pc_apps ctx)"

definition nuclei_browser :: "invocation list \<Rightarrow> bool" where
  "nuclei_browser jobs = list_ex (\<lambda>j. ''-headless'' \<in> set (iv_args j)) jobs"

section \<open>wapiti\<close>

definition MODULES :: string where
  "MODULES =
     ''backup,brute_login_form,buster,cms,cookieflags,crlf,csp,csrf,exec,file,htaccess,'' @
     ''htp,http_headers,https_redirect,ldap,log4shell,methods,network_device,nikto,'' @
     ''permanentxss,redirect,shellshock,spring4shell,sql,ssrf,takeover,timesql,upload,'' @ ''wapp,wp_enum,xss,xxe''"

definition wapiti_exclusions :: "plan_context \<Rightarrow> app_spec \<Rightarrow> string list" where
  "wapiti_exclusions ctx a =
     repeated ''--exclude'' (map (\<lambda>p. rstrip_chars ''/'' (as_base_url a) @ p)
       (as_exclude a @ (case tool_creds ctx (as_key a) of None \<Rightarrow> [] | Some c \<Rightarrow> logout_prefixes c)))"

definition wapiti_auth :: "plan_context \<Rightarrow> app_spec \<Rightarrow> string list" where
  "wapiti_auth ctx a =
     (case tool_creds ctx (as_key a) of
        None \<Rightarrow> []
      | Some c \<Rightarrow>
          if cr_kind c = ''basic''
          then [''--auth-user'', cr_username c, ''--auth-password'', cr_password c, ''--auth-method'', ''basic'']
          else if cr_kind c = ''form'' \<and> (truthy (cr_login_page_url c) \<or> truthy (cr_login_url c))
          then [''--form-user'', cr_username c, ''--form-password'', cr_password c, ''--form-url'',
                the (or_str (cr_login_page_url c) (cr_login_url c))]
          else case session_for ctx (as_key a) of
            None \<Rightarrow> []
          | Some s \<Rightarrow>
              (if se_cookies s = [] then [] else [''--cookie-value'', cookie_text (se_cookies s)])
              @ repeated ''--header'' (header_lines (se_headers s)))"

definition wapiti_args :: "plan_context \<Rightarrow> app_spec \<Rightarrow> string list" where
  "wapiti_args ctx a =
     [''--url'', as_base_url a, ''--format'', ''json'', ''--output'', CONTAINER_WORKDIR @ ''/raw/wapiti-'' @ as_key a @ ''.json'',
      ''--module'', get_or (op_modules (pc_options ctx)) MODULES, ''--scope'', ''folder'', ''--depth'', ''10'', ''--max-links-per-page'', ''100'',
      ''--tasks'', ''8'', ''--timeout'', ''10'', ''--verify-ssl'', ''0'', ''--flush-session'', ''--flush-attacks'', ''--detailed-report'', ''1'',
      ''--verbose'', ''1'']
     @ (case share_seconds ctx of
          None \<Rightarrow> []
        | Some s \<Rightarrow> [''--max-scan-time'', int_text (part_of s (85 / 100)),
                     ''--max-attack-time'', int_text (max 60 (part_of s (25 / 100)))])
     @ wapiti_exclusions ctx a @ wapiti_auth ctx a"

definition wapiti_plan :: "plan_context \<Rightarrow> invocation list" where
  "wapiti_plan ctx = map (\<lambda>a. blank_invocation a (wapiti_args ctx a) [''wapiti-'' @ as_key a @ ''.json'']) (pc_apps ctx)"

section \<open>nikto\<close>

definition nikto_auth :: "plan_context \<Rightarrow> app_spec \<Rightarrow> string list" where
  "nikto_auth ctx a =
     (let replay = (case session_for ctx (as_key a) of None \<Rightarrow> [] | Some s \<Rightarrow> repeated ''-Add-header'' (header_lines (session_headers s)))
      in case tool_creds ctx (as_key a) of
           None \<Rightarrow> replay
         | Some c \<Rightarrow>
             if cr_kind c = ''basic''
             then [''-id'', cr_username c @ CHR '':'' #
                    (if CHR '':'' \<in> set (cr_password c) then CHR 0x22 # cr_password c @ [CHR 0x22] else cr_password c)]
             else replay)"

definition nikto_args :: "plan_context \<Rightarrow> app_spec \<Rightarrow> string list" where
  "nikto_args ctx a =
     [''-host'', as_base_url a, ''-Format'', ''json'', ''-output'', CONTAINER_WORKDIR @ ''/raw/nikto-'' @ as_key a @ ''.json'',
      ''-ask'', ''no'', ''-nointeractive'', ''-nolookup'', ''-timeout'', ''10'', ''-Display'', ''V'']
     @ (case share_seconds ctx of None \<Rightarrow> [] | Some s \<Rightarrow> [''-maxtime'', int_text (part_of s (8 / 10))])
     @ nikto_auth ctx a"

definition nikto_plan :: "plan_context \<Rightarrow> invocation list" where
  "nikto_plan ctx = map (\<lambda>a. blank_invocation a (nikto_args ctx a) [''nikto-'' @ as_key a @ ''.json'']) (pc_apps ctx)"

section \<open>Tools that are started by others\<close>

text \<open>One turn of \<open>_wait\<close>: whether the sentinel is there, the meter, and the clock.\<close>

partial_function (option) generic_wait :: "(nat \<Rightarrow> bool \<times> int option \<times> rat) \<Rightarrow> watch \<Rightarrow> nat \<Rightarrow> stop_reason option" where
  "generic_wait turns w k =
     (case turns k of (sentinel, meter, now) \<Rightarrow>
        if sentinel then Some Completed
        else case watch_check (Some (safe_meter meter)) False now w of
          (Some reason, _) \<Rightarrow> Some reason
        | (None, w) \<Rightarrow> generic_wait turns w (k + 1))"

declare generic_wait.simps [code]

text \<open>\<open>run\<close> of the generic driver; the findings file is given or not, and exists or not.\<close>

definition generic_run ::
  "plan_context \<Rightarrow> bool \<Rightarrow> (string \<times> bool) option \<Rightarrow> bool \<Rightarrow> (nat \<Rightarrow> bool \<times> int option \<times> rat) \<Rightarrow> rat \<Rightarrow> rat \<Rightarrow> int option \<Rightarrow> scan_result option" where
  "generic_run ctx attach findings_file raw_present turns started ended meter =
     (let w = new_watch (pc_budget ctx) started;
          error = (case findings_file of
                     None \<Rightarrow> Some ''no --findings file supplied; nothing to normalise''
                   | Some (f, exists) \<Rightarrow> if f = [] then Some ''no --findings file supplied; nothing to normalise''
                                         else if exists then None else Some (''findings file not found: '' @ f));
          copied = (case findings_file of None \<Rightarrow> False | Some (f, exists) \<Rightarrow> f \<noteq> [] \<and> exists)
      in map_option (\<lambda>reason.
           (empty_result ''vendor'' (Some (join '','' (map as_key (pc_apps ctx)))) ''(no container: externally driven tool)'')
             \<lparr>ir_elapsed := elapsed w ended, ir_exit := Some (if error = None then 0 else 1), ir_stop := reason, ir_until := safe_meter meter,
              ir_present := [(''generic-findings.json'', copied \<or> raw_present)], ir_error := error\<rparr>)
         (if attach then generic_wait turns w 0 else Some Completed))"

end
