(* ===== verification/Run_Reset.thy ===== *)
theory Run_Reset
  imports Run_Config Run_Docker
begin

text \<open>
  \<open>runners/_lib/reset.py\<close>: putting a target back to its seeded state, and the proof that it happened. What docker
  answers is an argument, as is \<open>datetime.fromisoformat\<close> (an instant, and whether it carries an offset). A call of docker
  that raises ends the reset with \<open>Inl\<close>; the wordings of the checks are left out.
\<close>

section \<open>Restarts\<close>

type_synonym iso_reader = "string \<Rightarrow> (bool \<times> rat) option"

text \<open>The text that \<open>_parse_docker_time\<close> hands to \<open>fromisoformat\<close>.\<close>

definition docker_time_text :: "string \<Rightarrow> string" where
  "docker_time_text v =
     (let t = concat (map (\<lambda>c. if c = CHR ''Z'' then ''+00:00'' else [c]) v)
      in if CHR ''.'' \<notin> set t then t
         else let tail = after (CHR ''.'') t; digits = take 6 (filter is_digit tail);
                  offset = dropWhile is_dec (drop (length digits) tail)
              in before (CHR ''.'') t @ CHR ''.'' # str_or (falsy_none digits) ''0'' @ offset)"

definition parse_docker_time :: "iso_reader \<Rightarrow> string option \<Rightarrow> (bool \<times> rat) option" where
  "parse_docker_time read_iso v =
     (if \<not> truthy v \<or> startswith (the v) ''0001-01-01'' then None else read_iso (docker_time_text (the v)))"

text \<open>\<open>_restart_advanced\<close>; \<open>None\<close>: Python does not compare an instant with an offset to one without.\<close>

definition restart_advanced :: "iso_reader \<Rightarrow> string option \<Rightarrow> string option \<Rightarrow> bool option" where
  "restart_advanced read_iso before_restart after_restart =
     (if after_restart = None then Some False
      else if before_restart = None then Some True
      else case (parse_docker_time read_iso before_restart, parse_docker_time read_iso after_restart) of
             (Some (z1, t1), Some (z2, t2)) \<Rightarrow> if z1 = z2 then Some (t1 < t2) else None
           | _ \<Rightarrow> Some (before_restart \<noteq> after_restart))"

section \<open>Digests\<close>

definition token_char :: "char \<Rightarrow> bool" where
  "token_char c = (ascii_alpha c \<or> is_dec c \<or> c \<in> set '':_+/=.-'')"

text \<open>\<open>_DIGEST_TOKEN_RE.search\<close>: twelve characters of a token in a row, the first a letter or a digit.\<close>

fun has_digest_token :: "string \<Rightarrow> bool" where
  "has_digest_token [] = False"
| "has_digest_token (c # s) =
     ((ascii_alpha c \<or> is_dec c) \<and> 11 \<le> length s \<and> list_all token_char (take 11 s) \<or> has_digest_token s)"

text \<open>\<open>split\<close> at white space.\<close>

function words :: "string \<Rightarrow> string list" where
  "words s =
     (let t = lstrip s
      in if t = [] then [] else takeWhile (\<lambda>c. \<not> is_space c) t # words (dropWhile (\<lambda>c. \<not> is_space c) t))"
  by pat_completeness auto

termination
proof (relation "measure length", goal_cases)
  case (2 s t)
  have "length t \<le> length s" unfolding 2(1) by (simp add: lstrip_def length_dropWhile_le)
  moreover have "\<not> is_space (hd t)" using 2 hd_dropWhile [of is_space s] by (simp add: lstrip_def)
  then have "length (dropWhile (\<lambda>c. \<not> is_space c) t) < length t" using 2(2) by (cases t) (simp_all add: length_dropWhile_le le_imp_less_Suc)
  ultimately show ?case by simp
qed simp

declare words.simps [simp del]

definition extract_digest :: "string \<Rightarrow> string option" where
  "extract_digest out =
     List.find (\<lambda>c. c \<noteq> [] \<and> has_digest_token c) (map (\<lambda>l. join '' '' (words l)) (rev (splitlines out)))"

section \<open>Health\<close>

text \<open>One turn of waiting: the clock, and the health of each service.\<close>

partial_function (option) wait_loop ::
  "(nat \<Rightarrow> rat \<times> (string \<Rightarrow> string)) \<Rightarrow> string list \<Rightarrow> rat \<Rightarrow> nat \<Rightarrow> bool option" where
  "wait_loop turns services deadline k =
     (if deadline \<le> fst (turns k) then Some False
      else if list_all (\<lambda>s. snd (turns k) s \<in> {''healthy'', ''none''}) services then Some True
      else wait_loop turns services deadline (k + 1))"

declare wait_loop.simps [code]

definition wait_healthy :: "(nat \<Rightarrow> rat \<times> (string \<Rightarrow> string)) \<Rightarrow> rat \<Rightarrow> rat \<Rightarrow> app_spec \<Rightarrow> bool option" where
  "wait_healthy turns now timeout a =
     (let services = (if as_health a = [] then get_or (as_restart a) [] else as_health a)
      in if services = [] then Some True else wait_loop turns services (now + timeout) 0)"

section \<open>The reset\<close>

datatype check = Check string bool

record reset_outcome =
  ro_app :: string
  ro_ok :: bool
  ro_digest :: "string option"
  ro_reference :: "string option"
  ro_checks :: "check list"

text \<open>What docker answers during a reset: the starts of the services before and after the restart, whether the restart
  raised, the turns of waiting, and the answer of the reset command (\<open>None\<close>: it raised).\<close>

record reset_world =
  rw_before :: "string \<Rightarrow> string option"
  rw_restarted :: bool
  rw_after :: "string \<Rightarrow> string option"
  rw_now :: rat
  rw_turns :: "nat \<Rightarrow> rat \<times> (string \<Rightarrow> string)"
  rw_command :: "exec_result option"

definition check_passed :: "check \<Rightarrow> bool" where
  "check_passed c = (case c of Check n b \<Rightarrow> b)"

definition reset_failures :: "reset_outcome \<Rightarrow> check list" where
  "reset_failures o1 = filter (\<lambda>c. \<not> check_passed c) (ro_checks o1)"

definition restart_checks :: "iso_reader \<Rightarrow> reset_world \<Rightarrow> string list \<Rightarrow> check list option" where
  "restart_checks read_iso w services =
     those (map (\<lambda>s. map_option (Check (''restarted:'' @ s)) (restart_advanced read_iso (rw_before w s) (rw_after w s))) services)"

definition digest_checks :: "exec_result \<Rightarrow> string option \<Rightarrow> check list" where
  "digest_checks r reference =
     [Check ''digest_printed'' (extract_digest (ex_out r) \<noteq> None),
      Check ''digest_matches_reference'' (reference = None \<or> extract_digest (ex_out r) = reference)]"

text \<open>The reset command with its checks, after those of a restart.\<close>

definition run_reset :: "reset_world \<Rightarrow> app_spec \<Rightarrow> string option \<Rightarrow> check list \<Rightarrow> unit + reset_outcome" where
  "run_reset w a reference checks =
     (case rw_command w of
        None \<Rightarrow> Inl ()
      | Some r \<Rightarrow>
          (let ran = (ex_code r = 0); checks = checks @ [Check ''reset_command'' ran];
               blank = \<lparr>ro_app = as_key a, ro_ok = False, ro_digest = None, ro_reference = reference, ro_checks = checks\<rparr>
           in if \<not> ran then Inr blank
              else let checks = checks @ digest_checks r reference
                   in Inr (blank\<lparr>ro_digest := extract_digest (ex_out r), ro_checks := checks, ro_ok := list_all check_passed checks\<rparr>)))"

text \<open>\<open>reset\<close>; \<open>None\<close>: waiting for the services never ends.\<close>

definition reset_target :: "iso_reader \<Rightarrow> rat \<Rightarrow> reset_world \<Rightarrow> app_spec \<Rightarrow> string option \<Rightarrow> (unit + reset_outcome) option" where
  "reset_target read_iso timeout w a reference =
     (let services = services_to_restart a
      in if services = [] then Some (run_reset w a reference [])
         else if \<not> rw_restarted w then Some (Inl ())
         else case restart_checks read_iso w services of
           None \<Rightarrow> Some (Inl ())
         | Some checks \<Rightarrow>
             (case wait_healthy (rw_turns w) (rw_now w) timeout a of
                None \<Rightarrow> None
              | Some healthy \<Rightarrow>
                  (let checks = checks @ [Check ''health'' healthy]
                   in Some (if \<not> healthy
                            then Inr \<lparr>ro_app = as_key a, ro_ok = False, ro_digest = None, ro_reference = reference, ro_checks = checks\<rparr>
                            else run_reset w a reference checks))))"

text \<open>\<open>reset_targets\<close>: \<open>Inl True\<close> is a \<open>ResetError\<close>, \<open>Inl False\<close> anything else that is raised.\<close>

fun reset_all ::
  "iso_reader \<Rightarrow> rat \<Rightarrow> (string, string) dict \<Rightarrow> (app_spec \<times> reset_world) list \<Rightarrow> (unit + reset_outcome list) option" where
  "reset_all read_iso timeout references [] = Some (Inr [])"
| "reset_all read_iso timeout references ((a, w) # xs) =
     (case reset_target read_iso timeout w a (dict_get references (as_key a)) of
        None \<Rightarrow> None
      | Some (Inl e) \<Rightarrow> Some (Inl e)
      | Some (Inr out) \<Rightarrow> map_option (\<lambda>r. bindE r (\<lambda>outs. Inr (out # outs))) (reset_all read_iso timeout references xs))"

definition reset_targets ::
  "iso_reader \<Rightarrow> rat \<Rightarrow> (string, string) dict \<Rightarrow> bool \<Rightarrow> (app_spec \<times> reset_world) list \<Rightarrow> (bool + reset_outcome list) option" where
  "reset_targets read_iso timeout references strict xs =
     map_option (\<lambda>r. case r of
         Inl e \<Rightarrow> Inl False
       | Inr outs \<Rightarrow> if strict \<and> list_ex (\<lambda>out. \<not> ro_ok out) outs then Inl True else Inr outs)
       (reset_all read_iso timeout references xs)"

text \<open>\<open>digest_after_run\<close>.\<close>

definition digest_after_run :: "exec_result \<Rightarrow> string option" where
  "digest_after_run r = (if ex_code r \<noteq> 0 then None else extract_digest (ex_out r))"

end
