(* ===== verification/Run_Preflight.thy ===== *)
theory Run_Preflight
  imports Run_Topology Run_Reset
begin

text \<open>
  \<open>runners/_lib/preflight.py\<close>: the checks that keep a run from opening when its result would only look like a tool
  that finds nothing. The merged compose document, the catalog's documents, what docker, the resolver of the tool's
  network and the target answer are arguments, and \<open>yaml.safe_load\<close> is a parameter. The wording of details is left out.
\<close>

section \<open>Checks\<close>

record pf_check =
  pf_name :: string
  pf_ok :: bool
  pf_indeterminate :: bool

definition decided :: "string \<Rightarrow> bool \<Rightarrow> pf_check" where
  "decided n b = \<lparr>pf_name = n, pf_ok = b, pf_indeterminate = False\<rparr>"

definition undecided :: "string \<Rightarrow> bool \<Rightarrow> pf_check" where
  "undecided n b = \<lparr>pf_name = n, pf_ok = b, pf_indeterminate = True\<rparr>"

definition failures :: "pf_check list \<Rightarrow> pf_check list" where
  "failures cs = filter (\<lambda>c. \<not> pf_ok c \<and> \<not> pf_indeterminate c) cs"

section \<open>What the catalog asks for\<close>

definition authenticated_apps :: "obj list \<Rightarrow> string list" where
  "authenticated_apps docs =
     remdups (List.map_filter (\<lambda>d.
       if jtruthy (jget d ''app'') \<and> text_or (obj_of (jget d ''entrypoint'')) ''auth'' ''none'' \<noteq> ''none''
       then Some (jstr (jget d ''app'')) else None) docs)"

definition js_dependent_entries :: "app_spec list \<Rightarrow> obj list \<Rightarrow> (string, nat) dict" where
  "js_dependent_entries apps docs =
     foldl (\<lambda>d doc.
       let app = text_or doc ''app'' []
       in if dict_get d app \<noteq> None \<and> JStr ''js-execution'' \<in> set (jiter (jget (obj_of (jget doc ''discovery'')) ''requires''))
          then dict_set app (Suc (the (dict_get d app))) d else d)
       (foldl (\<lambda>d a. dict_set (as_key a) 0 d) [] apps) docs"

section \<open>The stack\<close>

definition FORBIDDEN_PROFILES :: "string list" where "FORBIDDEN_PROFILES = [''dev'']"

text \<open>The services with their profiles; \<open>None\<close>: the compose document cannot be read, or reading it raised.\<close>

definition check_no_dev_services :: "(string \<times> string list) list option \<Rightarrow> (string \<Rightarrow> string option) \<Rightarrow> pf_check" where
  "check_no_dev_services services ps =
     (case services of
        None \<Rightarrow> undecided ''dev-profile'' False
      | Some ss \<Rightarrow>
          decided ''dev-profile''
            (\<not> list_ex (\<lambda>(n, profiles). list_ex (\<lambda>p. p \<in> set FORBIDDEN_PROFILES) profiles \<and> truthy (ps n)) ss))"

definition network_names :: "obj \<Rightarrow> (string, string) dict" where
  "network_names doc =
     map (\<lambda>(k, spec). (k, str_or (some_text (jget (obj_of spec) ''name'')) k)) (obj_of (jget doc ''networks''))"

definition real_network :: "obj \<Rightarrow> string \<Rightarrow> string" where
  "real_network doc k = get_or (dict_get (network_names doc) k) k"

definition service_networks :: "obj \<Rightarrow> obj \<Rightarrow> string list" where
  "service_networks doc spec = map (\<lambda>k. real_network doc (jstr k)) (jiter (jget spec ''networks''))"

definition check_no_published_ports :: "obj option \<Rightarrow> string \<Rightarrow> pf_check" where
  "check_no_published_ports config network =
     (case config of
        None \<Rightarrow> undecided ''published-ports'' False
      | Some doc \<Rightarrow>
          decided ''published-ports''
            (\<not> list_ex (\<lambda>(n, spec). jtruthy (jget (obj_of spec) ''ports'') \<and> network \<in> set (service_networks doc (obj_of spec)))
                (obj_of (jget doc ''services''))))"

section \<open>Names\<close>

text \<open>The names a service answers to, with the networks they resolve on. \<open>expand\<close> is what is done to an alias first.\<close>

definition service_names :: "(json \<Rightarrow> json) \<Rightarrow> obj \<Rightarrow> string \<Rightarrow> (string, string list) dict \<Rightarrow> (string, string list) dict" where
  "service_names expand doc service seen =
     foldl (\<lambda>d (k, attachment).
       foldl (\<lambda>d alias. bucket_add (jstr (expand alias)) (real_network doc k) d) d
         (JStr service # jiter (jget (obj_of attachment) ''aliases'')))
       seen (obj_of (jget (obj_of (jget (obj_of (jget doc ''services'')) service)) ''networks''))"

definition resolves_on :: "(string, string list) dict \<Rightarrow> string \<Rightarrow> string list" where
  "resolves_on names n = get_or (dict_get names n) []"

definition host_of :: "app_spec \<Rightarrow> string" where
  "host_of a = before (CHR '':'') (str_or (app_host a) [])"

definition internal_name :: "app_spec \<Rightarrow> string" where
  "internal_name a = str_or (internal_host a) []"

text \<open>\<open>check_name_ambiguity\<close> never fails; its second part, the names that resolve on both networks, is its message.\<close>

definition ambiguous_names :: "obj \<Rightarrow> app_spec \<Rightarrow> string \<Rightarrow> string \<Rightarrow> string list" where
  "ambiguous_names doc a public internal =
     (let seen = foldl (\<lambda>d s. service_names (\<lambda>x. x) doc s d) [] (as_services a)
      in sort_key (\<lambda>x. x) (filter (\<lambda>n. n \<noteq> [] \<and> public \<in> set (resolves_on seen n) \<and> internal \<in> set (resolves_on seen n))
           (remdups [host_of a, internal_name a])))"

definition check_name_ambiguity :: "obj option \<Rightarrow> app_spec \<Rightarrow> pf_check" where
  "check_name_ambiguity config a =
     (case config of None \<Rightarrow> undecided (''name-ambiguity:'' @ as_key a) True | Some doc \<Rightarrow> decided (''name-ambiguity:'' @ as_key a) True)"

definition check_internal_name :: "(string, string) dict \<Rightarrow> obj option \<Rightarrow> app_spec \<Rightarrow> string \<Rightarrow> string \<Rightarrow> pf_check" where
  "check_internal_name env config a public internal =
     (let name = ''internal-name:'' @ as_key a
      in case config of
           None \<Rightarrow> undecided name True
         | Some doc \<Rightarrow>
             (let names = (\<lambda>s. service_names (expand_vars env) doc s []); host = internal_name a
              in case List.find (\<lambda>s. dict_get (names s) host \<noteq> None) (as_services a) of
                   None \<Rightarrow> decided name False
                 | Some owner \<Rightarrow>
                     decided name
                       (public \<notin> set (resolves_on (names owner) host)
                        \<or> \<not> list_ex (\<lambda>(alias, nets). internal \<in> set nets \<and> public \<notin> set nets) (names owner))))"

section \<open>Credentials\<close>

definition emitted_document :: "(string \<Rightarrow> json option) \<Rightarrow> exec_result \<Rightarrow> obj option" where
  "emitted_document yaml r =
     (if ex_code r \<noteq> 0 then None
      else case yaml (ex_out r) of
             Some (JObj d) \<Rightarrow> if dict_get d ''users'' = None then None else Some d
           | _ \<Rightarrow> None)"

definition identities :: "obj \<Rightarrow> (json \<times> json) set" where
  "identities doc = (\<lambda>u. (jget u ''role'', jget u ''username'')) ` set (objects (jget doc ''users''))"

text \<open>\<open>check_live_credentials\<close> on the committed file: the check, and the settings with what the target printed.\<close>

definition check_live_credentials ::
  "(string \<Rightarrow> json option) \<Rightarrow> exec_result \<Rightarrow> bool \<Rightarrow> app_spec \<Rightarrow> target_file \<Rightarrow> bench_config \<Rightarrow> pf_check \<times> bench_config" where
  "check_live_credentials yaml r fatal a committed cfg =
     (let name = ''credentials-live:'' @ as_key a
      in case emitted_document yaml r of
           None \<Rightarrow> (undecided name False, cfg)
         | Some doc \<Rightarrow>
             (decided name (identities (tf_raw committed) = identities doc \<or> \<not> fatal),
              cfg\<lparr>bc_emitted := dict_set (as_key a) doc (bc_emitted cfg)\<rparr>))"

definition check_credentials :: "bench_config \<Rightarrow> app_spec \<Rightarrow> string list \<Rightarrow> target_file option \<Rightarrow> pf_check list" where
  "check_credentials cfg a authed target =
     (case target of
        None \<Rightarrow> [decided (''credentials:'' @ as_key a) (dict_get (bc_override cfg) (as_key a) \<noteq> None)]
      | Some t \<Rightarrow>
          [decided (''credentials:'' @ as_key a) True,
           decided (''credentials-users:'' @ as_key a) (\<not> declares_no_login t \<or> as_key a \<notin> set authed)]
          @ (if \<not> truthy (tf_base_url t) \<and> as_base_url a = [] then [decided (''base-url:'' @ as_key a) False] else []))"

section \<open>Reaching the target\<close>

text \<open>Superscript digits, which \<open>isdigit\<close> accepts and \<open>int\<close> refuses, do not occur in an answer of \<open>getent\<close>.\<close>

definition looks_like_ip :: "string \<Rightarrow> bool" where
  "looks_like_ip t =
     (let ps = split_char (CHR ''.'') t
      in length ps = 4 \<and> list_all (\<lambda>p. p \<noteq> [] \<and> list_all is_dec p \<and> dec_num p \<le> 255) ps)"

text \<open>The answer of the container on the tool's network; \<open>None\<close>: it could not be started.\<close>

definition check_dns :: "exec_result option \<Rightarrow> app_spec \<Rightarrow> string list \<Rightarrow> pf_check" where
  "check_dns answer a expected =
     (let name = ''dns:'' @ as_key a
      in if host_of a = [] then decided name False
         else case answer of
           None \<Rightarrow> undecided name False
         | Some r \<Rightarrow>
             (let out = ex_out r @ ex_err r; resolved = filter looks_like_ip (words out)
              in if ex_code r = 42 then undecided name False
                 else if ex_code r \<noteq> 0 \<or> strip out = [] then decided name False
                 else decided name (expected = [] \<or> resolved = [] \<or> list_ex (\<lambda>ip. ip \<in> set expected) resolved)))"

text \<open>The status of one request to the base URL, zero when nothing answered.\<close>

definition check_reachable :: "int \<Rightarrow> app_spec \<Rightarrow> pf_check" where
  "check_reachable status a = decided (''reachable:'' @ as_key a) (as_base_url a \<noteq> [] \<and> status \<noteq> 0)"

section \<open>All checks\<close>

record preflight_world =
  pw_profiles :: "(string \<times> string list) list option"
  pw_ps :: "string \<Rightarrow> string option"
  pw_config :: "obj option"
  pw_env :: "(string, string) dict"
  pw_catalog :: "obj list"
  pw_emitted :: "string \<Rightarrow> exec_result"
  pw_dns :: "string \<Rightarrow> exec_result option"
  pw_status :: "string \<Rightarrow> string option \<Rightarrow> int"

record preflight_options =
  po_check_dns :: bool
  po_probe :: bool
  po_allow_stale :: bool

text \<open>The checks of one application; \<open>None\<close>: reading its file raised.\<close>

definition check_app ::
  "(string \<Rightarrow> json option) \<Rightarrow> preflight_world \<Rightarrow> preflight_options \<Rightarrow> (string, app_topology) dict \<Rightarrow> app_spec \<Rightarrow> bench_config
   \<Rightarrow> (pf_check list \<times> bench_config) option" where
  "check_app yaml w opts ts a cfg =
     (let authed = authenticated_apps (pw_catalog w); key = as_key a;
          topology = dict_get ts key;
          addresses = (case topology of None \<Rightarrow> [] | Some t \<Rightarrow> app_addresses t);
          public_address = Option.bind topology (address_on (bc_network cfg) (Some (host_of a)))
      in case target_of cfg a of
           None \<Rightarrow> None
         | Some target \<Rightarrow>
             (let (live, cfg1) =
                (case target of
                   None \<Rightarrow> ([], cfg)
                 | Some t \<Rightarrow>
                     if truthy (as_reset_service a)
                     then (case check_live_credentials yaml (pw_emitted w key) (key \<in> set authed \<and> \<not> po_allow_stale opts) a t cfg of
                             (c, cfg1) \<Rightarrow> ([c], cfg1))
                     else ([], cfg))
              in map_option (\<lambda>target1.
                   (live @ check_credentials cfg1 a authed target1
                    @ [check_internal_name (pw_env w) (pw_config w) a (bc_network cfg) (as_internal_network a),
                       check_name_ambiguity (pw_config w) a]
                    @ (if po_check_dns opts then [check_dns (pw_dns w key) a addresses] else [])
                    @ (if po_probe opts then [check_reachable (pw_status w key public_address) a] else []), cfg1))
                 (target_of cfg1 a)))"

fun check_apps ::
  "(string \<Rightarrow> json option) \<Rightarrow> preflight_world \<Rightarrow> preflight_options \<Rightarrow> (string, app_topology) dict \<Rightarrow> app_spec list \<Rightarrow> bench_config
   \<Rightarrow> (pf_check list \<times> bench_config) option" where
  "check_apps yaml w opts ts [] cfg = Some ([], cfg)"
| "check_apps yaml w opts ts (a # apps) cfg =
     (case check_app yaml w opts ts a cfg of
        None \<Rightarrow> None
      | Some (cs, cfg1) \<Rightarrow> map_option (\<lambda>(cs', cfg2). (cs @ cs', cfg2)) (check_apps yaml w opts ts apps cfg1))"

definition preflight ::
  "(string \<Rightarrow> json option) \<Rightarrow> preflight_world \<Rightarrow> preflight_options \<Rightarrow> (string, app_topology) dict \<Rightarrow> app_spec list \<Rightarrow> bench_config
   \<Rightarrow> (pf_check list \<times> bench_config) option" where
  "preflight yaml w opts ts apps cfg =
     map_option (\<lambda>(cs, cfg1).
       ([check_no_dev_services (pw_profiles w) (pw_ps w), check_no_published_ports (pw_config w) (bc_network cfg)] @ cs, cfg1))
       (check_apps yaml w opts ts apps cfg)"

end
