(* ===== verification/Run_Orchestrate.thy ===== *)
theory Run_Orchestrate
  imports Run_Driver Run_Preflight Run_Login
begin

text \<open>
  \<open>Orchestrator.run\<close> of \<open>runners/orchestrate.py\<close>: from an unproven stack to the exit code of a scan. The steps taken are
  returned in order; what docker, the targets, the collector and the tool answer is an argument (\<open>orch_world\<close>). The
  text of the record, dry runs and the import of a finished scan are left out.
\<close>

section \<open>Seeded digests\<close>

text \<open>\<open>_reference_digests\<close>: the pins of the applications, then the records of earlier runs, the latest first
  (those that cannot be read are left out).\<close>

definition entry_references :: "obj \<Rightarrow> (string, string) dict \<Rightarrow> (string, string) dict" where
  "entry_references previous refs =
     foldl (\<lambda>d e. if jtruthy (jget e ''app'') \<and> jtruthy (jget e ''state_digest'')
                   then setdefault (jstr (jget e ''app'')) (jstr (jget e ''state_digest'')) d else d)
       refs (objects (jget previous ''reset''))"

fun references_from :: "obj list \<Rightarrow> (string, string) dict \<Rightarrow> (string, string) dict" where
  "references_from [] refs = refs"
| "references_from (r # rs) refs =
     (let refs = entry_references r refs in if refs \<noteq> [] then refs else references_from rs refs)"

definition reference_digests :: "app_spec list \<Rightarrow> obj list \<Rightarrow> (string, string) dict" where
  "reference_digests apps records =
     references_from records
       (foldl (\<lambda>d a. if truthy (as_expected a) then dict_set (as_key a) (the (as_expected a)) d else d) [] apps)"

section \<open>Arguments, world and steps\<close>

record orch_args =
  oa_profile :: "string option"
  oa_skip_reset :: bool
  oa_skip_prepare :: bool
  oa_unverified :: bool
  oa_role :: string
  oa_timeout :: rat
  oa_preflight :: preflight_options

record orch_tool =
  ot_key :: string
  ot_profiles :: "string list"
  ot_default :: string

record orch_world =
  wd_healthz :: bool
  wd_reset :: "string \<Rightarrow> reset_world"
  wd_records :: "obj list"
  wd_docker :: "string \<Rightarrow> service_world"
  wd_preflight :: preflight_world
  wd_login :: "string \<Rightarrow> login_world"
  wd_prepared :: "(string \<times> int) list"
  wd_open :: "string option"
  wd_directory :: bool
  wd_plan :: "(invocation \<times> scan_world) list option"
  wd_active :: bool
  wd_browser :: bool
  wd_now :: rat
  wd_close :: bool
  wd_count :: "int option"
  wd_export :: bool
  wd_after :: "string \<Rightarrow> exec_result option"
  wd_findings :: "int option list option"
  wd_score :: "int option"

text \<open>The library functions that the stages read answers with.\<close>

record readers =
  rd_json :: "string \<Rightarrow> json option"
  rd_yaml :: "string \<Rightarrow> json option"
  rd_search :: "string \<Rightarrow> string \<Rightarrow> bool"
  rd_format :: "string \<Rightarrow> string \<Rightarrow> string"
  rd_time :: iso_reader

datatype orch_step =
    ResetStep "reset_outcome list"
  | InspectStep
  | PreflightStep "pf_check list"
  | LoginStep string "string option" "http_call list"
  | PrepareStep
  | OpenStep obj
  | ScanStep "scan_act list"
  | CloseStep
  | ExportStep
  | ResetAgainStep string
  | RecordStep
  | ScoreStep

datatype caveat =
    PassiveOnly
  | NoBrowser nat
  | BudgetSpent
  | PreparationFailed string
  | UnverifiedSession string
  | ResetSkipped
  | Unscoreable nat

record summary =
  sm_stop :: stop_reason
  sm_caveats :: "caveat list"
  sm_requests :: int
  sm_before :: "(string, string) dict"
  sm_after :: "(string \<times> string option) list"

datatype orch_end = Exit int "summary option" | Crash

section \<open>Up to the opening of the run\<close>

text \<open>\<open>_login\<close>: an error of the settings ends it with \<open>Inl False\<close>, a login that cannot be proven with \<open>Inl True\<close>.\<close>

definition internal_address :: "(string, app_topology) dict \<Rightarrow> app_spec \<Rightarrow> string option" where
  "internal_address ts a = Option.bind (dict_get ts (as_key a)) (address_on (as_internal_network a) (Some (internal_name a)))"

fun login_all ::
  "readers \<Rightarrow> orch_args \<Rightarrow> orch_world \<Rightarrow> (string, app_topology) dict \<Rightarrow> bench_config \<Rightarrow> app_spec list
   \<Rightarrow> orch_step list \<times> (bool + (string, session) dict)" where
  "login_all rd args w ts cfg [] = ([], Inr [])"
| "login_all rd args w ts cfg (a # apps) =
     (case creds_for cfg a (oa_role args) of
        Inl e \<Rightarrow> ([], Inl False)
      | Inr None \<Rightarrow> login_all rd args w ts cfg apps
      | Inr (Some c) \<Rightarrow>
          (case establish (rd_json rd) (rd_search rd) (rd_format rd) c (\<not> oa_unverified args) (wd_login w (as_key a)) of
             (calls, Inl e) \<Rightarrow> ([LoginStep (as_key a) (internal_address ts a) calls], Inl True)
           | (calls, Inr s) \<Rightarrow>
               (let (steps, r) = login_all rd args w ts cfg apps
                in (LoginStep (as_key a) (internal_address ts a) calls # steps, map_sum id (\<lambda>d. (as_key a, s) # d) r))))"

record ready =
  ry_before :: "(string, string) dict"
  ry_topology :: "(string, app_topology) dict"
  ry_sessions :: "(string, session) dict"

definition digests_before :: "reset_outcome list \<Rightarrow> (string, string) dict" where
  "digests_before outs = foldl (\<lambda>d out. if truthy (ro_digest out) then dict_set (ro_app out) (the (ro_digest out)) d else d) [] outs"

definition with_digests :: "(string, string) dict \<Rightarrow> (string, app_topology) dict \<Rightarrow> (string, app_topology) dict" where
  "with_digests ds ts = map (\<lambda>(k, t). (k, case dict_get ds k of None \<Rightarrow> t | Some d \<Rightarrow> t\<lparr>tp_before := Some d\<rparr>)) ts"

text \<open>After the resets: addresses, preflight and logins.\<close>

definition prove_ready ::
  "readers \<Rightarrow> orch_args \<Rightarrow> orch_world \<Rightarrow> app_spec list \<Rightarrow> bench_config \<Rightarrow> reset_outcome list \<Rightarrow> orch_step list \<times> (orch_end + ready)" where
  "prove_ready rd args w apps cfg outs =
     (let ts = with_digests (digests_before outs) (inspect_apps (wd_docker w) apps)
      in case preflight (rd_yaml rd) (wd_preflight w) (oa_preflight args) ts apps cfg of
           None \<Rightarrow> ([InspectStep], Inl Crash)
         | Some (checks, cfg1) \<Rightarrow>
             (if failures checks \<noteq> [] then ([InspectStep, PreflightStep checks], Inl (Exit 6 None))
              else case login_all rd args w ts cfg1 apps of
                (steps, Inl proven) \<Rightarrow> ([InspectStep, PreflightStep checks] @ steps, Inl (if proven then Exit 3 None else Crash))
              | (steps, Inr sessions) \<Rightarrow>
                  ([InspectStep, PreflightStep checks] @ steps,
                   Inr \<lparr>ry_before = digests_before outs, ry_topology = ts, ry_sessions = sessions\<rparr>)))"

definition reset_stage :: "readers \<Rightarrow> orch_args \<Rightarrow> orch_world \<Rightarrow> app_spec list \<Rightarrow> (bool + reset_outcome list) option" where
  "reset_stage rd args w apps =
     (if oa_skip_reset args then Some (Inr [])
      else reset_targets (rd_time rd) (oa_timeout args) (reference_digests apps (wd_records w)) True
             (map (\<lambda>a. (a, wd_reset w (as_key a))) apps))"

section \<open>The run\<close>

text \<open>\<open>_build_record\<close>: the stop reason of the run, and the exit code.\<close>

definition run_stop :: "scan_result list \<Rightarrow> bool \<Rightarrow> stop_reason" where
  "run_stop results failed =
     (case List.find (\<lambda>r. r \<in> set (map ir_stop results)) [BudgetWallClock, BudgetRequests, StopError, Interrupted] of
        Some r \<Rightarrow> r | None \<Rightarrow> if failed then StopError else Completed)"

definition report_made :: "scan_result list \<Rightarrow> bool" where
  "report_made results = list_ex (\<lambda>r. ir_present r \<noteq> [] \<and> list_all snd (ir_present r)) results"

definition exit_code :: "bool \<Rightarrow> scan_result list \<Rightarrow> int option \<Rightarrow> int" where
  "exit_code failed results score =
     (if failed then 4 else if results \<noteq> [] \<and> \<not> report_made results then 4
      else if score \<noteq> None \<and> score \<noteq> Some 0 then 5 else 0)"

definition unscoreable_count :: "int list \<Rightarrow> int option list \<Rightarrow> nat" where
  "unscoreable_count out_of_catalog cwes = length (filter (\<lambda>c. \<exists>n\<in>set out_of_catalog. c = Some n) cwes)"

definition caveats_of ::
  "orch_args \<Rightarrow> orch_world \<Rightarrow> app_spec list \<Rightarrow> bool \<Rightarrow> stop_reason \<Rightarrow> (string \<times> int) list \<Rightarrow> (string, session) dict \<Rightarrow> nat \<Rightarrow> caveat list" where
  "caveats_of args w apps planned stop prepared sessions unscoreable =
     (let needs = sum_list (map snd (js_dependent_entries apps (pw_catalog (wd_preflight w))))
      in (if planned \<and> \<not> wd_active w then [PassiveOnly] else [])
         @ (if planned \<and> \<not> wd_browser w \<and> needs \<noteq> 0 then [NoBrowser needs] else [])
         @ (if exhausted stop then [BudgetSpent] else [])
         @ map (\<lambda>(n, rc). PreparationFailed n) (filter (\<lambda>(n, rc). rc \<noteq> 0) prepared)
         @ map (\<lambda>(a, s). UnverifiedSession a) (filter (\<lambda>(a, s). \<not> se_verified s) sessions)
         @ (if oa_skip_reset args then [ResetSkipped] else [])
         @ (if unscoreable \<noteq> 0 then [Unscoreable unscoreable] else []))"

text \<open>\<open>_digests_after\<close>, which needs a reset before the run; a reset command that raises ends the run.\<close>

definition after_steps :: "orch_args \<Rightarrow> orch_world \<Rightarrow> app_spec list \<Rightarrow> orch_step list \<times> (string \<times> string option) list option" where
  "after_steps args w apps =
     (if oa_skip_reset args then ([], Some [])
      else (map (\<lambda>a. ResetAgainStep (as_key a)) apps,
            those (map (\<lambda>a. map_option (\<lambda>r. (as_key a, digest_after_run r)) (wd_after w (as_key a))) apps)))"

text \<open>What follows the scan: the run is closed first, whatever the scan came to.\<close>

definition after_scan ::
  "orch_args \<Rightarrow> orch_world \<Rightarrow> app_spec list \<Rightarrow> int list \<Rightarrow> ready \<Rightarrow> (string \<times> int) list \<Rightarrow> bool \<Rightarrow> scan_result list option
   \<Rightarrow> orch_step list \<times> orch_end" where
  "after_scan args w apps out_of_catalog ry prepared planned results =
     (let failed = (results = None); rs = get_or results []
      in if \<not> wd_close w then ([CloseStep], Crash)
         else case wd_count w of
           None \<Rightarrow> ([CloseStep], Crash)
         | Some requests \<Rightarrow>
             (if \<not> wd_export w then ([CloseStep, ExportStep], Crash)
              else case after_steps args w apps of
                (again, None) \<Rightarrow> ([CloseStep, ExportStep] @ again, Crash)
              | (again, Some afters) \<Rightarrow>
                  (case wd_findings w of
                     None \<Rightarrow> ([CloseStep, ExportStep] @ again, Crash)
                   | Some cwes \<Rightarrow>
                       ([CloseStep, ExportStep] @ again @ [RecordStep, ScoreStep, RecordStep],
                        Exit (exit_code failed rs (wd_score w))
                          (Some \<lparr>sm_stop = run_stop rs failed,
                             sm_caveats = caveats_of args w apps planned (run_stop rs failed) prepared (ry_sessions ry)
                               (unscoreable_count out_of_catalog cwes),
                             sm_requests = requests, sm_before = ry_before ry, sm_after = afters\<rparr>)))))"

text \<open>From the opening of the run; \<open>None\<close>: the scan never ends.\<close>

definition open_and_scan ::
  "readers \<Rightarrow> scan_context \<Rightarrow> orch_args \<Rightarrow> orch_world \<Rightarrow> app_spec list \<Rightarrow> int list \<Rightarrow> ready \<Rightarrow> (orch_step list \<times> orch_end) option" where
  "open_and_scan rd ctx args w apps out_of_catalog ry =
     (let prepared = (if oa_skip_prepare args then [] else wd_prepared w); op = OpenStep (address_payload (ry_topology ry))
      in case wd_open w of
           None \<Rightarrow> Some ([PrepareStep], Crash)
         | Some run_id \<Rightarrow>
             (if \<not> wd_directory w then Some ([PrepareStep, op], Crash)
              else case wd_plan w of
                None \<Rightarrow>
                  (let (steps, e) = after_scan args w apps out_of_catalog ry prepared False None
                   in Some ([PrepareStep, op] @ steps, e))
              | Some plan \<Rightarrow>
                  map_option (\<lambda>(acts, results).
                    (let (steps, e) = after_scan args w apps out_of_catalog ry prepared True results
                     in ([PrepareStep, op, ScanStep acts] @ steps, e)))
                    (driver_run (rd_json rd) (ctx\<lparr>sc_run_id := run_id\<rparr>) (wd_now w) plan)))"

definition orchestrate ::
  "readers \<Rightarrow> scan_context \<Rightarrow> orch_args \<Rightarrow> orch_tool \<Rightarrow> orch_world \<Rightarrow> app_spec list \<Rightarrow> bench_config \<Rightarrow> int list
   \<Rightarrow> (orch_step list \<times> orch_end) option" where
  "orchestrate rd ctx args tool w apps cfg out_of_catalog =
     (if ot_profiles tool \<noteq> [] \<and> str_or (oa_profile args) (ot_default tool) \<notin> set (ot_profiles tool) then Some ([], Exit 1 None)
      else if \<not> wd_healthz w then Some ([], Exit 1 None)
      else case reset_stage rd args w apps of
        None \<Rightarrow> None
      | Some (Inl unproven) \<Rightarrow> Some ([], if unproven then Exit 2 None else Crash)
      | Some (Inr outs) \<Rightarrow>
          (case prove_ready rd args w apps cfg outs of
             (steps, Inl e) \<Rightarrow> Some (ResetStep outs # steps, e)
           | (steps, Inr ry) \<Rightarrow>
               map_option (\<lambda>(more, e). (ResetStep outs # steps @ more, e))
                 (open_and_scan rd ctx args w apps out_of_catalog ry)))"

lemma split_once_shorter: "split_once p s = Some (a, b) \<Longrightarrow> p \<noteq> [] \<Longrightarrow> length b < length s"
proof (induction s arbitrary: a)
  case Nil
  then show ?case by (simp add: split_once.simps [of p "[]"] startswith_def split: if_splits)
next
  case (Cons x s)
  then show ?case by (auto simp: split_once.simps [of p "x # s"] split: if_splits option.splits)
qed

text \<open>\<open>_redact\<close>: the passwords are taken out of a command line one after the other.\<close>

function replace_text :: "string \<Rightarrow> string \<Rightarrow> string \<Rightarrow> string" where
  "replace_text old new s =
     (if old = [] then s else case split_once old s of None \<Rightarrow> s | Some (a, b) \<Rightarrow> a @ new @ replace_text old new b)"
  by pat_completeness auto

termination
  by (relation "measure (\<lambda>(old, new, s). length s)") (auto dest!: split_once_shorter)

declare replace_text.simps [simp del]

definition redact :: "string list \<Rightarrow> string list \<Rightarrow> string list" where
  "redact secrets argv =
     map (\<lambda>token. foldl (\<lambda>t secret. if secret = [] then t else replace_text secret ''<redacted>'' t) token secrets) argv"

end
