(* ===== verification/Tool_Zap.thy ===== *)
theory Tool_Zap
  imports Tool_Plans Run_Orchestrate Skipfish_Js
begin

text \<open>
  The driver of ZAP (\<open>runners/zap\<close>): the Automation Framework plan it writes for each application, as a decoded
  document. \<open>str.format\<close> on the header template is a parameter.
\<close>

section \<open>Time\<close>

record minutes =
  mn_spider :: int
  mn_ajax :: int
  mn_passive :: int
  mn_active :: int

definition zap_minutes :: "rat option \<Rightarrow> minutes" where
  "zap_minutes share =
     (case share of
        None \<Rightarrow> \<lparr>mn_spider = 0, mn_ajax = 0, mn_passive = 0, mn_active = 0\<rparr>
      | Some s \<Rightarrow>
          (let usable = fl (max 4 (fl (s / 60)) * fl (9 / 10))
           in \<lparr>mn_spider = max 1 (part_of usable (15 / 100)), mn_ajax = max 1 (part_of usable (30 / 100)),
               mn_passive = max 1 (part_of usable (5 / 100)), mn_active = max 1 (part_of usable (50 / 100))\<rparr>))"

section \<open>Login bodies\<close>

text \<open>The body of a login with ZAP's placeholders in the place of the user's name and password.\<close>

definition placeholder_body :: "credentials \<Rightarrow> (string, string) dict" where
  "placeholder_body c =
     dict_set (cr_password_field c) ''{%password%}'' (dict_set (cr_username_field c) ''{%username%}'' (login_body c))"

text \<open>\<open>json.dumps\<close> of a flat mapping of texts.\<close>

definition json_mapping :: "(string, string) dict \<Rightarrow> string" where
  "json_mapping d = CHR ''{'' # join '', '' (map (\<lambda>(k, v). json_string k @ '': '' @ json_string v) d) @ ''}''"

text \<open>\<open>urlencode\<close>.\<close>

definition quote_octet :: "nat \<Rightarrow> string" where
  "quote_octet n =
     (let c = char_of n
      in if ascii_alpha c \<or> is_dec c \<or> c \<in> set ''_.-~'' then [c]
         else if n = 32 then ''+''
         else CHR ''%'' # [''0123456789ABCDEF'' ! (n div 16 mod 16), ''0123456789ABCDEF'' ! (n mod 16)])"

definition quote_plus :: "string \<Rightarrow> string" where
  "quote_plus s = concat (map quote_octet (utf8_encode s))"

definition urlencode :: "(string, string) dict \<Rightarrow> string" where
  "urlencode d = join ''&'' (map (\<lambda>(k, v). quote_plus k @ CHR ''='' # quote_plus v) d)"

definition form_body :: "(string, string) dict \<Rightarrow> string" where
  "form_body d = replace_text ''%25%7D'' ''%}'' (replace_text ''%7B%25'' ''{%'' (urlencode d))"

section \<open>Contexts\<close>

definition texts :: "string list \<Rightarrow> json" where
  "texts xs = JList (map JStr xs)"

definition url_or_null :: "string option \<Rightarrow> json" where
  "url_or_null u = (case u of None \<Rightarrow> JNull | Some s \<Rightarrow> JStr s)"

text \<open>\<open>None\<close>: the host cannot be split, or its port is not a number.\<close>

definition basic_parameters :: "app_spec \<Rightarrow> obj option" where
  "basic_parameters a =
     Option.bind (app_host a) (\<lambda>h.
       map_option (\<lambda>port. [(''hostname'', JStr (before (CHR '':'') h)), (''port'', JInt port), (''realm'', JStr [])])
         (if after (CHR '':'') h = [] then Some 80 else int_of_text (after (CHR '':'') h)))"

definition login_parameters :: "credentials \<Rightarrow> string \<Rightarrow> obj" where
  "login_parameters c body =
     [(''loginPageUrl'', url_or_null (or_str (cr_login_page_url c) (cr_login_url c))),
      (''loginRequestUrl'', url_or_null (cr_login_url c)), (''loginRequestBody'', JStr body)]"

definition verification_block :: "credentials \<Rightarrow> obj" where
  "verification_block c =
     (let d1 = [(''method'', JStr ''response'')];
          d2 = (if truthy (cr_logged_in c) then dict_set ''loggedInRegex'' (JStr (the (cr_logged_in c))) d1 else d1);
          d3 = (if truthy (cr_logged_out c) then dict_set ''loggedOutRegex'' (JStr (the (cr_logged_out c))) d2 else d2)
      in if truthy (cr_verify_url c)
         then foldl (\<lambda>d (k, v). dict_set k v d) d3
                [(''method'', JStr ''poll''), (''pollUrl'', JStr (the (cr_verify_url c))), (''pollFrequency'', JInt 60),
                 (''pollUnits'', JStr ''requests'')]
         else d3)"

definition auth_method :: "app_spec \<Rightarrow> credentials \<Rightarrow> obj option" where
  "auth_method a c =
     (if cr_kind c = ''basic''
      then map_option (\<lambda>ps. [(''method'', JStr ''http''), (''parameters'', JObj ps)]) (basic_parameters a)
      else if cr_kind c = ''json'' \<or> cr_kind c = ''bearer''
      then Some [(''method'', JStr ''json''), (''parameters'', JObj (login_parameters c (json_mapping (placeholder_body c))))]
      else Some [(''method'', JStr ''form''), (''parameters'', JObj (login_parameters c (form_body (placeholder_body c))))])"

definition session_management :: "(string \<Rightarrow> string \<Rightarrow> string) \<Rightarrow> credentials \<Rightarrow> obj" where
  "session_management fmt c =
     (if (cr_session c = ''bearer'' \<or> cr_session c = ''header'') \<and> truthy (cr_token_path c)
      then [(''method'', JStr ''headers''),
            (''parameters'', JObj [(cr_header_name c, JStr (fmt (cr_header_template c) (''{%json:'' @ the (cr_token_path c) @ ''%}'')))])]
      else [(''method'', JStr ''cookie'')])"

definition USER_NAME :: string where "USER_NAME = ''primary''"

definition auth_blocks :: "(string \<Rightarrow> string \<Rightarrow> string) \<Rightarrow> app_spec \<Rightarrow> credentials \<Rightarrow> obj option" where
  "auth_blocks fmt a c =
     map_option (\<lambda>auth.
       [(''authentication'', JObj (dict_set ''verification'' (JObj (verification_block c)) auth)),
        (''sessionManagement'', JObj (session_management fmt c)),
        (''users'', JList [JObj [(''name'', JStr USER_NAME),
           (''credentials'', JObj [(''username'', JStr ''${ZAP_USER}''), (''password'', JStr ''${ZAP_PASS}'')])]])])
       (auth_method a c)"

definition zap_excludes :: "app_spec \<Rightarrow> credentials option \<Rightarrow> string list" where
  "zap_excludes a creds = as_exclude a @ (case creds of None \<Rightarrow> [] | Some c \<Rightarrow> logout_regexes c)"

definition zap_context :: "(string \<Rightarrow> string \<Rightarrow> string) \<Rightarrow> app_spec \<Rightarrow> credentials option \<Rightarrow> obj option" where
  "zap_context fmt a creds =
     (let base = rstrip_chars ''/'' (as_base_url a);
          plain_context = [(''name'', JStr (as_key a)), (''urls'', texts [base]),
            (''includePaths'', texts (if as_include a = [] then [base @ ''.*''] else as_include a)),
            (''excludePaths'', texts (zap_excludes a creds))]
      in case creds of None \<Rightarrow> Some plain_context | Some c \<Rightarrow> map_option (\<lambda>blocks. plain_context @ blocks) (auth_blocks fmt a c))"

section \<open>Jobs\<close>

definition job :: "string \<Rightarrow> obj \<Rightarrow> json" where
  "job kind parameters = JObj [(''type'', JStr kind), (''parameters'', JObj parameters)]"

definition as_user :: "bool \<Rightarrow> obj" where
  "as_user authenticated = (if authenticated then [(''user'', JStr USER_NAME)] else [])"

definition crawl_user :: "bool \<Rightarrow> obj" where
  "crawl_user authenticated = as_user authenticated @ (if authenticated then [(''logoutAvoidance'', JBool True)] else [])"

definition import_jobs :: "app_spec \<Rightarrow> bool \<Rightarrow> json list" where
  "import_jobs a authenticated =
     (if truthy (as_openapi a)
      then [job ''openapi'' ([(''apiUrl'', JStr (the (as_openapi a))), (''targetUrl'', JStr (rstrip_chars ''/'' (as_base_url a))),
                              (''context'', JStr (as_key a))] @ as_user authenticated)]
      else [])
     @ (if truthy (as_graphql a)
        then [job ''graphql'' [(''endpoint'', JStr (the (as_graphql a))), (''queryGenEnabled'', JBool True), (''requestMethod'', JStr ''post_json'')]]
        else [])"

definition crawl_jobs :: "app_spec \<Rightarrow> bool \<Rightarrow> minutes \<Rightarrow> json list" where
  "crawl_jobs a authenticated m =
     [job ''spider'' ([(''context'', JStr (as_key a)), (''maxDuration'', JInt (mn_spider m)), (''maxDepth'', JInt 10),
        (''parseRobotsTxt'', JBool True), (''parseSitemapXml'', JBool True)] @ crawl_user authenticated),
      job ''spiderAjax'' ([(''context'', JStr (as_key a)), (''maxDuration'', JInt (mn_ajax m)), (''maxCrawlDepth'', JInt 10),
        (''browserId'', JStr ''firefox-headless''), (''runOnlyIfModern'', JBool False)] @ crawl_user authenticated),
      job ''passiveScan-wait'' [(''maxDuration'', JInt (mn_passive m))]]"

definition active_jobs :: "app_spec \<Rightarrow> bool \<Rightarrow> minutes \<Rightarrow> json list" where
  "active_jobs a authenticated m =
     [JObj [(''type'', JStr ''activeScan''),
        (''parameters'', JObj ([(''context'', JStr (as_key a)), (''maxScanDurationInMins'', JInt (mn_active m)),
           (''maxRuleDurationInMins'', JInt (max 1 (mn_active m div 4))), (''threadPerHost'', JInt 4), (''delayInMs'', JInt 0),
           (''handleAntiCSRFTokens'', JBool True), (''injectPluginIdInHeader'', JBool True)] @ as_user authenticated)),
        (''policyDefinition'', JObj [(''defaultStrength'', JStr ''Medium''), (''defaultThreshold'', JStr ''Medium'')])],
      job ''passiveScan-wait'' [(''maxDuration'', JInt (mn_passive m))]]"

definition report_job :: "string \<Rightarrow> app_spec \<Rightarrow> string \<Rightarrow> json" where
  "report_job profile a report_file =
     JObj [(''type'', JStr ''report''),
       (''parameters'', JObj [(''template'', JStr ''traditional-json''), (''reportDir'', JStr (CONTAINER_WORKDIR @ ''/raw'')),
          (''reportFile'', JStr report_file), (''reportTitle'', JStr (as_key a @ '' ('' @ profile @ '')''))]),
       (''risks'', texts [''high'', ''medium'', ''low'', ''info'']),
       (''confidences'', texts [''high'', ''medium'', ''low'', ''falsepositive''])]"

definition zap_active :: "string \<Rightarrow> bool" where
  "zap_active profile = (profile \<noteq> ''baseline'')"

definition zap_jobs :: "string \<Rightarrow> app_spec \<Rightarrow> bool \<Rightarrow> rat option \<Rightarrow> string \<Rightarrow> json list" where
  "zap_jobs profile a authenticated share report_file =
     (let m = zap_minutes share
      in [job ''passiveScan-config'' [(''scanOnlyInScope'', JBool True), (''maxAlertsPerRule'', JInt 0)]]
         @ import_jobs a authenticated @ crawl_jobs a authenticated m
         @ (if zap_active profile then active_jobs a authenticated m else []) @ [report_job profile a report_file])"

definition build_plan ::
  "(string \<Rightarrow> string \<Rightarrow> string) \<Rightarrow> string \<Rightarrow> app_spec \<Rightarrow> credentials option \<Rightarrow> rat option \<Rightarrow> string \<Rightarrow> json option" where
  "build_plan fmt profile a creds share report_file =
     map_option (\<lambda>context.
       JObj [(''env'', JObj [(''contexts'', JList [JObj context]),
          (''parameters'', JObj [(''failOnError'', JBool False), (''failOnWarning'', JBool False), (''continueOnFailure'', JBool True),
             (''progressToStdout'', JBool True)])]),
        (''jobs'', JList (zap_jobs profile a (creds \<noteq> None) share report_file))])
       (zap_context fmt a creds)"

section \<open>The plan of a run\<close>

text \<open>\<open>plan\<close>: each invocation with the document in its configuration file; \<open>None\<close>: a plan could not be made.\<close>

definition zap_invocation :: "(string \<Rightarrow> string \<Rightarrow> string) \<Rightarrow> plan_context \<Rightarrow> app_spec \<Rightarrow> (invocation \<times> json) option" where
  "zap_invocation fmt ctx a =
     (let creds = tool_creds ctx (as_key a); report_name = ''zap-'' @ as_key a @ ''.json''
      in map_option (\<lambda>doc.
           ((blank_invocation a
               [''zap.sh'', ''-cmd'', ''-silent'', ''-autorun'', CONTAINER_WORKDIR @ ''/conf/zap-'' @ as_key a @ ''.yaml''] [report_name])
              \<lparr>iv_env := (case creds of None \<Rightarrow> [] | Some c \<Rightarrow> [(''ZAP_USER'', cr_username c), (''ZAP_PASS'', cr_password c)])\<rparr>, doc))
           (build_plan fmt (pc_profile ctx) a creds (share_seconds ctx) report_name))"

definition zap_plan :: "(string \<Rightarrow> string \<Rightarrow> string) \<Rightarrow> plan_context \<Rightarrow> (invocation \<times> json) list option" where
  "zap_plan fmt ctx = those (map (zap_invocation fmt ctx) (pc_apps ctx))"

end
