(* ===== verification/Tool_Skipfish.thy ===== *)
theory Tool_Skipfish
  imports Tool_Plans
begin

text \<open>
  The driver of skipfish (\<open>runners/skipfish\<close>), which needs a shell: every value of the script goes through
  \<open>shlex.quote\<close>, modelled here with \<open>shlex.join\<close>.
\<close>

section \<open>Quoting\<close>

definition shell_safe :: "char \<Rightarrow> bool" where
  "shell_safe c = (ascii_alpha c \<or> is_dec c \<or> c \<in> set ''_@%+=:,./-'')"

definition shell_quote :: "string \<Rightarrow> string" where
  "shell_quote s =
     (if s = [] then [CHR 0x27, CHR 0x27]
      else if list_all shell_safe s then s
      else CHR 0x27 # concat (map (\<lambda>c. if c = CHR 0x27 then [CHR 0x27, CHR 0x22, CHR 0x27, CHR 0x22, CHR 0x27] else [c]) s) @ [CHR 0x27])"

definition shell_join :: "string list \<Rightarrow> string" where
  "shell_join ws = join '' '' (map shell_quote ws)"

section \<open>The plan\<close>

definition DEFAULT_WORDLIST :: string where "DEFAULT_WORDLIST = ''/usr/share/skipfish/dictionaries/complete.wl''"

definition FALLBACK_WORDLIST :: string where "FALLBACK_WORDLIST = ''/usr/share/skipfish/dictionaries/minimal.wl''"

definition SCAN_SEED :: string where "SCAN_SEED = ''0x5c8f2a11''"

text \<open>\<open>_hms\<close>: hours, minutes and seconds.\<close>

definition hms_parts :: "rat \<Rightarrow> int \<times> int \<times> int" where
  "hms_parts seconds =
     (let total = max 60 (truncate_rat seconds) in (total div 3600, (total mod 3600) div 60, total mod 60))"

definition hms :: "rat \<Rightarrow> string" where
  "hms seconds = (case hms_parts seconds of (h, m, s) \<Rightarrow> join '':'' (map int_text [h, m, s]))"

definition skipfish_exclusions :: "plan_context \<Rightarrow> app_spec \<Rightarrow> string list" where
  "skipfish_exclusions ctx a =
     repeated ''-X'' ((case tool_creds ctx (as_key a) of None \<Rightarrow> [] | Some c \<Rightarrow> logout_prefixes c) @ as_exclude a)"

definition skipfish_auth :: "plan_context \<Rightarrow> app_spec \<Rightarrow> string list" where
  "skipfish_auth ctx a =
     (let replay = (case session_for ctx (as_key a) of
            None \<Rightarrow> []
          | Some s \<Rightarrow> repeated ''-C'' (map (\<lambda>(k, v). k @ CHR ''='' # v) (se_cookies s))
                    @ repeated ''-H'' (map (\<lambda>(k, v). k @ CHR ''='' # v) (se_headers s)))
      in case tool_creds ctx (as_key a) of
           None \<Rightarrow> replay
         | Some c \<Rightarrow> if cr_kind c = ''basic'' then [''-A'', cr_username c @ CHR '':'' # cr_password c] else replay)"

definition skipfish_scan :: "plan_context \<Rightarrow> app_spec \<Rightarrow> string list" where
  "skipfish_scan ctx a =
     [''skipfish'', ''-o'', CONTAINER_WORKDIR @ ''/raw/skipfish-'' @ as_key a, ''-W'', ''/tmp/wordlist.wl'', ''-u'', ''-q'', SCAN_SEED,
      ''-d'', ''10'', ''-c'', ''32'', ''-x'', ''512'', ''-l'', int_text (get_or (op_rate_limit (pc_options ctx)) 30), ''-g'', ''20'',
      ''-m'', ''5'', ''-t'', ''10'']
     @ (case share_seconds ctx of None \<Rightarrow> [] | Some s \<Rightarrow> [''-k'', hms (fl (s * fl (85 / 100)))])
     @ (case bu_max (pc_budget ctx) of None \<Rightarrow> [] | Some n \<Rightarrow> if n = 0 then [] else [''-r'', int_text n])
     @ skipfish_exclusions ctx a @ skipfish_auth ctx a @ [as_base_url a]"

definition skipfish_script :: "string \<Rightarrow> string list \<Rightarrow> string" where
  "skipfish_script wordlist scan =
     ''set -e; if [ -f '' @ shell_quote wordlist @ '' ]; then cp '' @ shell_quote wordlist @ '' /tmp/wordlist.wl; else cp ''
     @ shell_quote FALLBACK_WORDLIST @ '' /tmp/wordlist.wl; fi; exec '' @ shell_join scan"

definition skipfish_plan :: "plan_context \<Rightarrow> invocation list" where
  "skipfish_plan ctx =
     map (\<lambda>a. blank_invocation a
            [''-c'', skipfish_script (get_or (op_wordlist (pc_options ctx)) DEFAULT_WORDLIST) (skipfish_scan ctx a)]
            [''skipfish-'' @ as_key a @ ''/samples.js'']) (pc_apps ctx)"

section \<open>How a shell reads words\<close>

text \<open>The part of a POSIX shell's grammar that the script uses: words of plain and quoted characters, and the
  operator \<open>;\<close>. Anything else, such as an expansion or another operator, is not read (\<open>None\<close>).\<close>

datatype shell_token = Word string | Semicolon

definition plain :: "char \<Rightarrow> bool" where
  "plain c = (shell_safe c \<or> c \<in> set ''[]'')"

definition ended :: "string option \<Rightarrow> shell_token list" where
  "ended w = (case w of None \<Rightarrow> [] | Some x \<Rightarrow> [Word x])"

function shell_read :: "string option \<Rightarrow> string \<Rightarrow> shell_token list option" where
  "shell_read w [] = Some (ended w)"
| "shell_read w (c # s) =
     (if c = CHR '' '' then map_option ((@) (ended w)) (shell_read None s)
      else if c = CHR '';'' then map_option ((@) (ended w @ [Semicolon])) (shell_read None s)
      else if c = CHR 0x27 then
        (if CHR 0x27 \<in> set s then shell_read (Some (get_or w [] @ before (CHR 0x27) s)) (after (CHR 0x27) s) else None)
      else if c = CHR 0x22 then
        (if CHR 0x22 \<in> set s \<and> list_all (\<lambda>d. d \<notin> {CHR ''$'', CHR 0x60, CHR 0x5C}) (before (CHR 0x22) s)
         then shell_read (Some (get_or w [] @ before (CHR 0x22) s)) (after (CHR 0x22) s) else None)
      else if plain c then shell_read (Some (get_or w [] @ [c])) s
      else None)"
  by pat_completeness auto

termination
  by (relation "measure (\<lambda>(w, s). length s)")
     (simp_all add: after_def less_Suc_eq_le le_diff_conv le_SucI [OF length_dropWhile_le])

subsection \<open>What is quoted is one word\<close>

lemma read_single_quoted:
  "shell_read w (CHR 0x27 # concat (map (\<lambda>c. if c = CHR 0x27 then [CHR 0x27, CHR 0x22, CHR 0x27, CHR 0x22, CHR 0x27] else [c]) s)
     @ CHR 0x27 # rest) = shell_read (Some (get_or w [] @ s)) rest"
proof (induction s arbitrary: w)
  case Nil
  then show ?case by (simp add: before_def after_def)
next
  case (Cons c s)
  show ?case
  proof (cases "c = CHR 0x27")
    case True
    then show ?thesis using Cons.IH [of "Some (get_or w [] @ [c])"] by (simp add: before_def after_def get_or_def)
  next
    case False
    let ?t = "concat (map (\<lambda>c. if c = CHR 0x27 then [CHR 0x27, CHR 0x22, CHR 0x27, CHR 0x22, CHR 0x27] else [c]) s) @ CHR 0x27 # rest"
    have "shell_read w (CHR 0x27 # c # ?t) = shell_read (Some (get_or w [] @ [c])) (CHR 0x27 # ?t)"
      using False by (simp add: before_def after_def get_or_def)
    then show ?thesis using Cons.IH [of "Some (get_or w [] @ [c])"] False by (simp add: get_or_def)
  qed
qed

lemma not_safe: "\<not> shell_safe (CHR '' '')" "\<not> shell_safe (CHR '';'')" "\<not> shell_safe (CHR 0x27)" "\<not> shell_safe (CHR 0x22)"
  by code_simp+

lemma safe_plain: "shell_safe c \<Longrightarrow> c \<noteq> CHR '' '' \<and> c \<noteq> CHR '';'' \<and> c \<noteq> CHR 0x27 \<and> c \<noteq> CHR 0x22 \<and> plain c"
  using not_safe by (auto simp: plain_def)

lemma read_plain: "list_all shell_safe s \<Longrightarrow> s \<noteq> [] \<Longrightarrow> shell_read w (s @ rest) = shell_read (Some (get_or w [] @ s)) rest"
proof (induction s arbitrary: w)
  case (Cons c s)
  then show ?case using safe_plain [of c] by (cases "s = []") (auto simp: get_or_def)
qed simp

lemma read_quoted: "shell_read w (shell_quote s @ rest) = shell_read (Some (get_or w [] @ s)) rest"
  using read_single_quoted [of w s rest] read_plain [of s w rest]
  by (auto simp: shell_quote_def before_def after_def)

definition plain_word :: "string \<Rightarrow> bool" where
  "plain_word s = (s \<noteq> [] \<and> list_all plain s)"

lemma read_word: "plain_word s \<Longrightarrow> shell_read w (s @ rest) = shell_read (Some (get_or w [] @ s)) rest"
proof (induction s arbitrary: w)
  case (Cons c s)
  have "\<not> plain (CHR '' '')" "\<not> plain (CHR '';'')" "\<not> plain (CHR 0x27)" "\<not> plain (CHR 0x22)" by code_simp+
  then show ?case using Cons by (cases "s = []") (auto simp: plain_word_def get_or_def)
qed (simp add: plain_word_def)

lemma read_space: "shell_read w ('' '' @ rest) = map_option ((@) (ended w)) (shell_read None rest)"
  and read_semicolon: "shell_read w ('';'' @ rest) = map_option ((@) (ended w @ [Semicolon])) (shell_read None rest)"
  by simp_all

lemma script_words:
  "plain_word ''set''" "plain_word ''-e''" "plain_word ''if''" "plain_word ''[''" "plain_word ''-f''" "plain_word '']''" "plain_word ''then''"
  "plain_word ''cp''" "plain_word ''/tmp/wordlist.wl''" "plain_word ''else''" "plain_word ''fi''" "plain_word ''exec''"
  by code_simp+

lemma read_joined: "ws \<noteq> [] \<Longrightarrow> shell_read None (shell_join ws) = Some (map Word ws)"
proof (induction ws rule: induct_list012)
  case (2 w)
  then show ?case using read_quoted [of None w "[]"] by (simp add: shell_join_def ended_def get_or_def)
next
  case (3 v w ws)
  then show ?case using read_quoted [of None v "'' '' @ shell_join (w # ws)"] by (simp add: shell_join_def ended_def get_or_def)
qed simp

lemma read_hms: "case hms_parts q of (h, m, s) \<Rightarrow> h * 3600 + m * 60 + s = max 60 (truncate_rat q) \<and> m < 60 \<and> s < 60"
proof -
  have "t div 3600 * 3600 + t mod 3600 div 60 * 60 + t mod 60 = t" for t :: int
  proof -
    have "t mod 3600 mod 60 = t mod 60" using mod_mod_cancel [of 60 3600 t] by simp
    then have "t mod 3600 div 60 * 60 + t mod 60 = t mod 3600" using div_mult_mod_eq [of "t mod 3600" 60] by simp
    then show ?thesis using div_mult_mod_eq [of t 3600] by linarith
  qed
  then show ?thesis by (simp add: hms_parts_def Let_def)
qed

text \<open>C38: Whatever the word list, the target's URL and its credentials are, a shell reads the script as the commands it was written
  to be, with each of these values as one word, and starts the scanner with exactly the arguments of the plan.\<close>

theorem skipfish_script_words:
  assumes "scan \<noteq> []"
  shows "shell_read None (skipfish_script wordlist scan) =
    Some (map Word [''set'', ''-e''] @ Semicolon # map Word [''if'', ''['', ''-f'', wordlist, '']''] @ Semicolon
          # map Word [''then'', ''cp'', wordlist, ''/tmp/wordlist.wl''] @ Semicolon
          # map Word [''else'', ''cp'', FALLBACK_WORDLIST, ''/tmp/wordlist.wl''] @ Semicolon
          # map Word [''fi''] @ Semicolon # map Word (''exec'' # scan))"
proof -
  have "skipfish_script wordlist scan =
    ''set'' @ '' '' @ ''-e'' @ '';'' @ '' '' @ ''if'' @ '' '' @ ''['' @ '' '' @ ''-f'' @ '' '' @ shell_quote wordlist @ '' '' @ '']'' @ '';'' @ '' ''
    @ ''then'' @ '' '' @ ''cp'' @ '' '' @ shell_quote wordlist @ '' '' @ ''/tmp/wordlist.wl'' @ '';'' @ '' ''
    @ ''else'' @ '' '' @ ''cp'' @ '' '' @ shell_quote FALLBACK_WORDLIST @ '' '' @ ''/tmp/wordlist.wl'' @ '';'' @ '' ''
    @ ''fi'' @ '';'' @ '' '' @ ''exec'' @ '' '' @ shell_join scan"
    by (simp add: skipfish_script_def)
  moreover have "get_or None ([] :: string) = []" "get_or (Some x) [] = x" for x :: string by (simp_all add: get_or_def)
  ultimately show ?thesis
    apply (simp only: read_word [OF script_words(1)] read_word [OF script_words(2)] read_word [OF script_words(3)] read_word [OF script_words(4)]
        read_word [OF script_words(5)] read_word [OF script_words(6)] read_word [OF script_words(7)] read_word [OF script_words(8)]
        read_word [OF script_words(9)] read_word [OF script_words(10)] read_word [OF script_words(11)] read_word [OF script_words(12)]
        read_space read_semicolon read_quoted read_joined [OF assms] ended_def option.case option.map append_Nil)
    apply simp
    done
qed

lemma skipfish_script_words_witness:
  "let scan = [''skipfish'', ''-A'', ''u:it's; $(rm -rf /)'', ''http://shop/''] in
   \<exists>pre. shell_read None (skipfish_script ''w l'' scan) = Some (pre @ map Word (''exec'' # scan))"
  unfolding Let_def using skipfish_script_words [of "[''skipfish'', ''-A'', ''u:it's; $(rm -rf /)'', ''http://shop/'']" "''w l''"]
  by fastforce

end
