(* ===== verification/Run_Driver_Facts.thy ===== *)
theory Run_Driver_Facts
  imports Run_Driver
begin

text \<open>
  A scan under a budget ends, its results answer for every invocation that was planned, and it leaves no container behind.
\<close>

section \<open>The loop ends\<close>

lemma poll_step_kept:
  assumes "poll_step loads p own rw = (r, own', rw')"
  shows "bw_budget own' = bw_budget own" "bw_started own' = bw_started own"
    "bw_budget rw' = bw_budget rw" "bw_started rw' = bw_started rw"
  using assms watch_kept [of _ _ _ own] watch_kept [of _ _ _ rw]
  by (auto simp: poll_step_def Let_def case_prod_beta split: poll.splits option.splits)

lemma poll_step_stops:
  assumes "bu_wall (bw_budget own) = Some n" and "\<And>i m t t'. p = Poll i m t t' \<Longrightarrow> of_int n \<le> elapsed own t"
  shows "fst (poll_step loads p own rw) \<noteq> Some None"
  using assms
  by (cases p) (auto simp: poll_step_def watch_check_def Let_def elapsed_def split: option.splits)

text \<open>The clock of a loop moves on by at least \<open>d\<close> at every turn.\<close>

definition clock_moves :: "rat \<Rightarrow> rat \<Rightarrow> (nat \<Rightarrow> poll) \<Rightarrow> bool" where
  "clock_moves d start polls \<longleftrightarrow>
     0 < d \<and> (\<forall>k. case polls k of Poll i m t t' \<Rightarrow> start + of_nat k * d \<le> t | KeyboardInterrupt \<Rightarrow> True)"

lemma poll_loop_ends:
  assumes "bu_wall (bw_budget own) = Some n" and "clock_moves d (bw_started own) polls"
  shows "poll_loop loads polls k own rw \<noteq> None"
  using assms
proof (induction "nat \<lceil>of_int n / d\<rceil> - k" arbitrary: k own rw rule: less_induct)
  case less
  obtain r own' rw' where step: "poll_step loads (polls k) own rw = (r, own', rw')"
    by (cases "poll_step loads (polls k) own rw")
  show ?case
  proof (cases "r = Some None")
    case True
    have "\<not> of_int n \<le> of_nat k * d"
    proof
      assume late: "of_int n \<le> of_nat k * d"
      have "of_int n \<le> elapsed own t" if "polls k = Poll i m t t'" for i m t t'
      proof -
        have "case polls k of Poll i m t t' \<Rightarrow> bw_started own + of_nat k * d \<le> t | KeyboardInterrupt \<Rightarrow> True"
          using less.prems(2) unfolding clock_moves_def by blast
        then show ?thesis using that late by (simp add: elapsed_def)
      qed
      then have "fst (poll_step loads (polls k) own rw) \<noteq> Some None"
        by (cases "polls k") (auto intro!: poll_step_stops [OF less.prems(1)])
      then show False using step True by simp
    qed
    then have "of_nat k < of_int n / d" using less.prems(2) by (simp add: clock_moves_def pos_less_divide_eq not_le)
    then have "nat \<lceil>of_int n / d\<rceil> - (k + 1) < nat \<lceil>of_int n / d\<rceil> - k" by linarith
    moreover have "bu_wall (bw_budget own') = Some n" "clock_moves d (bw_started own') polls"
      using poll_step_kept [OF step] less.prems by simp_all
    ultimately have "poll_loop loads polls (k + 1) own' rw' \<noteq> None" by (rule less.hyps)
    then show ?thesis using True step by (subst poll_loop.simps) simp
  next
    case False
    then show ?thesis using step by (subst poll_loop.simps) (auto split: option.split)
  qed
qed

text \<open>A budget for the run gives each invocation a share of at least a second.\<close>

lemma share_limits:
  assumes "bu_wall (bw_budget rw) \<noteq> None"
  obtains n where "bu_wall (share_budget b (share_of rw now l)) = Some n" "1 \<le> n"
proof -
  obtain q where q: "share_of rw now l = Some q" "1 \<le> q"
    using assms by (auto simp: share_of_def)
  then have "bu_wall (share_budget b (share_of rw now l)) = Some \<lfloor>q\<rfloor>" "1 \<le> \<lfloor>q\<rfloor>"
    by (auto simp: share_budget_def le_floor_iff)
  then show thesis using that by blast
qed

lemma poll_loop_budget:
  assumes "poll_loop loads polls k own rw = Some x"
  shows "bw_budget (snd (snd x)) = bw_budget rw"
proof (rule poll_loop.raw_induct [OF _ assms, where P = "\<lambda>loads polls k own rw x. bw_budget (snd (snd x)) = bw_budget rw"])
  fix f loads polls k own rw x
  assume IH: "\<And>loads polls k own rw x. f loads polls k own rw = Some x \<Longrightarrow> bw_budget (snd (snd x)) = bw_budget rw"
    and step: "(case poll_step loads (polls k) own rw of
        (None, own, rw) \<Rightarrow> Some (None, own, rw)
      | (Some None, own, rw) \<Rightarrow> f loads polls (k + 1) own rw
      | (Some (Some reason), own, rw) \<Rightarrow> Some (Some reason, own, rw)) = Some x"
  show "bw_budget (snd (snd x)) = bw_budget rw"
    using step IH by (auto dest: poll_step_kept split: prod.splits option.splits)
qed

lemma run_one_ends:
  assumes "bu_wall (bw_budget rw) \<noteq> None" and "clock_moves d (sw_started w) (sw_polls w)"
  shows "run_one loads ctx job w rw (share_of rw now l) \<noteq> None"
proof -
  obtain n where n: "bu_wall (share_budget (sc_budget ctx) (share_of rw now l)) = Some n"
    using share_limits [OF assms(1)] by blast
  have "poll_loop loads (sw_polls w) 0 (new_watch (share_budget (sc_budget ctx) (share_of rw now l)) (sw_started w)) rw \<noteq> None"
    by (rule poll_loop_ends [of _ n d]) (use n assms(2) in \<open>simp_all add: new_watch_def\<close>)
  then show ?thesis by (auto simp: run_one_def Let_def split: sum.split option.split)
qed

lemma run_one_budget:
  assumes "run_one loads ctx job w rw share = Some (acts, r, rw')"
  shows "bw_budget rw' = bw_budget rw"
  using assms
  by (auto simp: run_one_def Let_def split: sum.splits option.splits dest!: poll_loop_budget)

lemma run_all_ends:
  assumes "bu_wall (bw_budget rw) \<noteq> None"
    and "list_all (\<lambda>(job, w). clock_moves d (sw_started w) (sw_polls w)) plan"
  shows "run_all loads ctx rw plan \<noteq> None"
  using assms
proof (induction plan arbitrary: rw)
  case (Cons x plan)
  obtain job w where x: "x = (job, w)" by (cases x)
  obtain acts r rw1 where one: "run_one loads ctx job w rw (share_of rw (sw_share_now w) (Suc (length plan))) = Some (acts, r, rw1)"
    using run_one_ends [of rw d w loads ctx job "sw_share_now w" "Suc (length plan)"] Cons.prems by (auto simp: x)
  have "run_all loads ctx (snd (watch_check m False now rw1)) plan \<noteq> None" for m now
    using Cons run_one_budget [OF one] watch_kept(1) [of m False now rw1] by simp
  then show ?case using one
    by (auto simp: x split: option.split prod.split) (metis snd_conv)
qed simp

text \<open>C33: A scan under a time budget ends: when the clock moves on at every turn of a polling loop, the driver returns, whatever
  docker, the tools and the meter do, and however many targets are planned.\<close>

theorem scan_ends:
  assumes "bu_wall (sc_budget ctx) \<noteq> None"
    and "list_all (\<lambda>(job, w). clock_moves d (sw_started w) (sw_polls w)) plan"
  shows "driver_run loads ctx now plan \<noteq> None"
  unfolding driver_run_def by (rule run_all_ends) (use assms in \<open>simp_all add: new_watch_def\<close>)

section \<open>Every planned invocation is answered for\<close>

text \<open>What a scan does to the container of an invocation, told from the result.\<close>

definition acts_of :: "scan_context \<Rightarrow> invocation \<Rightarrow> scan_result \<Rightarrow> scan_act list" where
  "acts_of ctx job r =
     StartScan (scan_argv ctx job)
     # (case ir_container r of
          None \<Rightarrow> []
        | Some cid \<Rightarrow>
            (if ir_stop r = Completed then [] else [StopScan cid (bu_grace (sc_budget ctx))])
            @ (if sc_keep ctx then [] else [RemoveScan cid]))"

lemma run_one_result:
  assumes "run_one loads ctx job w rw share = Some (acts, Some r, rw')"
  shows "ir_name r = iv_name job" "ir_app r = iv_app job" "acts = acts_of ctx job r"
    "ir_container r = None \<Longrightarrow> ir_error r \<noteq> None" "ir_container r = None \<or> ir_error r = None"
  using assms
  by (auto simp: run_one_def Let_def empty_result_def acts_of_def split: sum.splits option.splits if_splits)

lemma check_reason: "watch_check r False now w = (Some reason, w') \<Longrightarrow> exhausted reason"
  by (auto simp: watch_check_def Let_def exhausted_def split: if_splits)

definition skipped :: "scan_result \<Rightarrow> bool" where
  "skipped r \<longleftrightarrow> exhausted (ir_stop r) \<and> ir_container r = None \<and> ir_error r \<noteq> None \<and> scan_requests r = 0"

lemma run_all_cover:
  assumes "run_all loads ctx rw plan = Some (acts, Some rs)"
  shows "map ir_name rs = map (\<lambda>p. iv_name (fst p)) plan \<and> map ir_app rs = map (\<lambda>p. iv_app (fst p)) plan
    \<and> (\<exists>n\<le>length plan. acts = concat (map2 (acts_of ctx) (map fst (take n plan)) (take n rs)) \<and> list_all skipped (drop n rs))"
  using assms
proof (induction plan arbitrary: rw acts rs)
  case (Cons x plan)
  obtain job w where x: "x = (job, w)" by (cases x)
  obtain a r rw1 m where one: "run_one loads ctx job w rw (share_of rw (sw_share_now w) (Suc (length plan))) = Some (a, Some r, rw1)"
    and m: "sw_meter w = Some m"
    using Cons.prems by (auto simp: x split: option.splits)
  note result = run_one_result [OF one]
  obtain stop rw2 where check: "watch_check (Some m) False (sw_now w) rw1 = (stop, rw2)"
    by (cases "watch_check (Some m) False (sw_now w) rw1")
  show ?case
  proof (cases stop)
    case (Some reason)
    then have rs: "rs = r # map (\<lambda>(i, _). not_started (image_of ctx job) reason i) plan" "acts = a"
      using Cons.prems one m check by (auto simp: x)
    have "list_all skipped (drop 1 rs)"
      using check_reason [of "Some m" "sw_now w" rw1 reason rw2] check Some
      by (auto simp: rs list_all_iff skipped_def not_started_def empty_result_def scan_requests_def)
    then have "acts = concat (map2 (acts_of ctx) (map fst (take 1 (x # plan))) (take 1 rs)) \<and> list_all skipped (drop 1 rs)"
      using result(3) by (simp add: rs x)
    moreover have "map ir_name rs = map (\<lambda>p. iv_name (fst p)) (x # plan)" "map ir_app rs = map (\<lambda>p. iv_app (fst p)) (x # plan)"
      using result(1,2) by (auto simp: rs x not_started_def empty_result_def)
    ultimately show ?thesis by (metis le_add1 list.size(4) One_nat_def Suc_leI zero_less_Suc add_Suc_right add_0_right)
  next
    case None
    then obtain acts' rs' where rest: "run_all loads ctx rw2 plan = Some (acts', Some rs')" "acts = a @ acts'" "rs = r # rs'"
      using Cons.prems one m check by (auto simp: x)
    obtain n where n: "n \<le> length plan"
      "acts' = concat (map2 (acts_of ctx) (map fst (take n plan)) (take n rs'))" "list_all skipped (drop n rs')"
      using Cons.IH [OF rest(1)] by blast
    then have "acts = concat (map2 (acts_of ctx) (map fst (take (Suc n) (x # plan))) (take (Suc n) rs)) \<and> list_all skipped (drop (Suc n) rs)"
      using result(3) by (simp add: rest x)
    then show ?thesis using Cons.IH [OF rest(1)] result(1,2) n(1) by (auto simp: rest(3) x intro!: exI [of _ "Suc n"])
  qed
qed simp


section \<open>Concrete scans\<close>

definition small_job :: "string \<Rightarrow> invocation" where
  "small_job n =
     \<lparr>iv_name = n, iv_app = Some n, iv_args = [], iv_image = None, iv_entrypoint = None, iv_user = None, iv_env = [],
      iv_volumes = [], iv_flags = [], iv_artifacts = []\<rparr>"

text \<open>A container that runs at every turn, five seconds apart; the meter stands at seven requests.\<close>

definition running_answer :: exec_result where
  "running_answer = \<lparr>ex_code = 0, ex_out = ''running'', ex_err = []\<rparr>"

definition small_loads :: decoder where
  "small_loads s = (if s = ''running'' then Some (JList [JObj [(''State'', JObj [(''Running'', JBool True)])]]) else None)"

definition small_world :: scan_world where
  "small_world =
     \<lparr>sw_share_now = 0, sw_from = None, sw_handle = Inr (''c1'', None), sw_started = 0,
      sw_polls = (\<lambda>k. Poll (Some running_answer) (Some 7) (of_nat k * 5) (of_nat k * 5)), sw_exit = Some running_answer,
      sw_until = Some 7, sw_ended = 10, sw_present = (\<lambda>_. True), sw_meter = Some 7, sw_now = 10\<rparr>"

definition small_scan :: "int option \<Rightarrow> scan_context" where
  "small_scan most =
     \<lparr>sc_tool = ''zap'', sc_bin = ''docker'', sc_image = ''zap:1'', sc_run_id = ''r'', sc_network = ''bench-public'', sc_raw = ''/raw'',
      sc_conf = ''/conf'', sc_workdir = ''/work'', sc_entrypoint = None, sc_user = None,
      sc_budget = \<lparr>bu_wall = Some 60, bu_max = most, bu_grace = 30, bu_poll = 5\<rparr>, sc_keep = False\<rparr>"

lemma scan_ends_witness: "driver_run small_loads (small_scan None) 0 [(small_job ''shop'', small_world)] \<noteq> None"
  by (rule scan_ends [of _ 5]) (auto simp: small_scan_def small_world_def clock_moves_def)


text \<open>A call of the meter that fails after an invocation loses its result and those before it.\<close>

lemma meter_loses_results:
  assumes "sw_meter w = None" and "run_all loads ctx rw ((job, w) # plan) = Some (acts, rs)"
  shows "rs = None"
  using assms by (auto split: option.splits)

text \<open>A failing inspection counts as the tool's own end: it is not stopped, and its result is no lower bound.\<close>

lemma failed_inspection_completes:
  assumes "ex_code r \<noteq> 0"
  shows "fst (poll_step loads (Poll (Some r) m t t') own rw) = Some (Some Completed)"
  using failed_inspection_reads_as_exit [OF assms, of loads]
  by (simp add: poll_step_def watch_check_def Let_def split: option.split)

text \<open>A time limit of zero is described as none, and stops every scan at its first turn.\<close>

lemma zero_limit_described:
  assumes "bu_wall b = Some 0" and "bu_max b = None"
  shows "describe_budget b = ''no time limit''"
    and "started \<le> now \<Longrightarrow> fst (watch_check m False now (new_watch b started)) = Some BudgetWallClock"
  using assms by (simp_all add: describe_budget_def watch_check_def new_watch_def elapsed_def Let_def split: option.split)

end
