(* ===== verification/Run_Facts.thy ===== *)
theory Run_Facts
  imports Run_Orchestrate Run_Driver_Facts
begin

text \<open>
  What the harness proves before a run opens: a reset that is taken for clean is, and no run opens on a target, a stack or a
  session that is not.
\<close>

section \<open>Resets\<close>

lemma restart_checks_passed:
  assumes "restart_checks rd w services = Some cs"
  shows "list_all check_passed cs \<longleftrightarrow> (\<forall>s\<in>set services. restart_advanced rd (rw_before w s) (rw_after w s) = Some True)"
  using assms
proof (induction services arbitrary: cs)
  case (Cons s services)
  obtain b cs' where "restart_advanced rd (rw_before w s) (rw_after w s) = Some b" "restart_checks rd w services = Some cs'"
    "cs = Check (''restarted:'' @ s) b # cs'"
    using Cons.prems by (auto simp: restart_checks_def split: option.splits)
  then show ?case using Cons.IH [of cs'] by (auto simp: check_passed_def)
qed (simp add: restart_checks_def)

definition command_proves :: "reset_world \<Rightarrow> string option \<Rightarrow> reset_outcome \<Rightarrow> bool" where
  "command_proves w reference out \<longleftrightarrow>
     (\<exists>r d. rw_command w = Some r \<and> ex_code r = 0 \<and> extract_digest (ex_out r) = Some d \<and> ro_digest out = Some d
        \<and> (reference = None \<or> reference = Some d))"

lemma run_reset_ok:
  assumes "run_reset w a reference checks = Inr out"
  shows "ro_ok out \<longleftrightarrow> list_all check_passed checks \<and> command_proves w reference out"
    and "ro_app out = as_key a"
  using assms
  by (auto simp: run_reset_def Let_def digest_checks_def check_passed_def command_proves_def split: option.splits if_splits)

lemma reset_target_app:
  assumes "reset_target rd timeout w a reference = Some (Inr out)"
  shows "ro_app out = as_key a"
  using assms run_reset_ok(2) [of w a reference _ out]
  by (auto simp: reset_target_def Let_def split: if_splits option.splits)


definition shop_app :: app_spec where
  "shop_app =
     \<lparr>as_key = ''shop'', as_services = [''web''], as_base_url = ''http://shop'', as_internal_url = None, as_internal_network = ''inner'',
      as_reset_service = None, as_reset_command = ''reset'', as_restart = None, as_health = [''web''], as_expected = None,
      as_openapi = None, as_graphql = None, as_include = [], as_exclude = []\<rparr>"

definition clean_reset :: reset_world where
  "clean_reset =
     \<lparr>rw_before = (\<lambda>s. Some ''2024-05-01T10:00:00Z''), rw_restarted = True, rw_after = (\<lambda>s. Some ''2024-05-01T10:01:00Z''), rw_now = 0,
      rw_turns = (\<lambda>k. (of_nat k, \<lambda>s. if k = 0 then ''starting'' else ''healthy'')),
      rw_command = Some \<lparr>ex_code = 0, ex_out = ''state 594de9ba276e7b6b'', ex_err = []\<rparr>\<rparr>"

definition clock_reader :: iso_reader where
  "clock_reader t = (if t = ''2024-05-01T10:00:00+00:00'' then Some (True, 0) else Some (True, 60))"


text \<open>Waiting ends when the clock moves on.\<close>

lemma wait_loop_ends:
  assumes "0 < d" and "\<forall>k. start + of_nat k * d \<le> fst (turns k)"
  shows "wait_loop turns services deadline k \<noteq> None"
proof (induction "nat \<lceil>(deadline - start) / d\<rceil> - k" arbitrary: k rule: less_induct)
  case less
  show ?case
  proof (cases "deadline \<le> fst (turns k)")
    case True
    then show ?thesis by (subst wait_loop.simps) simp
  next
    case False
    have "start + of_nat k * d \<le> fst (turns k)" using assms(2) by blast
    then have "of_nat k * d < deadline - start" using False by linarith
    then have "of_nat k < (deadline - start) / d" using assms(1) by (simp add: pos_less_divide_eq)
    then have "nat \<lceil>(deadline - start) / d\<rceil> - (k + 1) < nat \<lceil>(deadline - start) / d\<rceil> - k" by linarith
    then have "wait_loop turns services deadline (k + 1) \<noteq> None" by (rule less.hyps)
    then show ?thesis by (subst wait_loop.simps) auto
  qed
qed

lemma reset_all_proven:
  assumes "reset_all rd timeout refs xs = Some (Inr outs)"
  shows "map ro_app outs = map (\<lambda>x. as_key (fst x)) xs"
    and "list_all2 (\<lambda>(a, w) out. reset_target rd timeout w a (dict_get refs (as_key a)) = Some (Inr out)) xs outs"
proof -
  have "map ro_app outs = map (\<lambda>x. as_key (fst x)) xs
    \<and> list_all2 (\<lambda>(a, w) out. reset_target rd timeout w a (dict_get refs (as_key a)) = Some (Inr out)) xs outs"
    using assms
  proof (induction xs arbitrary: outs)
    case (Cons x xs)
    obtain a w where x: "x = (a, w)" by (cases x)
    obtain out outs' where one: "reset_target rd timeout w a (dict_get refs (as_key a)) = Some (Inr out)"
      and rest: "reset_all rd timeout refs xs = Some (Inr outs')" and outs: "outs = out # outs'"
      using Cons.prems by (auto simp: x bindE_Inr_iff split: option.splits sum.splits)
    then show ?case using Cons.IH [OF rest] reset_target_app [OF one] by (simp add: x)
  qed simp
  then show "map ro_app outs = map (\<lambda>x. as_key (fst x)) xs"
    and "list_all2 (\<lambda>(a, w) out. reset_target rd timeout w a (dict_get refs (as_key a)) = Some (Inr out)) xs outs" by simp_all
qed

lemma reset_stage_proven:
  assumes "reset_stage rd args w apps = Some (Inr outs)" and "\<not> oa_skip_reset args"
  shows "map ro_app outs = map as_key apps \<and> list_all ro_ok outs"
proof -
  have all: "reset_all (rd_time rd) (oa_timeout args) (reference_digests apps (wd_records w)) (map (\<lambda>a. (a, wd_reset w (as_key a))) apps)
      = Some (Inr outs)" "\<not> list_ex (\<lambda>out. \<not> ro_ok out) outs"
    using assms
    by (cases "reset_all (rd_time rd) (oa_timeout args) (reference_digests apps (wd_records w)) (map (\<lambda>a. (a, wd_reset w (as_key a))) apps)";
        auto simp: reset_stage_def reset_targets_def split: sum.splits if_splits)+
  from reset_all_proven(1) [OF all(1)] all(2) show ?thesis by (simp add: comp_def list_ex_iff list_all_iff)
qed

section \<open>Opening and closing\<close>

text \<open>A login the harness relies on: proven, or unproven because the operator allowed it or, which the code does not
  intend, because the credentials are basic and have no URL to check against.\<close>

definition login_proven :: "readers \<Rightarrow> orch_args \<Rightarrow> orch_world \<Rightarrow> string \<Rightarrow> http_call list \<Rightarrow> bool" where
  "login_proven rd args w k calls \<longleftrightarrow>
     (\<exists>c s. establish (rd_json rd) (rd_search rd) (rd_format rd) c (\<not> oa_unverified args) (wd_login w k) = (calls, Inr s)
        \<and> (se_verified s \<or> oa_unverified args \<or> cr_kind c = ''basic'' \<and> \<not> truthy (cr_verify_url c)))"

definition opens_run :: "orch_step \<Rightarrow> bool" where
  "opens_run s = (case s of OpenStep m \<Rightarrow> True | _ \<Rightarrow> False)"

definition own_traffic :: "orch_step \<Rightarrow> bool" where
  "own_traffic s = (case s of LoginStep k a calls \<Rightarrow> True | PreflightStep cs \<Rightarrow> True | ResetStep outs \<Rightarrow> True | _ \<Rightarrow> False)"

lemma login_all_steps:
  assumes "login_all rd args w ts cfg apps = (steps, Inr sessions)"
  shows "list_all (\<lambda>s. \<exists>k a calls. s = LoginStep k a calls \<and> login_proven rd args w k calls) steps"
  using assms
proof (induction apps arbitrary: steps sessions)
  case (Cons a apps)
  show ?case
  proof (cases "creds_for cfg a (oa_role args)")
    case (Inl e)
    then show ?thesis using Cons.prems by simp
  next
    case (Inr oc)
    show ?thesis
    proof (cases oc)
      case None
      then show ?thesis using Cons Inr by simp
    next
      case (Some c)
      obtain calls s where est: "establish (rd_json rd) (rd_search rd) (rd_format rd) c (\<not> oa_unverified args) (wd_login w (as_key a)) = (calls, Inr s)"
        using Cons.prems Inr Some by (auto split: prod.splits sum.splits)
      obtain steps' r where rest: "login_all rd args w ts cfg apps = (steps', r)" by (cases "login_all rd args w ts cfg apps")
      obtain d where r: "r = Inr d" "steps = LoginStep (as_key a) (internal_address ts a) calls # steps'"
        using Cons.prems Inr Some est rest by (cases r) auto
      have "se_verified s \<or> oa_unverified args \<or> cr_kind c = ''basic'' \<and> \<not> truthy (cr_verify_url c)"
        using strict_session_verified [of "rd_json rd" "rd_search rd" "rd_format rd" c "wd_login w (as_key a)" s] est
        by (cases "oa_unverified args") auto
      then have "login_proven rd args w (as_key a) calls" using est unfolding login_proven_def by blast
      then show ?thesis using Cons.IH [OF rest [unfolded r(1)]] by (simp add: r(2))
    qed
  qed
qed simp

lemma prove_ready_steps:
  assumes "prove_ready rd args w apps cfg outs = (steps, Inr ry)"
  obtains checks logins where "steps = [InspectStep, PreflightStep checks] @ logins" "failures checks = []"
    "list_all (\<lambda>s. \<exists>k a calls. s = LoginStep k a calls \<and> login_proven rd args w k calls) logins"
  using assms login_all_steps
  by (auto simp: prove_ready_def Let_def split: option.splits if_splits prod.splits sum.splits)

lemma prove_ready_stopped:
  assumes "prove_ready rd args w apps cfg outs = (steps, Inl e)"
  shows "list_all (\<lambda>s. \<not> opens_run s) steps"
proof -
  have "list_all (\<lambda>s. \<not> opens_run s) (fst (login_all rd args w ts cfg1 apps))" for ts cfg1
    by (induction apps) (auto simp: opens_run_def case_prod_beta split: sum.split option.split)
  then show ?thesis
    using assms
    by (auto simp: prove_ready_def Let_def opens_run_def list_all_iff split: option.splits if_splits prod.splits sum.splits)
      (metis fst_conv)+
qed

lemma after_scan_steps:
  "list_all (\<lambda>s. \<not> opens_run s \<and> \<not> own_traffic s) (fst (after_scan args w apps oc ry prepared planned results))
   \<and> CloseStep \<in> set (fst (after_scan args w apps oc ry prepared planned results))"
  by (auto simp: after_scan_def after_steps_def Let_def opens_run_def own_traffic_def list_all_iff split: option.splits prod.splits if_splits)

lemma open_and_scan_steps:
  assumes "open_and_scan rd ctx args w apps oc ry = Some (steps, e)" and "OpenStep m \<in> set steps"
  obtains post where "steps = [PrepareStep, OpenStep m] @ post" "list_all (\<lambda>s. \<not> opens_run s \<and> \<not> own_traffic s) post"
    "wd_directory w \<Longrightarrow> CloseStep \<in> set post" "m = address_payload (ry_topology ry)"
proof -
  note after = after_scan_steps [of args w apps oc ry]
  obtain run_id where run: "wd_open w = Some run_id" using assms by (auto simp: open_and_scan_def Let_def split: option.splits)
  have "\<exists>post. steps = [PrepareStep, OpenStep (address_payload (ry_topology ry))] @ post
    \<and> list_all (\<lambda>s. \<not> opens_run s \<and> \<not> own_traffic s) post \<and> (wd_directory w \<longrightarrow> CloseStep \<in> set post)"
  proof (cases "wd_directory w")
    case False
    then show ?thesis using assms(1) run by (simp add: open_and_scan_def Let_def)
  next
    case dir: True
    show ?thesis
    proof (cases "wd_plan w")
      case None
      then show ?thesis
        using assms(1) run dir after [of "if oa_skip_prepare args then [] else wd_prepared w" False None]
        by (auto simp: open_and_scan_def Let_def case_prod_beta)
    next
      case (Some plan)
      then obtain acts results where "steps = [PrepareStep, OpenStep (address_payload (ry_topology ry)), ScanStep acts]
          @ fst (after_scan args w apps oc ry (if oa_skip_prepare args then [] else wd_prepared w) True results)"
        using assms(1) run dir by (auto simp: open_and_scan_def Let_def case_prod_beta)
      then show ?thesis
        using after [of "if oa_skip_prepare args then [] else wd_prepared w" True results]
        by (auto simp: opens_run_def own_traffic_def)
    qed
  qed
  then obtain post where post: "steps = [PrepareStep, OpenStep (address_payload (ry_topology ry))] @ post"
    "list_all (\<lambda>s. \<not> opens_run s \<and> \<not> own_traffic s) post" "wd_directory w \<longrightarrow> CloseStep \<in> set post" by blast
  have "OpenStep m \<notin> set post" using post(2) by (auto simp: list_all_iff opens_run_def)
  then have "m = address_payload (ry_topology ry)" using assms(2) post(1) by auto
  then show thesis using that post by blast
qed


definition shop_login :: credentials where
  "shop_login =
     \<lparr>cr_app = ''shop'', cr_role = ''user'', cr_kind = ''basic'', cr_login_url = None, cr_login_page_url = None, cr_login_path = None,
      cr_login_page_path = None, cr_verify_path = None, cr_username = ''u'', cr_password = ''p'', cr_username_field = ''username'',
      cr_password_field = ''password'', cr_extra = [], cr_logged_in = None, cr_logged_out = None,
      cr_verify_url = Some ''http://shop/me'', cr_token_path = None, cr_session = ''cookie'', cr_session_cookie = None,
      cr_header_name = ''Authorization'', cr_header_template = ''Bearer {token}'', cr_logout_paths = [], cr_subject_id = None\<rparr>"

definition shop_run :: orch_world where
  "shop_run =
     \<lparr>wd_healthz = True, wd_reset = (\<lambda>k. clean_reset), wd_records = [],
      wd_docker = (\<lambda>s. \<lparr>sv_id = Some ''c1'', sv_info = [], sv_digest = (\<lambda>i. None)\<rparr>),
      wd_preflight =
        \<lparr>pw_profiles = None, pw_ps = (\<lambda>s. None), pw_config = None, pw_env = [], pw_catalog = [],
         pw_emitted = (\<lambda>k. \<lparr>ex_code = 1, ex_out = [], ex_err = []\<rparr>), pw_dns = (\<lambda>k. None), pw_status = (\<lambda>k a. 200)\<rparr>,
      wd_login = (\<lambda>k. let r = \<lparr>hr_status = 200, hr_body = ''hello'', hr_cookies = []\<rparr> in \<lparr>lw_page = r, lw_login = r, lw_verify = r\<rparr>),
      wd_prepared = [], wd_open = Some ''0123456789'', wd_directory = True, wd_plan = Some [], wd_active = True, wd_browser = True,
      wd_now = 0, wd_close = True, wd_count = Some 7, wd_export = True,
      wd_after = (\<lambda>k. rw_command clean_reset), wd_findings = Some [], wd_score = Some 0\<rparr>"

definition shop_args :: orch_args where
  "shop_args =
     \<lparr>oa_profile = None, oa_skip_reset = False, oa_skip_prepare = False, oa_unverified = False, oa_role = ''user'', oa_timeout = 30,
      oa_preflight = \<lparr>po_check_dns = False, po_probe = True, po_allow_stale = False\<rparr>\<rparr>"

definition shop_readers :: readers where
  "shop_readers = \<lparr>rd_json = (\<lambda>s. None), rd_yaml = (\<lambda>s. None), rd_search = (\<lambda>p s. True), rd_format = (\<lambda>f t. t), rd_time = clock_reader\<rparr>"

definition shop_orchestrate :: "orch_world \<Rightarrow> (orch_step list \<times> orch_end) option" where
  "shop_orchestrate w =
     orchestrate shop_readers (small_scan None) shop_args \<lparr>ot_key = ''zap'', ot_profiles = [], ot_default = ''full''\<rparr> w [shop_app]
       \<lparr>bc_files = [], bc_override = [(''shop'', shop_login)], bc_emitted = [], bc_network = ''bench''\<rparr> []"


text \<open>The run is left open when its directory cannot be made.\<close>

lemma open_run_without_directory:
  "map_option (\<lambda>(steps, e). (list_ex opens_run steps, CloseStep \<in> set steps, e)) (shop_orchestrate (shop_run\<lparr>wd_directory := False\<rparr>))
     = Some (True, False, Crash)"
  by code_simp

section \<open>What is looser than it says\<close>

text \<open>A strict login with basic credentials and indicators, but no URL, is taken without anything having been looked at.\<close>

lemma basic_login_unverified:
  "snd (establish (\<lambda>s. None) (\<lambda>p s. False) (\<lambda>f t. t) (shop_login\<lparr>cr_verify_url := None, cr_logged_in := Some ''welcome''\<rparr>) True (wd_login shop_run ''shop''))
     = Inr \<lparr>se_app = ''shop'', se_cookies = [], se_headers = [(''Authorization'', ''Basic dTpw'')], se_token = None, se_verified = False\<rparr>"
  by code_simp

text \<open>A fraction of fewer than six digits swallows the offset: the time read has none, and Python does not compare it with one that has.\<close>

lemma short_fraction_loses_offset: "docker_time_text ''2024-05-01T10:00:00.5Z'' = ''2024-05-01T10:00:00.50000''"
  by code_simp

text \<open>Lines of English pass for digests.\<close>

lemma english_passes_for_digest: "extract_digest ''Application state restored'' = None"
  "extract_digest ''Initialisation complete'' = Some ''Initialisation complete''"
  by code_simp+

text \<open>A record of an earlier run that does not name an application hides the older ones that do.\<close>

lemma pin_hides_records:
  "reference_digests [shop_app\<lparr>as_expected := Some ''abc''\<rparr>, shop_app\<lparr>as_key := ''blog''\<rparr>]
     [[], [(''reset'', JList [JObj [(''app'', JStr ''blog''), (''state_digest'', JStr ''def'')]])]] = [(''shop'', ''abc'')]"
  by code_simp

end
