(* ===== verification/Tool_Facts.thy ===== *)
theory Tool_Facts
  imports Tool_Zap Tool_Skipfish Run_Facts
begin

text \<open>
  What the plans of the drivers depend on: not on the names by which the harness reaches a target, and the files and
  command lines of ZAP not on the credentials' values.
\<close>

section \<open>Names of the harness\<close>

text \<open>The run with other internal names of its applications, and with credentials that were resolved against other URLs.\<close>

record harness_urls =
  hu_internal :: "string option"
  hu_network :: string
  hu_login :: "string option"
  hu_page :: "string option"
  hu_verify :: "string option"

definition rename_app :: "(string \<Rightarrow> harness_urls) \<Rightarrow> app_spec \<Rightarrow> app_spec" where
  "rename_app f a = a\<lparr>as_internal_url := hu_internal (f (as_key a)), as_internal_network := hu_network (f (as_key a))\<rparr>"

definition readdressed :: "harness_urls \<Rightarrow> credentials \<Rightarrow> credentials" where
  "readdressed u c = c\<lparr>cr_login_url := hu_login u, cr_login_page_url := hu_page u, cr_verify_url := hu_verify u\<rparr>"

definition renamed :: "(string \<Rightarrow> harness_urls) \<Rightarrow> plan_context \<Rightarrow> plan_context" where
  "renamed f ctx = ctx\<lparr>pc_apps := map (rename_app f) (pc_apps ctx),
     pc_credentials := map (\<lambda>(k, c). (k, readdressed (f k) c)) (pc_credentials ctx)\<rparr>"

lemma renamed_simps [simp]:
  "pc_profile (renamed f ctx) = pc_profile ctx" "pc_budget (renamed f ctx) = pc_budget ctx"
  "pc_sessions (renamed f ctx) = pc_sessions ctx" "pc_options (renamed f ctx) = pc_options ctx"
  "pc_apps (renamed f ctx) = map (rename_app f) (pc_apps ctx)"
  by (simp_all add: renamed_def)

lemma rename_app_simps [simp]:
  "as_key (rename_app f a) = as_key a" "as_base_url (rename_app f a) = as_base_url a" "as_exclude (rename_app f a) = as_exclude a"
  "as_include (rename_app f a) = as_include a" "as_openapi (rename_app f a) = as_openapi a" "as_graphql (rename_app f a) = as_graphql a"
  by (simp_all add: rename_app_def)

lemma dict_get_keyed_map: "dict_get (map (\<lambda>(k, v). (k, f k v)) d) k = map_option (f k) (dict_get d k)"
  by (induction d) (auto simp: dict_get_def)

lemma find_map: "List.find P (map f xs) = map_option f (List.find (\<lambda>x. P (f x)) xs)"
  by (induction xs) auto

lemma find_in: "x \<in> set xs \<Longrightarrow> P x \<Longrightarrow> \<exists>y\<in>set xs. List.find P xs = Some y \<and> P y"
  by (induction xs) auto

lemma tool_creds_renamed:
  assumes "a \<in> set (pc_apps ctx)" and "list_all (\<lambda>a. as_base_url a \<noteq> []) (pc_apps ctx)"
    and "list_all (\<lambda>(k, c). truthy (cr_login_path c)) (pc_credentials ctx)"
  shows "tool_creds (renamed f ctx) (as_key a) = tool_creds ctx (as_key a)"
proof -
  obtain b where b: "b \<in> set (pc_apps ctx)" "List.find (\<lambda>b. as_key b = as_key a) (pc_apps ctx) = Some b"
    using find_in [OF assms(1), of "\<lambda>b. as_key b = as_key a"] by blast
  have base: "as_base_url b \<noteq> []" using assms(2) b(1) by (simp add: list_all_iff)
  have "truthy (cr_login_path c)" if "dict_get (pc_credentials ctx) k = Some c" for k c
    using dict_get_SomeD [OF that] assms(3) by (auto simp: list_all_iff)
  then show ?thesis
    using b(2) base
    by (cases "dict_get (pc_credentials ctx) (as_key a)")
       (simp_all add: tool_creds_def renamed_def dict_get_keyed_map find_map for_base_def readdressed_def)
qed

lemma share_renamed: "share_seconds (renamed f ctx) = share_seconds ctx"
  by (simp add: share_seconds_def)

lemma blank_renamed: "blank_invocation (rename_app f a) args artifacts = blank_invocation a args artifacts"
  by (simp add: blank_invocation_def)

lemma zap_parts_renamed:
  "auth_blocks fmt (rename_app f a) c = auth_blocks fmt a c" "zap_excludes (rename_app f a) creds = zap_excludes a creds"
  "import_jobs (rename_app f a) b = import_jobs a b" "crawl_jobs (rename_app f a) b m = crawl_jobs a b m"
  "active_jobs (rename_app f a) b m = active_jobs a b m" "report_job p (rename_app f a) r = report_job p a r"
  by (simp_all add: auth_blocks_def auth_method_def basic_parameters_def app_host_def zap_excludes_def import_jobs_def crawl_jobs_def
      active_jobs_def report_job_def)

lemma build_plan_renamed: "build_plan fmt p (rename_app f a) creds share r = build_plan fmt p a creds share r"
  by (cases creds) (simp_all add: build_plan_def zap_context_def zap_jobs_def zap_parts_renamed Let_def)


definition shop_plan :: plan_context where
  "shop_plan =
     \<lparr>pc_profile = ''full'', pc_apps = [shop_app], pc_budget = \<lparr>bu_wall = Some 3600, bu_max = None, bu_grace = 30, bu_poll = 5\<rparr>,
      pc_credentials = [(''shop'', shop_login\<lparr>cr_kind := ''form'', cr_login_path := Some ''/login''\<rparr>)], pc_sessions = [],
      pc_options = \<lparr>op_rate_limit = None, op_wordlist = None, op_modules = None, op_offline = False, op_skip_prepare = False, op_prepared = True\<rparr>\<rparr>"

definition inner_names :: "string \<Rightarrow> harness_urls" where
  "inner_names k =
     \<lparr>hu_internal = Some ''http://web01'', hu_network = ''inner'', hu_login = Some ''http://web01/login'', hu_page = None,
      hu_verify = Some ''http://web01/me''\<rparr>"


section \<open>Values of credentials\<close>

definition relogged :: "string \<times> string \<Rightarrow> credentials \<Rightarrow> credentials" where
  "relogged up c = c\<lparr>cr_username := fst up, cr_password := snd up\<rparr>"

lemma relogged_simps [simp]:
  "cr_kind (relogged up c) = cr_kind c" "cr_login_url (relogged up c) = cr_login_url c"
  "cr_login_page_url (relogged up c) = cr_login_page_url c" "cr_verify_url (relogged up c) = cr_verify_url c"
  "cr_logged_in (relogged up c) = cr_logged_in c" "cr_logged_out (relogged up c) = cr_logged_out c"
  "cr_session (relogged up c) = cr_session c" "cr_token_path (relogged up c) = cr_token_path c"
  "cr_header_name (relogged up c) = cr_header_name c" "cr_header_template (relogged up c) = cr_header_template c"
  "cr_logout_paths (relogged up c) = cr_logout_paths c" "cr_username_field (relogged up c) = cr_username_field c"
  "cr_password_field (relogged up c) = cr_password_field c" "cr_extra (relogged up c) = cr_extra c"
  "cr_username (relogged up c) = fst up" "cr_password (relogged up c) = snd up"
  by (simp_all add: relogged_def)

definition with_logins :: "(string \<Rightarrow> string \<times> string) \<Rightarrow> plan_context \<Rightarrow> plan_context" where
  "with_logins f ctx = ctx\<lparr>pc_credentials := map (\<lambda>(k, c). (k, relogged (f k) c)) (pc_credentials ctx)\<rparr>"

definition alike :: "'k set \<Rightarrow> ('k, 'v) dict \<Rightarrow> ('k, 'v) dict \<Rightarrow> bool" where
  "alike ks = list_all2 (\<lambda>p q. fst p = fst q \<and> (fst p \<in> ks \<or> snd p = snd q))"

lemma alike_set: "alike ks d e \<Longrightarrow> alike ks (dict_set k v d) (dict_set k v e)"
  unfolding alike_def by (induction rule: list_all2_induct) (auto simp: dict_set_def)

lemma alike_outside: "alike (insert k ks) d e \<Longrightarrow> k \<notin> fst ` set d \<Longrightarrow> alike ks d e"
  unfolding alike_def by (induction rule: list_all2_induct) auto

lemma alike_cleared:
  "alike (insert k ks) d e \<Longrightarrow> distinct (map fst d) \<Longrightarrow> alike ks (dict_set k v d) (dict_set k v e)"
proof (induction d arbitrary: e)
  case (Cons p d)
  obtain q e' where e: "e = q # e'" "fst p = fst q" "fst p \<in> insert k ks \<or> snd p = snd q" "alike (insert k ks) d e'"
    using Cons.prems(1) by (auto simp: alike_def list_all2_Cons1)
  show ?case
  proof (cases "fst p = k")
    case True
    then have "alike ks d e'" using alike_outside [OF e(4)] Cons.prems(2) by simp
    then show ?thesis using True e(2) by (cases p, cases q) (simp add: e(1) alike_def dict_set_def)
  next
    case False
    then have "alike ks (dict_set k v d) (dict_set k v e')" using Cons.IH [OF e(4)] Cons.prems(2) by simp
    then show ?thesis using False e(2,3) by (cases p, cases q) (simp add: e(1) alike_def dict_set_def)
  qed
qed (simp add: alike_def dict_set_def)

lemma alike_fold: "alike ks d e \<Longrightarrow> alike ks (foldl (\<lambda>d (k, v). dict_set k v d) d xs) (foldl (\<lambda>d (k, v). dict_set k v d) e xs)"
  by (induction xs arbitrary: d e) (auto simp: alike_set)

lemma alike_none: "alike {} d e \<Longrightarrow> d = e"
  unfolding alike_def by (induction rule: list_all2_induct) (auto simp: prod_eq_iff)

lemma fold_set_ok: "dict_ok d \<Longrightarrow> dict_ok (foldl (\<lambda>d (k, v). dict_set k v d) d xs)"
  by (induction xs arbitrary: d) auto

lemma placeholder_body_relogged: "placeholder_body (relogged up c) = placeholder_body c"
proof -
  let ?K = "{cr_username_field c, cr_password_field c}"
  have "alike ?K (dict_set (cr_password_field c) p [(cr_username_field c, u)]) (dict_set (cr_password_field c) p' [(cr_username_field c, u')])"
    for p p' u u'
    by (simp add: alike_def dict_set_def)
  then have "alike ?K (foldl (\<lambda>d (k, v). dict_set k v d) (dict_set (cr_password_field c) (snd up) [(cr_username_field c, fst up)]) (cr_extra c))
      (login_body c)"
    unfolding login_body_def by (intro alike_fold)
  then have body: "alike ?K (login_body (relogged up c)) (login_body c)" by (simp add: login_body_def)
  have ok: "dict_ok (login_body (relogged up c))"
    unfolding login_body_def by (rule fold_set_ok) (simp add: dict_ok_def dict_set_def)
  then have "distinct (map fst (login_body (relogged up c)))" by (simp add: dict_ok_def)
  with body have "alike {cr_password_field c} (dict_set (cr_username_field c) ''{%username%}'' (login_body (relogged up c)))
      (dict_set (cr_username_field c) ''{%username%}'' (login_body c))"
    by (rule alike_cleared)
  then have "alike {} (dict_set (cr_password_field c) ''{%password%}'' (dict_set (cr_username_field c) ''{%username%}'' (login_body (relogged up c))))
      (dict_set (cr_password_field c) ''{%password%}'' (dict_set (cr_username_field c) ''{%username%}'' (login_body c)))"
    using dict_ok_set [OF ok, of "cr_username_field c" "''{%username%}''"] unfolding dict_ok_def by (rule alike_cleared)
  from alike_none [OF this] show ?thesis by (simp add: placeholder_body_def)
qed

lemma auth_blocks_relogged: "auth_blocks fmt a (relogged up c) = auth_blocks fmt a c"
proof -
  have "auth_method a (relogged up c) = auth_method a c"
    unfolding auth_method_def login_parameters_def placeholder_body_relogged relogged_simps by (rule refl)
  then show ?thesis
    unfolding auth_blocks_def verification_block_def session_management_def relogged_simps by simp
qed

lemma build_plan_relogged:
  "build_plan fmt p a (map_option (relogged up) creds) share r = build_plan fmt p a creds share r"
proof -
  have "logout_regexes (relogged up c) = logout_regexes c" for c by (simp add: logout_regexes_def)
  then show ?thesis
    by (cases creds) (simp_all add: build_plan_def zap_context_def zap_excludes_def auth_blocks_relogged Let_def)
qed

lemma tool_creds_relogged: "tool_creds (with_logins f ctx) k = map_option (relogged (f k)) (tool_creds ctx k)"
proof -
  have "for_base b (relogged up c) = relogged up (for_base b c)" for b up c by (simp add: for_base_def relogged_def Let_def)
  then show ?thesis
    by (cases "dict_get (pc_credentials ctx) k") (auto simp: tool_creds_def with_logins_def dict_get_keyed_map split: option.split)
qed

text \<open>C37: No user name and no password reaches ZAP's plan file or its command line: with other logins the harness writes the same
  plans and starts the same containers, and only the two variables of the environment differ.\<close>

theorem zap_plan_secret_free:
  "map_option (map (\<lambda>(i, doc). (i\<lparr>iv_env := []\<rparr>, doc))) (zap_plan fmt (with_logins f ctx))
    = map_option (map (\<lambda>(i, doc). (i\<lparr>iv_env := []\<rparr>, doc))) (zap_plan fmt ctx)
   \<and> (\<forall>jobs. zap_plan fmt ctx = Some jobs \<longrightarrow>
        list_all2 (\<lambda>a (i, doc). iv_env i = (case tool_creds ctx (as_key a) of
            None \<Rightarrow> [] | Some c \<Rightarrow> [(''ZAP_USER'', cr_username c), (''ZAP_PASS'', cr_password c)])) (pc_apps ctx) jobs)"
proof -
  have fields: "pc_apps (with_logins f ctx) = pc_apps ctx" "pc_profile (with_logins f ctx) = pc_profile ctx"
    "share_seconds (with_logins f ctx) = share_seconds ctx"
    by (simp_all add: with_logins_def share_seconds_def)
  have one: "map_option (\<lambda>(i, doc). (i\<lparr>iv_env := []\<rparr>, doc)) (zap_invocation fmt (with_logins f ctx) a)
      = map_option (\<lambda>(i, doc). (i\<lparr>iv_env := []\<rparr>, doc)) (zap_invocation fmt ctx a)" for a
    by (simp add: zap_invocation_def fields tool_creds_relogged build_plan_relogged Let_def option.map_comp comp_def)
  have those_map: "map_option (map g) (those xs) = those (map (map_option g) xs)" for g :: "'x \<Rightarrow> 'y" and xs
  proof (induction xs)
    case (Cons x xs)
    then show ?case by (cases x) (simp_all add: option.map_comp comp_def flip: Cons.IH)
  qed simp
  have "iv_env i = (case tool_creds ctx (as_key a) of
      None \<Rightarrow> [] | Some c \<Rightarrow> [(''ZAP_USER'', cr_username c), (''ZAP_PASS'', cr_password c)])"
    if "zap_invocation fmt ctx a = Some (i, doc)" for a i doc
    using that by (auto simp: zap_invocation_def Let_def)
  then have "list_all2 (\<lambda>a (i, doc). iv_env i = (case tool_creds ctx (as_key a) of
      None \<Rightarrow> [] | Some c \<Rightarrow> [(''ZAP_USER'', cr_username c), (''ZAP_PASS'', cr_password c)])) apps jobs"
    if "those (map (zap_invocation fmt ctx) apps) = Some jobs" for apps jobs
    using that by (induction apps arbitrary: jobs) (auto split: option.splits)
  then show ?thesis using one by (auto simp: zap_plan_def fields those_map comp_def)
qed

lemma zap_plan_secret_free_witness:
  "\<exists>jobs. zap_plan (\<lambda>f t. t) shop_plan = Some jobs \<and> map (\<lambda>(i, doc). iv_env i) jobs = [[(''ZAP_USER'', ''u''), (''ZAP_PASS'', ''p'')]]"
proof -
  have "map_option cr_kind (tool_creds shop_plan ''shop'') = Some ''form''" "as_key shop_app = ''shop''" "pc_apps shop_plan = [shop_app]"
    by code_simp+
  then have "zap_plan (\<lambda>f t. t) shop_plan \<noteq> None"
    by (auto simp: zap_plan_def zap_invocation_def build_plan_def zap_context_def auth_blocks_def auth_method_def Let_def)
  then obtain jobs where jobs: "zap_plan (\<lambda>f t. t) shop_plan = Some jobs" by blast
  have "map_option (\<lambda>c. (cr_username c, cr_password c)) (tool_creds shop_plan ''shop'') = Some (''u'', ''p'')" "map as_key (pc_apps shop_plan) = [''shop'']"
    by code_simp+
  then show ?thesis
    using zap_plan_secret_free [of "\<lambda>f t. t" "\<lambda>k. (''v'', ''q'')" shop_plan] jobs
    by (auto simp: list_all2_Cons1 map_eq_Cons_conv)
qed

section \<open>What is looser than it says\<close>

text \<open>Basic credentials have no login path, so the URL they are verified at stays the one the harness resolved: the scanner is
  told an internal name that does not exist on its network.\<close>

lemma basic_keeps_internal_url:
  "map_option cr_verify_url
     (Option.bind
        (from_target_doc
           [(''login'', JObj [(''type'', JStr ''basic''), (''verify_url'', JStr ''/me'')]),
            (''users'', JList [JObj [(''role'', JStr ''user''), (''username'', JStr ''u''), (''password'', JStr ''p'')]])]
           ''user'' (Some ''http://web01'') ''shop'')
        (\<lambda>c. tool_creds (shop_plan\<lparr>pc_credentials := [(''shop'', c)]\<rparr>) ''shop''))
   = Some (Some ''http://web01/me'')"
  by code_simp

text \<open>Basic authentication is set up for port 80 whatever the scheme of the base URL is.\<close>

lemma basic_port_of_https:
  "basic_parameters (shop_app\<lparr>as_base_url := ''https://shop''\<rparr>)
     = Some [(''hostname'', JStr ''shop''), (''port'', JInt 80), (''realm'', JStr [])]"
  by code_simp

text \<open>Passwords that go through Base64 or through a shell's quotes are not found in the command line, and are published with it.\<close>

lemma encoded_password_published:
  "let s = \<lparr>se_app = ''shop'', se_cookies = [], se_headers = [(''Authorization'', ''Basic '' @ b64 (utf8_encode ''u:secret''))], se_token = None,
            se_verified = True\<rparr>;
       args = nuclei_auth (shop_plan\<lparr>pc_sessions := [(''shop'', s)]\<rparr>) shop_app
   in args = [''-header'', ''Authorization: Basic dTpzZWNyZXQ=''] \<and> redact [''secret''] args = args"
  by code_simp

lemma quoted_password_published: "redact [''it's''] [shell_quote ''u:it's''] = [shell_quote ''u:it's'']"
  by code_simp

section \<open>Waiting for others\<close>

lemma generic_wait_ends:
  assumes "bu_wall (bw_budget w) = Some s" and "0 < d" and "\<forall>k. bw_started w + of_nat k * d \<le> snd (snd (turns k))"
  shows "generic_wait turns w k \<noteq> None"
  using assms(1,3)
proof (induction "nat \<lceil>of_int s / d\<rceil> - k" arbitrary: k w rule: less_induct)
  case less
  obtain sentinel meter now where t: "turns k = (sentinel, meter, now)" by (cases "turns k")
  obtain reason w' where c: "watch_check (Some (safe_meter meter)) False now w = (reason, w')" by fastforce
  show ?case
  proof (cases "sentinel \<or> reason \<noteq> None")
    case True
    then show ?thesis using t c by (subst generic_wait.simps) auto
  next
    case False
    have kept: "bw_budget w' = bw_budget w" "bw_started w' = bw_started w" using watch_kept [of "Some (safe_meter meter)" False now w] c by simp_all
    have "elapsed w now < of_int s" using in_time [of "Some (safe_meter meter)" now w s] c False less.prems(1) by simp
    moreover have "of_nat k * d \<le> elapsed w now" using less.prems(2) t by (simp add: elapsed_def) (metis add.commute diff_add_cancel le_diff_eq snd_conv)
    ultimately have "of_nat k < of_int s / d" using assms(2) by (simp add: pos_less_divide_eq)
    then have "nat \<lceil>of_int s / d\<rceil> - (k + 1) < nat \<lceil>of_int s / d\<rceil> - k" by linarith
    from less.hyps [OF this] have "generic_wait turns w' (k + 1) \<noteq> None" using less.prems kept by simp
    then show ?thesis using t c False by (subst generic_wait.simps) simp
  qed
qed

end
