(* ===== verification/Report_Text.thy ===== *)
theory Report_Text
  imports Run_Budget Run_Config
begin

text \<open>
  \<open>benchctl/report.py\<close>, the part that both renderings share: labels, conditions, cells and the tables. A score document is a
  decoded object. Texts stand for their UTF-8 octets here, since the reports are written as UTF-8 and only put together; a
  digest is cut off after nineteen octets, which are nineteen characters for the digests docker prints.
\<close>

section \<open>Punctuation\<close>

definition DASH :: string where "DASH = [CHR 0xE2, CHR 0x80, CHR 0x94]"

definition DOT :: string where "DOT = [CHR 0xC2, CHR 0xB7]"

definition ARROW :: string where "ARROW = [CHR 0xE2, CHR 0x86, CHR 0x92]"

definition TIMES :: string where "TIMES = [CHR 0xC3, CHR 0x97]"

definition NL :: string where "NL = [CHR 0x0A]"

section \<open>Runs\<close>

definition PASSIVE_MODES :: "string list" where
  "PASSIVE_MODES = [''passive'', ''baseline'', ''spider'', ''crawl'']"

definition run_of :: "obj \<Rightarrow> obj" where
  "run_of doc = obj_of (jget doc ''run'')"

definition mode_of :: "obj \<Rightarrow> obj" where
  "mode_of doc = obj_of (jget (run_of doc) ''scan_mode'')"

definition tool_name :: "obj \<Rightarrow> string" where
  "tool_name doc =
     (let run = run_of doc; tool = str_or (some_text (jget run ''tool'')) ''unknown'';
          label = (if jtruthy (jget run ''tool_version'') then tool @ '' '' @ jstr (jget run ''tool_version'') else tool)
      in if jtruthy (jget run ''profile'') \<and> jget run ''profile'' \<noteq> JStr ''default''
         then label @ '' ('' @ jstr (jget run ''profile'') @ '')'' else label)"

definition scan_mode_label :: "obj \<Rightarrow> string" where
  "scan_mode_label doc =
     (let mode = mode_of doc
      in if jtruthy (jget mode ''mode'') then jstr (jget mode ''mode'') else if jtruthy (jget mode ''active'') then ''active'' else DASH)"

definition is_passive :: "obj \<Rightarrow> bool" where
  "is_passive doc =
     (let mode = mode_of doc
      in jget mode ''active'' = JBool False \<or> lower (str_or (some_text (jget mode ''mode'')) []) \<in> set PASSIVE_MODES)"

text \<open>A number with commas between groups of three digits.\<close>

fun grouped :: "string \<Rightarrow> string" where
  "grouped (a # b # c # d # s) = a # b # c # CHR '','' # grouped (d # s)"
| "grouped s = s"

definition with_commas :: "json \<Rightarrow> string" where
  "with_commas v =
     (case v of JInt n \<Rightarrow> (if n < 0 then ''-'' else []) @ rev (grouped (rev (int_text \<bar>n\<bar>))) | _ \<Rightarrow> jstr v)"

definition passive_line :: "obj \<Rightarrow> string" where
  "passive_line doc =
     ''PASSIVE RUN ('' @ scan_mode_label doc @ '')''
     @ (if jtruthy (jget (mode_of doc) ''reason'') then '' '' @ DASH @ '' '' @ jstr (jget (mode_of doc) ''reason'') else [])
     @ ''. The tool was never permitted to attack, so its trigger recall is structurally zero and its exercise recall is ''
     @ ''bounded by whatever the crawler submitted. Not comparable with an active run.''"

definition mode_line :: "obj \<Rightarrow> string" where
  "mode_line doc =
     (let reason = jget (mode_of doc) ''reason''
      in if is_passive doc then passive_line doc
         else if jtruthy (jget (mode_of doc) ''active'')
         then ''Active run'' @ (if jtruthy reason then '' ('' @ jstr reason @ '')'' else []) @ ''.''
         else ''Scan mode not recorded for this run: whether the tool was permitted to attack is unknown, so a trigger recall ''
              @ ''of 0% here may mean it never tried.'')"

definition request_lines :: "obj \<Rightarrow> string list" where
  "request_lines doc =
     (let requests = obj_of (jget (run_of doc) ''requests'')
      in if jtruthy (jget requests ''total'')
         then [with_commas (jget requests ''total'') @ '' requests observed''
               @ (if jtruthy (jget requests ''counted_by'') then '' '' @ DASH @ '' '' @ jstr (jget requests ''counted_by'') else [])]
         else [])"

text \<open>\<open>_conditions\<close>: tool, mode and lines of every run; there is always a line on the mode.\<close>

definition conditions :: "obj list \<Rightarrow> (string \<times> string \<times> string list) list" where
  "conditions docs =
     map (\<lambda>doc. (tool_name doc, scan_mode_label doc,
       mode_line doc # map jstr (jiter (jget (run_of doc) ''caveats'')) @ request_lines doc)) docs"

section \<open>Cells\<close>

text \<open>A number without decimals, ties to even, and a share as a percentage.\<close>

definition whole :: "rat \<Rightarrow> string" where
  "whole q = (if q < 0 then CHR ''-'' # int_text (round_even (- q)) else int_text (round_even q))"

definition percent :: "rat \<Rightarrow> string" where
  "percent r = whole (fl (fl r * 100)) @ ''%''"

record measure =
  me_recall :: "rat option"
  me_hit :: int
  me_applicable :: int

definition measure_of :: "json \<Rightarrow> string \<Rightarrow> measure" where
  "measure_of metric axis =
     (let block = obj_of (jget (obj_of metric) axis)
      in \<lparr>me_recall = num_field block ''recall'', me_hit = get_or (int_field block ''hit'') 0,
          me_applicable = get_or (int_field block ''applicable'') 0\<rparr>)"

definition hits_over :: "string \<Rightarrow> string \<Rightarrow> string" where
  "hits_over a b = '' ('' @ a @ ''/'' @ b @ '')''"

definition fmt_metric :: "json \<Rightarrow> string \<Rightarrow> string" where
  "fmt_metric metric axis =
     (let m = measure_of metric axis
      in case me_recall m of
           None \<Rightarrow> DASH
         | Some r \<Rightarrow> if me_applicable m = 0 then DASH else percent r @ hits_over (int_text (me_hit m)) (int_text (me_applicable m)))"

definition short_metric :: "json \<Rightarrow> string \<Rightarrow> string" where
  "short_metric metric axis =
     (let m = measure_of metric axis
      in case me_recall m of None \<Rightarrow> DASH | Some r \<Rightarrow> if me_applicable m = 0 then DASH else percent r)"

definition fmt_triplet :: "json \<Rightarrow> string" where
  "fmt_triplet metric =
     ''R '' @ short_metric metric ''reach'' @ '' '' @ DOT @ '' E '' @ short_metric metric ''exercise'' @ '' '' @ DOT @ '' T ''
     @ short_metric metric ''trigger''
     @ (let proven = me_hit (measure_of metric ''trigger''); any = me_hit (measure_of metric ''trigger_any'')
        in if proven < any then '' (+'' @ int_text (any - proven) @ '' weak)'' else [])"

definition fmt_coverage :: "json \<Rightarrow> string" where
  "fmt_coverage block =
     (let b = obj_of block
      in if \<not> jtruthy (jget b ''routes'') then DASH
         else case num_field b ''coverage'' of
           None \<Rightarrow> DASH | Some r \<Rightarrow> percent r @ hits_over (jstr (jget b ''covered'')) (jstr (jget b ''routes'')))"

section \<open>Walking documents\<close>

fun node :: "json \<Rightarrow> string list \<Rightarrow> json" where
  "node v [] = v"
| "node v (p # ps) = (case v of JObj d \<Rightarrow> node (jget d p) ps | _ \<Rightarrow> JNull)"

definition sorted_texts :: "string list \<Rightarrow> string list" where
  "sorted_texts xs = sort_key (\<lambda>x. x) (remdups xs)"

definition union_keys :: "obj list \<Rightarrow> string list \<Rightarrow> string list" where
  "union_keys docs path = sorted_texts (concat (map (\<lambda>doc. map fst (obj_of (node (JObj doc) path))) docs))"

definition labels_of :: "obj list \<Rightarrow> string \<Rightarrow> (string, string) dict" where
  "labels_of docs edition =
     foldl (\<lambda>d doc. foldl (\<lambda>d (k, v). dict_set k (jstr v) d) d (obj_of (node (JObj doc) [''legend'', ''owasp'', edition]))) [] docs"

definition metric_at :: "obj \<Rightarrow> string list \<Rightarrow> string \<Rightarrow> json" where
  "metric_at doc path k = jget (obj_of (node (JObj doc) (''metrics'' # path))) k"

section \<open>Tables\<close>

type_synonym table = "string list \<times> string list list"

definition percent_or_dash :: "obj \<Rightarrow> string \<Rightarrow> string" where
  "percent_or_dash d k = (case num_field d k of None \<Rightarrow> DASH | Some r \<Rightarrow> percent r)"

definition summary_row :: "obj \<Rightarrow> string list" where
  "summary_row doc =
     (let overall = obj_of (node (JObj doc) [''metrics'', ''overall'']); crawl = obj_of (node (JObj doc) [''metrics'', ''crawl'']);
          f = obj_of (jget doc ''findings'');
          scope = map jstr (jiter (jor (node (JObj doc) [''scope'', ''apps'']) (jget (run_of doc) ''targets'')))
      in [tool_name doc, scan_mode_label doc, if scope = [] then DASH else join '', '' scope,
          text_or (obj_of (jget doc ''catalog'')) ''vulns_in_scope'' (text_or overall ''vulns'' ''0''),
          fmt_metric (JObj overall) ''reach'', fmt_metric (JObj overall) ''exercise'', fmt_metric (JObj overall) ''trigger'',
          fmt_metric (JObj overall) ''trigger_any'', fmt_coverage (jget crawl ''surface''), percent_or_dash f ''precision_confirmed'',
          if f = [] then DASH else text_or f ''false_positives_confirmed'' ''0'', if f = [] then DASH else text_or f ''out_of_catalog'' ''0''])"

definition summary_rows :: "obj list \<Rightarrow> table" where
  "summary_rows docs =
     ([''tool'', ''mode'', ''scope'', ''vulns'', ''reach'', ''exercise'', ''trigger'', ''trigger +weak oob'', ''surface crawl'',
       ''precision (confirmed)'', ''FP confirmed'', ''outside corpus''], map summary_row docs)"

text \<open>One column for each key of a group: the OWASP, family and axis tables.\<close>

definition group_rows :: "obj list \<Rightarrow> string list \<Rightarrow> (json \<Rightarrow> string) \<Rightarrow> table" where
  "group_rows docs path show =
     (let keys = union_keys docs (''metrics'' # path)
      in (''tool'' # keys, map (\<lambda>doc. tool_name doc # map (\<lambda>k. show (metric_at doc path k)) keys) docs))"

definition owasp_rows :: "obj list \<Rightarrow> string \<Rightarrow> table" where
  "owasp_rows docs edition = group_rows docs [''by_owasp'', edition] (\<lambda>m. fmt_metric m ''trigger'')"

definition family_rows :: "obj list \<Rightarrow> table" where
  "family_rows docs = group_rows docs [''by_family''] fmt_triplet"

definition axis_rows :: "obj list \<Rightarrow> string \<Rightarrow> string \<Rightarrow> table" where
  "axis_rows docs axis_key axis = group_rows docs [axis_key] (\<lambda>m. fmt_metric m axis)"

definition render_cell :: "json \<Rightarrow> string" where
  "render_cell metric =
     (let m = measure_of metric ''reach''
      in case me_recall m of
           None \<Rightarrow> DASH
         | Some r \<Rightarrow>
             if me_applicable m = 0 then DASH
             else ''reach '' @ percent r @ '' '' @ ARROW @ '' trig ''
                  @ (case me_recall (measure_of metric ''trigger'') of None \<Rightarrow> DASH | Some t \<Rightarrow> percent t))"

definition spa_delta :: "obj \<Rightarrow> string" where
  "spa_delta cells =
     (let static = measure_of (jget cells ''static-html'') ''reach'';
          spa = filter (\<lambda>m. me_recall m \<noteq> None \<and> me_applicable m \<noteq> 0)
            (map (\<lambda>(k, v). measure_of v ''reach'') (filter (\<lambda>(k, v). startswith k ''spa-'') cells))
      in case me_recall static of
           None \<Rightarrow> DASH
         | Some r \<Rightarrow>
             if me_applicable static = 0 \<or> spa = [] then DASH
             else CHR ''-'' # whole (fl (fl (fl r - fl (of_int (sum_list (map me_hit spa)) / of_int (sum_list (map me_applicable spa)))) * 100))
                  @ '' pts'')"

definition render_rows :: "obj list \<Rightarrow> table" where
  "render_rows docs =
     (let modes = union_keys docs [''metrics'', ''by_render'']
      in (''tool'' # modes @ [''static'' @ ARROW @ ''SPA reach delta''],
          map (\<lambda>doc. tool_name doc # map (\<lambda>m. render_cell (metric_at doc [''by_render''] m)) modes
                 @ [spa_delta (obj_of (node (JObj doc) [''metrics'', ''by_render'']))]) docs))"

definition counted_recall :: "obj \<Rightarrow> string" where
  "counted_recall block =
     (case num_field block ''recall'' of
        None \<Rightarrow> DASH | Some r \<Rightarrow> percent r @ hits_over (text_or block ''hit'' ''0'') (text_or block ''applicable'' ''0''))"

definition crawl_rows :: "obj list \<Rightarrow> table" where
  "crawl_rows docs =
     (let modes = union_keys docs [''metrics'', ''crawl'', ''by_render'']
      in ([''tool'', ''whole surface'', ''planted routes'', ''safe routes''] @ map (\<lambda>m. ''surface: '' @ m) modes @ [''planted-vuln reach''],
          map (\<lambda>doc. let crawl = obj_of (node (JObj doc) [''metrics'', ''crawl''])
            in [tool_name doc, fmt_coverage (jget crawl ''surface''), fmt_coverage (jget crawl ''planted_routes''),
                fmt_coverage (jget crawl ''safe_routes'')]
               @ map (\<lambda>m. fmt_coverage (jget (obj_of (jget crawl ''by_render'')) m)) modes
               @ [counted_recall (obj_of (jget crawl ''planted_vuln_reach''))]) docs))"

definition weak_of :: "obj \<Rightarrow> obj" where
  "weak_of doc = obj_of (jget doc ''low_confidence_triggers'')"

definition weak_rows :: "obj list \<Rightarrow> table" where
  "weak_rows docs =
     ([''tool'', ''headline trigger'', ''incl. weak attribution'', ''credited only weakly'', ''unattributed callbacks''],
      map (\<lambda>doc. let low = weak_of doc; only = join '', '' (map jstr (jiter (jget low ''credited_only_here'')))
        in [tool_name doc, counted_recall (obj_of (jget low ''headline_trigger'')), counted_recall (obj_of (jget low ''inclusive_trigger'')),
            if only = [] then DASH else only, int_text (int (length (jiter (jget low ''unattributed_callbacks''))))]) docs)"

definition reset_text :: "obj \<Rightarrow> string" where
  "reset_text run =
     (let resets = obj_of (jget run ''reset_digests'')
      in if jget run ''reset_consistent'' = JNull then DASH
         else if jtruthy (jget run ''reset_consistent'') then ''clean ('' @ int_text (int (length resets)) @ '')''
         else ''DIRTY: '' @ join '', '' (sort_key (\<lambda>x. x)
                (map fst (filter (\<lambda>(a, r). jget (obj_of r) ''match'' = JBool False) resets))))"

definition provenance_rows :: "obj list \<Rightarrow> table" where
  "provenance_rows docs =
     ([''tool'', ''run'', ''images'', ''state reset'', ''container map''],
      map (\<lambda>doc. let run = run_of doc;
            images = join '', '' (map (\<lambda>(app, digest). app @ ''@'' @ take 19 (jstr digest)) (sort_key fst (obj_of (jget run ''images''))))
        in [tool_name doc, str_or (some_text (jget run ''run_id'')) DASH, if images = [] then DASH else images, reset_text run,
            if jtruthy (jget run ''container_map_available'') then ''yes'' else ''no'']) docs)"

section \<open>Sections\<close>

definition has_provenance :: "obj list \<Rightarrow> bool" where
  "has_provenance docs =
     list_ex (\<lambda>doc. list_ex (\<lambda>k. jtruthy (jget (run_of doc) k)) [''images'', ''reset_digests'', ''container_map_available'']) docs"

definition has_crawl :: "obj list \<Rightarrow> bool" where
  "has_crawl docs = list_ex (\<lambda>doc. jtruthy (node (JObj doc) [''metrics'', ''crawl'', ''inventory_available''])) docs"

definition has_weak :: "obj list \<Rightarrow> bool" where
  "has_weak docs = list_ex (\<lambda>doc. jtruthy (jget (weak_of doc) ''count'') \<or> jtruthy (jget (weak_of doc) ''unattributed_callbacks'')) docs"

text \<open>A section: heading, legend (empty when there is none) and table.\<close>

type_synonym report_section = "string \<times> string \<times> table"

definition owasp_section :: "obj list \<Rightarrow> string \<Rightarrow> report_section" where
  "owasp_section docs edition =
     (let labels = labels_of docs edition
      in (''OWASP Top 10 '' @ edition @ '' '' @ DASH @ '' trigger recall'',
          join ''; '' (map (\<lambda>c. c @ ''='' @ str_or (dict_get labels c) []) (sort_key (\<lambda>x. x) (map fst labels))), owasp_rows docs edition))"

definition collapsed_rows :: "obj list \<Rightarrow> int" where
  "collapsed_rows docs =
     Max (set (map (\<lambda>doc. case node (JObj doc) [''metrics'', ''crawl'', ''rows_sharing_a_route_across_hosts''] of JInt n \<Rightarrow> n | _ \<Rightarrow> 0) docs))"

definition crawl_note :: "obj list \<Rightarrow> string" where
  "crawl_note docs =
     ''Planted-only reach counts just the pages we made attractive; surface coverage counts every route the target declares, ''
     @ ''safe ones included. Both are shown; neither replaces the other.''
     @ (if collapsed_rows docs \<noteq> 0
           \<and> list_ex (\<lambda>doc. node (JObj doc) [''metrics'', ''crawl'', ''host_resolution''] = JStr ''collapsed'') docs
        then '' Requests carry no virtual host, and '' @ int_text (collapsed_rows docs) @ '' inventory rows share a route across ''
             @ ''hosts, so surface coverage is an upper bound for them.''
        else [])"

definition sections :: "obj list \<Rightarrow> report_section list" where
  "sections docs =
     [(''Overall'', [], summary_rows docs)]
     @ map (owasp_section docs) (union_keys docs [''metrics'', ''by_owasp''])
     @ [(''By family '' @ DASH @ '' reach / exercise / trigger'', [], family_rows docs),
        (''By rendering mode '' @ DASH @ '' where SPA crawling collapses'', [], render_rows docs)]
     @ (if has_crawl docs then [(''Crawl coverage '' @ DASH @ '' whole published surface'', crawl_note docs, crawl_rows docs)] else [])
     @ (if has_weak docs
        then [(''Out-of-band attribution strength'',
               ''Callbacks the sinkhole could only tie to a vulnerability by container and time window are counted here and ''
               @ ''excluded from the headline trigger recall.'', weak_rows docs)] else [])
     @ [(''By severity '' @ DASH @ '' trigger recall'', [], axis_rows docs ''by_severity'' ''trigger''),
        (''By required credentials '' @ DASH @ '' trigger recall'', [], axis_rows docs ''by_auth'' ''trigger''),
        (''By discovery difficulty '' @ DASH @ '' reach recall'', [], axis_rows docs ''by_difficulty'' ''reach''),
        (''By required capability '' @ DASH @ '' reach recall'', [], axis_rows docs ''by_requires'' ''reach'')]
     @ (if has_provenance docs
        then [(''Run provenance'',
               ''The image digest actually running and the seeded-state digest read before and after the run. A run whose ''
               @ ''state reset is DIRTY did not come back to its seeded state, so the next run measured a different application.'',
               provenance_rows docs)] else [])"

text \<open>The table of precisions, without the columns of shares, of which the page marks those it draws no bar for.\<close>

definition finding_docs :: "obj list \<Rightarrow> obj list" where
  "finding_docs docs = filter (\<lambda>doc. jtruthy (jget doc ''findings'')) docs"

definition PRECISION_HEADER :: "string list" where
  "PRECISION_HEADER =
     [''tool'', ''findings'', ''TP'', ''FP confirmed'', ''FP unconfirmable'', ''outside corpus'', ''dup'', ''ambiguous'', ''precision (confirmed)'',
      ''precision (all)'', ''conservative'']"

definition precision_row :: "string \<Rightarrow> obj \<Rightarrow> string list" where
  "precision_row mark doc =
     (let f = obj_of (jget doc ''findings'')
      in tool_name doc # map (\<lambda>k. text_or f k ''0'')
           [''total'', ''true_positives'', ''false_positives_confirmed'', ''false_positives_unknown_route'', ''out_of_catalog'', ''duplicates'', ''ambiguous'']
         @ map (\<lambda>k. case num_field f k of None \<Rightarrow> DASH | Some r \<Rightarrow> percent r @ mark) [''precision_confirmed'', ''precision'', ''precision_conservative''])"

definition warnings_of :: "obj list \<Rightarrow> (string \<times> obj) list" where
  "warnings_of docs = concat (map (\<lambda>doc. map (\<lambda>w. (tool_name doc, w)) (objects (jget doc ''warnings''))) docs)"

end
