(* ===== verification/Report_Page.thy ===== *)
theory Report_Page
  imports Report_Text
begin

text \<open>
  \<open>benchctl/report.py\<close>, the two renderings: the Markdown of the comparison tables and the self-contained HTML page. What
  \<open>float\<close> reads in the text of a cell is a parameter (an infinity or a NaN, which the bar clamps to its full width or to
  nothing, is given as a number beyond it); the style sheet is an argument.
\<close>

section \<open>Markdown\<close>

definition unlines :: "string list \<Rightarrow> string" where
  "unlines ls = join NL ls"

definition md_line :: "string list \<Rightarrow> string" where
  "md_line cells = ''| '' @ join '' | '' cells @ '' |''"

definition md_table :: "table \<Rightarrow> string" where
  "md_table t = unlines (md_line (fst t) # (CHR ''|'' # join ''|'' (map (\<lambda>_. ''---'') (fst t)) @ ''|'') # map md_line (snd t))"

definition md_conditions :: "obj list \<Rightarrow> string list" where
  "md_conditions docs =
     concat (map (\<lambda>(tool, mode, ls). (''> **'' @ tool @ '' '' @ DASH @ '' '' @ mode @ '' run**'') # map (\<lambda>l. ''>  '' @ DOT @ '' '' @ l) ls @ [[]])
       (conditions docs))"

definition md_section :: "report_section \<Rightarrow> string list" where
  "md_section s =
     (case s of (head, legend, t) \<Rightarrow>
        [''## '' @ head] @ (if legend = [] then [] else [''<sub>'' @ legend @ ''</sub>'']) @ [[], md_table t, []])"

definition md_precision :: "obj list \<Rightarrow> string list" where
  "md_precision docs =
     (if finding_docs docs = [] then []
      else [''## Precision'',
        ''<sub>The headline is `precision (confirmed)`: its denominator counts only false positives the route inventory contradicts. ''
        @ ''`FP unconfirmable` sits on paths we never declared, or that only a catch-all pattern row matched '' @ DASH
        @ '' our gap, not the tool's error '' @ DASH @ '' and is counted separately in `precision (all)`. `outside corpus` are real ''
        @ ''findings for classes this corpus does not plant (a missing CSP header, say): unscoreable, not wrong, and excluded from ''
        @ ''every denominator. `conservative` additionally counts right-place-wrong-class findings against the tool.</sub>'',
        [], md_table (PRECISION_HEADER, map (precision_row []) (finding_docs docs)), []]
        @ concat (map (\<lambda>doc. let by_cwe = obj_of (jget (obj_of (jget doc ''findings'')) ''out_of_catalog_by_cwe'')
            in if by_cwe = [] then []
               else [''<sub>'' @ tool_name doc @ '' '' @ DASH @ '' outside the corpus: ''
                     @ join ''; '' (map (\<lambda>(cwe, v). ''CWE-'' @ cwe @ '' '' @ TIMES @ jstr (jget (obj_of v) ''count'') @ '' (''
                         @ jstr (jget (obj_of v) ''reason'') @ '')'') by_cwe) @ ''</sub>'', []]) docs))"

definition md_warnings :: "obj list \<Rightarrow> string list" where
  "md_warnings docs =
     (if warnings_of docs = [] then []
      else [''## Instrumentation warnings'', [],
        md_table ([''tool'', ''code'', ''vuln'', ''message''],
          map (\<lambda>(tool, w). [tool, text_or w ''code'' [], str_or (some_text (jget w ''vuln_id'')) [], text_or w ''message'' []]) (warnings_of docs)),
        []])"

definition catalog_digests :: "string \<Rightarrow> obj list \<Rightarrow> string" where
  "catalog_digests missing docs =
     join '', '' (sorted_texts (map (\<lambda>doc. let d = node (JObj doc) [''catalog'', ''digest''] in if jtruthy d then jstr d else missing) docs))"

definition md_head :: "obj list \<Rightarrow> string list" where
  "md_head docs =
     [''# ptaas-bench results'', [],
      ''Catalog digest: '' @ catalog_digests ''?'' docs @ '' '' @ DOT @ '' '' @ int_text (int (length docs)) @ '' run(s) '' @ DOT
      @ '' cells are `recall% (hit/applicable)`, `'' @ DASH @ ''` means no planted vulnerability in that bucket.'', []]"

text \<open>The report: its last line ends a table, so that taking white space off the end takes off line ends only.\<close>

definition markdown_report :: "obj list \<Rightarrow> string" where
  "markdown_report docs =
     rstrip_where (\<lambda>c. c = CHR 0x0A)
       (unlines (md_head docs @ md_conditions docs @ concat (map md_section (sections docs)) @ md_precision docs @ md_warnings docs)) @ NL"

section \<open>HTML\<close>

definition html_char :: "char \<Rightarrow> string" where
  "html_char c =
     (if c = CHR ''&'' then ''&amp;'' else if c = CHR ''<'' then ''&lt;'' else if c = CHR ''>'' then ''&gt;''
      else if c = CHR 0x22 then ''&quot;'' else if c = CHR 0x27 then ''&#x27;'' else [c])"

definition html_escape :: "string \<Rightarrow> string" where
  "html_escape s = concat (map html_char s)"

text \<open>A cell, with a bar when its text starts with a percentage.\<close>

definition bar_width :: "(string \<Rightarrow> rat option) \<Rightarrow> string \<Rightarrow> rat option" where
  "bar_width read text = (if endswith text '')'' \<and> CHR ''%'' \<in> set text then read (before (CHR ''%'') text) else None)"

definition html_cell :: "(string \<Rightarrow> rat option) \<Rightarrow> string \<Rightarrow> string" where
  \<open>html_cell read text =
     (if text = DASH then ''<td class="na">'' @ DASH @ ''</td>''
      else case bar_width read text of
        None \<Rightarrow> ''<td>'' @ html_escape text @ ''</td>''
      | Some pct \<Rightarrow>
          ''<td><span class="bar"><i style="width:'' @ whole (max 0 (min 100 pct)) @ ''%"></i><span>'' @ html_escape text @ ''</span></span></td>'')\<close>

definition html_row :: "(string \<Rightarrow> rat option) \<Rightarrow> string list \<Rightarrow> string" where
  \<open>html_row read row =
     ''<tr><td class="tool">'' @ html_escape (hd row) @ ''</td>'' @ concat (map (html_cell read) (tl row)) @ ''</tr>''\<close>

definition html_table :: "(string \<Rightarrow> rat option) \<Rightarrow> table \<Rightarrow> string" where
  \<open>html_table read t =
     ''<div class="wrap"><table><thead><tr>'' @ concat (map (\<lambda>h. ''<th>'' @ html_escape h @ ''</th>'') (fst t)) @ ''</tr></thead><tbody>''
     @ concat (map (html_row read) (snd t)) @ ''</tbody></table></div>''\<close>

definition html_heading :: "string \<Rightarrow> string" where
  "html_heading s = ''<h2>'' @ s @ ''</h2>''"

definition html_legend :: "string \<Rightarrow> string" where
  \<open>html_legend s = ''<p class="legend">'' @ s @ ''</p>''\<close>

definition html_condition :: "string \<times> string \<times> string list \<Rightarrow> string" where
  \<open>html_condition c =
     (case c of (tool, mode, ls) \<Rightarrow>
        (if mode \<in> set PASSIVE_MODES then ''<div class="note passive">'' else ''<div class="note">'')
        @ ''<strong>'' @ html_escape tool @ '' '' @ DASH @ '' '' @ html_escape mode @ '' run</strong><ul>''
        @ concat (map (\<lambda>l. ''<li>'' @ html_escape l @ ''</li>'') ls) @ ''</ul></div>'')\<close>

definition html_section :: "(string \<Rightarrow> rat option) \<Rightarrow> report_section \<Rightarrow> string" where
  "html_section read s =
     (case s of (head, legend, t) \<Rightarrow>
        html_heading (html_escape head) @ (if legend = [] then [] else html_legend (html_escape legend)) @ html_table read t)"

definition finding_row :: "string list \<Rightarrow> obj \<Rightarrow> string list" where
  "finding_row keys r =
     map (\<lambda>k. if k = ''cwe'' then join '','' (map jstr (jiter (jget r ''cwe'')))
              else str_or (some_text (jget r k)) (if k = ''fp_basis'' then DASH else [])) keys"

definition outside_table :: "json \<Rightarrow> table" where
  "outside_table rs =
     ([''method'', ''url'', ''cwe'', ''name'', ''reason''], map (finding_row [''method'', ''url'', ''cwe'', ''name'', ''reason'']) (objects rs))"

definition false_positive_table :: "json \<Rightarrow> table" where
  "false_positive_table rs =
     ([''method'', ''url'', ''param'', ''cwe'', ''name'', ''basis'', ''reason''],
      map (finding_row [''method'', ''url'', ''param'', ''cwe'', ''name'', ''fp_basis'', ''reason'']) (objects rs))"

definition html_findings :: "(string \<Rightarrow> rat option) \<Rightarrow> obj \<Rightarrow> string" where
  "html_findings read doc =
     (let f = obj_of (jget doc ''findings''); outside = jget f ''out_of_catalog_list''; fps = jget f ''false_positive_list''
      in (if jtruthy outside
          then html_heading (''Outside the corpus '' @ DASH @ '' '' @ html_escape (tool_name doc))
               @ html_legend (''Real findings for classes this benchmark does not plant. Listed so a reader can check that judgement, ''
                   @ ''and counted against nobody.'')
               @ html_table read (outside_table outside)
          else [])
         @ (if jtruthy fps
            then html_heading (''False positives '' @ DASH @ '' '' @ html_escape (tool_name doc)) @ html_table read (false_positive_table fps)
            else []))"

definition html_precision :: "(string \<Rightarrow> rat option) \<Rightarrow> obj list \<Rightarrow> string" where
  "html_precision read docs =
     (if finding_docs docs = [] then []
      else html_heading ''Precision''
        @ html_legend (''The headline is <code>precision (confirmed)</code>: only false positives the route inventory contradicts are in ''
            @ ''its denominator. Findings on paths the target serves but never declared are our gap, not the tool's error, and are ''
            @ ''counted separately. <code>outside corpus</code> findings are real findings for classes this corpus does not plant ''
            @ DASH @ '' unscoreable, not wrong '' @ DASH @ '' and are excluded from every denominator.'')
        @ html_table read (PRECISION_HEADER, map (precision_row ('' ('' @ DASH @ '')'')) (finding_docs docs))
        @ concat (map (html_findings read) docs))"

definition html_warnings :: "obj list \<Rightarrow> string" where
  \<open>html_warnings docs =
     (if warnings_of docs = [] then []
      else html_heading ''Instrumentation warnings''
        @ html_legend (''These are platform problems, not tool problems: they mean an SDK under-reported something we had to ''
            @ ''compensate for.'')
        @ ''<ul class="warnings">''
        @ concat (map (\<lambda>(tool, w).
            ''<li><span class="pill">'' @ html_escape tool @ ''</span> <span class="warn">'' @ html_escape (jstr (jget w ''code'')) @ ''</span> ''
            @ html_escape (str_or (some_text (jget w ''vuln_id'')) []) @ '' '' @ DASH @ '' '' @ html_escape (jstr (jget w ''message'')) @ ''</li>'')
            (warnings_of docs))
        @ ''</ul>'')\<close>

definition html_head :: "obj list \<Rightarrow> string" where
  \<open>html_head docs =
     ''<h1>ptaas-bench results</h1><p class="sub">'' @ int_text (int (length docs)) @ '' run(s) '' @ DOT @ '' catalog digest ''
     @ html_escape (join '', '' (sorted_texts (map (\<lambda>doc. jstr (node (JObj doc) [''catalog'', ''digest''])) docs))) @ '' '' @ DOT @ '' generated ''
     @ html_escape (join '', '' (sorted_texts (map (\<lambda>doc. jstr (jget doc ''generated_at'')) docs))) @ '' '' @ DOT
     @ '' cells show <code>recall% (hit/applicable)</code>; <span class="na">'' @ DASH
     @ ''</span> means no planted vulnerability in that bucket.</p>''\<close>

definition html_report :: "string \<Rightarrow> (string \<Rightarrow> rat option) \<Rightarrow> obj list \<Rightarrow> string" where
  \<open>html_report css read docs =
     ''<!doctype html>'' @ NL @ ''<html lang="en"><head><meta charset="utf-8">''
     @ ''<meta name="viewport" content="width=device-width, initial-scale=1"><title>ptaas-bench results</title><style>'' @ css
     @ ''</style></head><body><main>''
     @ html_head docs @ concat (map html_condition (conditions docs)) @ concat (map (html_section read) (sections docs))
     @ html_precision read docs @ html_warnings docs
     @ ''<footer>Generated by benchctl. Self-contained: no network access required. Recall is measured inside the targets; ''
     @ ''precision is judged against the catalog with the rules documented in benchctl/findings.py.</footer></main></body></html>'' @ NL\<close>

end
