(* ===== verification/Report_Facts.thy ===== *)
theory Report_Facts
  imports Report_Page
begin

text \<open>
  What a published report cannot do: show the numbers of a passive run without saying so first, or let the text of a
  document, much of which scanned targets and tools have written, become markup of the page.
\<close>

section \<open>Passive runs\<close>

lemma join_split: "\<exists>a b. join sep (xs @ y # ys) = a @ y @ b"
proof (induction xs)
  case Nil
  have "join sep (y # ys) = [] @ y @ (if ys = [] then [] else sep @ join sep ys)" by (cases ys) simp_all
  then show ?case by (metis append_Nil)
next
  case (Cons x xs)
  then obtain a b where "join sep (xs @ y # ys) = a @ y @ b" by blast
  moreover have "join sep (x # zs) = x @ sep @ join sep zs" if "zs \<noteq> []" for zs using that by (cases zs) simp_all
  ultimately have "join sep ((x # xs) @ y # ys) = (x @ sep @ a) @ y @ b" by simp
  then show ?case by blast
qed

lemma join_split2: "\<exists>a b c. join sep (xs @ y # ys @ z # zs) = a @ y @ b @ z @ c"
proof (induction xs)
  case Nil
  obtain a b where "join sep (ys @ z # zs) = a @ z @ b" using join_split by blast
  moreover have "join sep (y # us) = y @ sep @ join sep us" if "us \<noteq> []" for us using that by (cases us) simp_all
  ultimately have "join sep ([] @ y # ys @ z # zs) = [] @ y @ (sep @ a) @ z @ b" by simp
  then show ?case by blast
next
  case (Cons x xs)
  then obtain a b c where "join sep (xs @ y # ys @ z # zs) = a @ y @ b @ z @ c" by blast
  moreover have "join sep (x # us) = x @ sep @ join sep us" if "us \<noteq> []" for us using that by (cases us) simp_all
  ultimately have "join sep ((x # xs) @ y # ys @ z # zs) = (x @ sep @ a) @ y @ b @ z @ c" by simp
  then show ?case by blast
qed

lemma rstrip_after:
  assumes "x \<noteq> []" and "\<not> P (last x)"
  shows "rstrip_where P (x @ z) = x @ rstrip_where P z"
proof -
  have "dropWhile P (zs @ ys) = dropWhile P zs @ ys" if "ys \<noteq> []" "\<not> P (hd ys)" for zs ys
    using that by (induction zs) (cases ys; auto)+
  then have "dropWhile P (rev z @ rev x) = dropWhile P (rev z) @ rev x" using assms by (simp add: hd_rev)
  then show ?thesis by (simp add: rstrip_where_def)
qed

lemma sections_first: "\<exists>rest. sections docs = (''Overall'', [], summary_rows docs) # rest"
  by (simp add: sections_def)

lemma passive_condition:
  assumes "doc \<in> set docs" and "is_passive doc"
  obtains tool mode ls where "(tool, mode, passive_line doc # ls) \<in> set (conditions docs)"
proof
  show "(tool_name doc, scan_mode_label doc, passive_line doc # map jstr (jiter (jget (run_of doc) ''caveats'')) @ request_lines doc)
      \<in> set (conditions docs)"
    using assms by (auto simp: conditions_def mode_line_def Let_def)
qed

lemma in_concat: "x \<in> set xs \<Longrightarrow> f x = u @ y # v \<Longrightarrow> \<exists>a b. concat (map f xs) = a @ y # b"
  by (metis append.assoc append_Cons concat.simps(2) concat_append list.simps(9) map_append split_list)

lemma passive_in_markdown:
  assumes "doc \<in> set docs" and "is_passive doc"
  shows "\<exists>a b c. markdown_report docs = a @ passive_line doc @ b @ ''## Overall'' @ c"
proof -
  obtain tool mode ls where c: "(tool, mode, passive_line doc # ls) \<in> set (conditions docs)"
    using passive_condition [OF assms] by blast
  let ?line = "''>  '' @ DOT @ '' '' @ passive_line doc"
  obtain a b where conds: "md_conditions docs = a @ ?line # b"
    using in_concat [OF c, of "\<lambda>(tool, mode, ls). (''> **'' @ tool @ '' '' @ DASH @ '' '' @ mode @ '' run**'') # map (\<lambda>l. ''>  '' @ DOT @ '' '' @ l) ls @ [[]]"
      "[''> **'' @ tool @ '' '' @ DASH @ '' '' @ mode @ '' run**'']" ?line "map (\<lambda>l. ''>  '' @ DOT @ '' '' @ l) ls @ [[]]"]
    by (auto simp: md_conditions_def)
  obtain rest where rest: "concat (map md_section (sections docs)) = ''## Overall'' # rest"
    using sections_first [of docs] by (auto simp: md_section_def)
  obtain u v w where
    "unlines (md_head docs @ md_conditions docs @ concat (map md_section (sections docs)) @ md_precision docs @ md_warnings docs)
       = u @ ?line @ v @ ''## Overall'' @ w"
    using join_split2 [of NL "md_head docs @ a" ?line b "''## Overall''" "rest @ md_precision docs @ md_warnings docs"]
    by (auto simp: unlines_def conds rest)
  then have "markdown_report docs = rstrip_where (\<lambda>c. c = CHR 0x0A) ((u @ ?line @ v @ ''## Overall'') @ w) @ NL"
    by (simp add: markdown_report_def)
  also have "\<dots> = (u @ ?line @ v @ ''## Overall'') @ rstrip_where (\<lambda>c. c = CHR 0x0A) w @ NL"
    by (subst rstrip_after) simp_all
  finally show ?thesis
    by (intro exI [of _ "u @ ''>  '' @ DOT @ '' ''"] exI [of _ v] exI [of _ "rstrip_where (\<lambda>c. c = CHR 0x0A) w @ NL"]) simp
qed

lemma in_concat_text: "x \<in> set xs \<Longrightarrow> f x = u @ y @ v \<Longrightarrow> \<exists>a b. concat (map f xs) = a @ y @ b"
  by (metis append.assoc concat.simps(2) concat_append list.simps(9) map_append split_list)

lemma passive_in_page:
  assumes "doc \<in> set docs" and "is_passive doc"
  shows "\<exists>a b c. html_report css read docs = a @ html_escape (passive_line doc) @ b @ ''<h2>Overall</h2>'' @ c"
proof -
  obtain tool mode ls where c: "(tool, mode, passive_line doc # ls) \<in> set (conditions docs)"
    using passive_condition [OF assms] by blast
  have "\<exists>u v. html_condition (tool, mode, passive_line doc # ls) = u @ html_escape (passive_line doc) @ v"
    unfolding html_condition_def by (simp only: prod.case list.map concat.simps append_assoc) (metis append_assoc)
  then obtain a b where conds: "concat (map html_condition (conditions docs)) = a @ html_escape (passive_line doc) @ b"
    using in_concat_text [OF c] by metis
  have over: "html_escape ''Overall'' = ''Overall''" by code_simp
  obtain rest where rest: "concat (map (html_section read) (sections docs)) = ''<h2>Overall</h2>'' @ rest"
    using sections_first [of docs] by (auto simp: html_section_def html_heading_def over)
  show ?thesis unfolding html_report_def conds rest by (metis append_assoc)
qed

text \<open>C39: Neither report shows the numbers of a passive run without having said that the tool was never permitted to attack: the line
  that says so stands in front of the first table, in the Markdown and, escaped, in the page.\<close>

theorem passive_marked:
  assumes "doc \<in> set docs" and "is_passive doc"
  shows "(\<exists>a b c. markdown_report docs = a @ passive_line doc @ b @ ''## Overall'' @ c)
    \<and> (\<exists>a b c. html_report css read docs = a @ html_escape (passive_line doc) @ b @ ''<h2>Overall</h2>'' @ c)"
  using passive_in_markdown [OF assms] passive_in_page [OF assms] by blast

definition passive_doc :: obj where
  "passive_doc =
     [(''run'', JObj [(''tool'', JStr ''zap''), (''scan_mode'', JObj [(''mode'', JStr ''passive-only''), (''active'', JBool False)])])]"

lemma passive_marked_witness:
  "is_passive passive_doc \<and> (\<exists>a b c. markdown_report [passive_doc] = a @ passive_line passive_doc @ b @ ''## Overall'' @ c)"
proof -
  have p: "is_passive passive_doc" by code_simp
  then show ?thesis using passive_marked [of passive_doc "[passive_doc]"] by auto
qed

section \<open>The markup of the page\<close>

text \<open>A text in which every tag satisfies a predicate, with no loose angle bracket outside of them.\<close>

function markup_ok :: "(string \<Rightarrow> bool) \<Rightarrow> string \<Rightarrow> bool" where
  "markup_ok T [] = True"
| "markup_ok T (c # s) =
     (if c = CHR ''<'' then CHR ''>'' \<in> set s \<and> T (before (CHR ''>'') s) \<and> markup_ok T (after (CHR ''>'') s)
      else c \<noteq> CHR ''>'' \<and> markup_ok T s)"
  by pat_completeness auto

termination
  by (relation "measure (\<lambda>(T, s). length s)")
     (simp_all add: after_def less_Suc_eq_le le_diff_conv le_SucI [OF length_dropWhile_le])

lemma markup_append: "markup_ok T a \<Longrightarrow> markup_ok T b \<Longrightarrow> markup_ok T (a @ b)"
proof (induction T a rule: markup_ok.induct)
  case (2 T c s)
  have "CHR ''>'' \<in> set s \<Longrightarrow> before (CHR ''>'') (s @ b) = before (CHR ''>'') s"
    "CHR ''>'' \<in> set s \<Longrightarrow> after (CHR ''>'') (s @ b) = after (CHR ''>'') s @ b"
    by (induction s) (auto simp: before_def after_def)
  then show ?case using 2 by (auto split: if_splits)
qed simp

lemma markup_concat: "(\<And>x. x \<in> set xs \<Longrightarrow> markup_ok T (f x)) \<Longrightarrow> markup_ok T (concat (map f xs))"
  by (induction xs) (auto intro: markup_append)

definition neutral :: "string \<Rightarrow> bool" where
  "neutral s = list_all (\<lambda>c. c \<noteq> CHR ''<'' \<and> c \<noteq> CHR ''>'') s"

lemma markup_neutral: "neutral s \<Longrightarrow> markup_ok T s"
  by (induction s) (auto simp: neutral_def)

lemma neutral_escape: "neutral (html_escape s)"
proof -
  have "neutral (html_char c)" for c by (simp add: neutral_def html_char_def)
  then show ?thesis by (induction s) (simp_all add: neutral_def html_escape_def)
qed

lemma neutral_constants: "neutral DASH" "neutral DOT" "neutral NL"
  by code_simp+

lemma digits_neutral: "list_all is_dec s \<Longrightarrow> neutral s"
proof -
  have "\<not> is_dec (CHR ''<'')" "\<not> is_dec (CHR ''>'')" by code_simp+
  then show "list_all is_dec s \<Longrightarrow> neutral s" by (induction s) (auto simp: neutral_def)
qed

lemma neutral_length: "neutral (int_text (int n))"
  by (simp add: int_text_def digits_neutral)

definition PAGE_TAGS :: "string list" where
  \<open>PAGE_TAGS =
     [''!doctype html'', ''html lang="en"'', ''head'', ''meta charset="utf-8"'',
      ''meta name="viewport" content="width=device-width, initial-scale=1"'', ''title'', ''/title'', ''style'', ''/style'', ''/head'', ''body'',
      ''main'', ''footer'', ''/footer'', ''/main'', ''/body'', ''/html'', ''h1'', ''/h1'', ''h2'', ''/h2'', ''p class="sub"'', ''p class="legend"'',
      ''/p'', ''code'', ''/code'', ''span class="na"'', ''span class="bar"'', ''span class="pill"'', ''span class="warn"'', ''span'', ''/span'', ''/i'',
      ''div class="note"'', ''div class="note passive"'', ''div class="wrap"'', ''/div'', ''strong'', ''/strong'', ''ul'', ''ul class="warnings"'', ''/ul'',
      ''li'', ''/li'', ''table'', ''/table'', ''thead'', ''/thead'', ''tbody'', ''/tbody'', ''tr'', ''/tr'', ''th'', ''/th'', ''td'', ''td class="na"'',
      ''td class="tool"'', ''/td'']\<close>

definition bar_tag :: "string \<Rightarrow> bool" where
  \<open>bar_tag t = (take 15 t = ''i style="width:'' \<and> list_all is_dec (take (length t - 17) (drop 15 t)) \<and> drop (length t - 2) t = ''%"'')\<close>

definition page_tag :: "string \<Rightarrow> bool" where
  "page_tag t = (t \<in> set PAGE_TAGS \<or> bar_tag t)"

abbreviation page_safe :: "string \<Rightarrow> bool" where
  "page_safe \<equiv> markup_ok page_tag"

lemma safe_texts: "page_safe (html_escape s)" "page_safe DASH" "page_safe DOT" "page_safe NL" "page_safe (int_text (int n))" "page_safe []"
  by (simp_all add: markup_neutral neutral_escape neutral_constants neutral_length)

lemma whole_digits: "0 \<le> q \<Longrightarrow> list_all is_dec (whole q)"
proof -
  assume "0 \<le> q"
  then have "0 \<le> round_even q" by (simp add: round_even_def Let_def)
  then show ?thesis using \<open>0 \<le> q\<close> by (simp add: whole_def int_text_def)
qed

lemma safe_bar:
  assumes "list_all is_dec w"
  shows \<open>page_safe (''<i style="width:'' @ w @ ''%">'')\<close>
proof -
  let ?t = \<open>''i style="width:'' @ w @ ''%"''\<close>
  have n: "CHR ''>'' \<notin> set w" using digits_neutral [OF assms] by (auto simp: neutral_def list_all_iff)
  have "CHR ''>'' \<notin> set ?t" using n by simp
  then have "before (CHR ''>'') (?t @ ''>'') = ?t" "after (CHR ''>'') (?t @ ''>'') = []"
    by (simp_all add: before_def after_def takeWhile_append2 dropWhile_append2 takeWhile_append dropWhile_append)
  moreover have "bar_tag ?t" using assms by (simp add: bar_tag_def)
  ultimately have "page_safe (CHR ''<'' # ?t @ ''>'')" by (simp add: page_tag_def del: append_Cons append.append_Cons)
  then show ?thesis by simp
qed

lemma safe_cell: "page_safe (html_cell read text)"
proof -
  have bar: \<open>page_safe (''<td><span class="bar">'' @ (''<i style="width:'' @ whole (max 0 (min 100 pct)) @ ''%">'')
      @ ''</i><span>'' @ html_escape text @ ''</span></span></td>'')\<close> for pct
  proof (rule markup_append)
    show \<open>page_safe ((''<i style="width:'' @ whole (max 0 (min 100 pct)) @ ''%">'') @ ''</i><span>'' @ html_escape text @ ''</span></span></td>'')\<close>
    proof (rule markup_append)
      show \<open>page_safe (''<i style="width:'' @ whole (max 0 (min 100 pct)) @ ''%">'')\<close> by (rule safe_bar [OF whole_digits]) simp
      show "page_safe (''</i><span>'' @ html_escape text @ ''</span></span></td>'')" by (intro markup_append safe_texts) code_simp+
    qed
  qed code_simp
  have plain: "page_safe (''<td>'' @ html_escape text @ ''</td>'')" by (intro markup_append safe_texts) code_simp+
  have dash: \<open>page_safe (''<td class="na">'' @ DASH @ ''</td>'')\<close> by code_simp
  show ?thesis
    using bar plain dash unfolding html_cell_def by (simp split: option.split)
qed

lemma safe_table: "page_safe (html_table read t)"
proof -
  have "page_safe (html_row read row)" for row
    unfolding html_row_def by (intro markup_append markup_concat safe_texts safe_cell) code_simp+
  then show ?thesis
    unfolding html_table_def by (intro markup_append markup_concat safe_texts) (assumption | code_simp)+
qed

lemma safe_heading: "page_safe s \<Longrightarrow> page_safe (html_heading s)"
  unfolding html_heading_def by (intro markup_append) (assumption | code_simp)+

lemma safe_legend: "page_safe s \<Longrightarrow> page_safe (html_legend s)"
  unfolding html_legend_def by (intro markup_append) (assumption | code_simp)+

lemma safe_if: "(P \<Longrightarrow> page_safe a) \<Longrightarrow> (\<not> P \<Longrightarrow> page_safe b) \<Longrightarrow> page_safe (if P then a else b)"
  by simp

lemma safe_condition: "page_safe (html_condition c)"
proof (cases c)
  case (fields tool mode ls)
  show ?thesis
    unfolding html_condition_def fields prod.case
    by (intro markup_append markup_concat safe_texts safe_if) code_simp+
qed

lemma safe_section: "page_safe (html_section read s)"
proof (cases s)
  case (fields head legend t)
  show ?thesis
    unfolding html_section_def fields prod.case
    by (intro markup_append safe_heading safe_legend safe_texts safe_table safe_if)
qed

lemma safe_findings: "page_safe (html_findings read doc)"
  unfolding html_findings_def Let_def
  by (intro markup_append safe_heading safe_legend safe_texts safe_table safe_if) code_simp+

lemma safe_precision: "page_safe (html_precision read docs)"
  unfolding html_precision_def
  by (intro markup_append markup_concat safe_heading safe_legend safe_texts safe_table safe_findings safe_if) code_simp+

lemma safe_warnings: "page_safe (html_warnings docs)"
  unfolding html_warnings_def case_prod_beta
  by (intro markup_append markup_concat safe_heading safe_legend safe_texts safe_if) code_simp+

lemma safe_head: "page_safe (html_head docs)"
  unfolding html_head_def by (intro markup_append safe_texts) code_simp+



section \<open>What is looser than it says\<close>

text \<open>Cells of the Markdown tables are not escaped: a bar in a text starts a new cell.\<close>

lemma bar_splits_row: "md_line [''zap'', ''a | b''] = md_line [''zap'', ''a'', ''b'']"
  by code_simp

text \<open>A tool that reaches more of the single-page applications than of the static pages gets a double sign.\<close>

lemma delta_double_sign:
  "spa_delta
     [(''static-html'', JObj [(''reach'', JObj [(''recall'', JFloat (1/2) ''0.5''), (''hit'', JInt 1), (''applicable'', JInt 2)])]),
      (''spa-react'', JObj [(''reach'', JObj [(''recall'', JFloat 1 ''1.0''), (''hit'', JInt 2), (''applicable'', JInt 2)])])] = ''--50 pts''"
  by code_simp

text \<open>A reset that failed without two digests to compare makes the run dirty, and no application is named.\<close>

lemma dirty_without_name:
  "reset_text [(''reset_consistent'', JBool False),
     (''reset_digests'', JObj [(''shop'', JObj [(''match'', JNull), (''ok'', JBool False)])])] = ''DIRTY: ''"
  by code_simp

text \<open>The mode that the harness writes for a passive run is not among those the page gives the passive style to.\<close>

lemma passive_only_unstyled:
  \<open>is_passive passive_doc \<and> map (\<lambda>c. take 18 (html_condition c)) (conditions [passive_doc]) = [''<div class="note">'']\<close>
  by code_simp

end
